(* ===== verification/Prelude.thy ===== *)
theory Prelude
  imports Main "HOL-Library.Word" "HOL-Library.Monad_Syntax"
begin

text \<open>
  Shared vocabulary of the development: the C integer types as words, the topology and
  memory-map constants that the build generates (\<open>generated/autoconf.h\<close>, written by
  Kconfig) as a record of parameters, and the generic lemmas on words and lists that the
  component theories use.

  Conventions. A C \<open>uint32_t\<close> is a \<open>32 word\<close>; \<open>+\<close>, \<open>-\<close> and \<open>*\<close> wrap. \<open>a << n\<close> is
  \<open>push_bit n a\<close>, \<open>a >> n\<close> on an unsigned value is \<open>drop_bit n a\<close>, \<open>int32_t(a) >> n\<close> is
  \<open>signed_drop_bit n a\<close>, and \<open>int32_t(a) < int32_t(b)\<close> is \<open>sint a < sint b\<close>.
  A failed \<open>Assert\<close> ends the process (\<open>abort()\<close>): operations that can reach one return
  \<open>option\<close>, and \<open>None\<close> is the abort.
\<close>

unbundle bit_operations_syntax

type_synonym u8 = "8 word"
type_synonym u32 = "32 word"
type_synonym u64 = "64 word"

text \<open>Facts that unfold the small definitions of the model, for the component proofs.\<close>

named_theorems pmem_simps \<open>physical-memory lookup and update rules\<close>
named_theorems frame_simps \<open>fields that an operation leaves unchanged\<close>

subsection \<open>Build configuration\<close>

text \<open>
  The constants \<open>CONFIG_*\<close> of the generated header. \<open>cfg_hm\<close> and \<open>cfg_difftest\<close> select
  the \<open>#if\<close> branches of the runtime.
\<close>

record gpu_config =
  cfg_cores :: nat
  cfg_warps :: nat
  cfg_threads :: nat
  cfg_mbase :: u32
  cfg_msize :: u32
  cfg_hm :: bool
  cfg_difftest :: bool

definition pow2_upto_64 :: "nat \<Rightarrow> bool" where
  "pow2_upto_64 n \<longleftrightarrow> n \<in> set [1, 2, 4, 8, 16, 32, 64]"

text \<open>
  What a legal configuration satisfies: the Kconfig ranges (1 to 64), the two
  \<open>#error\<close> checks at the head of \<open>gpu.c\<close> (powers of two) and a memory map that contains
  the fixed kernel image, stack and heap addresses of \<open>gpu.h\<close> without wrapping the
  32-bit address space.
\<close>

definition config_ok :: "gpu_config \<Rightarrow> bool" where
  "config_ok cfg \<longleftrightarrow>
     1 \<le> cfg_cores cfg \<and> cfg_cores cfg \<le> 64 \<and>
     pow2_upto_64 (cfg_warps cfg) \<and> pow2_upto_64 (cfg_threads cfg) \<and>
     unat (cfg_mbase cfg) \<le> 0x81000000 \<and>
     0x82000000 < unat (cfg_mbase cfg) + unat (cfg_msize cfg) \<and>
     unat (cfg_mbase cfg) + unat (cfg_msize cfg) \<le> 2 ^ 32 - 64"

text \<open>The values of \<open>configs/gpu_sm_defconfig\<close> and the Kconfig defaults.\<close>

definition default_config :: gpu_config where
  "default_config = \<lparr>cfg_cores = 2, cfg_warps = 4, cfg_threads = 4,
     cfg_mbase = 0x80000000, cfg_msize = 0x8000000, cfg_hm = False, cfg_difftest = False\<rparr>"

lemma default_config_ok: "config_ok default_config"
  by (simp add: config_ok_def default_config_def pow2_upto_64_def)

definition lanes_per_core :: "gpu_config \<Rightarrow> nat" where
  "lanes_per_core cfg = cfg_warps cfg * cfg_threads cfg"

definition num_harts :: "gpu_config \<Rightarrow> nat" where
  "num_harts cfg = cfg_cores cfg * cfg_warps cfg * cfg_threads cfg"

lemma pow2_upto_64_bounds: "pow2_upto_64 n \<Longrightarrow> 1 \<le> n \<and> n \<le> 64"
  by (auto simp: pow2_upto_64_def)

lemma config_threads_bounds: "config_ok cfg \<Longrightarrow> 1 \<le> cfg_threads cfg \<and> cfg_threads cfg \<le> 64"
  using pow2_upto_64_bounds by (auto simp: config_ok_def)

lemma config_warps_bounds: "config_ok cfg \<Longrightarrow> 1 \<le> cfg_warps cfg \<and> cfg_warps cfg \<le> 64"
  using pow2_upto_64_bounds by (auto simp: config_ok_def)

lemma lanes_per_core_bounds:
  assumes "config_ok cfg"
  shows "1 \<le> lanes_per_core cfg \<and> lanes_per_core cfg \<le> 4096"
proof -
  have "cfg_warps cfg * cfg_threads cfg \<le> 64 * 64"
    using config_warps_bounds[OF assms] config_threads_bounds[OF assms] by (intro mult_le_mono) auto
  then show ?thesis
    using config_warps_bounds[OF assms] config_threads_bounds[OF assms]
    by (simp add: lanes_per_core_def)
qed

lemma num_harts_bounds:
  assumes "config_ok cfg"
  shows "1 \<le> num_harts cfg \<and> num_harts cfg \<le> 262144"
proof -
  have "cfg_cores cfg * lanes_per_core cfg \<le> 64 * 4096"
    using lanes_per_core_bounds[OF assms] assms by (intro mult_le_mono) (auto simp: config_ok_def)
  moreover have "1 \<le> cfg_cores cfg * lanes_per_core cfg"
    using lanes_per_core_bounds[OF assms] assms by (simp add: config_ok_def)
  ultimately show ?thesis by (simp add: num_harts_def lanes_per_core_def mult.assoc)
qed

subsection \<open>Three-dimensional sizes and indices\<close>

text \<open>A \<open>uint32_t[3]\<close> of the sources; \<open>dim_put k v\<close> is the assignment \<open>d[k] = v\<close>.\<close>

record dim3 =
  dim_x :: u32
  dim_y :: u32
  dim_z :: u32

definition dim_put :: "nat \<Rightarrow> u32 \<Rightarrow> dim3 \<Rightarrow> dim3" where
  "dim_put k v d = (if k = 0 then d\<lparr>dim_x := v\<rparr> else if k = 1 then d\<lparr>dim_y := v\<rparr>
                    else d\<lparr>dim_z := v\<rparr>)"

definition dim_get :: "nat \<Rightarrow> dim3 \<Rightarrow> u32" where
  "dim_get k d = (if k = 0 then dim_x d else if k = 1 then dim_y d else dim_z d)"

definition dim_ones :: dim3 where
  "dim_ones = \<lparr>dim_x = 1, dim_y = 1, dim_z = 1\<rparr>"

definition dim_zeros :: dim3 where
  "dim_zeros = \<lparr>dim_x = 0, dim_y = 0, dim_z = 0\<rparr>"

definition dim_volume :: "dim3 \<Rightarrow> nat" where
  "dim_volume d = unat (dim_x d) * unat (dim_y d) * unat (dim_z d)"

definition dim_positive :: "dim3 \<Rightarrow> bool" where
  "dim_positive d \<longleftrightarrow> dim_x d \<noteq> 0 \<and> dim_y d \<noteq> 0 \<and> dim_z d \<noteq> 0"

lemma dim_volume_pos: "0 < dim_volume d \<longleftrightarrow> dim_positive d"
  by (auto simp: dim_volume_def dim_positive_def unat_gt_0)

text \<open>Position of an index triple in X, Y, Z order, and the triple at a position.\<close>

definition dim_linear :: "dim3 \<Rightarrow> dim3 \<Rightarrow> nat" where
  "dim_linear d i = (unat (dim_z i) * unat (dim_y d) + unat (dim_y i)) * unat (dim_x d) + unat (dim_x i)"

definition dim_inside :: "dim3 \<Rightarrow> dim3 \<Rightarrow> bool" where
  "dim_inside d i \<longleftrightarrow> dim_x i < dim_x d \<and> dim_y i < dim_y d \<and> dim_z i < dim_z d"

subsection \<open>Words\<close>

definition bool_u32 :: "bool \<Rightarrow> u32" where
  "bool_u32 b = (if b then 1 else 0)"

lemma unat_lt2p_u32: "unat (a :: u32) < 2 ^ 32"
  using unsigned_less[of a] by simp

lemma unat_of_nat_u32: "n < 2 ^ 32 \<Longrightarrow> unat (of_nat n :: u32) = n"
  by (simp add: unat_of_nat take_bit_nat_eq_self)

lemma unat_of_nat_u64: "n < 2 ^ 64 \<Longrightarrow> unat (of_nat n :: u64) = n"
  by (simp add: unat_of_nat take_bit_nat_eq_self)

lemma unat_ucast_u32: "unat w < 2 ^ 32 \<Longrightarrow> unat (ucast (w :: u64) :: u32) = unat w"
  by (simp add: unsigned_ucast_eq take_bit_nat_eq_self)

lemma unat_ucast_u64: "unat (ucast (w :: u32) :: u64) = unat w"
  using unat_lt2p_u32[of w] by (simp add: unsigned_ucast_eq take_bit_nat_eq_self)

lemma unat_add_u32: "unat a + unat b < 2 ^ 32 \<Longrightarrow> unat (a + b :: u32) = unat a + unat b"
  by (simp add: unat_word_ariths)

lemma unat_mult_u32: "unat a * unat b < 2 ^ 32 \<Longrightarrow> unat (a * b :: u32) = unat a * unat b"
  by (simp add: unat_word_ariths)

lemma unat_sub_u32: "b \<le> a \<Longrightarrow> unat (a - b :: u32) = unat a - unat b"
  by (rule unat_sub)

lemma unat_less_u32: "unat (a :: u32) < 4294967296"
  using unsigned_less[of a] by simp

lemma unat_less_u64: "unat (a :: u64) < 18446744073709551616"
  using unsigned_less[of a] by simp

lemma unat_inc_u64: "a < b \<Longrightarrow> unat (a + 1 :: u64) = Suc (unat a)"
  using unat_less_u64[of b] by (simp add: unat_word_ariths word_less_nat_alt)

lemma unat_inc_u32: "a < b \<Longrightarrow> unat (a + 1 :: u32) = Suc (unat a)"
  using unat_less_u32[of b] by (simp add: unat_word_ariths word_less_nat_alt)

subsection \<open>Mixed-radix decomposition\<close>

lemma mixed_radix_recombine:
  fixes i x y :: nat
  shows "((i div (x * y)) * y + (i div x) mod y) * x + i mod x = i"
  by (simp add: div_mult2_eq)

lemma mixed_radix_bound:
  fixes i x y z :: nat
  assumes "i < x * y * z"
  shows "i div (x * y) < z"
  using assms by (simp add: less_mult_imp_div_less mult.commute)

subsection \<open>Lists\<close>

lemma list_update_all:
  assumes "\<forall>x \<in> set xs. P x" and "P y"
  shows "\<forall>x \<in> set (xs[i := y]). P x"
  using assms set_update_subset_insert[of xs i y] by blast

lemma nth_list_update_if:
  "i < length xs \<Longrightarrow> xs[i := y] ! j = (if i = j then y else xs ! j)"
  by (simp add: nth_list_update)

end
