(* ===== verification/Pmem.thy ===== *)
theory Pmem
  imports Prelude
begin

text \<open>
  The physical memory of the simulated device, \<open>sw/runtime/device/memory.c\<close>: a byte
  array of \<open>CONFIG_MSIZE\<close> bytes mapped at \<open>CONFIG_MBASE\<close>, read and written in little-endian
  words of one, two or four bytes. The array is a function from byte offsets to bytes; the
  pointer \<open>pmem\<close> is an option, \<open>NULL\<close> before \<open>init_mem\<close> and after \<open>free_mem\<close>.
  The theory states the interface \<open>word_store\<close> that the rest of the device relies on,
  proves its client lemmas (masked stores) once, and interprets it on PMEM.
\<close>

type_synonym pmem = "u32 \<Rightarrow> u8"

subsection \<open>Operations\<close>

text \<open>\<open>calloc\<close> may fail: the argument says whether it returned a block.\<close>

definition init_mem :: "bool \<Rightarrow> pmem option" where
  "init_mem calloc_ok = (if calloc_ok then Some (\<lambda>_. 0) else None)"

definition free_mem :: "pmem option \<Rightarrow> pmem option" where
  "free_mem p = None"

definition in_pmem :: "gpu_config \<Rightarrow> u32 \<Rightarrow> bool" where
  "in_pmem cfg addr \<longleftrightarrow> addr - cfg_mbase cfg < cfg_msize cfg"

text \<open>A host pointer into PMEM is the byte offset from \<open>pmem\<close>; \<open>None\<close> is the failed \<open>Assert\<close>.\<close>

definition guest_to_host :: "gpu_config \<Rightarrow> u32 \<Rightarrow> u32 option" where
  "guest_to_host cfg addr = (if in_pmem cfg addr then Some (addr - cfg_mbase cfg) else None)"

text \<open>\<open>memcpy\<close> between the byte array and a little-endian 32-bit value.\<close>

fun load_le :: "pmem \<Rightarrow> u32 \<Rightarrow> nat \<Rightarrow> u32" where
  "load_le m off 0 = 0"
| "load_le m off (Suc n) = ucast (m off) OR push_bit 8 (load_le m (off + 1) n)"

fun store_le :: "pmem \<Rightarrow> u32 \<Rightarrow> nat \<Rightarrow> u32 \<Rightarrow> pmem" where
  "store_le m off 0 v = m"
| "store_le m off (Suc n) v = store_le (m(off := ucast v)) (off + 1) n (drop_bit 8 v)"

definition paddr_read :: "gpu_config \<Rightarrow> pmem \<Rightarrow> u32 \<Rightarrow> nat \<Rightarrow> u32 option" where
  "paddr_read cfg m addr len =
     (if in_pmem cfg addr \<and> in_pmem cfg (addr + of_nat len - 1)
      then map_option (\<lambda>off. load_le m off len) (guest_to_host cfg addr)
      else None)"

definition paddr_write :: "gpu_config \<Rightarrow> pmem \<Rightarrow> u32 \<Rightarrow> nat \<Rightarrow> u32 \<Rightarrow> pmem option" where
  "paddr_write cfg m addr len data =
     (if in_pmem cfg addr \<and> in_pmem cfg (addr + of_nat len - 1)
      then map_option (\<lambda>off. store_le m off len data) (guest_to_host cfg addr)
      else None)"

text \<open>
  \<open>memcpy\<close> and \<open>memset\<close> of whole blocks through \<open>guest_to_host\<close>, as the runtime uses
  them: only the first address is checked by the \<open>Assert\<close>.
\<close>

fun copy_in :: "pmem \<Rightarrow> u32 \<Rightarrow> u8 list \<Rightarrow> pmem" where
  "copy_in m off [] = m"
| "copy_in m off (b # bs) = copy_in (m(off := b)) (off + 1) bs"

definition copy_out :: "pmem \<Rightarrow> u32 \<Rightarrow> nat \<Rightarrow> u8 list" where
  "copy_out m off n = map (\<lambda>k. m (off + of_nat k)) [0..<n]"

subsection \<open>Little-endian words\<close>

lemma store_le_other:
  "(\<And>k. k < n \<Longrightarrow> b \<noteq> a + of_nat k) \<Longrightarrow> store_le m a n v b = m b"
proof (induction m a n v rule: store_le.induct)
  case (1 m off v)
  then show ?case by simp
next
  case (2 m off n v)
  have "b \<noteq> off" using "2.prems"[of 0] by simp
  moreover have "b \<noteq> off + 1 + of_nat k" if "k < n" for k
    using "2.prems"[of "Suc k"] that by (simp add: add.assoc)
  ultimately show ?case using "2.IH" by (simp add: fun_upd_def)
qed

lemma of_nat_add_eq_self_iff:
  "j < 2 ^ 32 \<Longrightarrow> k < 2 ^ 32 \<Longrightarrow> (a :: u32) + of_nat j = a + of_nat k \<longleftrightarrow> j = k"
proof -
  assume jk: "j < 2 ^ 32" "k < 2 ^ 32"
  have "a + of_nat j = a + of_nat k \<longleftrightarrow> (of_nat j :: u32) = of_nat k" by simp
  also have "\<dots> \<longleftrightarrow> j = k"
    using jk by (metis unat_of_nat_u32)
  finally show ?thesis .
qed

lemma store_le_at:
  "k < n \<Longrightarrow> n < 2 ^ 32 \<Longrightarrow> store_le m a n v (a + of_nat k) = ucast (drop_bit (8 * k) v)"
proof (induction m a n v arbitrary: k rule: store_le.induct)
  case (1 m off v)
  then show ?case by simp
next
  case (2 m off n v)
  show ?case
  proof (cases k)
    case 0
    have "store_le (m(off := ucast v)) (off + 1) n (drop_bit 8 v) off = (m(off := ucast v)) off"
    proof (rule store_le_other)
      fix j assume "j < n"
      then have "off + of_nat (Suc j) \<noteq> off + of_nat 0"
        using "2.prems"(2) by (subst of_nat_add_eq_self_iff) auto
      then show "off \<noteq> off + 1 + of_nat j" by (simp add: add.assoc)
    qed
    then show ?thesis using 0 by simp
  next
    case (Suc j)
    have "store_le (m(off := ucast v)) (off + 1) n (drop_bit 8 v) (off + 1 + of_nat j)
        = ucast (drop_bit (8 * j) (drop_bit 8 v))"
      using "2.prems" Suc by (intro "2.IH") auto
    then show ?thesis using Suc by (simp add: add.assoc drop_bit_drop_bit add.commute[of 8])
  qed
qed

lemma bit_load_le:
  "bit (load_le m a n) j \<longleftrightarrow> j < 32 \<and> j < 8 * n \<and> bit (m (a + of_nat (j div 8))) (j mod 8)"
proof (induction m a n arbitrary: j rule: load_le.induct)
  case (1 m off)
  then show ?case by simp
next
  case (2 m off n)
  show ?case
  proof (cases "j < 8")
    case True
    then show ?thesis by (auto simp: bit_simps dest: bit_imp_le_length)
  next
    case False
    then obtain i where i: "j = 8 + i" by (metis le_add_diff_inverse not_less)
    then have d: "j div 8 = Suc (i div 8)" and "j mod 8 = i mod 8" by simp_all
    have "\<not> bit (m off) j" using False bit_imp_le_length[of "m off" j] by auto
    then show ?thesis
      using "2.IH"[of i] i unfolding d
      by (auto simp: bit_simps add.assoc dest: bit_imp_le_length)
  qed
qed

lemma load_store_le:
  assumes "n \<le> 4"
  shows "load_le (store_le m a n v) a n = take_bit (8 * n) v"
proof (rule bit_word_eqI)
  fix j assume j: "j < LENGTH(32)"
  have "j div 8 < n" if "j < 8 * n" using that by auto
  then have "bit (store_le m a n v (a + of_nat (j div 8))) (j mod 8) = bit v j" if "j < 8 * n"
    using that assms by (simp add: store_le_at bit_simps)
  then show "bit (load_le (store_le m a n v) a n) j = bit (take_bit (8 * n) v) j"
    using j by (auto simp: bit_load_le bit_take_bit_iff)
qed

lemma load_store_le_disjoint:
  assumes "\<And>j k. j < n \<Longrightarrow> k < l \<Longrightarrow> b + of_nat j \<noteq> a + of_nat k"
  shows "load_le (store_le m a l v) b n = load_le m b n"
proof (rule bit_word_eqI)
  fix j assume "j < LENGTH(32)"
  have "store_le m a l v (b + of_nat (j div 8)) = m (b + of_nat (j div 8))" if "j < 8 * n"
  proof (rule store_le_other)
    fix k assume "k < l"
    moreover have "j div 8 < n" using that by auto
    ultimately show "b + of_nat (j div 8) \<noteq> a + of_nat k" by (rule assms[rotated])
  qed
  then show "bit (load_le (store_le m a l v) b n) j = bit (load_le m b n) j"
    by (auto simp: bit_load_le)
qed

subsection \<open>PMEM accesses\<close>

text \<open>An access width that the devices use.\<close>

definition access_len :: "nat \<Rightarrow> bool" where
  "access_len n \<longleftrightarrow> n = 1 \<or> n = 2 \<or> n = 4"

lemma access_len_le_4: "access_len n \<Longrightarrow> 0 < n \<and> n \<le> 4"
  by (auto simp: access_len_def)

definition spans_disjoint :: "u32 \<Rightarrow> nat \<Rightarrow> u32 \<Rightarrow> nat \<Rightarrow> bool" where
  "spans_disjoint a l b n \<longleftrightarrow> (\<forall>j < n. \<forall>k < l. b + of_nat j \<noteq> a + of_nat k)"

lemma paddr_read_eq [pmem_simps]:
  "paddr_read cfg m a n =
     (if in_pmem cfg a \<and> in_pmem cfg (a + of_nat n - 1) then Some (load_le m (a - cfg_mbase cfg) n) else None)"
  by (simp add: paddr_read_def guest_to_host_def)

lemma paddr_write_eq [pmem_simps]:
  "paddr_write cfg m a n v =
     (if in_pmem cfg a \<and> in_pmem cfg (a + of_nat n - 1) then Some (store_le m (a - cfg_mbase cfg) n v) else None)"
  by (simp add: paddr_write_def guest_to_host_def)

lemma paddr_write_None_iff: "paddr_write cfg m a n v = None \<longleftrightarrow> paddr_read cfg m a n = None"
  by (simp add: pmem_simps)

lemma paddr_read_write_same:
  "paddr_write cfg m a n v = Some m' \<Longrightarrow> n \<le> 4 \<Longrightarrow> paddr_read cfg m' a n = Some (take_bit (8 * n) v)"
  by (auto simp: pmem_simps load_store_le split: if_splits)

lemma paddr_read_write_other:
  assumes "paddr_write cfg m a l v = Some m'" and "spans_disjoint a l b n"
  shows "paddr_read cfg m' b n = paddr_read cfg m b n"
proof -
  have "load_le (store_le m (a - cfg_mbase cfg) l v) (b - cfg_mbase cfg) n = load_le m (b - cfg_mbase cfg) n"
  proof (rule load_store_le_disjoint)
    fix j k assume "j < n" "k < l"
    with assms(2) have "b + of_nat j \<noteq> a + of_nat k" by (simp add: spans_disjoint_def)
    then show "b - cfg_mbase cfg + of_nat j \<noteq> a - cfg_mbase cfg + of_nat k"
      by (simp add: algebra_simps)
  qed
  then show ?thesis using assms(1) by (auto simp: pmem_simps split: if_splits)
qed

lemma in_pmem_iff_range:
  assumes "config_ok cfg"
  shows "in_pmem cfg a \<longleftrightarrow>
    unat (cfg_mbase cfg) \<le> unat a \<and> unat a < unat (cfg_mbase cfg) + unat (cfg_msize cfg)"
proof -
  let ?B = "unat (cfg_mbase cfg)" and ?S = "unat (cfg_msize cfg)"
  have b: "?B + ?S \<le> 2 ^ 32 - 64" using assms by (simp add: config_ok_def)
  show ?thesis
  proof (cases "cfg_mbase cfg \<le> a")
    case True
    then have "unat (a - cfg_mbase cfg) = unat a - ?B" by (rule unat_sub_u32)
    then show ?thesis using True by (auto simp: in_pmem_def word_less_nat_alt word_le_nat_alt)
  next
    case False
    then have lt: "unat a < ?B" by (simp add: word_le_nat_alt)
    have "unat (a - cfg_mbase cfg) = 2 ^ 32 - ?B + unat a"
      using lt unat_less_u32[of "cfg_mbase cfg"] by (simp add: unat_sub_if' word_le_nat_alt)
    then show ?thesis using lt b by (auto simp: in_pmem_def word_less_nat_alt)
  qed
qed

text \<open>
  The two end checks of \<open>paddr_read\<close> and \<open>paddr_write\<close> put every byte of the access
  inside the array.
\<close>

lemma paddr_bounds_cover:
  assumes "config_ok cfg" "in_pmem cfg a" "in_pmem cfg (a + of_nat n - 1)" "n \<le> 4" "k < n"
  shows "in_pmem cfg (a + of_nat k)" and "unat (a + of_nat k) = unat a + k"
proof -
  let ?E = "unat (cfg_mbase cfg) + unat (cfg_msize cfg)"
  have E: "?E \<le> 2 ^ 32 - 64" using assms(1) by (simp add: config_ok_def)
  have a: "unat a < ?E" using assms(1,2) by (simp add: in_pmem_iff_range)
  have "unat (a + of_nat j) = unat a + j" if "j \<le> 4" for j
    using that a E by (subst unat_add_u32) (auto simp: unat_of_nat_u32)
  note add = this
  obtain p where p: "n = Suc p" using assms(5) by (cases n) auto
  then have "a + of_nat n - 1 = a + of_nat p" by simp
  then have "unat a + p < ?E"
    using assms(1,3,4) add[of p] p by (simp add: in_pmem_iff_range)
  then show "unat (a + of_nat k) = unat a + k" and "in_pmem cfg (a + of_nat k)"
    using assms add[of k] p by (auto simp: in_pmem_iff_range)
qed

subsection \<open>The interface of a byte-addressed store\<close>

text \<open>
  What the simulators need of a memory: reads and writes of 1, 2 or 4 bytes that fail
  together, a read after a write of the same span, and independence of disjoint spans.
\<close>

locale word_store =
  fixes rd :: "'s \<Rightarrow> u32 \<Rightarrow> nat \<Rightarrow> u32 option"
    and wr :: "'s \<Rightarrow> u32 \<Rightarrow> nat \<Rightarrow> u32 \<Rightarrow> 's option"
  assumes wr_fails: "wr s a n v = None \<longleftrightarrow> rd s a n = None"
    and rd_wr_same: "wr s a n v = Some s' \<Longrightarrow> access_len n \<Longrightarrow> rd s' a n = Some (take_bit (8 * n) v)"
    and rd_wr_other: "wr s a l v = Some s' \<Longrightarrow> spans_disjoint a l b n \<Longrightarrow> rd s' b n = rd s b n"

text \<open>
  The byte loop of \<open>dpi_paddr_write\<close> and of \<open>tick\<close>: \<open>for byte in 0..3, if (mask & (1 << byte))
  paddr_write(addr + byte, 1, data >> (8 * byte))\<close>. It is generic in the store.
\<close>

fun masked_bytes ::
  "('s \<Rightarrow> u32 \<Rightarrow> nat \<Rightarrow> u32 \<Rightarrow> 's option) \<Rightarrow> u32 \<Rightarrow> u8 \<Rightarrow> u32 \<Rightarrow> nat list \<Rightarrow> 's \<Rightarrow> 's option" where
  "masked_bytes w addr msk data [] s = Some s"
| "masked_bytes w addr msk data (b # bs) s =
     do { s' \<leftarrow> (if bit msk b then w s (addr + of_nat b) 1 (drop_bit (8 * b) data) else Some s);
          masked_bytes w addr msk data bs s' }"

context word_store
begin

lemma rd_byte_other:
  "wr s a 1 v = Some s' \<Longrightarrow> b \<noteq> a \<Longrightarrow> rd s' b 1 = rd s b 1"
  by (rule rd_wr_other) (auto simp: spans_disjoint_def)

lemma rd_byte_same: "wr s a 1 v = Some s' \<Longrightarrow> rd s' a 1 = Some (take_bit 8 v)"
  using rd_wr_same[of s a 1 v s'] by (simp add: access_len_def)

lemma masked_bytes_other:
  "masked_bytes wr addr msk data bs s = Some s' \<Longrightarrow>
   (\<And>k. k \<in> set bs \<Longrightarrow> bit msk k \<Longrightarrow> b \<noteq> addr + of_nat k) \<Longrightarrow> rd s' b 1 = rd s b 1"
proof (induction bs arbitrary: s)
  case Nil
  then show ?case by simp
next
  case (Cons k bs)
  from Cons.prems(1) obtain s1
    where s1: "(if bit msk k then wr s (addr + of_nat k) 1 (drop_bit (8 * k) data) else Some s) = Some s1"
      and rest: "masked_bytes wr addr msk data bs s1 = Some s'"
    by (auto split: bind_splits if_splits)
  have "rd s' b 1 = rd s1 b 1" using rest Cons.prems(2) by (intro Cons.IH) auto
  moreover have "rd s1 b 1 = rd s b 1"
    using s1 Cons.prems(2) by (auto split: if_splits dest: rd_byte_other[unfolded One_nat_def])
  ultimately show ?case by simp
qed

lemma masked_bytes_same:
  "masked_bytes wr addr msk data bs s = Some s' \<Longrightarrow> distinct bs \<Longrightarrow> set bs \<subseteq> {..<4} \<Longrightarrow>
   b \<in> set bs \<Longrightarrow> bit msk b \<Longrightarrow> rd s' (addr + of_nat b) 1 = Some (take_bit 8 (drop_bit (8 * b) data))"
proof (induction bs arbitrary: s)
  case Nil
  then show ?case by simp
next
  case (Cons k bs)
  from Cons.prems(1) obtain s1
    where s1: "(if bit msk k then wr s (addr + of_nat k) 1 (drop_bit (8 * k) data) else Some s) = Some s1"
      and rest: "masked_bytes wr addr msk data bs s1 = Some s'"
    by (auto split: bind_splits if_splits)
  show ?case
  proof (cases "b = k")
    case True
    have "rd s' (addr + of_nat b) 1 = rd s1 (addr + of_nat b) 1"
    proof (rule masked_bytes_other[OF rest])
      fix j assume "j \<in> set bs"
      then have "j \<noteq> b" "j < 4" "b < 4" using True Cons.prems by auto
      then show "addr + of_nat b \<noteq> addr + of_nat j"
        by (subst of_nat_add_eq_self_iff) auto
    qed
    then show ?thesis using s1 True Cons.prems(5) by (simp add: rd_byte_same[unfolded One_nat_def])
  next
    case False
    then show ?thesis using Cons.prems rest by (intro Cons.IH) auto
  qed
qed

end

interpretation pm: word_store "paddr_read cfg" "paddr_write cfg" for cfg
  by unfold_locales
    (auto simp: paddr_write_None_iff access_len_def intro: paddr_read_write_same paddr_read_write_other)

end
