(* ===== verification/Trace.thy ===== *)
theory Trace
  imports Prelude
begin

text \<open>
  The bounded instruction and store trace of \<open>sw/runtime/gpu/gpu.c\<close>
  (\<open>gpu_trace_enabled\<close>, \<open>gpu_trace_suppress\<close>, \<open>gpu_trace_commit\<close>, \<open>gpu_trace_store\<close> and
  the variables \<open>trace_requested\<close>, \<open>trace_suppressed\<close>, \<open>trace_limit\<close>, \<open>trace_events\<close>).
  The lines that \<open>printf\<close> writes are the list \<open>tr_out\<close>, newest first.
\<close>

datatype trace_line =
    Commit_Line u32 u32 u32      \<comment> \<open>\<open>[GI]\<close>: hart, pc, instruction\<close>
  | Store_Line u32 u32 u32 u32   \<comment> \<open>\<open>[GM]\<close>: hart, address, byte mask, data\<close>

record trace =
  tr_requested :: bool
  tr_suppressed :: bool
  tr_limit :: u64
  tr_events :: u64
  tr_out :: "trace_line list"

definition trace_init :: trace where
  "trace_init = \<lparr>tr_requested = False, tr_suppressed = False, tr_limit = 10000, tr_events = 0, tr_out = []\<rparr>"

definition gpu_trace_enabled :: "trace \<Rightarrow> bool" where
  "gpu_trace_enabled t \<longleftrightarrow> tr_requested t \<and> \<not> tr_suppressed t \<and> tr_events t < tr_limit t"

definition gpu_trace_suppress :: "bool \<Rightarrow> trace \<Rightarrow> trace" where
  "gpu_trace_suppress b t = t\<lparr>tr_suppressed := b\<rparr>"

definition gpu_trace_commit :: "u32 \<Rightarrow> u32 \<Rightarrow> u32 \<Rightarrow> trace \<Rightarrow> trace" where
  "gpu_trace_commit hartid pc inst t =
     (if \<not> gpu_trace_enabled t then t
      else t\<lparr>tr_out := Commit_Line hartid pc inst # tr_out t, tr_events := tr_events t + 1\<rparr>)"

definition gpu_trace_store :: "u32 \<Rightarrow> u32 \<Rightarrow> u32 \<Rightarrow> u32 \<Rightarrow> trace \<Rightarrow> trace" where
  "gpu_trace_store hartid addr msk data t =
     (if \<not> gpu_trace_enabled t then t
      else t\<lparr>tr_out := Store_Line hartid addr msk data # tr_out t, tr_events := tr_events t + 1\<rparr>)"

subsection \<open>The trace never exceeds its limit\<close>

text \<open>
  \<open>trace_bounded base t\<close>: since the counter was last reset, when \<open>base\<close> lines had been
  written, exactly \<open>tr_events t\<close> lines were added, and no more than the limit.
\<close>

definition trace_bounded :: "nat \<Rightarrow> trace \<Rightarrow> bool" where
  "trace_bounded base t \<longleftrightarrow>
     length (tr_out t) = base + unat (tr_events t) \<and> tr_events t \<le> tr_limit t"

lemma trace_enabled_step:
  assumes "gpu_trace_enabled t" and "trace_bounded base t"
  shows "trace_bounded base (t\<lparr>tr_out := l # tr_out t, tr_events := tr_events t + 1\<rparr>)"
proof -
  have lt: "tr_events t < tr_limit t" using assms(1) by (simp add: gpu_trace_enabled_def)
  then have n: "unat (tr_events t + 1) = Suc (unat (tr_events t))" by (rule unat_inc_u64)
  then show ?thesis using assms lt n by (simp add: trace_bounded_def word_le_nat_alt word_less_nat_alt)
qed

lemma gpu_trace_commit_bounded [intro]:
  "trace_bounded base t \<Longrightarrow> trace_bounded base (gpu_trace_commit h pc inst t)"
  by (simp add: gpu_trace_commit_def trace_enabled_step)

lemma gpu_trace_store_bounded [intro]:
  "trace_bounded base t \<Longrightarrow> trace_bounded base (gpu_trace_store h a msk d t)"
  by (simp add: gpu_trace_store_def trace_enabled_step)

lemma trace_suppressed_silent:
  "tr_suppressed t \<Longrightarrow> gpu_trace_commit h pc inst t = t \<and> gpu_trace_store h a msk d t = t"
  by (simp add: gpu_trace_commit_def gpu_trace_store_def gpu_trace_enabled_def)

end
