(* ===== verification/Iss.thy ===== *)
theory Iss
  imports Pmem Trace
begin

text \<open>
  The functional simulator of the device, \<open>sw/sim/sm/iss.cpp\<close> and \<open>sw/sim/sm/backend.h\<close>:
  one hardware thread (\<open>gpu_iss_core_t\<close>) per thread of the launch, an RV32E interpreter for
  a single thread, and a round-robin scheduler over the threads. This theory holds the
  state, every operation of the file and the facts that evaluate them; the properties are
  in \<open>Iss_Props\<close>.
\<close>

subsection \<open>State\<close>

text \<open>The 16 registers of RV32E are indexed by a 4-bit word.\<close>

type_synonym regfile = "4 word \<Rightarrow> u32"

record iss_core =
  c_gpr :: regfile
  c_pc :: u32
  c_hartid :: u32
  c_physical_id :: u32
  c_args_addr :: u32
  c_thread_idx :: dim3
  c_block_idx :: dim3
  c_block_dim :: dim3
  c_grid_dim :: dim3
  c_warp_id :: u32
  c_lane_id :: u32
  c_halted :: bool

text \<open>The static variables of \<open>iss.cpp\<close>; a \<open>NULL\<close> array of cores is the empty list.\<close>

record iss =
  iss_cores :: "iss_core list"
  iss_ncores :: u32
  iss_physical_count :: u32
  iss_rr :: u32
  iss_startup_pc :: u32
  iss_args_addr :: u32
  iss_args_size :: u32
  iss_grid :: dim3
  iss_block :: dim3
  iss_block_size :: u32
  iss_faulted :: bool

text \<open>The simulator runs against the shared PMEM and the trace of the runtime.\<close>

record sm = iss +
  sm_mem :: pmem
  sm_trace :: trace

definition GPU_KERNEL_BASE :: u32 where "GPU_KERNEL_BASE = 0x81000000"

definition iss_static_init :: iss where
  "iss_static_init = \<lparr>iss_cores = [], iss_ncores = 0, iss_physical_count = 0, iss_rr = 0,
     iss_startup_pc = GPU_KERNEL_BASE, iss_args_addr = 0, iss_args_size = 0,
     iss_grid = dim_ones, iss_block = dim_ones, iss_block_size = 1, iss_faulted = False\<rparr>"

definition set_core :: "nat \<Rightarrow> iss_core \<Rightarrow> sm \<Rightarrow> sm" where
  "set_core i c s = s\<lparr>iss_cores := (iss_cores s)[i := c]\<rparr>"

subsection \<open>Memory instructions\<close>

definition fault_core :: "nat \<Rightarrow> sm \<Rightarrow> sm" where
  "fault_core i s = (set_core i ((iss_cores s ! i)\<lparr>c_halted := True\<rparr>) s)\<lparr>iss_faulted := True\<rparr>"

text \<open>\<open>int32_t(value << (32 - bits)) >> (32 - bits)\<close>.\<close>

definition sext :: "u32 \<Rightarrow> nat \<Rightarrow> u32" where
  "sext v bits = signed_drop_bit (32 - bits) (push_bit (32 - bits) v)"

definition load_mem :: "gpu_config \<Rightarrow> nat \<Rightarrow> u32 \<Rightarrow> u32 \<Rightarrow> sm \<Rightarrow> (u32 \<times> sm) option" where
  "load_mem cfg i addr funct3 s =
     (if funct3 = 0 then do { v \<leftarrow> paddr_read cfg (sm_mem s) addr 1; Some (sext v 8, s) }
      else if funct3 = 1 then do { v \<leftarrow> paddr_read cfg (sm_mem s) addr 2; Some (sext v 16, s) }
      else if funct3 = 2 then do { v \<leftarrow> paddr_read cfg (sm_mem s) addr 4; Some (v, s) }
      else if funct3 = 4 then do { v \<leftarrow> paddr_read cfg (sm_mem s) addr 1; Some (v, s) }
      else if funct3 = 5 then do { v \<leftarrow> paddr_read cfg (sm_mem s) addr 2; Some (v, s) }
      else Some (0, fault_core i s))"

definition store_mem :: "gpu_config \<Rightarrow> nat \<Rightarrow> u32 \<Rightarrow> u32 \<Rightarrow> u32 \<Rightarrow> sm \<Rightarrow> sm option" where
  "store_mem cfg i addr v funct3 s =
     (let put = (\<lambda>len msk. do {
            m \<leftarrow> paddr_write cfg (sm_mem s) addr len v;
            Some (s\<lparr>sm_mem := m,
                    sm_trace := gpu_trace_store (c_hartid (iss_cores s ! i)) addr msk v (sm_trace s)\<rparr>) })
      in if funct3 = 0 then put 1 1
         else if funct3 = 1 then put 2 3
         else if funct3 = 2 then put 4 15
         else Some (fault_core i s))"

definition same_warp :: "iss_core \<Rightarrow> iss_core \<Rightarrow> bool" where
  "same_warp l r \<longleftrightarrow> c_warp_id l = c_warp_id r \<and>
     dim_x (c_block_idx l) = dim_x (c_block_idx r) \<and>
     dim_y (c_block_idx l) = dim_y (c_block_idx r) \<and>
     dim_z (c_block_idx l) = dim_z (c_block_idx r)"

subsection \<open>Decoding\<close>

text \<open>The field extractions and the operand-use table at the head of \<open>step_core\<close>.\<close>

definition f_opcode :: "u32 \<Rightarrow> u32" where "f_opcode inst = inst AND 0x7f"
definition f_rd :: "u32 \<Rightarrow> u32" where "f_rd inst = drop_bit 7 inst AND 0x1f"
definition f_funct3 :: "u32 \<Rightarrow> u32" where "f_funct3 inst = drop_bit 12 inst AND 7"
definition f_rs1 :: "u32 \<Rightarrow> u32" where "f_rs1 inst = drop_bit 15 inst AND 0x1f"
definition f_rs2 :: "u32 \<Rightarrow> u32" where "f_rs2 inst = drop_bit 20 inst AND 0x1f"
definition f_funct7 :: "u32 \<Rightarrow> u32" where "f_funct7 inst = drop_bit 25 inst"
definition imm_i :: "u32 \<Rightarrow> u32" where "imm_i inst = sext (drop_bit 20 inst) 12"
definition imm_s :: "u32 \<Rightarrow> u32" where
  "imm_s inst = sext ((drop_bit 7 inst AND 0x1f) OR push_bit 5 (drop_bit 25 inst)) 12"
definition imm_b :: "u32 \<Rightarrow> u32" where
  "imm_b inst = sext ((drop_bit 7 inst AND 0x1e) OR (drop_bit 20 inst AND 0x7e0) OR
                      (push_bit 4 inst AND 0x800) OR (drop_bit 19 inst AND 0x1000)) 13"
definition imm_u :: "u32 \<Rightarrow> u32" where "imm_u inst = inst AND 0xfffff000"
definition imm_j :: "u32 \<Rightarrow> u32" where
  "imm_j inst = sext ((drop_bit 20 inst AND 0x7fe) OR (drop_bit 9 inst AND 0x800) OR
                      (inst AND 0xff000) OR (drop_bit 11 inst AND 0x100000)) 21"

definition uses_rd :: "u32 \<Rightarrow> bool" where
  "uses_rd op \<longleftrightarrow> op = 0x37 \<or> op = 0x17 \<or> op = 0x13 \<or> op = 0x33 \<or> op = 0x03 \<or> op = 0x6f \<or>
                  op = 0x67 \<or> op = 0x73"
definition uses_rs1 :: "u32 \<Rightarrow> bool" where
  "uses_rs1 op \<longleftrightarrow> op = 0x13 \<or> op = 0x33 \<or> op = 0x03 \<or> op = 0x23 \<or> op = 0x63 \<or> op = 0x67"
definition uses_rs2 :: "u32 \<Rightarrow> bool" where
  "uses_rs2 op \<longleftrightarrow> op = 0x33 \<or> op = 0x23 \<or> op = 0x63"

text \<open>RV32E has 16 registers: an operand field that is used and names another is illegal.\<close>

definition bad_registers :: "u32 \<Rightarrow> bool" where
  "bad_registers inst \<longleftrightarrow>
     uses_rd (f_opcode inst) \<and> 16 \<le> f_rd inst \<or>
     uses_rs1 (f_opcode inst) \<and> 16 \<le> f_rs1 inst \<or>
     uses_rs2 (f_opcode inst) \<and> 16 \<le> f_rs2 inst"

subsection \<open>Arithmetic and branches\<close>

text \<open>
  The \<open>switch (funct3)\<close> of each opcode; \<open>None\<close> is its \<open>default\<close> branch, where the source
  faults the core.
\<close>

definition alu_op_imm :: "u32 \<Rightarrow> u32 \<Rightarrow> u32 option" where
  "alu_op_imm inst a =
     (let imm = imm_i inst; sh = unat (drop_bit 20 inst AND 31); f3 = f_funct3 inst in
      if f3 = 0 then Some (a + imm)
      else if f3 = 2 then Some (bool_u32 (sint a < sint imm))
      else if f3 = 3 then Some (bool_u32 (a < imm))
      else if f3 = 4 then Some (a XOR imm)
      else if f3 = 6 then Some (a OR imm)
      else if f3 = 7 then Some (a AND imm)
      else if f3 = 1 then Some (push_bit sh a)
      else if f3 = 5 then Some (if f_funct7 inst = 0x20 then signed_drop_bit sh a else drop_bit sh a)
      else None)"

definition alu_op :: "u32 \<Rightarrow> u32 \<Rightarrow> u32 \<Rightarrow> u32 option" where
  "alu_op inst a b =
     (let sh = unat (b AND 31); f3 = f_funct3 inst; f7 = f_funct7 inst in
      if f3 = 0 then Some (if f7 = 0x20 then a - b else a + b)
      else if f3 = 1 then Some (push_bit sh a)
      else if f3 = 2 then Some (bool_u32 (sint a < sint b))
      else if f3 = 3 then Some (bool_u32 (a < b))
      else if f3 = 4 then Some (a XOR b)
      else if f3 = 5 then Some (if f7 = 0x20 then signed_drop_bit sh a else drop_bit sh a)
      else if f3 = 6 then Some (a OR b)
      else if f3 = 7 then Some (a AND b)
      else None)"

definition branch_taken :: "u32 \<Rightarrow> u32 \<Rightarrow> u32 \<Rightarrow> bool option" where
  "branch_taken f3 a b =
     (if f3 = 0 then Some (a = b)
      else if f3 = 1 then Some (a \<noteq> b)
      else if f3 = 4 then Some (sint a < sint b)
      else if f3 = 5 then Some (sint a \<ge> sint b)
      else if f3 = 6 then Some (a < b)
      else if f3 = 7 then Some (a \<ge> b)
      else None)"

definition csr_value :: "iss_core \<Rightarrow> u32 \<Rightarrow> u32 option" where
  "csr_value c csr =
     (if csr = 0xf14 then Some (c_hartid c)
      else if csr = 0xcc0 then Some (dim_x (c_thread_idx c))
      else if csr = 0xcc1 then Some (dim_y (c_thread_idx c))
      else if csr = 0xcc2 then Some (dim_z (c_thread_idx c))
      else if csr = 0xcc3 then Some (dim_x (c_block_idx c))
      else if csr = 0xcc4 then Some (dim_y (c_block_idx c))
      else if csr = 0xcc5 then Some (dim_z (c_block_idx c))
      else if csr = 0xcc6 then Some (dim_x (c_block_dim c))
      else if csr = 0xcc7 then Some (dim_y (c_block_dim c))
      else if csr = 0xcc8 then Some (dim_z (c_block_dim c))
      else if csr = 0xcc9 then Some (dim_x (c_grid_dim c))
      else if csr = 0xcca then Some (dim_y (c_grid_dim c))
      else if csr = 0xccb then Some (dim_z (c_grid_dim c))
      else if csr = 0xccc then Some (c_args_addr c)
      else if csr = 0xccd then Some (c_physical_id c)
      else if csr = 0xcce then Some (c_warp_id c)
      else if csr = 0xccf then Some (c_lane_id c)
      else None)"

subsection \<open>One instruction of one thread\<close>

text \<open>
  The opcode \<open>switch\<close> of \<open>step_core\<close>. A branch either returns early with a new state
  (\<open>Stop\<close>: a fault or \<open>ebreak\<close>) or falls through to the common exit with its \<open>result\<close> and
  \<open>next\<close> (\<open>Go\<close>). \<open>None\<close> is an aborting memory access.
\<close>

datatype flow = Stop sm | Go u32 u32 sm

definition jalr_target :: "u32 \<Rightarrow> u32 \<Rightarrow> u32" where
  "jalr_target inst a = (a + imm_i inst) AND NOT 1"

text \<open>Some other live thread of the warp at the same instruction would jump elsewhere.\<close>

definition jalr_divergent :: "nat \<Rightarrow> u32 \<Rightarrow> u32 \<Rightarrow> sm \<Rightarrow> bool" where
  "jalr_divergent i inst target s =
     list_ex (\<lambda>j. let c = iss_cores s ! i; lane = iss_cores s ! j in
                  j \<noteq> i \<and> \<not> c_halted lane \<and> c_pc lane = c_pc c \<and> same_warp c lane \<and>
                  jalr_target inst (c_gpr lane (ucast (f_rs1 inst))) \<noteq> target)
             [0..<unat (iss_ncores s)]"

definition execute :: "gpu_config \<Rightarrow> nat \<Rightarrow> u32 \<Rightarrow> sm \<Rightarrow> flow option" where
  "execute cfg i inst s =
     (let c = iss_cores s ! i; op = f_opcode inst; f3 = f_funct3 inst;
          a = (if uses_rs1 op then c_gpr c (ucast (f_rs1 inst)) else 0);
          b = (if uses_rs2 op then c_gpr c (ucast (f_rs2 inst)) else 0);
          nxt = c_pc c + 4; flt = Some (Stop (fault_core i s))
      in if op = 0x37 then Some (Go (imm_u inst) nxt s)
         else if op = 0x17 then Some (Go (c_pc c + imm_u inst) nxt s)
         else if op = 0x13 then
           (case alu_op_imm inst a of None \<Rightarrow> flt | Some r \<Rightarrow> Some (Go r nxt s))
         else if op = 0x33 then
           (case alu_op inst a b of None \<Rightarrow> flt | Some r \<Rightarrow> Some (Go r nxt s))
         else if op = 0x03 then
           do { (r, s') \<leftarrow> load_mem cfg i (a + imm_i inst) f3 s; Some (Go r nxt s') }
         else if op = 0x23 then
           do { s' \<leftarrow> store_mem cfg i (a + imm_s inst) b f3 s; Some (Go 0 nxt s') }
         else if op = 0x63 then
           (case branch_taken f3 a b of None \<Rightarrow> flt
            | Some taken \<Rightarrow> Some (Go 0 (if taken then c_pc c + imm_b inst else nxt) s))
         else if op = 0x6f then Some (Go (c_pc c + 4) (c_pc c + imm_j inst) s)
         else if op = 0x67 then
           (let target = jalr_target inst a in
            if jalr_divergent i inst target s then flt else Some (Go (c_pc c + 4) target s))
         else if op = 0x73 then
           (if inst = 0x00100073 then Some (Stop (set_core i (c\<lparr>c_halted := True\<rparr>) s))
            else if f3 = 2 \<and> f_rs1 inst = 0 then
              (case csr_value c (drop_bit 20 inst) of None \<Rightarrow> flt | Some r \<Rightarrow> Some (Go r nxt s))
            else flt)
         else flt)"

text \<open>The common exit: write the result register, keep \<open>x0\<close> zero, advance the pc.\<close>

definition writeback :: "nat \<Rightarrow> u32 \<Rightarrow> u32 \<Rightarrow> u32 \<Rightarrow> sm \<Rightarrow> sm" where
  "writeback i inst result nxt s =
     (let c = iss_cores s ! i;
          g = (if uses_rd (f_opcode inst) \<and> f_rd inst \<noteq> 0
               then (c_gpr c)(ucast (f_rd inst) := result) else c_gpr c)
      in set_core i (c\<lparr>c_gpr := g(0 := 0), c_pc := nxt\<rparr>) s)"

definition finish_flow :: "nat \<Rightarrow> u32 \<Rightarrow> flow \<Rightarrow> sm" where
  "finish_flow i inst fl = (case fl of Stop s \<Rightarrow> s | Go result nxt s \<Rightarrow> writeback i inst result nxt s)"

definition step_core :: "gpu_config \<Rightarrow> nat \<Rightarrow> sm \<Rightarrow> sm option" where
  "step_core cfg i s = do {
     inst \<leftarrow> paddr_read cfg (sm_mem s) (c_pc (iss_cores s ! i)) 4;
     if bad_registers inst then Some (fault_core i s)
     else do {
       let c = iss_cores s ! i;
       let s1 = s\<lparr>sm_trace := gpu_trace_commit (c_hartid c) (c_pc c) inst (sm_trace s)\<rparr>;
       fl \<leftarrow> execute cfg i inst s1;
       Some (finish_flow i inst fl) } }"

subsection \<open>The interface of the backend\<close>

text \<open>\<open>Assert(num_cores >= 1)\<close> aborts on zero.\<close>

definition gpu_iss_init :: "u32 \<Rightarrow> sm \<Rightarrow> sm option" where
  "gpu_iss_init num_cores s =
     (if 1 \<le> num_cores then
        Some (s\<lparr>iss_cores := [], iss_ncores := 0, iss_physical_count := num_cores,
                iss_rr := 0, iss_faulted := False\<rparr>)
      else None)"

definition gpu_iss_dcr_write :: "u32 \<Rightarrow> u32 \<Rightarrow> sm \<Rightarrow> sm" where
  "gpu_iss_dcr_write addr data s =
     (if addr = 0x010 then s\<lparr>iss_startup_pc := data\<rparr>
      else if addr = 0x011 then s\<lparr>iss_args_addr := data\<rparr>
      else if addr = 0x012 then s\<lparr>iss_args_size := data\<rparr>
      else if addr = 0x013 \<or> addr = 0x014 \<or> addr = 0x015 then
        s\<lparr>iss_block := dim_put (unat (addr - 0x013)) data (iss_block s)\<rparr>
      else if addr = 0x016 \<or> addr = 0x017 \<or> addr = 0x018 then
        s\<lparr>iss_grid := dim_put (unat (addr - 0x016)) data (iss_grid s)\<rparr>
      else if addr = 0x019 then s\<lparr>iss_block_size := data\<rparr>
      else s)"

definition dim_product64 :: "dim3 \<Rightarrow> u64" where
  "dim_product64 d = ucast (dim_x d) * ucast (dim_y d) * ucast (dim_z d)"

text \<open>The context of thread \<open>i\<close> of the launch, as the initialisation loop fills it.\<close>

definition launch_core :: "gpu_config \<Rightarrow> iss \<Rightarrow> u32 \<Rightarrow> iss_core" where
  "launch_core cfg s i =
     (let bs = (ucast (dim_product64 (iss_block s)) :: u32);
          lpc = (of_nat (lanes_per_core cfg) :: u32);
          thr = (of_nat (cfg_threads cfg) :: u32);
          hw = iss_physical_count s div lpc;
          local = i mod bs; blk = i div bs;
          b = iss_block s; g = iss_grid s
      in \<lparr>c_gpr = (\<lambda>_. 0), c_pc = iss_startup_pc s, c_hartid = i,
          c_physical_id = (blk mod hw) * lpc + local,
          c_args_addr = iss_args_addr s,
          c_thread_idx = \<lparr>dim_x = local mod dim_x b,
                          dim_y = (local div dim_x b) mod dim_y b,
                          dim_z = local div (dim_x b * dim_y b)\<rparr>,
          c_block_idx = \<lparr>dim_x = blk mod dim_x g,
                         dim_y = (blk div dim_x g) mod dim_y g,
                         dim_z = blk div (dim_x g * dim_y g)\<rparr>,
          c_block_dim = b, c_grid_dim = g,
          c_warp_id = local div thr, c_lane_id = local mod thr, c_halted = False\<rparr>)"

text \<open>
  \<open>gpu_iss_launch\<close>. \<open>calloc_ok\<close> says whether the array of contexts could be allocated.
  \<open>None\<close> is the division by zero of \<open>block % hardware_cores\<close> when the device has fewer
  hardware threads than one core.
\<close>

definition gpu_iss_launch :: "gpu_config \<Rightarrow> bool \<Rightarrow> sm \<Rightarrow> (bool \<times> sm) option" where
  "gpu_iss_launch cfg calloc_ok s =
     (let blocks = dim_product64 (iss_grid s); bs = dim_product64 (iss_block s);
          total = blocks * bs
      in if total = 0 \<or> 0xffffffff < total \<or> bs \<noteq> ucast (iss_block_size s) then Some (False, s)
         else if \<not> calloc_ok then Some (False, s\<lparr>iss_cores := []\<rparr>)
         else if iss_physical_count s div of_nat (lanes_per_core cfg) = 0 then None
         else Some (True, s\<lparr>iss_ncores := ucast total, iss_rr := 0,
                            iss_cores := map (\<lambda>i. launch_core cfg (iss.truncate s) (of_nat i))
                                             [0..<unat (ucast total :: u32)]\<rparr>))"

definition gpu_iss_done :: "sm \<Rightarrow> bool" where
  "gpu_iss_done s \<longleftrightarrow> iss_faulted s \<or>
     (list_all (\<lambda>i. c_halted (iss_cores s ! i)) [0..<unat (iss_ncores s)] \<and> iss_ncores s \<noteq> 0)"

text \<open>The scan of \<open>gpu_iss_step\<close>, with the number of cores left to look at.\<close>

fun iss_scan :: "gpu_config \<Rightarrow> nat \<Rightarrow> sm \<Rightarrow> (bool \<times> sm) option" where
  "iss_scan cfg 0 s = Some (False, s)"
| "iss_scan cfg (Suc left) s =
     (let i = unat (iss_rr s); s1 = s\<lparr>iss_rr := (iss_rr s + 1) mod iss_ncores s\<rparr> in
      if \<not> c_halted (iss_cores s ! i)
      then do { s2 \<leftarrow> step_core cfg i s1; Some (True, s2) }
      else iss_scan cfg left s1)"

definition gpu_iss_step :: "gpu_config \<Rightarrow> sm \<Rightarrow> (bool \<times> sm) option" where
  "gpu_iss_step cfg s =
     (if gpu_iss_done s then Some (False, s) else iss_scan cfg (unat (iss_ncores s)) s)"

definition gpu_iss_num_cores :: "sm \<Rightarrow> u32" where "gpu_iss_num_cores s = iss_ncores s"
definition gpu_iss_fault :: "sm \<Rightarrow> bool" where "gpu_iss_fault s = iss_faulted s"

end
