(* ===== verification/Cycle_Core.thy ===== *)
theory Cycle_Core
  imports Pmem
begin

text \<open>
  One core of the cycle model that the DiffTest compares with the RTL after every clock
  edge, first half of \<open>sw/sim/hm/difftest.cpp\<close>: the structs \<open>Store\<close>, \<open>Core\<close> and \<open>Model\<close>,
  the shadow memory helpers, \<open>accept_cta\<close> and \<open>step_core\<close>, the five-state machine that
  advances one warp with an active mask and a stack of deferred paths.

  Arrays indexed by warp, lane context or stack slot are functions of the index. The
  counters \<open>rr\<close>, \<open>iw\<close>, \<open>mt\<close> and \<open>sp\<close> are \<open>uint32_t\<close> in the code, where they stay below the
  number of warps or threads or \<open>StackDepth\<close>; they index arrays and are natural numbers here
  (\<open>core_inv\<close> bounds the first three, the test of \<open>branch_outcome\<close> the last). Data words keep
  their width. \<open>1u << t\<close> is \<open>lane_bit t\<close>, 0 for \<open>t >= 32\<close>, where the C++ shift
  is undefined: the properties assume at most 32 threads per warp.
\<close>

subsection \<open>State\<close>

datatype core_state = SCHED | FETCH | EXEC | MEM_REQ | MEM_RESP

datatype store = Store (st_addr: u32) (st_data: u32) (st_mask: u8)

type_synonym lane_regs = "4 word \<Rightarrow> u32"

record ccore =
  k_state :: core_state
  k_cta_active :: bool
  k_fault :: bool
  k_rr :: nat
  k_iw :: nat
  k_im :: u32
  k_ip :: u32
  k_inst :: u32
  k_mt :: nat
  k_block :: dim3
  k_dim :: dim3
  k_grid :: dim3
  k_args :: u32
  k_pc :: "nat \<Rightarrow> u32"
  k_mask :: "nat \<Rightarrow> u32"
  k_valid :: "nat \<Rightarrow> bool"
  k_sp :: "nat \<Rightarrow> nat"
  k_stack_pc :: "nat \<Rightarrow> nat \<Rightarrow> u32"
  k_stack_mask :: "nat \<Rightarrow> nat \<Rightarrow> u32"
  k_gpr :: "nat \<Rightarrow> lane_regs"
  k_tx :: "nat \<Rightarrow> u32"
  k_ty :: "nat \<Rightarrow> u32"
  k_tz :: "nat \<Rightarrow> u32"
  k_gid :: "nat \<Rightarrow> u32"

definition core_init :: ccore where
  "core_init = \<lparr>k_state = SCHED, k_cta_active = False, k_fault = False, k_rr = 0, k_iw = 0,
     k_im = 0, k_ip = 0, k_inst = 0, k_mt = 0, k_block = dim_zeros, k_dim = dim_ones,
     k_grid = dim_ones, k_args = 0, k_pc = (\<lambda>_. 0), k_mask = (\<lambda>_. 0), k_valid = (\<lambda>_. False),
     k_sp = (\<lambda>_. 0), k_stack_pc = (\<lambda>_ _. 0), k_stack_mask = (\<lambda>_ _. 0), k_gpr = (\<lambda>_ _. 0),
     k_tx = (\<lambda>_. 0), k_ty = (\<lambda>_. 0), k_tz = (\<lambda>_. 0), k_gid = (\<lambda>_. 0)\<rparr>"

text \<open>
  The vector \<open>mem\<close> is a byte function with its length \<open>m_size\<close>; \<open>packed\<close> is the vector
  of normalized words.
\<close>

record model =
  m_startup :: u32
  m_args :: u32
  m_args_size :: u32
  m_dim :: dim3
  m_grid :: dim3
  m_block_size :: u32
  m_block :: dim3
  m_running :: bool
  m_rr :: nat
  m_reset :: bool
  m_dcr_valid :: bool
  m_launch :: bool
  m_active :: bool
  m_failed :: bool
  m_dcr_addr :: u32
  m_dcr_data :: u32
  m_cycle :: u64
  m_cores :: "ccore list"
  m_mem :: pmem
  m_size :: nat
  m_packed :: "u32 list"
  m_expected :: "store list"
  m_actual :: "store list"
  m_dirty :: "u32 list"

definition STACK_DEPTH :: nat where "STACK_DEPTH = 8"

definition model_init :: "gpu_config \<Rightarrow> model" where
  "model_init cfg = \<lparr>m_startup = 0x81000000, m_args = 0, m_args_size = 0, m_dim = dim_ones,
     m_grid = dim_ones, m_block_size = 1, m_block = dim_zeros, m_running = False, m_rr = 0,
     m_reset = False, m_dcr_valid = False, m_launch = False, m_active = False, m_failed = False,
     m_dcr_addr = 0, m_dcr_data = 0, m_cycle = 0, m_cores = replicate (cfg_cores cfg) core_init,
     m_mem = (\<lambda>_. 0), m_size = 0, m_packed = [], m_expected = [], m_actual = [], m_dirty = []\<rparr>"

subsection \<open>Shadow memory\<close>

text \<open>\<open>load32\<close>; the second component says that the access failed, which sets \<open>m.failed\<close>.\<close>

definition load32 :: "gpu_config \<Rightarrow> model \<Rightarrow> u32 \<Rightarrow> u32 \<times> bool" where
  "load32 cfg m addr =
     (if addr < cfg_mbase cfg \<or> unat (cfg_mbase cfg) + m_size m < unat addr + 4 then (0, True)
      else (load_le (m_mem m) (addr - cfg_mbase cfg) 4, False))"

text \<open>One byte of \<open>store_ref\<close>: the address is computed in 64 bits, so it does not wrap.\<close>

definition store_ref_byte :: "gpu_config \<Rightarrow> store \<Rightarrow> model \<Rightarrow> nat \<Rightarrow> model" where
  "store_ref_byte cfg s m b =
     (if bit (st_mask s) b then
        let a = unat (st_addr s) + b in
        if a < unat (cfg_mbase cfg) \<or> unat (cfg_mbase cfg) + m_size m \<le> a then m\<lparr>m_failed := True\<rparr>
        else let off = of_nat (a - unat (cfg_mbase cfg)) in
             m\<lparr>m_mem := (m_mem m)(off := ucast (drop_bit (8 * b) (st_data s))),
               m_dirty := m_dirty m @ [off]\<rparr>
      else m)"

definition store_ref :: "gpu_config \<Rightarrow> store \<Rightarrow> model \<Rightarrow> model" where
  "store_ref cfg s m = foldl (store_ref_byte cfg s) m [0..<4]"

subsection \<open>Lane operands\<close>

definition sign_extend :: "u32 \<Rightarrow> nat \<Rightarrow> u32" where
  "sign_extend v bits = signed_drop_bit (32 - bits) (push_bit (32 - bits) v)"

definition lane_bit :: "nat \<Rightarrow> u32" where
  "lane_bit t = push_bit t 1"

definition context_of :: "gpu_config \<Rightarrow> ccore \<Rightarrow> nat \<Rightarrow> nat" where
  "context_of cfg c t = k_iw c * cfg_threads cfg + t"

definition lane_register :: "gpu_config \<Rightarrow> ccore \<Rightarrow> nat \<Rightarrow> u32 \<Rightarrow> u32" where
  "lane_register cfg c lane r = k_gpr c (context_of cfg c lane) (ucast r)"

definition memory_address :: "gpu_config \<Rightarrow> ccore \<Rightarrow> u32" where
  "memory_address cfg c =
     (let opcode = k_inst c AND 0x7f; src = drop_bit 15 (k_inst c) AND 31;
          imm = (if opcode = 3 then sign_extend (drop_bit 20 (k_inst c)) 12
                 else sign_extend ((drop_bit 7 (k_inst c) AND 31) OR push_bit 5 (drop_bit 25 (k_inst c))) 12)
      in lane_register cfg c (k_mt c) src + imm)"

definition load_value :: "gpu_config \<Rightarrow> model \<Rightarrow> u32 \<Rightarrow> u32 \<Rightarrow> u32 \<times> bool" where
  "load_value cfg m addr f3 =
     (let (raw, bad) = load32 cfg m (addr AND NOT 3);
          sh = drop_bit (unat ((addr AND 3) * 8)) raw
      in (if f3 = 0 then sign_extend sh 8
          else if f3 = 1 then sign_extend sh 16
          else if f3 = 2 then raw
          else if f3 = 4 then sh AND 255
          else if f3 = 5 then sh AND 65535
          else 0, bad))"

definition next_warp :: "gpu_config \<Rightarrow> ccore \<Rightarrow> ccore" where
  "next_warp cfg c = c\<lparr>k_rr := (if k_iw c = cfg_warps cfg - 1 then 0 else k_iw c + 1), k_state := SCHED\<rparr>"

text \<open>The mask of the lanes below \<open>Threads\<close> that satisfy a condition (\<open>mask |= 1u << t\<close> in a loop).\<close>

definition lanes_where :: "gpu_config \<Rightarrow> (nat \<Rightarrow> bool) \<Rightarrow> u32" where
  "lanes_where cfg p = foldl (\<lambda>acc t. if p t then acc OR lane_bit t else acc) 0 [0..<cfg_threads cfg]"

subsection \<open>CTA dispatch into a core\<close>

text \<open>The effect of \<open>for (i = 0; i < n; ++i) g[i] = f(i)\<close> on an array.\<close>

definition upd_below :: "nat \<Rightarrow> (nat \<Rightarrow> 'a) \<Rightarrow> (nat \<Rightarrow> 'a) \<Rightarrow> nat \<Rightarrow> 'a" where
  "upd_below n f g i = (if i < n then f i else g i)"

definition accept_cta :: "gpu_config \<Rightarrow> model \<Rightarrow> ccore \<Rightarrow> ccore" where
  "accept_cta cfg m c =
     (let bl = (dim_z (m_block m) * dim_y (m_grid m) + dim_y (m_block m)) * dim_x (m_grid m) + dim_x (m_block m);
          warps = cfg_warps cfg; threads = cfg_threads cfg; contexts = warps * threads;
          dx = dim_x (m_dim m); dy = dim_y (m_dim m)
      in c\<lparr>k_cta_active := True, k_fault := False, k_state := SCHED, k_rr := 0, k_args := m_args m,
           k_block := m_block m, k_dim := m_dim m, k_grid := m_grid m,
           k_pc := upd_below warps (\<lambda>_. m_startup m) (k_pc c),
           k_sp := upd_below warps (\<lambda>_. 0) (k_sp c),
           k_mask := upd_below warps (\<lambda>w. lanes_where cfg (\<lambda>t. of_nat (w * threads + t) < m_block_size m)) (k_mask c),
           k_valid := upd_below warps (\<lambda>w. of_nat (w * threads) < m_block_size m) (k_valid c),
           k_tx := upd_below contexts (\<lambda>i. of_nat i mod dx) (k_tx c),
           k_ty := upd_below contexts (\<lambda>i. (of_nat i div dx) mod dy) (k_ty c),
           k_tz := upd_below contexts (\<lambda>i. of_nat i div (dx * dy)) (k_tz c),
           k_gid := upd_below contexts (\<lambda>i. bl * m_block_size m + of_nat i) (k_gid c),
           k_gpr := upd_below contexts (\<lambda>i. (\<lambda>_. 0)) (k_gpr c)\<rparr>)"

subsection \<open>Executing an instruction for one lane\<close>

text \<open>What one lane contributes: result word, jump target if any, and whether it is legal.\<close>

record lane_out =
  o_res :: u32
  o_next :: "u32 option"
  o_good :: bool

definition lane_ok :: "u32 \<Rightarrow> lane_out" where
  "lane_ok r = \<lparr>o_res = r, o_next = None, o_good = True\<rparr>"

definition lane_bad :: lane_out where
  "lane_bad = \<lparr>o_res = 0, o_next = None, o_good = False\<rparr>"

definition lane_op_imm :: "u32 \<Rightarrow> u32 \<Rightarrow> lane_out" where
  "lane_op_imm inst a =
     (let f3 = drop_bit 12 inst AND 7; ii = sign_extend (drop_bit 20 inst) 12;
          sh = unat (drop_bit 20 inst AND 31)
      in if f3 = 0 then lane_ok (a + ii)
         else if f3 = 2 then lane_ok (bool_u32 (sint a < sint ii))
         else if f3 = 3 then lane_ok (bool_u32 (a < ii))
         else if f3 = 4 then lane_ok (a XOR ii)
         else if f3 = 6 then lane_ok (a OR ii)
         else if f3 = 7 then lane_ok (a AND ii)
         else if f3 = 1 then lane_ok (push_bit sh a)
         else if f3 = 5 then lane_ok (if drop_bit 30 inst AND 1 \<noteq> 0 then signed_drop_bit sh a else drop_bit sh a)
         else lane_bad)"

definition lane_op :: "u32 \<Rightarrow> u32 \<Rightarrow> u32 \<Rightarrow> lane_out" where
  "lane_op inst a b =
     (let f3 = drop_bit 12 inst AND 7; f7 = drop_bit 25 inst; sh = unat (b AND 31)
      in if f3 = 0 then lane_ok (if f7 = 0x20 then a - b else a + b)
         else if f3 = 1 then lane_ok (push_bit sh a)
         else if f3 = 2 then lane_ok (bool_u32 (sint a < sint b))
         else if f3 = 3 then lane_ok (bool_u32 (a < b))
         else if f3 = 4 then lane_ok (a XOR b)
         else if f3 = 5 then lane_ok (if f7 = 0x20 then signed_drop_bit sh a else drop_bit sh a)
         else if f3 = 6 then lane_ok (a OR b)
         else if f3 = 7 then lane_ok (a AND b)
         else lane_bad)"

definition lane_csr :: "gpu_config \<Rightarrow> ccore \<Rightarrow> nat \<Rightarrow> nat \<Rightarrow> u32 \<Rightarrow> lane_out" where
  "lane_csr cfg c cid t csr =
     (let x = context_of cfg c t in
      if csr = 0xf14 then lane_ok (k_gid c x)
      else if csr = 0xcc0 then lane_ok (k_tx c x)
      else if csr = 0xcc1 then lane_ok (k_ty c x)
      else if csr = 0xcc2 then lane_ok (k_tz c x)
      else if csr = 0xcc3 \<or> csr = 0xcc4 \<or> csr = 0xcc5 then lane_ok (dim_get (unat (csr - 0xcc3)) (k_block c))
      else if csr = 0xcc6 \<or> csr = 0xcc7 \<or> csr = 0xcc8 then lane_ok (dim_get (unat (csr - 0xcc6)) (k_dim c))
      else if csr = 0xcc9 \<or> csr = 0xcca \<or> csr = 0xccb then lane_ok (dim_get (unat (csr - 0xcc9)) (k_grid c))
      else if csr = 0xccc then lane_ok (k_args c)
      else if csr = 0xccd then lane_ok (of_nat (cid * (cfg_warps cfg * cfg_threads cfg) + k_iw c * cfg_threads cfg + t))
      else if csr = 0xcce then lane_ok (of_nat (k_iw c))
      else if csr = 0xccf then lane_ok (of_nat t)
      else lane_bad)"

definition lane_exec :: "gpu_config \<Rightarrow> ccore \<Rightarrow> nat \<Rightarrow> nat \<Rightarrow> lane_out" where
  "lane_exec cfg c cid t =
     (let inst = k_inst c; op = inst AND 0x7f; f3 = drop_bit 12 inst AND 7;
          rs1 = drop_bit 15 inst AND 31; rs2 = drop_bit 20 inst AND 31;
          a = lane_register cfg c t rs1; b = lane_register cfg c t rs2;
          ii = sign_extend (drop_bit 20 inst) 12
      in if op = 0x37 then lane_ok (inst AND 0xfffff000)
         else if op = 0x17 then lane_ok (k_ip c + (inst AND 0xfffff000))
         else if op = 0x13 then lane_op_imm inst a
         else if op = 0x33 then lane_op inst a b
         else if op = 0x6f then
           (let im = (drop_bit 20 inst AND 0x7fe) OR (drop_bit 9 inst AND 0x800) OR
                     (inst AND 0xff000) OR (drop_bit 11 inst AND 0x100000)
            in \<lparr>o_res = k_ip c + 4, o_next = Some (k_ip c + sign_extend im 21), o_good = True\<rparr>)
         else if op = 0x67 then
           \<lparr>o_res = k_ip c + 4, o_next = Some ((a + ii) AND NOT 1), o_good = True\<rparr>
         else if op = 0x73 then
           (if f3 \<noteq> 2 \<or> rs1 \<noteq> 0 then lane_bad else lane_csr cfg c cid t (drop_bit 20 inst))
         else lane_bad)"

text \<open>The loop over the active lanes: sticky flags, the common target and the registers.\<close>

record lanes_acc =
  x_good :: bool
  x_div :: bool
  x_first :: "u32 option"
  x_next :: u32
  x_core :: ccore

definition uses_rd_k :: "u32 \<Rightarrow> bool" where
  "uses_rd_k op \<longleftrightarrow> op = 0x37 \<or> op = 0x17 \<or> op = 0x13 \<or> op = 0x33 \<or> op = 3 \<or> op = 0x6f \<or>
                    op = 0x67 \<or> op = 0x73"

definition uses_rs1_k :: "u32 \<Rightarrow> bool" where
  "uses_rs1_k op \<longleftrightarrow> op = 0x13 \<or> op = 0x33 \<or> op = 3 \<or> op = 0x23 \<or> op = 0x63 \<or> op = 0x67"

definition uses_rs2_k :: "u32 \<Rightarrow> bool" where
  "uses_rs2_k op \<longleftrightarrow> op = 0x33 \<or> op = 0x23 \<or> op = 0x63"

definition write_lane :: "nat \<Rightarrow> bool \<Rightarrow> u32 \<Rightarrow> u32 \<Rightarrow> ccore \<Rightarrow> ccore" where
  "write_lane x wr rd res c =
     (let g = k_gpr c x; g' = (if wr \<and> rd \<noteq> 0 then g(ucast rd := res) else g)
      in c\<lparr>k_gpr := (k_gpr c)(x := g'(0 := 0))\<rparr>)"

definition lane_step :: "gpu_config \<Rightarrow> nat \<Rightarrow> lanes_acc \<Rightarrow> nat \<Rightarrow> lanes_acc" where
  "lane_step cfg cid acc t =
     (let c = x_core acc; inst = k_inst c; op = inst AND 0x7f in
      if \<not> bit (k_im c) t then acc
      else
        let out = lane_exec cfg c cid t; tg = o_next out in
        acc\<lparr>x_good := x_good acc \<and> o_good out,
            x_next := (case tg of None \<Rightarrow> x_next acc | Some n \<Rightarrow> n),
            x_first := (if op = 0x67 \<and> x_first acc = None then tg else x_first acc),
            x_div := (x_div acc \<or> op = 0x67 \<and> x_first acc \<noteq> None \<and> x_first acc \<noteq> tg),
            x_core := write_lane (context_of cfg c t) (uses_rd_k op) (drop_bit 7 inst AND 31) (o_res out) c\<rparr>)"

definition exec_lanes :: "gpu_config \<Rightarrow> nat \<Rightarrow> ccore \<Rightarrow> lanes_acc" where
  "exec_lanes cfg cid c = foldl (lane_step cfg cid)
     \<lparr>x_good = True, x_div = False, x_first = None, x_next = k_ip c + 4, x_core = c\<rparr> [0..<cfg_threads cfg]"

subsection \<open>The five states of a core\<close>

definition k_take :: "u32 \<Rightarrow> u32 \<Rightarrow> u32 \<Rightarrow> bool" where
  "k_take f3 a b =
     (if f3 = 0 then a = b
      else if f3 = 1 then a \<noteq> b
      else if f3 = 4 then sint a < sint b
      else if f3 = 5 then sint a \<ge> sint b
      else if f3 = 6 then a < b
      else if f3 = 7 then a \<ge> b
      else False)"

definition k_fault_core :: "ccore \<Rightarrow> ccore" where
  "k_fault_core c = c\<lparr>k_fault := True, k_cta_active := False\<rparr>"

text \<open>\<open>SCHED\<close>: the first valid warp from \<open>rr\<close>, or the CTA is finished.\<close>

definition sched_step :: "gpu_config \<Rightarrow> ccore \<Rightarrow> ccore" where
  "sched_step cfg c =
     (case find (k_valid c) (map (\<lambda>i. (k_rr c + i) mod cfg_warps cfg) [0..<cfg_warps cfg]) of
        Some sel \<Rightarrow> c\<lparr>k_iw := sel, k_im := k_mask c sel, k_ip := k_pc c sel, k_state := FETCH\<rparr>
      | None \<Rightarrow> c\<lparr>k_cta_active := False\<rparr>)"

text \<open>\<open>ebreak\<close> ends the current path: resume the last deferred one, or retire the warp.\<close>

definition ebreak_step :: "gpu_config \<Rightarrow> ccore \<Rightarrow> ccore" where
  "ebreak_step cfg c =
     (let w = k_iw c in
      next_warp cfg
        (if k_sp c w \<noteq> 0 then
           let s = k_sp c w - 1 in
           c\<lparr>k_sp := (k_sp c)(w := s), k_pc := (k_pc c)(w := k_stack_pc c w s),
             k_mask := (k_mask c)(w := k_stack_mask c w s)\<rparr>
         else c\<lparr>k_valid := (k_valid c)(w := False)\<rparr>))"

text \<open>The masks of the lanes that take a branch and of those that fall through.\<close>

definition branch_masks :: "gpu_config \<Rightarrow> ccore \<Rightarrow> u32 \<times> u32" where
  "branch_masks cfg c =
     (let inst = k_inst c; f3 = drop_bit 12 inst AND 7;
          rs1 = drop_bit 15 inst AND 31; rs2 = drop_bit 20 inst AND 31;
          taken = (\<lambda>t. k_take f3 (lane_register cfg c t rs1) (lane_register cfg c t rs2))
      in (lanes_where cfg (\<lambda>t. bit (k_im c) t \<and> taken t),
          lanes_where cfg (\<lambda>t. bit (k_im c) t \<and> \<not> taken t)))"

definition branch_good :: "ccore \<Rightarrow> bool" where
  "branch_good c = (let f3 = drop_bit 12 (k_inst c) AND 7 in
     f3 = 0 \<or> f3 = 1 \<or> f3 = 4 \<or> f3 = 5 \<or> f3 = 6 \<or> f3 = 7)"

definition branch_imm :: "u32 \<Rightarrow> u32" where
  "branch_imm inst = sign_extend ((drop_bit 7 inst AND 0x1e) OR (drop_bit 20 inst AND 0x7e0) OR
                                  (push_bit 4 inst AND 0x800) OR (drop_bit 19 inst AND 0x1000)) 13"

text \<open>The outcome of a branch: a split runs the fall-through lanes first and defers the taken ones.\<close>

definition branch_outcome :: "ccore \<Rightarrow> u32 \<Rightarrow> u32 \<Rightarrow> u32 \<Rightarrow> ccore" where
  "branch_outcome c imm tk fl =
     (let w = k_iw c in
      if tk \<noteq> 0 \<and> fl \<noteq> 0 then
        (if STACK_DEPTH \<le> k_sp c w then k_fault_core c
         else let s = k_sp c w in
           c\<lparr>k_sp := (k_sp c)(w := s + 1),
             k_stack_pc := (k_stack_pc c)(w := (k_stack_pc c w)(s := k_ip c + imm)),
             k_stack_mask := (k_stack_mask c)(w := (k_stack_mask c w)(s := tk)),
             k_pc := (k_pc c)(w := k_ip c + 4), k_mask := (k_mask c)(w := fl)\<rparr>)
      else if tk \<noteq> 0 then c\<lparr>k_pc := (k_pc c)(w := k_ip c + imm), k_mask := (k_mask c)(w := tk)\<rparr>
      else c\<lparr>k_pc := (k_pc c)(w := k_ip c + 4), k_mask := (k_mask c)(w := fl)\<rparr>)"

definition branch_step :: "gpu_config \<Rightarrow> ccore \<Rightarrow> ccore" where
  "branch_step cfg c =
     (let (tk, fl) = branch_masks cfg c in
      next_warp cfg (if \<not> branch_good c then k_fault_core c
                     else branch_outcome c (branch_imm (k_inst c)) tk fl))"

definition alu_step :: "gpu_config \<Rightarrow> nat \<Rightarrow> ccore \<Rightarrow> ccore" where
  "alu_step cfg cid c =
     (let acc = exec_lanes cfg cid c; c' = x_core acc in
      next_warp cfg
        (if \<not> x_good acc \<or> x_div acc then k_fault_core c'
         else c'\<lparr>k_pc := (k_pc c')(k_iw c' := x_next acc)\<rparr>))"

definition exec_step :: "gpu_config \<Rightarrow> nat \<Rightarrow> ccore \<Rightarrow> ccore" where
  "exec_step cfg cid c =
     (let inst = k_inst c; op = inst AND 0x7f; rd = drop_bit 7 inst AND 31;
          rs1 = drop_bit 15 inst AND 31; rs2 = drop_bit 20 inst AND 31
      in if uses_rd_k op \<and> 16 \<le> rd \<or> uses_rs1_k op \<and> 16 \<le> rs1 \<or> uses_rs2_k op \<and> 16 \<le> rs2
         then (k_fault_core c)\<lparr>k_state := SCHED\<rparr>
         else if op = 3 \<or> op = 0x23 then c\<lparr>k_mt := 0, k_state := MEM_REQ\<rparr>
         else if inst = 0x00100073 then ebreak_step cfg c
         else if op = 0x63 then branch_step cfg c
         else alu_step cfg cid c)"

definition mem_advance :: "gpu_config \<Rightarrow> core_state \<Rightarrow> ccore \<Rightarrow> ccore" where
  "mem_advance cfg st c =
     (if k_mt c = cfg_threads cfg - 1
      then next_warp cfg (c\<lparr>k_pc := (k_pc c)(k_iw c := k_ip c + 4)\<rparr>)
      else c\<lparr>k_mt := k_mt c + 1, k_state := st\<rparr>)"

definition mem_req_step :: "gpu_config \<Rightarrow> ccore \<Rightarrow> ccore" where
  "mem_req_step cfg c =
     (if \<not> bit (k_im c) (k_mt c) then mem_advance cfg MEM_REQ c else c\<lparr>k_state := MEM_RESP\<rparr>)"

text \<open>\<open>MEM_RESP\<close>; the second component says that a load left the shadow memory.\<close>

definition mem_resp_step :: "gpu_config \<Rightarrow> model \<Rightarrow> ccore \<Rightarrow> ccore \<times> bool" where
  "mem_resp_step cfg m c =
     (let inst = k_inst c; op = inst AND 0x7f; rd = drop_bit 7 inst AND 31; f3 = drop_bit 12 inst AND 7;
          x = context_of cfg c (k_mt c);
          (v, bad) = (if op = 3 \<and> rd \<noteq> 0 then load_value cfg m (memory_address cfg c) f3 else (0, False))
      in (mem_advance cfg MEM_REQ (write_lane x (op = 3) rd v c), bad))"

definition core_step :: "gpu_config \<Rightarrow> model \<Rightarrow> ccore \<Rightarrow> nat \<Rightarrow> bool \<Rightarrow> ccore \<times> bool" where
  "core_step cfg m c cid fire =
     (if fire then (accept_cta cfg m c, False)
      else if \<not> k_cta_active c then (c, False)
      else case k_state c of
        SCHED \<Rightarrow> (sched_step cfg c, False)
      | FETCH \<Rightarrow> (let (inst, bad) = load32 cfg m (k_ip c) in (c\<lparr>k_inst := inst, k_state := EXEC\<rparr>, bad))
      | EXEC \<Rightarrow> (exec_step cfg cid c, False)
      | MEM_REQ \<Rightarrow> (mem_req_step cfg c, False)
      | MEM_RESP \<Rightarrow> mem_resp_step cfg m c)"

end
