(* ===== verification/Cycle_Kmu.thy ===== *)
theory Cycle_Kmu
  imports Cycle_Core
begin

text \<open>
  The rest of \<open>sw/sim/hm/difftest.cpp\<close>: the order on stores, \<open>pack\<close> (the normalized word
  vector), the clock step of the whole model with its thread-block dispatcher (KMU), the
  observed stores, the comparison of the memories and the names of the packed words. The
  properties are in \<open>Kmu_Props\<close> and \<open>Diff_Props\<close>.
\<close>

subsection \<open>The order on stores\<close>

text \<open>\<open>operator<\<close>: by address, then mask, then data.\<close>

definition store_before :: "store \<Rightarrow> store \<Rightarrow> bool" where
  "store_before a b \<longleftrightarrow>
     (if st_addr a \<noteq> st_addr b then st_addr a < st_addr b
      else if st_mask a \<noteq> st_mask b then st_mask a < st_mask b
      else st_data a < st_data b)"

instantiation store :: linorder
begin

definition less_store :: "store \<Rightarrow> store \<Rightarrow> bool" where
  "less_store a b \<longleftrightarrow> store_before a b"

definition less_eq_store :: "store \<Rightarrow> store \<Rightarrow> bool" where
  "less_eq_store (a :: store) b \<longleftrightarrow> a < b \<or> a = b"

instance
proof
  fix x y z :: store
  show "x < y \<longleftrightarrow> x \<le> y \<and> \<not> y \<le> x"
    by (cases x; cases y) (auto simp: less_eq_store_def less_store_def store_before_def split: if_splits)
  show "x \<le> x" by (simp add: less_eq_store_def)
  show "x \<le> y \<Longrightarrow> y \<le> z \<Longrightarrow> x \<le> z"
    by (cases x; cases y; cases z) (auto simp: less_eq_store_def less_store_def store_before_def split: if_splits)
  show "x \<le> y \<Longrightarrow> y \<le> x \<Longrightarrow> x = y"
    by (cases x; cases y) (auto simp: less_eq_store_def less_store_def store_before_def split: if_splits)
  show "x \<le> y \<or> y \<le> x"
    by (cases x; cases y) (auto simp: less_eq_store_def less_store_def store_before_def)
qed

end

subsection \<open>Serialization\<close>

definition core_words :: "gpu_config \<Rightarrow> nat" where
  "core_words cfg = 28 + 20 * cfg_warps cfg + 20 * (cfg_warps cfg * cfg_threads cfg)"

definition total_words :: "gpu_config \<Rightarrow> nat" where
  "total_words cfg = 23 + cfg_cores cfg * core_words cfg"

fun state_code :: "core_state \<Rightarrow> u32" where
  "state_code SCHED = 0"
| "state_code FETCH = 1"
| "state_code EXEC = 2"
| "state_code MEM_REQ = 3"
| "state_code MEM_RESP = 4"

text \<open>The masks of the ready and of the busy cores, and the first ready core from \<open>rr\<close>.\<close>

definition core_ready :: "ccore \<Rightarrow> bool" where
  "core_ready c \<longleftrightarrow> \<not> k_cta_active c \<and> k_state c = SCHED"

definition cores_where :: "gpu_config \<Rightarrow> (ccore \<Rightarrow> bool) \<Rightarrow> model \<Rightarrow> u32" where
  "cores_where cfg p m =
     foldl (\<lambda>acc i. if p (m_cores m ! i) then acc OR lane_bit i else acc) 0 [0..<cfg_cores cfg]"

definition pick_core :: "gpu_config \<Rightarrow> model \<Rightarrow> nat option" where
  "pick_core cfg m =
     find (\<lambda>x. bit (cores_where cfg core_ready m) x)
          (map (\<lambda>i. (m_rr m + i) mod cfg_cores cfg) [0..<cfg_cores cfg])"

definition selected_core :: "gpu_config \<Rightarrow> model \<Rightarrow> nat" where
  "selected_core cfg m = (case pick_core cfg m of None \<Rightarrow> 0 | Some x \<Rightarrow> x)"

definition dim_words :: "dim3 \<Rightarrow> u32 list" where
  "dim_words d = [dim_x d, dim_y d, dim_z d]"

definition byte_mask :: "u32 \<Rightarrow> u32 \<Rightarrow> u32" where
  "byte_mask f3 a = (if f3 = 0 then push_bit (unat (a AND 3)) 1
                     else if f3 = 1 then push_bit (unat (a AND 3)) 3 else 15)"

definition store_data :: "gpu_config \<Rightarrow> ccore \<Rightarrow> u32" where
  "store_data cfg c = push_bit (unat ((memory_address cfg c AND 3) * 8))
     (lane_register cfg c (k_mt c) (drop_bit 20 (k_inst c) AND 31))"

text \<open>The six words of the data port; the flag says that the read data left the shadow memory.\<close>

definition dmem_words :: "gpu_config \<Rightarrow> model \<Rightarrow> ccore \<Rightarrow> u32 list \<times> bool" where
  "dmem_words cfg m c =
     (if (k_state c = MEM_REQ \<or> k_state c = MEM_RESP) \<and> bit (k_im c) (k_mt c) then
        let op = k_inst c AND 0x7f; a = memory_address cfg c; f3 = drop_bit 12 (k_inst c) AND 7;
            (rdata, bad) = (if op = 3 \<and> k_state c = MEM_RESP then load32 cfg m (a AND NOT 3) else (0, False))
        in ([bool_u32 (op = 3 \<and> k_state c = MEM_REQ), bool_u32 (op = 0x23 \<and> k_state c = MEM_REQ),
             byte_mask f3 a, a AND NOT 3, store_data cfg c, rdata], bad)
      else (replicate 6 0, False))"

definition warp_words :: "ccore \<Rightarrow> nat \<Rightarrow> u32 list" where
  "warp_words c w =
     [bool_u32 (k_valid c w), k_pc c w, k_mask c w, of_nat (k_sp c w)] @
     concat (map (\<lambda>s. [k_stack_pc c w s, k_stack_mask c w s]) [0..<STACK_DEPTH])"

definition lane_words :: "ccore \<Rightarrow> nat \<Rightarrow> u32 list" where
  "lane_words c x = [k_tx c x, k_ty c x, k_tz c x, k_gid c x] @
     map (\<lambda>r. k_gpr c x (of_nat r)) [0..<16]"

definition core_head :: "gpu_config \<Rightarrow> model \<Rightarrow> ccore \<Rightarrow> u32 list" where
  "core_head cfg m c =
     [state_code (k_state c), bool_u32 (k_cta_active c), bool_u32 (k_fault c), of_nat (k_rr c),
      of_nat (k_iw c), k_im c, k_ip c, k_inst c, of_nat (k_mt c)] @
     dim_words (k_block c) @ dim_words (k_dim c) @ dim_words (k_grid c) @
     [k_args c,
      foldl (\<lambda>acc w. if k_valid c w then acc OR lane_bit w else acc) 0 [0..<cfg_warps cfg],
      bool_u32 (k_state c = FETCH), k_ip c] @
     fst (dmem_words cfg m c)"

definition pack_core :: "gpu_config \<Rightarrow> model \<Rightarrow> ccore \<Rightarrow> u32 list" where
  "pack_core cfg m c = core_head cfg m c @
     concat (map (warp_words c) [0..<cfg_warps cfg]) @
     concat (map (lane_words c) [0..<cfg_warps cfg * cfg_threads cfg])"

definition pack_top :: "gpu_config \<Rightarrow> model \<Rightarrow> u32 list" where
  "pack_top cfg m =
     (let ready = cores_where cfg core_ready m; busy = cores_where cfg k_cta_active m;
          done = cores_where cfg (\<lambda>c. \<not> k_cta_active c) m;
          flt = bool_u32 (list_ex k_fault (m_cores m));
          any = (pick_core cfg m \<noteq> None); sel = selected_core cfg m;
          topbusy = bool_u32 (m_running m \<or> busy \<noteq> 0)
      in [topbusy, flt, done] @
         [m_startup m, m_args m, m_args_size m] @ dim_words (m_dim m) @ dim_words (m_grid m) @
         [m_block_size m] @ dim_words (m_block m) @
         [bool_u32 (m_running m), of_nat (m_rr m),
          (if m_running m \<and> any then lane_bit sel else 0),
          ready, busy, topbusy, of_nat sel OR push_bit 31 (bool_u32 any)])"

definition pack :: "gpu_config \<Rightarrow> model \<Rightarrow> model" where
  "pack cfg m = m\<lparr>m_packed := pack_top cfg m @ concat (map (pack_core cfg m) (m_cores m)),
                  m_failed := (m_failed m \<or> list_ex (\<lambda>c. snd (dmem_words cfg m c)) (m_cores m))\<rparr>"

subsection \<open>The clock step\<close>

definition cycle_diff_init :: "gpu_config \<Rightarrow> model" where
  "cycle_diff_init cfg = pack cfg (model_init cfg)"

definition cycle_diff_reset :: "gpu_config \<Rightarrow> model" where
  "cycle_diff_reset cfg = pack cfg (model_init cfg)"

definition cycle_diff_begin :: "pmem \<Rightarrow> nat \<Rightarrow> model \<Rightarrow> model" where
  "cycle_diff_begin p z m = m\<lparr>m_mem := p, m_size := z, m_active := True, m_failed := False, m_cycle := 0\<rparr>"

definition cycle_diff_set_inputs :: "bool \<Rightarrow> bool \<Rightarrow> u32 \<Rightarrow> u32 \<Rightarrow> bool \<Rightarrow> model \<Rightarrow> model" where
  "cycle_diff_set_inputs r v a d l m =
     m\<lparr>m_reset := r, m_dcr_valid := v, m_dcr_addr := a, m_dcr_data := d, m_launch := l\<rparr>"

text \<open>The store that a core presents to memory in this cycle, if any.\<close>

definition core_store :: "gpu_config \<Rightarrow> ccore \<Rightarrow> store option" where
  "core_store cfg c =
     (if k_cta_active c \<and> k_state c = MEM_REQ \<and> bit (k_im c) (k_mt c) \<and> k_inst c AND 0x7f = 0x23
      then let a = memory_address cfg c; f = drop_bit 12 (k_inst c) AND 7 in
           Some (Store (a AND NOT 3) (store_data cfg c) (ucast (byte_mask f a)))
      else None)"

definition kmu_dcr_write :: "model \<Rightarrow> model" where
  "kmu_dcr_write m =
     (let a = m_dcr_addr m; d = m_dcr_data m in
      if \<not> m_dcr_valid m then m
      else if a = 0x10 then m\<lparr>m_startup := d\<rparr>
      else if a = 0x11 then m\<lparr>m_args := d\<rparr>
      else if a = 0x12 then m\<lparr>m_args_size := d\<rparr>
      else if a = 0x13 \<or> a = 0x14 \<or> a = 0x15 then m\<lparr>m_dim := dim_put (unat (a - 0x13)) d (m_dim m)\<rparr>
      else if a = 0x16 \<or> a = 0x17 \<or> a = 0x18 then m\<lparr>m_grid := dim_put (unat (a - 0x16)) d (m_grid m)\<rparr>
      else if a = 0x19 then m\<lparr>m_block_size := d\<rparr>
      else m)"

text \<open>The next block coordinates, X fastest, and whether blocks are left.\<close>

definition kmu_advance :: "dim3 \<Rightarrow> dim3 \<Rightarrow> dim3 \<times> bool" where
  "kmu_advance g b =
     (if dim_x b + 1 = dim_x g then
        if dim_y b + 1 = dim_y g then
          if dim_z b + 1 = dim_z g then (dim_zeros, False)
          else (\<lparr>dim_x = 0, dim_y = 0, dim_z = dim_z b + 1\<rparr>, True)
        else (b\<lparr>dim_x := 0, dim_y := dim_y b + 1\<rparr>, True)
      else (b\<lparr>dim_x := dim_x b + 1\<rparr>, True))"

definition kmu_control :: "gpu_config \<Rightarrow> bool \<Rightarrow> nat \<Rightarrow> model \<Rightarrow> model" where
  "kmu_control cfg fire sel m =
     (if m_launch m then
        m\<lparr>m_block := dim_zeros,
          m_running := (m_block_size m \<noteq> 0 \<and> dim_x (m_grid m) \<noteq> 0 \<and> dim_y (m_grid m) \<noteq> 0 \<and>
                        dim_z (m_grid m) \<noteq> 0)\<rparr>
      else if fire then
        let (b, more) = kmu_advance (m_grid m) (m_block m) in
        m\<lparr>m_rr := (if sel = cfg_cores cfg - 1 then 0 else sel + 1), m_block := b,
          m_running := (m_running m \<and> more)\<rparr>
      else m)"

definition step_cores :: "gpu_config \<Rightarrow> bool \<Rightarrow> nat \<Rightarrow> model \<Rightarrow> model" where
  "step_cores cfg fire sel m =
     (let outs = map (\<lambda>i. core_step cfg m (m_cores m ! i) i (fire \<and> i = sel)) [0..<cfg_cores cfg]
      in m\<lparr>m_cores := map fst outs, m_failed := (m_failed m \<or> list_ex snd outs)\<rparr>)"

definition kmu_fire :: "gpu_config \<Rightarrow> model \<Rightarrow> bool" where
  "kmu_fire cfg m \<longleftrightarrow> m_running m \<and> pick_core cfg m \<noteq> None"

definition cycle_diff_step :: "gpu_config \<Rightarrow> model \<Rightarrow> model" where
  "cycle_diff_step cfg m0 =
     (let m = m0\<lparr>m_expected := [], m_dirty := []\<rparr> in
      if m_reset m
      then pack cfg ((model_init cfg)\<lparr>m_mem := m_mem m, m_size := m_size m, m_active := m_active m\<rparr>)
      else
        let fire = kmu_fire cfg m; sel = selected_core cfg m;
            stores = sort (List.map_filter (core_store cfg) (m_cores m));
            m1 = step_cores cfg fire sel m;
            m2 = kmu_control cfg fire sel (kmu_dcr_write m1);
            m3 = foldl (\<lambda>m s. store_ref cfg s m) (m2\<lparr>m_expected := stores\<rparr>) stores
        in pack cfg (m3\<lparr>m_cycle := m_cycle m3 + 1\<rparr>))"

subsection \<open>Comparison with the RTL\<close>

definition cycle_diff_state :: "model \<Rightarrow> u32 list" where "cycle_diff_state m = m_packed m"
definition cycle_diff_state_words :: "gpu_config \<Rightarrow> nat" where "cycle_diff_state_words cfg = total_words cfg"

definition cycle_diff_observe_store :: "u32 \<Rightarrow> u8 \<Rightarrow> u32 \<Rightarrow> model \<Rightarrow> model" where
  "cycle_diff_observe_store a k d m =
     (if m_active m then m\<lparr>m_actual := m_actual m @ [Store a (if k \<noteq> 0 then d else 0) k]\<rparr> else m)"

definition cycle_diff_check_stores :: "model \<Rightarrow> bool \<times> model" where
  "cycle_diff_check_stores m0 =
     (let m = m0\<lparr>m_actual := sort (m_actual m0)\<rparr> in
      if m_actual m = m_expected m then (True, m) else (False, m\<lparr>m_failed := True\<rparr>))"

definition cycle_diff_apply_stores :: "model \<Rightarrow> model" where
  "cycle_diff_apply_stores m = m\<lparr>m_actual := []\<rparr>"

definition cycle_diff_check_memory :: "pmem \<Rightarrow> nat \<Rightarrow> bool \<Rightarrow> model \<Rightarrow> bool \<times> model" where
  "cycle_diff_check_memory a z full m0 =
     (if \<not> m_active m0 then (True, m0)
      else if z \<noteq> m_size m0 then (False, m0)
      else if full then
        (if list_all (\<lambda>i. a (of_nat i) = m_mem m0 (of_nat i)) [0..<z] then (True, m0)
         else (False, m0\<lparr>m_failed := True\<rparr>))
      else
        let m = m0\<lparr>m_dirty := remdups_adj (sort (m_dirty m0))\<rparr> in
        if list_all (\<lambda>i. a i = m_mem m i) (m_dirty m) then (True, m)
        else (False, m\<lparr>m_failed := True\<rparr>))"

definition cycle_diff_failed :: "model \<Rightarrow> bool" where "cycle_diff_failed m = m_failed m"
definition cycle_diff_cycle :: "model \<Rightarrow> u64" where "cycle_diff_cycle m = m_cycle m"

subsection \<open>Names of the packed words\<close>

text \<open>\<open>%zu\<close>.\<close>

fun show_nat :: "nat \<Rightarrow> string" where
  "show_nat n = (if n < 10 then [char_of (48 + n)] else show_nat (n div 10) @ [char_of (48 + n mod 10)])"

declare show_nat.simps [simp del]

definition top_names :: "string list" where
  "top_names = [''top.busy'', ''top.fault'', ''top.done'']"

definition kmu_names :: "string list" where
  "kmu_names = [''startup_pc'', ''args_addr'', ''args_size'', ''block_dim.x'', ''block_dim.y'',
     ''block_dim.z'', ''grid_dim.x'', ''grid_dim.y'', ''grid_dim.z'', ''block_size'',
     ''block_idx.x'', ''block_idx.y'', ''block_idx.z'', ''running'', ''rr_core'', ''cta_valid'',
     ''core_ready'', ''core_busy'', ''busy'', ''selected'']"

definition core_names :: "string list" where
  "core_names = [''state'', ''cta_active'', ''fault'', ''rr_warp'', ''issue_warp'', ''issue_mask'',
     ''issue_pc'', ''issue_inst'', ''mem_thread'', ''block_idx.x'', ''block_idx.y'', ''block_idx.z'',
     ''block_dim.x'', ''block_dim.y'', ''block_dim.z'', ''grid_dim.x'', ''grid_dim.y'', ''grid_dim.z'',
     ''args_addr'', ''active_warps'', ''imem.ren'', ''imem.addr'', ''dmem.ren'', ''dmem.wen'',
     ''dmem.mask'', ''dmem.addr'', ''dmem.wdata'', ''dmem.rdata'']"

definition cycle_diff_field_name :: "gpu_config \<Rightarrow> nat \<Rightarrow> string" where
  "cycle_diff_field_name cfg word =
     (if word < 3 then top_names ! word
      else if word < 23 then ''kmu.'' @ kmu_names ! (word - 3)
      else
        let q = word - 23; ci = q div core_words cfg; o1 = q mod core_words cfg;
            core = ''core['' @ show_nat ci @ '']''
        in if o1 < 28 then core @ ''.'' @ core_names ! o1
           else if o1 < 28 + 20 * cfg_warps cfg then
             let w = (o1 - 28) div 20; x = (o1 - 28) mod 20; warp = core @ ''.warp['' @ show_nat w @ '']'' in
             if x < 4 then warp @ ''.'' @ [''valid'', ''pc'', ''mask'', ''stack_sp''] ! x
             else warp @ ''.stack['' @ show_nat ((x - 4) div 2) @ ''].'' @ (if odd x then ''mask'' else ''pc'')
           else
             let x = o1 - 28 - 20 * cfg_warps cfg; l = x div 20; f = x mod 20;
                 lane = core @ ''.lane['' @ show_nat l @ '']'' in
             if f < 4 then lane @ ''.'' @ [''thread_idx.x'', ''thread_idx.y'', ''thread_idx.z'', ''global_id''] ! f
             else lane @ ''.gpr['' @ show_nat (f - 4) @ '']'')"

end
