(* ===== verification/Rtl.thy ===== *)
theory Rtl
  imports Iss Cycle_Kmu
begin

text \<open>
  The hardware backend: the DPI bridge \<open>sw/sim/hm/dpi.cpp\<close> and the harness
  \<open>sw/sim/hm/rtl.cpp\<close>. The Verilated design \<open>VGPUTop\<close> is generated and is a parameter, a
  record of functions: \<open>v_eval\<close> takes the input ports and the state of the design and
  returns the DPI calls it makes, in order, ending with the new state. The bridge answers
  these calls. Waveform dumping writes a file only and has no counterpart here.
\<close>

subsection \<open>The Verilated design\<close>

datatype port = Clock | Reset | Gpu_Launch | Dcr_Valid | Dcr_Addr | Dcr_Data

type_synonym ports = "port \<Rightarrow> u32"

text \<open>An open array of the simulator: contiguous, or read by element, where an element may be absent.\<close>

datatype sv_array = Contiguous "u32 list" | Elements "u32 option list"

text \<open>The DPI calls of one evaluation: an interaction that ends with the state of the design.\<close>

datatype 't act =
    Done 't
  | Paddr_Read u32 "u32 \<Rightarrow> 't act"
  | Paddr_Write u32 u8 u32 "'t act"
  | Trace_Commit u32 u32 u32 "'t act"
  | Trace_Store u32 u32 u32 u32 "'t act"
  | Diff_State int sv_array "'t act"

record 't verilated =
  v_eval :: "ports \<Rightarrow> 't \<Rightarrow> 't act"
  v_busy :: "'t \<Rightarrow> bool"
  v_fault :: "'t \<Rightarrow> bool"

subsection \<open>State\<close>

text \<open>
  \<open>w_live\<close> says that the object behind the static pointer \<open>top\<close> exists: \<open>rtl_exit\<close> deletes it,
  and evaluating a deleted object is an error.

  The world shared by the two backends: the functional simulator with PMEM and trace (\<open>sm\<close>),
  the design with its ports, the static variables of \<open>rtl.cpp\<close>, the cycle model and the
  static variables of \<open>dpi.cpp\<close>.
\<close>

record 't world = sm +
  w_top :: 't
  w_live :: bool
  w_ports :: ports
  w_cycles :: u64
  w_diff_failed :: bool
  w_model :: model
  dp_state :: "u32 list"
  dp_valid :: "bool list"
  dp_seen :: bool
  dp_failed :: bool

subsection \<open>The DPI bridge\<close>

definition dpi_paddr_read :: "gpu_config \<Rightarrow> u32 \<Rightarrow> 't world \<Rightarrow> u32 option" where
  "dpi_paddr_read cfg addr w =
     (if \<not> in_pmem cfg addr then Some 0 else paddr_read cfg (sm_mem w) addr 4)"

definition dpi_paddr_write :: "gpu_config \<Rightarrow> u32 \<Rightarrow> u8 \<Rightarrow> u32 \<Rightarrow> 't world \<Rightarrow> 't world option" where
  "dpi_paddr_write cfg addr msk data w =
     (if cfg_difftest cfg then Some w
      else map_option (\<lambda>m. w\<lparr>sm_mem := m\<rparr>)
             (masked_bytes (paddr_write cfg) addr msk data [0..<4] (sm_mem w)))"

text \<open>Copying the elements; the flag says that an element was absent, which stops the loop.\<close>

fun copy_elements :: "nat \<Rightarrow> u32 option list \<Rightarrow> u32 list \<Rightarrow> u32 list \<times> bool" where
  "copy_elements at [] xs = (xs, False)"
| "copy_elements at (None # es) xs = (xs, True)"
| "copy_elements at (Some e # es) xs = copy_elements (Suc at) es (xs[at := e])"

definition copy_at :: "nat \<Rightarrow> 'a list \<Rightarrow> 'a list \<Rightarrow> 'a list" where
  "copy_at at ys xs = take at xs @ ys @ drop (at + length ys) xs"

definition sv_size :: "sv_array \<Rightarrow> nat" where
  "sv_size a = (case a of Contiguous xs \<Rightarrow> length xs | Elements es \<Rightarrow> length es)"

definition gpu_diff_state :: "gpu_config \<Rightarrow> int \<Rightarrow> sv_array \<Rightarrow> 't world \<Rightarrow> 't world" where
  "gpu_diff_state cfg base state w =
     (let n = total_words cfg; words = sv_size state; at = nat base in
      if \<not> cfg_difftest cfg then w
      else if base < 0 \<or> n < at then w\<lparr>dp_failed := True\<rparr>
      else if n - at < words then w\<lparr>dp_failed := True\<rparr>
      else
        let (ds, bad) = (case state of Contiguous xs \<Rightarrow> (copy_at at xs (dp_state w), False)
                         | Elements es \<Rightarrow> copy_elements at es (dp_state w))
        in if bad then w\<lparr>dp_state := ds, dp_failed := True\<rparr>
           else let valid = copy_at at (replicate words True) (dp_valid w)
                in w\<lparr>dp_state := ds, dp_valid := valid, dp_seen := list_all (\<lambda>b. b) valid\<rparr>)"

definition dpi_diff_reset :: "gpu_config \<Rightarrow> 't world \<Rightarrow> 't world" where
  "dpi_diff_reset cfg w =
     (if cfg_difftest cfg
      then w\<lparr>dp_state := replicate (total_words cfg) 0, dp_valid := replicate (total_words cfg) False,
             dp_seen := False, dp_failed := False\<rparr>
      else w)"

definition dpi_diff_state_seen :: "gpu_config \<Rightarrow> 't world \<Rightarrow> bool" where
  "dpi_diff_state_seen cfg w \<longleftrightarrow> cfg_difftest cfg \<and> dp_seen w"

definition dpi_diff_failed :: "gpu_config \<Rightarrow> 't world \<Rightarrow> bool" where
  "dpi_diff_failed cfg w \<longleftrightarrow> cfg_difftest cfg \<and> dp_failed w"

text \<open>Answering the calls of one evaluation; \<open>None\<close> is an aborting access.\<close>

primrec run_act :: "'t act \<Rightarrow> gpu_config \<Rightarrow> 't world \<Rightarrow> 't world option" where
  "run_act (Done t) cfg w = Some (w\<lparr>w_top := t\<rparr>)"
| "run_act (Paddr_Read addr k) cfg w = do { v \<leftarrow> dpi_paddr_read cfg addr w; run_act (k v) cfg w }"
| "run_act (Paddr_Write addr msk data k) cfg w =
     do { w' \<leftarrow> dpi_paddr_write cfg addr msk data w; run_act k cfg w' }"
| "run_act (Trace_Commit h pc inst k) cfg w =
     run_act k cfg (w\<lparr>sm_trace := gpu_trace_commit h pc inst (sm_trace w)\<rparr>)"
| "run_act (Trace_Store h addr msk data k) cfg w =
     run_act k cfg (w\<lparr>sm_trace := gpu_trace_store h addr msk data (sm_trace w)\<rparr>)"
| "run_act (Diff_State base state k) cfg w = run_act k cfg (gpu_diff_state cfg base state w)"

definition eval_top :: "gpu_config \<Rightarrow> 't verilated \<Rightarrow> u32 \<Rightarrow> 't world \<Rightarrow> 't world option" where
  "eval_top cfg v clk w =
     (if \<not> w_live w then None
      else let p = (w_ports w)(Clock := clk) in run_act (v_eval v p (w_top w)) cfg (w\<lparr>w_ports := p\<rparr>))"

subsection \<open>One clock cycle\<close>

text \<open>The store that the snapshot of a core shows on its data port, observed and written to PMEM.\<close>

definition observe_core :: "gpu_config \<Rightarrow> nat \<Rightarrow> 't world \<Rightarrow> 't world option" where
  "observe_core cfg core w =
     (let base = 23 + core * core_words cfg; d = dp_state w in
      if d ! (base + 23) \<noteq> 0 then
        let addr = d ! (base + 25); msk = ucast (d ! (base + 24)); data = d ! (base + 26) in
        map_option (\<lambda>m. w\<lparr>w_model := cycle_diff_observe_store addr msk data (w_model w), sm_mem := m\<rparr>)
          (masked_bytes (paddr_write cfg) addr msk data [0..<4] (sm_mem w))
      else Some w)"

fun observe_cores :: "gpu_config \<Rightarrow> nat list \<Rightarrow> 't world \<Rightarrow> 't world option" where
  "observe_cores cfg [] w = Some w"
| "observe_cores cfg (i # is) w = do { w' \<leftarrow> observe_core cfg i w; observe_cores cfg is w' }"

definition step_model :: "gpu_config \<Rightarrow> 't world \<Rightarrow> 't world" where
  "step_model cfg w =
     (let p = w_ports w in
      w\<lparr>w_model := cycle_diff_step cfg (cycle_diff_set_inputs (p Reset \<noteq> 0) (p Dcr_Valid \<noteq> 0)
                     (p Dcr_Addr) (p Dcr_Data) (p Gpu_Launch \<noteq> 0) (w_model w))\<rparr>)"

text \<open>
  The comparisons after the rising edge, each one skipped once \<open>diff_failed\<close> is set: store
  transactions, packed words, dirty bytes.
\<close>

definition compare_stores :: "'t world \<Rightarrow> 't world" where
  "compare_stores w =
     (if w_diff_failed w then w
      else let (ok, m) = cycle_diff_check_stores (w_model w)
           in w\<lparr>w_model := m, w_diff_failed := \<not> ok\<rparr>)"

definition compare_words :: "gpu_config \<Rightarrow> 't world \<Rightarrow> 't world" where
  "compare_words cfg w =
     (if \<not> w_diff_failed w \<and>
         list_ex (\<lambda>i. cycle_diff_state (w_model w) ! i \<noteq> dp_state w ! i) [0..<cycle_diff_state_words cfg]
      then w\<lparr>w_diff_failed := True\<rparr> else w)"

definition compare_memory :: "gpu_config \<Rightarrow> bool \<Rightarrow> 't world \<Rightarrow> 't world" where
  "compare_memory cfg full w =
     (if w_diff_failed w then w
      else let (ok, m) = cycle_diff_check_memory (sm_mem w) (unat (cfg_msize cfg)) full (w_model w)
           in w\<lparr>w_model := m, w_diff_failed := \<not> ok\<rparr>)"

definition diff_compare :: "gpu_config \<Rightarrow> 't world \<Rightarrow> 't world" where
  "diff_compare cfg w =
     (let w1 = (if dpi_diff_failed cfg w then w\<lparr>w_diff_failed := True\<rparr> else w);
          w2 = compare_memory cfg False (compare_words cfg (compare_stores w1))
      in w2\<lparr>w_model := cycle_diff_apply_stores (w_model w2)\<rparr>)"

definition tick :: "gpu_config \<Rightarrow> 't verilated \<Rightarrow> 't world \<Rightarrow> 't world option" where
  "tick cfg v w = do {
     w1 \<leftarrow> eval_top cfg v 0 w;
     w2 \<leftarrow> (if cfg_difftest cfg
            then map_option (step_model cfg) (observe_cores cfg [0..<cfg_cores cfg] w1) else Some w1);
     w3 \<leftarrow> eval_top cfg v 1 w2;
     w4 \<leftarrow> (if cfg_difftest cfg then map_option (diff_compare cfg) (eval_top cfg v 1 w3) else Some w3);
     Some (w4\<lparr>w_cycles := w_cycles w4 + 1\<rparr>) }"

subsection \<open>The interface of the backend\<close>

definition set_port :: "port \<Rightarrow> u32 \<Rightarrow> 't world \<Rightarrow> 't world" where
  "set_port p x w = w\<lparr>w_ports := (w_ports w)(p := x)\<rparr>"

definition rtl_reset :: "gpu_config \<Rightarrow> 't verilated \<Rightarrow> 't world \<Rightarrow> 't world option" where
  "rtl_reset cfg v w = do { w1 \<leftarrow> tick cfg v (set_port Reset 1 w); Some (set_port Reset 0 w1) }"

definition rtl_init :: "gpu_config \<Rightarrow> 't verilated \<Rightarrow> 't world \<Rightarrow> 't world option" where
  "rtl_init cfg v w = do {
     let w1 = set_port Dcr_Data 0 (set_port Dcr_Addr 0 (set_port Dcr_Valid 0 (set_port Gpu_Launch 0 w)));
     let w2 = (if cfg_difftest cfg
               then dpi_diff_reset cfg (w1\<lparr>w_model := cycle_diff_init cfg, w_diff_failed := False\<rparr>) else w1);
     w3 \<leftarrow> rtl_reset cfg v w2;
     Some (if cfg_difftest cfg \<and> \<not> dpi_diff_state_seen cfg w3 then w3\<lparr>w_diff_failed := True\<rparr> else w3) }"

definition rtl_exit :: "'t world \<Rightarrow> 't world" where
  "rtl_exit w = w\<lparr>w_live := False\<rparr>"

definition gpu_rtl_init :: "gpu_config \<Rightarrow> 't verilated \<Rightarrow> 't world \<Rightarrow> 't world option" where
  "gpu_rtl_init cfg v w = tick cfg v (set_port Gpu_Launch 0 w)"

definition gpu_rtl_launch :: "gpu_config \<Rightarrow> 't verilated \<Rightarrow> 't world \<Rightarrow> (bool \<times> 't world) option" where
  "gpu_rtl_launch cfg v w = do {
     let w1 = (if cfg_difftest cfg
               then w\<lparr>w_model := cycle_diff_begin (sm_mem w) (unat (cfg_msize cfg)) (w_model w)\<rparr> else w);
     w2 \<leftarrow> tick cfg v (set_port Gpu_Launch 1 w1);
     w3 \<leftarrow> tick cfg v (set_port Gpu_Launch 0 w2);
     Some (True, w3) }"

definition gpu_rtl_dcr_write :: "gpu_config \<Rightarrow> 't verilated \<Rightarrow> u32 \<Rightarrow> u32 \<Rightarrow> 't world \<Rightarrow> 't world option" where
  "gpu_rtl_dcr_write cfg v addr data w = do {
     w1 \<leftarrow> tick cfg v (set_port Dcr_Valid 1 (set_port Dcr_Data data (set_port Dcr_Addr addr w)));
     Some (set_port Dcr_Valid 0 w1) }"

definition gpu_rtl_fault :: "'t verilated \<Rightarrow> 't world \<Rightarrow> bool" where
  "gpu_rtl_fault v w \<longleftrightarrow> v_fault v (w_top w) \<or> w_diff_failed w"

text \<open>The loop of \<open>gpu_rtl_wait\<close> with the number of cycles left.\<close>

fun gpu_rtl_wait :: "gpu_config \<Rightarrow> 't verilated \<Rightarrow> nat \<Rightarrow> 't world \<Rightarrow> (bool \<times> 't world) option" where
  "gpu_rtl_wait cfg v n w =
     (if n = 0 then Some (\<not> v_busy v (w_top w) \<and> \<not> v_fault v (w_top w), w)
      else do {
        w1 \<leftarrow> tick cfg v w;
        if v_fault v (w_top w1) \<or> w_diff_failed w1 then Some (False, w1)
        else if \<not> v_busy v (w_top w1) then
          (if cfg_difftest cfg then
             let (ok, m) = cycle_diff_check_memory (sm_mem w1) (unat (cfg_msize cfg)) True (w_model w1)
             in if ok then Some (True, w1\<lparr>w_model := m\<rparr>)
                else Some (False, w1\<lparr>w_model := m, w_diff_failed := True\<rparr>)
           else Some (True, w1))
        else gpu_rtl_wait cfg v (n - 1) w1 })"

declare gpu_rtl_wait.simps [simp del]

end
