(* ===== verification/Gpu_Model.thy ===== *)
theory Gpu_Model
  imports Rtl
begin

text \<open>
  The backend-neutral model of \<open>sw/sim/model.cpp\<close> and \<open>sw/sim/model.h\<close>: every operation
  dispatches on the kind of the model to the functional simulator or to the hardware
  harness. A \<open>NULL\<close> model is \<open>None\<close>; an outer \<open>None\<close> is an abort or an access to a deleted
  object. Both kinds of model share the world of \<open>Rtl\<close>.
\<close>

datatype model_kind = GPU_MODEL_SM | GPU_MODEL_HM

record gpu_model =
  gm_kind :: model_kind
  gm_num_harts :: u32

text \<open>Running an operation of the functional simulator inside the world.\<close>

definition on_sm :: "(sm \<Rightarrow> ('b \<times> sm) option) \<Rightarrow> 't world \<Rightarrow> ('b \<times> 't world) option" where
  "on_sm f w = map_option (\<lambda>(r, s). (r, sm.extend s (sm.more w))) (f (sm.truncate w))"

definition gpu_model_create :: "gpu_config \<Rightarrow> model_kind \<Rightarrow> gpu_model option" where
  "gpu_model_create cfg kind =
     (if \<not> cfg_hm cfg \<and> kind = GPU_MODEL_HM then None
      else Some \<lparr>gm_kind = kind, gm_num_harts = 0\<rparr>)"

definition gpu_model_init ::
  "gpu_config \<Rightarrow> 't verilated \<Rightarrow> u32 \<Rightarrow> gpu_model option \<Rightarrow> 't world \<Rightarrow> (bool \<times> gpu_model option \<times> 't world) option" where
  "gpu_model_init cfg v n gm w =
     (case gm of None \<Rightarrow> Some (False, gm, w)
      | Some g \<Rightarrow>
        if n = 0 then Some (False, gm, w)
        else
          let gm' = Some (g\<lparr>gm_num_harts := n\<rparr>) in
          if gm_kind g = GPU_MODEL_SM then do {
            (u, w') \<leftarrow> on_sm (\<lambda>s. map_option (Pair ()) (gpu_iss_init n s)) w;
            Some (True, gm', w') }
          else if cfg_hm cfg then do {
            w1 \<leftarrow> rtl_init cfg v w;
            w2 \<leftarrow> gpu_rtl_init cfg v w1;
            Some (True, gm', w2) }
          else Some (False, gm', w))"

definition gpu_model_destroy :: "gpu_config \<Rightarrow> gpu_model option \<Rightarrow> 't world \<Rightarrow> 't world" where
  "gpu_model_destroy cfg gm w =
     (case gm of None \<Rightarrow> w
      | Some g \<Rightarrow> if cfg_hm cfg \<and> gm_kind g = GPU_MODEL_HM then rtl_exit w else w)"

definition gpu_model_dcr_write ::
  "gpu_config \<Rightarrow> 't verilated \<Rightarrow> gpu_model option \<Rightarrow> u32 \<Rightarrow> u32 \<Rightarrow> 't world \<Rightarrow> 't world option" where
  "gpu_model_dcr_write cfg v gm addr data w =
     (case gm of None \<Rightarrow> Some w
      | Some g \<Rightarrow>
        if gm_kind g = GPU_MODEL_SM
        then map_option snd (on_sm (\<lambda>s. Some ((), gpu_iss_dcr_write addr data s)) w)
        else if cfg_hm cfg then gpu_rtl_dcr_write cfg v addr data w
        else Some w)"

text \<open>\<open>calloc_ok\<close>: whether the simulator can allocate the thread contexts.\<close>

definition gpu_model_launch ::
  "gpu_config \<Rightarrow> 't verilated \<Rightarrow> bool \<Rightarrow> gpu_model option \<Rightarrow> 't world \<Rightarrow> (bool \<times> 't world) option" where
  "gpu_model_launch cfg v calloc_ok gm w =
     (case gm of None \<Rightarrow> Some (False, w)
      | Some g \<Rightarrow>
        if gm_kind g = GPU_MODEL_SM then
          on_sm (\<lambda>s. do { s1 \<leftarrow> gpu_iss_init (gm_num_harts g) s; gpu_iss_launch cfg calloc_ok s1 }) w
        else if cfg_hm cfg then gpu_rtl_launch cfg v w
        else Some (False, w))"

text \<open>The loop of \<open>gpu_model_wait\<close> over the simulator with the number of steps left.\<close>

fun sm_wait :: "gpu_config \<Rightarrow> nat \<Rightarrow> sm \<Rightarrow> (bool \<times> sm) option" where
  "sm_wait cfg n s =
     (if n = 0 \<or> gpu_iss_done s then Some (gpu_iss_done s, s)
      else do { (b, s') \<leftarrow> gpu_iss_step cfg s; sm_wait cfg (n - 1) s' })"

declare sm_wait.simps [simp del]

definition gpu_model_wait ::
  "gpu_config \<Rightarrow> 't verilated \<Rightarrow> nat \<Rightarrow> gpu_model option \<Rightarrow> 't world \<Rightarrow> (bool \<times> 't world) option" where
  "gpu_model_wait cfg v max_steps gm w =
     (case gm of None \<Rightarrow> Some (False, w)
      | Some g \<Rightarrow>
        if gm_kind g = GPU_MODEL_SM then on_sm (sm_wait cfg max_steps) w
        else if cfg_hm cfg then gpu_rtl_wait cfg v max_steps w
        else Some (False, w))"

definition gpu_model_fault :: "gpu_config \<Rightarrow> 't verilated \<Rightarrow> gpu_model option \<Rightarrow> 't world \<Rightarrow> bool" where
  "gpu_model_fault cfg v gm w =
     (case gm of None \<Rightarrow> True
      | Some g \<Rightarrow>
        if gm_kind g = GPU_MODEL_SM then gpu_iss_fault (sm.truncate w)
        else if cfg_hm cfg then gpu_rtl_fault v w
        else True)"

subsection \<open>The simulator inside the world\<close>

lemma truncate_extend_sm [simp]: "sm.truncate (sm.extend s x) = s" "sm.more (sm.extend s x) = x"
  by (simp_all add: sm.truncate_def sm.extend_def)

lemma extend_truncate_sm [simp]: "sm.extend (sm.truncate w) (sm.more w) = w"
  by (simp add: sm.truncate_def sm.extend_def)

lemma truncate_fields [simp]:
  "iss_cores (sm.truncate w) = iss_cores w" "iss_ncores (sm.truncate w) = iss_ncores w"
  "iss_physical_count (sm.truncate w) = iss_physical_count w" "iss_rr (sm.truncate w) = iss_rr w"
  "iss_startup_pc (sm.truncate w) = iss_startup_pc w" "iss_args_addr (sm.truncate w) = iss_args_addr w"
  "iss_grid (sm.truncate w) = iss_grid w" "iss_block (sm.truncate w) = iss_block w"
  "iss_block_size (sm.truncate w) = iss_block_size w" "iss_faulted (sm.truncate w) = iss_faulted w"
  "sm_mem (sm.truncate w) = sm_mem w" "sm_trace (sm.truncate w) = sm_trace w"
  by (simp_all add: sm.truncate_def)

lemma extend_fields [simp]:
  "iss_cores (sm.extend s x) = iss_cores s" "iss_ncores (sm.extend s x) = iss_ncores s"
  "iss_startup_pc (sm.extend s x) = iss_startup_pc s" "iss_args_addr (sm.extend s x) = iss_args_addr s"
  "iss_grid (sm.extend s x) = iss_grid s" "iss_block (sm.extend s x) = iss_block s"
  "iss_block_size (sm.extend s x) = iss_block_size s" "iss_faulted (sm.extend s x) = iss_faulted s"
  "sm_mem (sm.extend s x) = sm_mem s" "sm_trace (sm.extend s x) = sm_trace s"
  by (simp_all add: sm.extend_def)

lemma on_sm_Some:
  "on_sm f w = Some (r, w') \<longleftrightarrow> (\<exists>s. f (sm.truncate w) = Some (r, s) \<and> w' = sm.extend s (sm.more w))"
  by (auto simp: on_sm_def)

end
