(* ===== verification/Allocator.thy ===== *)
theory Allocator
  imports Prelude
begin

text \<open>
  The device heap of \<open>sw/runtime/gpu/gpu.c\<close>: the arithmetic helpers \<open>align_up\<close>,
  \<open>range_inside\<close> and \<open>mul_u32\<close>, the table of 64 allocations and the first-fit search of
  \<open>gpu_mem_alloc\<close>. The runtime theory builds the public calls on these functions.
\<close>

subsection \<open>Constants and helpers\<close>

definition GPU_HEAP_BASE :: u32 where "GPU_HEAP_BASE = 0x82000000"
definition GPU_KERNEL_END :: u32 where "GPU_KERNEL_END = 0x81010000"
definition GPU_MAX_ALLOCS :: nat where "GPU_MAX_ALLOCS = 64"
definition GPU_ALIGN :: u32 where "GPU_ALIGN = 64"

definition heap_end :: "gpu_config \<Rightarrow> u32" where
  "heap_end cfg = cfg_mbase cfg + cfg_msize cfg"

definition align_up :: "u32 \<Rightarrow> u32" where
  "align_up v = (v + GPU_ALIGN - 1) AND NOT (GPU_ALIGN - 1)"

text \<open>\<open>size_t\<close> is 64 bits wide.\<close>

definition range_inside :: "u32 \<Rightarrow> u64 \<Rightarrow> u32 \<Rightarrow> u32 \<Rightarrow> bool" where
  "range_inside address sz lo hi \<longleftrightarrow>
     sz \<noteq> 0 \<and> lo \<le> address \<and> address < hi \<and> sz \<le> 0xffffffff \<and> ucast sz \<le> hi - address"

definition mul_u32 :: "u32 \<Rightarrow> u32 \<Rightarrow> u32 option" where
  "mul_u32 a b = (let product = (ucast a * ucast b :: u64) in
                  if 0xffffffff < product then None else Some (ucast product))"

record allocation =
  a_address :: u32
  a_size :: u32
  a_used :: bool

definition no_allocation :: allocation where
  "no_allocation = \<lparr>a_address = 0, a_size = 0, a_used = False\<rparr>"

text \<open>\<open>memset(allocations, 0, sizeof allocations)\<close>.\<close>

definition empty_allocations :: "allocation list" where
  "empty_allocations = replicate GPU_MAX_ALLOCS no_allocation"

subsection \<open>First fit\<close>

text \<open>Index of the first table entry that satisfies a condition, the shape of every table loop.\<close>

fun first_index :: "('a \<Rightarrow> bool) \<Rightarrow> 'a list \<Rightarrow> nat option" where
  "first_index p [] = None"
| "first_index p (x # xs) = (if p x then Some 0 else map_option Suc (first_index p xs))"

definition free_slot :: "allocation list \<Rightarrow> nat option" where
  "free_slot as = first_index (\<lambda>a. \<not> a_used a) as"

definition alloc_conflict :: "u32 \<Rightarrow> u32 \<Rightarrow> allocation \<Rightarrow> bool" where
  "alloc_conflict n candidate a \<longleftrightarrow>
     a_used a \<and> candidate < a_address a + a_size a \<and> a_address a < candidate + n"

text \<open>The \<open>while (candidate < heap_end)\<close> loop; it stops at the first candidate that nothing overlaps.\<close>

partial_function (option) alloc_search :: "allocation list \<Rightarrow> u32 \<Rightarrow> u32 \<Rightarrow> u32 \<Rightarrow> u32 option" where
  "alloc_search as n hend candidate =
     (if candidate < hend then
        (case find (alloc_conflict n candidate) as of
           None \<Rightarrow> Some candidate
         | Some a \<Rightarrow> alloc_search as n hend (align_up (a_address a + a_size a)))
      else Some candidate)"

declare alloc_search.simps [code]

subsection \<open>Arithmetic of the helpers\<close>

lemma unat_and_align: "unat (x AND - 64 :: u32) = unat x div 64 * 64"
proof -
  have m: "(- 64 :: u32) = NOT (mask 6)" by (simp add: mask_eq_exp_minus_1)
  have "x AND - 64 = push_bit 6 (drop_bit 6 x)"
  proof (rule bit_word_eqI)
    fix n assume "n < LENGTH(32)"
    then show "bit (x AND - 64) n = bit (push_bit 6 (drop_bit 6 x)) n"
      unfolding m by (auto simp: bit_simps)
  qed
  moreover have "unat x div 64 * 64 < 4294967296"
    using unat_less_u32[of x] by (metis div_times_less_eq_dividend le_less_trans)
  ultimately show ?thesis
    by (simp add: drop_bit_eq_div push_bit_eq_mult unat_mult_u32 unat_div_distrib)
qed

lemma align_up_eq: "align_up v = (v + 63) AND - 64"
  by (simp add: align_up_def GPU_ALIGN_def add.commute)

lemma unat_align_up:
  "unat v \<le> 2 ^ 32 - 64 \<Longrightarrow> unat (align_up v) = (unat v + 63) div 64 * 64"
  by (simp add: align_up_eq unat_and_align unat_add_u32)

lemma align_up_aligned:
  assumes "unat v \<le> 2 ^ 32 - 64" and "64 dvd unat v"
  shows "align_up v = v"
proof -
  obtain k where "unat v = 64 * k" using assms(2) by (auto simp: dvd_def)
  then have "unat (align_up v) = unat v" using unat_align_up[OF assms(1)] by simp
  then show ?thesis by (simp add: word_unat_eq_iff)
qed

lemma align_up_ge: "unat v \<le> 2 ^ 32 - 64 \<Longrightarrow> unat v \<le> unat (align_up v)"
  by (simp add: unat_align_up)

lemma align_up_dvd: "64 dvd unat (align_up v)"
  by (simp add: align_up_eq unat_and_align)

text \<open>Beyond the last multiple of 64 the addition wraps and the result is 0.\<close>

lemma align_up_wraps: "2 ^ 32 - 64 < unat v \<Longrightarrow> align_up v = 0"
proof -
  assume v: "2 ^ 32 - 64 < unat v"
  have "unat (v + 63) = unat v + 63 - 2 ^ 32"
    using v unat_less_u32[of v] by (simp add: unat_word_ariths mod_if)
  then have "unat (v + 63) < 64" using unat_less_u32[of v] by simp
  then have "unat (align_up v) = 0" by (simp add: align_up_eq unat_and_align)
  then show ?thesis by (simp add: unat_eq_0)
qed

lemma mul_u32_Some: "mul_u32 a b = Some p \<longleftrightarrow> unat a * unat b < 2 ^ 32 \<and> unat p = unat a * unat b"
proof -
  have "unat a * unat b < 4294967296 * 4294967296"
    using unat_less_u32[of a] unat_less_u32[of b] by (intro mult_strict_mono) auto
  then have "unat (ucast a * ucast b :: u64) = unat a * unat b"
    by (simp add: unat_word_ariths unat_ucast_u64)
  then show ?thesis
    by (auto simp: mul_u32_def Let_def word_less_nat_alt unat_ucast_u32 word_unat_eq_iff not_less)
qed

lemma first_index_Some_iff:
  "first_index p xs = Some i \<longleftrightarrow> i < length xs \<and> p (xs ! i) \<and> (\<forall>j < i. \<not> p (xs ! j))"
proof (induction xs arbitrary: i)
  case Nil
  then show ?case by simp
next
  case (Cons x xs)
  then show ?case by (cases i) (auto simp: All_less_Suc2)
qed

lemma first_index_None_iff: "first_index p xs = None \<longleftrightarrow> (\<forall>x \<in> set xs. \<not> p x)"
  by (induction xs) auto

subsection \<open>The heap invariant\<close>

text \<open>A used block is aligned, not empty and inside the heap; used blocks do not overlap.\<close>

definition block_ok :: "gpu_config \<Rightarrow> allocation \<Rightarrow> bool" where
  "block_ok cfg a \<longleftrightarrow> 64 dvd unat (a_address a) \<and> 64 dvd unat (a_size a) \<and> 0 < unat (a_size a) \<and>
     unat GPU_HEAP_BASE \<le> unat (a_address a) \<and>
     unat (a_address a) + unat (a_size a) \<le> unat (heap_end cfg)"

definition blocks_apart :: "allocation \<Rightarrow> allocation \<Rightarrow> bool" where
  "blocks_apart a b \<longleftrightarrow> unat (a_address a) + unat (a_size a) \<le> unat (a_address b) \<or>
     unat (a_address b) + unat (a_size b) \<le> unat (a_address a)"

definition heap_ok :: "gpu_config \<Rightarrow> allocation list \<Rightarrow> bool" where
  "heap_ok cfg as \<longleftrightarrow> length as = GPU_MAX_ALLOCS \<and>
     (\<forall>a \<in> set as. a_used a \<longrightarrow> block_ok cfg a) \<and>
     (\<forall>i < length as. \<forall>j < length as. i \<noteq> j \<and> a_used (as ! i) \<and> a_used (as ! j) \<longrightarrow>
        blocks_apart (as ! i) (as ! j))"

text \<open>\<open>n\<close> bytes at address \<open>c\<close> (both numbers) overlap no used block.\<close>

definition span_free :: "allocation list \<Rightarrow> nat \<Rightarrow> nat \<Rightarrow> bool" where
  "span_free as n c \<longleftrightarrow> (\<forall>a \<in> set as. a_used a \<longrightarrow>
     c + n \<le> unat (a_address a) \<or> unat (a_address a) + unat (a_size a) \<le> c)"

definition span_fits :: "gpu_config \<Rightarrow> nat \<Rightarrow> nat \<Rightarrow> bool" where
  "span_fits cfg n c \<longleftrightarrow> 64 dvd c \<and> unat GPU_HEAP_BASE \<le> c \<and> c + n \<le> unat (heap_end cfg)"

lemma heap_ok_empty: "heap_ok cfg empty_allocations"
  by (simp add: heap_ok_def empty_allocations_def no_allocation_def)

lemma unat_heap_end:
  assumes "config_ok cfg"
  shows "unat (heap_end cfg) = unat (cfg_mbase cfg) + unat (cfg_msize cfg)"
    and "unat (heap_end cfg) \<le> 2 ^ 32 - 64" and "unat GPU_HEAP_BASE < unat (heap_end cfg)"
proof -
  have b: "unat (cfg_mbase cfg) + unat (cfg_msize cfg) \<le> 2 ^ 32 - 64"
      "0x82000000 < unat (cfg_mbase cfg) + unat (cfg_msize cfg)"
    using assms by (auto simp: config_ok_def)
  then show e: "unat (heap_end cfg) = unat (cfg_mbase cfg) + unat (cfg_msize cfg)"
    unfolding heap_end_def by (intro unat_add_u32) simp
  show "unat (heap_end cfg) \<le> 2 ^ 32 - 64" "unat GPU_HEAP_BASE < unat (heap_end cfg)"
    using b unfolding e by (simp_all add: GPU_HEAP_BASE_def)
qed

lemma block_end:
  assumes "config_ok cfg" and "block_ok cfg a"
  shows "unat (a_address a + a_size a) = unat (a_address a) + unat (a_size a)"
    and "align_up (a_address a + a_size a) = a_address a + a_size a"
proof -
  have le: "unat (a_address a) + unat (a_size a) \<le> 2 ^ 32 - 64"
    using assms(2) unat_heap_end(2)[OF assms(1)] by (simp add: block_ok_def)
  then show e: "unat (a_address a + a_size a) = unat (a_address a) + unat (a_size a)"
    by (intro unat_add_u32) simp
  show "align_up (a_address a + a_size a) = a_address a + a_size a"
    using le assms(2) by (intro align_up_aligned) (simp_all add: e block_ok_def)
qed

text \<open>Without wrap-around the test of the loop is the overlap of the two spans.\<close>

lemma alloc_conflict_iff:
  assumes "config_ok cfg" and "block_ok cfg a" and "unat c + unat n < 2 ^ 32"
  shows "alloc_conflict n c a \<longleftrightarrow> a_used a \<and>
     \<not> (unat c + unat n \<le> unat (a_address a) \<or> unat (a_address a) + unat (a_size a) \<le> unat c)"
  using block_end(1)[OF assms(1,2)] unat_add_u32[OF assms(3)]
  by (auto simp: alloc_conflict_def word_less_nat_alt not_le)

subsection \<open>The search is first fit\<close>

lemma alloc_search_first_fit:
  assumes cfg: "config_ok cfg" and ok: "heap_ok cfg as"
    and cand: "64 dvd unat c" "unat GPU_HEAP_BASE \<le> unat c"
    and below: "\<And>x. span_fits cfg (unat n) x \<Longrightarrow> x < unat c \<Longrightarrow> \<not> span_free as (unat n) x"
  shows "\<exists>r. alloc_search as n (heap_end cfg) c = Some r \<and>
     64 dvd unat r \<and> unat GPU_HEAP_BASE \<le> unat r \<and>
     (\<forall>x. span_fits cfg (unat n) x \<and> x < unat r \<longrightarrow> \<not> span_free as (unat n) x) \<and>
     (span_fits cfg (unat n) (unat r) \<and> 0 < unat n \<longrightarrow> span_free as (unat n) (unat r))"
  using cand below
proof (induction "unat (heap_end cfg) - unat c" arbitrary: c rule: less_induct)
  case less
  let ?H = "unat (heap_end cfg)"
  note H = unat_heap_end[OF cfg]
  show ?case
  proof (cases "c < heap_end cfg")
    case False
    then have "\<not> (span_fits cfg (unat n) (unat c) \<and> 0 < unat n)"
      by (auto simp: span_fits_def word_less_nat_alt)
    then show ?thesis using False less.prems
      by (intro exI[of _ c]) (auto simp: alloc_search.simps[of as n _ c])
  next
    case c: True
    show ?thesis
    proof (cases "find (alloc_conflict n c) as")
      case None
      have "span_free as (unat n) (unat c)" if "span_fits cfg (unat n) (unat c)"
      proof -
        have "unat c + unat n < 2 ^ 32" using that H(2) by (simp add: span_fits_def)
        then show ?thesis
          using None ok alloc_conflict_iff[OF cfg]
          by (fastforce simp: span_free_def find_None_iff heap_ok_def)
      qed
      then show ?thesis using c None less.prems
        by (intro exI[of _ c]) (auto simp: alloc_search.simps[of as n _ c])
    next
      case (Some a)
      then have a: "a \<in> set as" "alloc_conflict n c a" by (auto simp: find_Some_iff)
      then have used: "a_used a" and ba: "block_ok cfg a"
        using ok by (auto simp: alloc_conflict_def heap_ok_def)
      let ?e = "a_address a + a_size a"
      note e = block_end[OF cfg ba]
      have step: "alloc_search as n (heap_end cfg) c = alloc_search as n (heap_end cfg) ?e"
        using c Some e(2) by (simp add: alloc_search.simps[of as n _ c])
      have lt: "unat c < unat ?e" "unat ?e \<le> ?H"
        using a(2) ba e(1) by (auto simp: alloc_conflict_def word_less_nat_alt block_ok_def)
      have blocked: "\<not> span_free as (unat n) x"
        if x: "span_fits cfg (unat n) x" "x < unat ?e" for x
      proof (cases "x < unat c")
        case True
        then show ?thesis using less.prems(3) x(1) by blast
      next
        case False
        then have "unat c + unat n < 2 ^ 32" using x(1) H(2) by (simp add: span_fits_def)
        then have "unat (a_address a) < unat c + unat n"
          using a(2) alloc_conflict_iff[OF cfg ba, of c n] by auto
        then have "\<not> (x + unat n \<le> unat (a_address a) \<or> unat (a_address a) + unat (a_size a) \<le> x)"
          using False x(2) e(1) by linarith
        then show ?thesis using a(1) used by (auto simp: span_free_def)
      qed
      have "?H - unat ?e < ?H - unat c" using lt c by (simp add: word_less_nat_alt)
      then show ?thesis
        unfolding step using less.hyps[of ?e] ba e(1) blocked by (simp add: block_ok_def)
    qed
  qed
qed

end
