(* ===== verification/Runtime.thy ===== *)
theory Runtime
  imports Gpu_Model Allocator
begin

text \<open>
  The host runtime \<open>sw/runtime/gpu/gpu.c\<close> (with \<open>gpu.h\<close> and \<open>sw/include/runtime.h\<close>): device
  and kernel handles, device memory, launches and waits, start-up and shut-down. Every call
  returns its result and the new state; the outer \<open>None\<close> is an abort (a failed \<open>Assert\<close>) or
  a use of memory that the C program may not touch. Whether an allocation of the host
  succeeds is an argument. The properties are in \<open>Heap_Props\<close> and \<open>Runtime_Props\<close>.
\<close>

subsection \<open>Results and handles\<close>

datatype gpu_result =
    GPU_SUCCESS
  | GPU_ERROR_INVALID_ARGUMENT
  | GPU_ERROR_OUT_OF_MEMORY
  | GPU_ERROR_IO
  | GPU_ERROR_BAD_STATE
  | GPU_ERROR_TIMEOUT
  | GPU_ERROR_BACKEND

fun gpu_result_string :: "gpu_result \<Rightarrow> string" where
  "gpu_result_string GPU_SUCCESS = ''success''"
| "gpu_result_string GPU_ERROR_INVALID_ARGUMENT = ''invalid argument''"
| "gpu_result_string GPU_ERROR_OUT_OF_MEMORY = ''out of memory''"
| "gpu_result_string GPU_ERROR_IO = ''I/O error''"
| "gpu_result_string GPU_ERROR_BAD_STATE = ''bad state''"
| "gpu_result_string GPU_ERROR_TIMEOUT = ''timeout''"
| "gpu_result_string GPU_ERROR_BACKEND = ''backend error''"

text \<open>
  A device handle is \<open>NULL\<close>, the address of the only device, or some other pointer. A kernel
  handle is \<open>NULL\<close> (\<open>None\<close>) or the number of an allocated descriptor.
\<close>

datatype dev_ptr = Dev_Null | Dev_Singleton | Dev_Other

type_synonym kernel_ptr = "nat option"

record gpu_kernel =
  kn_device :: dev_ptr
  kn_entry :: u32
  kn_generation :: u32

definition GPU_WAIT_LIMIT :: nat where "GPU_WAIT_LIMIT = 100000000"

text \<open>The static variables of \<open>gpu.c\<close>; the trace variables are part of the world.\<close>

record 't runtime =
  rt_world :: "'t world"
  rt_initialized :: bool
  rt_exec :: "gpu_model option"
  rt_ref :: "gpu_model option"
  d_opened :: bool
  d_running :: bool
  d_generation :: u32
  d_allocs :: "allocation list"
  d_kernels :: "(nat \<times> gpu_kernel) list"
  d_fresh :: nat
  d_launch_args :: u32
  d_args_used :: bool
  d_reference :: "pmem option"
  d_ref_fault :: bool

text \<open>The static variables before \<open>main\<close>; PMEM is allocated by \<open>init_mem\<close>.\<close>

definition static_world :: "gpu_config \<Rightarrow> 't \<Rightarrow> 't world" where
  "static_world cfg t = \<lparr>iss_cores = [], iss_ncores = 0, iss_physical_count = 0, iss_rr = 0,
     iss_startup_pc = GPU_KERNEL_BASE, iss_args_addr = 0, iss_args_size = 0, iss_grid = dim_ones,
     iss_block = dim_ones, iss_block_size = 1, iss_faulted = False,
     sm_mem = (\<lambda>_. 0), sm_trace = trace_init,
     w_top = t, w_live = True, w_ports = (\<lambda>_. 0), w_cycles = 0, w_diff_failed = False,
     w_model = model_init cfg, dp_state = replicate (total_words cfg) 0,
     dp_valid = replicate (total_words cfg) False, dp_seen = False, dp_failed = False\<rparr>"

definition static_runtime :: "gpu_config \<Rightarrow> 't \<Rightarrow> 't runtime" where
  "static_runtime cfg t = \<lparr>rt_world = static_world cfg t, rt_initialized = False, rt_exec = None,
     rt_ref = None, d_opened = False, d_running = False, d_generation = 0,
     d_allocs = empty_allocations, d_kernels = [], d_fresh = 0, d_launch_args = 0,
     d_args_used = False, d_reference = None, d_ref_fault = False\<rparr>"

definition has_ref :: "gpu_config \<Rightarrow> bool" where
  "has_ref cfg \<longleftrightarrow> cfg_hm cfg \<and> cfg_difftest cfg"

definition rt_mem :: "'t runtime \<Rightarrow> pmem" where
  "rt_mem rt = sm_mem (rt_world rt)"

definition set_mem :: "pmem \<Rightarrow> 't runtime \<Rightarrow> 't runtime" where
  "set_mem m rt = rt\<lparr>rt_world := (rt_world rt)\<lparr>sm_mem := m\<rparr>\<rparr>"

definition valid_device :: "dev_ptr \<Rightarrow> 't runtime \<Rightarrow> bool" where
  "valid_device dev rt \<longleftrightarrow> rt_initialized rt \<and> dev = Dev_Singleton \<and> d_opened rt"

subsection \<open>Opening, closing and queries\<close>

definition gpu_device_open :: "u32 \<Rightarrow> bool \<Rightarrow> 't runtime \<Rightarrow> (gpu_result + dev_ptr) \<times> 't runtime" where
  "gpu_device_open index out_ok rt =
     (if \<not> rt_initialized rt \<or> \<not> out_ok \<or> index \<noteq> 0 then (Inl GPU_ERROR_INVALID_ARGUMENT, rt)
      else if d_opened rt then (Inl GPU_ERROR_BAD_STATE, rt)
      else (Inr Dev_Singleton,
            rt\<lparr>d_allocs := empty_allocations, d_opened := True, d_running := False, d_generation := 0,
               d_kernels := [], d_launch_args := 0, d_args_used := False\<rparr>))"

definition gpu_device_close :: "gpu_config \<Rightarrow> dev_ptr \<Rightarrow> 't runtime \<Rightarrow> gpu_result \<times> 't runtime" where
  "gpu_device_close cfg dev rt =
     (if \<not> valid_device dev rt then (GPU_ERROR_INVALID_ARGUMENT, rt)
      else if d_running rt then (GPU_ERROR_BAD_STATE, rt)
      else (GPU_SUCCESS,
            rt\<lparr>d_reference := (if has_ref cfg then None else d_reference rt),
               d_allocs := empty_allocations, d_kernels := [], d_opened := False\<rparr>))"

record device_config =
  dc_cores :: u32
  dc_warps :: u32
  dc_threads :: u32
  dc_harts :: u32

definition gpu_device_get_config ::
  "gpu_config \<Rightarrow> dev_ptr \<Rightarrow> bool \<Rightarrow> 't runtime \<Rightarrow> gpu_result + device_config" where
  "gpu_device_get_config cfg dev out_ok rt =
     (if \<not> valid_device dev rt \<or> \<not> out_ok then Inl GPU_ERROR_INVALID_ARGUMENT
      else Inr \<lparr>dc_cores = of_nat (cfg_cores cfg), dc_warps = of_nat (cfg_warps cfg),
                dc_threads = of_nat (cfg_threads cfg), dc_harts = of_nat (num_harts cfg)\<rparr>)"

subsection \<open>Device memory\<close>

text \<open>\<open>memcpy\<close> and \<open>memset\<close> at a device address: \<open>guest_to_host\<close> asserts that it is in PMEM.\<close>

definition raw_write :: "gpu_config \<Rightarrow> u32 \<Rightarrow> u8 list \<Rightarrow> 't runtime \<Rightarrow> 't runtime option" where
  "raw_write cfg address bytes rt =
     map_option (\<lambda>off. set_mem (copy_in (rt_mem rt) off bytes) rt) (guest_to_host cfg address)"

text \<open>The first \<open>n\<close> bytes at a host pointer; reading past the object is an error.\<close>

definition host_bytes :: "u8 list \<Rightarrow> u64 \<Rightarrow> u8 list option" where
  "host_bytes src n = (if unat n \<le> length src then Some (take (unat n) src) else None)"

definition alloc_candidate :: "gpu_config \<Rightarrow> allocation list \<Rightarrow> u32 \<Rightarrow> u32 option" where
  "alloc_candidate cfg as n = alloc_search as n (heap_end cfg) GPU_HEAP_BASE"

definition gpu_mem_alloc ::
  "gpu_config \<Rightarrow> dev_ptr \<Rightarrow> u64 \<Rightarrow> bool \<Rightarrow> 't runtime \<Rightarrow> ((gpu_result + u32) \<times> 't runtime) option" where
  "gpu_mem_alloc cfg dev sz out_ok rt =
     (if \<not> valid_device dev rt \<or> \<not> out_ok \<or> sz = 0 \<or> 0xffffffff < sz
      then Some (Inl GPU_ERROR_INVALID_ARGUMENT, rt)
      else let n = align_up (ucast sz) in
        if (ucast n :: u64) < sz then Some (Inl GPU_ERROR_OUT_OF_MEMORY, rt)
        else (case free_slot (d_allocs rt) of
          None \<Rightarrow> Some (Inl GPU_ERROR_OUT_OF_MEMORY, rt)
        | Some slot \<Rightarrow> do {
            c \<leftarrow> alloc_candidate cfg (d_allocs rt) n;
            if heap_end cfg \<le> c \<or> heap_end cfg - c < n then Some (Inl GPU_ERROR_OUT_OF_MEMORY, rt)
            else do {
              rt1 \<leftarrow> raw_write cfg c (replicate (unat n) 0)
                       (rt\<lparr>d_allocs := (d_allocs rt)[slot := \<lparr>a_address = c, a_size = n, a_used = True\<rparr>]\<rparr>);
              Some (Inr c, rt1) } }))"

definition block_at :: "u32 \<Rightarrow> allocation \<Rightarrow> bool" where
  "block_at address a \<longleftrightarrow> a_used a \<and> a_address a = address"

definition gpu_mem_free :: "dev_ptr \<Rightarrow> u32 \<Rightarrow> 't runtime \<Rightarrow> gpu_result \<times> 't runtime" where
  "gpu_mem_free dev address rt =
     (if \<not> valid_device dev rt then (GPU_ERROR_INVALID_ARGUMENT, rt)
      else case first_index (block_at address) (d_allocs rt) of
        None \<Rightarrow> (GPU_ERROR_INVALID_ARGUMENT, rt)
      | Some i \<Rightarrow> (GPU_SUCCESS, rt\<lparr>d_allocs := (d_allocs rt)[i := (d_allocs rt ! i)\<lparr>a_used := False\<rparr>]\<rparr>))"

text \<open>The subtraction of the sizes is in 64 bits, that of the addresses in 32.\<close>

definition block_covers :: "u32 \<Rightarrow> u64 \<Rightarrow> allocation \<Rightarrow> bool" where
  "block_covers address sz a \<longleftrightarrow>
     a_used a \<and> a_address a \<le> address \<and> sz \<le> ucast (a_size a) \<and>
     ucast (address - a_address a) \<le> (ucast (a_size a) - sz :: u64)"

definition allocation_contains :: "gpu_config \<Rightarrow> u32 \<Rightarrow> u64 \<Rightarrow> 't runtime \<Rightarrow> bool" where
  "allocation_contains cfg address sz rt \<longleftrightarrow>
     range_inside address sz GPU_HEAP_BASE (heap_end cfg) \<and>
     list_ex (block_covers address sz) (d_allocs rt)"

text \<open>\<open>None\<close> as the source or an unset destination flag is a \<open>NULL\<close> pointer.\<close>

definition gpu_mem_write ::
  "gpu_config \<Rightarrow> dev_ptr \<Rightarrow> u32 \<Rightarrow> u8 list option \<Rightarrow> u64 \<Rightarrow> 't runtime \<Rightarrow> (gpu_result \<times> 't runtime) option" where
  "gpu_mem_write cfg dev address source sz rt =
     (case source of
        None \<Rightarrow> Some (GPU_ERROR_INVALID_ARGUMENT, rt)
      | Some src \<Rightarrow>
        if \<not> valid_device dev rt \<or> \<not> allocation_contains cfg address sz rt
        then Some (GPU_ERROR_INVALID_ARGUMENT, rt)
        else do {
          bytes \<leftarrow> host_bytes src sz;
          rt1 \<leftarrow> raw_write cfg address bytes rt;
          Some (GPU_SUCCESS, rt1) })"

definition gpu_mem_read ::
  "gpu_config \<Rightarrow> dev_ptr \<Rightarrow> bool \<Rightarrow> u32 \<Rightarrow> u64 \<Rightarrow> 't runtime \<Rightarrow> (gpu_result + u8 list) option" where
  "gpu_mem_read cfg dev dest_ok address sz rt =
     (if \<not> valid_device dev rt \<or> \<not> dest_ok \<or> \<not> allocation_contains cfg address sz rt
      then Some (Inl GPU_ERROR_INVALID_ARGUMENT)
      else map_option (\<lambda>off. Inr (copy_out (rt_mem rt) off (unat sz))) (guest_to_host cfg address))"

subsection \<open>Kernels\<close>

definition gpu_kernel_load_memory ::
  "gpu_config \<Rightarrow> bool \<Rightarrow> dev_ptr \<Rightarrow> u8 list option \<Rightarrow> u64 \<Rightarrow> bool \<Rightarrow> 't runtime \<Rightarrow>
     ((gpu_result + nat) \<times> 't runtime) option" where
  "gpu_kernel_load_memory cfg calloc_ok dev img sz out_ok rt =
     (if \<not> valid_device dev rt \<or> img = None \<or> \<not> out_ok \<or> sz = 0 \<or>
         ucast (GPU_KERNEL_END - GPU_KERNEL_BASE) < sz
      then Some (Inl GPU_ERROR_INVALID_ARGUMENT, rt)
      else if \<not> calloc_ok then Some (Inl GPU_ERROR_OUT_OF_MEMORY, rt)
      else do {
        rt1 \<leftarrow> raw_write cfg GPU_KERNEL_BASE (replicate (unat (GPU_KERNEL_END - GPU_KERNEL_BASE)) 0) rt;
        bytes \<leftarrow> host_bytes (the img) sz;
        rt2 \<leftarrow> raw_write cfg GPU_KERNEL_BASE bytes rt1;
        let g = d_generation rt2 + 1;
        let k = d_fresh rt2;
        Some (Inr k, rt2\<lparr>d_generation := g, d_fresh := k + 1,
           d_kernels := (k, \<lparr>kn_device = dev, kn_entry = GPU_KERNEL_BASE, kn_generation = g\<rparr>) # d_kernels rt2\<rparr>) })"

text \<open>
  What the file functions of the standard library return for a path: whether it opens, the
  results of the two \<open>fseek\<close>, of \<open>ftell\<close> and of \<open>fread\<close>, and whether \<open>malloc\<close> succeeds.
\<close>

record host_file =
  hf_seek_end :: bool
  hf_length :: int
  hf_seek_set :: bool
  hf_malloc :: bool
  hf_data :: "u8 list option"

definition gpu_kernel_load_file ::
  "gpu_config \<Rightarrow> bool \<Rightarrow> (string \<Rightarrow> host_file option) \<Rightarrow> dev_ptr \<Rightarrow> string option \<Rightarrow> bool \<Rightarrow> 't runtime \<Rightarrow>
     ((gpu_result + nat) \<times> 't runtime) option" where
  "gpu_kernel_load_file cfg calloc_ok files dev path out_ok rt =
     (if \<not> valid_device dev rt \<or> path = None \<or> \<not> out_ok then Some (Inl GPU_ERROR_INVALID_ARGUMENT, rt)
      else case files (the path) of
        None \<Rightarrow> Some (Inl GPU_ERROR_IO, rt)
      | Some f \<Rightarrow>
        if \<not> hf_seek_end f then Some (Inl GPU_ERROR_IO, rt)
        else if hf_length f \<le> 0 \<or> \<not> hf_seek_set f then Some (Inl GPU_ERROR_IO, rt)
        else if \<not> hf_malloc f then Some (Inl GPU_ERROR_OUT_OF_MEMORY, rt)
        else (case hf_data f of
            None \<Rightarrow> Some (Inl GPU_ERROR_IO, rt)
          | Some img \<Rightarrow>
              gpu_kernel_load_memory cfg calloc_ok dev (Some img) (of_int (hf_length f)) out_ok rt))"

subsection \<open>Launch\<close>

record launch_info =
  li_grid :: dim3
  li_block :: dim3
  li_args_host :: "u8 list option"
  li_args_size :: u64

text \<open>Which host allocations of a launch succeed: the two PMEM copies, the thread contexts.\<close>

record launch_env =
  le_initial :: bool
  le_reference :: bool
  le_contexts :: bool

definition release_launch_args :: "dev_ptr \<Rightarrow> 't runtime \<Rightarrow> 't runtime" where
  "release_launch_args dev rt =
     (if d_args_used rt
      then (snd (gpu_mem_free dev (d_launch_args rt) rt))\<lparr>d_launch_args := 0, d_args_used := False\<rparr>
      else rt)"

text \<open>The zero tests and the chain of \<open>mul_u32\<close>: the block size of an acceptable launch.\<close>

definition launch_block_size :: "gpu_config \<Rightarrow> dim3 \<Rightarrow> dim3 \<Rightarrow> u32 option" where
  "launch_block_size cfg grid block =
     (if dim_x grid = 0 \<or> dim_x block = 0 \<or> dim_y grid = 0 \<or> dim_y block = 0 \<or>
         dim_z grid = 0 \<or> dim_z block = 0 then None
      else do {
        block_xy \<leftarrow> mul_u32 (dim_x block) (dim_y block);
        block_size \<leftarrow> mul_u32 block_xy (dim_z block);
        if of_nat (cfg_warps cfg * cfg_threads cfg) < block_size then None
        else do {
          grid_xy \<leftarrow> mul_u32 (dim_x grid) (dim_y grid);
          grid_size \<leftarrow> mul_u32 grid_xy (dim_z grid);
          total \<leftarrow> mul_u32 grid_size block_size;
          Some block_size } })"

definition launch_dcrs :: "u32 \<Rightarrow> u32 \<Rightarrow> u32 \<Rightarrow> dim3 \<Rightarrow> dim3 \<Rightarrow> u32 \<Rightarrow> (u32 \<times> u32) list" where
  "launch_dcrs entry args_addr args_size grid block block_size =
     [(0x010, entry), (0x011, args_addr), (0x012, args_size),
      (0x013, dim_x block), (0x014, dim_y block), (0x015, dim_z block),
      (0x016, dim_x grid), (0x017, dim_y grid), (0x018, dim_z grid), (0x019, block_size)]"

fun configure_model ::
  "gpu_config \<Rightarrow> 't verilated \<Rightarrow> gpu_model option \<Rightarrow> (u32 \<times> u32) list \<Rightarrow> 't world \<Rightarrow> 't world option" where
  "configure_model cfg v gm [] w = Some w"
| "configure_model cfg v gm ((addr, data) # ds) w =
     do { w' \<leftarrow> gpu_model_dcr_write cfg v gm addr data w; configure_model cfg v gm ds w' }"

definition on_trace :: "(trace \<Rightarrow> trace) \<Rightarrow> 't world \<Rightarrow> 't world" where
  "on_trace f w = w\<lparr>sm_trace := f (sm_trace w)\<rparr>"

text \<open>The reference run of the DiffTest: done, faulted and the world it leaves.\<close>

definition reference_run ::
  "gpu_config \<Rightarrow> 't verilated \<Rightarrow> launch_env \<Rightarrow> gpu_model option \<Rightarrow> 't world \<Rightarrow> (bool \<times> bool \<times> 't world) option" where
  "reference_run cfg v env ref w = do {
     (started, w1) \<leftarrow> gpu_model_launch cfg v (le_contexts env) ref (on_trace (gpu_trace_suppress True) w);
     (finished, w2) \<leftarrow> (if started then gpu_model_wait cfg v GPU_WAIT_LIMIT ref w1 else Some (False, w1));
     Some (finished, gpu_model_fault cfg v ref w2, on_trace (gpu_trace_suppress False) w2) }"

text \<open>From \<open>trace_events = 0\<close> to the end of \<open>gpu_launch\<close>.\<close>

definition launch_start ::
  "gpu_config \<Rightarrow> 't verilated \<Rightarrow> launch_env \<Rightarrow> dev_ptr \<Rightarrow> 't runtime \<Rightarrow> (gpu_result \<times> 't runtime) option" where
  "launch_start cfg v env dev rt0 =
     (let rt = rt0\<lparr>rt_world := on_trace (\<lambda>t. t\<lparr>tr_events := 0\<rparr>) (rt_world rt0)\<rparr> in
      if has_ref cfg then
        if \<not> le_initial env \<or> \<not> le_reference env
        then Some (GPU_ERROR_OUT_OF_MEMORY, release_launch_args dev (rt\<lparr>d_reference := None\<rparr>))
        else do {
          (finished, flt, w1) \<leftarrow> reference_run cfg v env (rt_ref rt) (rt_world rt);
          let rt1 = rt\<lparr>rt_world := w1, d_ref_fault := flt\<rparr>;
          if \<not> finished
          then Some (GPU_ERROR_TIMEOUT, release_launch_args dev (rt1\<lparr>d_reference := None\<rparr>))
          else do {
            let rt2 = set_mem (rt_mem rt) (rt1\<lparr>d_reference := Some (sm_mem w1)\<rparr>);
            (ok, w2) \<leftarrow> gpu_model_launch cfg v (le_contexts env) (rt_exec rt2) (rt_world rt2);
            let rt3 = rt2\<lparr>rt_world := w2\<rparr>;
            if ok then Some (GPU_SUCCESS, rt3\<lparr>d_running := True\<rparr>)
            else Some (GPU_ERROR_BACKEND, release_launch_args dev (rt3\<lparr>d_reference := None\<rparr>)) } }
      else do {
        (ok, w1) \<leftarrow> gpu_model_launch cfg v (le_contexts env) (rt_exec rt) (rt_world rt);
        let rt1 = rt\<lparr>rt_world := w1\<rparr>;
        if ok then Some (GPU_SUCCESS, rt1\<lparr>d_running := True\<rparr>)
        else Some (GPU_ERROR_BACKEND, release_launch_args dev rt1) })"

text \<open>Copying the arguments to the device; the caller returns on an error.\<close>

definition launch_args ::
  "gpu_config \<Rightarrow> dev_ptr \<Rightarrow> launch_info \<Rightarrow> 't runtime \<Rightarrow> (gpu_result option \<times> 't runtime) option" where
  "launch_args cfg dev info rt0 =
     (let rt = rt0\<lparr>d_launch_args := 0, d_args_used := False\<rparr> in
      if li_args_size info = 0 then Some (None, rt)
      else do {
        (res, rt1) \<leftarrow> gpu_mem_alloc cfg dev (li_args_size info) True rt;
        case res of
          Inl err \<Rightarrow> Some (Some err, rt1)
        | Inr addr \<Rightarrow> do {
            bytes \<leftarrow> host_bytes (the (li_args_host info)) (li_args_size info);
            rt2 \<leftarrow> raw_write cfg addr bytes (rt1\<lparr>d_launch_args := addr, d_args_used := True\<rparr>);
            Some (None, rt2) } })"

text \<open>The first test of \<open>gpu_launch\<close>: \<open>None\<close> dereferences a kernel that is not allocated.\<close>

definition launch_kernel_ok ::
  "dev_ptr \<Rightarrow> kernel_ptr \<Rightarrow> launch_info option \<Rightarrow> 't runtime \<Rightarrow> gpu_kernel option option" where
  "launch_kernel_ok dev kptr info rt =
     (if \<not> valid_device dev rt \<or> kptr = None then Some None
      else do {
        k \<leftarrow> map_of (d_kernels rt) (the kptr);
        Some (if kn_device k \<noteq> dev \<or> kn_generation k \<noteq> d_generation rt \<or> d_running rt \<or> info = None \<or>
                 (li_args_size (the info) \<noteq> 0 \<and> li_args_host (the info) = None) \<or>
                 0xffffffff < li_args_size (the info)
              then None else Some k) })"

definition gpu_launch ::
  "gpu_config \<Rightarrow> 't verilated \<Rightarrow> launch_env \<Rightarrow> dev_ptr \<Rightarrow> kernel_ptr \<Rightarrow> launch_info option \<Rightarrow> 't runtime \<Rightarrow>
     (gpu_result \<times> 't runtime) option" where
  "gpu_launch cfg v env dev kptr info_ptr rt = do {
     checked \<leftarrow> launch_kernel_ok dev kptr info_ptr rt;
     case checked of
       None \<Rightarrow> Some (GPU_ERROR_INVALID_ARGUMENT, rt)
     | Some k \<Rightarrow>
       let info = the info_ptr in
       (case launch_block_size cfg (li_grid info) (li_block info) of
          None \<Rightarrow> Some (GPU_ERROR_INVALID_ARGUMENT, rt)
        | Some block_size \<Rightarrow> do {
            (err, rt1) \<leftarrow> launch_args cfg dev info rt;
            case err of
              Some e \<Rightarrow> Some (e, rt1)
            | None \<Rightarrow> do {
                let dcrs = launch_dcrs (kn_entry k) (d_launch_args rt1) (ucast (li_args_size info))
                             (li_grid info) (li_block info) block_size;
                w1 \<leftarrow> configure_model cfg v (rt_exec rt1) dcrs (rt_world rt1);
                w2 \<leftarrow> (if has_ref cfg then configure_model cfg v (rt_ref rt1) dcrs w1 else Some w1);
                launch_start cfg v env dev (rt1\<lparr>rt_world := w2\<rparr>) } }) }"

subsection \<open>Wait\<close>

definition pmem_equal :: "gpu_config \<Rightarrow> pmem \<Rightarrow> pmem \<Rightarrow> bool" where
  "pmem_equal cfg a b \<longleftrightarrow> list_all (\<lambda>i. a (of_nat i) = b (of_nat i)) [0..<unat (cfg_msize cfg)]"

text \<open>Reading \<open>reference\<close> when it is \<open>NULL\<close> is an error.\<close>

definition wait_compare :: "gpu_config \<Rightarrow> 't runtime \<Rightarrow> (gpu_result \<times> 't runtime) option" where
  "wait_compare cfg rt =
     (if d_ref_fault rt then Some (GPU_ERROR_BACKEND, rt\<lparr>d_reference := None\<rparr>)
      else do {
        ref \<leftarrow> d_reference rt;
        Some (if pmem_equal cfg ref (rt_mem rt) then GPU_SUCCESS else GPU_ERROR_BACKEND,
              rt\<lparr>d_reference := None\<rparr>) })"

definition gpu_wait ::
  "gpu_config \<Rightarrow> 't verilated \<Rightarrow> dev_ptr \<Rightarrow> 't runtime \<Rightarrow> (gpu_result \<times> 't runtime) option" where
  "gpu_wait cfg v dev rt =
     (if \<not> valid_device dev rt \<or> \<not> d_running rt then Some (GPU_ERROR_BAD_STATE, rt)
      else do {
        (completed, w1) \<leftarrow> gpu_model_wait cfg v GPU_WAIT_LIMIT (rt_exec rt) (rt_world rt);
        let rt1 = release_launch_args dev (rt\<lparr>rt_world := w1, d_running := False\<rparr>);
        let flt = gpu_model_fault cfg v (rt_exec rt1) (rt_world rt1);
        if \<not> completed
        then Some (if flt then GPU_ERROR_BACKEND else GPU_ERROR_TIMEOUT,
                   if has_ref cfg then rt1\<lparr>d_reference := None\<rparr> else rt1)
        else if flt then Some (GPU_ERROR_BACKEND, rt1)
        else if has_ref cfg then wait_compare cfg rt1
        else Some (GPU_SUCCESS, rt1) })"

end
