(* ===== verification/Heap_Props.thy ===== *)
theory Heap_Props
  imports Runtime
begin

text \<open>
  Properties of device memory: first-fit allocation, release, bounds of host reads and
  writes and their effect on PMEM. A locale states what a client of the allocator relies on
  and derives that live blocks stay apart in any sequence of calls; the runtime model is its
  instance.
\<close>

subsection \<open>Copies between host and device\<close>

lemma copy_in_other: "(\<And>k. k < length bs \<Longrightarrow> x \<noteq> off + of_nat k) \<Longrightarrow> copy_in m off bs x = m x"
proof (induction m off bs rule: copy_in.induct)
  case (1 m off)
  then show ?case by simp
next
  case (2 m off b bs)
  have "x \<noteq> off" using "2.prems"[of 0] by simp
  moreover have "x \<noteq> off + 1 + of_nat k" if "k < length bs" for k
    using "2.prems"[of "Suc k"] that by (simp add: add.assoc)
  ultimately show ?case using "2.IH" by (simp add: fun_upd_def)
qed

lemma copy_in_at:
  "k < length bs \<Longrightarrow> length bs \<le> 2 ^ 32 \<Longrightarrow> copy_in m off bs (off + of_nat k) = bs ! k"
proof (induction m off bs arbitrary: k rule: copy_in.induct)
  case (1 m off)
  then show ?case by simp
next
  case (2 m off b bs)
  show ?case
  proof (cases k)
    case 0
    have "copy_in (m(off := b)) (off + 1) bs off = (m(off := b)) off"
    proof (rule copy_in_other)
      fix j assume "j < length bs"
      then have "off + of_nat 0 \<noteq> off + of_nat (Suc j)"
        using "2.prems"(2) by (subst of_nat_add_eq_self_iff) auto
      then show "off \<noteq> off + 1 + of_nat j" by (simp add: add.assoc)
    qed
    then show ?thesis using 0 by simp
  next
    case (Suc j)
    then have "copy_in (m(off := b)) (off + 1) bs (off + 1 + of_nat j) = bs ! j"
      using "2.prems" by (intro "2.IH") auto
    then show ?thesis using Suc by (simp add: add.assoc)
  qed
qed

lemma copy_out_copy_in:
  "length bs \<le> 2 ^ 32 \<Longrightarrow> copy_out (copy_in m off bs) off (length bs) = bs"
  by (intro nth_equalityI) (simp_all add: copy_out_def copy_in_at)

text \<open>In terms of device addresses, where the span does not wrap.\<close>

lemma copy_in_address:
  assumes "unat a + length bs \<le> 2 ^ 32"
  shows "copy_in m (a - B) bs (x - B) =
    (if unat a \<le> unat x \<and> unat x < unat a + length bs then bs ! (unat x - unat a) else m (x - B))"
proof (cases "unat a \<le> unat x \<and> unat x < unat a + length bs")
  case True
  let ?k = "unat x - unat a"
  have k: "?k < length bs" "?k < 2 ^ 32" using True assms by auto
  have "x = a + of_nat ?k" using True by simp
  then have e: "x - B = (a - B) + of_nat ?k" by (simp add: algebra_simps)
  have "copy_in m (a - B) bs ((a - B) + of_nat ?k) = bs ! ?k"
    using k assms by (intro copy_in_at) simp_all
  then have "copy_in m (a - B) bs (x - B) = bs ! ?k" by (simp only: e)
  then show ?thesis using True by simp
next
  case False
  have "x - B \<noteq> a - B + of_nat k" if "k < length bs" for k
  proof
    assume "x - B = a - B + of_nat k"
    then have "x = a + of_nat k" by (simp add: algebra_simps)
    moreover have "unat (a + of_nat k) = unat a + k"
      using that assms by (subst unat_add_u32) (auto simp: unat_of_nat_u32)
    ultimately show False using False that by simp
  qed
  then have "copy_in m (a - B) bs (x - B) = m (x - B)" by (intro copy_in_other)
  then show ?thesis using False by auto
qed

subsection \<open>Frames\<close>

lemma rt_mem_set_mem [simp]: "rt_mem (set_mem m rt) = m"
  by (simp add: rt_mem_def set_mem_def)

lemma set_mem_fields [simp]:
  "rt_initialized (set_mem m rt) = rt_initialized rt" "d_opened (set_mem m rt) = d_opened rt"
  "d_running (set_mem m rt) = d_running rt" "d_allocs (set_mem m rt) = d_allocs rt"
  "d_generation (set_mem m rt) = d_generation rt" "d_kernels (set_mem m rt) = d_kernels rt"
  "d_launch_args (set_mem m rt) = d_launch_args rt" "d_args_used (set_mem m rt) = d_args_used rt"
  "rt_exec (set_mem m rt) = rt_exec rt" "rt_ref (set_mem m rt) = rt_ref rt"
  "d_reference (set_mem m rt) = d_reference rt" "d_ref_fault (set_mem m rt) = d_ref_fault rt"
  "d_fresh (set_mem m rt) = d_fresh rt"
  by (simp_all add: set_mem_def)

lemma rt_mem_upd [simp]:
  "rt_mem (rt\<lparr>d_allocs := as\<rparr>) = rt_mem rt" "rt_mem (rt\<lparr>d_launch_args := a\<rparr>) = rt_mem rt"
  "rt_mem (rt\<lparr>d_args_used := b\<rparr>) = rt_mem rt" "rt_mem (rt\<lparr>d_running := b\<rparr>) = rt_mem rt"
  by (simp_all add: rt_mem_def)

lemma raw_write_eq:
  "raw_write cfg a bs rt =
     (if in_pmem cfg a then Some (set_mem (copy_in (rt_mem rt) (a - cfg_mbase cfg) bs) rt) else None)"
  by (simp add: raw_write_def guest_to_host_def)

lemma heap_in_pmem:
  assumes "config_ok cfg" and "unat GPU_HEAP_BASE \<le> unat a" and "unat a < unat (heap_end cfg)"
  shows "in_pmem cfg a"
  using assms unat_heap_end(1)[OF assms(1)]
  by (auto simp: in_pmem_iff_range config_ok_def GPU_HEAP_BASE_def)

text \<open>The byte of the device at an address.\<close>

definition dev_byte :: "gpu_config \<Rightarrow> 't runtime \<Rightarrow> u32 \<Rightarrow> u8" where
  "dev_byte cfg rt a = rt_mem rt (a - cfg_mbase cfg)"


subsection \<open>The size that is reserved\<close>

definition reserved :: "u64 \<Rightarrow> nat" where
  "reserved sz = (unat sz + 63) div 64 * 64"

lemma unat_size_arg: "sz \<le> 0xffffffff \<Longrightarrow> unat (ucast sz :: u32) = unat (sz :: u64)"
  by (intro unat_ucast_u32) (simp add: word_le_nat_alt)

lemma aligned_size:
  assumes "sz \<noteq> 0" and "sz \<le> 0xffffffff"
  shows "(ucast (align_up (ucast sz)) :: u64) < sz \<longleftrightarrow> 2 ^ 32 - 64 < unat sz"
    and "unat sz \<le> 2 ^ 32 - 64 \<Longrightarrow> unat (align_up (ucast sz)) = reserved sz"
proof -
  note u = unat_size_arg[OF assms(2)]
  have pos: "0 < unat sz" using assms(1) by (simp add: unat_gt_0)
  show "unat sz \<le> 2 ^ 32 - 64 \<Longrightarrow> unat (align_up (ucast sz)) = reserved sz"
    using unat_align_up[of "ucast sz"] by (simp add: u reserved_def)
  show "(ucast (align_up (ucast sz)) :: u64) < sz \<longleftrightarrow> 2 ^ 32 - 64 < unat sz"
  proof (cases "2 ^ 32 - 64 < unat sz")
    case True
    then have "align_up (ucast sz) = 0" by (intro align_up_wraps) (simp add: u)
    then show ?thesis using True pos by (simp add: word_less_nat_alt)
  next
    case False
    then have "unat sz \<le> unat (align_up (ucast sz))" using align_up_ge[of "ucast sz"] by (simp add: u)
    then show ?thesis using False by (simp add: word_less_nat_alt unat_ucast_u64)
  qed
qed

lemma reserved_bounds:
  assumes "sz \<noteq> 0"
  shows "unat sz \<le> reserved sz" "0 < reserved sz" "64 dvd reserved sz"
proof -
  have "0 < unat sz" using assms by (simp add: unat_gt_0)
  moreover have "(unat sz + 63) div 64 * 64 + (unat sz + 63) mod 64 = unat sz + 63"
    by (rule div_mult_mod_eq)
  moreover have "(unat sz + 63) mod 64 < 64" by simp
  ultimately show "unat sz \<le> reserved sz" "0 < reserved sz" "64 dvd reserved sz"
    unfolding reserved_def by (linarith, linarith, simp)
qed

lemma free_slot_Some: "free_slot as = Some i \<Longrightarrow> i < length as \<and> \<not> a_used (as ! i)"
  by (auto simp: free_slot_def first_index_Some_iff)

lemma free_slot_None: "free_slot as = None \<longleftrightarrow> (\<forall>a \<in> set as. a_used a)"
  by (simp add: free_slot_def first_index_None_iff)

subsection \<open>The heap invariant under the operations\<close>

lemma heap_ok_nth:
  "heap_ok cfg as \<longleftrightarrow> length as = GPU_MAX_ALLOCS \<and>
     (\<forall>i < length as. a_used (as ! i) \<longrightarrow> block_ok cfg (as ! i)) \<and>
     (\<forall>i < length as. \<forall>j < length as. i \<noteq> j \<and> a_used (as ! i) \<and> a_used (as ! j) \<longrightarrow>
        blocks_apart (as ! i) (as ! j))"
  by (simp add: heap_ok_def all_set_conv_all_nth)

lemma heap_ok_insert:
  assumes "heap_ok cfg as" and "i < length as" and "\<not> a_used (as ! i)"
    and "block_ok cfg b" and "span_free as (unat (a_size b)) (unat (a_address b))"
  shows "heap_ok cfg (as[i := b])"
proof -
  have apart: "blocks_apart b (as ! j) \<and> blocks_apart (as ! j) b" if "j < length as" "a_used (as ! j)" for j
    using assms(5) that by (auto simp: span_free_def blocks_apart_def)
  show ?thesis
    using assms(1-4) apart
    by (auto simp: heap_ok_nth nth_list_update_if)
qed

lemma heap_ok_release:
  assumes "heap_ok cfg as"
  shows "heap_ok cfg (as[i := (as ! i)\<lparr>a_used := False\<rparr>])"
proof (cases "i < length as")
  case True
  then show ?thesis using assms
    by (auto simp: heap_ok_nth nth_list_update_if blocks_apart_def block_ok_def)
next
  case False
  then show ?thesis using assms by (simp add: list_update_beyond not_less)
qed


subsection \<open>Allocation\<close>

text \<open>What a successful or failed allocation of \<open>n\<close> reserved bytes does.\<close>

definition alloc_done :: "gpu_config \<Rightarrow> nat \<Rightarrow> u32 \<Rightarrow> 't runtime \<Rightarrow> 't runtime \<Rightarrow> bool" where
  "alloc_done cfg n a rt rt' \<longleftrightarrow>
     span_fits cfg n (unat a) \<and> span_free (d_allocs rt) n (unat a) \<and>
     (\<forall>x. span_fits cfg n x \<and> x < unat a \<longrightarrow> \<not> span_free (d_allocs rt) n x) \<and>
     (\<exists>i. free_slot (d_allocs rt) = Some i \<and>
        d_allocs rt' = (d_allocs rt)[i := \<lparr>a_address = a, a_size = of_nat n, a_used = True\<rparr>]) \<and>
     (\<forall>x. dev_byte cfg rt' x =
        (if unat a \<le> unat x \<and> unat x < unat a + n then 0 else dev_byte cfg rt x))"

definition alloc_impossible :: "gpu_config \<Rightarrow> nat \<Rightarrow> 't runtime \<Rightarrow> bool" where
  "alloc_impossible cfg n rt \<longleftrightarrow> (\<forall>a \<in> set (d_allocs rt). a_used a) \<or>
     (\<forall>x. span_fits cfg n x \<longrightarrow> \<not> span_free (d_allocs rt) n x)"

lemma gpu_mem_alloc_cases:
  assumes cfg: "config_ok cfg" and ok: "heap_ok cfg (d_allocs rt)" and v: "valid_device dev rt"
    and sz: "sz \<noteq> 0" "sz \<le> 0xffffffff"
  shows "gpu_mem_alloc cfg dev sz True rt = Some (Inl GPU_ERROR_OUT_OF_MEMORY, rt) \<and>
      alloc_impossible cfg (reserved sz) rt \<or>
    (\<exists>a rt'. gpu_mem_alloc cfg dev sz True rt = Some (Inr a, rt') \<and>
      alloc_done cfg (reserved sz) a rt rt' \<and>
      rt' = set_mem (rt_mem rt') (rt\<lparr>d_allocs := d_allocs rt'\<rparr>))"
proof -
  let ?n = "align_up (ucast sz) :: u32"
  note H = unat_heap_end[OF cfg] and al = aligned_size[OF sz]
  have sz': "\<not> 0xffffffff < sz" using sz(2) by simp
  show ?thesis
  proof (cases "(ucast ?n :: u64) < sz")
    case True
    then have big: "2 ^ 32 - 64 < unat sz" using al(1) by simp
    then have "2 ^ 32 - 64 < reserved sz" using reserved_bounds(1)[OF sz(1)] by simp
    then have "alloc_impossible cfg (reserved sz) rt"
      using H(2) by (auto simp: alloc_impossible_def span_fits_def)
    then show ?thesis using True v sz(1) sz' by (simp add: gpu_mem_alloc_def Let_def)
  next
    case fits: False
    then have n: "unat ?n = reserved sz" using al by simp
    show ?thesis
    proof (cases "free_slot (d_allocs rt)")
      case None
      then have "alloc_impossible cfg (reserved sz) rt" by (auto simp: alloc_impossible_def free_slot_None)
      then show ?thesis using fits None v sz(1) sz' by (simp add: gpu_mem_alloc_def Let_def)
    next
      case (Some slot)
      obtain c where c: "alloc_candidate cfg (d_allocs rt) ?n = Some c" "64 dvd unat c"
          "unat GPU_HEAP_BASE \<le> unat c"
        and first: "\<forall>x. span_fits cfg (unat ?n) x \<and> x < unat c \<longrightarrow> \<not> span_free (d_allocs rt) (unat ?n) x"
        and free: "span_fits cfg (unat ?n) (unat c) \<and> 0 < unat ?n \<longrightarrow> span_free (d_allocs rt) (unat ?n) (unat c)"
        using alloc_search_first_fit[OF cfg ok, of GPU_HEAP_BASE ?n]
        by (auto simp: alloc_candidate_def span_fits_def GPU_HEAP_BASE_def)
      show ?thesis
      proof (cases "heap_end cfg \<le> c \<or> heap_end cfg - c < ?n")
        case True
        have "\<not> span_fits cfg (reserved sz) x" if "unat c \<le> x" for x
          using True that H(1) n reserved_bounds(2)[OF sz(1)]
          by (auto simp: span_fits_def word_less_nat_alt word_le_nat_alt unat_sub_if')
        then have "alloc_impossible cfg (reserved sz) rt"
          using first n by (auto simp: alloc_impossible_def) (meson not_le)
        then show ?thesis using True fits Some c v sz(1) sz' by (simp add: gpu_mem_alloc_def Let_def)
      next
        case room: False
        then have le: "c < heap_end cfg" "unat c + unat ?n \<le> unat (heap_end cfg)"
          by (auto simp: word_less_nat_alt word_le_nat_alt unat_sub_if')
        then have sf: "span_fits cfg (reserved sz) (unat c)" using c n by (simp add: span_fits_def)
        let ?as = "(d_allocs rt)[slot := \<lparr>a_address = c, a_size = ?n, a_used = True\<rparr>]"
        let ?rt' = "set_mem (copy_in (rt_mem rt) (c - cfg_mbase cfg) (replicate (unat ?n) 0)) (rt\<lparr>d_allocs := ?as\<rparr>)"
        have pm: "in_pmem cfg c" using c(3) le(1) by (intro heap_in_pmem[OF cfg]) (simp_all add: word_less_nat_alt)
        have eq: "gpu_mem_alloc cfg dev sz True rt = Some (Inr c, ?rt')"
          using room fits Some c v sz(1) sz' pm by (simp add: gpu_mem_alloc_def Let_def raw_write_eq)
        have bytes: "dev_byte cfg ?rt' x =
            (if unat c \<le> unat x \<and> unat x < unat c + reserved sz then 0 else dev_byte cfg rt x)" for x
          using le(2) H(2) by (simp add: dev_byte_def copy_in_address n) auto
        have "of_nat (reserved sz) = ?n" using n by (metis of_nat_unat ucast_id)
        then have "alloc_done cfg (reserved sz) c rt ?rt'"
          using sf first free n bytes Some reserved_bounds(2)[OF sz(1)] by (simp add: alloc_done_def)
        then show ?thesis using eq by auto
      qed
    qed
  qed
qed

lemma alloc_done_heap_ok:
  assumes "config_ok cfg" and "heap_ok cfg (d_allocs rt)" and "alloc_done cfg (reserved sz) a rt rt'"
    and "sz \<noteq> 0"
  shows "heap_ok cfg (d_allocs rt')" and "unat (of_nat (reserved sz) :: u32) = reserved sz"
proof -
  have fits: "span_fits cfg (reserved sz) (unat a)" using assms(3) by (simp add: alloc_done_def)
  then have "reserved sz < 2 ^ 32" using unat_heap_end(2)[OF assms(1)] by (simp add: span_fits_def)
  then show u: "unat (of_nat (reserved sz) :: u32) = reserved sz" by (rule unat_of_nat_u32)
  obtain i where i: "free_slot (d_allocs rt) = Some i"
      "d_allocs rt' = (d_allocs rt)[i := \<lparr>a_address = a, a_size = of_nat (reserved sz), a_used = True\<rparr>]"
    using assms(3) by (auto simp: alloc_done_def)
  have "block_ok cfg \<lparr>a_address = a, a_size = of_nat (reserved sz), a_used = True\<rparr>"
    using fits reserved_bounds[OF assms(4)] by (simp add: block_ok_def u span_fits_def)
  then show "heap_ok cfg (d_allocs rt')"
    using assms(2,3) free_slot_Some[OF i(1)]
    unfolding i(2) by (intro heap_ok_insert) (simp_all add: u alloc_done_def)
qed


subsection \<open>Host access to device memory\<close>

text \<open>The span \<open>[address, address + n)\<close> lies in one allocated block.\<close>

definition in_block :: "allocation list \<Rightarrow> u32 \<Rightarrow> nat \<Rightarrow> bool" where
  "in_block as address n \<longleftrightarrow> (\<exists>a \<in> set as. a_used a \<and> unat (a_address a) \<le> unat address \<and>
     unat address + n \<le> unat (a_address a) + unat (a_size a))"

lemma block_covers_iff:
  "block_covers address sz a \<longleftrightarrow> a_used a \<and> unat (a_address a) \<le> unat address \<and>
     unat address + unat sz \<le> unat (a_address a) + unat (a_size a)"
proof (cases "a_address a \<le> address \<and> sz \<le> ucast (a_size a)")
  case True
  then have s: "unat sz \<le> unat (a_size a)" by (simp add: word_le_nat_alt unat_ucast_u64)
  have "unat (ucast (a_size a) - sz :: u64) = unat (a_size a) - unat sz"
    using True by (simp add: unat_sub unat_ucast_u64)
  moreover have "unat (ucast (address - a_address a) :: u64) = unat address - unat (a_address a)"
    using True by (simp add: unat_sub_u32 unat_ucast_u64)
  ultimately show ?thesis using True s by (auto simp: block_covers_def word_le_nat_alt)
next
  case False
  then show ?thesis by (auto simp: block_covers_def word_le_nat_alt unat_ucast_u64)
qed

lemma in_block_bounds:
  assumes "heap_ok cfg as" and "in_block as address n"
  shows "unat GPU_HEAP_BASE \<le> unat address" and "unat address + n \<le> unat (heap_end cfg)"
  using assms by (auto simp: in_block_def heap_ok_def block_ok_def dest!: bspec)

lemma allocation_contains_iff:
  assumes "config_ok cfg" and "heap_ok cfg (d_allocs rt)"
  shows "allocation_contains cfg address sz rt \<longleftrightarrow> sz \<noteq> 0 \<and> in_block (d_allocs rt) address (unat sz)"
proof -
  have "range_inside address sz GPU_HEAP_BASE (heap_end cfg)"
    if "sz \<noteq> 0" and b: "in_block (d_allocs rt) address (unat sz)"
  proof -
    note B = in_block_bounds[OF assms(2) b]
    have pos: "0 < unat sz" using that(1) by (simp add: unat_gt_0)
    have le: "unat sz < 2 ^ 32" using B(2) unat_heap_end(2)[OF assms(1)] by simp
    have "address < heap_end cfg" using B(2) pos by (simp add: word_less_nat_alt)
    then show ?thesis
      using B pos le that(1)
      by (simp add: range_inside_def word_le_nat_alt unat_ucast_u32 unat_sub_u32)
  qed
  then show ?thesis
    by (auto simp: allocation_contains_def in_block_def list_ex_iff block_covers_iff range_inside_def)
qed

lemma in_block_pmem:
  assumes "config_ok cfg" and "heap_ok cfg as" and "in_block as address n" and "0 < n"
  shows "in_pmem cfg address"
  using in_block_bounds[OF assms(2,3)] assms(4) by (intro heap_in_pmem[OF assms(1)]) simp_all

lemma gpu_mem_write_eq:
  assumes cfg: "config_ok cfg" and ok: "heap_ok cfg (d_allocs rt)" and v: "valid_device dev rt"
    and src: "unat sz \<le> length src"
  shows "gpu_mem_write cfg dev address (Some src) sz rt =
     (if sz \<noteq> 0 \<and> in_block (d_allocs rt) address (unat sz)
      then Some (GPU_SUCCESS, set_mem (copy_in (rt_mem rt) (address - cfg_mbase cfg) (take (unat sz) src)) rt)
      else Some (GPU_ERROR_INVALID_ARGUMENT, rt))"
proof -
  have "in_pmem cfg address" if "sz \<noteq> 0" "in_block (d_allocs rt) address (unat sz)"
    using that by (intro in_block_pmem[OF cfg ok that(2)]) (simp add: unat_gt_0)
  then show ?thesis using v src
    by (auto simp: gpu_mem_write_def allocation_contains_iff[OF cfg ok] host_bytes_def raw_write_eq)
qed

lemma gpu_mem_read_eq:
  assumes cfg: "config_ok cfg" and ok: "heap_ok cfg (d_allocs rt)" and v: "valid_device dev rt"
  shows "gpu_mem_read cfg dev True address sz rt =
     (if sz \<noteq> 0 \<and> in_block (d_allocs rt) address (unat sz)
      then Some (Inr (copy_out (rt_mem rt) (address - cfg_mbase cfg) (unat sz)))
      else Some (Inl GPU_ERROR_INVALID_ARGUMENT))"
proof -
  have "in_pmem cfg address" if "sz \<noteq> 0" "in_block (d_allocs rt) address (unat sz)"
    using that by (intro in_block_pmem[OF cfg ok that(2)]) (simp add: unat_gt_0)
  then show ?thesis using v
    by (auto simp: gpu_mem_read_def allocation_contains_iff[OF cfg ok] guest_to_host_def)
qed

lemma valid_device_set_mem [simp]: "valid_device dev (set_mem m rt) = valid_device dev rt"
  by (simp add: valid_device_def)

lemma copy_out_other:
  assumes "unat a + length bs \<le> 2 ^ 32" and "unat b + n \<le> 2 ^ 32"
    and "unat a + length bs \<le> unat b \<or> unat b + n \<le> unat a"
  shows "copy_out (copy_in m (a - B) bs) (b - B) n = copy_out m (b - B) n"
proof -
  have "copy_in m (a - B) bs (b - B + of_nat k) = m (b - B + of_nat k)" if "k < n" for k
  proof -
    have u: "unat (b + of_nat k) = unat b + k"
      using that assms(2) by (subst unat_add_u32) (auto simp: unat_of_nat_u32)
    have "copy_in m (a - B) bs ((b + of_nat k) - B) = m ((b + of_nat k) - B)"
      using assms(3) that by (subst copy_in_address[OF assms(1)]) (auto simp: u)
    then show ?thesis by (simp add: algebra_simps)
  qed
  then show ?thesis by (simp add: copy_out_def)
qed


subsection \<open>The interface of the allocator\<close>

text \<open>
  What a client relies on: \<open>live\<close> are the allocated spans (address, size), \<open>byte\<close> the contents
  of the memory. A new span is apart from the live ones and only its bytes change; a
  release removes one span and changes no byte.
\<close>

definition span_apart :: "nat \<times> nat \<Rightarrow> nat \<times> nat \<Rightarrow> bool" where
  "span_apart p q \<longleftrightarrow> fst p + snd p \<le> fst q \<or> fst q + snd q \<le> fst p"

datatype heap_call = Alloc_Call u64 | Free_Call u32

locale block_heap =
  fixes ok :: "'s \<Rightarrow> bool"
    and live :: "'s \<Rightarrow> (nat \<times> nat) set"
    and byte :: "'s \<Rightarrow> u32 \<Rightarrow> u8"
    and alloc :: "u64 \<Rightarrow> 's \<Rightarrow> (u32 \<times> 's) option"
    and release :: "u32 \<Rightarrow> 's \<Rightarrow> 's option"
  assumes alloc_ok: "ok s \<Longrightarrow> alloc n s = Some (a, s') \<Longrightarrow> ok s'"
    and alloc_live: "ok s \<Longrightarrow> alloc n s = Some (a, s') \<Longrightarrow>
      \<exists>m. unat n \<le> m \<and> live s' = insert (unat a, m) (live s) \<and>
        (\<forall>q \<in> live s. span_apart (unat a, m) q) \<and>
        (\<forall>x. \<not> (unat a \<le> unat x \<and> unat x < unat a + m) \<longrightarrow> byte s' x = byte s x)"
    and release_ok: "ok s \<Longrightarrow> release a s = Some s' \<Longrightarrow> ok s'"
    and release_live: "ok s \<Longrightarrow> release a s = Some s' \<Longrightarrow> live s' = {q \<in> live s. fst q \<noteq> unat a}"
    and release_byte: "ok s \<Longrightarrow> release a s = Some s' \<Longrightarrow> byte s' = byte s"

text \<open>A sequence of calls; one that fails leaves the state.\<close>

fun heap_calls ::
  "(u64 \<Rightarrow> 's \<Rightarrow> (u32 \<times> 's) option) \<Rightarrow> (u32 \<Rightarrow> 's \<Rightarrow> 's option) \<Rightarrow> heap_call list \<Rightarrow> 's \<Rightarrow> 's" where
  "heap_calls al re [] s = s"
| "heap_calls al re (Alloc_Call n # cs) s =
     heap_calls al re cs (case al n s of None \<Rightarrow> s | Some (a, s') \<Rightarrow> s')"
| "heap_calls al re (Free_Call a # cs) s =
     heap_calls al re cs (case re a s of None \<Rightarrow> s | Some s' \<Rightarrow> s')"

context block_heap
begin

definition all_apart :: "'s \<Rightarrow> bool" where
  "all_apart s \<longleftrightarrow> (\<forall>p \<in> live s. \<forall>q \<in> live s. p \<noteq> q \<longrightarrow> span_apart p q)"

lemma span_apart_sym: "span_apart p q \<Longrightarrow> span_apart q p"
  by (auto simp: span_apart_def)

lemma alloc_apart:
  assumes "ok s" and "alloc n s = Some (a, s')" and "all_apart s"
  shows "all_apart s'"
proof -
  obtain m where m: "live s' = insert (unat a, m) (live s)" "\<forall>q \<in> live s. span_apart (unat a, m) q"
    using alloc_live[OF assms(1,2)] by blast
  then show ?thesis
    using assms(3) span_apart_sym unfolding all_apart_def m(1) by blast
qed

lemma release_apart: "ok s \<Longrightarrow> release a s = Some s' \<Longrightarrow> all_apart s \<Longrightarrow> all_apart s'"
  using release_live by (auto simp: all_apart_def)

lemma alloc_keeps_block:
  assumes "ok s" and "alloc n s = Some (a, s')" and "p \<in> live s"
    and "fst p \<le> unat x" and "unat x < fst p + snd p"
  shows "p \<in> live s' \<and> byte s' x = byte s x"
proof -
  obtain m where m: "live s' = insert (unat a, m) (live s)" "span_apart (unat a, m) p"
    and b: "\<not> (unat a \<le> unat x \<and> unat x < unat a + m) \<longrightarrow> byte s' x = byte s x"
    using alloc_live[OF assms(1,2)] assms(3) by blast
  from m(2) have "\<not> (unat a \<le> unat x \<and> unat x < unat a + m)"
    using assms(4,5) by (auto simp: span_apart_def)
  then show ?thesis using m(1) b assms(3) by simp
qed

lemma heap_calls_keep_block:
  "ok s \<Longrightarrow> all_apart s \<Longrightarrow> p \<in> live s \<Longrightarrow> (\<forall>a. Free_Call a \<in> set cs \<longrightarrow> unat a \<noteq> fst p) \<Longrightarrow>
   ok (heap_calls alloc release cs s) \<and> all_apart (heap_calls alloc release cs s) \<and>
   p \<in> live (heap_calls alloc release cs s) \<and>
   (\<forall>x. fst p \<le> unat x \<and> unat x < fst p + snd p \<longrightarrow> byte (heap_calls alloc release cs s) x = byte s x)"
proof (induction cs arbitrary: s)
  case Nil
  then show ?case by simp
next
  case (Cons c cs)
  show ?case
  proof (cases c)
    case (Alloc_Call n)
    show ?thesis
    proof (cases "alloc n s")
      case None
      then show ?thesis using Cons Alloc_Call by simp
    next
      case (Some r)
      then obtain a s' where r: "alloc n s = Some (a, s')" by (cases r) auto
      have "p \<in> live s'" using alloc_live[OF Cons.prems(1) r] Cons.prems(3) by blast
      then show ?thesis
        using Cons.IH[of s'] Cons.prems r Alloc_Call alloc_ok[OF Cons.prems(1) r]
          alloc_apart[OF Cons.prems(1) r] alloc_keeps_block[OF Cons.prems(1) r Cons.prems(3)] by simp
    qed
  next
    case (Free_Call a)
    show ?thesis
    proof (cases "release a s")
      case None
      then show ?thesis using Cons Free_Call by simp
    next
      case (Some s')
      have "p \<in> live s'" using release_live[OF Cons.prems(1) Some] Cons.prems(3,4) Free_Call by auto
      then show ?thesis
        using Cons.IH[of s'] Cons.prems Free_Call Some release_ok[OF Cons.prems(1) Some]
          release_apart[OF Cons.prems(1) Some] release_byte[OF Cons.prems(1) Some] by simp
    qed
  qed
qed

end


subsection \<open>The runtime is such a heap\<close>

definition heap_state_ok :: "gpu_config \<Rightarrow> 't runtime \<Rightarrow> bool" where
  "heap_state_ok cfg rt \<longleftrightarrow> config_ok cfg \<and> heap_ok cfg (d_allocs rt) \<and> valid_device Dev_Singleton rt"

definition live_blocks :: "'t runtime \<Rightarrow> (nat \<times> nat) set" where
  "live_blocks rt = {(unat (a_address a), unat (a_size a)) | a. a \<in> set (d_allocs rt) \<and> a_used a}"

definition rt_alloc :: "gpu_config \<Rightarrow> u64 \<Rightarrow> 't runtime \<Rightarrow> (u32 \<times> 't runtime) option" where
  "rt_alloc cfg n rt = (case gpu_mem_alloc cfg Dev_Singleton n True rt of
     Some (Inr a, rt') \<Rightarrow> Some (a, rt') | _ \<Rightarrow> None)"

definition rt_release :: "u32 \<Rightarrow> 't runtime \<Rightarrow> 't runtime option" where
  "rt_release a rt = (case gpu_mem_free Dev_Singleton a rt of
     (res, rt') \<Rightarrow> if res = GPU_SUCCESS then Some rt' else None)"

lemma rt_alloc_Some:
  assumes "heap_state_ok cfg rt" and "rt_alloc cfg n rt = Some (a, rt')"
  shows "n \<noteq> 0" "alloc_done cfg (reserved n) a rt rt'"
    "rt' = set_mem (rt_mem rt') (rt\<lparr>d_allocs := d_allocs rt'\<rparr>)"
proof -
  have v: "valid_device Dev_Singleton rt" "config_ok cfg" "heap_ok cfg (d_allocs rt)"
    using assms(1) by (simp_all add: heap_state_ok_def)
  have n: "n \<noteq> 0" "n \<le> 0xffffffff"
    using assms(2) v(1) by (auto simp: rt_alloc_def gpu_mem_alloc_def split: if_splits)
  then show "n \<noteq> 0" by simp
  show "alloc_done cfg (reserved n) a rt rt'" "rt' = set_mem (rt_mem rt') (rt\<lparr>d_allocs := d_allocs rt'\<rparr>)"
    using gpu_mem_alloc_cases[OF v(2,3,1) n] assms(2) by (auto simp: rt_alloc_def)
qed

lemma rt_release_Some:
  assumes "heap_state_ok cfg rt" and "rt_release a rt = Some rt'"
  shows "heap_state_ok cfg rt' \<and> live_blocks rt' = {q \<in> live_blocks rt. fst q \<noteq> unat a} \<and> rt_mem rt' = rt_mem rt"
proof -
  have v: "valid_device Dev_Singleton rt" and ok: "heap_ok cfg (d_allocs rt)"
    using assms(1) by (simp_all add: heap_state_ok_def)
  obtain i where i: "first_index (block_at a) (d_allocs rt) = Some i"
    and rt': "rt' = rt\<lparr>d_allocs := (d_allocs rt)[i := (d_allocs rt ! i)\<lparr>a_used := False\<rparr>]\<rparr>"
    using assms(2) v by (auto simp: rt_release_def gpu_mem_free_def split: option.splits if_splits)
  have b: "i < length (d_allocs rt)" "a_used (d_allocs rt ! i)" "a_address (d_allocs rt ! i) = a"
    using i by (auto simp: first_index_Some_iff block_at_def)
  have other: "a_address (d_allocs rt ! j) \<noteq> a"
    if "j < length (d_allocs rt)" "a_used (d_allocs rt ! j)" "j \<noteq> i" for j
  proof
    assume "a_address (d_allocs rt ! j) = a"
    moreover have "blocks_apart (d_allocs rt ! i) (d_allocs rt ! j)"
      using ok b that by (auto simp: heap_ok_def)
    moreover have "0 < unat (a_size (d_allocs rt ! i))" "0 < unat (a_size (d_allocs rt ! j))"
      using ok b that by (auto simp: heap_ok_def block_ok_def)
    ultimately show False using b by (auto simp: blocks_apart_def)
  qed
  have "live_blocks rt' = {q \<in> live_blocks rt. fst q \<noteq> unat a}"
  proof (intro set_eqI iffI)
    fix q assume "q \<in> live_blocks rt'"
    then obtain j where j: "j < length (d_allocs rt)" "a_used (d_allocs rt' ! j)"
        "q = (unat (a_address (d_allocs rt' ! j)), unat (a_size (d_allocs rt' ! j)))"
      by (auto simp: live_blocks_def in_set_conv_nth rt')
    then have "j \<noteq> i" using b(1) by (auto simp: rt')
    then show "q \<in> {q \<in> live_blocks rt. fst q \<noteq> unat a}"
      using j other[of j] by (auto simp: live_blocks_def rt' word_unat_eq_iff)
  next
    fix q assume "q \<in> {q \<in> live_blocks rt. fst q \<noteq> unat a}"
    then obtain j where j: "j < length (d_allocs rt)" "a_used (d_allocs rt ! j)"
        "q = (unat (a_address (d_allocs rt ! j)), unat (a_size (d_allocs rt ! j)))" "fst q \<noteq> unat a"
      by (auto simp: live_blocks_def in_set_conv_nth)
    then have "j \<noteq> i" using b(3) by auto
    then have "d_allocs rt' ! j = d_allocs rt ! j" by (simp add: rt')
    moreover have "j < length (d_allocs rt')" using j(1) by (simp add: rt')
    ultimately show "q \<in> live_blocks rt'"
      using j nth_mem[of j "d_allocs rt'"] unfolding live_blocks_def by auto
  qed
  moreover have "heap_ok cfg (d_allocs rt')" using heap_ok_release[OF ok] by (simp add: rt')
  ultimately show ?thesis using assms(1) by (simp add: heap_state_ok_def valid_device_def rt')
qed

lemma rt_alloc_live:
  assumes "heap_state_ok cfg rt" and "rt_alloc cfg n rt = Some (a, rt')"
  shows "heap_state_ok cfg rt' \<and> unat n \<le> reserved n \<and>
    live_blocks rt' = insert (unat a, reserved n) (live_blocks rt) \<and>
    (\<forall>q \<in> live_blocks rt. span_apart (unat a, reserved n) q) \<and>
    (\<forall>x. \<not> (unat a \<le> unat x \<and> unat x < unat a + reserved n) \<longrightarrow> dev_byte cfg rt' x = dev_byte cfg rt x)"
proof -
  note A = rt_alloc_Some[OF assms]
  have cfg: "config_ok cfg" "heap_ok cfg (d_allocs rt)" using assms(1) by (simp_all add: heap_state_ok_def)
  note H = alloc_done_heap_ok[OF cfg A(2,1)]
  obtain i where i: "free_slot (d_allocs rt) = Some i"
      "d_allocs rt' = (d_allocs rt)[i := \<lparr>a_address = a, a_size = of_nat (reserved n), a_used = True\<rparr>]"
    using A(2) by (auto simp: alloc_done_def)
  note fi = free_slot_Some[OF i(1)]
  have "live_blocks rt' = insert (unat a, reserved n) (live_blocks rt)"
  proof (intro set_eqI iffI)
    fix q assume "q \<in> live_blocks rt'"
    then obtain j where j: "j < length (d_allocs rt)" "a_used (d_allocs rt' ! j)"
        "q = (unat (a_address (d_allocs rt' ! j)), unat (a_size (d_allocs rt' ! j)))"
      by (auto simp: live_blocks_def in_set_conv_nth i(2))
    then show "q \<in> insert (unat a, reserved n) (live_blocks rt)"
      using fi H(2) by (cases "j = i") (auto simp: live_blocks_def i(2))
  next
    fix q assume "q \<in> insert (unat a, reserved n) (live_blocks rt)"
    then consider "q = (unat a, reserved n)" | j where "j < length (d_allocs rt)" "a_used (d_allocs rt ! j)"
        "q = (unat (a_address (d_allocs rt ! j)), unat (a_size (d_allocs rt ! j)))"
      by (auto simp: live_blocks_def in_set_conv_nth)
    then show "q \<in> live_blocks rt'"
    proof cases
      case 1
      then show ?thesis using fi H(2) set_update_memI[of i "d_allocs rt"]
        by (auto simp: live_blocks_def i(2) intro!: exI[of _ "\<lparr>a_address = a, a_size = of_nat (reserved n), a_used = True\<rparr>"])
    next
      case (2 j)
      then have "d_allocs rt' ! j = d_allocs rt ! j" using fi by (cases "j = i") (auto simp: i(2))
      moreover have "j < length (d_allocs rt')" using 2(1) by (simp add: i(2))
      ultimately show ?thesis using 2 nth_mem[of j "d_allocs rt'"] unfolding live_blocks_def by auto
    qed
  qed
  moreover have "\<forall>q \<in> live_blocks rt. span_apart (unat a, reserved n) q"
    using A(2) by (auto simp: alloc_done_def span_free_def live_blocks_def span_apart_def)
  moreover have "heap_state_ok cfg rt'"
    using assms(1) H(1) by (subst A(3)) (simp add: heap_state_ok_def valid_device_def)
  ultimately show ?thesis
    using A(2) reserved_bounds(1)[OF A(1)] by (simp add: alloc_done_def)
qed

interpretation rt_heap: block_heap "heap_state_ok cfg" live_blocks "dev_byte cfg" "rt_alloc cfg" rt_release for cfg
proof unfold_locales
  fix s s' :: "'t runtime" and n a
  assume ok: "heap_state_ok cfg s"
  show "rt_alloc cfg n s = Some (a, s') \<Longrightarrow> heap_state_ok cfg s'" using rt_alloc_live[OF ok] by blast
  show "rt_alloc cfg n s = Some (a, s') \<Longrightarrow> \<exists>m. unat n \<le> m \<and> live_blocks s' = insert (unat a, m) (live_blocks s) \<and>
      (\<forall>q \<in> live_blocks s. span_apart (unat a, m) q) \<and>
      (\<forall>x. \<not> (unat a \<le> unat x \<and> unat x < unat a + m) \<longrightarrow> dev_byte cfg s' x = dev_byte cfg s x)"
    using rt_alloc_live[OF ok] by blast
  show "rt_release a s = Some s' \<Longrightarrow> heap_state_ok cfg s'" using rt_release_Some[OF ok] by blast
  show "rt_release a s = Some s' \<Longrightarrow> live_blocks s' = {q \<in> live_blocks s. fst q \<noteq> unat a}"
    using rt_release_Some[OF ok] by blast
  show "rt_release a s = Some s' \<Longrightarrow> dev_byte cfg s' = dev_byte cfg s"
    using rt_release_Some[OF ok] by (auto simp: dev_byte_def)
qed


subsection \<open>Example state\<close>

text \<open>The default device just after \<open>gpu_device_open\<close>.\<close>

definition example_rt :: "unit runtime" where
  "example_rt = snd (gpu_device_open 0 True
     ((static_runtime default_config ())\<lparr>rt_initialized := True, rt_exec := gpu_model_create default_config GPU_MODEL_SM\<rparr>))"

lemma example_rt_fields:
  "d_allocs example_rt = empty_allocations" "rt_initialized example_rt" "d_opened example_rt"
  "\<not> d_running example_rt" "\<not> d_args_used example_rt" "d_kernels example_rt = []"
  "rt_mem example_rt = (\<lambda>_. 0)"
  by (simp_all add: example_rt_def gpu_device_open_def static_runtime_def static_world_def rt_mem_def)

lemma example_heap_state: "heap_state_ok default_config example_rt"
  by (simp add: heap_state_ok_def default_config_ok example_rt_fields heap_ok_empty valid_device_def)

lemma example_alloc:
  "\<exists>rt. rt_alloc default_config 100 example_rt = Some (0x82000000, rt)"
proof -
  have "map_option fst (rt_alloc default_config 100 example_rt) = Some 0x82000000" by code_simp
  then show ?thesis by auto
qed

subsection \<open>Properties\<close>

text \<open>
  C14. First-fit allocation. For every request of 1 to \<open>UINT32_MAX\<close> bytes on an open device
  whose table is consistent, \<open>gpu_mem_alloc\<close> returns. It either reserves the size rounded up
  to 64 bytes at the lowest 64-byte aligned address of the heap where nothing overlaps, in
  the first free table entry, clears exactly these bytes and keeps the table consistent; or
  it reports that memory is exhausted, changes nothing, and the table is full or no such
  address exists. In particular the search loop terminates and does not wrap around.
\<close>

theorem mem_alloc_first_fit:
  assumes "config_ok cfg" and "heap_ok cfg (d_allocs rt)" and "valid_device dev rt"
    and "sz \<noteq> 0" and "sz \<le> 0xffffffff"
  shows "(gpu_mem_alloc cfg dev sz True rt = Some (Inl GPU_ERROR_OUT_OF_MEMORY, rt) \<and>
      alloc_impossible cfg (reserved sz) rt) \<or>
    (\<exists>a rt'. gpu_mem_alloc cfg dev sz True rt = Some (Inr a, rt') \<and>
      alloc_done cfg (reserved sz) a rt rt' \<and> heap_ok cfg (d_allocs rt'))"
  using gpu_mem_alloc_cases[OF assms] alloc_done_heap_ok(1)[OF assms(1,2) _ assms(4)] by blast

theorem mem_alloc_first_fit_witness:
  "\<exists>a rt'. gpu_mem_alloc default_config Dev_Singleton 100 True example_rt = Some (Inr a, rt') \<and>
     alloc_done default_config 128 a example_rt rt' \<and> heap_ok default_config (d_allocs rt')"
proof -
  have "heap_ok default_config (d_allocs example_rt)" "valid_device Dev_Singleton example_rt"
    using example_heap_state by (simp_all add: heap_state_ok_def)
  moreover have "reserved 100 = 128" by (simp add: reserved_def)
  moreover have "gpu_mem_alloc default_config Dev_Singleton 100 True example_rt
      \<noteq> Some (Inl GPU_ERROR_OUT_OF_MEMORY, example_rt)"
    using example_alloc by (auto simp: rt_alloc_def)
  ultimately show ?thesis
    using mem_alloc_first_fit[of default_config example_rt Dev_Singleton 100] default_config_ok
    by simp
qed

text \<open>
  C15. Data survives. A block that is allocated on an open device stays allocated, apart from
  all other blocks, and keeps its bytes through any sequence of \<open>gpu_mem_alloc\<close> and
  \<open>gpu_mem_free\<close> calls, with any arguments, that does not free its address.
\<close>

theorem allocated_data_survives:
  assumes "heap_state_ok cfg rt" and "p \<in> live_blocks rt"
    and "\<forall>a. Free_Call a \<in> set cs \<longrightarrow> unat a \<noteq> fst p"
  shows "let rt' = heap_calls (rt_alloc cfg) rt_release cs rt in
    p \<in> live_blocks rt' \<and> (\<forall>q \<in> live_blocks rt'. q \<noteq> p \<longrightarrow> span_apart p q) \<and>
    (\<forall>x. fst p \<le> unat x \<and> unat x < fst p + snd p \<longrightarrow> dev_byte cfg rt' x = dev_byte cfg rt x)"
proof -
  have "blocks_apart a b \<or> a = b"
    if "a \<in> set (d_allocs rt)" "b \<in> set (d_allocs rt)" "a_used a" "a_used b" for a b
    using assms(1) that by (auto simp: heap_state_ok_def heap_ok_def in_set_conv_nth) metis
  then have "rt_heap.all_apart rt"
    by (fastforce simp: rt_heap.all_apart_def live_blocks_def span_apart_def blocks_apart_def)
  from rt_heap.heap_calls_keep_block[OF assms(1) this assms(2,3)] assms(2) show ?thesis
    by (auto simp: rt_heap.all_apart_def Let_def)
qed

theorem allocated_data_survives_witness:
  "\<exists>rt. rt_alloc default_config 100 example_rt = Some (0x82000000, rt) \<and>
    (0x82000000, 128) \<in> live_blocks (heap_calls (rt_alloc default_config) rt_release
      [Alloc_Call 8, Free_Call 0, Alloc_Call 5000000000] rt)"
proof -
  obtain rt where rt: "rt_alloc default_config 100 example_rt = Some (0x82000000, rt)"
    using example_alloc by blast
  note L = rt_alloc_live[OF example_heap_state rt]
  have "(0x82000000, 128) \<in> live_blocks rt" using L by (simp add: reserved_def)
  then show ?thesis
    using allocated_data_survives[of default_config rt "(0x82000000, 128)"
        "[Alloc_Call 8, Free_Call 0, Alloc_Call 5000000000]"] L rt
    by (auto simp: Let_def)
qed


text \<open>
  C16. Host access. A write of \<open>sz\<close> bytes succeeds exactly when the span is not empty and
  lies in one allocated block; otherwise nothing changes. After a successful write, reading
  the span gives the bytes written, and reading any span that does not overlap it gives the
  same result as before, whether that read is allowed or not.
\<close>

theorem host_write_read_roundtrip:
  assumes "config_ok cfg" and "heap_ok cfg (d_allocs rt)" and "valid_device dev rt"
    and "unat sz \<le> length src"
  shows "if sz \<noteq> 0 \<and> in_block (d_allocs rt) address (unat sz)
    then \<exists>rt'. gpu_mem_write cfg dev address (Some src) sz rt = Some (GPU_SUCCESS, rt') \<and>
      gpu_mem_read cfg dev True address sz rt' = Some (Inr (take (unat sz) src)) \<and>
      (\<forall>b n. unat address + unat sz \<le> unat b \<or> unat b + unat n \<le> unat address \<longrightarrow>
         gpu_mem_read cfg dev True b n rt' = gpu_mem_read cfg dev True b n rt)
    else gpu_mem_write cfg dev address (Some src) sz rt = Some (GPU_ERROR_INVALID_ARGUMENT, rt)"
proof (cases "sz \<noteq> 0 \<and> in_block (d_allocs rt) address (unat sz)")
  case False
  then show ?thesis by (auto simp: gpu_mem_write_eq[OF assms])
next
  case True
  let ?rt' = "set_mem (copy_in (rt_mem rt) (address - cfg_mbase cfg) (take (unat sz) src)) rt"
  note H = unat_heap_end(2)[OF assms(1)]
  have l: "length (take (unat sz) src) = unat sz" using assms(4) by simp
  have span: "unat b + unat n \<le> 2 ^ 32" if "in_block (d_allocs rt) b (unat n)" for b and n :: u64
    using in_block_bounds(2)[OF assms(2) that] H by simp
  have w: "gpu_mem_write cfg dev address (Some src) sz rt = Some (GPU_SUCCESS, ?rt')"
    using True by (simp add: gpu_mem_write_eq[OF assms])
  have read: "gpu_mem_read cfg dev True b n ?rt' =
      (if n \<noteq> 0 \<and> in_block (d_allocs rt) b (unat n)
       then Some (Inr (copy_out (rt_mem ?rt') (b - cfg_mbase cfg) (unat n)))
       else Some (Inl GPU_ERROR_INVALID_ARGUMENT))" for b n
    using gpu_mem_read_eq[of cfg ?rt' dev b n] assms(1-3) by simp
  have "gpu_mem_read cfg dev True address sz ?rt' = Some (Inr (take (unat sz) src))"
    using True copy_out_copy_in[of "take (unat sz) src" "rt_mem rt" "address - cfg_mbase cfg", unfolded l]
      span[of address sz]
    by (simp add: read)
  moreover have "gpu_mem_read cfg dev True b n ?rt' = gpu_mem_read cfg dev True b n rt"
    if "unat address + unat sz \<le> unat b \<or> unat b + unat n \<le> unat address" for b n
    using that span[of b n] span[of address sz] True l
      copy_out_other[of address "take (unat sz) src" b "unat n"]
    by (simp add: read gpu_mem_read_eq[OF assms(1-3)])
  ultimately show ?thesis using True w by auto
qed

theorem host_write_read_roundtrip_witness:
  "\<exists>rt rt'. rt_alloc default_config 100 example_rt = Some (0x82000000, rt) \<and>
    gpu_mem_write default_config Dev_Singleton 0x82000004 (Some [1, 2, 3]) 2 rt = Some (GPU_SUCCESS, rt') \<and>
    gpu_mem_read default_config Dev_Singleton True 0x82000004 2 rt' = Some (Inr [1, 2])"
proof -
  obtain rt where rt: "rt_alloc default_config 100 example_rt = Some (0x82000000, rt)"
    using example_alloc by blast
  note L = rt_alloc_live[OF example_heap_state rt]
  have "(0x82000000, 128) \<in> live_blocks rt" using L by (simp add: reserved_def)
  then have "in_block (d_allocs rt) 0x82000004 2" by (auto simp: live_blocks_def in_block_def)
  then show ?thesis
    using host_write_read_roundtrip[where cfg = default_config and rt = rt and dev = Dev_Singleton
        and sz = 2 and src = "[1, 2, 3]" and address = "0x82000004"] L rt
    by (auto simp: heap_state_ok_def take_Cons')
qed

end
