(* ===== verification/Iss_Props.thy ===== *)
theory Iss_Props
  imports Iss
begin

text \<open>
  Properties of the functional simulator: what a step of one thread leaves alone, the state
  invariant and its preservation, the round-robin schedule and the geometry of a launch.
\<close>

subsection \<open>Frame of one step\<close>

lemma iss_cores_set_core [frame_simps]: "iss_cores (set_core i c s) = (iss_cores s)[i := c]"
  by (simp add: set_core_def)

lemma set_core_fields [frame_simps]:
  "iss_ncores (set_core i c s) = iss_ncores s" "iss_rr (set_core i c s) = iss_rr s"
  "iss_physical_count (set_core i c s) = iss_physical_count s"
  "iss_faulted (set_core i c s) = iss_faulted s"
  "sm_mem (set_core i c s) = sm_mem s" "sm_trace (set_core i c s) = sm_trace s"
  by (simp_all add: set_core_def)

text \<open>The part of a thread that the launch fixes for good.\<close>

definition core_ident :: "iss_core \<Rightarrow> (u32 \<times> u32 \<times> u32) \<times> (dim3 \<times> dim3 \<times> dim3 \<times> dim3) \<times> u32 \<times> u32" where
  "core_ident c = ((c_hartid c, c_physical_id c, c_args_addr c),
     (c_thread_idx c, c_block_idx c, c_block_dim c, c_grid_dim c), c_warp_id c, c_lane_id c)"

text \<open>
  \<open>only_core i s s'\<close>: \<open>s'\<close> differs from \<open>s\<close> at most in thread \<open>i\<close>, the memory, the trace
  and the fault flag, and thread \<open>i\<close> keeps its identity; a fault halts the thread.
\<close>

definition only_core :: "nat \<Rightarrow> sm \<Rightarrow> sm \<Rightarrow> bool" where
  "only_core i s s' \<longleftrightarrow>
     length (iss_cores s') = length (iss_cores s) \<and>
     (\<forall>j. j \<noteq> i \<longrightarrow> iss_cores s' ! j = iss_cores s ! j) \<and>
     core_ident (iss_cores s' ! i) = core_ident (iss_cores s ! i) \<and>
     iss_ncores s' = iss_ncores s \<and> iss_rr s' = iss_rr s \<and>
     iss_physical_count s' = iss_physical_count s \<and>
     (iss_faulted s' \<longrightarrow> iss_faulted s \<or> c_halted (iss_cores s' ! i)) \<and>
     (iss_faulted s \<longrightarrow> iss_faulted s')"

lemma only_core_refl [simp, intro]: "only_core i s s"
  by (simp add: only_core_def)

lemma only_core_mem_trace [simp, intro]: "only_core i s (s\<lparr>sm_mem := m, sm_trace := t\<rparr>)"
  by (simp add: only_core_def)

lemma only_core_trace [simp]: "only_core i (s\<lparr>sm_trace := t\<rparr>) s' = only_core i s s'"
  by (simp add: only_core_def)

lemma only_core_fault [simp, intro]: "i < length (iss_cores s) \<Longrightarrow> only_core i s (fault_core i s)"
  by (auto simp: only_core_def fault_core_def frame_simps core_ident_def nth_list_update)

lemma only_core_set [intro]:
  "i < length (iss_cores s) \<Longrightarrow> core_ident c = core_ident (iss_cores s ! i) \<Longrightarrow>
   only_core i s (set_core i c s)"
  by (auto simp: only_core_def frame_simps nth_list_update)

lemma only_core_halt [simp]:
  "i < length (iss_cores s) \<Longrightarrow> only_core i s (set_core i ((iss_cores s ! i)\<lparr>c_halted := True\<rparr>) s)"
  by (rule only_core_set) (simp_all add: core_ident_def)

lemma load_mem_frame:
  "load_mem cfg i a f3 s = Some (r, s') \<Longrightarrow> i < length (iss_cores s) \<Longrightarrow> only_core i s s'"
  by (auto simp: load_mem_def split: if_splits bind_splits)

lemma store_mem_frame:
  "store_mem cfg i a v f3 s = Some s' \<Longrightarrow> i < length (iss_cores s) \<Longrightarrow> only_core i s s'"
  by (auto simp: store_mem_def Let_def split: if_splits bind_splits)

definition flow_state :: "flow \<Rightarrow> sm" where
  "flow_state fl = (case fl of Stop s \<Rightarrow> s | Go _ _ s \<Rightarrow> s)"

lemma flow_state_simps [simp]: "flow_state (Stop s) = s" "flow_state (Go r n s) = s"
  by (simp_all add: flow_state_def)

lemma execute_frame:
  assumes "execute cfg i inst s = Some fl" and "i < length (iss_cores s)"
  shows "only_core i s (flow_state fl)"
  using assms
  by (auto simp: execute_def Let_def split: if_splits option.splits bind_splits
           intro: load_mem_frame store_mem_frame)

text \<open>
  After a thread's own fault inside \<open>load_mem\<close> or \<open>store_mem\<close> the step still runs its
  common exit, so the write back keeps the \<open>halted\<close> flag.
\<close>

lemma only_core_writeback:
  assumes "only_core i s s'" and "i < length (iss_cores s)"
  shows "only_core i s (writeback i inst r nxt s')"
  using assms by (auto simp: only_core_def writeback_def Let_def frame_simps core_ident_def nth_list_update)

lemma step_core_frame:
  assumes "step_core cfg i s = Some s'" and i: "i < length (iss_cores s)"
  shows "only_core i s s'"
proof -
  obtain inst where "paddr_read cfg (sm_mem s) (c_pc (iss_cores s ! i)) 4 = Some inst"
    using assms by (auto simp: step_core_def split: bind_splits)
  note fetch = this
  show ?thesis
  proof (cases "bad_registers inst")
    case True
    then show ?thesis using assms fetch by (auto simp: step_core_def)
  next
    case False
    define c where "c = iss_cores s ! i"
    define s1 where "s1 = s\<lparr>sm_trace := gpu_trace_commit (c_hartid c) (c_pc c) inst (sm_trace s)\<rparr>"
    obtain fl where fl: "execute cfg i inst s1 = Some fl" and s': "s' = finish_flow i inst fl"
      using assms fetch False by (auto simp: step_core_def s1_def c_def Let_def split: bind_splits)
    have i1: "i < length (iss_cores s1)" using i by (simp add: s1_def)
    have "only_core i s (flow_state fl)"
      using execute_frame[OF fl i1] by (simp add: s1_def)
    then show ?thesis
      using s' i by (cases fl) (auto simp: finish_flow_def intro: only_core_writeback)
  qed
qed

subsection \<open>The state invariant\<close>

definition iss_inv :: "sm \<Rightarrow> bool" where
  "iss_inv s \<longleftrightarrow>
     length (iss_cores s) = unat (iss_ncores s) \<and>
     (iss_ncores s \<noteq> 0 \<longrightarrow> iss_rr s < iss_ncores s) \<and>
     (\<forall>c \<in> set (iss_cores s). c_gpr c 0 = 0) \<and>
     (iss_faulted s \<longrightarrow> (\<exists>c \<in> set (iss_cores s). c_halted c))"

lemma writeback_x0: "i < length (iss_cores s) \<Longrightarrow> c_gpr (iss_cores (writeback i inst r nxt s) ! i) 0 = 0"
  by (simp add: writeback_def Let_def frame_simps)

lemma load_mem_x0:
  "load_mem cfg i a f3 s = Some (r, s') \<Longrightarrow> i < length (iss_cores s) \<Longrightarrow>
   c_gpr (iss_cores s' ! i) = c_gpr (iss_cores s ! i)"
  by (auto simp: load_mem_def fault_core_def frame_simps split: if_splits bind_splits)

text \<open>Every register file an instruction leaves behind still has a zero \<open>x0\<close>.\<close>

lemma execute_Stop_cases:
  assumes "execute cfg i inst s = Some (Stop s')"
  shows "s' = fault_core i s \<or> s' = set_core i ((iss_cores s ! i)\<lparr>c_halted := True\<rparr>) s"
proof -
  have b: "\<And>x k. x \<bind> (\<lambda>(r, t). Some (Go r (k r t) t)) \<noteq> Some (Stop s')"
      "\<And>x k. x \<bind> (\<lambda>t. Some (Go 0 (k t) t)) \<noteq> Some (Stop s')"
    by (auto split: bind_splits)
  show ?thesis
    using assms unfolding execute_def Let_def
    by (simp add: b split: if_split_asm option.split_asm)
qed

lemma execute_stop_gpr:
  "execute cfg i inst s = Some (Stop s') \<Longrightarrow> i < length (iss_cores s) \<Longrightarrow>
   c_gpr (iss_cores s' ! i) = c_gpr (iss_cores s ! i)"
  by (drule execute_Stop_cases) (auto simp: fault_core_def frame_simps)

lemma step_core_x0:
  assumes "step_core cfg i s = Some s'" and i: "i < length (iss_cores s)"
    and x0: "c_gpr (iss_cores s ! i) 0 = 0"
  shows "c_gpr (iss_cores s' ! i) 0 = 0"
proof -
  obtain inst where fetch: "paddr_read cfg (sm_mem s) (c_pc (iss_cores s ! i)) 4 = Some inst"
    using assms by (auto simp: step_core_def split: bind_splits)
  show ?thesis
  proof (cases "bad_registers inst")
    case True
    then have "s' = fault_core i s" using assms fetch by (simp add: step_core_def)
    then show ?thesis using x0 i by (simp add: fault_core_def frame_simps)
  next
    case False
    define s1 where "s1 = s\<lparr>sm_trace := gpu_trace_commit (c_hartid (iss_cores s ! i))
      (c_pc (iss_cores s ! i)) inst (sm_trace s)\<rparr>"
    obtain fl where fl: "execute cfg i inst s1 = Some fl" and s': "s' = finish_flow i inst fl"
      using assms fetch False by (auto simp: step_core_def s1_def Let_def split: bind_splits)
    have i1: "i < length (iss_cores s1)" using i by (simp add: s1_def)
    have len: "i < length (iss_cores (flow_state fl))"
      using execute_frame[OF fl i1] i1 by (simp add: only_core_def)
    show ?thesis
    proof (cases fl)
      case (Stop t)
      then show ?thesis using execute_stop_gpr[of cfg i inst s1 t] fl s' i1 x0
        by (simp add: finish_flow_def s1_def)
    next
      case (Go r n t)
      then show ?thesis using s' len by (simp add: finish_flow_def writeback_x0)
    qed
  qed
qed

lemma only_core_set_cores:
  assumes "only_core i s s'" and "i < length (iss_cores s)" and "c \<in> set (iss_cores s')"
  shows "c = iss_cores s' ! i \<or> c \<in> set (iss_cores s)"
proof -
  obtain j where j: "j < length (iss_cores s')" "c = iss_cores s' ! j"
    using assms(3) by (auto simp: in_set_conv_nth)
  then show ?thesis using assms(1) by (cases "j = i") (auto simp: only_core_def)
qed

lemma only_core_mem_set: "only_core i s s' \<Longrightarrow> i < length (iss_cores s) \<Longrightarrow> iss_cores s' ! i \<in> set (iss_cores s')"
  by (simp add: only_core_def)

text \<open>A thread that has halted stays so while another one steps.\<close>

lemma iss_inv_step_core:
  assumes inv: "iss_inv s" and step: "step_core cfg i s = Some s'" and i: "i < length (iss_cores s)"
    and live: "\<not> c_halted (iss_cores s ! i)"
  shows "iss_inv s'"
proof -
  have fr: "only_core i s s'" by (rule step_core_frame[OF step i])
  have x0i: "c_gpr (iss_cores s' ! i) 0 = 0"
    using inv i by (intro step_core_x0[OF step i]) (simp add: iss_inv_def)
  have "c_gpr c 0 = 0" if "c \<in> set (iss_cores s')" for c
    using only_core_set_cores[OF fr i that] x0i inv by (auto simp: iss_inv_def)
  moreover have "\<exists>c \<in> set (iss_cores s'). c_halted c" if "iss_faulted s'"
  proof (cases "c_halted (iss_cores s' ! i)")
    case True
    then show ?thesis using only_core_mem_set[OF fr i] by blast
  next
    case False
    then have "iss_faulted s" using that fr by (simp add: only_core_def)
    then obtain c where "c \<in> set (iss_cores s)" "c_halted c" using inv by (auto simp: iss_inv_def)
    then obtain j where j: "j < length (iss_cores s)" "c_halted (iss_cores s ! j)"
      by (auto simp: in_set_conv_nth)
    then have "j \<noteq> i" using live by auto
    then have "iss_cores s' ! j = iss_cores s ! j" "j < length (iss_cores s')"
      using fr j by (simp_all add: only_core_def)
    then show ?thesis using j(2) by (metis nth_mem)
  qed
  ultimately show ?thesis using inv fr by (auto simp: iss_inv_def only_core_def)
qed

subsection \<open>The round-robin scan\<close>

text \<open>
  Specification of the scan: the first live thread in cyclic order from \<open>rr\<close>.
\<close>

definition rr_index :: "sm \<Rightarrow> nat \<Rightarrow> nat" where
  "rr_index s l = (unat (iss_rr s) + l) mod unat (iss_ncores s)"

definition iss_live :: "sm \<Rightarrow> nat \<Rightarrow> bool" where
  "iss_live s i \<longleftrightarrow> \<not> c_halted (iss_cores s ! i)"

definition iss_pick :: "sm \<Rightarrow> nat option" where
  "iss_pick s = find (iss_live s) (map (rr_index s) [0..<unat (iss_ncores s)])"

definition advance_rr :: "sm \<Rightarrow> nat \<Rightarrow> sm" where
  "advance_rr s i = s\<lparr>iss_rr := of_nat ((i + 1) mod unat (iss_ncores s))\<rparr>"

lemma unat_rr_next:
  assumes "iss_rr s < iss_ncores s"
  shows "unat ((iss_rr s + 1) mod iss_ncores s) = Suc (unat (iss_rr s)) mod unat (iss_ncores s)"
  using assms by (simp add: unat_mod_distrib unat_inc_u32)

lemma of_nat_unat_u32 [simp]: "(of_nat (unat w) :: u32) = w"
  by simp

lemma advance_rr_eq:
  assumes "iss_rr s < iss_ncores s"
  shows "s\<lparr>iss_rr := (iss_rr s + 1) mod iss_ncores s\<rparr> = advance_rr s (unat (iss_rr s))"
proof -
  have "(iss_rr s + 1) mod iss_ncores s = of_nat (unat ((iss_rr s + 1) mod iss_ncores s))"
    by (rule of_nat_unat_u32[symmetric])
  then show ?thesis by (simp add: advance_rr_def unat_rr_next[OF assms])
qed

lemma advance_rr_fields [simp]:
  "iss_cores (advance_rr s i) = iss_cores s" "iss_ncores (advance_rr s i) = iss_ncores s"
  "iss_faulted (advance_rr s i) = iss_faulted s" "sm_mem (advance_rr s i) = sm_mem s"
  "sm_trace (advance_rr s i) = sm_trace s" "iss_live (advance_rr s i) = iss_live s"
  "advance_rr (advance_rr s i) j = advance_rr s j"
  by (simp_all add: advance_rr_def iss_live_def fun_eq_iff)

lemma unat_advance_rr:
  assumes "0 < iss_ncores s"
  shows "unat (iss_rr (advance_rr s i)) = (i + 1) mod unat (iss_ncores s)"
proof -
  have "(i + 1) mod unat (iss_ncores s) < unat (iss_ncores s)"
    using assms by (simp add: word_less_nat_alt)
  also have "\<dots> < 2 ^ 32" using unat_less_u32[of "iss_ncores s"] by simp
  finally show ?thesis by (simp add: advance_rr_def unat_of_nat_u32)
qed

lemma advance_rr_less: "0 < iss_ncores s \<Longrightarrow> iss_rr (advance_rr s i) < iss_ncores s"
  by (simp add: word_less_nat_alt unat_advance_rr)

lemma rr_index_advance:
  "iss_rr s < iss_ncores s \<Longrightarrow> rr_index (advance_rr s (unat (iss_rr s))) l = rr_index s (Suc l)"
  by (simp add: rr_index_def unat_advance_rr word_less_nat_alt mod_add_left_eq mod_Suc_eq)

text \<open>The loop of \<open>gpu_iss_step\<close> computes the specification.\<close>

lemma iss_scan_eq:
  assumes "iss_rr s < iss_ncores s"
  shows "iss_scan cfg k s =
    (case find (iss_live s) (map (rr_index s) [0..<k]) of
       None \<Rightarrow> Some (False, s\<lparr>iss_rr := of_nat (rr_index s k)\<rparr>)
     | Some i \<Rightarrow> map_option (Pair True) (step_core cfg i (advance_rr s i)))"
  using assms
proof (induction k arbitrary: s)
  case 0
  then have "rr_index s 0 = unat (iss_rr s)" by (simp add: rr_index_def word_less_nat_alt)
  then show ?case by simp
next
  case (Suc k)
  let ?i = "unat (iss_rr s)"
  have i: "rr_index s 0 = ?i" using Suc.prems by (simp add: rr_index_def word_less_nat_alt)
  have pos: "0 < iss_ncores s" using Suc.prems by (rule le_less_trans[OF word_zero_le])
  have cand: "map (rr_index s) [0..<Suc k] = ?i # map (rr_index (advance_rr s ?i)) [0..<k]"
    using i Suc.prems by (simp add: upt_conv_Cons map_Suc_upt[symmetric] comp_def rr_index_advance del: upt_Suc)
  have adv: "s\<lparr>iss_rr := (iss_rr s + 1) mod iss_ncores s\<rparr> = advance_rr s ?i"
    by (rule advance_rr_eq[OF Suc.prems])
  show ?case
  proof (cases "c_halted (iss_cores s ! ?i)")
    case True
    have last: "(advance_rr s ?i)\<lparr>iss_rr := of_nat (rr_index (advance_rr s ?i) k)\<rparr>
        = s\<lparr>iss_rr := of_nat (rr_index s (Suc k))\<rparr>"
      by (simp only: rr_index_advance[OF Suc.prems]) (simp add: advance_rr_def)
    have "iss_scan cfg (Suc k) s = iss_scan cfg k (advance_rr s ?i)"
      using True adv by (simp add: Let_def)
    then show ?thesis
      using True Suc.IH[of "advance_rr s ?i"] advance_rr_less[OF pos, of ?i] last
      by (simp only: cand) (simp add: iss_live_def split: option.split)
  next
    case False
    then show ?thesis
      using adv by (simp only: cand) (simp add: iss_live_def Let_def bind_map_option map_conv_bind_option comp_def)
  qed
qed

lemma rr_index_less: "0 < iss_ncores s \<Longrightarrow> rr_index s l < unat (iss_ncores s)"
  by (simp add: rr_index_def word_less_nat_alt)

lemma rr_index_hits:
  assumes "iss_rr s < iss_ncores s" and "i < unat (iss_ncores s)"
  shows "\<exists>l < unat (iss_ncores s). rr_index s l = i"
proof -
  let ?n = "unat (iss_ncores s)" and ?r = "unat (iss_rr s)"
  have r: "?r < ?n" using assms(1) by (simp add: word_less_nat_alt)
  let ?l = "(i + ?n - ?r) mod ?n"
  have "(?r + ?l) mod ?n = (?r + (i + ?n - ?r)) mod ?n" by (simp add: mod_add_right_eq)
  also have "\<dots> = i" using r assms(2) by simp
  finally show ?thesis using r by (intro exI[of _ ?l]) (simp add: rr_index_def)
qed

lemma iss_invD:
  assumes "iss_inv s"
  shows "length (iss_cores s) = unat (iss_ncores s)"
    and "iss_ncores s \<noteq> 0 \<Longrightarrow> iss_rr s < iss_ncores s"
    and "c \<in> set (iss_cores s) \<Longrightarrow> c_gpr c 0 = 0"
  using assms by (auto simp: iss_inv_def)

lemma iss_done_iff:
  "iss_inv s \<Longrightarrow> gpu_iss_done s \<longleftrightarrow>
     iss_faulted s \<or> iss_ncores s \<noteq> 0 \<and> (\<forall>i < unat (iss_ncores s). \<not> iss_live s i)"
  by (auto simp: gpu_iss_done_def iss_live_def list_all_iff)

lemma iss_pick_Some_iff:
  "iss_pick s = Some i \<longleftrightarrow> (\<exists>l < unat (iss_ncores s). rr_index s l = i \<and> iss_live s i \<and>
     (\<forall>k < l. \<not> iss_live s (rr_index s k)))"
  by (auto simp: iss_pick_def find_Some_iff)

lemma iss_pick_exists:
  assumes inv: "iss_inv s" and live: "iss_live s j" "j < unat (iss_ncores s)"
  shows "\<exists>i. iss_pick s = Some i"
proof -
  have "iss_ncores s \<noteq> 0" using live(2) by auto
  then obtain l where "l < unat (iss_ncores s)" "rr_index s l = j"
    using rr_index_hits[OF iss_invD(2)[OF inv]] live(2) by blast
  then have "iss_pick s \<noteq> None" using live(1) by (auto simp: iss_pick_def find_None_iff)
  then show ?thesis by blast
qed

lemma iss_pick_less: "iss_pick s = Some i \<Longrightarrow> i < unat (iss_ncores s)"
  by (auto simp: iss_pick_Some_iff word_less_nat_alt rr_index_def)

lemma gpu_iss_step_pick:
  assumes inv: "iss_inv s" and "\<not> gpu_iss_done s" and "iss_ncores s \<noteq> 0"
  obtains i where "iss_pick s = Some i" and "i < unat (iss_ncores s)" and "iss_live s i"
    and "gpu_iss_step cfg s = map_option (Pair True) (step_core cfg i (advance_rr s i))"
proof -
  obtain j where "j < unat (iss_ncores s)" "iss_live s j"
    using assms by (auto simp: iss_done_iff)
  then obtain i where i: "iss_pick s = Some i" using iss_pick_exists[OF inv] by blast
  have "gpu_iss_step cfg s = map_option (Pair True) (step_core cfg i (advance_rr s i))"
    using i assms(2) iss_scan_eq[OF iss_invD(2)[OF inv assms(3)], of cfg]
    by (simp add: gpu_iss_step_def iss_pick_def)
  moreover have "iss_live s i" using i by (auto simp: iss_pick_Some_iff)
  ultimately show ?thesis using that i iss_pick_less[OF i] by blast
qed

lemma iss_inv_advance: "iss_inv s \<Longrightarrow> iss_ncores s \<noteq> 0 \<Longrightarrow> iss_inv (advance_rr s i)"
  using advance_rr_less[of s i] by (simp add: iss_inv_def word_neq_0_conv)

lemma gpu_iss_step_inv:
  assumes inv: "iss_inv s" and step: "gpu_iss_step cfg s = Some (b, s')"
  shows "iss_inv s'"
proof (cases "gpu_iss_done s \<or> iss_ncores s = 0")
  case True
  then show ?thesis using step inv by (auto simp: gpu_iss_step_def split: if_splits)
next
  case False
  then obtain i where i: "i < unat (iss_ncores s)" "iss_live s i"
    and eq: "gpu_iss_step cfg s = map_option (Pair True) (step_core cfg i (advance_rr s i))"
    using gpu_iss_step_pick[OF inv] by metis
  then have "step_core cfg i (advance_rr s i) = Some s'"
    using step by (cases "step_core cfg i (advance_rr s i)") auto
  then show ?thesis
    using iss_inv_step_core[OF iss_inv_advance[OF inv]] i False iss_invD(1)[OF inv]
    by (auto simp: iss_live_def)
qed

subsection \<open>No thread is starved\<close>

fun iss_run :: "gpu_config \<Rightarrow> nat \<Rightarrow> sm \<Rightarrow> sm option" where
  "iss_run cfg 0 s = Some s"
| "iss_run cfg (Suc k) s =
     do { (ok, t) \<leftarrow> gpu_iss_step cfg s; if ok then iss_run cfg k t else None }"

text \<open>How many positions the scan passes before it comes to thread \<open>i\<close>.\<close>

definition rr_dist :: "sm \<Rightarrow> nat \<Rightarrow> nat" where
  "rr_dist s i = (i + unat (iss_ncores s) - unat (iss_rr s)) mod unat (iss_ncores s)"

lemma rr_dist_unique:
  assumes "iss_rr s < iss_ncores s" and "x < unat (iss_ncores s)" and "rr_index s x = i"
  shows "rr_dist s i = x"
proof -
  let ?n = "unat (iss_ncores s)" and ?r = "unat (iss_rr s)"
  have r: "?r < ?n" using assms(1) by (simp add: word_less_nat_alt)
  show ?thesis
  proof (cases "?r + x < ?n")
    case True
    then show ?thesis using assms(3) r by (auto simp: rr_dist_def rr_index_def)
  next
    case False
    then have "(?r + x) mod ?n = ?r + x - ?n"
      using r assms(2) by (simp add: mod_if)
    then have "i + ?n - ?r = x" using assms(3) False r by (simp add: rr_index_def)
    then show ?thesis using assms(2) by (simp add: rr_dist_def)
  qed
qed

lemma rr_dist_less: "0 < iss_ncores s \<Longrightarrow> rr_dist s i < unat (iss_ncores s)"
  by (simp add: rr_dist_def word_less_nat_alt)

lemma rr_index_dist:
  assumes "iss_rr s < iss_ncores s" and "i < unat (iss_ncores s)"
  shows "rr_index s (rr_dist s i) = i"
  using rr_index_hits[OF assms] rr_dist_unique[OF assms(1)] by metis

lemma rr_dist_decreases:
  assumes rr: "iss_rr s < iss_ncores s" and i: "i < unat (iss_ncores s)" "iss_live s i"
    and pick: "iss_pick s = Some j" "j \<noteq> i"
  shows "rr_dist (advance_rr s j) i < rr_dist s i"
proof -
  let ?n = "unat (iss_ncores s)" and ?d = "rr_dist s i"
  have pos: "0 < iss_ncores s" using rr by (rule le_less_trans[OF word_zero_le])
  obtain l where l: "rr_index s l = j" "\<forall>k < l. \<not> iss_live s (rr_index s k)" "l < ?n"
    using pick by (auto simp: iss_pick_Some_iff)
  have d: "rr_index s ?d = i" using rr_index_dist[OF rr i(1)] .
  have dn: "?d < ?n" using rr_dist_less[OF pos] .
  have ld: "l < ?d" using d l i(2) pick(2) by (metis linorder_neqE_nat)
  have "rr_index (advance_rr s j) (?d - Suc l) = (Suc j mod ?n + (?d - Suc l)) mod ?n"
    by (simp add: rr_index_def unat_advance_rr[OF pos])
  also have "\<dots> = (Suc j + (?d - Suc l)) mod ?n" by (rule mod_add_left_eq)
  also have "(Suc j + (?d - Suc l)) mod ?n = (j + (?d - l)) mod ?n" using ld by (simp add: Suc_diff_Suc)
  also have "\<dots> = (unat (iss_rr s) + l + (?d - l)) mod ?n"
    unfolding l(1)[symmetric] rr_index_def by (simp add: mod_add_left_eq)
  also have "\<dots> = i" using d ld by (simp add: rr_index_def)
  finally have hit: "rr_index (advance_rr s j) (?d - Suc l) = i" .
  have "iss_rr (advance_rr s j) < iss_ncores (advance_rr s j)" using advance_rr_less[OF pos] by simp
  then have "rr_dist (advance_rr s j) i = ?d - Suc l"
    by (rule rr_dist_unique) (use dn hit in simp_all)
  then show ?thesis using ld by simp
qed

lemma iss_run_reaches:
  assumes "iss_inv s" and "iss_live s i" and "i < unat (iss_ncores s)"
    and "iss_run cfg k s = Some s'" and "rr_dist s i < k"
  shows "\<exists>m < k. \<exists>t. iss_run cfg m s = Some t \<and> iss_pick t = Some i"
  using assms
proof (induction k arbitrary: s)
  case 0
  then show ?case by simp
next
  case (Suc k)
  from Suc.prems(4) obtain t where st: "gpu_iss_step cfg s = Some (True, t)"
    and rest: "iss_run cfg k t = Some s'"
    by (auto split: bind_splits if_splits)
  have nz: "iss_ncores s \<noteq> 0" using Suc.prems(3) by auto
  have nd: "\<not> gpu_iss_done s" using st by (auto simp: gpu_iss_step_def)
  obtain j where pick: "iss_pick s = Some j" and j: "j < unat (iss_ncores s)" "iss_live s j"
    and eq: "gpu_iss_step cfg s = map_option (Pair True) (step_core cfg j (advance_rr s j))"
    by (rule gpu_iss_step_pick[OF Suc.prems(1) nd nz])
  show ?case
  proof (cases "j = i")
    case True
    then show ?thesis using pick by (intro exI[of _ 0]) auto
  next
    case False
    have step: "step_core cfg j (advance_rr s j) = Some t"
      using st eq by (cases "step_core cfg j (advance_rr s j)") auto
    have fr: "only_core j (advance_rr s j) t"
      using step_core_frame[OF step] j iss_invD(1)[OF Suc.prems(1)] by simp
    have live: "iss_live t i" and n: "iss_ncores t = iss_ncores s" and rr: "iss_rr t = iss_rr (advance_rr s j)"
      using fr False Suc.prems(2) by (simp_all add: only_core_def iss_live_def)
    have "rr_dist t i = rr_dist (advance_rr s j) i" by (simp add: rr_dist_def n rr)
    also have "\<dots> < rr_dist s i"
      using Suc.prems(2,3) pick False by (intro rr_dist_decreases iss_invD(2)[OF Suc.prems(1) nz])
    finally have "rr_dist t i < k" using Suc.prems(5) by simp
    then obtain m u where "m < k" "iss_run cfg m t = Some u" "iss_pick u = Some i"
      using Suc.IH[of t] gpu_iss_step_inv[OF Suc.prems(1) st] live Suc.prems(3) n rest by auto
    then show ?thesis using st by (intro exI[of _ "Suc m"]) auto
  qed
qed

subsection \<open>Geometry of a launch\<close>

lemma unat_dim_product64:
  assumes "dim_volume d < 2 ^ 64"
  shows "unat (dim_product64 d) = dim_volume d"
proof -
  have "dim_product64 d = of_nat (dim_volume d)"
    by (simp add: dim_product64_def dim_volume_def unsigned_ucast_eq)
  then show ?thesis using assms by (simp add: unat_of_nat take_bit_nat_eq_self)
qed

lemma dim_volume_split:
  "dim_volume d = (unat (dim_x d) * unat (dim_y d)) * unat (dim_z d)"
  by (simp add: dim_volume_def)

text \<open>The coordinates computed from a linear position by division and remainder.\<close>

definition dim_unlinear :: "dim3 \<Rightarrow> u32 \<Rightarrow> dim3" where
  "dim_unlinear d p = \<lparr>dim_x = p mod dim_x d, dim_y = (p div dim_x d) mod dim_y d,
                       dim_z = p div (dim_x d * dim_y d)\<rparr>"

lemma dim_unlinear_correct:
  assumes "dim_volume d < 2 ^ 32" and "unat p < dim_volume d"
  shows "dim_inside d (dim_unlinear d p)" and "dim_linear d (dim_unlinear d p) = unat p"
proof -
  let ?x = "unat (dim_x d)" and ?y = "unat (dim_y d)" and ?z = "unat (dim_z d)"
  have "0 < dim_volume d" using assms(2) by linarith
  then have pos: "0 < ?x" "0 < ?y" "0 < ?z" by (auto simp: dim_volume_def)
  have "?x * ?y * 1 \<le> dim_volume d"
    unfolding dim_volume_def using pos by (intro mult_le_mono) auto
  then have "?x * ?y < 2 ^ 32" using assms(1) by linarith
  then have xy: "unat (dim_x d * dim_y d) = ?x * ?y" by (rule unat_mult_u32)
  have z: "unat p div (?x * ?y) < ?z"
    using assms(2) by (intro mixed_radix_bound) (simp add: dim_volume_def)
  show "dim_linear d (dim_unlinear d p) = unat p"
    by (simp add: dim_linear_def dim_unlinear_def xy unat_mod_distrib unat_div_distrib mixed_radix_recombine)
  show "dim_inside d (dim_unlinear d p)"
    using pos z by (simp add: dim_inside_def dim_unlinear_def word_less_nat_alt xy unat_mod_distrib unat_div_distrib)
qed

lemma launch_core_coords:
  "c_thread_idx (launch_core cfg s i) =
     dim_unlinear (iss_block s) (i mod ucast (dim_product64 (iss_block s)))"
  "c_block_idx (launch_core cfg s i) =
     dim_unlinear (iss_grid s) (i div ucast (dim_product64 (iss_block s)))"
  by (simp_all add: launch_core_def dim_unlinear_def Let_def)

lemma gpu_iss_launch_True:
  assumes "gpu_iss_launch cfg ok s = Some (True, s')"
    and "dim_volume (iss_grid s) * dim_volume (iss_block s) < 2 ^ 32"
  shows "unat (iss_ncores s') = dim_volume (iss_grid s) * dim_volume (iss_block s)"
    and "iss_cores s' = map (\<lambda>i. launch_core cfg (iss.truncate s) (of_nat i)) [0..<unat (iss_ncores s')]"
    and "0 < dim_volume (iss_grid s)" and "0 < dim_volume (iss_block s)"
    and "dim_volume (iss_block s) = unat (iss_block_size s)"
    and "iss_rr s' = 0" and "iss_faulted s' = iss_faulted s"
proof -
  let ?G = "dim_volume (iss_grid s)" and ?B = "dim_volume (iss_block s)"
  let ?t = "dim_product64 (iss_grid s) * dim_product64 (iss_block s)"
  have shape: "?t \<noteq> 0" "dim_product64 (iss_block s) = ucast (iss_block_size s)"
      "s' = s\<lparr>iss_ncores := ucast ?t, iss_rr := 0,
             iss_cores := map (\<lambda>i. launch_core cfg (iss.truncate s) (of_nat i)) [0..<unat (ucast ?t :: u32)]\<rparr>"
    using assms(1) by (auto simp: gpu_iss_launch_def Let_def split: if_splits)
  have eq: "?t = of_nat (?G * ?B)"
    by (simp add: dim_product64_def dim_volume_def unsigned_ucast_eq)
  have t: "unat ?t = ?G * ?B"
    unfolding eq using assms(2) by (intro unat_of_nat_u64) simp
  then have "0 < ?G * ?B" using shape(1) by (metis bot_nat_0.not_eq_extremum unat_eq_0)
  then show g: "0 < ?G" and b: "0 < ?B" by auto
  have "1 * ?B \<le> ?G * ?B" using g by (intro mult_le_mono) auto
  then have "?B < 2 ^ 32" using assms(2) by linarith
  then have "?B < 2 ^ 64" by simp
  then show "?B = unat (iss_block_size s)"
    using shape(2) unat_dim_product64[of "iss_block s"] by (simp add: unat_ucast_u64)
  show "unat (iss_ncores s') = ?G * ?B"
    using t assms(2) unat_ucast_u32[of ?t] by (simp add: shape(3))
  show "iss_cores s' = map (\<lambda>i. launch_core cfg (iss.truncate s) (of_nat i)) [0..<unat (iss_ncores s')]"
    and "iss_rr s' = 0" and "iss_faulted s' = iss_faulted s" by (simp_all add: shape(3))
qed

text \<open>
  A launch within 32 bits gives every thread its identity: the coordinates lie inside the
  block and the grid, the hart id is \<open>linear_block_id * block_size + linear_thread_id\<close>, the
  warp and lane recombine to the linear thread id, and the context starts clean at the
  startup pc.
\<close>

definition core_geometry :: "gpu_config \<Rightarrow> iss \<Rightarrow> nat \<Rightarrow> iss_core \<Rightarrow> bool" where
  "core_geometry cfg s i c \<longleftrightarrow>
     unat (c_hartid c) = i \<and> c_block_dim c = iss_block s \<and> c_grid_dim c = iss_grid s \<and>
     dim_inside (iss_block s) (c_thread_idx c) \<and> dim_inside (iss_grid s) (c_block_idx c) \<and>
     i = dim_linear (iss_grid s) (c_block_idx c) * dim_volume (iss_block s)
         + dim_linear (iss_block s) (c_thread_idx c) \<and>
     unat (c_warp_id c) * cfg_threads cfg + unat (c_lane_id c)
       = dim_linear (iss_block s) (c_thread_idx c) \<and>
     unat (c_lane_id c) < cfg_threads cfg \<and>
     c_pc c = iss_startup_pc s \<and> c_args_addr c = iss_args_addr s \<and>
     c_gpr c = (\<lambda>_. 0) \<and> \<not> c_halted c"

lemma launch_core_geometry:
  assumes cfg: "config_ok cfg" and bs: "dim_volume (iss_block s) = unat (iss_block_size s)"
    and vol: "dim_volume (iss_grid s) * dim_volume (iss_block s) < 2 ^ 32"
    and i: "i < dim_volume (iss_grid s) * dim_volume (iss_block s)"
  shows "core_geometry cfg s i (launch_core cfg s (of_nat i))"
proof -
  let ?G = "dim_volume (iss_grid s)" and ?B = "dim_volume (iss_block s)" and ?T = "cfg_threads cfg"
  let ?c = "launch_core cfg s (of_nat i)"
  let ?bs = "ucast (dim_product64 (iss_block s)) :: u32"
  have "0 < ?G * ?B" using i by linarith
  then have pos: "0 < ?G" "0 < ?B" by auto
  have "1 * ?B \<le> ?G * ?B" "?G * 1 \<le> ?G * ?B" using pos by (intro mult_le_mono; auto)+
  then have lt: "?B < 2 ^ 32" "?G < 2 ^ 32" using vol by linarith+
  have bs': "unat ?bs = ?B" using lt unat_dim_product64[of "iss_block s"] by (simp add: unat_ucast_u32)
  have ui: "unat (of_nat i :: u32) = i" using i vol by (intro unat_of_nat_u32) linarith
  have T: "1 \<le> ?T" "?T \<le> 64" using config_threads_bounds[OF cfg] by auto
  have uT: "unat (of_nat ?T :: u32) = ?T" using T by (simp add: unat_of_nat_u32)
  have loc: "unat (of_nat i mod ?bs) = i mod ?B" and blk: "unat (of_nat i div ?bs) = i div ?B"
    by (simp_all add: unat_mod_distrib unat_div_distrib bs' ui)
  have g: "i div ?B < ?G" using i by (simp add: less_mult_imp_div_less)
  note th = dim_unlinear_correct[OF lt(1), of "of_nat i mod ?bs", unfolded loc]
  note bk = dim_unlinear_correct[OF lt(2), of "of_nat i div ?bs", unfolded blk, OF g]
  have wl: "unat (c_warp_id ?c) = (i mod ?B) div ?T" "unat (c_lane_id ?c) = (i mod ?B) mod ?T"
    by (simp_all add: launch_core_def Let_def unat_mod_distrib unat_div_distrib uT bs' ui)
  have id: "c_hartid ?c = of_nat i" "c_block_dim ?c = iss_block s" "c_grid_dim ?c = iss_grid s"
    "c_pc ?c = iss_startup_pc s" "c_args_addr ?c = iss_args_addr s" "c_gpr ?c = (\<lambda>_. 0)" "\<not> c_halted ?c"
    by (simp_all add: launch_core_def Let_def)
  show ?thesis
    using th bk pos T g ui by (simp add: core_geometry_def id wl launch_core_coords)
qed

text \<open>The physical slot of a thread when its block fits a core, as \<open>gpu_launch\<close> requires.\<close>

lemma launch_core_physical:
  assumes cfg: "config_ok cfg" and phys: "unat (iss_physical_count s) = num_harts cfg"
    and bs: "dim_volume (iss_block s) = unat (iss_block_size s)"
    and fits: "dim_volume (iss_block s) \<le> lanes_per_core cfg" and pos: "0 < dim_volume (iss_block s)"
    and i: "i < 2 ^ 32"
  shows "unat (c_physical_id (launch_core cfg s (of_nat i))) =
    ((i div dim_volume (iss_block s)) mod cfg_cores cfg) * lanes_per_core cfg + i mod dim_volume (iss_block s)"
proof -
  let ?B = "dim_volume (iss_block s)" and ?L = "lanes_per_core cfg" and ?C = "cfg_cores cfg"
  let ?bs = "ucast (dim_product64 (iss_block s)) :: u32"
  have L: "1 \<le> ?L" "?L \<le> 4096" using lanes_per_core_bounds[OF cfg] by auto
  have C: "1 \<le> ?C" "?C \<le> 64" using cfg by (auto simp: config_ok_def)
  have uL: "unat (of_nat ?L :: u32) = ?L" using L by (simp add: unat_of_nat_u32)
  have "?B < 2 ^ 32" "?B < 2 ^ 64" using fits L by simp_all
  then have bs': "unat ?bs = ?B" using unat_dim_product64[of "iss_block s"] by (simp add: unat_ucast_u32)
  have ui: "unat (of_nat i :: u32) = i" using i by (rule unat_of_nat_u32)
  have "num_harts cfg = ?C * ?L" by (simp add: num_harts_def lanes_per_core_def mult.assoc)
  then have hw: "unat (iss_physical_count s div of_nat ?L) = ?C"
    using L by (simp add: unat_div_distrib uL phys)
  let ?b = "(of_nat i div ?bs) mod (iss_physical_count s div of_nat ?L)"
  have b: "unat ?b = (i div ?B) mod ?C"
    using hw by (simp add: unat_mod_distrib unat_div_distrib bs' ui)
  have "(i div ?B) mod ?C < ?C" using C by simp
  then have "((i div ?B) mod ?C) * ?L \<le> 64 * 4096" using C L by (intro mult_le_mono) linarith+
  then have m: "unat (?b * of_nat ?L) = ((i div ?B) mod ?C) * ?L"
    by (subst unat_mult_u32) (simp_all add: b uL)
  have l: "unat (of_nat i mod ?bs) = i mod ?B" by (simp add: unat_mod_distrib bs' ui)
  have "i mod ?B < 4096" using pos fits L by (meson le_trans less_le_trans mod_less_divisor)
  then have "unat (?b * of_nat ?L + of_nat i mod ?bs) = ((i div ?B) mod ?C) * ?L + i mod ?B"
    using \<open>_ \<le> 64 * 4096\<close> by (subst unat_add_u32) (simp_all add: m l)
  then show ?thesis by (simp add: launch_core_def Let_def)
qed

lemma gpu_iss_launch_inv:
  assumes "gpu_iss_launch cfg ok s = Some (True, s')" and "\<not> iss_faulted s"
    and "dim_volume (iss_grid s) * dim_volume (iss_block s) < 2 ^ 32"
  shows "iss_inv s'"
proof -
  note L = gpu_iss_launch_True[OF assms(1,3)]
  have "0 < unat (iss_ncores s')" using L(1,3,4) by simp
  then show ?thesis using L(2,6,7) assms(2)
    by (auto simp: iss_inv_def launch_core_def Let_def word_less_nat_alt)
qed

subsection \<open>Example state\<close>

text \<open>
  Two blocks of three threads on the default device; every fetch reads \<open>ebreak\<close> at the
  kernel base.
\<close>

definition ebreak_mem :: pmem where
  "ebreak_mem = store_le (\<lambda>_. 0) 0x1000000 4 0x00100073"

definition example_sm :: sm where
  "example_sm = iss.extend (iss_static_init\<lparr>iss_physical_count := 32,
      iss_grid := \<lparr>dim_x = 2, dim_y = 1, dim_z = 1\<rparr>,
      iss_block := \<lparr>dim_x = 3, dim_y = 1, dim_z = 1\<rparr>, iss_block_size := 3\<rparr>)
     (sm.fields ebreak_mem trace_init)"

lemma example_sm_fields:
  "iss_physical_count example_sm = 32" "iss_faulted example_sm = False"
  "iss_grid example_sm = \<lparr>dim_x = 2, dim_y = 1, dim_z = 1\<rparr>"
  "iss_block example_sm = \<lparr>dim_x = 3, dim_y = 1, dim_z = 1\<rparr>" "iss_block_size example_sm = 3"
  "sm_mem example_sm = ebreak_mem" "sm_trace example_sm = trace_init"
  by (simp_all add: example_sm_def iss.defs sm.defs iss_static_init_def)

lemma example_volume: "dim_volume (iss_grid example_sm) * dim_volume (iss_block example_sm) = 6"
  by (simp add: dim_volume_def example_sm_fields)

lemma example_volume_lt: "dim_volume (iss_grid example_sm) * dim_volume (iss_block example_sm) < 2 ^ 32"
  by (simp add: example_volume)

definition example_launched :: sm where
  "example_launched = snd (the (gpu_iss_launch default_config True example_sm))"

lemma example_launch: "gpu_iss_launch default_config True example_sm = Some (True, example_launched)"
  by (simp add: example_launched_def gpu_iss_launch_def Let_def example_sm_fields dim_product64_def
      default_config_def lanes_per_core_def)

lemma example_launched_inv: "iss_inv example_launched"
  using gpu_iss_launch_inv[OF example_launch _ example_volume_lt] by (simp add: example_sm_fields)

lemma example_ncores: "unat (iss_ncores example_launched) = 6"
  using gpu_iss_launch_True(1)[OF example_launch example_volume_lt] by (simp add: example_volume)

lemma example_live: "i < 6 \<Longrightarrow> iss_live example_launched i"
  using gpu_iss_launch_True(2)[OF example_launch example_volume_lt]
  by (simp add: example_ncores iss_live_def launch_core_def Let_def)

lemma example_not_done: "\<not> gpu_iss_done example_launched"
  using example_live[of 0] gpu_iss_launch_True(7)[OF example_launch example_volume_lt]
  by (auto simp: iss_done_iff[OF example_launched_inv] example_ncores example_sm_fields)

subsection \<open>Properties\<close>

text \<open>
  C1. Launch geometry. A successful \<open>gpu_iss_launch\<close> whose thread count fits 32 bits creates
  one context per thread of the grid; context \<open>i\<close> has coordinates inside the block and the
  grid, hart id \<open>i = linear_block_id * block_size + linear_thread_id\<close>, warp and lane numbers
  that recombine to the linear thread id, the startup pc, the argument address, zero
  registers, and is not halted.
\<close>

theorem iss_launch_geometry:
  assumes "config_ok cfg" and "gpu_iss_launch cfg ok s = Some (True, s')"
    and "dim_volume (iss_grid s) * dim_volume (iss_block s) < 2 ^ 32"
  shows "length (iss_cores s') = dim_volume (iss_grid s) * dim_volume (iss_block s)
    \<and> (\<forall>i < length (iss_cores s'). core_geometry cfg (iss.truncate s) i (iss_cores s' ! i))"
proof -
  note L = gpu_iss_launch_True[OF assms(2,3)]
  have "core_geometry cfg (iss.truncate s) i (launch_core cfg (iss.truncate s) (of_nat i))"
    if "i < dim_volume (iss_grid s) * dim_volume (iss_block s)" for i
    using assms(1,3) L(5) that by (intro launch_core_geometry) (simp_all add: iss.defs)
  then show ?thesis using L(1,2) by simp
qed

theorem iss_launch_geometry_witness:
  "length (iss_cores example_launched) = 6 \<and>
   core_geometry default_config (iss.truncate example_sm) 5 (iss_cores example_launched ! 5)"
  using iss_launch_geometry[OF default_config_ok example_launch] by (simp add: example_volume)

text \<open>
  C2. Round-robin scheduling. In a consistent state that is not done, \<open>gpu_iss_step\<close>
  executes exactly one instruction of the first live thread in cyclic order from \<open>rr\<close>, and
  leaves \<open>rr\<close> just behind that thread; it aborts exactly when that instruction does.
\<close>

theorem iss_step_round_robin:
  assumes "iss_inv s" and "\<not> gpu_iss_done s" and "iss_ncores s \<noteq> 0"
  shows "\<exists>l < unat (iss_ncores s). let i = rr_index s l in
    iss_live s i \<and> (\<forall>k < l. \<not> iss_live s (rr_index s k)) \<and>
    gpu_iss_step cfg s = map_option (Pair True) (step_core cfg i (advance_rr s i))"
  using gpu_iss_step_pick[OF assms, of cfg] by (metis iss_pick_Some_iff)

theorem iss_step_round_robin_witness:
  "\<exists>l < unat (iss_ncores example_launched). let i = rr_index example_launched l in
    iss_live example_launched i \<and> (\<forall>k < l. \<not> iss_live example_launched (rr_index example_launched k)) \<and>
    gpu_iss_step default_config example_launched =
      map_option (Pair True) (step_core default_config i (advance_rr example_launched i))"
  using example_ncores by (intro iss_step_round_robin example_launched_inv example_not_done) auto

text \<open>
  C3. Fairness. In a run of at least \<open>ncores\<close> scheduler steps, every thread that is live at
  the start is chosen: the scan cannot pass a live thread over, whatever the others execute.
\<close>

theorem iss_no_starvation:
  assumes "iss_inv s" and "i < unat (iss_ncores s)" and "iss_live s i"
    and "iss_run cfg k s = Some s'" and "unat (iss_ncores s) \<le> k"
  shows "\<exists>m < k. \<exists>t. iss_run cfg m s = Some t \<and> iss_pick t = Some i"
proof -
  have "rr_dist s i < unat (iss_ncores s)"
    using assms(2) by (intro rr_dist_less) (auto simp: word_less_nat_alt)
  then have "rr_dist s i < k" using assms(5) by simp
  then show ?thesis using assms(1-4) by (intro iss_run_reaches)
qed

lemma example_run: "\<exists>t. iss_run default_config 6 example_launched = Some t"
proof -
  have "iss_run default_config 6 example_launched \<noteq> None" by code_simp
  then show ?thesis by blast
qed

theorem iss_no_starvation_witness:
  "\<exists>m < 6. \<exists>t. iss_run default_config m example_launched = Some t \<and> iss_pick t = Some 4"
proof -
  obtain t where "iss_run default_config 6 example_launched = Some t" using example_run by blast
  from iss_no_starvation[OF example_launched_inv _ _ this, of 4] show ?thesis
    using example_live[of 4] by (simp add: example_ncores)
qed

text \<open>
  C4. Isolation and invariant. One scheduler step of a consistent state gives a consistent
  state (array length, \<open>rr\<close> in range, \<open>x0 = 0\<close> in every thread, a fault leaves a halted
  thread), and changes the registers, pc or halt flag of at most one thread, never its
  coordinates or ids; halted threads stay halted and the fault flag is sticky.
\<close>

theorem iss_step_isolation:
  assumes inv: "iss_inv s" and step: "gpu_iss_step cfg s = Some (b, s')"
  shows "iss_inv s' \<and> length (iss_cores s') = length (iss_cores s) \<and>
    (\<forall>i < length (iss_cores s). core_ident (iss_cores s' ! i) = core_ident (iss_cores s ! i)
       \<and> (c_halted (iss_cores s ! i) \<longrightarrow> iss_cores s' ! i = iss_cores s ! i)) \<and>
    (\<exists>i. \<forall>j. j \<noteq> i \<longrightarrow> iss_cores s' ! j = iss_cores s ! j) \<and> (iss_faulted s \<longrightarrow> iss_faulted s')"
proof (cases "gpu_iss_done s \<or> iss_ncores s = 0")
  case True
  then have "iss_cores s' = iss_cores s" "iss_faulted s' = iss_faulted s"
    using step by (auto simp: gpu_iss_step_def split: if_splits)
  then show ?thesis using gpu_iss_step_inv[OF inv step] by simp
next
  case False
  then obtain i where i: "i < unat (iss_ncores s)" "iss_live s i"
    and eq: "gpu_iss_step cfg s = map_option (Pair True) (step_core cfg i (advance_rr s i))"
    using gpu_iss_step_pick[OF inv] by metis
  then have st: "step_core cfg i (advance_rr s i) = Some s'"
    using step by (cases "step_core cfg i (advance_rr s i)") auto
  have fr: "only_core i (advance_rr s i) s'"
    using step_core_frame[OF st] i iss_invD(1)[OF inv] by simp
  have "core_ident (iss_cores s' ! j) = core_ident (iss_cores s ! j)
       \<and> (c_halted (iss_cores s ! j) \<longrightarrow> iss_cores s' ! j = iss_cores s ! j)" for j
    using fr i(2) by (cases "j = i") (auto simp: only_core_def iss_live_def)
  moreover have "\<exists>i. \<forall>j. j \<noteq> i \<longrightarrow> iss_cores s' ! j = iss_cores s ! j"
    using fr by (auto simp: only_core_def intro!: exI[of _ i])
  ultimately show ?thesis
    using gpu_iss_step_inv[OF inv step] fr by (simp add: only_core_def)
qed

lemma example_first_step: "\<exists>b t. gpu_iss_step default_config example_launched = Some (b, t)"
proof -
  have "gpu_iss_step default_config example_launched \<noteq> None" by code_simp
  then show ?thesis by auto
qed

theorem iss_step_isolation_witness:
  "\<exists>b t. gpu_iss_step default_config example_launched = Some (b, t) \<and> iss_inv t \<and>
     length (iss_cores t) = length (iss_cores example_launched)"
proof -
  obtain b t where st: "gpu_iss_step default_config example_launched = Some (b, t)"
    using example_first_step by blast
  then show ?thesis using iss_step_isolation[OF example_launched_inv st] by blast
qed

end
