(* ===== verification/Runtime_Props.thy ===== *)
theory Runtime_Props
  imports Heap_Props Iss_Props
begin

text \<open>
  Properties of the runtime across launches: the geometry guard, what a launch on the
  functional simulator starts, the life of the argument block, stale kernel handles, and
  the invariant of every state that the public calls can reach.
\<close>

subsection \<open>The geometry guard\<close>

lemma mul_u32_eq:
  "mul_u32 a b = (if unat a * unat b < 2 ^ 32 then Some (of_nat (unat a * unat b)) else None)"
proof (cases "mul_u32 a b")
  case None
  then have "\<not> unat a * unat b < 2 ^ 32"
    using mul_u32_Some[of a b "of_nat (unat a * unat b)"] by (auto simp: unat_of_nat_u32 simp del: of_nat_mult)
  then show ?thesis using None by simp
next
  case (Some p)
  then have "unat a * unat b < 2 ^ 32" "unat p = unat a * unat b" by (auto simp: mul_u32_Some)
  then show ?thesis using Some by (metis of_nat_unat ucast_id)
qed

lemma bind_mul_u32:
  "(mul_u32 a b \<bind> f) = Some r \<longleftrightarrow> unat a * unat b < 2 ^ 32 \<and> f (of_nat (unat a * unat b)) = Some r"
  by (simp add: mul_u32_eq)

lemma below_chain: "a \<le> b \<Longrightarrow> b \<le> l \<Longrightarrow> l \<le> 4096 \<Longrightarrow> b < 2 ^ 32 \<and> a < (2 :: nat) ^ 32"
  by simp

lemma below_chain': "a \<le> b \<Longrightarrow> b \<le> t \<Longrightarrow> t < 2 ^ 32 \<Longrightarrow> b < 2 ^ 32 \<and> a < (2 :: nat) ^ 32"
  by simp

lemma launch_block_size_iff:
  assumes "config_ok cfg"
  shows "launch_block_size cfg grid block = Some bs \<longleftrightarrow>
    dim_positive grid \<and> dim_positive block \<and> unat bs = dim_volume block \<and>
    dim_volume block \<le> lanes_per_core cfg \<and> dim_volume grid * dim_volume block < 2 ^ 32"
proof (cases "dim_positive grid \<and> dim_positive block")
  case False
  then show ?thesis by (auto simp: launch_block_size_def dim_positive_def)
next
  case True
  let ?bx = "unat (dim_x block)" and ?by = "unat (dim_y block)" and ?bz = "unat (dim_z block)"
  let ?gx = "unat (dim_x grid)" and ?gy = "unat (dim_y grid)" and ?gz = "unat (dim_z grid)"
  have pos: "0 < ?bx" "0 < ?by" "0 < ?bz" "0 < ?gx" "0 < ?gy" "0 < ?gz"
    using True by (auto simp: dim_positive_def unat_gt_0)
  have L: "lanes_per_core cfg \<le> 4096" using lanes_per_core_bounds[OF assms] by simp
  then have lim: "unat (of_nat (cfg_warps cfg * cfg_threads cfg) :: u32) = lanes_per_core cfg"
    unfolding lanes_per_core_def by (intro unat_of_nat_u32) simp
  have b1: "?bx * ?by \<le> ?bx * ?by * ?bz" and g1: "?gx * ?gy \<le> ?gx * ?gy * ?gz"
    and g2: "?gx * ?gy * ?gz \<le> ?gx * ?gy * ?gz * (?bx * ?by * ?bz)"
    using pos by simp_all
  have "launch_block_size cfg grid block = Some bs \<longleftrightarrow>
      ?bx * ?by < 2 ^ 32 \<and> ?bx * ?by * ?bz < 2 ^ 32 \<and> bs = of_nat (?bx * ?by * ?bz) \<and>
      ?bx * ?by * ?bz \<le> lanes_per_core cfg \<and> ?gx * ?gy < 2 ^ 32 \<and> ?gx * ?gy * ?gz < 2 ^ 32 \<and>
      ?gx * ?gy * ?gz * (?bx * ?by * ?bz) < 2 ^ 32"
    using True
    by (auto simp: launch_block_size_def dim_positive_def bind_mul_u32 unat_of_nat_u32 word_less_nat_alt lim
        simp del: of_nat_mult)
  also have "\<dots> \<longleftrightarrow> unat bs = ?bx * ?by * ?bz \<and> ?bx * ?by * ?bz \<le> lanes_per_core cfg \<and>
      ?gx * ?gy * ?gz * (?bx * ?by * ?bz) < 2 ^ 32"
  proof -
    have "bs = of_nat (?bx * ?by * ?bz) \<longleftrightarrow> unat bs = ?bx * ?by * ?bz" if "?bx * ?by * ?bz < 2 ^ 32"
      using that unat_of_nat_u32[OF that] by (metis of_nat_unat ucast_id)
    moreover have "?bx * ?by * ?bz \<le> lanes_per_core cfg \<Longrightarrow> ?bx * ?by * ?bz < 2 ^ 32 \<and> ?bx * ?by < 2 ^ 32"
      by (rule below_chain[OF b1 _ L])
    moreover have "?gx * ?gy * ?gz * (?bx * ?by * ?bz) < 2 ^ 32 \<Longrightarrow> ?gx * ?gy * ?gz < 2 ^ 32 \<and> ?gx * ?gy < 2 ^ 32"
      by (rule below_chain'[OF g1 g2])
    ultimately show ?thesis by blast
  qed
  finally show ?thesis using True by (simp add: dim_volume_def)
qed


subsection \<open>The argument block\<close>

lemma release_args_fields [simp]:
  "d_args_used (release_launch_args dev rt) \<longleftrightarrow> False" "d_running (release_launch_args dev rt) = d_running rt"
  "rt_world (release_launch_args dev rt) = rt_world rt" "d_opened (release_launch_args dev rt) = d_opened rt"
  "rt_initialized (release_launch_args dev rt) = rt_initialized rt" "rt_exec (release_launch_args dev rt) = rt_exec rt"
  "rt_ref (release_launch_args dev rt) = rt_ref rt" "d_kernels (release_launch_args dev rt) = d_kernels rt"
  "d_generation (release_launch_args dev rt) = d_generation rt" "d_fresh (release_launch_args dev rt) = d_fresh rt"
  "d_reference (release_launch_args dev rt) = d_reference rt" "d_ref_fault (release_launch_args dev rt) = d_ref_fault rt"
  by (simp_all add: release_launch_args_def gpu_mem_free_def split: option.split)

lemma release_args_allocs:
  "valid_device dev rt \<Longrightarrow> d_allocs (release_launch_args dev rt) =
     (if d_args_used rt then
        (case first_index (block_at (d_launch_args rt)) (d_allocs rt) of
           None \<Rightarrow> d_allocs rt | Some i \<Rightarrow> (d_allocs rt)[i := (d_allocs rt ! i)\<lparr>a_used := False\<rparr>])
      else d_allocs rt)"
  by (simp add: release_launch_args_def gpu_mem_free_def split: option.split)

text \<open>Blocks of a table, without the rest of the runtime.\<close>

definition table_blocks :: "allocation list \<Rightarrow> (nat \<times> nat) set" where
  "table_blocks as = {(unat (a_address a), unat (a_size a)) | a. a \<in> set as \<and> a_used a}"

lemma live_blocks_table: "live_blocks rt = table_blocks (d_allocs rt)"
  by (simp add: live_blocks_def table_blocks_def)

text \<open>Releasing the arguments removes their block and keeps the table consistent.\<close>

lemma release_args_live:
  assumes "heap_state_ok cfg rt" and "d_args_used rt"
  shows "live_blocks (release_launch_args Dev_Singleton rt) =
      {q \<in> live_blocks rt. fst q \<noteq> unat (d_launch_args rt)} \<and>
    heap_ok cfg (d_allocs (release_launch_args Dev_Singleton rt))"
proof -
  have v: "valid_device Dev_Singleton rt" using assms(1) by (simp add: heap_state_ok_def)
  show ?thesis
  proof (cases "rt_release (d_launch_args rt) rt")
    case None
    then have n: "first_index (block_at (d_launch_args rt)) (d_allocs rt) = None"
      using v by (auto simp: rt_release_def gpu_mem_free_def split: option.splits)
    then have "d_allocs (release_launch_args Dev_Singleton rt) = d_allocs rt"
      by (simp add: release_args_allocs[OF v])
    moreover have "a_address a \<noteq> d_launch_args rt" if "a \<in> set (d_allocs rt)" "a_used a" for a
      using n that by (auto simp: first_index_None_iff block_at_def)
    ultimately show ?thesis using assms(1)
      by (auto simp: live_blocks_def heap_state_ok_def word_unat_eq_iff)
  next
    case (Some rt')
    then have "d_allocs (release_launch_args Dev_Singleton rt) = d_allocs rt'"
      using v assms(2) by (auto simp: release_args_allocs[OF v] rt_release_def gpu_mem_free_def
          split: option.splits if_splits)
    then show ?thesis using rt_release_Some[OF assms(1) Some] by (simp add: live_blocks_table heap_state_ok_def)
  qed
qed

text \<open>The state after the arguments are on the device.\<close>

definition args_placed :: "gpu_config \<Rightarrow> launch_info \<Rightarrow> 't runtime \<Rightarrow> 't runtime \<Rightarrow> bool" where
  "args_placed cfg info rt rt' \<longleftrightarrow> (\<exists>a n src.
     li_args_host info = Some src \<and> d_launch_args rt' = a \<and> d_args_used rt' \<and>
     unat (li_args_size info) \<le> n \<and> live_blocks rt' = insert (unat a, n) (live_blocks rt) \<and>
     (\<forall>q \<in> live_blocks rt. span_apart (unat a, n) q) \<and> 0 < n \<and>
     (\<forall>k < unat (li_args_size info). dev_byte cfg rt' (a + of_nat k) = src ! k) \<and>
     (\<forall>x. \<not> (unat a \<le> unat x \<and> unat x < unat a + n) \<longrightarrow> dev_byte cfg rt' x = dev_byte cfg rt x))"

definition same_device :: "'t runtime \<Rightarrow> 't runtime \<Rightarrow> bool" where
  "same_device a b \<longleftrightarrow> rt_initialized b = rt_initialized a \<and> rt_exec b = rt_exec a \<and> rt_ref b = rt_ref a \<and>
     d_opened b = d_opened a \<and> d_generation b = d_generation a \<and> d_kernels b = d_kernels a \<and>
     d_fresh b = d_fresh a"

definition same_world_but_mem :: "'t runtime \<Rightarrow> 't runtime \<Rightarrow> bool" where
  "same_world_but_mem a b \<longleftrightarrow> (\<exists>m. rt_world b = (rt_world a)\<lparr>sm_mem := m\<rparr>)"

lemma launch_args_placed:
  assumes ok: "heap_state_ok cfg rt" and sz: "li_args_size info \<le> 0xffffffff" "li_args_size info \<noteq> 0"
    and host: "li_args_host info = Some src"
    and l: "launch_args cfg Dev_Singleton info rt = Some (err, rt')"
  shows "heap_state_ok cfg rt' \<and> same_device rt rt' \<and> d_running rt' = d_running rt \<and>
    same_world_but_mem rt rt' \<and>
    (if err = None then args_placed cfg info rt rt'
     else live_blocks rt' = live_blocks rt \<and> \<not> d_args_used rt' \<and> err \<noteq> Some GPU_SUCCESS)"
proof -
  let ?rt0 = "rt\<lparr>d_launch_args := 0, d_args_used := False\<rparr>" and ?n = "reserved (li_args_size info)"
  have ok0: "heap_state_ok cfg ?rt0" using ok by (simp add: heap_state_ok_def valid_device_def)
  have cfg: "config_ok cfg" "heap_ok cfg (d_allocs ?rt0)" "valid_device Dev_Singleton ?rt0"
    using ok0 by (simp_all add: heap_state_ok_def)
  have live0: "live_blocks ?rt0 = live_blocks rt" by (simp add: live_blocks_def)
  have byte0: "dev_byte cfg ?rt0 = dev_byte cfg rt" by (simp add: dev_byte_def fun_eq_iff rt_mem_def)
  from gpu_mem_alloc_cases[OF cfg sz(2,1)]
  consider (fail) "gpu_mem_alloc cfg Dev_Singleton (li_args_size info) True ?rt0
      = Some (Inl GPU_ERROR_OUT_OF_MEMORY, ?rt0)"
    | (some) a rt1 where "gpu_mem_alloc cfg Dev_Singleton (li_args_size info) True ?rt0 = Some (Inr a, rt1)"
      "rt1 = set_mem (rt_mem rt1) (?rt0\<lparr>d_allocs := d_allocs rt1\<rparr>)" by blast
  then show ?thesis
  proof cases
    case fail
    then have "err = Some GPU_ERROR_OUT_OF_MEMORY" "rt' = ?rt0"
      using l sz(2) by (auto simp: launch_args_def Let_def)
    then show ?thesis using ok0 live0
      by (auto simp: same_device_def same_world_but_mem_def intro!: exI[of _ "sm_mem (rt_world rt)"])
  next
    case some
    have ra: "rt_alloc cfg (li_args_size info) ?rt0 = Some (a, rt1)"
      using some(1) by (simp add: rt_alloc_def)
    note A = rt_alloc_live[OF ok0 ra]
    let ?s = "unat (li_args_size info)" and ?rt2 = "rt1\<lparr>d_launch_args := a, d_args_used := True\<rparr>"
    have len: "?s \<le> length src" and pm: "in_pmem cfg a"
      and e: "err = None" "rt' = set_mem (copy_in (rt_mem ?rt2) (a - cfg_mbase cfg) (take ?s src)) ?rt2"
      using l sz(2) some(1) host
      by (auto simp: launch_args_def Let_def host_bytes_def raw_write_eq split: if_splits)
    have fit: "unat a + ?n \<le> unat (heap_end cfg)"
      using rt_alloc_Some(2)[OF ok0 ra] by (simp add: alloc_done_def span_fits_def)
    then have span: "unat a + ?s \<le> 2 ^ 32" "unat a + ?n \<le> 2 ^ 32 - 64"
      using A unat_heap_end(2)[OF cfg(1)] by auto
    have lt: "length (take ?s src) = ?s" using len by simp
    have m2: "rt_mem ?rt2 = rt_mem rt1" by (simp add: rt_mem_def)
    have b: "dev_byte cfg rt' x = (if unat a \<le> unat x \<and> unat x < unat a + ?s
        then take ?s src ! (unat x - unat a) else dev_byte cfg rt1 x)" for x
      using copy_in_address[of a "take ?s src" "rt_mem rt1" "cfg_mbase cfg" x] span(1)
      unfolding e(2) dev_byte_def m2 lt by simp
    have inside: "dev_byte cfg rt' (a + of_nat k) = src ! k" if "k < ?s" for k
    proof -
      have "unat (a + of_nat k) = unat a + k"
        using that span(1) by (subst unat_add_u32) (auto simp: unat_of_nat_u32)
      then show ?thesis using that by (simp add: b)
    qed
    have d: "live_blocks rt' = live_blocks rt1" "d_launch_args rt' = a" "d_args_used rt'"
      by (simp_all add: e(2) live_blocks_def)
    have "args_placed cfg info rt rt'"
      unfolding args_placed_def
      using A host d inside b live0 byte0 reserved_bounds(2)[OF sz(2)]
      by (intro exI[of _ a] exI[of _ ?n] exI[of _ src]) auto
    moreover have "heap_state_ok cfg rt'"
      using A by (simp add: e(2) heap_state_ok_def valid_device_def)
    moreover have "same_device rt rt' \<and> d_running rt' = d_running rt \<and> same_world_but_mem rt rt'"
    proof -
      have w: "rt_world rt1 = (rt_world rt)\<lparr>sm_mem := rt_mem rt1\<rparr>"
        by (subst some(2)) (simp add: set_mem_def)
      have f: "rt_initialized rt1 = rt_initialized rt" "rt_exec rt1 = rt_exec rt" "rt_ref rt1 = rt_ref rt"
          "d_opened rt1 = d_opened rt" "d_generation rt1 = d_generation rt" "d_kernels rt1 = d_kernels rt"
          "d_fresh rt1 = d_fresh rt" "d_running rt1 = d_running rt"
        by (subst some(2), simp)+
      have "same_world_but_mem rt rt'"
        unfolding e(2) same_world_but_mem_def set_mem_def by (simp add: w) blast
      then show ?thesis by (simp add: e(2) same_device_def f)
    qed
    ultimately show ?thesis using e(1) by simp
  qed
qed


subsection \<open>Launching\<close>

lemma launch_start_cases:
  assumes "launch_start cfg v env dev rt = Some (res, rt')"
  shows "(\<exists>w r f. res = GPU_SUCCESS \<and>
      rt' = rt\<lparr>rt_world := w, d_reference := r, d_ref_fault := f, d_running := True\<rparr>) \<or>
    (\<exists>w r f. res \<noteq> GPU_SUCCESS \<and>
      rt' = release_launch_args dev (rt\<lparr>rt_world := w, d_reference := r, d_ref_fault := f\<rparr>))"
proof (cases "has_ref cfg")
  case False
  let ?rt = "rt\<lparr>rt_world := on_trace (\<lambda>t. t\<lparr>tr_events := 0\<rparr>) (rt_world rt)\<rparr>"
  obtain b w where g: "gpu_model_launch cfg v (le_contexts env) (rt_exec ?rt) (rt_world ?rt) = Some (b, w)"
    and e: "if b then res = GPU_SUCCESS \<and> rt' = ?rt\<lparr>rt_world := w, d_running := True\<rparr>
            else res = GPU_ERROR_BACKEND \<and> rt' = release_launch_args dev (?rt\<lparr>rt_world := w\<rparr>)"
    using assms False by (auto simp: launch_start_def Let_def split: bind_splits if_splits)
  show ?thesis
  proof (cases b)
    case True
    then show ?thesis using e
      by (intro disjI1 exI[of _ w] exI[of _ "d_reference rt"] exI[of _ "d_ref_fault rt"]) simp
  next
    case False
    then show ?thesis using e
      by (intro disjI2 exI[of _ w] exI[of _ "d_reference rt"] exI[of _ "d_ref_fault rt"]) simp
  qed
next
  case True
  let ?rt = "rt\<lparr>rt_world := on_trace (\<lambda>t. t\<lparr>tr_events := 0\<rparr>) (rt_world rt)\<rparr>"
  show ?thesis
  proof (cases "le_initial env \<and> le_reference env")
    case False
    then have "res = GPU_ERROR_OUT_OF_MEMORY" "rt' = release_launch_args dev (?rt\<lparr>d_reference := None\<rparr>)"
      using assms True by (auto simp: launch_start_def Let_def)
    then show ?thesis by (intro disjI2 exI[of _ "rt_world ?rt"] exI[of _ None] exI[of _ "d_ref_fault rt"]) simp
  next
    case ok: True
    then obtain fin flt w1 where r: "reference_run cfg v env (rt_ref ?rt) (rt_world ?rt) = Some (fin, flt, w1)"
      using assms True by (auto simp: launch_start_def Let_def split: bind_splits)
    show ?thesis
    proof (cases fin)
      case False
      then have "res = GPU_ERROR_TIMEOUT" "rt' = release_launch_args dev (?rt\<lparr>rt_world := w1, d_ref_fault := flt, d_reference := None\<rparr>)"
        using assms True ok r by (auto simp: launch_start_def Let_def)
      then show ?thesis by (intro disjI2 exI[of _ w1] exI[of _ None] exI[of _ flt])
          (cases rt, simp)
    next
      case fin: True
      let ?rt2 = "set_mem (rt_mem ?rt) (?rt\<lparr>rt_world := w1, d_ref_fault := flt, d_reference := Some (sm_mem w1)\<rparr>)"
      obtain b w2 where g: "gpu_model_launch cfg v (le_contexts env) (rt_exec ?rt2) (rt_world ?rt2) = Some (b, w2)"
        and e: "if b then res = GPU_SUCCESS \<and> rt' = ?rt2\<lparr>rt_world := w2, d_running := True\<rparr>
                else res = GPU_ERROR_BACKEND \<and> rt' = release_launch_args dev (?rt2\<lparr>rt_world := w2, d_reference := None\<rparr>)"
        using assms True ok r fin by (auto simp: launch_start_def Let_def split: bind_splits if_splits)
      show ?thesis
      proof (cases b)
        case True
        then show ?thesis using e
          by (intro disjI1 exI[of _ w2] exI[of _ "Some (sm_mem w1)"] exI[of _ flt])
            (cases rt, simp add: set_mem_def)
      next
        case False
        then show ?thesis using e
          by (intro disjI2 exI[of _ w2] exI[of _ None] exI[of _ flt])
            (cases rt, simp add: set_mem_def)
      qed
    qed
  qed
qed

text \<open>The three ways in which \<open>gpu_launch\<close> returns.\<close>

lemma gpu_launch_cases:
  assumes "gpu_launch cfg v env dev kptr ip rt = Some (res, rt')"
  obtains (rejected) "res = GPU_ERROR_INVALID_ARGUMENT" "rt' = rt"
  | (no_args) k info bs e where "launch_kernel_ok dev kptr ip rt = Some (Some k)" "ip = Some info"
      "launch_block_size cfg (li_grid info) (li_block info) = Some bs"
      "launch_args cfg dev info rt = Some (Some e, rt')" "res = e"
  | (started) k info bs rt1 w1 w2 where "launch_kernel_ok dev kptr ip rt = Some (Some k)" "ip = Some info"
      "launch_block_size cfg (li_grid info) (li_block info) = Some bs"
      "launch_args cfg dev info rt = Some (None, rt1)"
      "configure_model cfg v (rt_exec rt1) (launch_dcrs (kn_entry k) (d_launch_args rt1)
         (ucast (li_args_size info)) (li_grid info) (li_block info) bs) (rt_world rt1) = Some w1"
      "\<not> has_ref cfg \<Longrightarrow> w2 = w1"
      "launch_start cfg v env dev (rt1\<lparr>rt_world := w2\<rparr>) = Some (res, rt')"
proof -
  obtain c where c: "launch_kernel_ok dev kptr ip rt = Some c"
    using assms by (auto simp: gpu_launch_def split: bind_splits)
  show ?thesis
  proof (cases c)
    case None
    then show ?thesis using assms c rejected by (auto simp: gpu_launch_def)
  next
    case (Some k)
    then obtain info where ip: "ip = Some info"
      using c by (cases ip) (auto simp: launch_kernel_ok_def split: bind_splits if_splits)
    show ?thesis
    proof (cases "launch_block_size cfg (li_grid info) (li_block info)")
      case None
      then show ?thesis using assms c Some ip rejected by (auto simp: gpu_launch_def)
    next
      case bs: (Some bs)
      then obtain err rt1 where a: "launch_args cfg dev info rt = Some (err, rt1)"
        using assms c Some ip by (auto simp: gpu_launch_def split: bind_splits)
      show ?thesis
      proof (cases err)
        case e: (Some e)
        then show ?thesis using assms c Some ip bs a no_args[of k info bs e] by (auto simp: gpu_launch_def)
      next
        case None
        then show ?thesis using assms c Some ip bs a started[of k info bs rt1]
          by (fastforce simp: gpu_launch_def Let_def split: bind_splits if_splits)
      qed
    qed
  qed
qed


subsection \<open>Launching on the functional simulator\<close>

lemma configure_sm:
  assumes "configure_model cfg v (Some g) (launch_dcrs e a n grid block bs) w = Some w'"
    and "gm_kind g = GPU_MODEL_SM"
  shows "iss_startup_pc w' = e \<and> iss_args_addr w' = a \<and> iss_block w' = block \<and> iss_grid w' = grid \<and>
    iss_block_size w' = bs \<and> sm_mem w' = sm_mem w"
  using assms
  by (auto simp: launch_dcrs_def gpu_model_dcr_write_def on_sm_def gpu_iss_dcr_write_def dim_put_def)

lemma launch_start_sm:
  assumes "launch_start cfg v env dev rt = Some (GPU_SUCCESS, rt')" and "\<not> cfg_hm cfg"
    and "rt_exec rt = Some g" and "gm_kind g = GPU_MODEL_SM"
  shows "\<exists>s s'. gpu_iss_init (gm_num_harts g) s = Some s' \<and>
    s = sm.truncate (on_trace (\<lambda>t. t\<lparr>tr_events := 0\<rparr>) (rt_world rt)) \<and>
    gpu_iss_launch cfg (le_contexts env) s' = Some (True, sm.truncate (rt_world rt')) \<and>
    rt' = rt\<lparr>rt_world := rt_world rt', d_running := True\<rparr>"
  using assms
  by (auto simp: launch_start_def has_ref_def gpu_model_launch_def on_sm_Some Let_def
      split: bind_splits if_splits)

lemma gpu_iss_init_fields:
  "gpu_iss_init n s = Some s' \<Longrightarrow> iss_startup_pc s' = iss_startup_pc s \<and> iss_args_addr s' = iss_args_addr s \<and>
    iss_grid s' = iss_grid s \<and> iss_block s' = iss_block s \<and> iss_block_size s' = iss_block_size s \<and>
    iss_physical_count s' = n \<and> \<not> iss_faulted s' \<and> sm_mem s' = sm_mem s \<and> 1 \<le> n"
  by (auto simp: gpu_iss_init_def split: if_splits)

lemma gpu_iss_launch_mem:
  "gpu_iss_launch cfg ok s = Some (b, s') \<Longrightarrow> sm_mem s' = sm_mem s"
  by (auto simp: gpu_iss_launch_def Let_def split: if_splits)

lemma same_device_refl [simp]: "same_device rt rt"
  by (simp add: same_device_def)

lemma launch_kernel_ok_Some:
  assumes "launch_kernel_ok dev kptr ip rt = Some (Some k)"
  shows "valid_device dev rt \<and> (\<exists>i. kptr = Some i \<and> map_of (d_kernels rt) i = Some k) \<and>
    kn_generation k = d_generation rt \<and> \<not> d_running rt \<and>
    (\<exists>info. ip = Some info \<and> li_args_size info \<le> 0xffffffff \<and>
       (li_args_size info \<noteq> 0 \<longrightarrow> li_args_host info \<noteq> None))"
  using assms by (auto simp: launch_kernel_ok_def split: bind_splits if_splits)

text \<open>The thread that a launch starts in position \<open>i\<close>.\<close>

definition launched_thread :: "gpu_config \<Rightarrow> launch_info \<Rightarrow> u32 \<Rightarrow> u32 \<Rightarrow> nat \<Rightarrow> iss_core \<Rightarrow> bool" where
  "launched_thread cfg info entry args i c \<longleftrightarrow>
     c_pc c = entry \<and> c_args_addr c = args \<and> c_gpr c = (\<lambda>_. 0) \<and> \<not> c_halted c \<and>
     c_block_dim c = li_block info \<and> c_grid_dim c = li_grid info \<and> unat (c_hartid c) = i \<and>
     dim_inside (li_block info) (c_thread_idx c) \<and> dim_inside (li_grid info) (c_block_idx c) \<and>
     i = dim_linear (li_grid info) (c_block_idx c) * dim_volume (li_block info)
         + dim_linear (li_block info) (c_thread_idx c) \<and>
     unat (c_physical_id c) < num_harts cfg"

lemma launched_threads:
  assumes cfg: "config_ok cfg"
    and bs: "launch_block_size cfg (li_grid info) (li_block info) = Some bs"
    and f: "iss_startup_pc s = entry" "iss_args_addr s = args" "iss_block s = li_block info"
      "iss_grid s = li_grid info" "iss_block_size s = bs" "unat (iss_physical_count s) = num_harts cfg"
    and l: "gpu_iss_launch cfg ok s = Some (True, s')"
  shows "length (iss_cores s') = dim_volume (li_grid info) * dim_volume (li_block info) \<and>
    (\<forall>i < length (iss_cores s'). launched_thread cfg info entry args i (iss_cores s' ! i))"
proof -
  let ?G = "dim_volume (li_grid info)" and ?B = "dim_volume (li_block info)"
  note B = bs[unfolded launch_block_size_iff[OF cfg]]
  have vol: "dim_volume (iss_grid s) * dim_volume (iss_block s) < 2 ^ 32" using B f by simp
  note L = gpu_iss_launch_True[OF l vol]
  have len: "length (iss_cores s') = ?G * ?B" using L(1,2) f by simp
  have "launched_thread cfg info entry args i (iss_cores s' ! i)" if i: "i < ?G * ?B" for i
  proof -
    have c: "iss_cores s' ! i = launch_core cfg (iss.truncate s) (of_nat i)"
      using L(1,2) i f by simp
    have g: "core_geometry cfg (iss.truncate s) i (iss_cores s' ! i)"
      unfolding c using L(5) vol i f by (intro launch_core_geometry[OF cfg]) (simp_all add: iss.defs)
    have pb: "0 < ?B" using B dim_volume_pos by simp
    have "i mod ?B < lanes_per_core cfg" using B pb by (meson less_le_trans mod_less_divisor)
    moreover have "(i div ?B) mod cfg_cores cfg < cfg_cores cfg" using cfg by (simp add: config_ok_def)
    then have "Suc ((i div ?B) mod cfg_cores cfg) * lanes_per_core cfg \<le> cfg_cores cfg * lanes_per_core cfg"
      by (intro mult_le_mono1) simp
    ultimately have "((i div ?B) mod cfg_cores cfg) * lanes_per_core cfg + i mod ?B < num_harts cfg"
      by (simp add: num_harts_def lanes_per_core_def mult.assoc)
    then have "unat (c_physical_id (iss_cores s' ! i)) < num_harts cfg"
      unfolding c using launch_core_physical[OF cfg, of "iss.truncate s" i] B f i pb
      by (simp add: iss.defs)
    then show ?thesis using g f by (simp add: launched_thread_def core_geometry_def iss.defs)
  qed
  then show ?thesis using len by simp
qed


subsection \<open>Waiting\<close>

lemma sm_wait_True: "sm_wait cfg n s = Some (b, s') \<Longrightarrow> b = gpu_iss_done s'"
proof (induction cfg n s rule: sm_wait.induct)
  case (1 cfg n s)
  then show ?case
    by (cases "n = 0 \<or> gpu_iss_done s") (auto simp: sm_wait.simps[of cfg n s] split: bind_splits)
qed

lemma gpu_wait_cases:
  assumes "gpu_wait cfg v dev rt = Some (res, rt')" and "valid_device dev rt" and "d_running rt"
  shows "\<exists>fin w r. gpu_model_wait cfg v GPU_WAIT_LIMIT (rt_exec rt) (rt_world rt) = Some (fin, w) \<and>
    rt' = (release_launch_args dev (rt\<lparr>rt_world := w, d_running := False\<rparr>))\<lparr>d_reference := r\<rparr> \<and>
    (res = GPU_SUCCESS \<longrightarrow> fin \<and> \<not> gpu_model_fault cfg v (rt_exec rt) w \<and>
       (has_ref cfg \<longrightarrow> \<not> d_ref_fault rt \<and>
          (\<exists>ref. d_reference rt = Some ref \<and> pmem_equal cfg ref (sm_mem w))))"
proof -
  obtain fin w where w: "gpu_model_wait cfg v GPU_WAIT_LIMIT (rt_exec rt) (rt_world rt) = Some (fin, w)"
    using assms by (auto simp: gpu_wait_def split: bind_splits)
  let ?r = "release_launch_args dev (rt\<lparr>rt_world := w, d_running := False\<rparr>)"
  have same: "?r = ?r\<lparr>d_reference := d_reference ?r\<rparr>" by simp
  consider "rt' = ?r" | "rt' = ?r\<lparr>d_reference := None\<rparr>"
    using assms w by (auto simp: gpu_wait_def Let_def wait_compare_def split: if_splits bind_splits)
  then have "\<exists>r. rt' = ?r\<lparr>d_reference := r\<rparr>" using same by cases metis+
  moreover have "res = GPU_SUCCESS \<longrightarrow> fin \<and> \<not> gpu_model_fault cfg v (rt_exec rt) w \<and>
       (has_ref cfg \<longrightarrow> \<not> d_ref_fault rt \<and>
          (\<exists>ref. d_reference rt = Some ref \<and> pmem_equal cfg ref (sm_mem w)))"
    using assms w by (auto simp: gpu_wait_def Let_def wait_compare_def rt_mem_def split: if_splits bind_splits)
  ultimately show ?thesis using w by blast
qed

lemma gpu_wait_live:
  assumes "gpu_wait cfg v Dev_Singleton rt = Some (res, rt')" and "heap_state_ok cfg rt" and "d_running rt"
  shows "\<not> d_running rt' \<and> \<not> d_args_used rt' \<and> heap_state_ok cfg rt' \<and> same_device rt rt' \<and>
    live_blocks rt' = {q \<in> live_blocks rt. d_args_used rt \<longrightarrow> fst q \<noteq> unat (d_launch_args rt)}"
proof -
  have v: "valid_device Dev_Singleton rt" using assms(2) by (simp add: heap_state_ok_def)
  obtain w r where rt': "rt' = (release_launch_args Dev_Singleton (rt\<lparr>rt_world := w, d_running := False\<rparr>))\<lparr>d_reference := r\<rparr>"
    using gpu_wait_cases[OF assms(1) v assms(3)] by blast
  let ?rt = "rt\<lparr>rt_world := w, d_running := False\<rparr>"
  have ok: "heap_state_ok cfg ?rt" using assms(2) by (simp add: heap_state_ok_def valid_device_def)
  have live: "live_blocks ?rt = live_blocks rt" "live_blocks rt' = live_blocks (release_launch_args Dev_Singleton ?rt)"
    by (simp_all add: live_blocks_def rt')
  have "live_blocks rt' = {q \<in> live_blocks rt. d_args_used rt \<longrightarrow> fst q \<noteq> unat (d_launch_args rt)} \<and>
      heap_ok cfg (d_allocs rt')"
  proof (cases "d_args_used rt")
    case True
    then show ?thesis using release_args_live[OF ok] live by (simp add: rt')
  next
    case False
    then have "release_launch_args Dev_Singleton ?rt = ?rt" by (simp add: release_launch_args_def)
    then show ?thesis using False live assms(2) by (simp add: rt' heap_state_ok_def)
  qed
  then show ?thesis using assms(2)
    by (simp add: rt' heap_state_ok_def valid_device_def same_device_def)
qed

lemma gpu_launch_live:
  assumes l: "gpu_launch cfg v env Dev_Singleton kptr ip rt = Some (res, rt')"
    and ok: "heap_state_ok cfg rt" and nr: "\<not> d_running rt"
  shows "heap_state_ok cfg rt' \<and> same_device rt rt' \<and> (d_running rt' \<longleftrightarrow> res = GPU_SUCCESS) \<and>
    (if res = GPU_SUCCESS
     then \<exists>info. ip = Some info \<and> (if li_args_size info = 0 then \<not> d_args_used rt' \<and> live_blocks rt' = live_blocks rt
        else \<exists>n. d_args_used rt' \<and> live_blocks rt' = insert (unat (d_launch_args rt'), n) (live_blocks rt) \<and>
               unat (li_args_size info) \<le> n \<and> (\<forall>q \<in> live_blocks rt. span_apart (unat (d_launch_args rt'), n) q) \<and>
               (\<forall>q \<in> live_blocks rt. fst q \<noteq> unat (d_launch_args rt')))
     else live_blocks rt' = live_blocks rt)"
  using l
proof (cases rule: gpu_launch_cases)
  case rejected
  then show ?thesis using ok nr by simp
next
  case (no_args k info bs e)
  note K = launch_kernel_ok_Some[OF no_args(1)]
  have ne: "li_args_size info \<noteq> 0" using no_args(4) by (auto simp: launch_args_def Let_def)
  then obtain src where "li_args_host info = Some src" using K no_args(2) by auto
  from launch_args_placed[OF ok _ ne this no_args(4)] show ?thesis
    using K no_args nr by auto
next
  case (started k info bs rt1 w1 w2)
  note K = launch_kernel_ok_Some[OF started(1)]
  let ?rt2 = "rt1\<lparr>rt_world := w2\<rparr>"
  have placed: "heap_state_ok cfg rt1 \<and> same_device rt rt1 \<and> \<not> d_running rt1 \<and>
      (if li_args_size info = 0 then \<not> d_args_used rt1 \<and> live_blocks rt1 = live_blocks rt
       else args_placed cfg info rt rt1)"
  proof (cases "li_args_size info = 0")
    case True
    then have "rt1 = rt\<lparr>d_launch_args := 0, d_args_used := False\<rparr>"
      using started(4) by (simp add: launch_args_def Let_def)
    then show ?thesis using True ok nr
      by (simp add: heap_state_ok_def valid_device_def same_device_def live_blocks_def)
  next
    case False
    then obtain src where "li_args_host info = Some src" using K started(2) by auto
    from launch_args_placed[OF ok _ False this started(4)] show ?thesis
      using K started(2) False nr by auto
  qed
  have unique: "fst q \<noteq> unat a" if "span_apart (unat a, n) q" "q \<in> live_blocks rt" "0 < n" for a n q
    using that ok by (auto simp: span_apart_def live_blocks_def heap_state_ok_def heap_ok_def block_ok_def)
  have ok2: "heap_state_ok cfg ?rt2" using placed by (simp add: heap_state_ok_def valid_device_def)
  from launch_start_cases[OF started(7)] show ?thesis
  proof (elim disjE exE conjE)
    fix w r f
    assume s: "res = GPU_SUCCESS" "rt' = ?rt2\<lparr>rt_world := w, d_reference := r, d_ref_fault := f, d_running := True\<rparr>"
    have lb: "live_blocks rt' = live_blocks rt1" by (simp add: s(2) live_blocks_def)
    have st: "heap_state_ok cfg rt' \<and> same_device rt rt' \<and> d_running rt'"
      using placed by (auto simp: s(2) heap_state_ok_def valid_device_def same_device_def)
    show ?thesis
    proof (cases "li_args_size info = 0")
      case True
      then show ?thesis using placed st s started(2) lb by simp
    next
      case False
      then have "args_placed cfg info rt rt1" using placed by simp
      then obtain n where n: "d_args_used rt1" "unat (li_args_size info) \<le> n" "0 < n"
          "live_blocks rt1 = insert (unat (d_launch_args rt1), n) (live_blocks rt)"
          "\<forall>q \<in> live_blocks rt. span_apart (unat (d_launch_args rt1), n) q"
        unfolding args_placed_def by blast
      have "\<forall>q \<in> live_blocks rt. fst q \<noteq> unat (d_launch_args rt1)" using n(3,5) unique by blast
      then have "\<exists>n. d_args_used rt' \<and> live_blocks rt' = insert (unat (d_launch_args rt'), n) (live_blocks rt) \<and>
          unat (li_args_size info) \<le> n \<and> (\<forall>q \<in> live_blocks rt. span_apart (unat (d_launch_args rt'), n) q) \<and>
          (\<forall>q \<in> live_blocks rt. fst q \<noteq> unat (d_launch_args rt'))"
        using n lb by (intro exI[of _ n]) (simp add: s(2))
      then show ?thesis using False st s(1) started(2) by simp
    qed
  next
    fix w r f
    assume s: "res \<noteq> GPU_SUCCESS"
      "rt' = release_launch_args Dev_Singleton (?rt2\<lparr>rt_world := w, d_reference := r, d_ref_fault := f\<rparr>)"
    let ?rt3 = "?rt2\<lparr>rt_world := w, d_reference := r, d_ref_fault := f\<rparr>"
    have ok3: "heap_state_ok cfg ?rt3" using placed by (simp add: heap_state_ok_def valid_device_def)
    have l3: "live_blocks ?rt3 = live_blocks rt1" by (simp add: live_blocks_def)
    have "live_blocks rt' = live_blocks rt \<and> heap_ok cfg (d_allocs rt')"
    proof (cases "li_args_size info = 0")
      case True
      then have "release_launch_args Dev_Singleton ?rt3 = ?rt3" using placed by (simp add: release_launch_args_def)
      then show ?thesis using True placed l3 by (simp add: s(2) heap_state_ok_def)
    next
      case False
      then have "args_placed cfg info rt rt1" using placed by simp
      then obtain n where n: "d_args_used rt1" "0 < n"
          "live_blocks rt1 = insert (unat (d_launch_args rt1), n) (live_blocks rt)"
          "\<forall>q \<in> live_blocks rt. span_apart (unat (d_launch_args rt1), n) q"
        unfolding args_placed_def by blast
      have "\<forall>q \<in> live_blocks rt. fst q \<noteq> unat (d_launch_args rt1)" using n(2,4) unique by blast
      then have "{q \<in> live_blocks ?rt3. fst q \<noteq> unat (d_launch_args ?rt3)} = live_blocks rt"
        using n(3) l3 by auto
      then show ?thesis using release_args_live[OF ok3] n(1) by (simp add: s(2))
    qed
    moreover have "rt_initialized rt' \<and> d_opened rt' \<and> \<not> d_running rt' \<and> same_device rt rt'"
      using placed by (auto simp: s(2) heap_state_ok_def valid_device_def same_device_def)
    ultimately show ?thesis using ok s(1) by (simp add: heap_state_ok_def valid_device_def)
  qed
qed

end
