(* ===== verification/Cycle_Props.thy ===== *)
theory Cycle_Props
  imports Cycle_Core
begin

text \<open>
  Properties of one core of the cycle model: the SIMT path invariant (the running mask and
  the deferred masks of a warp are disjoint sets of lanes), the lanes a branch or an
  \<open>ebreak\<close> moves, and the bound on the divergence stack that follows.
\<close>

subsection \<open>Masks as sets of lanes\<close>

definition mask_lanes :: "u32 \<Rightarrow> nat set" where
  "mask_lanes m = {j. bit m j}"

lemma mask_lanes_empty [simp]: "mask_lanes m = {} \<longleftrightarrow> m = 0"
proof
  assume "mask_lanes m = {}"
  then show "m = 0" by (intro bit_word_eqI) (auto simp: mask_lanes_def)
qed (simp add: mask_lanes_def)

lemma mask_lanes_less: "j \<in> mask_lanes m \<Longrightarrow> j < 32"
  using bit_imp_le_length[of m j] by (simp add: mask_lanes_def)

lemma bit_lane_bit: "bit (lane_bit t) j \<longleftrightarrow> j = t \<and> t < 32"
  by (auto simp: lane_bit_def bit_simps)

lemma bit_fold_lanes:
  "bit (foldl (\<lambda>acc t. if p t then acc OR lane_bit t else acc) a xs) j \<longleftrightarrow>
     bit a j \<or> j \<in> set xs \<and> p j \<and> j < 32"
proof (induction xs arbitrary: a)
  case Nil
  then show ?case by simp
next
  case (Cons t xs)
  then show ?case by (auto simp: bit_or_iff bit_lane_bit)
qed

lemma bit_lanes_where: "bit (lanes_where cfg p) j \<longleftrightarrow> j < cfg_threads cfg \<and> j < 32 \<and> p j"
  by (auto simp: lanes_where_def bit_fold_lanes)

lemma mask_lanes_where: "mask_lanes (lanes_where cfg p) = {j. j < cfg_threads cfg \<and> j < 32 \<and> p j}"
  by (simp add: mask_lanes_def bit_lanes_where)

subsection \<open>Paths of a warp\<close>

text \<open>The running path first, then the deferred ones from the bottom of the stack.\<close>

definition warp_paths :: "ccore \<Rightarrow> nat \<Rightarrow> u32 list" where
  "warp_paths c w = k_mask c w # map (k_stack_mask c w) [0..<k_sp c w]"

definition disjoint_masks :: "u32 list \<Rightarrow> bool" where
  "disjoint_masks ms \<longleftrightarrow> sorted_wrt (\<lambda>a b. mask_lanes a \<inter> mask_lanes b = {}) ms"

definition paths_ok :: "gpu_config \<Rightarrow> u32 list \<Rightarrow> bool" where
  "paths_ok cfg ms \<longleftrightarrow> disjoint_masks ms \<and>
     (\<forall>m \<in> set ms. m \<noteq> 0 \<and> mask_lanes m \<subseteq> {..<cfg_threads cfg})"

definition path_lanes :: "u32 list \<Rightarrow> nat set" where
  "path_lanes ms = (\<Union>m \<in> set ms. mask_lanes m)"

lemma disjoint_masks_append:
  "disjoint_masks (xs @ ys) \<longleftrightarrow> disjoint_masks xs \<and> disjoint_masks ys \<and>
     (\<forall>x \<in> set xs. \<forall>y \<in> set ys. mask_lanes x \<inter> mask_lanes y = {})"
  by (simp add: disjoint_masks_def sorted_wrt_append)

lemma disjoint_masks_Cons:
  "disjoint_masks (x # ys) \<longleftrightarrow> disjoint_masks ys \<and> (\<forall>y \<in> set ys. mask_lanes x \<inter> mask_lanes y = {})"
  by (auto simp: disjoint_masks_def)

lemma card_path_lanes:
  "disjoint_masks ms \<Longrightarrow> \<forall>m \<in> set ms. m \<noteq> 0 \<Longrightarrow> length ms \<le> card (path_lanes ms)"
proof (induction ms)
  case Nil
  then show ?case by simp
next
  case (Cons m ms)
  have fin: "finite (mask_lanes x)" for x
    by (rule finite_subset[of _ "{..<32}"]) (auto dest: mask_lanes_less)
  have "mask_lanes m \<inter> path_lanes ms = {}"
    using Cons.prems(1) by (auto simp: disjoint_masks_Cons path_lanes_def)
  then have "card (path_lanes (m # ms)) = card (mask_lanes m) + card (path_lanes ms)"
    unfolding path_lanes_def using fin by (subst card_Un_disjoint[symmetric]) (auto intro: finite_UN_I)
  moreover have "1 \<le> card (mask_lanes m)"
    using Cons.prems(2) fin by (simp add: Suc_le_eq card_gt_0_iff)
  ultimately show ?case using Cons by (simp add: disjoint_masks_Cons)
qed

text \<open>A warp of \<open>n\<close> lanes has at most \<open>n\<close> paths.\<close>

lemma paths_ok_length: "paths_ok cfg ms \<Longrightarrow> length ms \<le> cfg_threads cfg"
proof -
  assume ok: "paths_ok cfg ms"
  then have "path_lanes ms \<subseteq> {..<cfg_threads cfg}" by (auto simp: paths_ok_def path_lanes_def)
  then have "card (path_lanes ms) \<le> cfg_threads cfg"
    using card_mono[of "{..<cfg_threads cfg}" "path_lanes ms"] by simp
  moreover have "length ms \<le> card (path_lanes ms)"
    using ok by (intro card_path_lanes) (auto simp: paths_ok_def)
  ultimately show ?thesis by simp
qed

text \<open>Splitting the running path and deferring one half at the top of the stack.\<close>

lemma paths_ok_split:
  assumes "paths_ok cfg (m # ms)" and "mask_lanes a \<union> mask_lanes b = mask_lanes m"
    and "mask_lanes a \<inter> mask_lanes b = {}" and "a \<noteq> 0" and "b \<noteq> 0"
  shows "paths_ok cfg (a # ms @ [b])" and "path_lanes (a # ms @ [b]) = path_lanes (m # ms)"
proof -
  have sub: "mask_lanes a \<subseteq> mask_lanes m" "mask_lanes b \<subseteq> mask_lanes m" using assms(2) by auto
  have "mask_lanes x \<inter> mask_lanes b = {}" "mask_lanes a \<inter> mask_lanes x = {}" if "x \<in> set ms" for x
    using assms(1) that sub by (auto simp: paths_ok_def disjoint_masks_Cons)
  moreover have "mask_lanes m \<subseteq> {..<cfg_threads cfg}" using assms(1) by (simp add: paths_ok_def)
  ultimately show "paths_ok cfg (a # ms @ [b])"
    using assms sub
    by (auto simp: paths_ok_def disjoint_masks_Cons disjoint_masks_append disjoint_masks_def[of "[]"])
  show "path_lanes (a # ms @ [b]) = path_lanes (m # ms)"
    using assms(2) by (auto simp: path_lanes_def)
qed

text \<open>Dropping the running path and resuming the one on top of the stack.\<close>

lemma paths_ok_resume:
  assumes "paths_ok cfg (m # ms @ [b])"
  shows "paths_ok cfg (b # ms)" and "path_lanes (b # ms) = path_lanes (m # ms @ [b]) - mask_lanes m"
proof -
  have d: "disjoint_masks (m # ms @ [b])" using assms by (simp add: paths_ok_def)
  then show "paths_ok cfg (b # ms)"
    using assms by (auto simp: paths_ok_def disjoint_masks_Cons disjoint_masks_append)
  show "path_lanes (b # ms) = path_lanes (m # ms @ [b]) - mask_lanes m"
    using d by (auto simp: path_lanes_def disjoint_masks_Cons)
qed

subsection \<open>The invariant of a core\<close>

definition issued :: "ccore \<Rightarrow> bool" where
  "issued c \<longleftrightarrow> k_cta_active c \<and> k_state c \<noteq> SCHED"

definition core_inv :: "gpu_config \<Rightarrow> ccore \<Rightarrow> bool" where
  "core_inv cfg c \<longleftrightarrow>
     (\<forall>w < cfg_warps cfg. k_valid c w \<longrightarrow> paths_ok cfg (warp_paths c w)) \<and>
     k_iw c < cfg_warps cfg \<and> k_rr c < cfg_warps cfg \<and> k_mt c < cfg_threads cfg \<and>
     (issued c \<longrightarrow> k_valid c (k_iw c) \<and> k_im c = k_mask c (k_iw c) \<and> k_ip c = k_pc c (k_iw c)) \<and>
     (\<forall>x. k_gpr c x 0 = 0)"

text \<open>At most 32 lanes, so that a 32-bit mask holds one bit for each.\<close>

definition simt_config :: "gpu_config \<Rightarrow> bool" where
  "simt_config cfg \<longleftrightarrow> 0 < cfg_warps cfg \<and> 0 < cfg_threads cfg \<and> cfg_threads cfg \<le> 32"

lemma core_inv_init: "simt_config cfg \<Longrightarrow> core_inv cfg core_init"
  by (simp add: core_inv_def core_init_def simt_config_def issued_def)

lemma core_invD:
  assumes "core_inv cfg c"
  shows "w < cfg_warps cfg \<Longrightarrow> k_valid c w \<Longrightarrow> paths_ok cfg (warp_paths c w)"
    and "k_iw c < cfg_warps cfg" and "k_gpr c x 0 = 0"
    and "issued c \<Longrightarrow> k_valid c (k_iw c)" and "issued c \<Longrightarrow> k_im c = k_mask c (k_iw c)"
  using assms by (auto simp: core_inv_def)

subsection \<open>Only registers change while the lanes execute\<close>

definition only_gpr :: "ccore \<Rightarrow> ccore \<Rightarrow> bool" where
  "only_gpr c c' \<longleftrightarrow> (\<exists>g. c' = c\<lparr>k_gpr := g\<rparr> \<and> ((\<forall>x. k_gpr c x 0 = 0) \<longrightarrow> (\<forall>x. g x 0 = 0)))"

lemma only_gpr_refl [simp]: "only_gpr c c"
  unfolding only_gpr_def by (rule exI[of _ "k_gpr c"]) simp

lemma only_gpr_trans: "only_gpr a b \<Longrightarrow> only_gpr b c \<Longrightarrow> only_gpr a c"
  by (auto simp: only_gpr_def)

lemma only_gpr_write_lane [simp]: "only_gpr c (write_lane x wr rd res c)"
  by (auto simp: only_gpr_def write_lane_def Let_def)

lemma only_gpr_fields:
  assumes "only_gpr c c'"
  shows "k_state c' = k_state c" "k_cta_active c' = k_cta_active c" "k_rr c' = k_rr c" "k_iw c' = k_iw c"
    "k_im c' = k_im c" "k_ip c' = k_ip c" "k_inst c' = k_inst c" "k_mt c' = k_mt c" "k_pc c' = k_pc c"
    "k_mask c' = k_mask c" "k_valid c' = k_valid c" "k_sp c' = k_sp c" "k_stack_mask c' = k_stack_mask c"
    "k_stack_pc c' = k_stack_pc c" "k_fault c' = k_fault c"
  using assms by (auto simp: only_gpr_def)

lemma lane_step_core: "only_gpr (x_core acc) (x_core (lane_step cfg cid acc t))"
  by (simp add: lane_step_def Let_def)

lemma foldl_lane_step_core: "only_gpr (x_core acc) (x_core (foldl (lane_step cfg cid) acc ts))"
proof (induction ts arbitrary: acc)
  case Nil
  then show ?case by simp
next
  case (Cons t ts)
  show ?case using only_gpr_trans[OF lane_step_core Cons.IH] by simp
qed

lemma exec_lanes_core: "only_gpr c (x_core (exec_lanes cfg cid c))"
  unfolding exec_lanes_def
  by (rule only_gpr_trans[OF _ foldl_lane_step_core]) simp

lemma core_inv_only_gpr: "core_inv cfg c \<Longrightarrow> only_gpr c c' \<Longrightarrow> core_inv cfg c'"
  by (auto simp: core_inv_def only_gpr_def warp_paths_def issued_def)

subsection \<open>Every state keeps the invariant\<close>

lemma next_warp_inv:
  assumes "\<forall>w < cfg_warps cfg. k_valid c w \<longrightarrow> paths_ok cfg (warp_paths c w)"
    and "k_iw c < cfg_warps cfg" and "k_mt c < cfg_threads cfg" and "\<forall>x. k_gpr c x 0 = 0"
  shows "core_inv cfg (next_warp cfg c)"
  using assms by (auto simp: core_inv_def next_warp_def warp_paths_def issued_def)

lemma accept_cta_inv:
  assumes "simt_config cfg" and "core_inv cfg c"
  shows "core_inv cfg (accept_cta cfg m c)"
proof -
  have "paths_ok cfg (warp_paths (accept_cta cfg m c) w)"
    if w: "w < cfg_warps cfg" "k_valid (accept_cta cfg m c) w" for w
  proof -
    let ?M = "lanes_where cfg (\<lambda>t. of_nat (w * cfg_threads cfg + t) < m_block_size m)"
    have "0 \<in> mask_lanes ?M"
      using w assms(1) by (simp add: mask_lanes_where accept_cta_def Let_def upd_below_def simt_config_def)
    then have "?M \<noteq> 0" using mask_lanes_empty[of ?M] by blast
    then show ?thesis
      using w(1) by (auto simp: warp_paths_def accept_cta_def Let_def upd_below_def paths_ok_def
          disjoint_masks_def mask_lanes_where)
  qed
  then show ?thesis
    using assms by (simp add: core_inv_def issued_def accept_cta_def Let_def upd_below_def simt_config_def)
qed

lemma sched_step_inv:
  assumes "core_inv cfg c"
  shows "core_inv cfg (sched_step cfg c)"
proof (cases "find (k_valid c) (map (\<lambda>i. (k_rr c + i) mod cfg_warps cfg) [0..<cfg_warps cfg])")
  case None
  then show ?thesis using assms
    by (simp add: sched_step_def core_inv_def issued_def warp_paths_def)
next
  case (Some w)
  then have "k_valid c w" "w < cfg_warps cfg" by (auto simp: find_Some_iff)
  then show ?thesis using assms Some
    by (simp add: sched_step_def core_inv_def issued_def warp_paths_def)
qed

lemma ebreak_step_inv:
  assumes inv: "core_inv cfg c" and iss: "issued c"
  shows "core_inv cfg (ebreak_step cfg c)"
proof (cases "k_sp c (k_iw c)")
  case 0
  then show ?thesis using inv unfolding ebreak_step_def Let_def
    by (intro next_warp_inv) (auto simp: core_inv_def warp_paths_def)
next
  case (Suc s)
  have ok: "paths_ok cfg (warp_paths c (k_iw c))"
    using core_invD[OF inv] iss by simp
  have "warp_paths c (k_iw c) = k_mask c (k_iw c) # map (k_stack_mask c (k_iw c)) [0..<s] @ [k_stack_mask c (k_iw c) s]"
    by (simp add: warp_paths_def Suc)
  note res = paths_ok_resume(1)[OF ok[unfolded this]]
  show ?thesis
    using inv res unfolding ebreak_step_def Let_def
    by (intro next_warp_inv) (auto simp: core_inv_def warp_paths_def Suc)
qed

lemma branch_masks_partition:
  assumes "mask_lanes (k_im c) \<subseteq> {..<cfg_threads cfg}" and "branch_masks cfg c = (tk, fl)"
  shows "mask_lanes tk \<union> mask_lanes fl = mask_lanes (k_im c)" and "mask_lanes tk \<inter> mask_lanes fl = {}"
proof -
  have "j < 32" if "bit (k_im c) j" for j using bit_imp_le_length[OF that] by simp
  moreover have "j < cfg_threads cfg" if "bit (k_im c) j" for j
    using that assms(1) by (auto simp: mask_lanes_def)
  ultimately show "mask_lanes tk \<union> mask_lanes fl = mask_lanes (k_im c)"
    and "mask_lanes tk \<inter> mask_lanes fl = {}"
    using assms(2) by (auto simp: branch_masks_def Let_def mask_lanes_where) (auto simp: mask_lanes_def)
qed

lemma branch_step_cases:
  obtains (bad) "\<not> branch_good c" "branch_step cfg c = next_warp cfg (k_fault_core c)"
  | (good) tk fl where "branch_good c" "branch_masks cfg c = (tk, fl)"
    "branch_step cfg c = next_warp cfg (branch_outcome c (branch_imm (k_inst c)) tk fl)"
  by (cases "branch_masks cfg c") (auto simp: branch_step_def split: if_splits)

lemma k_fault_core_next_inv: "core_inv cfg c \<Longrightarrow> core_inv cfg (next_warp cfg (k_fault_core c))"
  by (intro next_warp_inv) (auto simp: core_inv_def k_fault_core_def warp_paths_def)

text \<open>The paths after a branch that does not fault.\<close>

lemma branch_outcome_paths:
  assumes ok: "paths_ok cfg (warp_paths c (k_iw c))" and im: "k_im c = k_mask c (k_iw c)"
    and m: "branch_masks cfg c = (tk, fl)"
    and deep: "\<not> (tk \<noteq> 0 \<and> fl \<noteq> 0 \<and> STACK_DEPTH \<le> k_sp c (k_iw c))"
  shows "paths_ok cfg (warp_paths (branch_outcome c imm tk fl) (k_iw c))"
    and "path_lanes (warp_paths (branch_outcome c imm tk fl) (k_iw c)) = path_lanes (warp_paths c (k_iw c))"
proof -
  let ?w = "k_iw c" and ?c' = "branch_outcome c imm tk fl"
  let ?rest = "map (k_stack_mask c ?w) [0..<k_sp c ?w]"
  have P: "warp_paths c ?w = k_im c # ?rest" by (simp add: warp_paths_def im)
  have sub: "mask_lanes (k_im c) \<subseteq> {..<cfg_threads cfg}" and nz: "k_im c \<noteq> 0"
    using ok by (simp_all add: P paths_ok_def)
  note part = branch_masks_partition[OF sub m]
  have eq: "x = k_im c" if "mask_lanes x = mask_lanes (k_im c)" for x
    using that by (intro bit_word_eqI) (auto simp: mask_lanes_def)
  consider (split) "tk \<noteq> 0" "fl \<noteq> 0" | (taken) "fl = 0" "tk = k_im c" | (fall) "tk = 0" "fl = k_im c"
    using part(1) eq by (metis Un_empty_left Un_empty_right mask_lanes_empty)
  then have "paths_ok cfg (warp_paths ?c' ?w) \<and> path_lanes (warp_paths ?c' ?w) = path_lanes (warp_paths c ?w)"
  proof cases
    case split
    have "warp_paths ?c' ?w = fl # ?rest @ [tk]"
      using split deep by (simp add: warp_paths_def branch_outcome_def Let_def)
    then show ?thesis
      using paths_ok_split[of cfg "k_im c" ?rest fl tk] ok part split by (simp add: P Un_commute Int_commute)
  next
    case taken
    then have "warp_paths ?c' ?w = warp_paths c ?w"
      using nz by (simp add: P) (simp add: warp_paths_def branch_outcome_def Let_def)
    then show ?thesis using ok by simp
  next
    case fall
    then have "warp_paths ?c' ?w = warp_paths c ?w"
      using nz by (simp add: P) (simp add: warp_paths_def branch_outcome_def Let_def)
    then show ?thesis using ok by simp
  qed
  then show "paths_ok cfg (warp_paths ?c' ?w)" "path_lanes (warp_paths ?c' ?w) = path_lanes (warp_paths c ?w)"
    by simp_all
qed

lemma branch_outcome_fields:
  "k_iw (branch_outcome c imm tk fl) = k_iw c" "k_mt (branch_outcome c imm tk fl) = k_mt c"
  "k_gpr (branch_outcome c imm tk fl) = k_gpr c" "k_valid (branch_outcome c imm tk fl) = k_valid c"
  "w \<noteq> k_iw c \<Longrightarrow> warp_paths (branch_outcome c imm tk fl) w = warp_paths c w"
  by (simp_all add: branch_outcome_def k_fault_core_def warp_paths_def Let_def)

lemma branch_step_inv:
  assumes inv: "core_inv cfg c" and iss: "issued c"
  shows "core_inv cfg (branch_step cfg c)"
proof (cases rule: branch_step_cases[where cfg = cfg and c = c])
  case bad
  then show ?thesis using k_fault_core_next_inv[OF inv] by simp
next
  case (good tk fl)
  note core = core_invD[OF inv]
  have ok: "paths_ok cfg (warp_paths c (k_iw c))" using core iss by simp
  show ?thesis
  proof (cases "tk \<noteq> 0 \<and> fl \<noteq> 0 \<and> STACK_DEPTH \<le> k_sp c (k_iw c)")
    case True
    then show ?thesis using good k_fault_core_next_inv[OF inv] by (simp add: branch_outcome_def Let_def)
  next
    case False
    have "paths_ok cfg (warp_paths (branch_outcome c (branch_imm (k_inst c)) tk fl) w)"
      if "w < cfg_warps cfg" "k_valid c w" for w
      using branch_outcome_paths(1)[OF ok core(5)[OF iss] good(2) False] core(1)[OF that]
      by (cases "w = k_iw c") (simp_all add: branch_outcome_fields)
    then show ?thesis unfolding good(3)
      using inv by (intro next_warp_inv) (auto simp: branch_outcome_fields core_inv_def)
  qed
qed

lemma alu_step_inv:
  assumes "core_inv cfg c"
  shows "core_inv cfg (alu_step cfg cid c)"
proof -
  have "core_inv cfg (x_core (exec_lanes cfg cid c))"
    using assms exec_lanes_core by (rule core_inv_only_gpr)
  then show ?thesis unfolding alu_step_def Let_def
    by (intro next_warp_inv) (auto simp: core_inv_def k_fault_core_def warp_paths_def)
qed

lemma exec_step_inv:
  assumes inv: "core_inv cfg c" and iss: "issued c"
  shows "core_inv cfg (exec_step cfg cid c)"
proof -
  have "core_inv cfg ((k_fault_core c)\<lparr>k_state := SCHED\<rparr>)"
    using inv by (simp add: core_inv_def issued_def k_fault_core_def warp_paths_def)
  moreover have "core_inv cfg (c\<lparr>k_mt := 0, k_state := MEM_REQ\<rparr>)"
    using inv iss by (auto simp: core_inv_def issued_def warp_paths_def)
  ultimately show ?thesis
    using ebreak_step_inv[OF inv iss] branch_step_inv[OF inv iss] alu_step_inv[OF inv, of cid]
    by (simp add: exec_step_def Let_def)
qed

lemma mem_advance_inv:
  assumes inv: "core_inv cfg c" and iss: "issued c" and st: "st \<noteq> SCHED"
  shows "core_inv cfg (mem_advance cfg st c)"
proof (cases "k_mt c = cfg_threads cfg - 1")
  case True
  then show ?thesis using inv unfolding mem_advance_def
    by (simp, intro next_warp_inv) (auto simp: core_inv_def warp_paths_def)
next
  case False
  then show ?thesis using inv iss by (auto simp: mem_advance_def core_inv_def issued_def warp_paths_def)
qed

lemma core_step_inv:
  assumes cfg: "simt_config cfg" and inv: "core_inv cfg c"
  shows "core_inv cfg (fst (core_step cfg m c cid fire))"
proof (cases "fire \<or> \<not> k_cta_active c")
  case True
  then show ?thesis using accept_cta_inv[OF cfg inv] inv by (auto simp: core_step_def)
next
  case False
  then have iss: "issued c" if "k_state c \<noteq> SCHED" using that by (simp add: issued_def)
  show ?thesis
  proof (cases "k_state c")
    case SCHED
    then show ?thesis using False sched_step_inv[OF inv] by (simp add: core_step_def)
  next
    case FETCH
    then show ?thesis using False inv
      by (auto simp: core_step_def core_inv_def issued_def warp_paths_def split: prod.splits)
  next
    case EXEC
    then show ?thesis using False exec_step_inv[OF inv] iss by (simp add: core_step_def)
  next
    case MEM_REQ
    have "core_inv cfg (c\<lparr>k_state := MEM_RESP\<rparr>)"
      using inv iss MEM_REQ by (auto simp: core_inv_def issued_def warp_paths_def)
    then show ?thesis using False MEM_REQ mem_advance_inv[OF inv] iss
      by (simp add: core_step_def mem_req_step_def)
  next
    case MEM_RESP
    have "core_inv cfg (mem_advance cfg MEM_REQ c')" if g: "only_gpr c c'" for c'
      using core_inv_only_gpr[OF inv g] iss MEM_RESP only_gpr_fields[OF g]
      by (intro mem_advance_inv) (simp_all add: issued_def)
    then show ?thesis using False MEM_RESP
      by (simp add: core_step_def mem_resp_step_def Let_def split: prod.splits)
  qed
qed

subsection \<open>The divergence stack\<close>

lemma split_needs_room:
  assumes inv: "core_inv cfg c" and iss: "issued c" and m: "branch_masks cfg c = (tk, fl)"
    and split: "tk \<noteq> 0" "fl \<noteq> 0"
  shows "k_sp c (k_iw c) + 2 \<le> cfg_threads cfg"
proof -
  let ?w = "k_iw c"
  let ?rest = "map (k_stack_mask c ?w) [0..<k_sp c ?w]"
  have ok: "paths_ok cfg (k_im c # ?rest)"
    using core_invD[OF inv] iss by (simp add: warp_paths_def)
  then have "mask_lanes (k_im c) \<subseteq> {..<cfg_threads cfg}" by (simp add: paths_ok_def)
  note part = branch_masks_partition[OF this m]
  have "paths_ok cfg (fl # ?rest @ [tk])"
    using paths_ok_split(1)[OF ok, of fl tk] part split by (simp add: Un_commute Int_commute)
  from paths_ok_length[OF this] show ?thesis by simp
qed

subsection \<open>Example state\<close>

text \<open>A default core that has accepted a CTA of 6 threads and issues a \<open>beq\<close> in warp 0.\<close>

definition example_model :: model where
  "example_model = (model_init default_config)\<lparr>m_dim := \<lparr>dim_x = 6, dim_y = 1, dim_z = 1\<rparr>, m_block_size := 6\<rparr>"

text \<open>\<open>beq x1, x0, 8\<close>; lanes 0 and 2 of warp 0 hold 0 in \<open>x1\<close>, lanes 1 and 3 hold 1.\<close>

definition example_branch :: ccore where
  "example_branch = (sched_step default_config (accept_cta default_config example_model core_init))
     \<lparr>k_state := EXEC, k_inst := 0x00008463,
      k_gpr := (\<lambda>x. if x = 1 \<or> x = 3 then (\<lambda>_. 0)(1 := 1) else (\<lambda>_. 0))\<rparr>"

lemma default_simt: "simt_config default_config"
  by (simp add: simt_config_def default_config_def)

lemma example_branch_inv: "core_inv default_config example_branch"
proof -
  have i: "core_inv default_config (sched_step default_config (accept_cta default_config example_model core_init))"
    by (intro sched_step_inv accept_cta_inv default_simt core_inv_init)
  have "k_state (sched_step default_config (accept_cta default_config example_model core_init)) = FETCH"
    by code_simp
  moreover have "k_cta_active (sched_step default_config (accept_cta default_config example_model core_init))"
    by code_simp
  ultimately show ?thesis
    using i by (auto simp: example_branch_def core_inv_def issued_def warp_paths_def)
qed

lemma example_branch_issued: "issued example_branch"
  unfolding issued_def by code_simp

subsection \<open>Properties\<close>

text \<open>
  C5. SIMT path invariant. Every clock of \<open>step_core\<close> keeps: for each valid warp the running
  mask and the deferred masks on its stack are non-empty, pairwise disjoint sets of existing
  lanes; the issued warp is a valid one and its issue mask and pc are the warp's own; all
  indices are in range and \<open>x0\<close> of every lane is zero.
\<close>

theorem simt_invariant:
  assumes "simt_config cfg" and "core_inv cfg c"
  shows "core_inv cfg (fst (core_step cfg m c cid fire))"
  using assms by (rule core_step_inv)

theorem simt_invariant_witness:
  "core_inv default_config (fst (core_step default_config example_model example_branch 0 False))"
  by (rule simt_invariant[OF default_simt example_branch_inv])

text \<open>The condition of a branch at one lane: the comparison of the instruction on its two registers.\<close>

definition lane_takes :: "gpu_config \<Rightarrow> ccore \<Rightarrow> nat \<Rightarrow> bool" where
  "lane_takes cfg c t \<longleftrightarrow> k_take (drop_bit 12 (k_inst c) AND 7)
     (lane_register cfg c t (drop_bit 15 (k_inst c) AND 31))
     (lane_register cfg c t (drop_bit 20 (k_inst c) AND 31))"

lemma branch_masks_lanes:
  assumes "mask_lanes (k_im c) \<subseteq> {..<cfg_threads cfg}" and "branch_masks cfg c = (tk, fl)"
  shows "mask_lanes tk = {t \<in> mask_lanes (k_im c). lane_takes cfg c t}"
    and "mask_lanes fl = {t \<in> mask_lanes (k_im c). \<not> lane_takes cfg c t}"
proof -
  have m: "tk = lanes_where cfg (\<lambda>t. bit (k_im c) t \<and> lane_takes cfg c t)"
    "fl = lanes_where cfg (\<lambda>t. bit (k_im c) t \<and> \<not> lane_takes cfg c t)"
    using assms(2) by (simp_all add: branch_masks_def lane_takes_def Let_def)
  have "j < cfg_threads cfg \<and> j < 32" if "bit (k_im c) j" for j
    using that assms(1) mask_lanes_less[of j "k_im c"] by (auto simp: mask_lanes_def)
  then show "mask_lanes tk = {t \<in> mask_lanes (k_im c). lane_takes cfg c t}"
    and "mask_lanes fl = {t \<in> mask_lanes (k_im c). \<not> lane_takes cfg c t}"
    unfolding m mask_lanes_where by (auto simp: mask_lanes_def)
qed

text \<open>What the path of an issued warp becomes, in the three cases of a branch that does not fault.\<close>

lemma branch_outcome_split:
  assumes "tk \<noteq> 0" "fl \<noteq> 0" "k_sp c (k_iw c) < STACK_DEPTH" "w = k_iw c"
  shows "k_sp (branch_outcome c imm tk fl) w = k_sp c w + 1"
    "k_mask (branch_outcome c imm tk fl) w = fl" "k_pc (branch_outcome c imm tk fl) w = k_ip c + 4"
    "k_stack_mask (branch_outcome c imm tk fl) w = (k_stack_mask c w)(k_sp c w := tk)"
    "k_stack_pc (branch_outcome c imm tk fl) w = (k_stack_pc c w)(k_sp c w := k_ip c + imm)"
  using assms by (simp_all add: branch_outcome_def Let_def)

lemma branch_outcome_uniform:
  assumes "tk = 0 \<or> fl = 0" "w = k_iw c"
  shows "k_sp (branch_outcome c imm tk fl) w = k_sp c w"
    "k_stack_mask (branch_outcome c imm tk fl) w = k_stack_mask c w"
    "k_stack_pc (branch_outcome c imm tk fl) w = k_stack_pc c w"
    "k_pc (branch_outcome c imm tk fl) w = (if tk \<noteq> 0 then k_ip c + imm else k_ip c + 4)"
    "k_mask (branch_outcome c imm tk fl) w = (if tk \<noteq> 0 then tk else fl)"
  using assms by (auto simp: branch_outcome_def Let_def)

text \<open>
  C6. A branch sends every lane one way and loses none. Unless it faults: the running lanes of
  the issued warp are divided by the condition of the branch, the taken mask holds the lanes
  whose registers satisfy it and the fall-through mask the running lanes whose registers do
  not; the paths of the warp are again non-empty, pairwise disjoint sets of existing lanes with
  the union they had before, so that no lane is lost and none runs on two paths. When the lanes
  disagree exactly one path is added, which defers the taken lanes with the branch target while
  the fall-through lanes run on behind the branch; when they agree the stack stays as it is and
  the running path keeps its lanes, at the target or behind the branch.
\<close>

theorem branch_conserves_lanes:
  assumes "core_inv cfg c" and "issued c" and "branch_masks cfg c = (tk, fl)"
    and "\<not> k_fault (branch_step cfg c)" and "w = k_iw c"
  shows "mask_lanes tk = {t \<in> mask_lanes (k_mask c w). lane_takes cfg c t} \<and>
    mask_lanes fl = {t \<in> mask_lanes (k_mask c w). \<not> lane_takes cfg c t} \<and>
    paths_ok cfg (warp_paths (branch_step cfg c) w) \<and>
    path_lanes (warp_paths (branch_step cfg c) w) = path_lanes (warp_paths c w) \<and>
    (tk \<noteq> 0 \<and> fl \<noteq> 0 \<longrightarrow>
       k_sp (branch_step cfg c) w = k_sp c w + 1 \<and>
       k_mask (branch_step cfg c) w = fl \<and> k_pc (branch_step cfg c) w = k_ip c + 4 \<and>
       k_stack_mask (branch_step cfg c) w = (k_stack_mask c w)(k_sp c w := tk) \<and>
       k_stack_pc (branch_step cfg c) w = (k_stack_pc c w)(k_sp c w := k_ip c + branch_imm (k_inst c))) \<and>
    (tk = 0 \<or> fl = 0 \<longrightarrow>
       k_sp (branch_step cfg c) w = k_sp c w \<and> k_mask (branch_step cfg c) w = k_mask c w \<and>
       k_stack_mask (branch_step cfg c) w = k_stack_mask c w \<and> k_stack_pc (branch_step cfg c) w = k_stack_pc c w \<and>
       k_pc (branch_step cfg c) w = (if tk \<noteq> 0 then k_ip c + branch_imm (k_inst c) else k_ip c + 4))"
proof (cases rule: branch_step_cases[where cfg = cfg and c = c])
  case bad
  then show ?thesis using assms(4) by (simp add: next_warp_def k_fault_core_def)
next
  case (good tk' fl')
  then have eq: "tk' = tk" "fl' = fl" using assms(3) by simp_all
  let ?o = "branch_outcome c (branch_imm (k_inst c)) tk fl"
  have room: "\<not> (tk \<noteq> 0 \<and> fl \<noteq> 0 \<and> STACK_DEPTH \<le> k_sp c (k_iw c))"
    using assms(4) good(3) eq by (auto simp: branch_outcome_def next_warp_def k_fault_core_def Let_def)
  have im: "k_im c = k_mask c w"
    using core_invD(5)[OF assms(1,2)] assms(5) by simp
  have ok: "paths_ok cfg (warp_paths c (k_iw c))"
    by (rule core_invD(1)[OF assms(1) core_invD(2)[OF assms(1)] core_invD(4)[OF assms(1,2)]])
  then have "mask_lanes (k_im c) \<subseteq> {..<cfg_threads cfg}"
    using im assms(5) by (simp add: warp_paths_def paths_ok_def)
  note lanes = branch_masks_lanes[OF this assms(3)]
  have "(if tk \<noteq> 0 then tk else fl) = k_mask c w" if "tk = 0 \<or> fl = 0"
    using lanes that unfolding im
    by (intro bit_word_eqI) (auto simp: mask_lanes_def set_eq_iff)
  moreover have "warp_paths (branch_step cfg c) = warp_paths ?o"
    using good(3) eq by (simp add: next_warp_def warp_paths_def fun_eq_iff)
  moreover have "k_sp c w < STACK_DEPTH" if "tk \<noteq> 0" "fl \<noteq> 0"
    using room that assms(5) by simp
  ultimately show ?thesis
    using lanes branch_outcome_paths[OF ok core_invD(5)[OF assms(1,2)] assms(3) room]
      branch_outcome_split[of tk fl c w] branch_outcome_uniform[of tk fl w c] good(3) eq assms(5)
    unfolding im by (cases "tk = 0 \<or> fl = 0") (simp_all add: next_warp_def)
qed

theorem branch_conserves_lanes_witness:
  "path_lanes (warp_paths (branch_step default_config example_branch) 0) = path_lanes (warp_paths example_branch 0)
   \<and> k_sp (branch_step default_config example_branch) 0 = 1
   \<and> k_mask (branch_step default_config example_branch) 0 = 10
   \<and> k_stack_mask (branch_step default_config example_branch) 0 0 = 5
   \<and> {t \<in> mask_lanes (k_mask example_branch 0). lane_takes default_config example_branch t} = mask_lanes 5"
proof -
  have m: "branch_masks default_config example_branch = (5, 10)" by code_simp
  have f: "\<not> k_fault (branch_step default_config example_branch)" by code_simp
  have w: "0 = k_iw example_branch" and s: "k_sp example_branch 0 = 0" by code_simp+
  from branch_conserves_lanes[OF example_branch_inv example_branch_issued m f w]
  show ?thesis by (simp add: s)
qed



text \<open>
  C8. No divergence-stack overflow on narrow warps. With at most nine threads per warp a
  legal branch never faults: the eight-entry stack of deferred paths is always deep enough,
  because every path holds a lane of its own.
\<close>

theorem divergence_stack_never_overflows:
  assumes "core_inv cfg c" and "issued c" and "cfg_threads cfg \<le> 9" and "branch_good c"
  shows "k_fault (branch_step cfg c) = k_fault c"
proof (cases rule: branch_step_cases[where cfg = cfg and c = c])
  case bad
  then show ?thesis using assms(4) by simp
next
  case (good tk fl)
  then show ?thesis
    using split_needs_room[OF assms(1,2) good(2)] assms(3)
    by (auto simp: branch_outcome_def next_warp_def STACK_DEPTH_def Let_def)
qed

theorem divergence_stack_never_overflows_witness:
  "k_fault (branch_step default_config example_branch) = k_fault example_branch"
proof -
  have "branch_good example_branch" by code_simp
  then show ?thesis
    by (intro divergence_stack_never_overflows example_branch_inv example_branch_issued)
      (simp_all add: default_config_def)
qed

end
