(* ===== verification/Kmu_Props.thy ===== *)
theory Kmu_Props
  imports Cycle_Kmu Cycle_Props
begin

text \<open>
  Properties of the thread-block dispatcher of the cycle model: it hands out the blocks of
  the grid in X, Y, Z order, each one once, to the first ready core in cyclic order, and it
  stops running exactly when the grid is exhausted.
\<close>

subsection \<open>The block counter\<close>

lemma inc_eq_iff: "a < b \<Longrightarrow> a + 1 = b \<longleftrightarrow> Suc (unat a) = unat (b :: u32)"
  using unat_inc_u32[of a b] by (metis word_unat_eq_iff)

lemma inc_less: "a < b \<Longrightarrow> a + 1 \<noteq> b \<Longrightarrow> a + 1 < (b :: u32)"
  using unat_inc_u32[of a b] inc_eq_iff[of a b] by (simp add: word_less_nat_alt)

lemma dim_linear_less: "dim_inside d i \<Longrightarrow> dim_linear d i < dim_volume d"
proof -
  assume "dim_inside d i"
  then have l: "unat (dim_x i) < unat (dim_x d)" "unat (dim_y i) < unat (dim_y d)"
      "unat (dim_z i) < unat (dim_z d)"
    by (auto simp: dim_inside_def word_less_nat_alt)
  have "unat (dim_z i) * unat (dim_y d) + unat (dim_y i) < unat (dim_z d) * unat (dim_y d)"
    using l(2) mult_le_mono1[of "Suc (unat (dim_z i))" "unat (dim_z d)" "unat (dim_y d)"] l(3) by simp
  then have "Suc (unat (dim_z i) * unat (dim_y d) + unat (dim_y i)) * unat (dim_x d)
      \<le> unat (dim_z d) * unat (dim_y d) * unat (dim_x d)"
    by (intro mult_le_mono1) simp
  then show ?thesis using l(1) by (simp add: dim_linear_def dim_volume_def ac_simps)
qed

lemma kmu_advance_linear:
  assumes "dim_inside g b" and "kmu_advance g b = (b', left)"
  shows "if left then dim_inside g b' \<and> dim_linear g b' = Suc (dim_linear g b)
         else Suc (dim_linear g b) = dim_volume g"
proof -
  have l: "dim_x b < dim_x g" "dim_y b < dim_y g" "dim_z b < dim_z g"
    using assms(1) by (auto simp: dim_inside_def)
  have z: "0 < dim_x g" "0 < dim_y g" using l by (auto intro: le_less_trans[OF word_zero_le])
  note inc = inc_eq_iff[OF l(1)] inc_eq_iff[OF l(2)] inc_eq_iff[OF l(3)]
  note nat = unat_inc_u32[OF l(1)] unat_inc_u32[OF l(2)] unat_inc_u32[OF l(3)]
  consider (x) "dim_x b + 1 \<noteq> dim_x g" | (y) "dim_x b + 1 = dim_x g" "dim_y b + 1 \<noteq> dim_y g"
    | (z) "dim_x b + 1 = dim_x g" "dim_y b + 1 = dim_y g" "dim_z b + 1 \<noteq> dim_z g"
    | (last) "dim_x b + 1 = dim_x g" "dim_y b + 1 = dim_y g" "dim_z b + 1 = dim_z g" by blast
  then show ?thesis
  proof cases
    case x
    then show ?thesis using assms l inc_less[OF l(1)] nat
      by (auto simp: kmu_advance_def dim_inside_def dim_linear_def)
  next
    case y
    then show ?thesis using assms l inc_less[OF l(2)] nat z inc
      by (auto simp: kmu_advance_def dim_inside_def dim_linear_def algebra_simps)
  next
    case z': z
    then show ?thesis using assms l inc_less[OF l(3)] nat z inc
      by (auto simp: kmu_advance_def dim_inside_def dim_linear_def algebra_simps)
  next
    case last
    then have e: "unat (dim_x g) = Suc (unat (dim_x b))" "unat (dim_y g) = Suc (unat (dim_y b))"
        "unat (dim_z g) = Suc (unat (dim_z b))" using inc by auto
    from last show ?thesis using assms
      by (auto simp: kmu_advance_def dim_linear_def dim_volume_def e algebra_simps)
  qed
qed

subsection \<open>What a clock step leaves alone\<close>

definition only_shadow :: "model \<Rightarrow> model \<Rightarrow> bool" where
  "only_shadow a b \<longleftrightarrow> b = a\<lparr>m_failed := m_failed b, m_mem := m_mem b, m_dirty := m_dirty b\<rparr>"

lemma only_shadow_refl [simp]: "only_shadow m m"
  by (simp add: only_shadow_def)

lemma only_shadow_trans: "only_shadow a b \<Longrightarrow> only_shadow b c \<Longrightarrow> only_shadow a c"
  unfolding only_shadow_def by (cases a; cases b; cases c) simp

lemma store_ref_byte_shadow: "only_shadow m (store_ref_byte cfg s m b)"
  by (simp add: only_shadow_def store_ref_byte_def Let_def)

lemma foldl_store_ref_byte_shadow: "only_shadow m (foldl (store_ref_byte cfg s) m bs)"
  by (induction bs arbitrary: m) (auto intro: only_shadow_trans store_ref_byte_shadow)

lemma store_ref_shadow: "only_shadow m (store_ref cfg s m)"
  by (simp add: store_ref_def foldl_store_ref_byte_shadow)

lemma store_refs_shadow: "only_shadow m (foldl (\<lambda>m s. store_ref cfg s m) m ss)"
  by (induction ss arbitrary: m) (auto intro: only_shadow_trans store_ref_shadow)

lemma only_shadow_fields:
  assumes "only_shadow a b"
  shows "m_startup b = m_startup a" "m_args b = m_args a" "m_args_size b = m_args_size a"
    "m_dim b = m_dim a" "m_grid b = m_grid a" "m_block_size b = m_block_size a" "m_block b = m_block a"
    "m_running b = m_running a" "m_rr b = m_rr a" "m_reset b = m_reset a"
    "m_dcr_valid b = m_dcr_valid a" "m_launch b = m_launch a" "m_active b = m_active a"
    "m_cores b = m_cores a" "m_size b = m_size a" "m_expected b = m_expected a" "m_actual b = m_actual a"
    "m_cycle b = m_cycle a"
  by (subst assms[unfolded only_shadow_def], simp)+

lemmas store_refs_fields [simp] = only_shadow_fields[OF store_refs_shadow]

lemma pack_fields [simp]:
  "m_startup (pack cfg m) = m_startup m" "m_args (pack cfg m) = m_args m"
  "m_dim (pack cfg m) = m_dim m" "m_grid (pack cfg m) = m_grid m"
  "m_block_size (pack cfg m) = m_block_size m" "m_block (pack cfg m) = m_block m"
  "m_running (pack cfg m) = m_running m" "m_rr (pack cfg m) = m_rr m"
  "m_reset (pack cfg m) = m_reset m" "m_dcr_valid (pack cfg m) = m_dcr_valid m"
  "m_launch (pack cfg m) = m_launch m" "m_active (pack cfg m) = m_active m"
  "m_cores (pack cfg m) = m_cores m" "m_mem (pack cfg m) = m_mem m" "m_size (pack cfg m) = m_size m"
  "m_expected (pack cfg m) = m_expected m" "m_actual (pack cfg m) = m_actual m"
  "m_dirty (pack cfg m) = m_dirty m" "m_cycle (pack cfg m) = m_cycle m"
  by (simp_all add: pack_def)

text \<open>The inputs of a cycle in which the host does nothing.\<close>

definition kmu_idle :: "model \<Rightarrow> bool" where
  "kmu_idle m \<longleftrightarrow> \<not> m_reset m \<and> \<not> m_dcr_valid m \<and> \<not> m_launch m"

lemma step_cores_fields [simp]:
  "m_grid (step_cores cfg fire sel m) = m_grid m" "m_block (step_cores cfg fire sel m) = m_block m"
  "m_running (step_cores cfg fire sel m) = m_running m" "m_rr (step_cores cfg fire sel m) = m_rr m"
  "m_reset (step_cores cfg fire sel m) = m_reset m" "m_launch (step_cores cfg fire sel m) = m_launch m"
  "m_dcr_valid (step_cores cfg fire sel m) = m_dcr_valid m" "m_mem (step_cores cfg fire sel m) = m_mem m"
  "m_size (step_cores cfg fire sel m) = m_size m" "m_dirty (step_cores cfg fire sel m) = m_dirty m"
  "m_active (step_cores cfg fire sel m) = m_active m" "m_actual (step_cores cfg fire sel m) = m_actual m"
  "m_block_size (step_cores cfg fire sel m) = m_block_size m"
  by (simp_all add: step_cores_def Let_def)

lemma core_step_clear [simp]:
  "core_step cfg (m\<lparr>m_expected := e, m_dirty := d\<rparr>) c i fire = core_step cfg m c i fire"
  by (simp add: core_step_def accept_cta_def mem_resp_step_def load_value_def load32_def Let_def
      split: core_state.split)

lemma core_ready_clear [simp]:
  "cores_where cfg p (m\<lparr>m_expected := e, m_dirty := d\<rparr>) = cores_where cfg p m"
  "pick_core cfg (m\<lparr>m_expected := e, m_dirty := d\<rparr>) = pick_core cfg m"
  "selected_core cfg (m\<lparr>m_expected := e, m_dirty := d\<rparr>) = selected_core cfg m"
  "kmu_fire cfg (m\<lparr>m_expected := e, m_dirty := d\<rparr>) = kmu_fire cfg m"
  by (simp_all add: cores_where_def pick_core_def selected_core_def kmu_fire_def)

lemma step_idle:
  assumes "kmu_idle m"
  shows "m_grid (cycle_diff_step cfg m) = m_grid m" and "kmu_idle (cycle_diff_step cfg m)"
    and "m_block (cycle_diff_step cfg m) =
      (if kmu_fire cfg m then fst (kmu_advance (m_grid m) (m_block m)) else m_block m)"
    and "m_running (cycle_diff_step cfg m) \<longleftrightarrow>
      m_running m \<and> (kmu_fire cfg m \<longrightarrow> snd (kmu_advance (m_grid m) (m_block m)))"
    and "m_cores (cycle_diff_step cfg m) =
      map (\<lambda>i. fst (core_step cfg m (m_cores m ! i) i (kmu_fire cfg m \<and> i = selected_core cfg m)))
          [0..<cfg_cores cfg]"
  using assms
  by (auto simp: kmu_idle_def cycle_diff_step_def Let_def kmu_dcr_write_def kmu_control_def
      step_cores_def split: prod.splits)

lemma step_idle_core:
  "kmu_idle m \<Longrightarrow> i < cfg_cores cfg \<Longrightarrow> m_cores (cycle_diff_step cfg m) ! i =
     fst (core_step cfg m (m_cores m ! i) i (kmu_fire cfg m \<and> i = selected_core cfg m))"
  by (simp add: step_idle(5))

lemma core_step_fire [simp]: "core_step cfg m c i True = (accept_cta cfg m c, False)"
  by (simp add: core_step_def)

subsection \<open>Selection of a core\<close>

lemma bit_cores_where:
  "bit (cores_where cfg p m) x \<longleftrightarrow> x < cfg_cores cfg \<and> x < 32 \<and> p (m_cores m ! x)"
  by (auto simp: cores_where_def bit_fold_lanes)

lemma pick_core_Some:
  assumes "pick_core cfg m = Some x"
  shows "x < cfg_cores cfg" "core_ready (m_cores m ! x)"
  using assms by (auto simp: pick_core_def find_Some_iff bit_cores_where)

lemma pick_core_None:
  assumes "cfg_cores cfg \<le> 32" and "m_rr m < cfg_cores cfg"
  shows "pick_core cfg m = None \<longleftrightarrow> (\<forall>x < cfg_cores cfg. \<not> core_ready (m_cores m ! x))"
proof -
  let ?n = "cfg_cores cfg"
  have "\<exists>i < ?n. x = (m_rr m + i) mod ?n" if "x < ?n" for x
  proof (intro exI conjI)
    show "(x + (?n - m_rr m)) mod ?n < ?n" using that by simp
    have "(m_rr m + (x + (?n - m_rr m)) mod ?n) mod ?n = (m_rr m + (x + (?n - m_rr m))) mod ?n"
      by (simp add: mod_simps)
    also have "\<dots> = x" using assms(2) that by simp
    finally show "x = (m_rr m + (x + (?n - m_rr m)) mod ?n) mod ?n" by simp
  qed
  then have "set (map (\<lambda>i. (m_rr m + i) mod ?n) [0..<?n]) = {..<?n}"
    using assms(2) by (fastforce simp: image_iff)
  then show ?thesis
    using assms(1) by (auto simp: pick_core_def find_None_iff bit_cores_where)
qed

subsection \<open>The log of dispatches\<close>

text \<open>The blocks that the dispatcher hands out in \<open>n\<close> clock steps without host inputs.\<close>

fun dispatch_log :: "gpu_config \<Rightarrow> nat \<Rightarrow> model \<Rightarrow> dim3 list" where
  "dispatch_log cfg 0 m = []"
| "dispatch_log cfg (Suc n) m =
     (if kmu_fire cfg m then [m_block m] else []) @ dispatch_log cfg n (cycle_diff_step cfg m)"

definition kmu_pos :: "model \<Rightarrow> nat" where
  "kmu_pos m = (if m_running m then dim_linear (m_grid m) (m_block m) else dim_volume (m_grid m))"

definition kmu_ok :: "model \<Rightarrow> bool" where
  "kmu_ok m \<longleftrightarrow> kmu_idle m \<and> (m_running m \<longrightarrow> dim_inside (m_grid m) (m_block m))"

lemma kmu_pos_le: "kmu_ok m \<Longrightarrow> kmu_pos m \<le> dim_volume (m_grid m)"
  using dim_linear_less[of "m_grid m" "m_block m"] by (auto simp: kmu_pos_def kmu_ok_def)

lemma kmu_pos_running: "kmu_ok m \<Longrightarrow> m_running m \<longleftrightarrow> kmu_pos m < dim_volume (m_grid m)"
  using dim_linear_less[of "m_grid m" "m_block m"] by (auto simp: kmu_pos_def kmu_ok_def)

lemma kmu_step_ok:
  assumes "kmu_ok m"
  shows "kmu_ok (cycle_diff_step cfg m)"
    and "kmu_pos (cycle_diff_step cfg m) = (if kmu_fire cfg m then Suc (kmu_pos m) else kmu_pos m)"
proof -
  have idle: "kmu_idle m" using assms by (simp add: kmu_ok_def)
  obtain b left where adv: "kmu_advance (m_grid m) (m_block m) = (b, left)" by force
  have run: "m_running m" if "kmu_fire cfg m" using that by (simp add: kmu_fire_def)
  note lin = kmu_advance_linear[OF _ adv]
  show "kmu_ok (cycle_diff_step cfg m)"
    using assms idle run lin adv
    by (cases left; cases "kmu_fire cfg m") (auto simp: kmu_ok_def step_idle[OF idle])
  show "kmu_pos (cycle_diff_step cfg m) = (if kmu_fire cfg m then Suc (kmu_pos m) else kmu_pos m)"
    using assms idle run lin adv
    by (cases left; cases "kmu_fire cfg m") (auto simp: kmu_ok_def kmu_pos_def step_idle[OF idle])
qed

lemma dispatch_log_range:
  "kmu_ok m \<Longrightarrow>
   map (dim_linear (m_grid m)) (dispatch_log cfg n m) = [kmu_pos m..<kmu_pos ((cycle_diff_step cfg ^^ n) m)] \<and>
   kmu_pos m \<le> kmu_pos ((cycle_diff_step cfg ^^ n) m) \<and> kmu_ok ((cycle_diff_step cfg ^^ n) m) \<and>
   m_grid ((cycle_diff_step cfg ^^ n) m) = m_grid m \<and>
   (\<forall>b \<in> set (dispatch_log cfg n m). dim_inside (m_grid m) b)"
proof (induction n arbitrary: m)
  case 0
  then show ?case by simp
next
  case (Suc n)
  let ?m = "cycle_diff_step cfg m"
  have g: "m_grid ?m = m_grid m" using Suc.prems by (intro step_idle(1)) (simp add: kmu_ok_def)
  note IH = Suc.IH[OF kmu_step_ok(1)[OF Suc.prems], of cfg, unfolded g]
  have sh: "(cycle_diff_step cfg ^^ Suc n) m = (cycle_diff_step cfg ^^ n) ?m"
    by (simp add: funpow_swap1)
  have fire: "m_running m \<and> dim_inside (m_grid m) (m_block m) \<and> dim_linear (m_grid m) (m_block m) = kmu_pos m"
    if "kmu_fire cfg m"
    using that Suc.prems by (simp add: kmu_fire_def kmu_ok_def kmu_pos_def)
  show ?case
    using IH kmu_step_ok(2)[OF Suc.prems, of cfg] fire unfolding sh
    by (cases "kmu_fire cfg m") (auto simp: upt_conv_Cons)
qed

subsection \<open>Properties\<close>

lemma example_kmu:
  "kmu_ok ((cycle_diff_init default_config)\<lparr>m_running := True, m_grid := \<lparr>dim_x = 2, dim_y = 2, dim_z = 1\<rparr>\<rparr>)"
  by (simp add: kmu_ok_def kmu_idle_def cycle_diff_init_def model_init_def pack_def dim_inside_def dim_zeros_def)

text \<open>
  C9. From the state after a launch, and with no host inputs, the blocks handed out in any
  number of clock steps are the blocks 0, 1, 2, ... of the grid in X, Y, Z order, each one
  once and inside the grid; the dispatcher is still running exactly while some block of
  the grid has not been handed out.
\<close>

theorem kmu_walks_the_grid:
  assumes "kmu_idle m" and "m_running m" and "m_block m = dim_zeros" and "dim_positive (m_grid m)"
  shows "map (dim_linear (m_grid m)) (dispatch_log cfg n m) = [0..<length (dispatch_log cfg n m)] \<and>
    (\<forall>b \<in> set (dispatch_log cfg n m). dim_inside (m_grid m) b) \<and>
    length (dispatch_log cfg n m) \<le> dim_volume (m_grid m) \<and>
    (m_running ((cycle_diff_step cfg ^^ n) m) \<longleftrightarrow> length (dispatch_log cfg n m) < dim_volume (m_grid m))"
proof -
  let ?f = "(cycle_diff_step cfg ^^ n) m" and ?log = "dispatch_log cfg n m"
  have ok: "kmu_ok m"
    using assms by (auto simp: kmu_ok_def dim_inside_def dim_zeros_def dim_positive_def word_gt_0)
  have p: "kmu_pos m = 0" using assms by (simp add: kmu_pos_def dim_linear_def dim_zeros_def)
  note r = dispatch_log_range[OF ok, of cfg n]
  then have "length ?log = kmu_pos ?f" using p by (metis length_map length_upt minus_nat.diff_0)
  then show ?thesis
    using r p kmu_pos_le[of ?f] kmu_pos_running[of ?f] by simp
qed

theorem kmu_walks_the_grid_witness:
  "let m = (cycle_diff_init default_config)\<lparr>m_running := True, m_grid := \<lparr>dim_x = 2, dim_y = 2, dim_z = 1\<rparr>\<rparr>
   in length (dispatch_log default_config 5 m) \<le> 4"
proof -
  let ?m = "(cycle_diff_init default_config)\<lparr>m_running := True, m_grid := \<lparr>dim_x = 2, dim_y = 2, dim_z = 1\<rparr>\<rparr>"
  have "length (dispatch_log default_config 5 ?m) \<le> dim_volume (m_grid ?m)"
    using kmu_walks_the_grid[of ?m default_config 5] example_kmu
    by (simp add: kmu_ok_def cycle_diff_init_def model_init_def dim_positive_def)
  then show ?thesis by (simp add: dim_volume_def Let_def)
qed

text \<open>
  C10. A dispatch happens whenever blocks are left and some core is ready. It goes to a
  ready core, which takes over the coordinates, sizes and argument pointer of the current
  block and starts every lane of the block at the entry point; no other core accepts it.
\<close>

theorem kmu_dispatch_delivers:
  assumes "kmu_idle m" and "m_running m" and "length (m_cores m) = cfg_cores cfg"
    and "cfg_cores cfg \<le> 32" and "m_rr m < cfg_cores cfg"
    and "\<exists>x < cfg_cores cfg. core_ready (m_cores m ! x)"
  shows "let s = selected_core cfg m; m' = cycle_diff_step cfg m; c = m_cores m' ! s in
    s < cfg_cores cfg \<and> core_ready (m_cores m ! s) \<and>
    k_cta_active c \<and> k_block c = m_block m \<and> k_dim c = m_dim m \<and> k_grid c = m_grid m \<and>
    k_args c = m_args m \<and> (\<forall>w < cfg_warps cfg. k_pc c w = m_startup m \<and> k_sp c w = 0) \<and>
    (\<forall>i < cfg_cores cfg. i \<noteq> s \<longrightarrow>
       m_cores m' ! i = fst (core_step cfg m (m_cores m ! i) i False)) \<and>
    m_rr m' = (if s = cfg_cores cfg - 1 then 0 else s + 1)"
proof -
  obtain s where s: "pick_core cfg m = Some s"
    using pick_core_None[OF assms(4,5)] assms(6) by (cases "pick_core cfg m") auto
  then have fire: "kmu_fire cfg m" and sel: "selected_core cfg m = s"
    using assms(2) by (simp_all add: kmu_fire_def selected_core_def)
  have "m_rr (cycle_diff_step cfg m) = (if s = cfg_cores cfg - 1 then 0 else s + 1)"
    using assms(1) fire sel
    by (simp add: kmu_idle_def cycle_diff_step_def Let_def kmu_dcr_write_def kmu_control_def
        split: prod.splits)
  then show ?thesis
    using pick_core_Some[OF s] fire
    by (simp add: Let_def sel step_idle_core[OF assms(1)] accept_cta_def upd_below_def)
qed

theorem kmu_dispatch_delivers_witness:
  "let m = (cycle_diff_init default_config)\<lparr>m_running := True, m_grid := \<lparr>dim_x = 2, dim_y = 2, dim_z = 1\<rparr>\<rparr>
   in m_rr (cycle_diff_step default_config m) = 1"
proof -
  let ?m = "(cycle_diff_init default_config)\<lparr>m_running := True, m_grid := \<lparr>dim_x = 2, dim_y = 2, dim_z = 1\<rparr>\<rparr>"
  have sel: "selected_core default_config ?m = 0" by code_simp
  have "\<exists>x < cfg_cores default_config. core_ready (m_cores ?m ! x)" by (rule exI[of _ 0]) code_simp
  then show ?thesis
    using kmu_dispatch_delivers[of ?m default_config] example_kmu sel
    by (simp add: kmu_ok_def cycle_diff_init_def model_init_def default_config_def Let_def)
qed

end
