(* ===== verification/Diff_Props.thy ===== *)
theory Diff_Props
  imports Kmu_Props "HOL-Library.Multiset"
begin

text \<open>
  Properties of the comparison hooks of the cycle model: what the equality of the packed
  word vectors means, the layout of that vector, the comparison of store transactions and
  the equivalence of the incremental memory check with the full one.
\<close>

subsection \<open>Blocks of equal length\<close>

lemma concat_blocks_nth:
  "(\<forall>xs \<in> set xss. length xs = n) \<Longrightarrow> i < length xss \<Longrightarrow> j < n \<Longrightarrow> concat xss ! (i * n + j) = xss ! i ! j"
proof (induction xss arbitrary: i)
  case Nil
  then show ?case by simp
next
  case (Cons xs xss)
  show ?case
  proof (cases i)
    case 0
    then show ?thesis using Cons.prems by (simp add: nth_append)
  next
    case (Suc k)
    have "Suc k * n + j = length xs + (k * n + j)" using Cons.prems(1) by simp
    then have "(xs @ concat xss) ! (Suc k * n + j) = concat xss ! (k * n + j)"
      by (metis nth_append_length_plus)
    then show ?thesis using Cons Suc by simp
  qed
qed

lemma length_concat_blocks: "(\<forall>xs \<in> set xss. length xs = n) \<Longrightarrow> length (concat xss) = length xss * n"
  by (induction xss) auto

lemma concat_blocks_inject:
  "concat xss = concat yss \<Longrightarrow> length xss = length yss \<Longrightarrow> \<forall>xs \<in> set xss. length xs = n \<Longrightarrow>
   \<forall>ys \<in> set yss. length ys = n \<Longrightarrow> xss = yss"
proof (induction xss arbitrary: yss)
  case Nil
  then show ?case by simp
next
  case (Cons xs xss)
  then obtain ys zss where "yss = ys # zss" by (cases yss) auto
  then show ?case using Cons by auto
qed

subsection \<open>Lengths of the packed blocks\<close>

lemma length_dmem_words [simp]: "length (fst (dmem_words cfg m c)) = 6"
  by (simp add: dmem_words_def Let_def split: prod.splits)

lemma length_dim_words [simp]: "length (dim_words d) = 3"
  by (simp add: dim_words_def)

lemma length_core_head [simp]: "length (core_head cfg m c) = 28"
  by (simp add: core_head_def)

lemma length_warp_words [simp]: "length (warp_words c w) = 20"
  by (simp add: warp_words_def length_concat_blocks[where n = 2] STACK_DEPTH_def)

lemma length_lane_words [simp]: "length (lane_words c x) = 20"
  by (simp add: lane_words_def)

lemma length_pack_core [simp]: "length (pack_core cfg m c) = core_words cfg"
  by (simp add: pack_core_def core_words_def length_concat_blocks[where n = 20])

lemma length_pack_top [simp]: "length (pack_top cfg m) = 23"
  by (simp add: pack_top_def Let_def)

lemma length_packed:
  "length (m_cores m) = cfg_cores cfg \<Longrightarrow> length (m_packed (pack cfg m)) = total_words cfg"
  by (simp add: pack_def total_words_def length_concat_blocks[where n = "core_words cfg"])

text \<open>The word at offset \<open>o\<close> of the block of core \<open>ci\<close>.\<close>

lemma packed_core_word:
  assumes "ci < length (m_cores m)" and "j < core_words cfg"
  shows "m_packed (pack cfg m) ! (23 + ci * core_words cfg + j) = pack_core cfg m (m_cores m ! ci) ! j"
proof -
  let ?b = "map (pack_core cfg m) (m_cores m)"
  have "m_packed (pack cfg m) ! (23 + (ci * core_words cfg + j)) = concat ?b ! (ci * core_words cfg + j)"
    using nth_append_length_plus[of "pack_top cfg m" "concat ?b"] by (simp add: pack_def)
  then show ?thesis
    using assms concat_blocks_nth[of ?b "core_words cfg" ci j] by (simp add: add.assoc)
qed

lemma pack_core_warp_word:
  assumes "w < cfg_warps cfg" and "f < 20"
  shows "pack_core cfg m c ! (28 + 20 * w + f) = warp_words c w ! f"
proof -
  let ?b = "map (warp_words c) [0..<cfg_warps cfg]"
  have "length (concat ?b) = cfg_warps cfg * 20" by (simp add: length_concat_blocks[where n = 20])
  moreover have "w * 20 + f < cfg_warps cfg * 20" using assms by simp
  ultimately have "pack_core cfg m c ! (28 + (w * 20 + f)) = concat ?b ! (w * 20 + f)"
    using nth_append_length_plus[of "core_head cfg m c"] by (simp add: pack_core_def nth_append)
  then show ?thesis
    using assms concat_blocks_nth[of ?b 20 w f] by (simp add: ac_simps)
qed

lemma pack_core_lane_word:
  assumes "x < cfg_warps cfg * cfg_threads cfg" and "f < 20"
  shows "pack_core cfg m c ! (28 + 20 * cfg_warps cfg + 20 * x + f) = lane_words c x ! f"
proof -
  let ?w = "map (warp_words c) [0..<cfg_warps cfg]"
  let ?b = "map (lane_words c) [0..<cfg_warps cfg * cfg_threads cfg]"
  have "length (core_head cfg m c @ concat ?w) = 28 + 20 * cfg_warps cfg"
    by (simp add: length_concat_blocks[where n = 20])
  then have "pack_core cfg m c ! ((28 + 20 * cfg_warps cfg) + (x * 20 + f)) = concat ?b ! (x * 20 + f)"
    using nth_append_length_plus[of "core_head cfg m c @ concat ?w" "concat ?b" "x * 20 + f"]
    by (simp add: pack_core_def)
  then show ?thesis
    using assms concat_blocks_nth[of ?b 20 x f] by (simp add: ac_simps)
qed

lemma field_index:
  assumes "j < core_words cfg"
  shows "(23 + ci * core_words cfg + j - 23) div core_words cfg = ci"
    and "(23 + ci * core_words cfg + j - 23) mod core_words cfg = j"
  using assms by simp_all

lemma nth_lane_words_gpr: "r < 16 \<Longrightarrow> lane_words c x ! (4 + r) = k_gpr c x (of_nat r)"
  by (simp add: lane_words_def nth_append del: append_Cons)

subsection \<open>Cores with the same visible state\<close>

text \<open>
  The counters and indices of a core (\<open>rr\<close>, \<open>iw\<close>, \<open>mt\<close>, \<open>sp\<close>) and the \<open>rr\<close> of the dispatcher are
  \<open>uint32_t\<close> in the code and natural numbers in the model, so two of them are the same when their
  32-bit values are.
\<close>

definition same_u32 :: "nat \<Rightarrow> nat \<Rightarrow> bool" where
  "same_u32 a b \<longleftrightarrow> (of_nat a :: u32) = of_nat b"

lemma same_u32_eq: "same_u32 a b \<Longrightarrow> a < 2 ^ 32 \<Longrightarrow> b < 2 ^ 32 \<Longrightarrow> a = b"
  unfolding same_u32_def by (metis unat_of_nat_u32)

definition same_warps :: "gpu_config \<Rightarrow> ccore \<Rightarrow> ccore \<Rightarrow> bool" where
  "same_warps cfg c d \<longleftrightarrow> (\<forall>w < cfg_warps cfg.
     k_valid c w = k_valid d w \<and> k_pc c w = k_pc d w \<and> k_mask c w = k_mask d w \<and>
     same_u32 (k_sp c w) (k_sp d w) \<and>
     (\<forall>s < STACK_DEPTH. k_stack_pc c w s = k_stack_pc d w s \<and> k_stack_mask c w s = k_stack_mask d w s))"

definition same_lanes :: "gpu_config \<Rightarrow> ccore \<Rightarrow> ccore \<Rightarrow> bool" where
  "same_lanes cfg c d \<longleftrightarrow> (\<forall>x < cfg_warps cfg * cfg_threads cfg.
     k_tx c x = k_tx d x \<and> k_ty c x = k_ty d x \<and> k_tz c x = k_tz d x \<and> k_gid c x = k_gid d x \<and>
     k_gpr c x = k_gpr d x)"

definition same_control :: "ccore \<Rightarrow> ccore \<Rightarrow> bool" where
  "same_control c d \<longleftrightarrow> k_state c = k_state d \<and> k_cta_active c = k_cta_active d \<and>
     k_fault c = k_fault d \<and> same_u32 (k_rr c) (k_rr d) \<and> same_u32 (k_iw c) (k_iw d) \<and>
     k_im c = k_im d \<and> k_ip c = k_ip d \<and> k_inst c = k_inst d \<and> same_u32 (k_mt c) (k_mt d) \<and>
     k_block c = k_block d \<and> k_dim c = k_dim d \<and> k_grid c = k_grid d \<and> k_args c = k_args d"

text \<open>The launch registers and the grid walker of the dispatcher.\<close>

definition same_kmu :: "model \<Rightarrow> model \<Rightarrow> bool" where
  "same_kmu m n \<longleftrightarrow> m_startup m = m_startup n \<and> m_args m = m_args n \<and> m_args_size m = m_args_size n \<and>
     m_dim m = m_dim n \<and> m_grid m = m_grid n \<and> m_block_size m = m_block_size n \<and>
     m_block m = m_block n \<and> m_running m = m_running n \<and> same_u32 (m_rr m) (m_rr n)"

lemma bool_u32_inject [simp]: "bool_u32 a = bool_u32 b \<longleftrightarrow> a = b"
  by (simp add: bool_u32_def)

lemma state_code_inject [simp]: "state_code a = state_code b \<longleftrightarrow> a = b"
  by (cases a; cases b) simp_all

lemma dim_words_inject [simp]: "dim_words a = dim_words b \<longleftrightarrow> a = b"
  by (cases a; cases b) (simp add: dim_words_def)

lemma warp_words_eq:
  assumes "warp_words c w = warp_words d w"
  shows "k_valid c w = k_valid d w" "k_pc c w = k_pc d w" "k_mask c w = k_mask d w"
    "same_u32 (k_sp c w) (k_sp d w)"
    "s < STACK_DEPTH \<Longrightarrow> k_stack_pc c w s = k_stack_pc d w s \<and> k_stack_mask c w s = k_stack_mask d w s"
proof -
  let ?f = "\<lambda>c s. [k_stack_pc c w s, k_stack_mask c w s]"
  show "k_valid c w = k_valid d w" "k_pc c w = k_pc d w" "k_mask c w = k_mask d w"
    "same_u32 (k_sp c w) (k_sp d w)"
    using assms by (simp_all add: warp_words_def same_u32_def)
  have "map (?f c) [0..<STACK_DEPTH] = map (?f d) [0..<STACK_DEPTH]"
    using assms by (intro concat_blocks_inject[where n = 2]) (auto simp: warp_words_def)
  then show "k_stack_pc c w s = k_stack_pc d w s \<and> k_stack_mask c w s = k_stack_mask d w s"
    if "s < STACK_DEPTH" using that by simp
qed

lemma all_nibbles: "(\<forall>r < 16. P (of_nat r :: 4 word)) \<Longrightarrow> P x"
proof -
  assume "\<forall>r < 16. P (of_nat r :: 4 word)"
  moreover have "unat x < 16" using unsigned_less[of x] by simp
  ultimately have "P (of_nat (unat x))" by blast
  then show "P x" by simp
qed

lemma lane_words_eq:
  assumes "lane_words c x = lane_words d x"
  shows "k_tx c x = k_tx d x \<and> k_ty c x = k_ty d x \<and> k_tz c x = k_tz d x \<and> k_gid c x = k_gid d x \<and>
    k_gpr c x = k_gpr d x"
proof -
  have "k_gpr c x (of_nat r) = k_gpr d x (of_nat r)" if "r < 16" for r
    using that assms nth_lane_words_gpr[of r c x] nth_lane_words_gpr[of r d x] by simp
  then have "k_gpr c x = k_gpr d x" by (intro ext all_nibbles[where P = "\<lambda>i. k_gpr c x i = k_gpr d x i"]) simp
  then show ?thesis using assms by (simp add: lane_words_def)
qed

lemma pack_core_eq:
  assumes "pack_core cfg m c = pack_core cfg n d"
  shows "same_control c d \<and> same_warps cfg c d \<and> same_lanes cfg c d"
proof -
  let ?w = "\<lambda>c. concat (map (warp_words c) [0..<cfg_warps cfg])"
  let ?l = "\<lambda>c. concat (map (lane_words c) [0..<cfg_warps cfg * cfg_threads cfg])"
  have "length (?w c) = length (?w d)" by (simp add: length_concat_blocks[where n = 20])
  then have h: "core_head cfg m c = core_head cfg n d" and w: "?w c = ?w d" and l: "?l c = ?l d"
    using assms by (auto simp: pack_core_def)
  have "map (warp_words c) [0..<cfg_warps cfg] = map (warp_words d) [0..<cfg_warps cfg]"
    using w by (intro concat_blocks_inject[where n = 20]) auto
  then have "same_warps cfg c d" using warp_words_eq[of c _ d] by (auto simp: same_warps_def)
  moreover have "map (lane_words c) [0..<cfg_warps cfg * cfg_threads cfg]
      = map (lane_words d) [0..<cfg_warps cfg * cfg_threads cfg]"
    using l by (intro concat_blocks_inject[where n = 20]) auto
  then have "same_lanes cfg c d" using lane_words_eq[of c _ d] by (auto simp: same_lanes_def)
  moreover have "same_control c d"
    using h by (simp add: same_control_def core_head_def same_u32_def)
  ultimately show ?thesis by blast
qed

lemma pack_top_eq: "pack_top cfg m = pack_top cfg n \<Longrightarrow> same_kmu m n"
  by (simp add: pack_top_def same_kmu_def same_u32_def Let_def)

subsection \<open>The shadow memory after a step\<close>

text \<open>Offsets recorded as dirty are the only ones that change, and lie inside the shadow memory.\<close>

definition dirty_inv :: "pmem \<Rightarrow> model \<Rightarrow> bool" where
  "dirty_inv old m \<longleftrightarrow> (\<forall>i. i \<notin> set (m_dirty m) \<longrightarrow> m_mem m i = old i) \<and>
     (\<forall>i \<in> set (m_dirty m). unat i < m_size m)"

lemma store_ref_byte_dirty:
  assumes "dirty_inv old m" and "m_size m \<le> 2 ^ 32"
  shows "dirty_inv old (store_ref_byte cfg s m b)"
proof (cases "bit (st_mask s) b \<and> unat (cfg_mbase cfg) \<le> unat (st_addr s) + b \<and>
    unat (st_addr s) + b < unat (cfg_mbase cfg) + m_size m")
  case True
  let ?o = "unat (st_addr s) + b - unat (cfg_mbase cfg)"
  have "?o < m_size m" using True by auto
  then have "unat (of_nat ?o :: u32) = ?o" using assms(2) by (intro unat_of_nat_u32) simp
  then show ?thesis using True assms(1)
    by (auto simp: dirty_inv_def store_ref_byte_def Let_def)
next
  case False
  then show ?thesis using assms(1) by (auto simp: dirty_inv_def store_ref_byte_def Let_def)
qed

lemma store_ref_byte_size [simp]: "m_size (store_ref_byte cfg s m b) = m_size m"
  by (simp add: store_ref_byte_def Let_def)

lemma store_ref_dirty:
  assumes "dirty_inv old m" and "m_size m \<le> 2 ^ 32"
  shows "dirty_inv old (store_ref cfg s m)"
proof -
  have "dirty_inv old (foldl (store_ref_byte cfg s) m bs) \<and> m_size (foldl (store_ref_byte cfg s) m bs) = m_size m"
    for bs using assms
    by (induction bs arbitrary: m) (auto simp: store_ref_byte_dirty)
  then show ?thesis by (simp add: store_ref_def)
qed

lemma store_ref_size [simp]: "m_size (store_ref cfg s m) = m_size m"
  using only_shadow_fields[OF store_ref_shadow] by simp

lemma store_refs_dirty:
  "dirty_inv old m \<Longrightarrow> m_size m \<le> 2 ^ 32 \<Longrightarrow> dirty_inv old (foldl (\<lambda>m s. store_ref cfg s m) m ss)"
  by (induction ss arbitrary: m) (auto simp: store_ref_dirty)

lemma kmu_fields [simp]:
  "m_mem (kmu_dcr_write m) = m_mem m" "m_size (kmu_dcr_write m) = m_size m"
  "m_dirty (kmu_dcr_write m) = m_dirty m" "m_active (kmu_dcr_write m) = m_active m"
  "m_actual (kmu_dcr_write m) = m_actual m" "m_cores (kmu_dcr_write m) = m_cores m"
  "m_mem (kmu_control cfg fire sel m) = m_mem m" "m_size (kmu_control cfg fire sel m) = m_size m"
  "m_dirty (kmu_control cfg fire sel m) = m_dirty m" "m_active (kmu_control cfg fire sel m) = m_active m"
  "m_actual (kmu_control cfg fire sel m) = m_actual m" "m_cores (kmu_control cfg fire sel m) = m_cores m"
  by (simp_all add: kmu_dcr_write_def kmu_control_def Let_def split: prod.splits)

definition presented :: "gpu_config \<Rightarrow> model \<Rightarrow> store list" where
  "presented cfg m = List.map_filter (core_store cfg) (m_cores m)"

lemma step_shadow:
  assumes "\<not> m_reset m"
  shows "m_size (cycle_diff_step cfg m) = m_size m" and "m_active (cycle_diff_step cfg m) = m_active m"
    and "m_actual (cycle_diff_step cfg m) = m_actual m"
    and "m_expected (cycle_diff_step cfg m) = sort (presented cfg m)"
    and "m_size m \<le> 2 ^ 32 \<Longrightarrow> dirty_inv (m_mem m) (cycle_diff_step cfg m)"
proof -
  let ?m = "m\<lparr>m_expected := [], m_dirty := []\<rparr>"
  let ?m2 = "kmu_control cfg (kmu_fire cfg m) (selected_core cfg m)
               (kmu_dcr_write (step_cores cfg (kmu_fire cfg m) (selected_core cfg m) ?m))"
  let ?ss = "sort (presented cfg m)"
  let ?m3 = "foldl (\<lambda>m s. store_ref cfg s m) (?m2\<lparr>m_expected := ?ss\<rparr>) ?ss"
  have e: "cycle_diff_step cfg m = pack cfg (?m3\<lparr>m_cycle := m_cycle ?m3 + 1\<rparr>)"
    using assms by (simp add: cycle_diff_step_def Let_def presented_def)
  show "m_size (cycle_diff_step cfg m) = m_size m" "m_active (cycle_diff_step cfg m) = m_active m"
    "m_actual (cycle_diff_step cfg m) = m_actual m" "m_expected (cycle_diff_step cfg m) = ?ss"
    by (simp_all add: e)
  assume sz: "m_size m \<le> 2 ^ 32"
  have "dirty_inv (m_mem m) (?m2\<lparr>m_expected := ?ss\<rparr>)" by (simp add: dirty_inv_def)
  then have "dirty_inv (m_mem m) ?m3" using sz by (intro store_refs_dirty) simp_all
  then show "dirty_inv (m_mem m) (cycle_diff_step cfg m)" by (simp add: e dirty_inv_def)
qed

subsection \<open>Properties\<close>

text \<open>
  C11. Two models whose packed word vectors agree have the same visible state: the launch
  registers and the grid position of the dispatcher; of every core the control state, the
  round-robin, warp and lane counters, the issued pc, mask and instruction; of every warp the
  valid bit, pc, mask, stack height and every stack entry; of every lane its indices and all
  sixteen registers. The word comparison of the harness misses no difference in them.
\<close>

theorem equal_words_equal_cores:
  assumes "length (m_cores m) = cfg_cores cfg" and "length (m_cores n) = cfg_cores cfg"
    and "cycle_diff_state (pack cfg m) = cycle_diff_state (pack cfg n)"
  shows "same_kmu m n \<and> (\<forall>i < cfg_cores cfg. same_control (m_cores m ! i) (m_cores n ! i) \<and>
    same_warps cfg (m_cores m ! i) (m_cores n ! i) \<and> same_lanes cfg (m_cores m ! i) (m_cores n ! i))"
proof (intro conjI[of "same_kmu m n"] allI impI)
  have t: "pack_top cfg m = pack_top cfg n"
    and c: "concat (map (pack_core cfg m) (m_cores m)) = concat (map (pack_core cfg n) (m_cores n))"
    using assms(3) append_eq_append_conv[of "pack_top cfg m" "pack_top cfg n"]
    by (simp_all add: cycle_diff_state_def pack_def)
  show "same_kmu m n" using t by (rule pack_top_eq)
  fix i assume i: "i < cfg_cores cfg"
  have "map (pack_core cfg m) (m_cores m) = map (pack_core cfg n) (m_cores n)"
    using assms(1,2) c by (intro concat_blocks_inject[where n = "core_words cfg"]) auto
  then have "map (pack_core cfg m) (m_cores m) ! i = map (pack_core cfg n) (m_cores n) ! i" by simp
  then have "pack_core cfg m (m_cores m ! i) = pack_core cfg n (m_cores n ! i)"
    using assms(1,2) i by simp
  then show "same_control (m_cores m ! i) (m_cores n ! i) \<and>
    same_warps cfg (m_cores m ! i) (m_cores n ! i) \<and> same_lanes cfg (m_cores m ! i) (m_cores n ! i)"
    by (rule pack_core_eq)
qed

text \<open>
  Models that differ in one counter of one core, and two that differ only in what is not
  compared: a register of a lane beyond the configuration.
\<close>

definition model_with_core :: "(ccore \<Rightarrow> ccore) \<Rightarrow> model" where
  "model_with_core f = (model_init default_config)\<lparr>m_cores := (m_cores (model_init default_config))[1 := f core_init]\<rparr>"

lemma model_with_core_cores [simp]: "length (m_cores (model_with_core f)) = cfg_cores default_config"
  by (simp add: model_with_core_def model_init_def)

lemma model_with_core_nth: "m_cores (model_with_core f) ! 1 = f core_init"
  by (simp add: model_with_core_def model_init_def default_config_def)

theorem equal_words_equal_cores_witness:
  "cycle_diff_state (pack default_config (model_with_core (\<lambda>c. c\<lparr>k_rr := 1\<rparr>)))
     \<noteq> cycle_diff_state (pack default_config (model_with_core id)) \<and>
   cycle_diff_state (pack default_config (model_with_core (\<lambda>c. c\<lparr>k_sp := (\<lambda>_. 1)\<rparr>)))
     \<noteq> cycle_diff_state (pack default_config (model_with_core id)) \<and>
   same_control core_init (core_init\<lparr>k_gpr := (\<lambda>x. if x = 4096 then (\<lambda>_. 7) else (\<lambda>_. 0))\<rparr>)"
proof (intro conjI notI)
  have one: "1 < cfg_cores default_config" "0 < cfg_warps default_config"
    by (simp_all add: default_config_def)
  note same = equal_words_equal_cores[OF model_with_core_cores model_with_core_cores]
  show False if "cycle_diff_state (pack default_config (model_with_core (\<lambda>c. c\<lparr>k_rr := 1\<rparr>)))
      = cycle_diff_state (pack default_config (model_with_core id))"
    using same[OF that] one model_with_core_nth[of id] model_with_core_nth[of "\<lambda>c. c\<lparr>k_rr := 1\<rparr>"]
    by (auto simp: same_control_def same_u32_def core_init_def)
  show False if "cycle_diff_state (pack default_config (model_with_core (\<lambda>c. c\<lparr>k_sp := (\<lambda>_. 1)\<rparr>)))
      = cycle_diff_state (pack default_config (model_with_core id))"
    using same[OF that] one model_with_core_nth[of id] model_with_core_nth[of "\<lambda>c. c\<lparr>k_sp := (\<lambda>_. 1)\<rparr>"]
    by (auto simp: same_warps_def same_u32_def core_init_def)
  let ?far = "\<lambda>c. c\<lparr>k_gpr := (\<lambda>x. if x = 4096 then (\<lambda>_. 7) else (\<lambda>_. 0))\<rparr>"
  have "cycle_diff_state (pack default_config (model_with_core id))
      = cycle_diff_state (pack default_config (model_with_core ?far))"
    by code_simp
  then show "same_control core_init (core_init\<lparr>k_gpr := (\<lambda>x. if x = 4096 then (\<lambda>_. 7) else (\<lambda>_. 0))\<rparr>)"
    using same[of id ?far] one(1) model_with_core_nth[of id] model_with_core_nth[of ?far] by (metis id_apply)
qed

text \<open>
  Layout of the vector: the register \<open>r\<close> of lane context \<open>x\<close> of core \<open>ci\<close> and the pc of
  its warp \<open>w\<close> are at fixed word positions, inside the advertised length, and
  \<open>cycle_diff_field_name\<close> gives these positions their names.
\<close>

theorem diff_state_layout:
  assumes "length (m_cores m) = cfg_cores cfg" and "ci < cfg_cores cfg"
    and "x < cfg_warps cfg * cfg_threads cfg" and "r < 16" and "w < cfg_warps cfg"
  shows "let base = 23 + ci * core_words cfg; v = cycle_diff_state (pack cfg m);
             g = base + (28 + 20 * cfg_warps cfg + 20 * x + (4 + r)); p = base + (28 + 20 * w + 1) in
    length v = cycle_diff_state_words cfg \<and> g < length v \<and> p < length v \<and>
    v ! g = k_gpr (m_cores m ! ci) x (of_nat r) \<and> v ! p = k_pc (m_cores m ! ci) w \<and>
    cycle_diff_field_name cfg g = ''core['' @ show_nat ci @ ''].lane['' @ show_nat x @ ''].gpr['' @ show_nat r @ '']'' \<and>
    cycle_diff_field_name cfg p = ''core['' @ show_nat ci @ ''].warp['' @ show_nat w @ ''].pc''"
proof -
  let ?g = "28 + 20 * cfg_warps cfg + 20 * x + (4 + r)" and ?p = "28 + 20 * w + 1"
  have gb: "?g < core_words cfg" and pb: "?p < core_words cfg"
    using assms(3-5) by (simp_all add: core_words_def)
  have inside: "23 + ci * core_words cfg + j < total_words cfg" if "j < core_words cfg" for j
  proof -
    have "Suc ci * core_words cfg \<le> cfg_cores cfg * core_words cfg"
      using assms(2) by (intro mult_le_mono1) simp
    then show ?thesis using that by (simp add: total_words_def)
  qed
  have gx: "(4 + (20 * x + r)) div 20 = x" "(4 + (20 * x + r)) mod 20 = 4 + r"
    using assms(4) by presburger+
  have wx: "Suc (20 * w) div 20 = w" by presburger
  have gname: "cycle_diff_field_name cfg (23 + ci * core_words cfg + ?g) =
      ''core['' @ show_nat ci @ ''].lane['' @ show_nat x @ ''].gpr['' @ show_nat r @ '']''"
    using assms(4) field_index[OF gb, of ci] gx by (simp add: cycle_diff_field_name_def Let_def)
  have pname: "cycle_diff_field_name cfg (23 + ci * core_words cfg + ?p) =
      ''core['' @ show_nat ci @ ''].warp['' @ show_nat w @ ''].pc''"
    using assms(5) field_index[OF pb, of ci] wx by (simp add: cycle_diff_field_name_def Let_def)
  have gval: "m_packed (pack cfg m) ! (23 + ci * core_words cfg + ?g) = k_gpr (m_cores m ! ci) x (of_nat r)"
    using packed_core_word[of ci m ?g cfg] gb assms pack_core_lane_word[of x cfg "4 + r"] nth_lane_words_gpr[of r]
    by simp
  have pval: "m_packed (pack cfg m) ! (23 + ci * core_words cfg + ?p) = k_pc (m_cores m ! ci) w"
    using packed_core_word[of ci m ?p cfg] pb assms pack_core_warp_word[of w cfg 1]
    by (simp add: warp_words_def)
  show ?thesis
    unfolding Let_def cycle_diff_state_def cycle_diff_state_words_def length_packed[OF assms(1)]
    using inside[OF gb] inside[OF pb] gname pname gval pval by blast
qed

theorem diff_state_layout_witness:
  "cycle_diff_field_name default_config 245 = ''core[0].lane[5].gpr[10]''"
proof -
  have "show_nat 0 = ''0''" "show_nat 5 = ''5''" "show_nat 10 = ''10''" by code_simp+
  then show ?thesis
    using diff_state_layout[of "model_init default_config" default_config 0 5 10 0]
    by (simp add: model_init_def default_config_def core_words_def Let_def)
qed

text \<open>
  C12. After a clock step the transaction check succeeds exactly when the stores observed at
  the RTL ports are, as a multiset, the stores that the cores of the model presented: a
  missing, duplicated or altered store is detected, and the order in which the cores report
  them does not matter.
\<close>

theorem check_stores_is_multiset_equality:
  assumes "\<not> m_reset m"
  shows "fst (cycle_diff_check_stores (cycle_diff_step cfg m)) \<longleftrightarrow>
    mset (m_actual m) = mset (List.map_filter (core_store cfg) (m_cores m))"
proof -
  have "fst (cycle_diff_check_stores (cycle_diff_step cfg m)) \<longleftrightarrow> sort (m_actual m) = sort (presented cfg m)"
    by (simp add: cycle_diff_check_stores_def Let_def step_shadow[OF assms])
  also have "\<dots> \<longleftrightarrow> mset (m_actual m) = mset (presented cfg m)"
    by (metis mset_sort properties_for_sort sorted_sort)
  finally show ?thesis by (simp add: presented_def)
qed

theorem check_stores_is_multiset_equality_witness:
  "\<not> fst (cycle_diff_check_stores (cycle_diff_step default_config
     ((cycle_diff_init default_config)\<lparr>m_actual := [Store 0 0 1]\<rparr>)))"
proof -
  let ?m = "(cycle_diff_init default_config)\<lparr>m_actual := [Store 0 0 1]\<rparr>"
  have "List.map_filter (core_store default_config) (m_cores ?m) = []" by code_simp
  then show ?thesis
    using check_stores_is_multiset_equality[of ?m default_config]
    by (simp add: cycle_diff_init_def model_init_def)
qed

text \<open>
  C13. The incremental memory check is as strong as the full one: if the RTL memory agreed
  with the shadow memory before the step and changed at most at the offsets that the step
  marked dirty, the dirty-byte comparison succeeds exactly when the two memories are equal
  byte for byte.
\<close>

theorem dirty_check_is_full_check:
  assumes "\<not> m_reset m" and "m_active m" and "m_size m \<le> 2 ^ 32"
    and "\<forall>i. unat i < m_size m \<longrightarrow> a i = m_mem m i"
    and "\<forall>i. i \<notin> set (m_dirty (cycle_diff_step cfg m)) \<longrightarrow> a' i = a i"
  shows "fst (cycle_diff_check_memory a' (m_size m) False (cycle_diff_step cfg m)) =
      fst (cycle_diff_check_memory a' (m_size m) True (cycle_diff_step cfg m)) \<and>
    (fst (cycle_diff_check_memory a' (m_size m) True (cycle_diff_step cfg m)) \<longleftrightarrow>
      (\<forall>i. unat i < m_size m \<longrightarrow> a' i = m_mem (cycle_diff_step cfg m) i))"
proof -
  let ?m = "cycle_diff_step cfg m"
  note st = step_shadow[OF assms(1)]
  have inv: "dirty_inv (m_mem m) ?m" using st(5)[OF assms(3)] .
  have all: "list_all (\<lambda>i. a' (of_nat i) = m_mem ?m (of_nat i)) [0..<m_size m] \<longleftrightarrow>
      (\<forall>i. unat i < m_size m \<longrightarrow> a' i = m_mem ?m i)"
  proof
    assume l: "list_all (\<lambda>i. a' (of_nat i) = m_mem ?m (of_nat i)) [0..<m_size m]"
    show "\<forall>i. unat i < m_size m \<longrightarrow> a' i = m_mem ?m i"
    proof (intro allI impI)
      fix i :: u32 assume "unat i < m_size m"
      then have "a' (of_nat (unat i)) = m_mem ?m (of_nat (unat i))"
        using l unfolding list_all_iff by (metis atLeast0LessThan lessThan_iff set_upt)
      then show "a' i = m_mem ?m i" by simp
    qed
  next
    assume r: "\<forall>i. unat i < m_size m \<longrightarrow> a' i = m_mem ?m i"
    have "unat (of_nat i :: u32) < m_size m" if "i < m_size m" for i
      using that assms(3) unat_of_nat_u32[of i] by simp
    then show "list_all (\<lambda>i. a' (of_nat i) = m_mem ?m (of_nat i)) [0..<m_size m]"
      using r by (simp add: list_all_iff)
  qed
  have "list_all (\<lambda>i. a' i = m_mem ?m i) (remdups_adj (sort (m_dirty ?m))) \<longleftrightarrow>
      (\<forall>i. unat i < m_size m \<longrightarrow> a' i = m_mem ?m i)"
    using inv assms(4,5) st(1) by (auto simp: list_all_iff dirty_inv_def)
  then show ?thesis
    using all assms(2) by (simp add: cycle_diff_check_memory_def Let_def st(1,2))
qed

theorem dirty_check_is_full_check_witness:
  "let m = cycle_diff_begin (\<lambda>_. 0) 16 (cycle_diff_init default_config) in
   fst (cycle_diff_check_memory (\<lambda>_. 0) 16 False (cycle_diff_step default_config m))"
proof -
  let ?m = "cycle_diff_begin (\<lambda>_. 0) 16 (cycle_diff_init default_config)"
  have "fst (cycle_diff_check_memory (\<lambda>_. 0) 16 True (cycle_diff_step default_config ?m))" by code_simp
  then show ?thesis
    using dirty_check_is_full_check[of ?m "\<lambda>_. 0" default_config "\<lambda>_. 0"]
    by (simp add: cycle_diff_begin_def cycle_diff_init_def model_init_def)
qed

end
