(* ===== verification/Rtl_Props.thy ===== *)
theory Rtl_Props
  imports Runtime_Props Diff_Props
begin

text \<open>
  Properties of the hardware backend under DiffTest: a wait that succeeds has compared the
  RTL with the cycle model after every clock edge, and a launch that succeeds has made the
  RTL, the cycle model and the functional simulator agree on the whole memory.
\<close>

subsection \<open>What the design can change\<close>

lemma dpi_write_frame:
  "dpi_paddr_write cfg addr msk data w = Some w' \<Longrightarrow>
   w_model w' = w_model w \<and> w_diff_failed w' = w_diff_failed w \<and> w_ports w' = w_ports w \<and> w_live w' = w_live w"
  by (auto simp: dpi_paddr_write_def split: if_splits)

lemma diff_state_frame [simp]:
  "w_model (gpu_diff_state cfg base st w) = w_model w"
  "w_diff_failed (gpu_diff_state cfg base st w) = w_diff_failed w"
  "w_ports (gpu_diff_state cfg base st w) = w_ports w" "w_live (gpu_diff_state cfg base st w) = w_live w"
  by (simp_all add: gpu_diff_state_def Let_def split: prod.splits)

lemma run_act_frame:
  "run_act a cfg w = Some w' \<Longrightarrow>
   w_model w' = w_model w \<and> w_diff_failed w' = w_diff_failed w \<and> w_ports w' = w_ports w \<and> w_live w' = w_live w"
proof (induction a arbitrary: w)
  case (Paddr_Read addr k)
  then show ?case by (auto split: bind_splits)
next
  case (Paddr_Write addr msk data k)
  then show ?case by (auto split: bind_splits dest!: dpi_write_frame) 
next
  case (Diff_State base st k)
  then show ?case using diff_state_frame by simp
qed auto

lemma eval_top_frame:
  assumes "eval_top cfg v clk w = Some w'"
  shows "w_model w' = w_model w \<and> w_diff_failed w' = w_diff_failed w \<and> w_ports w' = (w_ports w)(Clock := clk)"
proof -
  let ?p = "(w_ports w)(Clock := clk)"
  have "run_act (v_eval v ?p (w_top w)) cfg (w\<lparr>w_ports := ?p\<rparr>) = Some w'"
    using assms by (auto simp: eval_top_def Let_def split: if_splits)
  from run_act_frame[OF this] show ?thesis by simp
qed

lemma observe_core_frame:
  "observe_core cfg i w = Some w' \<Longrightarrow> w_diff_failed w' = w_diff_failed w \<and> w_ports w' = w_ports w \<and>
    m_active (w_model w') = m_active (w_model w) \<and> m_reset (w_model w') = m_reset (w_model w)"
  by (auto simp: observe_core_def cycle_diff_observe_store_def Let_def split: if_splits)

lemma observe_cores_frame:
  "observe_cores cfg is w = Some w' \<Longrightarrow> w_diff_failed w' = w_diff_failed w \<and> w_ports w' = w_ports w \<and>
    m_active (w_model w') = m_active (w_model w)"
proof (induction "is" arbitrary: w)
  case Nil
  then show ?case by simp
next
  case (Cons i "is")
  from Cons.prems obtain w1 where "observe_core cfg i w = Some w1" "observe_cores cfg is w1 = Some w'"
    by (auto split: bind_splits)
  then show ?case using Cons.IH[of w1] observe_core_frame[of cfg i w w1] by simp
qed

lemma step_active: "m_active (cycle_diff_step cfg m) = m_active m"
proof (cases "m_reset m")
  case True
  then show ?thesis by (simp add: cycle_diff_step_def Let_def model_init_def)
next
  case False
  then show ?thesis by (rule step_shadow(2))
qed

subsection \<open>The comparison after an edge\<close>

definition in_step :: "gpu_config \<Rightarrow> 't world \<Rightarrow> bool" where
  "in_step cfg w \<longleftrightarrow> \<not> w_diff_failed w \<and>
     (\<forall>i < cycle_diff_state_words cfg. cycle_diff_state (w_model w) ! i = dp_state w ! i)"

lemma compare_stores_fields:
  "dp_state (compare_stores w) = dp_state w" "sm_mem (compare_stores w) = sm_mem w"
  "m_packed (w_model (compare_stores w)) = m_packed (w_model w)"
  "m_active (w_model (compare_stores w)) = m_active (w_model w)"
  "w_diff_failed w \<Longrightarrow> w_diff_failed (compare_stores w)"
  by (simp_all add: compare_stores_def cycle_diff_check_stores_def Let_def split: prod.splits)

lemma compare_words_fields:
  "dp_state (compare_words cfg w) = dp_state w" "w_model (compare_words cfg w) = w_model w"
  "w_diff_failed (compare_words cfg w) \<longleftrightarrow> w_diff_failed w \<or>
     (\<exists>i < cycle_diff_state_words cfg. cycle_diff_state (w_model w) ! i \<noteq> dp_state w ! i)"
  by (auto simp: compare_words_def list_ex_iff)

lemma compare_memory_fields:
  "dp_state (compare_memory cfg full w) = dp_state w"
  "m_packed (w_model (compare_memory cfg full w)) = m_packed (w_model w)"
  "m_active (w_model (compare_memory cfg full w)) = m_active (w_model w)"
  "w_diff_failed w \<Longrightarrow> w_diff_failed (compare_memory cfg full w)"
  by (auto simp: compare_memory_def cycle_diff_check_memory_def Let_def split: prod.splits if_splits)

lemma diff_compare_in_step:
  assumes "\<not> w_diff_failed (diff_compare cfg w)"
  shows "in_step cfg (diff_compare cfg w)"
proof -
  let ?w1 = "if dpi_diff_failed cfg w then w\<lparr>w_diff_failed := True\<rparr> else w"
  let ?w2 = "compare_words cfg (compare_stores ?w1)"
  have e: "diff_compare cfg w = (let w2 = compare_memory cfg False ?w2
      in w2\<lparr>w_model := cycle_diff_apply_stores (w_model w2)\<rparr>)"
    by (simp add: diff_compare_def Let_def)
  then have n: "\<not> w_diff_failed ?w2" using assms compare_memory_fields(4)[of ?w2 cfg False] by (auto simp: Let_def)
  have "dp_state (diff_compare cfg w) = dp_state ?w2"
    "cycle_diff_state (w_model (diff_compare cfg w)) = cycle_diff_state (w_model ?w2)"
    by (simp_all add: e Let_def compare_memory_fields cycle_diff_state_def cycle_diff_apply_stores_def)
  then show ?thesis
    using n assms by (auto simp: in_step_def compare_words_fields)
qed

lemma diff_compare_sticky: "w_diff_failed w \<Longrightarrow> w_diff_failed (diff_compare cfg w)"
  by (simp add: diff_compare_def Let_def compare_memory_fields(4) compare_words_fields(3) compare_stores_fields(5))

lemma diff_compare_active: "m_active (w_model (diff_compare cfg w)) = m_active (w_model w)"
  by (simp add: diff_compare_def Let_def compare_memory_fields compare_words_fields compare_stores_fields
      cycle_diff_apply_stores_def)

lemma tick_difftest:
  assumes "tick cfg v w = Some w'" and "cfg_difftest cfg"
  obtains w4 where "w' = (diff_compare cfg w4)\<lparr>w_cycles := w_cycles (diff_compare cfg w4) + 1\<rparr>"
    "w_diff_failed w4 = w_diff_failed w" "m_active (w_model w4) = m_active (w_model w)"
proof -
  obtain w1 w2 w3 w4 where t: "eval_top cfg v 0 w = Some w1"
      "observe_cores cfg [0..<cfg_cores cfg] w1 = Some w2" "eval_top cfg v 1 (step_model cfg w2) = Some w3"
      "eval_top cfg v 1 w3 = Some w4" "w' = (diff_compare cfg w4)\<lparr>w_cycles := w_cycles (diff_compare cfg w4) + 1\<rparr>"
    using assms by (auto simp: tick_def split: bind_splits if_splits)
  have "w_diff_failed (step_model cfg w2) = w_diff_failed w2"
    "m_active (w_model (step_model cfg w2)) = m_active (w_model w2)"
    by (simp_all add: step_model_def Let_def step_active cycle_diff_set_inputs_def)
  then show ?thesis
    using that[OF t(5)] eval_top_frame[OF t(1)] observe_cores_frame[OF t(2)] eval_top_frame[OF t(3)]
      eval_top_frame[OF t(4)] by simp
qed

lemma tick_in_step:
  assumes "tick cfg v w = Some w'" and "cfg_difftest cfg"
  shows "\<not> w_diff_failed w' \<Longrightarrow> in_step cfg w'" and "w_diff_failed w \<Longrightarrow> w_diff_failed w'"
    and "m_active (w_model w') = m_active (w_model w)"
proof -
  obtain w4 where t: "w' = (diff_compare cfg w4)\<lparr>w_cycles := w_cycles (diff_compare cfg w4) + 1\<rparr>"
    "w_diff_failed w4 = w_diff_failed w" "m_active (w_model w4) = m_active (w_model w)"
    using tick_difftest[OF assms] .
  show "\<not> w_diff_failed w' \<Longrightarrow> in_step cfg w'"
    using diff_compare_in_step[of cfg w4] by (simp add: t(1) in_step_def)
  show "w_diff_failed w \<Longrightarrow> w_diff_failed w'"
    using diff_compare_sticky[of w4 cfg] t(2) by (simp add: t(1))
  show "m_active (w_model w') = m_active (w_model w)"
    using diff_compare_active[of cfg w4] t(3) by (simp add: t(1))
qed


subsection \<open>The wait loop\<close>

fun ticks :: "gpu_config \<Rightarrow> 't verilated \<Rightarrow> nat \<Rightarrow> 't world \<Rightarrow> 't world option" where
  "ticks cfg v 0 w = Some w"
| "ticks cfg v (Suc k) w = do { w' \<leftarrow> tick cfg v w; ticks cfg v k w' }"

definition memories_agree :: "gpu_config \<Rightarrow> pmem \<Rightarrow> pmem \<Rightarrow> bool" where
  "memories_agree cfg a b \<longleftrightarrow> (\<forall>i. unat i < unat (cfg_msize cfg) \<longrightarrow> a i = b i)"

lemma all_offsets:
  "list_all (\<lambda>i. a (of_nat i) = b (of_nat i)) [0..<unat (n :: u32)] \<longleftrightarrow> (\<forall>i :: u32. unat i < unat n \<longrightarrow> a i = b i)"
proof
  assume l: "list_all (\<lambda>i. a (of_nat i) = b (of_nat i)) [0..<unat n]"
  show "\<forall>i :: u32. unat i < unat n \<longrightarrow> a i = b i"
  proof (intro allI impI)
    fix i :: u32 assume "unat i < unat n"
    then have "a (of_nat (unat i)) = b (of_nat (unat i))"
      using l unfolding list_all_iff by (metis atLeast0LessThan lessThan_iff set_upt)
    then show "a i = b i" by simp
  qed
next
  assume r: "\<forall>i :: u32. unat i < unat n \<longrightarrow> a i = b i"
  have "unat (of_nat i :: u32) < unat n" if "i < unat n" for i
    using that unat_less_u32[of n] unat_of_nat_u32[of i] by simp
  then show "list_all (\<lambda>i. a (of_nat i) = b (of_nat i)) [0..<unat n]"
    using r by (simp add: list_all_iff)
qed

lemma pmem_equal_iff: "pmem_equal cfg a b \<longleftrightarrow> memories_agree cfg a b"
  by (simp add: pmem_equal_def memories_agree_def all_offsets)

lemma full_check_agree:
  assumes "cycle_diff_check_memory a (unat (cfg_msize cfg)) True m = (True, m')" and "m_active m"
  shows "m' = m \<and> memories_agree cfg a (m_mem m)"
proof -
  have "m' = m" "list_all (\<lambda>i. a (of_nat i) = m_mem m (of_nat i)) [0..<unat (cfg_msize cfg)]"
    using assms by (auto simp: cycle_diff_check_memory_def split: if_splits)
  then show ?thesis unfolding all_offsets memories_agree_def by simp
qed

text \<open>Every edge up to the \<open>k\<close>-th was compared and matched, without a fault.\<close>

definition lockstep :: "gpu_config \<Rightarrow> 't verilated \<Rightarrow> nat \<Rightarrow> 't world \<Rightarrow> bool" where
  "lockstep cfg v k w \<longleftrightarrow> (\<forall>j. 0 < j \<and> j \<le> k \<longrightarrow>
     (\<exists>wj. ticks cfg v j w = Some wj \<and> in_step cfg wj \<and> \<not> v_fault v (w_top wj)))"

lemma lockstep_Suc:
  assumes "tick cfg v w = Some w1" and "in_step cfg w1" and "\<not> v_fault v (w_top w1)" and "lockstep cfg v k w1"
  shows "lockstep cfg v (Suc k) w"
  unfolding lockstep_def
proof (intro allI impI)
  fix j assume j: "0 < j \<and> j \<le> Suc k"
  show "\<exists>wj. ticks cfg v j w = Some wj \<and> in_step cfg wj \<and> \<not> v_fault v (w_top wj)"
  proof (cases "j = 1")
    case True
    then show ?thesis using assms by simp
  next
    case False
    then obtain i where "j = Suc i" "0 < i" "i \<le> k" using j by (cases j) auto
    then show ?thesis using assms(1,4) by (auto simp: lockstep_def)
  qed
qed

lemma gpu_rtl_wait_step:
  assumes "tick cfg v w = Some w1" and "0 < n" and "cfg_difftest cfg"
  shows "gpu_rtl_wait cfg v n w =
     (if v_fault v (w_top w1) \<or> w_diff_failed w1 then Some (False, w1)
        else if \<not> v_busy v (w_top w1) then
          (let (ok, m) = cycle_diff_check_memory (sm_mem w1) (unat (cfg_msize cfg)) True (w_model w1)
             in if ok then Some (True, w1\<lparr>w_model := m\<rparr>)
                else Some (False, w1\<lparr>w_model := m, w_diff_failed := True\<rparr>))
        else gpu_rtl_wait cfg v (n - 1) w1)"
  using assms by (subst gpu_rtl_wait.simps) simp

lemma gpu_rtl_wait_lockstep:
  "gpu_rtl_wait cfg v n w = Some (True, w') \<Longrightarrow> 0 < n \<Longrightarrow> cfg_difftest cfg \<Longrightarrow> m_active (w_model w) \<Longrightarrow>
   \<exists>k. 0 < k \<and> k \<le> n \<and> ticks cfg v k w = Some w' \<and> lockstep cfg v k w \<and> \<not> v_busy v (w_top w') \<and>
     memories_agree cfg (sm_mem w') (m_mem (w_model w'))"
proof (induction cfg v n w rule: gpu_rtl_wait.induct)
  case (1 cfg v n w)
  from "1.prems"(1,2) obtain w1 where t: "tick cfg v w = Some w1"
    by (subst (asm) gpu_rtl_wait.simps) (auto split: bind_splits)
  have body: "(if v_fault v (w_top w1) \<or> w_diff_failed w1 then Some (False, w1)
        else if \<not> v_busy v (w_top w1) then
          (let (ok, m) = cycle_diff_check_memory (sm_mem w1) (unat (cfg_msize cfg)) True (w_model w1)
             in if ok then Some (True, w1\<lparr>w_model := m\<rparr>)
                else Some (False, w1\<lparr>w_model := m, w_diff_failed := True\<rparr>))
        else gpu_rtl_wait cfg v (n - 1) w1) = Some (True, w')"
    using "1.prems"(1) unfolding gpu_rtl_wait_step[OF t "1.prems"(2,3)] .
  have nf: "\<not> v_fault v (w_top w1)" "\<not> w_diff_failed w1" using body by (auto split: if_splits)
  note T = tick_in_step[OF t "1.prems"(3)]
  have act: "m_active (w_model w1)" using T(3) "1.prems"(4) by simp
  show ?case
  proof (cases "v_busy v (w_top w1)")
    case False
    obtain ok m where c: "cycle_diff_check_memory (sm_mem w1) (unat (cfg_msize cfg)) True (w_model w1) = (ok, m)"
      by force
    then have ok: "ok" "w' = w1\<lparr>w_model := m\<rparr>" using body nf False by (auto split: if_splits)
    then have "m = w_model w1 \<and> memories_agree cfg (sm_mem w1) (m_mem (w_model w1))"
      using full_check_agree[of "sm_mem w1" cfg "w_model w1" m] c act by simp
    then have w': "w' = w1" "memories_agree cfg (sm_mem w1) (m_mem (w_model w1))" using ok(2) by simp_all
    have "lockstep cfg v 1 w"
      using lockstep_Suc[OF t T(1)[OF nf(2)] nf(1), of 0] by (simp add: lockstep_def)
    then show ?thesis using t w' False "1.prems"(2) by (intro exI[of _ 1]) simp
  next
    case True
    then have w: "gpu_rtl_wait cfg v (n - 1) w1 = Some (True, w')" using body nf by simp
    have "n - 1 \<noteq> 0"
    proof
      assume "n - 1 = 0"
      then have "w' = w1 \<and> (True = (\<not> v_busy v (w_top w1) \<and> \<not> v_fault v (w_top w1)))"
        using w by (subst (asm) gpu_rtl_wait.simps) auto
      then show False using True by simp
    qed
    then obtain k where k: "0 < k" "k \<le> n - 1" "ticks cfg v k w1 = Some w'" "lockstep cfg v k w1"
        "\<not> v_busy v (w_top w')" "memories_agree cfg (sm_mem w') (m_mem (w_model w'))"
      using "1.IH"[OF _ t _ _ w] "1.prems"(2,3) nf True act by auto
    then show ?thesis
      using t lockstep_Suc[OF t T(1)[OF nf(2)] nf(1) k(4)] by (intro exI[of _ "Suc k"]) auto
  qed
qed


subsection \<open>Example\<close>

text \<open>
  A device with one lane and a design that reports the words of an idle cycle model at
  every evaluation and is never busy.
\<close>

definition tiny_config :: gpu_config where
  "tiny_config = default_config\<lparr>cfg_cores := 1, cfg_warps := 1, cfg_threads := 1, cfg_msize := 64,
     cfg_hm := True, cfg_difftest := True\<rparr>"

definition idle_words :: "u32 list" where
  "idle_words = m_packed (cycle_diff_init tiny_config)"

definition idle_top :: "unit verilated" where
  "idle_top = \<lparr>v_eval = (\<lambda>p t. Diff_State 0 (Contiguous idle_words) (Done ())),
     v_busy = (\<lambda>t. False), v_fault = (\<lambda>t. False)\<rparr>"

definition idle_world :: "unit world" where
  "idle_world = (static_world tiny_config ())\<lparr>
     w_model := cycle_diff_begin (\<lambda>_. 0) 64 (cycle_diff_init tiny_config)\<rparr>"

definition idle_run :: "unit runtime" where
  "idle_run = (static_runtime tiny_config ())\<lparr>rt_world := idle_world, rt_initialized := True,
     rt_exec := Some \<lparr>gm_kind = GPU_MODEL_HM, gm_num_harts = 1\<rparr>, d_opened := True, d_running := True,
     d_reference := Some (\<lambda>_. 0)\<rparr>"

lemma idle_tick:
  "\<exists>w. tick tiny_config idle_top idle_world = Some w \<and> \<not> w_diff_failed w \<and>
     fst (cycle_diff_check_memory (sm_mem w) (unat (cfg_msize tiny_config)) True (w_model w)) \<and>
     list_all (\<lambda>i. sm_mem w (of_nat i) = 0) [0..<unat (cfg_msize tiny_config)]"
proof -
  have "(case tick tiny_config idle_top idle_world of None \<Rightarrow> False | Some w \<Rightarrow> \<not> w_diff_failed w \<and>
     fst (cycle_diff_check_memory (sm_mem w) (unat (cfg_msize tiny_config)) True (w_model w)) \<and>
     list_all (\<lambda>i. sm_mem w (of_nat i) = 0) [0..<unat (cfg_msize tiny_config)])" by code_simp
  then show ?thesis by (auto split: option.splits)
qed

lemma idle_wait:
  assumes "0 < n"
  shows "\<exists>w. gpu_rtl_wait tiny_config idle_top n idle_world = Some (True, w) \<and> \<not> w_diff_failed w \<and>
     list_all (\<lambda>i. sm_mem w (of_nat i) = 0) [0..<unat (cfg_msize tiny_config)]"
proof -
  obtain w where w: "tick tiny_config idle_top idle_world = Some w" "\<not> w_diff_failed w"
     "fst (cycle_diff_check_memory (sm_mem w) (unat (cfg_msize tiny_config)) True (w_model w))"
     "list_all (\<lambda>i. sm_mem w (of_nat i) = 0) [0..<unat (cfg_msize tiny_config)]"
    using idle_tick by blast
  have "cfg_difftest tiny_config" by (simp add: tiny_config_def)
  then show ?thesis
    using gpu_rtl_wait_step[OF w(1) assms] w(2-4) by (auto simp: idle_top_def split: prod.splits)
qed

subsection \<open>Properties\<close>

text \<open>
  C21. A wait on the RTL that reports completion under DiffTest has compared every clock edge
  on the way: after each one the packed words of the cycle model equalled the snapshot of
  the RTL, no fault was raised and no comparison had failed; at the end the design is not
  busy and the whole PMEM equals the shadow memory of the cycle model.
\<close>

theorem rtl_wait_is_lockstep:
  assumes "cfg_difftest cfg" and "m_active (w_model w)" and "0 < n"
    and "gpu_rtl_wait cfg v n w = Some (True, w')"
  shows "\<exists>k. 0 < k \<and> k \<le> n \<and> ticks cfg v k w = Some w' \<and> lockstep cfg v k w \<and>
    \<not> v_busy v (w_top w') \<and> memories_agree cfg (sm_mem w') (m_mem (w_model w'))"
  using gpu_rtl_wait_lockstep[OF assms(4,3,1,2)] .

lemma idle_active: "m_active (w_model idle_world)"
  by (simp add: idle_world_def cycle_diff_begin_def)

theorem rtl_wait_is_lockstep_witness:
  "\<exists>w k. gpu_rtl_wait tiny_config idle_top 5 idle_world = Some (True, w) \<and> 0 < k \<and>
     lockstep tiny_config idle_top k idle_world"
proof -
  obtain w where w: "gpu_rtl_wait tiny_config idle_top 5 idle_world = Some (True, w)"
    using idle_wait[of 5] by auto
  have "cfg_difftest tiny_config" by (simp add: tiny_config_def)
  from rtl_wait_is_lockstep[OF this idle_active _ w] w show ?thesis by auto
qed

text \<open>
  C22. Three models agree. When \<open>gpu_wait\<close> returns success for a launch on the RTL with
  DiffTest, the reference run of the functional simulator ended without a fault, and the
  PMEM of the RTL, the final PMEM of the functional simulator and the shadow memory of the
  cycle model are equal on every byte.
\<close>

theorem wait_success_three_models_agree:
  assumes "has_ref cfg" and "valid_device dev rt" and "d_running rt"
    and "rt_exec rt = Some g" and "gm_kind g = GPU_MODEL_HM" and "m_active (w_model (rt_world rt))"
    and "gpu_wait cfg v dev rt = Some (GPU_SUCCESS, rt')"
  shows "\<not> d_ref_fault rt \<and> (\<exists>ref. d_reference rt = Some ref \<and> memories_agree cfg ref (rt_mem rt')) \<and>
    memories_agree cfg (rt_mem rt') (m_mem (w_model (rt_world rt'))) \<and>
    \<not> v_fault v (w_top (rt_world rt')) \<and> \<not> v_busy v (w_top (rt_world rt')) \<and> \<not> d_running rt'"
proof -
  obtain fin w r where w: "gpu_model_wait cfg v GPU_WAIT_LIMIT (rt_exec rt) (rt_world rt) = Some (fin, w)"
    and rt': "rt' = (release_launch_args dev (rt\<lparr>rt_world := w, d_running := False\<rparr>))\<lparr>d_reference := r\<rparr>"
    and s: "fin \<and> \<not> gpu_model_fault cfg v (rt_exec rt) w \<and>
       (has_ref cfg \<longrightarrow> \<not> d_ref_fault rt \<and>
          (\<exists>ref. d_reference rt = Some ref \<and> pmem_equal cfg ref (sm_mem w)))"
    using gpu_wait_cases[OF assms(7,2,3)] by auto
  have hm: "cfg_hm cfg" "cfg_difftest cfg" using assms(1) by (simp_all add: has_ref_def)
  have e: "rt_world rt' = w" by (simp add: rt')
  have "gpu_rtl_wait cfg v GPU_WAIT_LIMIT (rt_world rt) = Some (True, w)"
    using w s hm assms(4,5) by (simp add: gpu_model_wait_def)
  then have "\<not> v_busy v (w_top w)" "memories_agree cfg (sm_mem w) (m_mem (w_model w))"
    using gpu_rtl_wait_lockstep[of cfg v GPU_WAIT_LIMIT "rt_world rt" w] hm assms(6)
    by (auto simp: GPU_WAIT_LIMIT_def)
  then show ?thesis
    using s assms(1,4,5) hm by (auto simp: e rt_mem_def pmem_equal_iff gpu_model_fault_def gpu_rtl_fault_def rt')
qed

theorem wait_success_three_models_agree_witness:
  "\<exists>rt'. gpu_wait tiny_config idle_top Dev_Singleton idle_run = Some (GPU_SUCCESS, rt') \<and>
     memories_agree tiny_config (\<lambda>_. 0) (rt_mem rt')"
proof -
  obtain w where w: "gpu_rtl_wait tiny_config idle_top GPU_WAIT_LIMIT idle_world = Some (True, w)"
      "\<not> w_diff_failed w" "list_all (\<lambda>i. sm_mem w (of_nat i) = 0) [0..<unat (cfg_msize tiny_config)]"
    using idle_wait[of GPU_WAIT_LIMIT] by (auto simp: GPU_WAIT_LIMIT_def)
  have r: "has_ref tiny_config" "valid_device Dev_Singleton idle_run" "d_running idle_run"
      "rt_exec idle_run = Some \<lparr>gm_kind = GPU_MODEL_HM, gm_num_harts = 1\<rparr>" "rt_world idle_run = idle_world"
      "d_reference idle_run = Some (\<lambda>_. 0)" "\<not> d_ref_fault idle_run" "\<not> d_args_used idle_run"
    by (simp_all add: has_ref_def tiny_config_def valid_device_def idle_run_def static_runtime_def)
  have eq: "pmem_equal tiny_config (\<lambda>_. 0) (sm_mem w)"
    using w(3) by (simp add: pmem_equal_def list_all_iff)
  have "\<exists>rt'. gpu_wait tiny_config idle_top Dev_Singleton idle_run = Some (GPU_SUCCESS, rt')"
    using w(1,2) r eq
    by (auto simp: gpu_wait_def gpu_model_wait_def gpu_model_fault_def gpu_rtl_fault_def has_ref_def Let_def
        wait_compare_def rt_mem_def idle_top_def)
  then obtain rt' where s: "gpu_wait tiny_config idle_top Dev_Singleton idle_run = Some (GPU_SUCCESS, rt')" by blast
  from wait_success_three_models_agree[OF r(1-4) _ _ s] s show ?thesis
    using r(5,6) idle_active by auto
qed

end
