(* ===== verification/Launch_Props.thy ===== *)
theory Launch_Props
  imports Runtime_Props
begin

text \<open>
  The launch and wait properties of the runtime as statements about the public calls, with
  their examples.
\<close>

subsection \<open>Examples\<close>

definition example_top :: "unit verilated" where
  "example_top = \<lparr>v_eval = (\<lambda>p t. Done t), v_busy = (\<lambda>t. False), v_fault = (\<lambda>t. False)\<rparr>"

text \<open>The open device with a kernel that is a single \<open>ebreak\<close>.\<close>

definition example_ready :: "unit runtime" where
  "example_ready = (set_mem ebreak_mem example_rt)\<lparr>
     rt_exec := Some \<lparr>gm_kind = GPU_MODEL_SM, gm_num_harts = 32\<rparr>, d_generation := 1, d_fresh := 1,
     d_kernels := [(0, \<lparr>kn_device = Dev_Singleton, kn_entry = GPU_KERNEL_BASE, kn_generation = 1\<rparr>)]\<rparr>"

definition example_info :: launch_info where
  "example_info = \<lparr>li_grid = \<lparr>dim_x = 2, dim_y = 1, dim_z = 1\<rparr>, li_block = \<lparr>dim_x = 3, dim_y = 1, dim_z = 1\<rparr>,
     li_args_host = Some [7, 8], li_args_size = 2\<rparr>"

definition example_env :: launch_env where
  "example_env = \<lparr>le_initial = True, le_reference = True, le_contexts = True\<rparr>"

lemma example_ready_state: "heap_state_ok default_config example_ready"
  using example_heap_state by (simp add: heap_state_ok_def example_ready_def valid_device_def)

lemma example_ready_fields:
  "rt_exec example_ready = Some \<lparr>gm_kind = GPU_MODEL_SM, gm_num_harts = 32\<rparr>" "\<not> d_running example_ready"
  "d_generation example_ready = 1" "d_kernels example_ready =
     [(0, \<lparr>kn_device = Dev_Singleton, kn_entry = GPU_KERNEL_BASE, kn_generation = 1\<rparr>)]"
  "live_blocks example_ready = {}"
  by (simp_all add: example_ready_def example_rt_fields live_blocks_def empty_allocations_def no_allocation_def)

lemma example_launch_runs:
  "\<exists>rt'. gpu_launch default_config example_top example_env Dev_Singleton (Some 0) (Some example_info) example_ready
     = Some (GPU_SUCCESS, rt')"
proof -
  have "map_option fst (gpu_launch default_config example_top example_env Dev_Singleton (Some 0)
      (Some example_info) example_ready) = Some GPU_SUCCESS" by code_simp
  then show ?thesis by auto
qed


subsection \<open>Properties\<close>

text \<open>
  C17. The geometry guard of \<open>gpu_launch\<close> accepts exactly the launches with no zero
  dimension, whose block fits the lanes of a core and whose number of threads fits 32 bits,
  all products taken without overflow, and computes the true block size.
\<close>

theorem launch_guard_exact:
  assumes "config_ok cfg"
  shows "launch_block_size cfg grid block = Some bs \<longleftrightarrow>
    dim_positive grid \<and> dim_positive block \<and> unat bs = dim_volume block \<and>
    dim_volume block \<le> lanes_per_core cfg \<and> dim_volume grid * dim_volume block < 2 ^ 32"
  by (rule launch_block_size_iff[OF assms])

theorem launch_guard_exact_witness:
  "launch_block_size default_config \<lparr>dim_x = 0x40000004, dim_y = 4294966897, dim_z = 4\<rparr> dim_ones = None"
  using launch_guard_exact[OF default_config_ok, of "\<lparr>dim_x = 0x40000004, dim_y = 4294966897, dim_z = 4\<rparr>" dim_ones]
  by (cases "launch_block_size default_config \<lparr>dim_x = 0x40000004, dim_y = 4294966897, dim_z = 4\<rparr> dim_ones")
     (auto simp: dim_volume_def dim_ones_def)

text \<open>
  C18. A successful \<open>gpu_launch\<close> on the functional simulator has started the grid that the
  caller described: one thread per position of the grid, each with its own coordinates and
  hart number, at the entry point of the kernel, with zero registers, the address of the
  argument block, and a slot among the hardware threads; no fault is pending. The bytes of
  the arguments are on the device at that address, in a block apart from all allocations,
  and the rest of the device memory is unchanged.
\<close>

theorem launch_starts_grid:
  assumes ok: "heap_state_ok cfg rt" and sm: "\<not> cfg_hm cfg" "rt_exec rt = Some g" "gm_kind g = GPU_MODEL_SM"
    and n: "unat (gm_num_harts g) = num_harts cfg"
    and l: "gpu_launch cfg v env Dev_Singleton (Some ker) (Some info) rt = Some (GPU_SUCCESS, rt')"
  shows "\<exists>k. map_of (d_kernels rt) ker = Some k \<and> kn_generation k = d_generation rt \<and>
    (let w = rt_world rt' in
       length (iss_cores w) = dim_volume (li_grid info) * dim_volume (li_block info) \<and>
       (\<forall>i < length (iss_cores w).
          launched_thread cfg info (kn_entry k) (d_launch_args rt') i (iss_cores w ! i)) \<and>
       iss_inv (sm.truncate w) \<and> \<not> iss_faulted w) \<and>
    (li_args_size info \<noteq> 0 \<longrightarrow> args_placed cfg info rt rt')"
  using l
proof (cases rule: gpu_launch_cases)
  case rejected
  then show ?thesis by simp
next
  case (no_args k info' bs e)
  note K = launch_kernel_ok_Some[OF no_args(1)]
  have ne: "li_args_size info' \<noteq> 0" using no_args(4) by (auto simp: launch_args_def Let_def)
  then obtain src where "li_args_host info' = Some src" using K no_args(2) by auto
  from launch_args_placed[OF ok _ ne this no_args(4)] show ?thesis using K no_args by auto
next
  case (started k info' bs rt1 w1 w2)
  have i: "info' = info" using started(2) by simp
  note K = launch_kernel_ok_Some[OF started(1)]
  have w2: "w2 = w1" using started(6) sm(1) by (simp add: has_ref_def)
  have cfg: "config_ok cfg" using ok by (simp add: heap_state_ok_def)
  have same: "same_device rt rt1 \<and> (li_args_size info \<noteq> 0 \<longrightarrow> args_placed cfg info rt rt1)"
  proof (cases "li_args_size info = 0")
    case True
    then show ?thesis using started(4) by (auto simp: launch_args_def Let_def i same_device_def)
  next
    case False
    then obtain src where "li_args_host info = Some src" using K i by auto
    from launch_args_placed[OF ok _ False this started(4)[unfolded i]] show ?thesis
      using K False by auto
  qed
  then have ex: "rt_exec rt1 = Some g" using sm(2) by (simp add: same_device_def)
  note C = configure_sm[OF started(5)[unfolded ex i] sm(3)]
  obtain s s' where S: "gpu_iss_init (gm_num_harts g) s = Some s'"
      "s = sm.truncate (on_trace (\<lambda>t. t\<lparr>tr_events := 0\<rparr>) w1)"
      "gpu_iss_launch cfg (le_contexts env) s' = Some (True, sm.truncate (rt_world rt'))"
      "rt' = rt1\<lparr>rt_world := rt_world rt', d_running := True\<rparr>"
    using launch_start_sm[OF started(7) sm(1) _ sm(3)] ex w2 by auto
  note I = gpu_iss_init_fields[OF S(1)]
  have f: "iss_startup_pc s' = kn_entry k" "iss_args_addr s' = d_launch_args rt1" "iss_block s' = li_block info"
      "iss_grid s' = li_grid info" "iss_block_size s' = bs" "unat (iss_physical_count s') = num_harts cfg"
      "sm_mem s' = sm_mem (rt_world rt1)"
    using I C n by (simp_all add: S(2) on_trace_def sm.truncate_def)
  note T = launched_threads[OF cfg started(3)[unfolded i] f(1-6) S(3)]
  have vol: "dim_volume (iss_grid s') * dim_volume (iss_block s') < 2 ^ 32"
    using started(3) by (simp add: i f launch_block_size_iff[OF cfg])
  have inv: "iss_inv (sm.truncate (rt_world rt'))" "\<not> iss_faulted (sm.truncate (rt_world rt'))"
    using gpu_iss_launch_inv[OF S(3) _ vol] gpu_iss_launch_True(7)[OF S(3) vol] I by simp_all
  have a: "d_launch_args rt' = d_launch_args rt1" "d_args_used rt' = d_args_used rt1"
      "live_blocks rt' = live_blocks rt1"
    by (subst S(4), simp add: live_blocks_def)+
  have m: "sm_mem (rt_world rt') = sm_mem (rt_world rt1)"
    using gpu_iss_launch_mem[OF S(3)] f(7) by simp
  have "li_args_size info \<noteq> 0 \<longrightarrow> args_placed cfg info rt rt'"
    using same by (simp add: args_placed_def a dev_byte_def rt_mem_def m)
  then show ?thesis
    using K T inv unfolding Let_def a(1) truncate_fields by blast
qed

theorem launch_starts_grid_witness:
  "\<exists>rt'. gpu_launch default_config example_top example_env Dev_Singleton (Some 0) (Some example_info) example_ready
      = Some (GPU_SUCCESS, rt') \<and>
    length (iss_cores (rt_world rt')) = 6 \<and> args_placed default_config example_info example_ready rt'"
proof -
  obtain rt' where rt': "gpu_launch default_config example_top example_env Dev_Singleton (Some 0)
      (Some example_info) example_ready = Some (GPU_SUCCESS, rt')"
    using example_launch_runs by blast
  have n: "unat (gm_num_harts \<lparr>gm_kind = GPU_MODEL_SM, gm_num_harts = 32\<rparr>) = num_harts default_config"
    by (simp add: num_harts_def default_config_def)
  from launch_starts_grid[OF example_ready_state _ example_ready_fields(1) _ n rt'] rt' show ?thesis
    by (auto simp: default_config_def example_info_def dim_volume_def Let_def)
qed

text \<open>
  C19. No launch leaks device memory: a call of \<open>gpu_launch\<close> that fails, at any point and on
  either backend, leaves the allocated blocks as they were and the device not running; one
  that succeeds adds at most the block of its arguments.
\<close>

theorem failed_launch_leaks_nothing:
  assumes "heap_state_ok cfg rt" and "\<not> d_running rt"
    and "gpu_launch cfg v env Dev_Singleton kptr ip rt = Some (res, rt')"
  shows "heap_ok cfg (d_allocs rt') \<and> (d_running rt' \<longleftrightarrow> res = GPU_SUCCESS) \<and>
    (res \<noteq> GPU_SUCCESS \<longrightarrow> live_blocks rt' = live_blocks rt) \<and>
    (res = GPU_SUCCESS \<longrightarrow> (\<exists>new. live_blocks rt' = new \<union> live_blocks rt \<and>
       (\<forall>p \<in> new. d_args_used rt' \<and> fst p = unat (d_launch_args rt') \<and>
          (\<forall>q \<in> live_blocks rt. span_apart p q))))"
proof -
  note L = gpu_launch_live[OF assms(3,1,2)]
  have "\<exists>new. live_blocks rt' = new \<union> live_blocks rt \<and>
       (\<forall>p \<in> new. d_args_used rt' \<and> fst p = unat (d_launch_args rt') \<and> (\<forall>q \<in> live_blocks rt. span_apart p q))"
    if s: "res = GPU_SUCCESS"
  proof -
    obtain info :: launch_info where i: "if li_args_size info = 0 then \<not> d_args_used rt' \<and> live_blocks rt' = live_blocks rt
        else \<exists>n. d_args_used rt' \<and> live_blocks rt' = insert (unat (d_launch_args rt'), n) (live_blocks rt) \<and>
               unat (li_args_size info) \<le> n \<and> (\<forall>q \<in> live_blocks rt. span_apart (unat (d_launch_args rt'), n) q) \<and>
               (\<forall>q \<in> live_blocks rt. fst q \<noteq> unat (d_launch_args rt'))"
      using conjunct2[OF conjunct2[OF conjunct2[OF L]]] unfolding s if_P[OF refl] by blast
    show ?thesis
    proof (cases "li_args_size info = 0")
      case True
      then show ?thesis using i by (intro exI[of _ "{}"]) simp
    next
      case False
      then obtain n where "d_args_used rt'" "live_blocks rt' = insert (unat (d_launch_args rt'), n) (live_blocks rt)"
          "\<forall>q \<in> live_blocks rt. span_apart (unat (d_launch_args rt'), n) q"
        using i by auto
      then show ?thesis by (intro exI[of _ "{(unat (d_launch_args rt'), n)}"]) simp
    qed
  qed
  then show ?thesis using L by (auto simp: heap_state_ok_def split: if_splits)
qed

theorem failed_launch_leaks_nothing_witness:
  "\<exists>rt'. gpu_launch default_config example_top (example_env\<lparr>le_contexts := False\<rparr>) Dev_Singleton (Some 0)
      (Some example_info) example_ready = Some (GPU_ERROR_BACKEND, rt') \<and> live_blocks rt' = {}"
proof -
  have "map_option fst (gpu_launch default_config example_top (example_env\<lparr>le_contexts := False\<rparr>)
      Dev_Singleton (Some 0) (Some example_info) example_ready) = Some GPU_ERROR_BACKEND" by code_simp
  then obtain rt' where "gpu_launch default_config example_top (example_env\<lparr>le_contexts := False\<rparr>)
      Dev_Singleton (Some 0) (Some example_info) example_ready = Some (GPU_ERROR_BACKEND, rt')" by auto
  from failed_launch_leaks_nothing[OF example_ready_state example_ready_fields(2) this] this show ?thesis
    by (auto simp: example_ready_fields)
qed

end
