(* ===== verification/Cstring.thy ===== *)
theory Cstring
  imports Prelude
begin

text \<open>
  The parts of the C library that the host programs use on strings, in the \<open>C\<close> locale:
  character classes, \<open>strcmp\<close>, \<open>strtoll\<close> and \<open>strtoull\<close>. A \<open>char *\<close> is the list of the
  characters before the terminating NUL.
\<close>

subsection \<open>Characters\<close>

abbreviation char_code :: "char \<Rightarrow> nat" where
  "char_code c \<equiv> of_char c"

definition is_space :: "char \<Rightarrow> bool" where
  "is_space c \<longleftrightarrow> char_code c = 32 \<or> (9 \<le> char_code c \<and> char_code c \<le> 13)"

definition is_digit :: "char \<Rightarrow> bool" where
  "is_digit c \<longleftrightarrow> 48 \<le> char_code c \<and> char_code c \<le> 57"

definition is_upper :: "char \<Rightarrow> bool" where
  "is_upper c \<longleftrightarrow> 65 \<le> char_code c \<and> char_code c \<le> 90"

definition is_lower :: "char \<Rightarrow> bool" where
  "is_lower c \<longleftrightarrow> 97 \<le> char_code c \<and> char_code c \<le> 122"

definition is_alnum :: "char \<Rightarrow> bool" where
  "is_alnum c \<longleftrightarrow> is_digit c \<or> is_upper c \<or> is_lower c"

definition is_xdigit :: "char \<Rightarrow> bool" where
  "is_xdigit c \<longleftrightarrow> is_digit c \<or> (65 \<le> char_code c \<and> char_code c \<le> 70) \<or>
     (97 \<le> char_code c \<and> char_code c \<le> 102)"

definition to_lower :: "char \<Rightarrow> char" where
  "to_lower c = (if is_upper c then char_of (char_code c + 32) else c)"

text \<open>The value of a digit in any base up to 36; 255 is no digit of any base.\<close>

definition digit_value :: "char \<Rightarrow> nat" where
  "digit_value c =
     (if is_digit c then char_code c - 48
      else if is_lower c then char_code c - 87
      else if is_upper c then char_code c - 55
      else 255)"

subsection \<open>Comparison\<close>

text \<open>The sign of \<open>strcmp\<close>, which compares bytes as unsigned numbers.\<close>

fun str_cmp :: "string \<Rightarrow> string \<Rightarrow> int" where
  "str_cmp [] [] = 0"
| "str_cmp [] (_ # _) = - 1"
| "str_cmp (_ # _) [] = 1"
| "str_cmp (a # as) (b # bs) =
     (if char_code a < char_code b then - 1
      else if char_code b < char_code a then 1 else str_cmp as bs)"

lemma str_cmp_eq_0: "str_cmp a b = 0 \<longleftrightarrow> a = b"
  by (induction a b rule: str_cmp.induct) auto

lemma str_cmp_swap: "str_cmp b a = - str_cmp a b"
  by (induction a b rule: str_cmp.induct) auto

subsection \<open>Numbers\<close>

definition digits_value :: "nat \<Rightarrow> string \<Rightarrow> nat" where
  "digits_value base ds = foldl (\<lambda>v c. v * base + digit_value c) 0 ds"

text \<open>The prefix that the bases 16 and 0 allow: the base that is used and what follows.\<close>

definition hex_prefix :: "string \<Rightarrow> bool" where
  "hex_prefix s \<longleftrightarrow>
     (case s of z # x # h # _ \<Rightarrow> z = CHR ''0'' \<and> (x = CHR ''x'' \<or> x = CHR ''X'') \<and> digit_value h < 16
      | _ \<Rightarrow> False)"

definition number_prefix :: "nat \<Rightarrow> string \<Rightarrow> nat \<times> string" where
  "number_prefix base s =
     (if (base = 0 \<or> base = 16) \<and> hex_prefix s then (16, drop 2 s)
      else if base = 0 then (if take 1 s = ''0'' then (8, s) else (10, s))
      else (base, s))"

text \<open>
  Leading space, sign, prefix and digits: whether the number is negated, its magnitude and
  the rest of the string; \<open>None\<close> when there is no digit.
\<close>

definition scan_number :: "nat \<Rightarrow> string \<Rightarrow> (bool \<times> nat \<times> string) option" where
  "scan_number base s =
     (let body = dropWhile is_space s;
          neg = (take 1 body = ''-'');
          unsigned = (if neg \<or> take 1 body = ''+'' then tl body else body);
          (b, num) = number_prefix base unsigned;
          ds = takeWhile (\<lambda>c. digit_value c < b) num
      in if ds = [] then None
         else Some (neg, digits_value b ds, dropWhile (\<lambda>c. digit_value c < b) num))"

text \<open>
  \<open>strtoull\<close> and \<open>strtoll\<close>: the value, whether \<open>errno\<close> is set (\<open>ERANGE\<close>) and the tail. A sign
  negates an unsigned result modulo \<open>2 ^ 64\<close>; without digits the tail is the whole string.
\<close>

definition strtoull :: "nat \<Rightarrow> string \<Rightarrow> u64 \<times> bool \<times> string" where
  "strtoull base s =
     (case scan_number base s of
        None \<Rightarrow> (0, False, s)
      | Some (neg, n, rest) \<Rightarrow>
          if 2 ^ 64 \<le> n then (- 1, True, rest)
          else (if neg then - of_nat n else of_nat n, False, rest))"

definition strtoll :: "nat \<Rightarrow> string \<Rightarrow> int \<times> bool \<times> string" where
  "strtoll base s =
     (case scan_number base s of
        None \<Rightarrow> (0, False, s)
      | Some (neg, n, rest) \<Rightarrow>
          (let v = (if neg then - int n else int n)
           in if v < - (2 ^ 63) then (- (2 ^ 63), True, rest)
              else if 2 ^ 63 - 1 < v then (2 ^ 63 - 1, True, rest)
              else (v, False, rest)))"

lemma strtoll_range: "- (2 ^ 63) \<le> fst (strtoll base s) \<and> fst (strtoll base s) \<le> 2 ^ 63 - 1"
  by (auto simp: strtoll_def Let_def split: option.splits prod.splits)

lemma scan_number_letter:
  assumes "\<not> is_space c" "c \<noteq> CHR ''-''" "c \<noteq> CHR ''+''" "10 \<le> digit_value c" "c \<noteq> CHR ''0''"
    "base = 0 \<or> base = 10"
  shows "scan_number base (c # s) = None"
  using assms by (auto simp: scan_number_def number_prefix_def hex_prefix_def split: list.splits)

subsection \<open>Printed numbers\<close>

text \<open>\<open>printf\<close> with \<open>%lld\<close> and \<open>0x%llx\<close>.\<close>

fun number_text :: "nat \<Rightarrow> nat \<Rightarrow> string" where
  "number_text base n =
     (if base < 2 \<or> n < base then [''0123456789abcdef'' ! n]
      else number_text base (n div base) @ [''0123456789abcdef'' ! (n mod base)])"

declare number_text.simps [simp del]

definition decimal_text :: "int \<Rightarrow> string" where
  "decimal_text v = (if v < 0 then ''-'' @ number_text 10 (nat (- v)) else number_text 10 (nat v))"

definition hex_text :: "int \<Rightarrow> string" where
  "hex_text v = ''0x'' @ number_text 16 (unat (of_int v :: u64))"

end
