(* ===== verification/Startup.thy ===== *)
theory Startup
  imports Runtime Cstring
begin

text \<open>
  Start-up and shut-down of the runtime: the command line options of
  \<open>memu_runtime_init\<close>, the creation of the models and \<open>memu_runtime_fini\<close> (\<open>gpu.c\<close>), and the
  launcher \<open>main\<close> (\<open>sw/launcher.cpp\<close>).
\<close>

subsection \<open>The trace limit\<close>

text \<open>The limit is read by \<open>strtoull\<close> with base 0; \<open>errno\<close> is not looked at.\<close>

definition parse_limit :: "string \<Rightarrow> u64 option" where
  "parse_limit value =
     (let (parsed, _, rest) = strtoull 0 value in
      if rest \<noteq> [] \<or> parsed = 0 then None else Some parsed)"

subsection \<open>The option loop\<close>

definition trace_limit_prefix :: string where
  "trace_limit_prefix = ''--gpu-trace-limit=''"

text \<open>
  The loop over \<open>argv[1..]\<close>: the arguments that are kept, in order, and the trace settings;
  \<open>None\<close> is the return of -1. The settings made before an error stay.
\<close>

fun parse_args :: "string list \<Rightarrow> trace \<Rightarrow> string list option \<times> trace" where
  "parse_args [] t = (Some [], t)"
| "parse_args (a # as) t =
     (if a = ''--gpu-trace'' then parse_args as (t\<lparr>tr_requested := True\<rparr>)
      else if a = ''--gpu-trace-limit'' then
        (case as of
           [] \<Rightarrow> (None, t)
         | value # rest \<Rightarrow>
             (case parse_limit value of
                None \<Rightarrow> (None, t)
              | Some n \<Rightarrow> parse_args rest (t\<lparr>tr_limit := n\<rparr>)))
      else if take 18 a = trace_limit_prefix then
        (case parse_limit (drop 18 a) of
           None \<Rightarrow> (None, t)
         | Some n \<Rightarrow> parse_args as (t\<lparr>tr_limit := n\<rparr>))
      else (case parse_args as t of (kept, t') \<Rightarrow> (map_option (Cons a) kept, t')))"

subsection \<open>Initialisation and shut-down\<close>

definition model_choice :: "gpu_config \<Rightarrow> model_kind" where
  "model_choice cfg = (if cfg_hm cfg then GPU_MODEL_HM else GPU_MODEL_SM)"

text \<open>
  \<open>memu_runtime_init\<close> returns -1 or 0, the application's arguments and the new state.
  \<open>out_ok\<close>: neither output pointer is \<open>NULL\<close>; \<open>calloc_ok\<close>: PMEM could be allocated.
\<close>

definition memu_runtime_init ::
  "gpu_config \<Rightarrow> 't verilated \<Rightarrow> bool \<Rightarrow> bool \<Rightarrow> string list \<Rightarrow> 't runtime \<Rightarrow>
     (int \<times> string list \<times> 't runtime) option" where
  "memu_runtime_init cfg v calloc_ok out_ok argv rt =
     (if rt_initialized rt \<or> \<not> out_ok then Some (-1, argv, rt)
      else
        let (kept, t) = parse_args (tl argv) (sm_trace (rt_world rt));
            w0 = (rt_world rt)\<lparr>sm_trace := t\<rparr>
        in (case kept of
             None \<Rightarrow> Some (-1, argv, rt\<lparr>rt_world := w0\<rparr>)
           | Some args \<Rightarrow> do {
               m \<leftarrow> init_mem calloc_ok;
               (ok, ex, w1) \<leftarrow> gpu_model_init cfg v (of_nat (num_harts cfg))
                                (gpu_model_create cfg (model_choice cfg)) (w0\<lparr>sm_mem := m\<rparr>);
               let app = take 1 argv @ args;
               if \<not> ok
               then Some (-1, app, rt\<lparr>rt_world := gpu_model_destroy cfg ex w1, rt_exec := None\<rparr>)
               else do {
                 (ref_ok, ref, w2) \<leftarrow>
                   (if has_ref cfg
                    then gpu_model_init cfg v (of_nat (num_harts cfg)) (gpu_model_create cfg GPU_MODEL_SM) w1
                    else Some (True, None, w1));
                 if \<not> ref_ok
                 then Some (-1, app, rt\<lparr>rt_world := gpu_model_destroy cfg ex w2, rt_exec := None, rt_ref := None\<rparr>)
                 else Some (0, app,
                   rt\<lparr>rt_world := w2, rt_initialized := True, rt_exec := ex, rt_ref := ref,
                      d_opened := False, d_running := False, d_generation := 0,
                      d_allocs := empty_allocations, d_kernels := [], d_launch_args := 0,
                      d_args_used := False, d_reference := None, d_ref_fault := False\<rparr>) } }))"

definition memu_runtime_fini :: "gpu_config \<Rightarrow> 't runtime \<Rightarrow> 't runtime" where
  "memu_runtime_fini cfg rt =
     (if \<not> rt_initialized rt then rt
      else
        let rt1 = (if d_opened rt then snd (gpu_device_close cfg Dev_Singleton rt) else rt);
            w1 = gpu_model_destroy cfg (rt_exec rt1) (rt_world rt1);
            w2 = (if has_ref cfg then gpu_model_destroy cfg (rt_ref rt1) w1 else w1)
        in rt1\<lparr>rt_world := w2, rt_exec := None, rt_ref := None, rt_initialized := False\<rparr>)"

text \<open>\<open>main\<close>: the front end is the application, a parameter.\<close>

definition launcher_main ::
  "gpu_config \<Rightarrow> 't verilated \<Rightarrow> bool \<Rightarrow> (string list \<Rightarrow> 't runtime \<Rightarrow> (int \<times> 't runtime) option) \<Rightarrow>
     string list \<Rightarrow> 't runtime \<Rightarrow> (int \<times> 't runtime) option" where
  "launcher_main cfg v calloc_ok frontend argv rt = do {
     (r, app, rt1) \<leftarrow> memu_runtime_init cfg v calloc_ok True argv rt;
     if r \<noteq> 0 then Some (2, rt1)
     else do {
       (result, rt2) \<leftarrow> frontend app rt1;
       Some (result, memu_runtime_fini cfg rt2) } }"

end
