(* ===== verification/Api.thy ===== *)
theory Api
  imports Launch_Props Startup
begin

text \<open>
  The public interface of the runtime as a state machine: one step per call that changes
  the state, with any arguments, from the static variables before \<open>main\<close>. The invariant of
  the reachable states and its consequences for the host program.
\<close>

subsection \<open>Steps\<close>

inductive api_step :: "gpu_config \<Rightarrow> 't verilated \<Rightarrow> 't runtime \<Rightarrow> 't runtime \<Rightarrow> bool"
  for cfg :: gpu_config and v :: "'t verilated" where
  Init: "memu_runtime_init cfg v c out argv rt = Some (r, app, rt') \<Longrightarrow> api_step cfg v rt rt'"
| Fini: "api_step cfg v rt (memu_runtime_fini cfg rt)"
| Open: "gpu_device_open i out rt = (r1, rt') \<Longrightarrow> api_step cfg v rt rt'"
| Close: "gpu_device_close cfg dev rt = (r2, rt') \<Longrightarrow> api_step cfg v rt rt'"
| Alloc: "gpu_mem_alloc cfg dev sz out rt = Some (r3, rt') \<Longrightarrow> api_step cfg v rt rt'"
| Free: "gpu_mem_free dev a rt = (r2, rt') \<Longrightarrow> api_step cfg v rt rt'"
| Write: "gpu_mem_write cfg dev a src sz rt = Some (r2, rt') \<Longrightarrow> api_step cfg v rt rt'"
| Load: "gpu_kernel_load_memory cfg c dev img sz out rt = Some (r4, rt') \<Longrightarrow> api_step cfg v rt rt'"
| Load_File: "gpu_kernel_load_file cfg c files dev path out rt = Some (r4, rt') \<Longrightarrow> api_step cfg v rt rt'"
| Launch: "gpu_launch cfg v env dev ker info rt = Some (r2, rt') \<Longrightarrow> api_step cfg v rt rt'"
| Wait: "gpu_wait cfg v dev rt = Some (r2, rt') \<Longrightarrow> api_step cfg v rt rt'"

inductive api_reachable :: "gpu_config \<Rightarrow> 't verilated \<Rightarrow> 't runtime \<Rightarrow> bool"
  for cfg :: gpu_config and v :: "'t verilated" where
  Start: "api_reachable cfg v (static_runtime cfg t)"
| Step: "api_reachable cfg v rt \<Longrightarrow> api_step cfg v rt rt' \<Longrightarrow> api_reachable cfg v rt'"

inductive_cases api_stepE: "api_step cfg v rt rt'"

subsection \<open>The invariant\<close>

text \<open>Handles are numbered in the order of loading, and so are the generations.\<close>

definition kernels_ok :: "'t runtime \<Rightarrow> bool" where
  "kernels_ok rt \<longleftrightarrow> distinct (map fst (d_kernels rt)) \<and>
     (\<forall>(i, k) \<in> set (d_kernels rt). i < d_fresh rt \<and> kn_device k = Dev_Singleton \<and> kn_entry k = GPU_KERNEL_BASE) \<and>
     (\<forall>j < length (d_kernels rt). kn_generation (snd (d_kernels rt ! j)) = of_nat (length (d_kernels rt) - j)) \<and>
     (d_opened rt \<longrightarrow> d_generation rt = of_nat (length (d_kernels rt)))"

definition api_inv :: "gpu_config \<Rightarrow> 't runtime \<Rightarrow> bool" where
  "api_inv cfg rt \<longleftrightarrow> heap_ok cfg (d_allocs rt) \<and> kernels_ok rt \<and>
     (d_running rt \<longrightarrow> d_opened rt) \<and> (d_args_used rt \<longrightarrow> d_running rt)"

lemma kernels_ok_same:
  "kernels_ok rt \<Longrightarrow> d_kernels rt' = d_kernels rt \<Longrightarrow> d_fresh rt' = d_fresh rt \<Longrightarrow>
   d_generation rt' = d_generation rt \<Longrightarrow> d_opened rt' = d_opened rt \<Longrightarrow> kernels_ok rt'"
  by (simp add: kernels_ok_def)

lemma api_inv_init:
  assumes "memu_runtime_init cfg v c out argv rt = Some (r, app, rt')" and "api_inv cfg rt"
  shows "api_inv cfg rt'"
  using assms
  by (auto simp: memu_runtime_init_def api_inv_def kernels_ok_def heap_ok_empty Let_def
      split: if_splits prod.splits option.splits bind_splits)

lemma api_inv_close:
  "gpu_device_close cfg dev rt = (r, rt') \<Longrightarrow> api_inv cfg rt \<Longrightarrow> api_inv cfg rt'"
  by (auto simp: gpu_device_close_def api_inv_def heap_ok_empty kernels_ok_def split: if_splits)

lemma api_inv_fini: "api_inv cfg rt \<Longrightarrow> api_inv cfg (memu_runtime_fini cfg rt)"
  using api_inv_close[of cfg Dev_Singleton rt "fst (gpu_device_close cfg Dev_Singleton rt)"
      "snd (gpu_device_close cfg Dev_Singleton rt)"]
  by (auto simp: memu_runtime_fini_def Let_def api_inv_def kernels_ok_def)

lemma api_inv_open:
  "gpu_device_open i out rt = (r, rt') \<Longrightarrow> api_inv cfg rt \<Longrightarrow> api_inv cfg rt'"
  by (auto simp: gpu_device_open_def api_inv_def heap_ok_empty kernels_ok_def split: if_splits)

lemma raw_write_Some: "raw_write cfg a bs rt = Some rt' \<Longrightarrow> \<exists>m. rt' = set_mem m rt"
  by (auto simp: raw_write_eq split: if_splits)

lemma api_inv_set_mem [simp]: "api_inv cfg (set_mem m rt) = api_inv cfg rt"
  by (simp add: api_inv_def kernels_ok_def)

lemma api_inv_allocs:
  "api_inv cfg rt \<Longrightarrow> heap_ok cfg as \<Longrightarrow> api_inv cfg (rt\<lparr>d_allocs := as\<rparr>)"
  by (simp add: api_inv_def kernels_ok_def)

lemma api_inv_alloc:
  assumes "gpu_mem_alloc cfg dev sz out rt = Some (r, rt')" and "api_inv cfg rt" and "config_ok cfg"
  shows "api_inv cfg rt'"
proof (cases "valid_device dev rt \<and> out \<and> sz \<noteq> 0 \<and> \<not> 0xffffffff < sz")
  case False
  then show ?thesis using assms by (auto simp: gpu_mem_alloc_def)
next
  case True
  have h: "heap_ok cfg (d_allocs rt)" using assms(2) by (simp add: api_inv_def)
  have o: "gpu_mem_alloc cfg dev sz True rt = Some (r, rt')" using assms(1) True by simp
  have "sz \<le> 0xffffffff" using True by (simp add: not_less)
  from gpu_mem_alloc_cases[OF assms(3) h _ _ this] True
  consider "rt' = rt" | a where "alloc_done cfg (reserved sz) a rt rt'"
      "rt' = set_mem (rt_mem rt') (rt\<lparr>d_allocs := d_allocs rt'\<rparr>)"
    using o by fastforce
  then show ?thesis
  proof cases
    case 1
    then show ?thesis using assms(2) by simp
  next
    case 2
    have "heap_ok cfg (d_allocs rt')" using alloc_done_heap_ok(1)[OF assms(3) h 2(1)] True by simp
    then have "api_inv cfg (set_mem (rt_mem rt') (rt\<lparr>d_allocs := d_allocs rt'\<rparr>))"
      using api_inv_allocs[OF assms(2)] by simp
    then show ?thesis using 2(2) by simp
  qed
qed

lemma api_inv_free:
  "gpu_mem_free dev a rt = (r, rt') \<Longrightarrow> api_inv cfg rt \<Longrightarrow> api_inv cfg rt'"
  using heap_ok_release
  by (auto simp: gpu_mem_free_def api_inv_def kernels_ok_def split: if_splits option.splits)

lemma api_inv_write:
  "gpu_mem_write cfg dev a src sz rt = Some (r, rt') \<Longrightarrow> api_inv cfg rt \<Longrightarrow> api_inv cfg rt'"
  by (auto simp: gpu_mem_write_def split: option.splits if_splits bind_splits dest!: raw_write_Some)

lemma api_inv_load:
  assumes "gpu_kernel_load_memory cfg c dev img sz out rt = Some (r, rt')" and "api_inv cfg rt"
  shows "api_inv cfg rt'"
proof (cases "rt' = rt")
  case True
  then show ?thesis using assms(2) by simp
next
  case False
  then obtain m where v: "valid_device dev rt"
    and e: "rt' = (set_mem m rt)\<lparr>d_generation := d_generation rt + 1, d_fresh := d_fresh rt + 1,
        d_kernels := (d_fresh rt, \<lparr>kn_device = dev, kn_entry = GPU_KERNEL_BASE,
                                   kn_generation = d_generation rt + 1\<rparr>) # d_kernels rt\<rparr>"
    using assms(1)
    by (auto simp: gpu_kernel_load_memory_def Let_def raw_write_eq split: if_splits bind_splits) (auto simp: set_mem_def)
  have K: "kernels_ok rt" using assms(2) by (simp add: api_inv_def)
  have g: "d_generation rt = of_nat (length (d_kernels rt))" "dev = Dev_Singleton"
    using K v by (auto simp: kernels_ok_def valid_device_def)
  have "kernels_ok rt'"
    using K g unfolding kernels_ok_def e by (auto simp: nth_Cons' add.commute)
  then show ?thesis using assms(2) by (simp add: api_inv_def e)
qed


lemma api_inv_launch:
  assumes l: "gpu_launch cfg v env dev ker info rt = Some (r, rt')" and inv: "api_inv cfg rt"
    and cfg: "config_ok cfg"
  shows "api_inv cfg rt'"
proof (cases "valid_device dev rt \<and> \<not> d_running rt")
  case False
  have "rt' = rt"
    using l
  proof (cases rule: gpu_launch_cases)
    case rejected
    then show ?thesis by simp
  next
    case no_args
    then show ?thesis using False launch_kernel_ok_Some[OF no_args(1)] by blast
  next
    case started
    then show ?thesis using False launch_kernel_ok_Some[OF started(1)] by blast
  qed
  then show ?thesis using inv by simp
next
  case True
  then have dev: "dev = Dev_Singleton" and ok: "heap_state_ok cfg rt"
    using inv cfg by (auto simp: valid_device_def heap_state_ok_def api_inv_def)
  note L = gpu_launch_live[OF l[unfolded dev] ok]
  have "d_args_used rt' \<longrightarrow> d_running rt'"
    using l
  proof (cases rule: gpu_launch_cases)
    case rejected
    then show ?thesis using inv by (simp add: api_inv_def)
  next
    case (no_args k info' bs e)
    note K = launch_kernel_ok_Some[OF no_args(1)]
    have ne: "li_args_size info' \<noteq> 0" using no_args(4) by (auto simp: launch_args_def Let_def)
    then obtain src where "li_args_host info' = Some src" using K no_args(2) by auto
    from launch_args_placed[OF ok _ ne this no_args(4)[unfolded dev]] show ?thesis using K no_args by auto
  next
    case (started k info' bs rt1 w1 w2)
    then show ?thesis using launch_start_cases[OF started(7)] by auto
  qed
  then show ?thesis
    using L True inv by (auto simp: api_inv_def heap_state_ok_def same_device_def kernels_ok_def valid_device_def)
qed

lemma api_inv_wait:
  assumes w: "gpu_wait cfg v dev rt = Some (r, rt')" and inv: "api_inv cfg rt" and cfg: "config_ok cfg"
  shows "api_inv cfg rt'"
proof (cases "valid_device dev rt \<and> d_running rt")
  case False
  then show ?thesis using w inv by (auto simp: gpu_wait_def)
next
  case True
  then have dev: "dev = Dev_Singleton" and ok: "heap_state_ok cfg rt"
    using inv cfg by (auto simp: valid_device_def heap_state_ok_def api_inv_def)
  show ?thesis
    using gpu_wait_live[OF w[unfolded dev] ok] True inv
    by (auto simp: api_inv_def heap_state_ok_def same_device_def kernels_ok_def)
qed

lemma api_inv_load_file:
  "gpu_kernel_load_file cfg c files dev path out rt = Some (r, rt') \<Longrightarrow> api_inv cfg rt \<Longrightarrow> api_inv cfg rt'"
  using api_inv_load
  by (auto simp: gpu_kernel_load_file_def split: if_splits option.splits)

lemma api_inv_step: "api_step cfg v rt rt' \<Longrightarrow> api_inv cfg rt \<Longrightarrow> config_ok cfg \<Longrightarrow> api_inv cfg rt'"
  by (erule api_stepE)
     (auto intro: api_inv_init api_inv_fini api_inv_open api_inv_close api_inv_alloc api_inv_free
        api_inv_write api_inv_load api_inv_load_file api_inv_launch api_inv_wait)

lemma api_inv_static: "api_inv cfg (static_runtime cfg t)"
  by (simp add: api_inv_def kernels_ok_def static_runtime_def heap_ok_empty)

subsection \<open>Properties\<close>

text \<open>
  C20. Every state that any sequence of public calls can reach, with any arguments and on
  either backend, has a consistent allocation table (aligned blocks inside the heap that do
  not overlap), kernel handles that are distinct and numbered in loading order, a running
  device that is open, and no argument block outside a running launch.
\<close>

theorem reachable_runtime_consistent:
  assumes "config_ok cfg" and "api_reachable cfg v rt"
  shows "api_inv cfg rt"
  using assms(2) by induction (auto intro: api_inv_static api_inv_step[OF _ _ assms(1)])

theorem reachable_runtime_consistent_witness:
  "api_inv default_config (snd (gpu_device_open 0 True (static_runtime default_config ())))"
proof -
  let ?s = "static_runtime default_config ()"
  have "api_step default_config example_top ?s (snd (gpu_device_open 0 True ?s))"
    by (rule api_step.Open[of 0 True _ "fst (gpu_device_open 0 True ?s)"]) simp
  then have "api_reachable default_config example_top (snd (gpu_device_open 0 True ?s))"
    by (rule api_reachable.Step[OF api_reachable.Start])
  then show ?thesis by (rule reachable_runtime_consistent[OF default_config_ok])
qed

text \<open>
  Only the kernel that was loaded last can be launched: in a reachable state with fewer
  than \<open>2 ^ 32\<close> loads since the device was opened, \<open>gpu_launch\<close> with the handle of an earlier
  load, whose image has been overwritten, is refused and changes nothing.
\<close>

theorem stale_kernel_rejected:
  assumes "config_ok cfg" and "api_reachable cfg v rt" and "valid_device Dev_Singleton rt"
    and "length (d_kernels rt) < 2 ^ 32" and "j < length (d_kernels rt)" and "0 < j"
  shows "gpu_launch cfg v env Dev_Singleton (Some (fst (d_kernels rt ! j))) info rt
    = Some (GPU_ERROR_INVALID_ARGUMENT, rt)"
proof -
  have K: "kernels_ok rt" using reachable_runtime_consistent[OF assms(1,2)] by (simp add: api_inv_def)
  let ?n = "length (d_kernels rt)" and ?k = "snd (d_kernels rt ! j)"
  have m: "map_of (d_kernels rt) (fst (d_kernels rt ! j)) = Some ?k"
    using K assms(5) by (intro map_of_is_SomeI) (auto simp: kernels_ok_def)
  have "kn_generation ?k = of_nat (?n - j)" "d_generation rt = of_nat ?n"
    using K assms(3,5) by (auto simp: kernels_ok_def valid_device_def)
  then have "unat (kn_generation ?k) = ?n - j" "unat (d_generation rt) = ?n"
    using assms(4) by (simp_all add: unat_of_nat_u32)
  then have "kn_generation ?k \<noteq> d_generation rt" using assms(5,6) by auto
  then show ?thesis using m by (simp add: gpu_launch_def launch_kernel_ok_def)
qed


lemma kernel_load_ok:
  assumes "config_ok cfg" and "valid_device dev rt"
  shows "\<exists>rt'. gpu_kernel_load_memory cfg True dev (Some [1]) 1 True rt = Some (Inr (d_fresh rt), rt') \<and>
    (\<exists>k. d_kernels rt' = (d_fresh rt, k) # d_kernels rt) \<and> d_fresh rt' = d_fresh rt + 1 \<and> valid_device dev rt'"
proof -
  have "in_pmem cfg GPU_KERNEL_BASE"
    using assms(1) by (auto simp: in_pmem_iff_range config_ok_def GPU_KERNEL_BASE_def)
  then show ?thesis using assms(2)
    by (simp add: gpu_kernel_load_memory_def GPU_KERNEL_END_def GPU_KERNEL_BASE_def raw_write_eq host_bytes_def
        valid_device_def Let_def set_mem_def)
qed

theorem stale_kernel_rejected_witness:
  "\<exists>rt. api_reachable default_config example_top rt \<and> length (d_kernels rt) = 2 \<and>
     gpu_launch default_config example_top example_env Dev_Singleton (Some (fst (d_kernels rt ! 1)))
       (Some example_info) rt = Some (GPU_ERROR_INVALID_ARGUMENT, rt)"
proof -
  let ?s = "static_runtime default_config ()"
  let ?i = "memu_runtime_init default_config example_top True True [''app''] ?s"
  have "map_option (\<lambda>(r, a, rt). (r, rt_initialized rt, d_opened rt)) ?i = Some (0, True, False)" by code_simp
  then obtain a rt1 where i: "?i = Some (0, a, rt1)" "rt_initialized rt1" "\<not> d_opened rt1" by auto
  let ?rt2 = "snd (gpu_device_open 0 True rt1)"
  have v2: "valid_device Dev_Singleton ?rt2" "d_kernels ?rt2 = []"
    using i by (simp_all add: gpu_device_open_def valid_device_def)
  obtain rt3 k3 where l3: "gpu_kernel_load_memory default_config True Dev_Singleton (Some [1]) 1 True ?rt2
      = Some (Inr (d_fresh ?rt2), rt3)" "d_kernels rt3 = [(d_fresh ?rt2, k3)]" "valid_device Dev_Singleton rt3"
    using kernel_load_ok[OF default_config_ok v2(1)] v2(2) by auto
  obtain rt4 k4 where l4: "gpu_kernel_load_memory default_config True Dev_Singleton (Some [1]) 1 True rt3
      = Some (Inr (d_fresh rt3), rt4)" "d_kernels rt4 = [(d_fresh rt3, k4), (d_fresh ?rt2, k3)]"
      "valid_device Dev_Singleton rt4"
    using kernel_load_ok[OF default_config_ok l3(3)] l3(2) by auto
  have "api_reachable default_config example_top rt1"
    using api_reachable.Step[OF api_reachable.Start api_step.Init[OF i(1)]] .
  moreover have "api_step default_config example_top rt1 ?rt2"
    by (rule api_step.Open[of 0 True _ "fst (gpu_device_open 0 True rt1)"]) simp
  ultimately have "api_reachable default_config example_top ?rt2" by (rule api_reachable.Step)
  from api_reachable.Step[OF api_reachable.Step[OF this api_step.Load[OF l3(1)]] api_step.Load[OF l4(1)]]
  have r: "api_reachable default_config example_top rt4" .
  have "length (d_kernels rt4) < 2 ^ 32" "1 < length (d_kernels rt4)" by (simp_all add: l4(2))
  from stale_kernel_rejected[OF default_config_ok r l4(3) this zero_less_one] r l4(2) show ?thesis by auto
qed

end
