(* ===== verification/Kconfig.thy ===== *)
theory Kconfig
  imports Cstring
begin

text \<open>
  The data of the configuration tool (\<open>tools/kconfig/expr.h\<close>, \<open>lkc.h\<close>): tristate values,
  symbols, expressions and properties. A pointer to a symbol is a name of type \<open>sym\<close>; the
  symbols themselves are in the table \<open>syms\<close> of the world. A pointer to an expression is the
  tree that it owns, \<open>NULL\<close> being \<open>None\<close>.
\<close>

subsection \<open>Tristate values\<close>

datatype tristate = T_no | T_mod | T_yes

fun tri_rank :: "tristate \<Rightarrow> nat" where
  "tri_rank T_no = 0"
| "tri_rank T_mod = 1"
| "tri_rank T_yes = 2"

instantiation tristate :: linorder
begin

definition less_tristate :: "tristate \<Rightarrow> tristate \<Rightarrow> bool" where
  "less_tristate a b \<longleftrightarrow> tri_rank a < tri_rank b"

definition less_eq_tristate :: "tristate \<Rightarrow> tristate \<Rightarrow> bool" where
  "less_eq_tristate a b \<longleftrightarrow> tri_rank a \<le> tri_rank b"

instance
proof
  fix a b :: tristate
  assume "a \<le> b" "b \<le> a"
  then show "a = b" by (cases a; cases b) (simp_all add: less_eq_tristate_def)
qed (auto simp: less_tristate_def less_eq_tristate_def)

end

definition EXPR_OR :: "tristate \<Rightarrow> tristate \<Rightarrow> tristate" where
  "EXPR_OR dep1 dep2 = (if dep1 > dep2 then dep1 else dep2)"

definition EXPR_AND :: "tristate \<Rightarrow> tristate \<Rightarrow> tristate" where
  "EXPR_AND dep1 dep2 = (if dep1 < dep2 then dep1 else dep2)"

fun EXPR_NOT :: "tristate \<Rightarrow> tristate" where
  "EXPR_NOT T_no = T_yes"
| "EXPR_NOT T_mod = T_mod"
| "EXPR_NOT T_yes = T_no"

lemma EXPR_OR_max: "EXPR_OR a b = max a b"
  by (auto simp: EXPR_OR_def max_def)

lemma EXPR_AND_min: "EXPR_AND a b = min a b"
  by (auto simp: EXPR_AND_def min_def)

lemma EXPR_NOT_rank: "tri_rank (EXPR_NOT a) = 2 - tri_rank a"
  by (cases a) simp_all

lemma tri_simps [simp]:
  "T_no \<le> a" "a \<le> T_yes" "a \<le> T_no \<longleftrightarrow> a = T_no" "T_yes \<le> a \<longleftrightarrow> a = T_yes"
  "\<not> a < T_no" "\<not> T_yes < a" "T_no < a \<longleftrightarrow> a \<noteq> T_no" "a < T_yes \<longleftrightarrow> a \<noteq> T_yes"
  by (cases a; simp add: less_eq_tristate_def less_tristate_def)+

lemma tri_minmax [simp]:
  "min T_no a = T_no" "min a T_no = T_no" "min T_yes a = a" "min a T_yes = a"
  "max T_no a = a" "max a T_no = a" "max T_yes a = T_yes" "max a T_yes = T_yes"
  by (simp_all add: min_def max_def)

lemma EXPR_NOT_involution [simp]: "EXPR_NOT (EXPR_NOT a) = a"
  by (cases a) simp_all

lemma EXPR_NOT_minmax:
  "EXPR_NOT (min a b) = max (EXPR_NOT a) (EXPR_NOT b)"
  "EXPR_NOT (max a b) = min (EXPR_NOT a) (EXPR_NOT b)"
  by (cases a; cases b; simp add: min_def max_def less_eq_tristate_def)+

lemma EXPR_NOT_eq [simp]:
  "EXPR_NOT a = T_no \<longleftrightarrow> a = T_yes" "EXPR_NOT a = T_yes \<longleftrightarrow> a = T_no" "EXPR_NOT a = T_mod \<longleftrightarrow> a = T_mod"
  by (cases a; simp)+

subsection \<open>Symbols and expressions\<close>

datatype symbol_type = S_UNKNOWN | S_BOOLEAN | S_TRISTATE | S_INT | S_HEX | S_STRING

text \<open>The static symbols of \<open>symbol.c\<close> and the symbols that \<open>sym_lookup\<close> allocates.\<close>

datatype sym = symbol_yes | symbol_mod | symbol_no | symbol_empty | Sym nat

datatype relation = E_EQUAL | E_UNEQUAL | E_LTH | E_LEQ | E_GTH | E_GEQ

text \<open>
  \<open>struct expr\<close> with its \<open>expr_type\<close>; the six comparisons share a constructor. An \<open>E_LIST\<close>
  chain (the members of a choice) is the list of its symbols, the head first.
\<close>

datatype expr =
    E_OR expr expr
  | E_AND expr expr
  | E_NOT expr
  | E_CMP relation sym sym
  | E_SYMBOL sym
  | E_LIST "sym list"
  | E_RANGE sym sym

datatype sym_val = Null | Str string | Ref sym

record symbol_value =
  val :: sym_val
  tri :: tristate

record expr_val =
  dep_expr :: "expr option"
  dep_tri :: tristate

datatype prop_type =
  P_UNKNOWN | P_PROMPT | P_COMMENT | P_MENU | P_DEFAULT | P_CHOICE | P_SELECT | P_IMPLY | P_RANGE | P_SYMBOL

record property =
  prop_type :: prop_type
  prop_text :: "string option"
  prop_visible :: expr_val
  prop_expr :: "expr option"
  prop_menu :: "nat option"
  prop_file :: string
  prop_lineno :: int

datatype sym_flag =
    SYMBOL_CONST | SYMBOL_CHECK | SYMBOL_CHOICE | SYMBOL_CHOICEVAL | SYMBOL_VALID | SYMBOL_OPTIONAL
  | SYMBOL_WRITE | SYMBOL_CHANGED | SYMBOL_WRITTEN | SYMBOL_NO_WRITE | SYMBOL_CHECKED | SYMBOL_WARNED
  | SYMBOL_DEF nat | SYMBOL_NEED_SET_CHOICE_VALUES | SYMBOL_ALLNOCONFIG_Y

text \<open>
  \<open>struct symbol\<close>. The bits of \<open>flags\<close> are a set of flags, \<open>SYMBOL_DEF n\<close> being
  \<open>SYMBOL_DEF << n\<close>; the hash chain (\<open>next\<close>) is in the table of the world.
\<close>

record symbol =
  sym_name :: "string option"
  sym_type :: symbol_type
  curr :: symbol_value
  sym_def :: "nat \<Rightarrow> symbol_value"
  sym_visible :: tristate
  flags :: "sym_flag set"
  props :: "property list"
  dir_dep :: expr_val
  rev_dep :: expr_val
  implied :: expr_val

definition S_DEF_USER :: nat where "S_DEF_USER = 0"
definition S_DEF_AUTO :: nat where "S_DEF_AUTO = 1"

abbreviation SYMBOL_DEF_USER :: sym_flag where "SYMBOL_DEF_USER \<equiv> SYMBOL_DEF S_DEF_USER"

definition no_value :: symbol_value where
  "no_value = \<lparr>val = Null, tri = T_no\<rparr>"

definition no_expr_value :: expr_val where
  "no_expr_value = \<lparr>dep_expr = None, dep_tri = T_no\<rparr>"

text \<open>A symbol after \<open>memset\<close>: the zero of every field.\<close>

definition zero_symbol :: symbol where
  "zero_symbol = \<lparr>sym_name = None, sym_type = S_UNKNOWN, curr = no_value, sym_def = (\<lambda>_. no_value),
     sym_visible = T_no, flags = {}, props = [], dir_dep = no_expr_value, rev_dep = no_expr_value,
     implied = no_expr_value\<rparr>"

text \<open>The static symbols with their initial values.\<close>

definition const_symbol :: "string \<Rightarrow> tristate \<Rightarrow> symbol" where
  "const_symbol n t = zero_symbol\<lparr>sym_name := Some n, curr := \<lparr>val = Str n, tri = t\<rparr>,
     flags := {SYMBOL_CONST, SYMBOL_VALID}\<rparr>"

definition empty_symbol :: symbol where
  "empty_symbol = zero_symbol\<lparr>sym_name := Some '''', curr := \<lparr>val = Str '''', tri = T_no\<rparr>,
     flags := {SYMBOL_VALID}\<rparr>"

text \<open>
  The static state: the symbols, the chains of the hash table (\<open>symbol_hash\<close>, the head first)
  and the next name to allocate, the symbol of \<open>option modules\<close> and its value, the change
  counter of \<open>confdata.c\<close>, the menu entries that are marked as changed, and the messages
  written to \<open>stderr\<close>, the newest last.
\<close>

record kworld =
  syms :: "sym \<Rightarrow> symbol"
  symbol_hash :: "nat \<Rightarrow> sym list"
  next_sym :: nat
  modules_sym :: sym
  modules_val :: tristate
  sym_change_count :: int
  menu_changed :: "nat set"
  messages :: "string list"

definition upd_sym :: "sym \<Rightarrow> (symbol \<Rightarrow> symbol) \<Rightarrow> kworld \<Rightarrow> kworld" where
  "upd_sym s f w = w\<lparr>syms := (syms w)(s := f (syms w s))\<rparr>"

lemma syms_upd_sym [simp]: "syms (upd_sym s f w) = (syms w)(s := f (syms w s))"
  by (simp add: upd_sym_def)

lemma upd_sym_rest [simp]:
  "modules_sym (upd_sym s f w) = modules_sym w" "modules_val (upd_sym s f w) = modules_val w"
  "sym_change_count (upd_sym s f w) = sym_change_count w" "menu_changed (upd_sym s f w) = menu_changed w"
  "symbol_hash (upd_sym s f w) = symbol_hash w" "next_sym (upd_sym s f w) = next_sym w"
  "messages (upd_sym s f w) = messages w"
  by (simp_all add: upd_sym_def)

definition has_flag :: "sym_flag \<Rightarrow> sym \<Rightarrow> kworld \<Rightarrow> bool" where
  "has_flag f s w \<longleftrightarrow> f \<in> flags (syms w s)"

definition set_flag :: "sym_flag \<Rightarrow> symbol \<Rightarrow> symbol" where
  "set_flag f s = s\<lparr>flags := insert f (flags s)\<rparr>"

definition clear_flag :: "sym_flag \<Rightarrow> symbol \<Rightarrow> symbol" where
  "clear_flag f s = s\<lparr>flags := flags s - {f}\<rparr>"

definition sym_get_tristate_value :: "sym \<Rightarrow> kworld \<Rightarrow> tristate" where
  "sym_get_tristate_value s w = tri (curr (syms w s))"

definition sym_is_choice :: "sym \<Rightarrow> kworld \<Rightarrow> bool" where
  "sym_is_choice s w \<longleftrightarrow> has_flag SYMBOL_CHOICE s w"

definition sym_is_choice_value :: "sym \<Rightarrow> kworld \<Rightarrow> bool" where
  "sym_is_choice_value s w \<longleftrightarrow> has_flag SYMBOL_CHOICEVAL s w"

definition sym_is_optional :: "sym \<Rightarrow> kworld \<Rightarrow> bool" where
  "sym_is_optional s w \<longleftrightarrow> has_flag SYMBOL_OPTIONAL s w"

definition sym_has_value :: "sym \<Rightarrow> kworld \<Rightarrow> bool" where
  "sym_has_value s w \<longleftrightarrow> has_flag SYMBOL_DEF_USER s w"

definition expr_is_yes :: "expr option \<Rightarrow> bool" where
  "expr_is_yes e \<longleftrightarrow> e = None \<or> e = Some (E_SYMBOL symbol_yes)"

definition expr_is_no :: "expr option \<Rightarrow> bool" where
  "expr_is_no e \<longleftrightarrow> e = Some (E_SYMBOL symbol_no)"

end
