(* ===== verification/Kexpr.thy ===== *)
theory Kexpr
  imports Kconfig
begin

text \<open>
  Dependency expressions (\<open>tools/kconfig/expr.c\<close>): construction, comparison, the
  simplifications, the two translations that menus use, and evaluation. Every operation of
  the code owns the trees that it rewrites in place, so it is a function from trees to trees;
  \<open>expr_free\<close> and the debug output are not modelled.
\<close>

subsection \<open>Construction\<close>

definition expr_alloc_and :: "expr option \<Rightarrow> expr option \<Rightarrow> expr option" where
  "expr_alloc_and e1 e2 =
     (case e1 of None \<Rightarrow> e2
      | Some a \<Rightarrow> (case e2 of Some b \<Rightarrow> Some (E_AND a b) | None \<Rightarrow> e1))"

definition expr_alloc_or :: "expr option \<Rightarrow> expr option \<Rightarrow> expr option" where
  "expr_alloc_or e1 e2 =
     (case e1 of None \<Rightarrow> e2
      | Some a \<Rightarrow> (case e2 of Some b \<Rightarrow> Some (E_OR a b) | None \<Rightarrow> e1))"

text \<open>
  A range cannot be copied (\<open>NULL\<close>), and the case \<open>E_LIST\<close> of the code reads the symbol of
  the node as an expression: neither occurs below a connective, and both give \<open>None\<close> here.
\<close>

fun expr_copy :: "expr \<Rightarrow> expr option" where
  "expr_copy (E_SYMBOL s) = Some (E_SYMBOL s)"
| "expr_copy (E_NOT a) = do { a' \<leftarrow> expr_copy a; Some (E_NOT a') }"
| "expr_copy (E_CMP r a b) = Some (E_CMP r a b)"
| "expr_copy (E_AND a b) = do { a' \<leftarrow> expr_copy a; b' \<leftarrow> expr_copy b; Some (E_AND a' b') }"
| "expr_copy (E_OR a b) = do { a' \<leftarrow> expr_copy a; b' \<leftarrow> expr_copy b; Some (E_OR a' b') }"
| "expr_copy (E_LIST ss) = None"
| "expr_copy (E_RANGE a b) = None"

subsection \<open>Constants in operands\<close>

fun expr_eliminate_yn :: "expr \<Rightarrow> expr" where
  "expr_eliminate_yn (E_AND l r) =
     (let a = expr_eliminate_yn l; b = expr_eliminate_yn r
      in if a = E_SYMBOL symbol_no then E_SYMBOL symbol_no
         else if a = E_SYMBOL symbol_yes then b
         else if b = E_SYMBOL symbol_no then E_SYMBOL symbol_no
         else if b = E_SYMBOL symbol_yes then a
         else E_AND a b)"
| "expr_eliminate_yn (E_OR l r) =
     (let a = expr_eliminate_yn l; b = expr_eliminate_yn r
      in if a = E_SYMBOL symbol_no then b
         else if a = E_SYMBOL symbol_yes then E_SYMBOL symbol_yes
         else if b = E_SYMBOL symbol_no then a
         else if b = E_SYMBOL symbol_yes then E_SYMBOL symbol_yes
         else E_OR a b)"
| "expr_eliminate_yn e = e"

subsection \<open>Common operands and equality\<close>

text \<open>The \<open>type\<close> argument of the walks, which is \<open>E_OR\<close> or \<open>E_AND\<close>, and its neutral operand.\<close>

datatype connective = C_OR | C_AND

fun conn_of :: "expr \<Rightarrow> connective option" where
  "conn_of (E_OR a b) = Some C_OR"
| "conn_of (E_AND a b) = Some C_AND"
| "conn_of e = None"

fun neutral :: "connective \<Rightarrow> expr" where
  "neutral C_OR = E_SYMBOL symbol_no"
| "neutral C_AND = E_SYMBOL symbol_yes"

definition eliminate_pair :: "(expr \<Rightarrow> expr \<Rightarrow> bool) \<Rightarrow> connective \<Rightarrow> expr \<Rightarrow> expr \<Rightarrow> expr \<times> expr" where
  "eliminate_pair eq c e1 e2 =
     (if e1 = e2 \<and> (e1 = E_SYMBOL symbol_yes \<or> e1 = E_SYMBOL symbol_no) then (e1, e2)
      else if \<not> eq e1 e2 then (e1, e2)
      else (neutral c, neutral c))"

text \<open>
  \<open>__expr_eliminate_eq\<close> for a fixed leaf comparison: \<open>eliminate_right\<close> is the walk over
  \<open>e2\<close> once \<open>e1\<close> is a leaf, which it stays.
\<close>

fun eliminate_right :: "(expr \<Rightarrow> expr \<Rightarrow> bool) \<Rightarrow> connective \<Rightarrow> expr \<Rightarrow> expr \<Rightarrow> expr \<times> expr" where
  "eliminate_right eq C_OR e1 (E_OR l r) =
     (let (e1, l) = eliminate_right eq C_OR e1 l; (e1, r) = eliminate_right eq C_OR e1 r
      in (e1, E_OR l r))"
| "eliminate_right eq C_AND e1 (E_AND l r) =
     (let (e1, l) = eliminate_right eq C_AND e1 l; (e1, r) = eliminate_right eq C_AND e1 r
      in (e1, E_AND l r))"
| "eliminate_right eq c e1 e2 = eliminate_pair eq c e1 e2"

fun eliminate_walk :: "(expr \<Rightarrow> expr \<Rightarrow> bool) \<Rightarrow> connective \<Rightarrow> expr \<Rightarrow> expr \<Rightarrow> expr \<times> expr" where
  "eliminate_walk eq C_OR (E_OR l r) e2 =
     (let (l, e2) = eliminate_walk eq C_OR l e2; (r, e2) = eliminate_walk eq C_OR r e2
      in (E_OR l r, e2))"
| "eliminate_walk eq C_AND (E_AND l r) e2 =
     (let (l, e2) = eliminate_walk eq C_AND l e2; (r, e2) = eliminate_walk eq C_AND r e2
      in (E_AND l r, e2))"
| "eliminate_walk eq c e1 e2 = eliminate_right eq c e1 e2"

definition eliminate_for :: "(expr \<Rightarrow> expr \<Rightarrow> bool) \<Rightarrow> connective option \<Rightarrow> expr \<times> expr \<Rightarrow> expr \<times> expr" where
  "eliminate_for eq c es =
     (case c of Some c \<Rightarrow> eliminate_walk eq c (fst es) (snd es) | None \<Rightarrow> es)"

definition eliminate_with :: "(expr \<Rightarrow> expr \<Rightarrow> bool) \<Rightarrow> expr \<Rightarrow> expr \<Rightarrow> expr \<times> expr" where
  "eliminate_with eq e1 e2 =
     (let es = eliminate_for eq (conn_of e1) (e1, e2);
          es = (if conn_of (fst es) \<noteq> conn_of (snd es) then eliminate_for eq (conn_of (snd es)) es else es)
      in (expr_eliminate_yn (fst es), expr_eliminate_yn (snd es)))"

text \<open>
  \<open>expr_eq\<close> calls \<open>expr_eliminate_eq\<close>, which calls \<open>expr_eq\<close> on smaller operands. The
  recursion is written with a depth; the depth of the first expression is enough
  (\<open>expr_eq_step\<close> in \<open>Kexpr_Props\<close>).
\<close>

fun depth :: "expr \<Rightarrow> nat" where
  "depth (E_OR a b) = Suc (max (depth a) (depth b))"
| "depth (E_AND a b) = Suc (max (depth a) (depth b))"
| "depth (E_NOT a) = Suc (depth a)"
| "depth e = 1"

definition same_symbol :: "expr \<times> expr \<Rightarrow> bool" where
  "same_symbol es = (case es of (E_SYMBOL s, E_SYMBOL t) \<Rightarrow> s = t | _ \<Rightarrow> False)"

fun eq_depth :: "nat \<Rightarrow> expr \<Rightarrow> expr \<Rightarrow> bool" where
  "eq_depth 0 e1 e2 = False"
| "eq_depth (Suc d) e1 e2 =
     (case (e1, e2) of
        (E_CMP r a b, E_CMP r' a' b') \<Rightarrow> r = r' \<and> a = a' \<and> b = b'
      | (E_SYMBOL s, E_SYMBOL t) \<Rightarrow> s = t
      | (E_NOT a, E_NOT b) \<Rightarrow> eq_depth d a b
      | (E_AND _ _, E_AND _ _) \<Rightarrow> same_symbol (eliminate_with (eq_depth d) e1 e2)
      | (E_OR _ _, E_OR _ _) \<Rightarrow> same_symbol (eliminate_with (eq_depth d) e1 e2)
      | _ \<Rightarrow> False)"

definition expr_same :: "expr \<Rightarrow> expr \<Rightarrow> bool" where
  "expr_same e1 e2 = eq_depth (depth e1) e1 e2"

definition expr_eq :: "expr option \<Rightarrow> expr option \<Rightarrow> bool" where
  "expr_eq e1 e2 =
     (case (e1, e2) of (Some a, Some b) \<Rightarrow> expr_same a b | _ \<Rightarrow> expr_is_yes e1 \<and> expr_is_yes e2)"

definition expr_eliminate_eq :: "expr option \<Rightarrow> expr option \<Rightarrow> expr option \<times> expr option" where
  "expr_eliminate_eq e1 e2 =
     (case (e1, e2) of
        (Some a, Some b) \<Rightarrow> (let (a, b) = eliminate_with expr_same a b in (Some a, Some b))
      | _ \<Rightarrow> (e1, e2))"

subsection \<open>Comparisons with n\<close>

fun expr_trans_bool :: "kworld \<Rightarrow> expr \<Rightarrow> expr" where
  "expr_trans_bool w (E_AND l r) = E_AND (expr_trans_bool w l) (expr_trans_bool w r)"
| "expr_trans_bool w (E_OR l r) = E_OR (expr_trans_bool w l) (expr_trans_bool w r)"
| "expr_trans_bool w (E_NOT e) = E_NOT (expr_trans_bool w e)"
| "expr_trans_bool w (E_CMP c l r) =
     (if c = E_UNEQUAL \<and> sym_type (syms w l) = S_TRISTATE \<and> r = symbol_no
      then E_SYMBOL l else E_CMP c l r)"
| "expr_trans_bool w e = e"

subsection \<open>Joining two operands\<close>

fun cmp_with :: "relation \<Rightarrow> sym \<Rightarrow> expr \<Rightarrow> bool" where
  "cmp_with r s (E_CMP r' _ s') \<longleftrightarrow> r' = r \<and> s' = s"
| "cmp_with r s e \<longleftrightarrow> False"

fun is_symbol :: "expr \<Rightarrow> bool" where
  "is_symbol (E_SYMBOL _) \<longleftrightarrow> True"
| "is_symbol e \<longleftrightarrow> False"

fun is_not_symbol :: "expr \<Rightarrow> bool" where
  "is_not_symbol (E_NOT (E_SYMBOL _)) \<longleftrightarrow> True"
| "is_not_symbol e \<longleftrightarrow> False"

text \<open>
  The symbol that an operand is about, as the two functions select it: the left operand may
  be the negation of a comparison, the right one only the negation of a symbol.
\<close>

fun plain_symbol :: "expr \<Rightarrow> sym option" where
  "plain_symbol (E_CMP r a _) = (if r = E_EQUAL \<or> r = E_UNEQUAL then Some a else None)"
| "plain_symbol (E_SYMBOL a) = Some a"
| "plain_symbol e = None"

fun join_symbol1 :: "expr \<Rightarrow> sym option" where
  "join_symbol1 (E_NOT e) = plain_symbol e"
| "join_symbol1 e = plain_symbol e"

fun join_symbol2 :: "expr \<Rightarrow> sym option" where
  "join_symbol2 (E_NOT (E_SYMBOL a)) = Some a"
| "join_symbol2 (E_NOT e) = None"
| "join_symbol2 e = plain_symbol e"

text \<open>Whether one of the operands has the first form and the other one the second.\<close>

definition one_each :: "('a \<Rightarrow> bool) \<Rightarrow> ('a \<Rightarrow> bool) \<Rightarrow> 'a \<Rightarrow> 'a \<Rightarrow> bool" where
  "one_each P Q e1 e2 \<longleftrightarrow> (P e1 \<and> Q e2) \<or> (Q e1 \<and> P e2)"

abbreviation eq_to :: "sym \<Rightarrow> expr \<Rightarrow> bool" where "eq_to \<equiv> cmp_with E_EQUAL"
abbreviation ne_to :: "sym \<Rightarrow> expr \<Rightarrow> bool" where "ne_to \<equiv> cmp_with E_UNEQUAL"

definition join_or_rules :: "symbol_type \<Rightarrow> sym \<Rightarrow> expr \<Rightarrow> expr \<Rightarrow> expr option" where
  "join_or_rules ty a e1 e2 =
     (if ty = S_TRISTATE \<and> one_each (eq_to symbol_yes) (eq_to symbol_mod) e1 e2
      then Some (E_CMP E_UNEQUAL a symbol_no)
      else if ty = S_TRISTATE \<and> one_each (eq_to symbol_yes) (eq_to symbol_no) e1 e2
      then Some (E_CMP E_UNEQUAL a symbol_mod)
      else if ty = S_TRISTATE \<and> one_each (eq_to symbol_mod) (eq_to symbol_no) e1 e2
      then Some (E_CMP E_UNEQUAL a symbol_yes)
      else if ty = S_BOOLEAN \<and> one_each is_not_symbol is_symbol e1 e2
      then Some (E_SYMBOL symbol_yes)
      else None)"

definition join_symbols :: "kworld \<Rightarrow> (symbol_type \<Rightarrow> sym \<Rightarrow> expr option) \<Rightarrow> expr \<Rightarrow> expr \<Rightarrow> expr option" where
  "join_symbols w rules e1 e2 =
     (case (join_symbol1 e1, join_symbol2 e2) of
        (Some a, Some b) \<Rightarrow>
          (let ty = sym_type (syms w a)
           in if a \<noteq> b \<or> (ty \<noteq> S_BOOLEAN \<and> ty \<noteq> S_TRISTATE) then None else rules ty a)
      | _ \<Rightarrow> None)"

definition expr_join_or :: "kworld \<Rightarrow> expr \<Rightarrow> expr \<Rightarrow> expr option" where
  "expr_join_or w e1 e2 =
     (if expr_same e1 e2 then Some e1
      else join_symbols w (\<lambda>ty a. join_or_rules ty a e1 e2) e1 e2)"

text \<open>\<open>a = 'b'\<close> and \<open>a != 'c'\<close> for constants: \<open>n\<close> when they are one symbol, else \<open>a = 'b'\<close>.\<close>

definition join_constants :: "kworld \<Rightarrow> sym \<Rightarrow> expr \<Rightarrow> expr \<Rightarrow> expr option" where
  "join_constants w a e1 e2 =
     (case (e1, e2) of
        (E_CMP E_EQUAL _ b, E_CMP E_UNEQUAL _ c) \<Rightarrow>
          (if has_flag SYMBOL_CONST c w \<and> has_flag SYMBOL_CONST b w
           then Some (if b \<noteq> c then E_CMP E_EQUAL a b else E_SYMBOL symbol_no) else None)
      | (E_CMP E_UNEQUAL _ c, E_CMP E_EQUAL _ b) \<Rightarrow>
          (if has_flag SYMBOL_CONST c w \<and> has_flag SYMBOL_CONST b w
           then Some (if b \<noteq> c then E_CMP E_EQUAL a b else E_SYMBOL symbol_no) else None)
      | _ \<Rightarrow> None)"

definition join_and_rules :: "kworld \<Rightarrow> symbol_type \<Rightarrow> sym \<Rightarrow> expr \<Rightarrow> expr \<Rightarrow> expr option" where
  "join_and_rules w ty a e1 e2 =
     (if one_each is_symbol (eq_to symbol_yes) e1 e2 then Some (E_CMP E_EQUAL a symbol_yes)
      else if one_each is_symbol (ne_to symbol_no) e1 e2 then Some (E_SYMBOL a)
      else if one_each is_symbol (ne_to symbol_mod) e1 e2 then Some (E_CMP E_EQUAL a symbol_yes)
      else if ty \<noteq> S_TRISTATE then None
      else if join_constants w a e1 e2 \<noteq> None then join_constants w a e1 e2
      else if one_each (ne_to symbol_yes) (ne_to symbol_no) e1 e2 then Some (E_CMP E_EQUAL a symbol_mod)
      else if one_each (ne_to symbol_yes) (ne_to symbol_mod) e1 e2 then Some (E_CMP E_EQUAL a symbol_no)
      else if one_each (ne_to symbol_mod) (ne_to symbol_no) e1 e2 then Some (E_CMP E_EQUAL a symbol_yes)
      else None)"

definition expr_join_and :: "kworld \<Rightarrow> expr \<Rightarrow> expr \<Rightarrow> expr option" where
  "expr_join_and w e1 e2 =
     (if expr_same e1 e2 then Some e1
      else join_symbols w (\<lambda>ty a. join_and_rules w ty a e1 e2) e1 e2)"

subsection \<open>Duplicate operands\<close>

text \<open>
  \<open>expr_eliminate_dups1(type, &e, &e)\<close> walks two pointers over the same tree, so that every
  operand of the \<open>type\<close> level meets every operand, row by row; the two pointers are equal on
  the diagonal. The operands are the list \<open>operands c e\<close>, the pointers are indices in it, and
  an operand stays one: it is replaced by a constant, a comparison, a symbol or a copy of an
  operand.
\<close>

fun operands :: "connective \<Rightarrow> expr \<Rightarrow> expr list" where
  "operands C_OR (E_OR l r) = operands C_OR l @ operands C_OR r"
| "operands C_AND (E_AND l r) = operands C_AND l @ operands C_AND r"
| "operands c e = [e]"

text \<open>The tree with its operands replaced from a list, and what is left of the list.\<close>

fun put_operands :: "connective \<Rightarrow> expr \<Rightarrow> expr list \<Rightarrow> expr \<times> expr list" where
  "put_operands C_OR (E_OR l r) xs =
     (let (l, xs) = put_operands C_OR l xs; (r, xs) = put_operands C_OR r xs in (E_OR l r, xs))"
| "put_operands C_AND (E_AND l r) xs =
     (let (l, xs) = put_operands C_AND l xs; (r, xs) = put_operands C_AND r xs in (E_AND l r, xs))"
| "put_operands c e xs = (hd xs, tl xs)"

definition expr_join :: "kworld \<Rightarrow> connective \<Rightarrow> expr \<Rightarrow> expr \<Rightarrow> expr option" where
  "expr_join w c = (case c of C_OR \<Rightarrow> expr_join_or w | C_AND \<Rightarrow> expr_join_and w)"

text \<open>One pair of operands; the second component counts the joins (\<open>trans_count\<close>).\<close>

definition dups_pair ::
  "(connective \<Rightarrow> expr \<Rightarrow> expr \<times> nat) \<Rightarrow> kworld \<Rightarrow> connective \<Rightarrow> nat \<times> nat \<Rightarrow> expr list \<times> nat \<Rightarrow> expr list \<times> nat" where
  "dups_pair inner w c ij st =
     (case (ij, st) of ((i, j), (xs, n)) \<Rightarrow>
        if i = j then (xs, n)
        else let (e1, k) = (case conn_of (xs ! i) of Some c1 \<Rightarrow> inner c1 (xs ! i) | None \<Rightarrow> (xs ! i, 0));
                 xs = xs[i := e1]
             in case expr_join w c e1 (xs ! j) of
                  None \<Rightarrow> (xs, n + k)
                | Some e \<Rightarrow> (xs[i := neutral c, j := e], n + k + 1))"

fun dups_depth :: "nat \<Rightarrow> kworld \<Rightarrow> connective \<Rightarrow> expr \<Rightarrow> expr \<times> nat" where
  "dups_depth 0 w c e = (e, 0)"
| "dups_depth (Suc d) w c e =
     (let xs = operands c e;
          (xs, n) = fold (dups_pair (dups_depth d w) w c) (List.product [0..<length xs] [0..<length xs]) (xs, 0)
      in (fst (put_operands c e xs), n))"

text \<open>The nesting of the connectives bounds the depth (\<open>dups_depth_enough\<close> in \<open>Kdups_Props\<close>).\<close>

definition expr_eliminate_dups1 :: "kworld \<Rightarrow> connective \<Rightarrow> expr \<Rightarrow> expr \<times> nat" where
  "expr_eliminate_dups1 w c e = dups_depth (depth e) w c e"

definition dups_pass :: "kworld \<Rightarrow> expr \<Rightarrow> expr \<times> nat" where
  "dups_pass w e =
     (case conn_of e of Some c \<Rightarrow> expr_eliminate_dups1 w c e | None \<Rightarrow> (e, 0))"

text \<open>
  The passes are repeated until one joins nothing; \<open>None\<close> would be a loop that never ends
  (\<open>eliminate_dups_terminates\<close> in \<open>Kdups_Props\<close>).
\<close>

partial_function (option) dups_loop :: "kworld \<Rightarrow> expr \<Rightarrow> expr option" where
  "dups_loop w e =
     (let (e1, n) = dups_pass w e
      in if n = 0 then Some e1 else dups_loop w (expr_eliminate_yn e1))"

definition expr_eliminate_dups :: "kworld \<Rightarrow> expr option \<Rightarrow> expr option option" where
  "expr_eliminate_dups w e =
     (case e of None \<Rightarrow> Some None | Some e \<Rightarrow> map_option Some (dups_loop w e))"

subsection \<open>Negations pushed to the symbols\<close>

text \<open>
  Comparisons of a boolean symbol with a constant. The two cases of a test for \<open>m\<close> also
  print a message.
\<close>

definition transform_cmp :: "kworld \<Rightarrow> relation \<Rightarrow> sym \<Rightarrow> sym \<Rightarrow> expr" where
  "transform_cmp w r a b =
     (if sym_type (syms w a) \<noteq> S_BOOLEAN then E_CMP r a b
      else if r = E_EQUAL then
        (if b = symbol_no then E_NOT (E_SYMBOL a)
         else if b = symbol_mod then E_SYMBOL symbol_no
         else if b = symbol_yes then E_SYMBOL a
         else E_CMP r a b)
      else if r = E_UNEQUAL then
        (if b = symbol_no then E_SYMBOL a
         else if b = symbol_mod then E_SYMBOL symbol_yes
         else if b = symbol_yes then E_NOT (E_SYMBOL a)
         else E_CMP r a b)
      else E_CMP r a b)"

fun negate_relation :: "relation \<Rightarrow> relation" where
  "negate_relation E_EQUAL = E_UNEQUAL"
| "negate_relation E_UNEQUAL = E_EQUAL"
| "negate_relation E_LEQ = E_GTH"
| "negate_relation E_GEQ = E_LTH"
| "negate_relation E_LTH = E_GEQ"
| "negate_relation E_GTH = E_LEQ"

definition not_symbol :: "sym \<Rightarrow> expr" where
  "not_symbol s =
     (if s = symbol_yes then E_SYMBOL symbol_no
      else if s = symbol_mod then E_SYMBOL symbol_mod
      else if s = symbol_no then E_SYMBOL symbol_yes
      else E_NOT (E_SYMBOL s))"

text \<open>
  The recursion of the code: a negation is rewritten after its operand, and the double
  negation and the laws of De Morgan transform the rewritten tree again. A range is no
  condition (the code would read its symbols as expressions) and is left alone.
\<close>

function (sequential) expr_transform :: "kworld \<Rightarrow> expr \<Rightarrow> expr" where
  "expr_transform w (E_OR l r) = E_OR (expr_transform w l) (expr_transform w r)"
| "expr_transform w (E_AND l r) = E_AND (expr_transform w l) (expr_transform w r)"
| "expr_transform w (E_CMP r a b) = transform_cmp w r a b"
| "expr_transform w (E_NOT e) =
     (case expr_transform w e of
        E_NOT a \<Rightarrow> expr_transform w a
      | E_CMP r a b \<Rightarrow> E_CMP (negate_relation r) a b
      | E_OR a b \<Rightarrow> expr_transform w (E_AND (E_NOT a) (E_NOT b))
      | E_AND a b \<Rightarrow> expr_transform w (E_OR (E_NOT a) (E_NOT b))
      | E_SYMBOL s \<Rightarrow> not_symbol s
      | a \<Rightarrow> E_NOT a)"
| "expr_transform w e = e"
  by pat_completeness auto

text \<open>
  The weight of a tree: a negation doubles it, so that a law of De Morgan makes it smaller.
\<close>

fun weight :: "expr \<Rightarrow> nat" where
  "weight (E_OR l r) = weight l + weight r + 1"
| "weight (E_AND l r) = weight l + weight r + 1"
| "weight (E_NOT e) = 2 * weight e"
| "weight (E_CMP r a b) = 2"
| "weight e = 1"

lemma weight_pos [simp]: "0 < weight e"
  by (induction e) auto

lemma transform_weight:
  "expr_transform_dom (w, e) \<Longrightarrow> weight (expr_transform w e) \<le> weight e"
proof (induction w e rule: expr_transform.pinduct)
  case (4 w e)
  then show ?case
    by (cases "expr_transform w e") (force simp: expr_transform.psimps not_symbol_def)+
qed (auto simp: expr_transform.psimps transform_cmp_def)

termination expr_transform
proof (relation "measure (\<lambda>(w, e). weight e)")
  fix w e a b
  assume dom: "expr_transform_dom (w, e)"
  show "expr_transform w e = E_NOT a \<Longrightarrow> ((w, a), w, E_NOT e) \<in> measure (\<lambda>(w, e). weight e)"
    "expr_transform w e = E_OR a b \<Longrightarrow>
       ((w, E_AND (E_NOT a) (E_NOT b)), w, E_NOT e) \<in> measure (\<lambda>(w, e). weight e)"
    "expr_transform w e = E_AND a b \<Longrightarrow>
       ((w, E_OR (E_NOT a) (E_NOT b)), w, E_NOT e) \<in> measure (\<lambda>(w, e). weight e)"
    using transform_weight[OF dom] weight_pos[of a] by (auto simp del: weight_pos)
qed auto

subsection \<open>Occurrence of a symbol\<close>

fun expr_contains_symbol :: "expr \<Rightarrow> sym \<Rightarrow> bool" where
  "expr_contains_symbol (E_AND l r) s \<longleftrightarrow> expr_contains_symbol l s \<or> expr_contains_symbol r s"
| "expr_contains_symbol (E_OR l r) s \<longleftrightarrow> expr_contains_symbol l s \<or> expr_contains_symbol r s"
| "expr_contains_symbol (E_SYMBOL a) s \<longleftrightarrow> a = s"
| "expr_contains_symbol (E_CMP c a b) s \<longleftrightarrow> a = s \<or> b = s"
| "expr_contains_symbol (E_NOT e) s \<longleftrightarrow> expr_contains_symbol e s"
| "expr_contains_symbol e s \<longleftrightarrow> False"

fun expr_depends_symbol :: "expr \<Rightarrow> sym \<Rightarrow> bool" where
  "expr_depends_symbol (E_AND l r) s \<longleftrightarrow> expr_depends_symbol l s \<or> expr_depends_symbol r s"
| "expr_depends_symbol (E_SYMBOL a) s \<longleftrightarrow> a = s"
| "expr_depends_symbol (E_CMP c a b) s \<longleftrightarrow>
     a = s \<and> (c = E_EQUAL \<and> (b = symbol_yes \<or> b = symbol_mod) \<or> c = E_UNEQUAL \<and> b = symbol_no)"
| "expr_depends_symbol e s \<longleftrightarrow> False"

subsection \<open>Explicit comparisons\<close>

text \<open>
  \<open>expr_trans_compare(e, type, sym)\<close> with \<open>type\<close> one of \<open>E_EQUAL\<close> and \<open>E_UNEQUAL\<close>. The
  operands of a connective are only combined for \<open>y\<close> and \<open>n\<close>; for another symbol the given
  expression is kept. A comparison with a symbol that is not constant, a list or a range
  gives \<open>NULL\<close>; a connective above such an operand is malformed and counts as \<open>None\<close> too.
\<close>

definition negate_if :: "bool \<Rightarrow> expr \<Rightarrow> expr" where
  "negate_if b e = (if b then E_NOT e else e)"

definition compare_both ::
  "(expr \<Rightarrow> expr \<Rightarrow> expr) \<Rightarrow> (expr \<Rightarrow> expr \<Rightarrow> expr) \<Rightarrow> sym \<Rightarrow> expr \<Rightarrow> expr option \<Rightarrow> expr option \<Rightarrow> expr option" where
  "compare_both for_yes for_no s e e1 e2 =
     (case (e1, e2) of
        (Some a, Some b) \<Rightarrow>
          Some (if s = symbol_yes then for_yes a b else if s = symbol_no then for_no a b else e)
      | _ \<Rightarrow> if s = symbol_yes \<or> s = symbol_no then None else Some e)"

fun expr_trans_compare :: "expr \<Rightarrow> relation \<Rightarrow> sym \<Rightarrow> expr option" where
  "expr_trans_compare (E_AND l r) ty s =
     map_option (negate_if (ty = E_UNEQUAL))
       (compare_both E_AND E_OR s (E_AND l r) (expr_trans_compare l E_EQUAL s) (expr_trans_compare r E_EQUAL s))"
| "expr_trans_compare (E_OR l r) ty s =
     map_option (negate_if (ty = E_UNEQUAL))
       (compare_both E_OR E_AND s (E_OR l r) (expr_trans_compare l E_EQUAL s) (expr_trans_compare r E_EQUAL s))"
| "expr_trans_compare (E_NOT e) ty s =
     expr_trans_compare e (if ty = E_EQUAL then E_UNEQUAL else E_EQUAL) s"
| "expr_trans_compare (E_CMP c a b) ty s =
     (if s = symbol_yes then Some (negate_if (ty \<noteq> E_EQUAL) (E_CMP c a b))
      else if s = symbol_mod then Some (E_SYMBOL (if ty = E_EQUAL then symbol_no else symbol_yes))
      else if s = symbol_no then Some (negate_if (ty = E_EQUAL) (E_CMP c a b))
      else None)"
| "expr_trans_compare (E_SYMBOL a) ty s = Some (E_CMP ty a s)"
| "expr_trans_compare e ty s = None"

definition trans_compare :: "expr option \<Rightarrow> relation \<Rightarrow> sym \<Rightarrow> expr option" where
  "trans_compare e ty s =
     (case e of
        None \<Rightarrow> Some (negate_if (ty = E_UNEQUAL) (E_SYMBOL s))
      | Some e \<Rightarrow> expr_trans_compare e ty s)"

end
