(* ===== verification/Kvalue.thy ===== *)
theory Kvalue
  imports Kexpr
begin

text \<open>
  The value of an expression and its text (the end of \<open>tools/kconfig/expr.c\<close>), and the
  growable strings of \<open>util.c\<close>.

  Evaluation calls back into \<open>symbol.c\<close>, which computes the symbols on demand and evaluates
  expressions in turn. Here \<open>sym_calc_value\<close> is the argument \<open>calc\<close>, a function that updates
  the world or does not return (\<open>None\<close>); \<open>Ksymbol\<close> supplies it.
\<close>

type_synonym calc = "sym \<Rightarrow> kworld \<Rightarrow> kworld option"

subsection \<open>Strings of symbols\<close>

text \<open>\<open>sym_get_string_value\<close> (\<open>symbol.c\<close>).\<close>

definition sym_get_string_value :: "calc \<Rightarrow> sym \<Rightarrow> kworld \<Rightarrow> (sym_val \<times> kworld) option" where
  "sym_get_string_value calc s w =
     (if sym_type (syms w s) = S_BOOLEAN \<or> sym_type (syms w s) = S_TRISTATE then
        (case sym_get_tristate_value s w of
           T_no \<Rightarrow> Some (Str ''n'', w)
         | T_mod \<Rightarrow> do {
             w \<leftarrow> calc (modules_sym w) w;
             Some (Str (if tri (curr (syms w (modules_sym w))) = T_no then ''n'' else ''m''), w) }
         | T_yes \<Rightarrow> Some (Str ''y'', w))
      else Some (val (curr (syms w s)), w))"

text \<open>A pointer that \<open>strcmp\<close> can read.\<close>

fun as_string :: "sym_val \<Rightarrow> string option" where
  "as_string (Str s) = Some s"
| "as_string v = None"

datatype string_value = K_string | K_signed int | K_unsigned u64

definition expr_parse_string :: "string \<Rightarrow> symbol_type \<Rightarrow> string_value" where
  "expr_parse_string str ty =
     (if ty = S_BOOLEAN \<or> ty = S_TRISTATE then
        K_signed (if str = ''n'' then 0 else if str = ''m'' then 1 else if str = ''y'' then 2 else - 1)
      else
        (let (v, err, tail) =
             (if ty = S_INT then (case strtoll 10 str of (n, e, t) \<Rightarrow> (K_signed n, e, t))
              else if ty = S_HEX then (case strtoull 16 str of (n, e, t) \<Rightarrow> (K_unsigned n, e, t))
              else (case strtoll 0 str of (n, e, t) \<Rightarrow> (K_signed n, e, t)));
             used = take (length str - length tail) str
         in if \<not> err \<and> tail = [] \<and> used \<noteq> [] \<and> is_xdigit (last used) then v else K_string))"

text \<open>The union read as unsigned: a signed number is taken modulo \<open>2 ^ 64\<close>.\<close>

fun as_unsigned :: "string_value \<Rightarrow> u64" where
  "as_unsigned (K_signed n) = of_int n"
| "as_unsigned (K_unsigned u) = u"
| "as_unsigned K_string = 0"

definition sign_of :: "'a::linorder \<Rightarrow> 'a \<Rightarrow> int" where
  "sign_of a b = (if b < a then 1 else 0) - (if a < b then 1 else 0)"

definition compare_values :: "string \<Rightarrow> string \<Rightarrow> string_value \<Rightarrow> string_value \<Rightarrow> int" where
  "compare_values str1 str2 v1 v2 =
     (case (v1, v2) of
        (K_string, _) \<Rightarrow> str_cmp str1 str2
      | (_, K_string) \<Rightarrow> str_cmp str1 str2
      | (K_signed a, K_signed b) \<Rightarrow> sign_of a b
      | _ \<Rightarrow> sign_of (as_unsigned v1) (as_unsigned v2))"

definition compare_strings :: "symbol_type \<Rightarrow> symbol_type \<Rightarrow> string \<Rightarrow> string \<Rightarrow> int" where
  "compare_strings ty1 ty2 str1 str2 =
     (if ty1 \<noteq> S_STRING \<or> ty2 \<noteq> S_STRING
      then compare_values str1 str2 (expr_parse_string str1 ty1) (expr_parse_string str2 ty2)
      else str_cmp str1 str2)"

definition of_bool3 :: "bool \<Rightarrow> tristate" where
  "of_bool3 b = (if b then T_yes else T_no)"

fun relation_holds :: "relation \<Rightarrow> int \<Rightarrow> bool" where
  "relation_holds E_EQUAL res \<longleftrightarrow> res = 0"
| "relation_holds E_GEQ res \<longleftrightarrow> res \<ge> 0"
| "relation_holds E_GTH res \<longleftrightarrow> res > 0"
| "relation_holds E_LEQ res \<longleftrightarrow> res \<le> 0"
| "relation_holds E_LTH res \<longleftrightarrow> res < 0"
| "relation_holds E_UNEQUAL res \<longleftrightarrow> res \<noteq> 0"

subsection \<open>Evaluation\<close>

text \<open>A list or a range is no condition: \<open>n\<close>, with a message.\<close>

fun expr_calc_value :: "calc \<Rightarrow> expr \<Rightarrow> kworld \<Rightarrow> (tristate \<times> kworld) option" where
  "expr_calc_value calc (E_SYMBOL s) w = do {
     w \<leftarrow> calc s w;
     Some (tri (curr (syms w s)), w) }"
| "expr_calc_value calc (E_AND l r) w = do {
     (val1, w) \<leftarrow> expr_calc_value calc l w;
     (val2, w) \<leftarrow> expr_calc_value calc r w;
     Some (EXPR_AND val1 val2, w) }"
| "expr_calc_value calc (E_OR l r) w = do {
     (val1, w) \<leftarrow> expr_calc_value calc l w;
     (val2, w) \<leftarrow> expr_calc_value calc r w;
     Some (EXPR_OR val1 val2, w) }"
| "expr_calc_value calc (E_NOT e) w = do {
     (val1, w) \<leftarrow> expr_calc_value calc e w;
     Some (EXPR_NOT val1, w) }"
| "expr_calc_value calc (E_CMP c a b) w = do {
     w \<leftarrow> calc a w;
     w \<leftarrow> calc b w;
     (v1, w) \<leftarrow> sym_get_string_value calc a w;
     (v2, w) \<leftarrow> sym_get_string_value calc b w;
     str1 \<leftarrow> as_string v1;
     str2 \<leftarrow> as_string v2;
     Some (of_bool3 (relation_holds c
       (compare_strings (sym_type (syms w a)) (sym_type (syms w b)) str1 str2)), w) }"
| "expr_calc_value calc e w = Some (T_no, w)"

definition expr_value_of :: "calc \<Rightarrow> expr option \<Rightarrow> kworld \<Rightarrow> (tristate \<times> kworld) option" where
  "expr_value_of calc e w = (case e of None \<Rightarrow> Some (T_yes, w) | Some e \<Rightarrow> expr_calc_value calc e w)"

subsection \<open>Growable strings\<close>

text \<open>
  \<open>struct gstr\<close> of \<open>lkc.h\<close>: \<open>gs_len\<close> is the size of the buffer and \<open>gs_s\<close> the string in it.
  Running out of memory ends the program and is not modelled.
\<close>

record gstr =
  gs_len :: nat
  gs_s :: string
  gs_max_width :: nat

definition str_new :: gstr where
  "str_new = \<lparr>gs_len = 64, gs_s = '''', gs_max_width = 0\<rparr>"

definition str_append :: "gstr \<Rightarrow> string \<Rightarrow> gstr" where
  "str_append gs s =
     (let l = length (gs_s gs) + length s + 1
      in gs\<lparr>gs_len := (if gs_len gs < l then l else gs_len gs), gs_s := gs_s gs @ s\<rparr>)"

text \<open>The formatted text is cut by the buffer of 10000 bytes.\<close>

definition str_printf :: "gstr \<Rightarrow> string \<Rightarrow> gstr" where
  "str_printf gs formatted = str_append gs (take 9999 formatted)"

definition str_get :: "gstr \<Rightarrow> string" where
  "str_get gs = gs_s gs"

subsection \<open>Text of expressions\<close>

text \<open>The node types with the value \<open>E_NONE\<close> that only a caller of \<open>expr_print\<close> passes.\<close>

datatype expr_type =
  TY_NONE | TY_OR | TY_AND | TY_NOT | TY_CMP relation | TY_LIST | TY_SYMBOL | TY_RANGE

fun type_of :: "expr \<Rightarrow> expr_type" where
  "type_of (E_OR l r) = TY_OR"
| "type_of (E_AND l r) = TY_AND"
| "type_of (E_NOT e) = TY_NOT"
| "type_of (E_CMP c a b) = TY_CMP c"
| "type_of (E_SYMBOL s) = TY_SYMBOL"
| "type_of (E_LIST ss) = TY_LIST"
| "type_of (E_RANGE a b) = TY_RANGE"

text \<open>
  The \<open>switch\<close> of \<open>expr_compare_type\<close> falls through its cases: the case that \<open>t1\<close> enters,
  the case that tests for \<open>t2\<close>, both counted from the top.
\<close>

fun entry_case :: "expr_type \<Rightarrow> nat option" where
  "entry_case (TY_CMP c) = (if c = E_EQUAL \<or> c = E_UNEQUAL then Some 1 else Some 0)"
| "entry_case TY_NOT = Some 2"
| "entry_case TY_AND = Some 3"
| "entry_case TY_OR = Some 4"
| "entry_case TY_LIST = Some 5"
| "entry_case t = None"

fun tested_case :: "expr_type \<Rightarrow> nat option" where
  "tested_case (TY_CMP c) = (if c = E_EQUAL \<or> c = E_UNEQUAL then Some 0 else None)"
| "tested_case TY_NOT = Some 1"
| "tested_case TY_AND = Some 2"
| "tested_case TY_OR = Some 3"
| "tested_case TY_LIST = Some 4"
| "tested_case TY_NONE = Some 5"
| "tested_case t = None"

definition expr_compare_type :: "expr_type \<Rightarrow> expr_type \<Rightarrow> int" where
  "expr_compare_type t1 t2 =
     (if t1 = t2 then 0
      else case (entry_case t1, tested_case t2) of
             (Some i, Some j) \<Rightarrow> if i \<le> j then 1 else - 1
           | _ \<Rightarrow> - 1)"

text \<open>
  \<open>expr_print\<close> as the list of its calls of \<open>fn\<close>: a symbol or \<open>NULL\<close>, and a string. The
  right symbol of a comparison has a name (the parser made it from one).
\<close>

type_synonym printed = "(sym option \<times> string) list"

definition print_left :: "kworld \<Rightarrow> sym \<Rightarrow> printed" where
  "print_left w s =
     (case sym_name (syms w s) of Some n \<Rightarrow> [(Some s, n)] | None \<Rightarrow> [(None, ''<choice>'')])"

definition print_right :: "kworld \<Rightarrow> sym \<Rightarrow> printed" where
  "print_right w s = [(Some s, case sym_name (syms w s) of Some n \<Rightarrow> n | None \<Rightarrow> '''')]"

fun relation_text :: "relation \<Rightarrow> string" where
  "relation_text E_EQUAL = ''=''"
| "relation_text E_LEQ = ''<=''"
| "relation_text E_LTH = ''<''"
| "relation_text E_GEQ = ''>=''"
| "relation_text E_GTH = ''>''"
| "relation_text E_UNEQUAL = ''!=''"

definition parens :: "bool \<Rightarrow> printed \<Rightarrow> printed" where
  "parens b ts = (if b then [(None, ''('')] @ ts @ [(None, '')'')] else ts)"

text \<open>A chain prints its members from the head, separated by \<open>^\<close>.\<close>

fun print_list :: "kworld \<Rightarrow> sym list \<Rightarrow> printed" where
  "print_list w [] = []"
| "print_list w [s] = print_right w s"
| "print_list w (s # ss) = print_right w s @ [(None, '' ^ '')] @ print_list w ss"

fun expr_print :: "kworld \<Rightarrow> expr \<Rightarrow> expr_type \<Rightarrow> printed" where
  "expr_print w (E_SYMBOL s) prev = print_left w s"
| "expr_print w (E_NOT e) prev =
     parens (expr_compare_type prev TY_NOT > 0) ([(None, ''!'')] @ expr_print w e TY_NOT)"
| "expr_print w (E_CMP c a b) prev =
     parens (expr_compare_type prev (TY_CMP c) > 0)
       (print_left w a @ [(None, relation_text c)] @ print_right w b)"
| "expr_print w (E_OR l r) prev =
     parens (expr_compare_type prev TY_OR > 0)
       (expr_print w l TY_OR @ [(None, '' || '')] @ expr_print w r TY_OR)"
| "expr_print w (E_AND l r) prev =
     parens (expr_compare_type prev TY_AND > 0)
       (expr_print w l TY_AND @ [(None, '' && '')] @ expr_print w r TY_AND)"
| "expr_print w (E_LIST ss) prev = parens (expr_compare_type prev TY_LIST > 0) (print_list w ss)"
| "expr_print w (E_RANGE a b) prev =
     [(None, ''['')] @ print_right w a @ [(None, '' '')] @ print_right w b @ [(None, '']'')]"

text \<open>\<open>NULL\<close> prints as \<open>y\<close>.\<close>

definition print_expr :: "kworld \<Rightarrow> expr option \<Rightarrow> printed" where
  "print_expr w e = (case e of None \<Rightarrow> [(None, ''y'')] | Some e \<Rightarrow> expr_print w e TY_NONE)"

definition expr_fprint :: "kworld \<Rightarrow> expr option \<Rightarrow> string" where
  "expr_fprint w e = concat (map snd (print_expr w e))"

text \<open>
  \<open>expr_print_gstr_helper\<close>: a line that would grow beyond the maximal width is continued on
  the next one, and a typed symbol is followed by its value. A \<open>NULL\<close> value counts as no
  string for the width, and prints as the C library prints it.
\<close>

definition last_line_length :: "string \<Rightarrow> nat" where
  "last_line_length s =
     (if CHR 0x0A \<in> set s then length (takeWhile (\<lambda>c. c \<noteq> CHR 0x0A) (rev s)) + 1 else length s)"

definition gstr_token :: "calc \<Rightarrow> sym option \<times> string \<Rightarrow> gstr \<times> kworld \<Rightarrow> (gstr \<times> kworld) option" where
  "gstr_token calc t st =
     (case (t, st) of ((s, str), (gs, w)) \<Rightarrow> do {
        (sym_str, w) \<leftarrow> (case s of
            None \<Rightarrow> Some (None, w)
          | Some a \<Rightarrow> do { (v, w) \<leftarrow> sym_get_string_value calc a w; Some (as_string v, w) });
        let extra = length str + (case sym_str of Some v \<Rightarrow> 4 + length v | None \<Rightarrow> 0);
        let gs = (if gs_max_width gs \<noteq> 0 \<and> gs_max_width gs < last_line_length (gs_s gs) + extra
                  then str_append gs [CHR 0x5C, CHR 0x0A] else gs);
        let gs = str_append gs str;
        let gs = (case s of
                    Some a \<Rightarrow> if sym_type (syms w a) \<noteq> S_UNKNOWN
                              then str_printf gs ('' [='' @ (case sym_str of Some v \<Rightarrow> v | None \<Rightarrow> ''(null)'') @ '']'')
                              else gs
                  | None \<Rightarrow> gs);
        Some (gs, w) })"

fun gstr_tokens :: "calc \<Rightarrow> printed \<Rightarrow> gstr \<times> kworld \<Rightarrow> (gstr \<times> kworld) option" where
  "gstr_tokens calc [] st = Some st"
| "gstr_tokens calc (t # ts) st = do { st \<leftarrow> gstr_token calc t st; gstr_tokens calc ts st }"

definition expr_gstr_print :: "calc \<Rightarrow> expr option \<Rightarrow> gstr \<times> kworld \<Rightarrow> (gstr \<times> kworld) option" where
  "expr_gstr_print calc e st = gstr_tokens calc (print_expr (snd st) e) st"

text \<open>
  \<open>expr_print_revdep\<close>: the operands of the top-level \<open>||\<close> whose value is \<open>pr_type\<close>, one per
  line; the title is printed once, before the first of them.
\<close>

fun revdep_operand ::
  "calc \<Rightarrow> tristate \<Rightarrow> expr \<Rightarrow> string option \<times> gstr \<times> kworld \<Rightarrow> (string option \<times> gstr \<times> kworld) option" where
  "revdep_operand calc pr_type e (title, gs, w) = do {
     (v, w) \<leftarrow> expr_calc_value calc e w;
     if v \<noteq> pr_type then Some (title, gs, w)
     else do {
       (gs, w) \<leftarrow> (case title of None \<Rightarrow> Some (gs, w) | Some t \<Rightarrow> gstr_token calc (None, t) (gs, w));
       (gs, w) \<leftarrow> gstr_token calc (None, ''  - '') (gs, w);
       (gs, w) \<leftarrow> gstr_tokens calc (expr_print w e TY_NONE) (gs, w);
       (gs, w) \<leftarrow> gstr_token calc (None, [CHR 0x0A]) (gs, w);
       Some (None, gs, w) } }"

fun expr_print_revdep ::
  "calc \<Rightarrow> tristate \<Rightarrow> expr \<Rightarrow> string option \<times> gstr \<times> kworld \<Rightarrow> (string option \<times> gstr \<times> kworld) option" where
  "expr_print_revdep calc pr_type (E_OR l r) st = do {
     st \<leftarrow> expr_print_revdep calc pr_type l st;
     expr_print_revdep calc pr_type r st }"
| "expr_print_revdep calc pr_type e st = revdep_operand calc pr_type e st"

definition expr_gstr_print_revdep ::
  "calc \<Rightarrow> expr \<Rightarrow> tristate \<Rightarrow> string \<Rightarrow> gstr \<times> kworld \<Rightarrow> (gstr \<times> kworld) option" where
  "expr_gstr_print_revdep calc e pr_type title st =
     map_option snd (expr_print_revdep calc pr_type e (Some title, st))"

end
