(* ===== verification/Kexpr_Props.thy ===== *)
theory Kexpr_Props
  imports Kvalue
begin

text \<open>
  Properties of dependency expressions. In a world whose symbols are calculated, evaluation is
  a function of the world (\<open>expr_value\<close>), and the rewriting functions of \<open>expr.c\<close> are judged
  by it: \<open>expr_transform\<close> keeps the value, \<open>expr_eq\<close> implies equal values,
  \<open>expr_eliminate_eq\<close> decides implication soundly, \<open>expr_trans_bool\<close> keeps visibility and
  \<open>expr_trans_compare\<close> tests for \<open>n\<close> and \<open>y\<close>.
\<close>

subsection \<open>Calculated worlds\<close>

fun expr_symbols :: "expr \<Rightarrow> sym list" where
  "expr_symbols (E_OR l r) = expr_symbols l @ expr_symbols r"
| "expr_symbols (E_AND l r) = expr_symbols l @ expr_symbols r"
| "expr_symbols (E_NOT e) = expr_symbols e"
| "expr_symbols (E_CMP c a b) = [a, b]"
| "expr_symbols (E_SYMBOL s) = [s]"
| "expr_symbols (E_LIST ss) = ss"
| "expr_symbols (E_RANGE a b) = [a, b]"

text \<open>The string of a symbol as the comparisons see it.\<close>

definition modules_on :: "kworld \<Rightarrow> bool" where
  "modules_on w \<longleftrightarrow> tri (curr (syms w (modules_sym w))) \<noteq> T_no"

definition sym_string :: "kworld \<Rightarrow> sym \<Rightarrow> string" where
  "sym_string w s =
     (if sym_type (syms w s) = S_BOOLEAN \<or> sym_type (syms w s) = S_TRISTATE then
        (case tri (curr (syms w s)) of
           T_no \<Rightarrow> ''n'' | T_mod \<Rightarrow> if modules_on w then ''m'' else ''n'' | T_yes \<Rightarrow> ''y'')
      else (case val (curr (syms w s)) of Str str \<Rightarrow> str | _ \<Rightarrow> ''''))"

text \<open>
  What \<open>sym_calc_value\<close> leaves: a boolean symbol is not \<open>m\<close>, a tristate one only with
  modules, the others have a string. A constant of the configuration language is untyped and
  is no number.
\<close>

definition symbol_ok :: "kworld \<Rightarrow> sym \<Rightarrow> bool" where
  "symbol_ok w s \<longleftrightarrow>
     (case sym_type (syms w s) of
        S_BOOLEAN \<Rightarrow> tri (curr (syms w s)) \<noteq> T_mod
      | S_TRISTATE \<Rightarrow> tri (curr (syms w s)) = T_mod \<longrightarrow> modules_on w
      | _ \<Rightarrow> as_string (val (curr (syms w s))) \<noteq> None) \<and>
     (has_flag SYMBOL_CONST s w \<longrightarrow>
        sym_type (syms w s) = S_UNKNOWN \<and> expr_parse_string (sym_string w s) S_UNKNOWN = K_string)"

definition constants_ok :: "kworld \<Rightarrow> bool" where
  "constants_ok w \<longleftrightarrow>
     syms w symbol_yes = const_symbol ''y'' T_yes \<and> syms w symbol_mod = const_symbol ''m'' T_mod \<and>
     syms w symbol_no = const_symbol ''n'' T_no"

definition distinct_constants :: "kworld \<Rightarrow> sym list \<Rightarrow> bool" where
  "distinct_constants w ss \<longleftrightarrow>
     (\<forall>s \<in> set ss. \<forall>t \<in> set ss. has_flag SYMBOL_CONST s w \<and> has_flag SYMBOL_CONST t w \<and>
        sym_string w s = sym_string w t \<longrightarrow> s = t)"

definition settled :: "calc \<Rightarrow> kworld \<Rightarrow> sym list \<Rightarrow> bool" where
  "settled calc w ss \<longleftrightarrow> (\<forall>s \<in> set ss. calc s w = Some w)"

abbreviation const_syms :: "sym list" where
  "const_syms \<equiv> [symbol_yes, symbol_mod, symbol_no]"

definition calculated :: "calc \<Rightarrow> kworld \<Rightarrow> expr \<Rightarrow> bool" where
  "calculated calc w e \<longleftrightarrow>
     constants_ok w \<and> (\<forall>s \<in> set (expr_symbols e). symbol_ok w s) \<and>
     distinct_constants w (const_syms @ expr_symbols e) \<and>
     settled calc w (modules_sym w # const_syms @ expr_symbols e)"

subsection \<open>Values\<close>

definition sym_compare :: "kworld \<Rightarrow> sym \<Rightarrow> sym \<Rightarrow> int" where
  "sym_compare w a b =
     compare_strings (sym_type (syms w a)) (sym_type (syms w b)) (sym_string w a) (sym_string w b)"

fun expr_value :: "kworld \<Rightarrow> expr \<Rightarrow> tristate" where
  "expr_value w (E_SYMBOL s) = tri (curr (syms w s))"
| "expr_value w (E_AND l r) = min (expr_value w l) (expr_value w r)"
| "expr_value w (E_OR l r) = max (expr_value w l) (expr_value w r)"
| "expr_value w (E_NOT e) = EXPR_NOT (expr_value w e)"
| "expr_value w (E_CMP c a b) = of_bool3 (relation_holds c (sym_compare w a b))"
| "expr_value w e = T_no"

lemma get_string_settled:
  assumes "settled calc w [modules_sym w]" "symbol_ok w s"
  shows "sym_get_string_value calc s w = Some (Str (sym_string w s), w)"
  using assms
  by (auto simp: sym_get_string_value_def settled_def symbol_ok_def sym_string_def modules_on_def
      sym_get_tristate_value_def split: tristate.splits symbol_type.splits sym_val.splits)

lemma expr_calc_value_settled:
  assumes "settled calc w (modules_sym w # expr_symbols e)" "\<forall>s \<in> set (expr_symbols e). symbol_ok w s"
  shows "expr_calc_value calc e w = Some (expr_value w e, w)"
  using assms
proof (induction e)
  case (E_CMP c a b)
  then have "sym_get_string_value calc a w = Some (Str (sym_string w a), w)"
    "sym_get_string_value calc b w = Some (Str (sym_string w b), w)"
    by (auto intro!: get_string_settled simp: settled_def)
  with E_CMP.prems show ?case by (simp add: settled_def sym_compare_def)
qed (auto simp: settled_def EXPR_AND_min EXPR_OR_max)

lemma parse_constant:
  "expr_parse_string ''y'' S_UNKNOWN = K_string" "expr_parse_string ''m'' S_UNKNOWN = K_string"
  "expr_parse_string ''n'' S_UNKNOWN = K_string"
  by (simp_all add: expr_parse_string_def strtoll_def scan_number_def number_prefix_def hex_prefix_def
      is_space_def digit_value_def is_digit_def is_lower_def is_upper_def Let_def)

lemma constants_calculated:
  assumes "constants_ok w"
  shows "symbol_ok w symbol_yes" "symbol_ok w symbol_mod" "symbol_ok w symbol_no"
    "sym_string w symbol_yes = ''y''" "sym_string w symbol_mod = ''m''" "sym_string w symbol_no = ''n''"
    "tri (curr (syms w symbol_yes)) = T_yes" "tri (curr (syms w symbol_mod)) = T_mod"
    "tri (curr (syms w symbol_no)) = T_no"
    "sym_type (syms w symbol_yes) = S_UNKNOWN" "sym_type (syms w symbol_mod) = S_UNKNOWN"
    "sym_type (syms w symbol_no) = S_UNKNOWN"
  using assms parse_constant by (simp_all add: constants_ok_def symbol_ok_def const_symbol_def sym_string_def zero_symbol_def)

lemma distinct_constants_mono:
  "distinct_constants w ts \<Longrightarrow> set ss \<subseteq> set ts \<Longrightarrow> distinct_constants w ss"
  unfolding distinct_constants_def by blast

text \<open>
  A rewriting that adds no symbols but the three constants, and keeps the pure value, keeps
  the result of evaluation.
\<close>

lemma calculated_subset:
  assumes "calculated calc w e" "set (expr_symbols e') \<subseteq> set (const_syms @ expr_symbols e)"
  shows "calculated calc w e'"
proof -
  have ok: "constants_ok w" using assms(1) by (simp add: calculated_def)
  have "symbol_ok w s" if "s \<in> set (const_syms @ expr_symbols e)" for s
    using that assms(1) constants_calculated(1-3)[OF ok] by (auto simp: calculated_def)
  then have "\<forall>s \<in> set (expr_symbols e'). symbol_ok w s"
    using assms(2) by blast
  moreover have sub: "set (const_syms @ expr_symbols e') \<subseteq> set (const_syms @ expr_symbols e)"
    using assms(2) by simp
  have "distinct_constants w (const_syms @ expr_symbols e')"
    using assms(1) distinct_constants_mono[OF _ sub] unfolding calculated_def by blast
  moreover have "settled calc w (modules_sym w # const_syms @ expr_symbols e')"
    using assms(1) sub unfolding calculated_def settled_def by auto
  ultimately show ?thesis using ok by (simp add: calculated_def)
qed

lemma calculated_value:
  assumes "calculated calc w e"
  shows "expr_calc_value calc e w = Some (expr_value w e, w)"
  using assms by (intro expr_calc_value_settled) (auto simp: calculated_def settled_def)

lemma same_value:
  assumes "calculated calc w e" "set (expr_symbols e') \<subseteq> set (const_syms @ expr_symbols e)"
    "expr_value w e' = expr_value w e"
  shows "expr_calc_value calc e' w = expr_calc_value calc e w"
  using calculated_value[OF assms(1)] calculated_value[OF calculated_subset[OF assms(1,2)]] assms(3) by simp

subsection \<open>Comparisons with the constants\<close>

lemma compare_untyped:
  assumes "sym_type (syms w b) = S_UNKNOWN" "expr_parse_string (sym_string w b) S_UNKNOWN = K_string"
  shows "sym_compare w a b = str_cmp (sym_string w a) (sym_string w b)"
  using assms by (auto simp: sym_compare_def compare_strings_def compare_values_def split: string_value.splits)

lemma compare_constants:
  assumes "constants_ok w"
  shows "sym_compare w a symbol_yes = 0 \<longleftrightarrow> sym_string w a = ''y''"
    "sym_compare w a symbol_mod = 0 \<longleftrightarrow> sym_string w a = ''m''"
    "sym_compare w a symbol_no = 0 \<longleftrightarrow> sym_string w a = ''n''"
  using constants_calculated[OF assms] by (simp_all add: compare_untyped parse_constant str_cmp_eq_0)

lemma bool3_simps [simp]:
  "of_bool3 b = T_yes \<longleftrightarrow> b" "of_bool3 b = T_no \<longleftrightarrow> \<not> b" "of_bool3 b \<noteq> T_mod"
  "EXPR_NOT (of_bool3 b) = of_bool3 (\<not> b)" "of_bool3 True = T_yes" "of_bool3 False = T_no"
  by (simp_all add: of_bool3_def)

lemma negate_relation_holds [simp]: "relation_holds (negate_relation c) r \<longleftrightarrow> \<not> relation_holds c r"
  by (cases c) auto

text \<open>The string of a symbol with a tristate value names the value.\<close>

lemma sym_string_boolean:
  assumes "symbol_ok w a" "sym_type (syms w a) = S_BOOLEAN \<or> sym_type (syms w a) = S_TRISTATE"
  shows "sym_string w a = ''y'' \<longleftrightarrow> tri (curr (syms w a)) = T_yes"
    "sym_string w a = ''m'' \<longleftrightarrow> tri (curr (syms w a)) = T_mod"
    "sym_string w a = ''n'' \<longleftrightarrow> tri (curr (syms w a)) = T_no"
  using assms by (auto simp: sym_string_def symbol_ok_def split: tristate.splits)

subsection \<open>expr_transform\<close>

text \<open>A negation stands only before a symbol that is not one of the three constants.\<close>

fun negations_at_symbols :: "expr \<Rightarrow> bool" where
  "negations_at_symbols (E_OR l r) \<longleftrightarrow> negations_at_symbols l \<and> negations_at_symbols r"
| "negations_at_symbols (E_AND l r) \<longleftrightarrow> negations_at_symbols l \<and> negations_at_symbols r"
| "negations_at_symbols (E_NOT e) \<longleftrightarrow> (case e of E_SYMBOL s \<Rightarrow> s \<notin> set const_syms | _ \<Rightarrow> False)"
| "negations_at_symbols e \<longleftrightarrow> True"

fun condition :: "expr \<Rightarrow> bool" where
  "condition (E_OR l r) \<longleftrightarrow> condition l \<and> condition r"
| "condition (E_AND l r) \<longleftrightarrow> condition l \<and> condition r"
| "condition (E_NOT e) \<longleftrightarrow> condition e"
| "condition (E_LIST ss) \<longleftrightarrow> False"
| "condition (E_RANGE a b) \<longleftrightarrow> False"
| "condition e \<longleftrightarrow> True"

lemma transform_symbols:
  "set (expr_symbols (expr_transform w e)) \<subseteq> set (const_syms @ expr_symbols e)"
proof (induction w e rule: expr_transform.induct)
  case (4 w e)
  show ?case
  proof (cases "expr_transform w e")
    case (E_SYMBOL s)
    then show ?thesis using 4(1) by (auto simp: not_symbol_def)
  qed (use 4 in auto)
qed (auto simp: transform_cmp_def)

lemma transform_condition: "condition e \<Longrightarrow> condition (expr_transform w e)"
proof (induction w e rule: expr_transform.induct)
  case (4 w e)
  then show ?case
    by (cases "expr_transform w e") (auto simp: not_symbol_def)
qed (auto simp: transform_cmp_def)

lemma transform_negations:
  "constants_ok w \<Longrightarrow> condition e \<Longrightarrow> negations_at_symbols (expr_transform w e)"
proof (induction w e rule: expr_transform.induct)
  case (3 w r a b)
  then show ?case using constants_calculated(10-12)[OF "3.prems"(1)] by (auto simp: transform_cmp_def)
next
  case (4 w e)
  then show ?case
    using transform_condition[of e w] by (cases "expr_transform w e") (auto simp: not_symbol_def)
qed auto

lemma transform_cmp_value:
  assumes "constants_ok w" "symbol_ok w a"
  shows "expr_value w (transform_cmp w c a b) = of_bool3 (relation_holds c (sym_compare w a b))"
proof (cases "sym_type (syms w a) = S_BOOLEAN")
  case True
  then have "tri (curr (syms w a)) \<noteq> T_mod" using assms(2) by (simp add: symbol_ok_def)
  with True show ?thesis
    using compare_constants[OF assms(1), of a] sym_string_boolean[OF assms(2)]
      constants_calculated(7-9)[OF assms(1)]
    by (cases "tri (curr (syms w a))") (auto simp: transform_cmp_def)
qed (simp add: transform_cmp_def)

lemma transform_value:
  "constants_ok w \<Longrightarrow> \<forall>s \<in> set (expr_symbols e). symbol_ok w s \<Longrightarrow>
     expr_value w (expr_transform w e) = expr_value w e"
proof (induction w e rule: expr_transform.induct)
  case (3 w r a b)
  then show ?case using transform_cmp_value by simp
next
  case (4 w e)
  have "symbol_ok w s" if "s \<in> set (const_syms @ expr_symbols e)" for s
    using that "4.prems" constants_calculated(1-3)[OF "4.prems"(1)] by auto
  then have ok: "\<forall>s \<in> set (expr_symbols (expr_transform w e)). symbol_ok w s"
    using transform_symbols[of w e] by blast
  have IH: "expr_value w (expr_transform w e) = expr_value w e"
    using 4 by simp
  show ?case
  proof (cases "expr_transform w e")
    case (E_OR l r)
    then have "expr_value w (expr_transform w (E_AND (E_NOT l) (E_NOT r))) = expr_value w (E_AND (E_NOT l) (E_NOT r))"
      using 4(2)[OF E_OR] "4.prems"(1) ok by simp
    then show ?thesis using E_OR IH by (simp add: EXPR_NOT_minmax flip: IH)
  next
    case (E_AND l r)
    then have "expr_value w (expr_transform w (E_OR (E_NOT l) (E_NOT r))) = expr_value w (E_OR (E_NOT l) (E_NOT r))"
      using 4(3)[OF E_AND] "4.prems"(1) ok by simp
    then show ?thesis using E_AND IH by (simp add: EXPR_NOT_minmax flip: IH)
  next
    case (E_NOT a)
    then have "expr_value w (expr_transform w a) = expr_value w a"
      using 4(4)[OF E_NOT] "4.prems"(1) ok by simp
    then show ?thesis using E_NOT IH by (simp flip: IH)
  next
    case (E_SYMBOL s)
    then show ?thesis
      using constants_calculated(7-9)[OF "4.prems"(1)] IH by (auto simp: not_symbol_def simp flip: IH)
  qed (use IH in \<open>auto simp flip: IH\<close>)
qed auto

text \<open>
  C23.
  \<open>expr_transform\<close> pushes every negation down to a symbol and rewrites the comparisons of
  boolean symbols, and evaluates to the same value as the expression it was given, in every
  world whose symbols are calculated.
\<close>
theorem transform_preserves_value:
  assumes "calculated calc w e" and "condition e"
  shows "expr_calc_value calc (expr_transform w e) w = expr_calc_value calc e w \<and>
     negations_at_symbols (expr_transform w e)"
proof -
  have "constants_ok w" "\<forall>s \<in> set (expr_symbols e). symbol_ok w s"
    using assms(1) by (simp_all add: calculated_def)
  then show ?thesis
    using same_value[OF assms(1) transform_symbols transform_value] transform_negations assms(2) by blast
qed

subsection \<open>Operands of a connective\<close>

fun combine :: "connective \<Rightarrow> tristate \<Rightarrow> tristate \<Rightarrow> tristate" where
  "combine C_OR a b = max a b"
| "combine C_AND a b = min a b"

lemma combine_ac:
  "combine c (combine c x y) z = combine c x (combine c y z)" "combine c x y = combine c y x"
  "combine c x (combine c y z) = combine c y (combine c x z)"
  by (cases c; simp add: ac_simps)+

lemma combine_neutral [simp]:
  assumes "constants_ok w"
  shows "combine c a (expr_value w (neutral c)) = a" "combine c (expr_value w (neutral c)) a = a"
  using constants_calculated(7-9)[OF assms] by (cases c; simp)+

lemma combine_mono: "x \<le> y \<Longrightarrow> combine c p x \<le> combine c p y"
  by (cases c) (auto simp: min_def max_def)

lemma eliminate_yn_value:
  "constants_ok w \<Longrightarrow> expr_value w (expr_eliminate_yn e) = expr_value w e"
  by (induction e rule: expr_eliminate_yn.induct)
    (auto simp: constants_calculated Let_def)

text \<open>
  What a walk removes: a common part \<open>p\<close>, of which both expressions are the combination with
  what is left of them.
\<close>

definition common_part :: "kworld \<Rightarrow> connective \<Rightarrow> expr \<times> expr \<Rightarrow> expr \<times> expr \<Rightarrow> bool" where
  "common_part w c es es' \<longleftrightarrow>
     (\<exists>p. expr_value w (fst es) = combine c p (expr_value w (fst es')) \<and>
          expr_value w (snd es) = combine c p (expr_value w (snd es')))"

lemma common_step:
  assumes "common_part w c (x, l) (x', l')" "common_part w c (x', r) (x'', r')"
    "expr_value w e = combine c (expr_value w l) (expr_value w r)"
    "expr_value w e' = combine c (expr_value w l') (expr_value w r')"
  shows "common_part w c (x, e) (x'', e')"
proof -
  obtain p q where "expr_value w x = combine c p (expr_value w x')" "expr_value w l = combine c p (expr_value w l')"
    "expr_value w x' = combine c q (expr_value w x'')" "expr_value w r = combine c q (expr_value w r')"
    using assms(1,2) by (auto simp: common_part_def)
  then show ?thesis
    using assms(3,4) by (auto simp: common_part_def combine_ac intro!: exI[of _ "combine c p q"])
qed

lemma common_swap: "common_part w c (a, b) (a', b') \<longleftrightarrow> common_part w c (b, a) (b', a')"
  by (auto simp: common_part_def)

text \<open>The contract of the comparison that the walks call: expressions that it calls equal have one value.\<close>

locale sound_comparison =
  fixes eq :: "expr \<Rightarrow> expr \<Rightarrow> bool"
  assumes sound: "constants_ok w \<Longrightarrow> eq a b \<Longrightarrow> expr_value w a = expr_value w b"
begin

lemma pair_common:
  assumes const: "constants_ok w"
  shows "common_part w c (e1, e2) (eliminate_pair eq c e1 e2)"
proof (cases "eliminate_pair eq c e1 e2 = (e1, e2)")
  case True
  then show ?thesis
    by (auto simp: common_part_def const intro!: exI[of _ "expr_value w (neutral c)"])
next
  case False
  then have "eliminate_pair eq c e1 e2 = (neutral c, neutral c)" "expr_value w e1 = expr_value w e2"
    using sound[of w e1 e2] const by (auto simp: eliminate_pair_def split: if_splits)
  then show ?thesis
    by (auto simp: common_part_def const intro!: exI[of _ "expr_value w e2"])
qed

lemma right_common: "constants_ok w \<Longrightarrow> common_part w c (e1, e2) (eliminate_right eq c e1 e2)"
proof (induction eq\<equiv>eq c e1 e2 rule: eliminate_right.induct)
  case (1 e1 l r)
  obtain x l' y r' where xs: "eliminate_right eq C_OR e1 l = (x, l')" "eliminate_right eq C_OR x r = (y, r')"
    by fastforce
  with 1 show ?case using common_step[of w C_OR e1 l x l' r y r' "E_OR l r" "E_OR l' r'"] by simp
next
  case (2 e1 l r)
  obtain x l' y r' where xs: "eliminate_right eq C_AND e1 l = (x, l')" "eliminate_right eq C_AND x r = (y, r')"
    by fastforce
  with 2 show ?case using common_step[of w C_AND e1 l x l' r y r' "E_AND l r" "E_AND l' r'"] by simp
qed (simp_all add: pair_common)

lemma walk_common: "constants_ok w \<Longrightarrow> common_part w c (e1, e2) (eliminate_walk eq c e1 e2)"
proof (induction eq\<equiv>eq c e1 e2 rule: eliminate_walk.induct)
  case (1 l r e2)
  obtain l' x r' y where xs: "eliminate_walk eq C_OR l e2 = (l', x)" "eliminate_walk eq C_OR r x = (r', y)"
    by fastforce
  with 1 show ?case
    using common_step[of w C_OR e2 l x l' r y r' "E_OR l r" "E_OR l' r'"] by (simp add: common_swap)
next
  case (2 l r e2)
  obtain l' x r' y where xs: "eliminate_walk eq C_AND l e2 = (l', x)" "eliminate_walk eq C_AND r x = (r', y)"
    by fastforce
  with 2 show ?case
    using common_step[of w C_AND e2 l x l' r y r' "E_AND l r" "E_AND l' r'"] by (simp add: common_swap)
qed (simp_all add: right_common)

lemma walk_equal:
  assumes const: "constants_ok w" and "expr_value w (fst (eliminate_walk eq c e1 e2)) = expr_value w (snd (eliminate_walk eq c e1 e2))"
  shows "expr_value w e1 = expr_value w e2"
  using walk_common[of w c e1 e2] assms by (auto simp: common_part_def)

lemma walk_le:
  assumes const: "constants_ok w" and "expr_value w (fst (eliminate_walk eq c e1 e2)) \<le> expr_value w (snd (eliminate_walk eq c e1 e2))"
  shows "expr_value w e1 \<le> expr_value w e2"
  using walk_common[of w c e1 e2] assms by (auto simp: common_part_def intro: combine_mono)

lemma for_le:
  assumes const: "constants_ok w" and "expr_value w (fst (eliminate_for eq c es)) \<le> expr_value w (snd (eliminate_for eq c es))"
  shows "expr_value w (fst es) \<le> expr_value w (snd es)"
  using assms walk_le[of w "the c" "fst es" "snd es"] by (cases c) (simp_all add: eliminate_for_def)

lemma eliminate_with_le:
  assumes const: "constants_ok w" and "expr_value w (fst (eliminate_with eq e1 e2)) \<le> expr_value w (snd (eliminate_with eq e1 e2))"
  shows "expr_value w e1 \<le> expr_value w e2"
proof -
  define es where "es = eliminate_for eq (conn_of e1) (e1, e2)"
  have "expr_value w (fst es) \<le> expr_value w (snd es)"
    using assms for_le[of w "conn_of (snd es)" es]
    by (simp add: eliminate_with_def Let_def eliminate_yn_value const flip: es_def split: if_splits)
  then show ?thesis using for_le[OF const, of "conn_of e1" "(e1, e2)"] by (simp add: es_def)
qed

end

lemma right_conn:
  "conn_of e2 = Some c \<Longrightarrow> conn_of (snd (eliminate_right eq c e1 e2)) = Some c"
  by (cases e2; cases c) (auto split: prod.splits)

lemma walk_conn:
  "conn_of e1 = Some c \<Longrightarrow> conn_of (fst (eliminate_walk eq c e1 e2)) = Some c"
  "conn_of e2 = Some c \<Longrightarrow> conn_of (snd (eliminate_walk eq c e1 e2)) = Some c"
  by (cases e1; cases c; auto split: prod.splits)
    (induction eq c e1 e2 rule: eliminate_walk.induct; fastforce simp: right_conn split: prod.splits)

lemma eliminate_same_conn:
  assumes "conn_of e1 = Some c" "conn_of e2 = Some c"
  shows "eliminate_with eq e1 e2 =
     map_prod expr_eliminate_yn expr_eliminate_yn (eliminate_walk eq c e1 e2)"
  using walk_conn(1)[OF assms(1), of eq e2] walk_conn(2)[OF assms(2), of eq e1] assms
  by (simp add: eliminate_with_def eliminate_for_def Let_def map_prod_def split_beta)

subsection \<open>expr_eq and expr_eliminate_eq\<close>

lemma eq_depth_sound: "sound_comparison (eq_depth d)"
proof (induction d)
  case 0
  show ?case by unfold_locales simp
next
  case (Suc d)
  have both: "expr_value w e1 = expr_value w e2"
    if w: "constants_ok w" and c: "conn_of e1 = Some c" "conn_of e2 = Some c"
      and same: "same_symbol (eliminate_with (eq_depth d) e1 e2)" for w e1 e2 c
  proof -
    have "expr_value w (fst (eliminate_with (eq_depth d) e1 e2)) = expr_value w (snd (eliminate_with (eq_depth d) e1 e2))"
      using same by (auto simp: same_symbol_def split: prod.splits expr.splits)
    then have "expr_value w (fst (eliminate_walk (eq_depth d) c e1 e2)) =
        expr_value w (snd (eliminate_walk (eq_depth d) c e1 e2))"
      by (simp add: eliminate_same_conn[OF c] eliminate_yn_value w)
    then show ?thesis by (rule sound_comparison.walk_equal[OF Suc w])
  qed
  show ?case
  proof
    fix w e1 e2
    assume "constants_ok w" "eq_depth (Suc d) e1 e2"
    then show "expr_value w e1 = expr_value w e2"
      using sound_comparison.sound[OF Suc, of w] both[of w e1 C_OR e2] both[of w e1 C_AND e2]
      by (cases e1; cases e2) simp_all
  qed
qed

interpretation same: sound_comparison expr_same
  by unfold_locales (simp add: expr_same_def sound_comparison.sound[OF eq_depth_sound])

text \<open>The depth is only a bound on the recursion.\<close>

lemma pair_cong:
  "eq e1 e2 = eq' e1 e2 \<Longrightarrow> eliminate_pair eq c e1 e2 = eliminate_pair eq' c e1 e2"
  by (simp only: eliminate_pair_def)

lemma depth_pos [simp]: "0 < depth e" "depth e \<noteq> 0"
  by (cases e; simp)+

lemma conn_depth: "conn_of e = Some c \<Longrightarrow> 2 \<le> depth e"
  by (cases e) (auto simp: le_max_iff_disj Suc_le_eq)

lemma depth_neutral [simp]: "depth (neutral c) = 1"
  by (cases c) simp_all

lemma right_depth: "fst (eliminate_right eq c e1 e2) = e1 \<or> fst (eliminate_right eq c e1 e2) = neutral c"
  by (induction eq c e1 e2 rule: eliminate_right.induct)
    (auto simp: eliminate_pair_def split: prod.splits)

lemma right_cong:
  assumes "\<And>a b. depth a \<le> n \<Longrightarrow> eq a b = eq' a b" and "1 \<le> n"
  shows "depth e1 \<le> n \<Longrightarrow> eliminate_right eq c e1 e2 = eliminate_right eq' c e1 e2"
proof (induction eq\<equiv>eq c e1 e2 rule: eliminate_right.induct)
  case (1 e1 l r)
  then show ?case using right_depth[of eq' C_OR e1 l] assms by (auto split: prod.splits)
next
  case (2 e1 l r)
  then show ?case using right_depth[of eq' C_AND e1 l] assms by (auto split: prod.splits)
qed (use assms in \<open>simp_all add: pair_cong[where eq = eq and eq' = eq']\<close>)

lemma walk_cong:
  assumes "\<And>a b. depth a \<le> n \<Longrightarrow> eq a b = eq' a b" and "1 \<le> n"
  shows "\<forall>a \<in> set (operands c e1). depth a \<le> n \<Longrightarrow> eliminate_walk eq c e1 e2 = eliminate_walk eq' c e1 e2"
proof (induction eq\<equiv>eq c e1 e2 rule: eliminate_walk.induct)
qed (use assms in \<open>auto split: prod.splits intro!: right_cong\<close>)

lemma operands_depth: "a \<in> set (operands c e) \<Longrightarrow> depth a \<le> depth e"
  by (induction c e rule: operands.induct) auto

lemma operands_smaller:
  "conn_of e = Some c \<Longrightarrow> a \<in> set (operands c e) \<Longrightarrow> depth a < depth e"
  using operands_depth by (cases e; cases c) fastforce+

lemma eq_depth_enough: "depth e1 \<le> d \<Longrightarrow> depth e1 \<le> d' \<Longrightarrow> eq_depth d e1 e2 = eq_depth d' e1 e2"
proof (induction "depth e1" arbitrary: e1 e2 d d' rule: less_induct)
  case less
  obtain k k' where d: "d = Suc k" "d' = Suc k'"
    using less.prems depth_pos[of e1] by (metis Suc_le_D Suc_leI le_trans One_nat_def)
  have both: "eliminate_with (eq_depth k) e1 e2 = eliminate_with (eq_depth k') e1 e2"
    if c: "conn_of e1 = Some c" "conn_of e2 = Some c" for c
  proof -
    define n where "n = depth e1 - 1"
    have "1 \<le> n" using conn_depth[OF c(1)] by (simp add: n_def)
    have n: "n < depth e1" "n \<le> k" "n \<le> k'" using less.prems d by (auto simp: n_def intro: diff_less)
    have "eliminate_walk (eq_depth k) c e1 e2 = eliminate_walk (eq_depth k') c e1 e2"
    proof (rule walk_cong[OF _ \<open>1 \<le> n\<close>])
      show "eq_depth k a b = eq_depth k' a b" if "depth a \<le> n" for a b
        using less.hyps[of a k k' b] that n by simp
      show "\<forall>a \<in> set (operands c e1). depth a \<le> n"
        using operands_smaller[OF c(1)] by (force simp: n_def)
    qed
    then show ?thesis by (simp add: eliminate_same_conn[OF c])
  qed
  have inner: "eq_depth k a b = eq_depth k' a b" if "e1 = E_NOT a" for a b
    using less.hyps[of a k k' b] less.prems d that by simp
  show ?case
    using both[of C_OR] both[of C_AND] inner d by (cases e1; cases e2) simp_all
qed

text \<open>\<open>expr_eq\<close> as the code has it: the recursive calls go to the function itself.\<close>

lemma expr_eq_step:
  "expr_same e1 e2 =
     (case (e1, e2) of
        (E_CMP r a b, E_CMP r' a' b') \<Rightarrow> r = r' \<and> a = a' \<and> b = b'
      | (E_SYMBOL s, E_SYMBOL t) \<Rightarrow> s = t
      | (E_NOT a, E_NOT b) \<Rightarrow> expr_same a b
      | (E_AND _ _, E_AND _ _) \<Rightarrow> same_symbol (eliminate_with expr_same e1 e2)
      | (E_OR _ _, E_OR _ _) \<Rightarrow> same_symbol (eliminate_with expr_same e1 e2)
      | _ \<Rightarrow> False)"
proof -
  have both: "eliminate_with (eq_depth (depth e1 - 1)) e1 e2 = eliminate_with expr_same e1 e2"
    if c: "conn_of e1 = Some c" "conn_of e2 = Some c" for c
  proof -
    have "1 \<le> depth e1 - 1" using conn_depth[OF c(1)] by simp
    moreover have "\<forall>a \<in> set (operands c e1). depth a \<le> depth e1 - 1"
      using operands_smaller[OF c(1)] by force
    moreover have "eq_depth (depth e1 - 1) a b = expr_same a b" if "depth a \<le> depth e1 - 1" for a b
      unfolding expr_same_def by (rule eq_depth_enough) (use that in auto)
    ultimately have "eliminate_walk (eq_depth (depth e1 - 1)) c e1 e2 = eliminate_walk expr_same c e1 e2"
      by (intro walk_cong[where n = "depth e1 - 1"])
    then show ?thesis by (simp add: eliminate_same_conn[OF c])
  qed
  have "expr_same e1 e2 = eq_depth (Suc (depth e1 - 1)) e1 e2"
    by (simp add: expr_same_def)
  then show ?thesis
    using both[of C_OR] both[of C_AND] by (cases e1; cases e2) (auto simp: expr_same_def)
qed

text \<open>
  C24.
  Expressions that \<open>expr_eq\<close> calls equal (the same operands of \<open>&&\<close> and \<open>||\<close> up to order,
  recursively) have the same value in every calculated world, and the comparison obeys the
  recursion of the code, through \<open>expr_eliminate_eq\<close> on smaller operands.
\<close>
theorem expr_eq_means_equal_value:
  assumes "calculated calc w a" "calculated calc w b" and "expr_eq (Some a) (Some b)"
  shows "expr_value_of calc (Some a) w = expr_value_of calc (Some b) w \<and>
     (conn_of a \<noteq> None \<longrightarrow> conn_of a = conn_of b \<and>
        same_symbol (map_prod the the (expr_eliminate_eq (Some a) (Some b))))"
proof -
  have eq: "expr_same a b" using assms(3) by (simp add: expr_eq_def)
  have "constants_ok w" using assms(1) by (simp add: calculated_def)
  then have "expr_value_of calc (Some a) w = expr_value_of calc (Some b) w"
    using calculated_value[OF assms(1)] calculated_value[OF assms(2)] same.sound[OF _ eq]
    by (simp add: expr_value_of_def)
  moreover have "conn_of a = conn_of b \<and> same_symbol (eliminate_with expr_same a b)" if "conn_of a \<noteq> None"
    using eq that unfolding expr_eq_step[of a b] by (cases a; cases b) simp_all
  ultimately show ?thesis
    by (simp add: expr_eliminate_eq_def split_beta map_prod_def)
qed

text \<open>
  When \<open>expr_eliminate_eq\<close> reduces the second of two expressions to \<open>y\<close>, the first one
  implies it: its value is at most the value of the second. (\<open>menu_finalize\<close> decides in this
  way that an entry belongs to the submenu of the symbol before it.)
\<close>
theorem eliminate_eq_decides_implication:
  assumes "calculated calc w a" "calculated calc w b"
    and "expr_is_yes (snd (expr_eliminate_eq (Some a) (Some b)))"
  shows "\<exists>x y. expr_calc_value calc a w = Some (x, w) \<and> expr_calc_value calc b w = Some (y, w) \<and> x \<le> y"
proof -
  have const: "constants_ok w" using assms(1) by (simp add: calculated_def)
  have "snd (eliminate_with expr_same a b) = E_SYMBOL symbol_yes"
    using assms(3) by (simp add: expr_eliminate_eq_def expr_is_yes_def split_beta)
  then have "expr_value w a \<le> expr_value w b"
    using same.eliminate_with_le[OF const, of a b]
      constants_calculated(7)[OF const] by simp
  then show ?thesis
    using calculated_value[OF assms(1)] calculated_value[OF assms(2)] by simp
qed

subsection \<open>expr_trans_bool and expr_trans_compare\<close>

lemma trans_bool_symbols: "set (expr_symbols (expr_trans_bool w e)) \<subseteq> set (expr_symbols e)"
  by (induction w e rule: expr_trans_bool.induct) auto

lemma minmax_no: "min a b = T_no \<longleftrightarrow> a = T_no \<or> b = T_no" "max a b = T_no \<longleftrightarrow> a = T_no \<and> b = T_no"
  "min a b = T_yes \<longleftrightarrow> a = T_yes \<and> b = T_yes" "max a b = T_yes \<longleftrightarrow> a = T_yes \<or> b = T_yes"
  by (cases a; cases b; simp add: min_def max_def less_eq_tristate_def)+

lemma trans_bool_no:
  assumes "constants_ok w"
  shows "negations_at_symbols e \<Longrightarrow> \<forall>s \<in> set (expr_symbols e). symbol_ok w s \<Longrightarrow>
     expr_value w (expr_trans_bool w e) = T_no \<longleftrightarrow> expr_value w e = T_no"
proof (induction e)
  case (E_NOT e)
  then show ?case by (cases e) auto
next
  case (E_CMP c a b)
  then show ?case
    using compare_constants(3)[OF assms, of a] sym_string_boolean[of w a] by auto
qed (simp_all add: minmax_no)

text \<open>
  For a symbol that is not tristate the condition of a property may be read as \<open>n\<close> or not
  \<open>n\<close>: replacing the comparisons \<open>FOO != n\<close> by \<open>FOO\<close> after \<open>expr_transform\<close> does not change
  whether it holds.
\<close>
theorem trans_bool_keeps_visibility:
  assumes "calculated calc w e" and "condition e"
  shows "\<exists>x y. expr_calc_value calc e w = Some (x, w) \<and>
     expr_calc_value calc (expr_trans_bool w (expr_transform w e)) w = Some (y, w) \<and>
     (x = T_no \<longleftrightarrow> y = T_no)"
proof -
  let ?t = "expr_transform w e"
  have const: "constants_ok w" and ok: "\<forall>s \<in> set (expr_symbols e). symbol_ok w s"
    using assms(1) by (simp_all add: calculated_def)
  have t: "calculated calc w ?t" by (rule calculated_subset[OF assms(1) transform_symbols])
  have "calculated calc w (expr_trans_bool w ?t)"
    by (rule calculated_subset[OF t]) (use trans_bool_symbols in auto)
  moreover have "expr_value w (expr_trans_bool w ?t) = T_no \<longleftrightarrow> expr_value w ?t = T_no"
    using trans_bool_no[OF const] transform_negations[OF const assms(2)] t by (simp add: calculated_def)
  ultimately show ?thesis
    using calculated_value assms(1) transform_value[OF const ok] by auto
qed

text \<open>
  \<open>expr_trans_compare\<close> is exact where no operand of a negation is \<open>m\<close>: \<open>two_valued\<close>.
\<close>

fun two_valued :: "kworld \<Rightarrow> expr \<Rightarrow> bool" where
  "two_valued w (E_OR l r) \<longleftrightarrow> two_valued w l \<and> two_valued w r"
| "two_valued w (E_AND l r) \<longleftrightarrow> two_valued w l \<and> two_valued w r"
| "two_valued w (E_NOT e) \<longleftrightarrow> two_valued w e \<and> expr_value w e \<noteq> T_mod"
| "two_valued w e \<longleftrightarrow> True"

lemma symbol_compare_value:
  assumes "constants_ok w" "symbol_ok w a" "sym_type (syms w a) = S_BOOLEAN \<or> sym_type (syms w a) = S_TRISTATE"
    "ty = E_EQUAL \<or> ty = E_UNEQUAL" "s = symbol_yes \<or> s = symbol_no"
  shows "expr_value w (E_CMP ty a s) =
     of_bool3 ((ty = E_EQUAL) = (tri (curr (syms w a)) = tri (curr (syms w s))))"
  using assms(4,5) compare_constants[OF assms(1), of a] sym_string_boolean[OF assms(2,3)]
    constants_calculated(7-9)[OF assms(1)] by auto

text \<open>The symbols that stand for a condition are boolean, tristate or constant.\<close>

fun logical_symbols :: "kworld \<Rightarrow> expr \<Rightarrow> bool" where
  "logical_symbols w (E_OR l r) \<longleftrightarrow> logical_symbols w l \<and> logical_symbols w r"
| "logical_symbols w (E_AND l r) \<longleftrightarrow> logical_symbols w l \<and> logical_symbols w r"
| "logical_symbols w (E_NOT e) \<longleftrightarrow> logical_symbols w e"
| "logical_symbols w (E_SYMBOL a) \<longleftrightarrow>
     a \<in> set const_syms \<or> sym_type (syms w a) = S_BOOLEAN \<or> sym_type (syms w a) = S_TRISTATE"
| "logical_symbols w e \<longleftrightarrow> True"

lemma logical_compare_value:
  assumes "constants_ok w" "symbol_ok w a" "logical_symbols w (E_SYMBOL a)"
    "ty = E_EQUAL \<or> ty = E_UNEQUAL" "s = symbol_yes \<or> s = symbol_no"
  shows "expr_value w (E_CMP ty a s) =
     of_bool3 ((ty = E_EQUAL) = (tri (curr (syms w a)) = tri (curr (syms w s))))"
proof (cases "a \<in> set const_syms")
  case True
  then show ?thesis
    using assms(4,5) compare_constants[OF assms(1), of a] constants_calculated(4-9)[OF assms(1)] by auto
next
  case False
  then show ?thesis using symbol_compare_value assms by auto
qed

lemma not_two_valued:
  assumes "v \<noteq> T_mod" "u = T_yes \<or> u = T_no"
  shows "(EXPR_NOT v = u) = (v \<noteq> u)"
  using assms by (cases v) auto

lemma trans_compare_value:
  assumes const: "constants_ok w" and s: "s = symbol_yes \<or> s = symbol_no"
  shows "condition e \<Longrightarrow> two_valued w e \<Longrightarrow> logical_symbols w e \<Longrightarrow>
     \<forall>a \<in> set (expr_symbols e). symbol_ok w a \<Longrightarrow> ty = E_EQUAL \<or> ty = E_UNEQUAL \<Longrightarrow>
     \<exists>e'. expr_trans_compare e ty s = Some e' \<and> set (expr_symbols e') \<subseteq> insert s (set (expr_symbols e)) \<and>
       expr_value w e' = of_bool3 ((ty = E_EQUAL) = (expr_value w e = tri (curr (syms w s))))"
proof (induction e arbitrary: ty)
  case (E_OR l r)
  obtain x y where
    "expr_trans_compare l E_EQUAL s = Some x" "expr_trans_compare r E_EQUAL s = Some y"
    "set (expr_symbols x) \<subseteq> insert s (set (expr_symbols l))" "set (expr_symbols y) \<subseteq> insert s (set (expr_symbols r))"
    "expr_value w x = of_bool3 (expr_value w l = tri (curr (syms w s)))"
    "expr_value w y = of_bool3 (expr_value w r = tri (curr (syms w s)))"
    using E_OR.IH(1)[of E_EQUAL] E_OR.IH(2)[of E_EQUAL] E_OR.prems by auto
  then show ?case
    using s E_OR.prems constants_calculated(7-9)[OF const]
    by (auto simp: compare_both_def negate_if_def of_bool3_def minmax_no)
next
  case (E_AND l r)
  obtain x y where
    "expr_trans_compare l E_EQUAL s = Some x" "expr_trans_compare r E_EQUAL s = Some y"
    "set (expr_symbols x) \<subseteq> insert s (set (expr_symbols l))" "set (expr_symbols y) \<subseteq> insert s (set (expr_symbols r))"
    "expr_value w x = of_bool3 (expr_value w l = tri (curr (syms w s)))"
    "expr_value w y = of_bool3 (expr_value w r = tri (curr (syms w s)))"
    using E_AND.IH(1)[of E_EQUAL] E_AND.IH(2)[of E_EQUAL] E_AND.prems by auto
  then show ?case
    using s E_AND.prems constants_calculated(7-9)[OF const]
    by (auto simp: compare_both_def negate_if_def of_bool3_def minmax_no)
next
  case (E_NOT e)
  let ?ty = "if ty = E_EQUAL then E_UNEQUAL else E_EQUAL"
  have tri: "tri (curr (syms w s)) = T_yes \<or> tri (curr (syms w s)) = T_no"
    using s constants_calculated(7-9)[OF const] by auto
  obtain e' where "expr_trans_compare e ?ty s = Some e'"
    "set (expr_symbols e') \<subseteq> insert s (set (expr_symbols e))"
    "expr_value w e' = of_bool3 ((?ty = E_EQUAL) = (expr_value w e = tri (curr (syms w s))))"
    using E_NOT.IH[of ?ty] E_NOT.prems by auto
  then show ?case using E_NOT.prems not_two_valued[OF _ tri, of "expr_value w e"] by auto
next
  case (E_CMP c a b)
  then show ?case
    using s constants_calculated(7-9)[OF const] by (auto simp: negate_if_def)
next
  case (E_SYMBOL a)
  then show ?case
    using logical_compare_value[OF const _ E_SYMBOL.prems(3) E_SYMBOL.prems(5) s] by auto
qed auto

text \<open>
  \<open>expr_trans_compare\<close> with \<open>y\<close> or \<open>n\<close> yields an expression that is \<open>y\<close> exactly when the given
  one has (or, for \<open>!=\<close>, has not) this value, and \<open>n\<close> otherwise, as long as no negated operand
  is \<open>m\<close>; for \<open>!A\<close> with \<open>A = m\<close> the result of the comparison with \<open>n\<close> is wrong, which is the
  price of turning \<open>!A\<close> into \<open>A=n\<close>.
\<close>
theorem trans_compare_tests_value:
  assumes "calculated calc w e" and "condition e" "two_valued w e" "logical_symbols w e"
    and "ty = E_EQUAL \<or> ty = E_UNEQUAL" and "s = symbol_yes \<or> s = symbol_no"
  shows "\<exists>e' v. trans_compare (Some e) ty s = Some e' \<and> expr_calc_value calc e w = Some (v, w) \<and>
     expr_calc_value calc e' w =
       Some (if (ty = E_EQUAL) = (v = tri (curr (syms w s))) then T_yes else T_no, w)"
proof -
  obtain e' where e': "expr_trans_compare e ty s = Some e'"
    "set (expr_symbols e') \<subseteq> insert s (set (expr_symbols e))"
    "expr_value w e' = of_bool3 ((ty = E_EQUAL) = (expr_value w e = tri (curr (syms w s))))"
    using trans_compare_value[OF _ assms(6,2-4) _ assms(5)] assms(1) by (auto simp: calculated_def)
  have "calculated calc w e'"
    by (rule calculated_subset[OF assms(1)]) (use e'(2) assms(6) in auto)
  then show ?thesis
    using e' calculated_value assms(1) by (auto simp: trans_compare_def of_bool3_def)
qed

text \<open>
  For a tristate symbol whose value is \<open>m\<close>, the expression \<open>!A\<close> has the value \<open>m\<close>, but
  its test for being other than \<open>n\<close> that \<open>expr_trans_compare\<close> builds has the value \<open>n\<close>: the
  negation of an equation is not the equation of a negation when there are three values.
\<close>

theorem trans_compare_negated_m:
  assumes "constants_ok w" "symbol_ok w a" "sym_type (syms w a) = S_TRISTATE"
    "tri (curr (syms w a)) = T_mod"
  shows "expr_value w (E_NOT (E_SYMBOL a)) = T_mod \<and>
     (\<exists>e'. expr_trans_compare (E_NOT (E_SYMBOL a)) E_UNEQUAL symbol_no = Some e' \<and> expr_value w e' = T_no)"
  using symbol_compare_value[OF assms(1,2), of E_EQUAL symbol_no] assms(3,4)
    constants_calculated(9)[OF assms(1)] by simp

subsection \<open>An example world\<close>

text \<open>
  A boolean symbol (0), a tristate one that is \<open>m\<close> (1), the modules symbol (2, \<open>y\<close>) and an
  integer (3).
\<close>

definition plain_symbol_of :: "string \<Rightarrow> symbol_type \<Rightarrow> sym_val \<Rightarrow> tristate \<Rightarrow> symbol" where
  "plain_symbol_of n ty v t = zero_symbol\<lparr>sym_name := Some n, sym_type := ty,
     curr := \<lparr>val = v, tri = t\<rparr>, flags := {SYMBOL_VALID}\<rparr>"

definition example_syms :: "sym \<Rightarrow> symbol" where
  "example_syms s =
     (case s of
        symbol_yes \<Rightarrow> const_symbol ''y'' T_yes
      | symbol_mod \<Rightarrow> const_symbol ''m'' T_mod
      | symbol_no \<Rightarrow> const_symbol ''n'' T_no
      | symbol_empty \<Rightarrow> empty_symbol
      | Sym i \<Rightarrow>
          if i = 0 then plain_symbol_of ''HM'' S_BOOLEAN Null T_yes
          else if i = 1 then plain_symbol_of ''TRACE'' S_TRISTATE Null T_mod
          else if i = 2 then plain_symbol_of ''MODULES'' S_BOOLEAN Null T_yes
          else plain_symbol_of ''GPU_NUM_CORES'' S_INT (Str ''2'') T_no)"

definition example_kworld :: kworld where
  "example_kworld = \<lparr>syms = example_syms, symbol_hash = (\<lambda>h. if h = 0 then map Sym [0, 1, 2, 3] else []),
     next_sym = 4, modules_sym = Sym 2, modules_val = T_yes,
     sym_change_count = 0, menu_changed = {}, messages = []\<rparr>"

definition calc_done :: calc where
  "calc_done s w = Some w"

lemmas example_world_simps =
  calculated_def constants_ok_def settled_def distinct_constants_def symbol_ok_def has_flag_def
  sym_string_def modules_on_def calc_done_def example_kworld_def example_syms_def plain_symbol_of_def
  const_symbol_def zero_symbol_def empty_symbol_def

lemma example_constants: "constants_ok example_kworld"
  by (simp add: constants_ok_def example_kworld_def example_syms_def)

lemma example_symbols_ok:
  "s \<in> set (const_syms @ map Sym [0, 1, 2, 3]) \<Longrightarrow> symbol_ok example_kworld s"
  using constants_calculated(1-3)[OF example_constants] by (auto simp: example_world_simps)

lemma example_distinct:
  "distinct_constants example_kworld (const_syms @ map Sym [0, 1, 2, 3])"
  by (simp add: example_world_simps)

lemma example_calculated:
  assumes "set (expr_symbols e) \<subseteq> set (const_syms @ map Sym [0, 1, 2, 3])"
  shows "calculated calc_done example_kworld e"
proof -
  have "distinct_constants example_kworld (const_syms @ expr_symbols e)"
    by (rule distinct_constants_mono[OF example_distinct]) (use assms in auto)
  then show ?thesis
    using assms example_symbols_ok example_constants by (auto simp: calculated_def settled_def calc_done_def)
qed

definition example_expr :: expr where
  "example_expr = E_NOT (E_OR (E_CMP E_EQUAL (Sym 0) symbol_no) (E_NOT (E_AND (E_SYMBOL (Sym 0)) (E_CMP E_LEQ (Sym 3) (Sym 3)))))"

lemma transform_preserves_value_witness:
  "expr_calc_value calc_done (expr_transform example_kworld example_expr) example_kworld =
     expr_calc_value calc_done example_expr example_kworld \<and>
   negations_at_symbols (expr_transform example_kworld example_expr)"
  by (rule transform_preserves_value; (rule example_calculated)?) (simp_all add: example_expr_def)

lemma expr_eq_means_equal_value_witness:
  "expr_value_of calc_done (Some (E_AND (E_SYMBOL (Sym 0)) (E_SYMBOL (Sym 1)))) example_kworld =
     expr_value_of calc_done (Some (E_AND (E_SYMBOL (Sym 1)) (E_SYMBOL (Sym 0)))) example_kworld"
  by (rule expr_eq_means_equal_value[THEN conjunct1]; (rule example_calculated)?) (simp, simp, code_simp)

lemma eliminate_eq_decides_implication_witness:
  "\<exists>x y. expr_calc_value calc_done (E_AND (E_SYMBOL (Sym 0)) (E_SYMBOL (Sym 1))) example_kworld = Some (x, example_kworld) \<and>
     expr_calc_value calc_done (E_SYMBOL (Sym 1)) example_kworld = Some (y, example_kworld) \<and> x \<le> y"
  by (rule eliminate_eq_decides_implication; (rule example_calculated)?) (simp, simp, code_simp)

lemma trans_bool_keeps_visibility_witness:
  "\<exists>x y. expr_calc_value calc_done (E_CMP E_UNEQUAL (Sym 1) symbol_no) example_kworld = Some (x, example_kworld) \<and>
     expr_calc_value calc_done
       (expr_trans_bool example_kworld (expr_transform example_kworld (E_CMP E_UNEQUAL (Sym 1) symbol_no)))
       example_kworld = Some (y, example_kworld) \<and> (x = T_no \<longleftrightarrow> y = T_no)"
  by (rule trans_bool_keeps_visibility; (rule example_calculated)?) simp_all

lemma trans_compare_tests_value_witness:
  "\<exists>e' v. trans_compare (Some (E_AND (E_SYMBOL (Sym 1)) (E_NOT (E_SYMBOL (Sym 0))))) E_UNEQUAL symbol_no = Some e' \<and>
     expr_calc_value calc_done (E_AND (E_SYMBOL (Sym 1)) (E_NOT (E_SYMBOL (Sym 0)))) example_kworld = Some (v, example_kworld) \<and>
     expr_calc_value calc_done e' example_kworld =
       Some (if (E_UNEQUAL = E_EQUAL) = (v = tri (curr (syms example_kworld symbol_no))) then T_yes else T_no, example_kworld)"
  by (rule trans_compare_tests_value; (rule example_calculated)?) (simp_all add: example_world_simps)

lemma trans_compare_negated_m_witness:
  "expr_value example_kworld (E_NOT (E_SYMBOL (Sym 1))) = T_mod \<and>
     (\<exists>e'. expr_trans_compare (E_NOT (E_SYMBOL (Sym 1))) E_UNEQUAL symbol_no = Some e' \<and>
        expr_value example_kworld e' = T_no)"
  by (rule trans_compare_negated_m[OF example_constants])
    (simp_all add: example_symbols_ok example_world_simps)

end
