(* ===== verification/Kdups_Props.thy ===== *)
theory Kdups_Props
  imports Kexpr_Props
begin

text \<open>
  \<open>expr_eliminate_dups\<close>: every join of two operands keeps the value of the connective, the
  passes end, and the result has no two operands that can be joined. The number of operands
  of the whole tree (\<open>leaves\<close>) is what decreases.
\<close>

subsection \<open>Joins keep the value\<close>

lemma const_compare_value:
  assumes "constants_ok w" "symbol_ok w a" "sym_type (syms w a) = S_BOOLEAN \<or> sym_type (syms w a) = S_TRISTATE"
    "ty = E_EQUAL \<or> ty = E_UNEQUAL" "s \<in> set const_syms"
  shows "expr_value w (E_CMP ty a s) =
     of_bool3 ((ty = E_EQUAL) = (tri (curr (syms w a)) = tri (curr (syms w s))))"
  using assms(4,5) compare_constants[OF assms(1), of a] sym_string_boolean[OF assms(2,3)]
    constants_calculated(7-9)[OF assms(1)] by auto

lemma const_compare_values:
  assumes "constants_ok w" "symbol_ok w a" "sym_type (syms w a) = S_BOOLEAN \<or> sym_type (syms w a) = S_TRISTATE"
    and t: "t = tri (curr (syms w a))"
  shows "expr_value w (E_CMP E_EQUAL a symbol_yes) = of_bool3 (t = T_yes)"
    "expr_value w (E_CMP E_EQUAL a symbol_mod) = of_bool3 (t = T_mod)"
    "expr_value w (E_CMP E_EQUAL a symbol_no) = of_bool3 (t = T_no)"
    "expr_value w (E_CMP E_UNEQUAL a symbol_yes) = of_bool3 (t \<noteq> T_yes)"
    "expr_value w (E_CMP E_UNEQUAL a symbol_mod) = of_bool3 (t \<noteq> T_mod)"
    "expr_value w (E_CMP E_UNEQUAL a symbol_no) = of_bool3 (t \<noteq> T_no)"
    "expr_value w (E_SYMBOL a) = t" "expr_value w (E_NOT (E_SYMBOL a)) = EXPR_NOT t"
    "expr_value w (E_SYMBOL symbol_yes) = T_yes" "expr_value w (E_SYMBOL symbol_no) = T_no"
  by (simp_all add: compare_constants[OF assms(1)] sym_string_boolean[OF assms(2,3)]
      constants_calculated(7-9)[OF assms(1)] t)

lemma join_symbol_shapes:
  "join_symbol1 e = Some a \<Longrightarrow> cmp_with r s e \<Longrightarrow> e = E_CMP r a s"
  "join_symbol2 e = Some a \<Longrightarrow> cmp_with r s e \<Longrightarrow> e = E_CMP r a s"
  "join_symbol1 e = Some a \<Longrightarrow> is_symbol e \<Longrightarrow> e = E_SYMBOL a"
  "join_symbol2 e = Some a \<Longrightarrow> is_symbol e \<Longrightarrow> e = E_SYMBOL a"
  by (cases e; auto split: if_splits)+

lemma not_symbol_shapes:
  assumes "is_not_symbol e"
  shows "join_symbol1 e = Some a \<Longrightarrow> e = E_NOT (E_SYMBOL a)" "join_symbol2 e = Some a \<Longrightarrow> e = E_NOT (E_SYMBOL a)"
  using assms by (cases e; simp; rename_tac x; case_tac x; simp)+

lemma one_each_shapes:
  assumes "join_symbol1 e1 = Some a" "join_symbol2 e2 = Some a"
  shows "one_each (cmp_with r s) (cmp_with r' s') e1 e2 \<Longrightarrow>
      {e1, e2} = {E_CMP r a s, E_CMP r' a s'}"
    "one_each is_symbol (cmp_with r s) e1 e2 \<Longrightarrow> {e1, e2} = {E_SYMBOL a, E_CMP r a s}"
    "one_each is_not_symbol is_symbol e1 e2 \<Longrightarrow> {e1, e2} = {E_NOT (E_SYMBOL a), E_SYMBOL a}"
  using join_symbol_shapes[of e1 a] join_symbol_shapes[of e2 a] not_symbol_shapes[of e1 a] not_symbol_shapes[of e2 a] assms
  by (auto simp: one_each_def)

lemma combine_set:
  "{e1, e2} = {x, y} \<Longrightarrow> combine c (expr_value w e1) (expr_value w e2) = combine c (expr_value w x) (expr_value w y)"
  by (auto simp: doubleton_eq_iff combine_ac)

lemma join_or_value:
  assumes const: "constants_ok w" and ok: "symbol_ok w a"
    and ty: "ty = sym_type (syms w a)" "ty = S_BOOLEAN \<or> ty = S_TRISTATE"
    and sym: "join_symbol1 e1 = Some a" "join_symbol2 e2 = Some a"
    and j: "join_or_rules ty a e1 e2 = Some e"
  shows "expr_value w e = combine C_OR (expr_value w e1) (expr_value w e2)"
proof -
  define t where "t = tri (curr (syms w a))"
  note val = const_compare_values[OF const ok ty(2)[unfolded ty(1)] t_def]
  note shapes = one_each_shapes[OF sym, THEN combine_set[of _ _ _ _ C_OR w]]
  consider (ym) "one_each (eq_to symbol_yes) (eq_to symbol_mod) e1 e2" "e = E_CMP E_UNEQUAL a symbol_no"
    | (yn) "one_each (eq_to symbol_yes) (eq_to symbol_no) e1 e2" "e = E_CMP E_UNEQUAL a symbol_mod"
    | (mn) "one_each (eq_to symbol_mod) (eq_to symbol_no) e1 e2" "e = E_CMP E_UNEQUAL a symbol_yes"
    | (not) "one_each is_not_symbol is_symbol e1 e2" "e = E_SYMBOL symbol_yes" "ty = S_BOOLEAN"
    using j by (auto simp: join_or_rules_def split: if_splits)
  then show ?thesis
  proof cases
    case not
    then have "t \<noteq> T_mod" using ok ty by (simp add: symbol_ok_def t_def)
    then show ?thesis unfolding shapes(3)[OF not(1)] not(2) val by (cases t) simp_all
  next
    case ym
    show ?thesis unfolding shapes(1)[OF ym(1)] ym(2) val by (cases t) simp_all
  next
    case yn
    show ?thesis unfolding shapes(1)[OF yn(1)] yn(2) val by (cases t) simp_all
  next
    case mn
    show ?thesis unfolding shapes(1)[OF mn(1)] mn(2) val by (cases t) simp_all
  qed
qed

lemma ifE:
  "(if P then x else y) = z \<Longrightarrow> (P \<Longrightarrow> x = z \<Longrightarrow> Q) \<Longrightarrow> (\<not> P \<Longrightarrow> y = z \<Longrightarrow> Q) \<Longrightarrow> Q"
  by (cases P) simp_all

lemma minmax_bool3:
  "min (of_bool3 x) (of_bool3 y) = of_bool3 (x \<and> y)" "max (of_bool3 x) (of_bool3 y) = of_bool3 (x \<or> y)"
  "of_bool3 x = of_bool3 y \<longleftrightarrow> x = y" "of_bool3 x = T_no \<longleftrightarrow> \<not> x" "T_no = of_bool3 x \<longleftrightarrow> \<not> x"
  by (auto simp: of_bool3_def)

lemma distinct_constantsD:
  "distinct_constants w ss \<Longrightarrow> s \<in> set ss \<Longrightarrow> t \<in> set ss \<Longrightarrow> has_flag SYMBOL_CONST s w \<Longrightarrow>
     has_flag SYMBOL_CONST t w \<Longrightarrow> sym_string w s = sym_string w t \<longleftrightarrow> s = t"
  unfolding distinct_constants_def by blast

lemma untyped_compare_value:
  assumes "sym_type (syms w b) = S_UNKNOWN" "expr_parse_string (sym_string w b) S_UNKNOWN = K_string"
    "c = E_EQUAL \<or> c = E_UNEQUAL"
  shows "expr_value w (E_CMP c a b) = of_bool3 ((c = E_EQUAL) = (sym_string w a = sym_string w b))"
  using compare_untyped[OF assms(1,2)] assms(3) by (auto simp: str_cmp_eq_0)

lemma join_constants_value:
  assumes const: "constants_ok w" and ok: "symbol_ok w a" "\<forall>s \<in> set (expr_symbols e1 @ expr_symbols e2). symbol_ok w s"
    and dc: "distinct_constants w (const_syms @ expr_symbols e1 @ expr_symbols e2)"
    and sym: "join_symbol1 e1 = Some a" "join_symbol2 e2 = Some a"
    and j: "join_constants w a e1 e2 = Some e"
  shows "expr_value w e = min (expr_value w e1) (expr_value w e2)"
proof -
  have rule: "expr_value w (if b \<noteq> c then E_CMP E_EQUAL a b else E_SYMBOL symbol_no) =
      min (expr_value w (E_CMP E_EQUAL a b)) (expr_value w (E_CMP E_UNEQUAL a c))"
    if "has_flag SYMBOL_CONST b w" "has_flag SYMBOL_CONST c w"
      "b \<in> set (expr_symbols e1 @ expr_symbols e2)" "c \<in> set (expr_symbols e1 @ expr_symbols e2)" for b c
  proof -
    have "symbol_ok w b" "symbol_ok w c" using that ok by auto
    then have bc: "sym_type (syms w b) = S_UNKNOWN" "expr_parse_string (sym_string w b) S_UNKNOWN = K_string"
      "sym_type (syms w c) = S_UNKNOWN" "expr_parse_string (sym_string w c) S_UNKNOWN = K_string"
      using that by (auto simp: symbol_ok_def)
    have "sym_string w b = sym_string w c \<longleftrightarrow> b = c"
      using dc that by (intro distinct_constantsD) auto
    moreover have "expr_value w (E_CMP E_EQUAL a b) = of_bool3 (sym_string w a = sym_string w b)"
      "expr_value w (E_CMP E_UNEQUAL a c) = of_bool3 (sym_string w a \<noteq> sym_string w c)"
      using untyped_compare_value[OF bc(1,2)] untyped_compare_value[OF bc(3,4)]
      by (simp_all del: expr_value.simps(5))
    ultimately show ?thesis
      using constants_calculated(9)[OF const] by (auto simp: minmax_bool3 simp del: expr_value.simps(5))
  qed
  consider b c where "e1 = E_CMP E_EQUAL a b" "e2 = E_CMP E_UNEQUAL a c" "has_flag SYMBOL_CONST b w"
      "has_flag SYMBOL_CONST c w" "e = (if b \<noteq> c then E_CMP E_EQUAL a b else E_SYMBOL symbol_no)"
    | b c where "e1 = E_CMP E_UNEQUAL a c" "e2 = E_CMP E_EQUAL a b" "has_flag SYMBOL_CONST b w"
      "has_flag SYMBOL_CONST c w" "e = (if b \<noteq> c then E_CMP E_EQUAL a b else E_SYMBOL symbol_no)"
    using j sym by (auto simp: join_constants_def split: expr.splits relation.splits if_splits)
  then show ?thesis
  proof cases
    case (1 b c)
    then show ?thesis using rule[of b c] by simp
  next
    case (2 b c)
    then show ?thesis using rule[of b c] by (simp add: min.commute)
  qed
qed

lemma join_and_value:
  assumes const: "constants_ok w" and ok: "symbol_ok w a" "\<forall>s \<in> set (expr_symbols e1 @ expr_symbols e2). symbol_ok w s"
    and dc: "distinct_constants w (const_syms @ expr_symbols e1 @ expr_symbols e2)"
    and ty: "ty = sym_type (syms w a)" "ty = S_BOOLEAN \<or> ty = S_TRISTATE"
    and sym: "join_symbol1 e1 = Some a" "join_symbol2 e2 = Some a"
    and j: "join_and_rules w ty a e1 e2 = Some e"
  shows "expr_value w e = combine C_AND (expr_value w e1) (expr_value w e2)"
proof -
  define t where "t = tri (curr (syms w a))"
  note val = const_compare_values[OF const ok(1) ty(2)[unfolded ty(1)] t_def]
  note shapes = one_each_shapes[OF sym, THEN combine_set[of _ _ _ _ C_AND w]]
  consider (y) "one_each is_symbol (eq_to symbol_yes) e1 e2" "e = E_CMP E_EQUAL a symbol_yes"
    | (n) "one_each is_symbol (ne_to symbol_no) e1 e2" "e = E_SYMBOL a"
    | (m) "one_each is_symbol (ne_to symbol_mod) e1 e2" "e = E_CMP E_EQUAL a symbol_yes"
    | (c) "join_constants w a e1 e2 = Some e"
    | (yn) "one_each (ne_to symbol_yes) (ne_to symbol_no) e1 e2" "e = E_CMP E_EQUAL a symbol_mod"
    | (ym) "one_each (ne_to symbol_yes) (ne_to symbol_mod) e1 e2" "e = E_CMP E_EQUAL a symbol_no"
    | (mn) "one_each (ne_to symbol_mod) (ne_to symbol_no) e1 e2" "e = E_CMP E_EQUAL a symbol_yes"
    using j unfolding join_and_rules_def by (elim ifE) blast+
  then show ?thesis
  proof cases
    case c
    then show ?thesis using join_constants_value[OF const ok dc sym] by simp
  next
    case y
    show ?thesis unfolding shapes(2)[OF y(1)] y(2) val by (cases t) simp_all
  next
    case n
    show ?thesis unfolding shapes(2)[OF n(1)] n(2) val by (cases t) simp_all
  next
    case m
    show ?thesis unfolding shapes(2)[OF m(1)] m(2) val by (cases t) simp_all
  next
    case yn
    show ?thesis unfolding shapes(1)[OF yn(1)] yn(2) val by (cases t) simp_all
  next
    case ym
    show ?thesis unfolding shapes(1)[OF ym(1)] ym(2) val by (cases t) simp_all
  next
    case mn
    show ?thesis unfolding shapes(1)[OF mn(1)] mn(2) val by (cases t) simp_all
  qed
qed

lemma expr_join_value:
  assumes "constants_ok w" "\<forall>s \<in> set (expr_symbols e1 @ expr_symbols e2). symbol_ok w s"
    "distinct_constants w (const_syms @ expr_symbols e1 @ expr_symbols e2)"
    and j: "expr_join w c e1 e2 = Some e"
  shows "expr_value w e = combine c (expr_value w e1) (expr_value w e2)"
proof (cases "expr_same e1 e2")
  case True
  then show ?thesis
    using j same.sound[OF assms(1) True]
    by (cases c) (auto simp: expr_join_def expr_join_or_def expr_join_and_def)
next
  case False
  obtain a where a: "join_symbol1 e1 = Some a" "join_symbol2 e2 = Some a"
    and ty: "sym_type (syms w a) = S_BOOLEAN \<or> sym_type (syms w a) = S_TRISTATE"
    and r: "case c of C_OR \<Rightarrow> join_or_rules (sym_type (syms w a)) a e1 e2 = Some e
      | C_AND \<Rightarrow> join_and_rules w (sym_type (syms w a)) a e1 e2 = Some e"
    using j False
    by (cases c) (auto simp: expr_join_def expr_join_or_def expr_join_and_def join_symbols_def Let_def
        split: option.splits if_splits)
  have "a \<in> set (expr_symbols e1)"
    using a(1) by (cases e1; simp split: if_splits; rename_tac x; case_tac x; simp split: if_splits)
  then have "symbol_ok w a" using assms(2) by simp
  then show ?thesis
    using join_or_value[OF assms(1) _ refl ty a] join_and_value[OF assms(1) _ assms(2,3) refl ty a] r
    by (cases c) auto
qed

lemma join_symbols_set:
  assumes "expr_join w c e1 e2 = Some e"
  shows "set (expr_symbols e) \<subseteq> set (const_syms @ expr_symbols e1 @ expr_symbols e2)"
proof (cases "expr_same e1 e2")
  case True
  then show ?thesis using assms
    by (cases c) (auto simp: expr_join_def expr_join_or_def expr_join_and_def)
next
  case False
  have sub: "join_symbol1 e1 = Some a \<Longrightarrow> a \<in> set (expr_symbols e1)" for a
    by (cases e1; simp split: if_splits; rename_tac x; case_tac x; simp split: if_splits)
  have by_const: "join_constants w a e1 e2 = Some e \<Longrightarrow> a \<in> set (expr_symbols e1) \<Longrightarrow> ?thesis" for a
    by (auto simp: join_constants_def split: expr.splits relation.splits if_splits)
  show ?thesis
    using assms False sub by_const
    by (cases c) (auto simp: expr_join_def expr_join_or_def expr_join_and_def join_symbols_def Let_def
        join_or_rules_def join_and_rules_def split: option.splits if_splits)
qed

lemma join_result_shape:
  assumes "expr_join w c e1 e2 = Some e"
  shows "e = e1 \<or> conn_of e = None"
proof (cases "expr_same e1 e2")
  case True
  then show ?thesis using assms by (cases c) (auto simp: expr_join_def expr_join_or_def expr_join_and_def)
next
  case False
  have by_const: "join_constants w a e1 e2 = Some e \<Longrightarrow> ?thesis" for a
    by (auto simp: join_constants_def split: expr.splits relation.splits if_splits)
  show ?thesis
    using assms False by_const
    by (cases c) (auto simp: expr_join_def expr_join_or_def expr_join_and_def join_symbols_def Let_def
        join_or_rules_def join_and_rules_def split: option.splits if_splits)
qed

subsection \<open>Operands\<close>

fun leaves :: "expr \<Rightarrow> nat" where
  "leaves (E_OR l r) = leaves l + leaves r"
| "leaves (E_AND l r) = leaves l + leaves r"
| "leaves e = 1"

text \<open>How often the connectives alternate, seen from below a connective.\<close>

fun nest :: "connective \<Rightarrow> expr \<Rightarrow> nat" where
  "nest C_OR (E_OR l r) = max (nest C_OR l) (nest C_OR r)"
| "nest C_AND (E_AND l r) = max (nest C_AND l) (nest C_AND r)"
| "nest C_OR (E_AND l r) = Suc (max (nest C_AND l) (nest C_AND r))"
| "nest C_AND (E_OR l r) = Suc (max (nest C_OR l) (nest C_OR r))"
| "nest c e = 0"

fun bounded :: "connective \<Rightarrow> tristate \<Rightarrow> tristate \<Rightarrow> bool" where
  "bounded C_OR k v \<longleftrightarrow> v \<le> k"
| "bounded C_AND k v \<longleftrightarrow> k \<le> v"

lemma bounded_combine [simp]: "bounded c k (combine c a b) \<longleftrightarrow> bounded c k a \<and> bounded c k b"
  by (cases c) auto

lemma bounded_neutral: "constants_ok w \<Longrightarrow> bounded c k (expr_value w (neutral c))"
  using constants_calculated(7-9)[of w] by (cases c) auto

lemma bounded_eq: "(\<And>k. bounded c k a \<longleftrightarrow> bounded c k b) \<Longrightarrow> a = b"
  by (cases c) (auto intro: antisym)

lemma leaves_pos [simp]: "0 < leaves e"
  by (induction e) auto

lemma leaves_conn_none: "conn_of e = None \<Longrightarrow> leaves e = 1"
  by (cases e) auto

lemma nest_conn_none: "conn_of e = None \<Longrightarrow> nest c e = 0"
  by (cases e; cases c) auto

lemma nest_depth: "nest c e < depth e"
  by (induction c e rule: nest.induct) auto

lemma nest_other: "conn_of e = Some c1 \<Longrightarrow> c1 \<noteq> c \<Longrightarrow> nest c e = Suc (nest c1 e)"
  by (cases e; cases c) auto

lemma nest_operands: "nest c e \<le> k \<longleftrightarrow> (\<forall>x \<in> set (operands c e). nest c x \<le> k)"
  by (induction c e rule: operands.induct) auto

lemma leaves_operands: "leaves e = (\<Sum>x \<leftarrow> operands c e. leaves x)"
  by (induction c e rule: operands.induct) auto

lemma symbols_operands: "set (expr_symbols e) = (\<Union>x \<in> set (operands c e). set (expr_symbols x))"
  by (induction c e rule: operands.induct) auto

lemma value_operands:
  "bounded c k (expr_value w e) \<longleftrightarrow> (\<forall>x \<in> set (operands c e). bounded c k (expr_value w x))"
  by (induction c e rule: operands.induct) auto

lemma operands_conn: "x \<in> set (operands c e) \<Longrightarrow> conn_of x \<noteq> Some c"
  by (induction c e rule: operands.induct) auto

lemma operands_leaf: "conn_of e \<noteq> Some c \<Longrightarrow> operands c e = [e]"
  by (cases e; cases c) auto

lemma operands_nonempty: "Suc 0 \<le> length (operands c e)"
  by (induction c e rule: operands.induct) auto

lemma operands_length:
  assumes "conn_of e = Some c"
  shows "2 \<le> length (operands c e)"
proof (cases e)
  case (E_OR l r)
  then show ?thesis using operands_nonempty[of c l] operands_nonempty[of c r] assms by auto
next
  case (E_AND l r)
  then show ?thesis using operands_nonempty[of c l] operands_nonempty[of c r] assms by auto
qed (use assms in auto)

lemma put_operands_same: "put_operands c e (operands c e @ ys) = (e, ys)"
  by (induction c e arbitrary: ys rule: operands.induct) auto

lemma put_operands_new:
  "length xs = length (operands c e) \<Longrightarrow> \<forall>x \<in> set xs. conn_of x \<noteq> Some c \<Longrightarrow>
     \<exists>e'. put_operands c e (xs @ ys) = (e', ys) \<and> operands c e' = xs \<and>
       (conn_of e = Some c \<longrightarrow> conn_of e' = Some c)"
proof (induction c e arbitrary: xs ys rule: operands.induct)
  case (1 l r)
  define a b where "a = take (length (operands C_OR l)) xs" and "b = drop (length (operands C_OR l)) xs"
  have xs: "xs = a @ b" "length a = length (operands C_OR l)" "length b = length (operands C_OR r)"
    using "1.prems"(1) by (auto simp: a_def b_def)
  then show ?case
    using "1.IH"(1)[of a "b @ ys"] "1.IH"(2)[of b ys] "1.prems"(2) by auto
next
  case (2 l r)
  define a b where "a = take (length (operands C_AND l)) xs" and "b = drop (length (operands C_AND l)) xs"
  have xs: "xs = a @ b" "length a = length (operands C_AND l)" "length b = length (operands C_AND r)"
    using "2.prems"(1) by (auto simp: a_def b_def)
  then show ?case
    using "2.IH"(1)[of a "b @ ys"] "2.IH"(2)[of b ys] "2.prems"(2) by auto
qed (auto simp: length_Suc_conv operands_leaf)

subsection \<open>Constants shrink the tree\<close>

lemma yn_leaves: "leaves (expr_eliminate_yn e) \<le> leaves e"
  by (induction e rule: expr_eliminate_yn.induct) (auto simp: Let_def intro: add_mono le_SucI trans_le_add1 trans_le_add2)

text \<open>An operand that the pass can drop or shrink.\<close>

definition shrinks :: "connective \<Rightarrow> expr \<Rightarrow> bool" where
  "shrinks c x \<longleftrightarrow> x = neutral c \<or> leaves (expr_eliminate_yn x) < leaves x"

lemma yn_leaves_parts:
  "leaves (expr_eliminate_yn (E_OR l r)) \<le> leaves (expr_eliminate_yn l) + leaves (expr_eliminate_yn r)"
  "leaves (expr_eliminate_yn (E_AND l r)) \<le> leaves (expr_eliminate_yn l) + leaves (expr_eliminate_yn r)"
  by (simp_all add: Let_def)

lemma yn_neutral:
  "leaves (expr_eliminate_yn (E_OR (neutral C_OR) r)) \<le> leaves r"
  "leaves (expr_eliminate_yn (E_OR r (neutral C_OR))) \<le> leaves r"
  "leaves (expr_eliminate_yn (E_AND (neutral C_AND) r)) \<le> leaves r"
  "leaves (expr_eliminate_yn (E_AND r (neutral C_AND))) \<le> leaves r"
  using yn_leaves[of r] by (auto simp: Let_def)

lemma yn_shrinks_or_neutral:
  "x \<in> set (operands c e) \<Longrightarrow> shrinks c x \<Longrightarrow> leaves (expr_eliminate_yn e) < leaves e \<or> e = neutral c"
proof (induction c e rule: operands.induct)
  case (1 l r)
  have "leaves (expr_eliminate_yn (E_OR l r)) < leaves (E_OR l r)"
    if "leaves (expr_eliminate_yn l) < leaves l \<or> leaves (expr_eliminate_yn r) < leaves r"
    using that yn_leaves_parts(1)[of l r] yn_leaves[of l] yn_leaves[of r] by (auto simp del: expr_eliminate_yn.simps)
  moreover have "leaves (expr_eliminate_yn (E_OR l r)) < leaves (E_OR l r)" if "l = neutral C_OR"
    unfolding that using yn_neutral(1)[of r] leaves_pos[of r] by (simp del: expr_eliminate_yn.simps)
  moreover have "leaves (expr_eliminate_yn (E_OR l r)) < leaves (E_OR l r)" if "r = neutral C_OR"
    unfolding that using yn_neutral(2)[of l] leaves_pos[of l] by (simp del: expr_eliminate_yn.simps)
  ultimately show ?case using 1 by auto
next
  case (2 l r)
  have "leaves (expr_eliminate_yn (E_AND l r)) < leaves (E_AND l r)"
    if "leaves (expr_eliminate_yn l) < leaves l \<or> leaves (expr_eliminate_yn r) < leaves r"
    using that yn_leaves_parts(2)[of l r] yn_leaves[of l] yn_leaves[of r] by (auto simp del: expr_eliminate_yn.simps)
  moreover have "leaves (expr_eliminate_yn (E_AND l r)) < leaves (E_AND l r)" if "l = neutral C_AND"
    unfolding that using yn_neutral(3)[of r] leaves_pos[of r] by (simp del: expr_eliminate_yn.simps)
  moreover have "leaves (expr_eliminate_yn (E_AND l r)) < leaves (E_AND l r)" if "r = neutral C_AND"
    unfolding that using yn_neutral(4)[of l] leaves_pos[of l] by (simp del: expr_eliminate_yn.simps)
  ultimately show ?case using 2 by auto
qed (auto simp: shrinks_def)

lemma yn_shrinks:
  assumes "conn_of e = Some c" "x \<in> set (operands c e)" "shrinks c x"
  shows "leaves (expr_eliminate_yn e) < leaves e"
  using yn_shrinks_or_neutral[OF assms(2,3)] assms(1) by (cases c) auto

subsection \<open>One pass\<close>

definition world_ok :: "kworld \<Rightarrow> sym set \<Rightarrow> bool" where
  "world_ok w S \<longleftrightarrow> constants_ok w \<and> (\<forall>s \<in> S. symbol_ok w s) \<and>
     (\<forall>s \<in> set const_syms \<union> S. \<forall>t \<in> set const_syms \<union> S.
        has_flag SYMBOL_CONST s w \<and> has_flag SYMBOL_CONST t w \<and> sym_string w s = sym_string w t \<longrightarrow> s = t)"

lemma world_ok_distinct: "world_ok w S \<Longrightarrow> set ss \<subseteq> set const_syms \<union> S \<Longrightarrow> distinct_constants w ss"
  unfolding world_ok_def distinct_constants_def by blast

lemma world_ok_symbols:
  assumes "world_ok w S" "T \<subseteq> set const_syms \<union> S" "s \<in> T"
  shows "symbol_ok w s"
proof -
  have "constants_ok w" "\<forall>s \<in> S. symbol_ok w s" using assms(1) by (simp_all add: world_ok_def)
  moreover have "s \<in> set const_syms \<or> s \<in> S" using assms(2,3) by blast
  ultimately show ?thesis using constants_calculated(1-3)[of w] by auto
qed

lemma world_ok_mono: "world_ok w S \<Longrightarrow> T \<subseteq> set const_syms \<union> S \<Longrightarrow> world_ok w T"
  using world_ok_symbols[of w S T] unfolding world_ok_def by blast

lemma calculated_world_ok: "calculated calc w e \<Longrightarrow> world_ok w (set (expr_symbols e))"
  by (simp add: calculated_def world_ok_def distinct_constants_def)

text \<open>What a pass over a tree gives.\<close>

definition pass_ok :: "kworld \<Rightarrow> connective \<Rightarrow> expr \<Rightarrow> expr \<times> nat \<Rightarrow> bool" where
  "pass_ok w c e r \<longleftrightarrow>
     (case r of (e', n) \<Rightarrow>
        conn_of e' = Some c \<and> set (expr_symbols e') \<subseteq> set const_syms \<union> set (expr_symbols e) \<and>
        (world_ok w (set (expr_symbols e)) \<longrightarrow> expr_value w e' = expr_value w e) \<and>
        nest c e' \<le> nest c e \<and> leaves e' \<le> leaves e \<and> (n = 0 \<longrightarrow> e' = e) \<and>
        (0 < n \<longrightarrow> leaves (expr_eliminate_yn e') < leaves e))"

text \<open>The invariant of the pairs: \<open>S\<close>, \<open>L\<close>, \<open>N\<close> and \<open>v\<close> belong to the operands \<open>xs0\<close> at the start.\<close>

definition pairs_ok :: "kworld \<Rightarrow> connective \<Rightarrow> expr list \<Rightarrow> expr list \<times> nat \<Rightarrow> bool" where
  "pairs_ok w c xs0 st \<longleftrightarrow>
     (case st of (xs, n) \<Rightarrow>
        length xs = length xs0 \<and> (\<forall>x \<in> set xs. conn_of x \<noteq> Some c) \<and>
        (\<forall>x \<in> set xs. set (expr_symbols x) \<subseteq> set const_syms \<union> (\<Union>y \<in> set xs0. set (expr_symbols y))) \<and>
        (world_ok w (\<Union>y \<in> set xs0. set (expr_symbols y)) \<longrightarrow>
           (\<forall>k. (\<forall>x \<in> set xs. bounded c k (expr_value w x)) \<longleftrightarrow> (\<forall>x \<in> set xs0. bounded c k (expr_value w x)))) \<and>
        (\<forall>k. (\<forall>x \<in> set xs0. nest c x \<le> k) \<longrightarrow> (\<forall>x \<in> set xs. nest c x \<le> k)) \<and>
        sum_list (map leaves xs) \<le> sum_list (map leaves xs0) \<and>
        (n = 0 \<longrightarrow> xs = xs0) \<and>
        (0 < n \<longrightarrow> sum_list (map leaves xs) < sum_list (map leaves xs0) \<or> (\<exists>x \<in> set xs. shrinks c x)))"

lemma sum_leaves_update:
  "i < length xs \<Longrightarrow> sum_list (map leaves (xs[i := x])) + leaves (xs ! i) = sum_list (map leaves xs) + leaves x"
proof (induction xs arbitrary: i)
  case (Cons a xs)
  then show ?case by (cases i) (auto simp: add.assoc)
qed simp

lemma set_update_cases: "x \<in> set (xs[i := y]) \<Longrightarrow> x \<in> set xs \<or> x = y"
  using set_update_subset_insert[of xs i y] by auto

lemma ball_update:
  assumes "i < length xs"
  shows "(\<forall>x \<in> set (xs[i := y]). P x) \<longleftrightarrow> P y \<and> (\<forall>j < length xs. j \<noteq> i \<longrightarrow> P (xs ! j))"
  using assms by (auto simp: all_set_conv_all_nth nth_list_update)

lemma pairs_okI:
  assumes "length xs = length xs0" "\<And>x. x \<in> set xs \<Longrightarrow> conn_of x \<noteq> Some c"
    "\<And>x. x \<in> set xs \<Longrightarrow> set (expr_symbols x) \<subseteq> set const_syms \<union> (\<Union>y \<in> set xs0. set (expr_symbols y))"
    "\<And>k. world_ok w (\<Union>y \<in> set xs0. set (expr_symbols y)) \<Longrightarrow>
       (\<forall>x \<in> set xs. bounded c k (expr_value w x)) \<longleftrightarrow> (\<forall>x \<in> set xs0. bounded c k (expr_value w x))"
    "\<And>m x. \<forall>x \<in> set xs0. nest c x \<le> m \<Longrightarrow> x \<in> set xs \<Longrightarrow> nest c x \<le> m"
    "sum_list (map leaves xs) \<le> sum_list (map leaves xs0)"
    "0 < n" "sum_list (map leaves xs) < sum_list (map leaves xs0) \<or> (\<exists>x \<in> set xs. shrinks c x)"
  shows "pairs_ok w c xs0 (xs, n)"
  unfolding pairs_ok_def prod.case using assms by blast

lemma pairs_okD:
  assumes "pairs_ok w c xs0 (xs, n)"
  shows "length xs = length xs0" "x \<in> set xs \<Longrightarrow> conn_of x \<noteq> Some c"
    "x \<in> set xs \<Longrightarrow> set (expr_symbols x) \<subseteq> set const_syms \<union> (\<Union>y \<in> set xs0. set (expr_symbols y))"
    "world_ok w (\<Union>y \<in> set xs0. set (expr_symbols y)) \<Longrightarrow>
       (\<forall>x \<in> set xs. bounded c k (expr_value w x)) \<longleftrightarrow> (\<forall>x \<in> set xs0. bounded c k (expr_value w x))"
    "\<forall>x \<in> set xs0. nest c x \<le> m \<Longrightarrow> x \<in> set xs \<Longrightarrow> nest c x \<le> m"
    "sum_list (map leaves xs) \<le> sum_list (map leaves xs0)"
    "n = 0 \<Longrightarrow> xs = xs0"
  using assms unfolding pairs_ok_def prod.case by blast+

lemma bounded_update:
  assumes "i < length xs" "expr_value w y = expr_value w (xs ! i)"
  shows "(\<forall>x \<in> set (xs[i := y]). bounded c k (expr_value w x)) \<longleftrightarrow> (\<forall>x \<in> set xs. bounded c k (expr_value w x))"
  using assms by (auto simp: all_set_conv_all_nth nth_list_update)

lemma pairs_ok_inner:
  assumes ok: "pairs_ok w c xs0 (xs, n)" and i: "i < length xs" and c1: "conn_of (xs ! i) = Some c1"
    and pass: "pass_ok w c1 (xs ! i) (e1, k)"
  shows "pairs_ok w c xs0 (xs[i := e1], n + k)"
proof (cases "k = 0")
  case True
  then have "e1 = xs ! i" using pass by (simp add: pass_ok_def)
  then show ?thesis using ok True by simp
next
  case False
  have p: "conn_of e1 = Some c1" "set (expr_symbols e1) \<subseteq> set const_syms \<union> set (expr_symbols (xs ! i))"
    "world_ok w (set (expr_symbols (xs ! i))) \<Longrightarrow> expr_value w e1 = expr_value w (xs ! i)"
    "nest c1 e1 \<le> nest c1 (xs ! i)" "leaves e1 \<le> leaves (xs ! i)" "leaves (expr_eliminate_yn e1) < leaves (xs ! i)"
    using pass False by (simp_all add: pass_ok_def)
  have mem: "xs ! i \<in> set xs" using i by simp
  have "c1 \<noteq> c" using pairs_okD(2)[OF ok mem] c1 by simp
  have sums: "sum_list (map leaves (xs[i := e1])) + leaves (xs ! i) = sum_list (map leaves xs) + leaves e1"
    by (rule sum_leaves_update[OF i])
  show ?thesis
  proof (rule pairs_okI)
    show "length (xs[i := e1]) = length xs0" using pairs_okD(1)[OF ok] by simp
    fix x assume x: "x \<in> set (xs[i := e1])"
    show "conn_of x \<noteq> Some c"
      using set_update_cases[OF x] pairs_okD(2)[OF ok] p(1) \<open>c1 \<noteq> c\<close> by auto
    show "set (expr_symbols x) \<subseteq> set const_syms \<union> (\<Union>y \<in> set xs0. set (expr_symbols y))"
      using set_update_cases[OF x] pairs_okD(3)[OF ok] pairs_okD(3)[OF ok mem] p(2) by blast
    show "nest c x \<le> m" if m: "\<forall>x \<in> set xs0. nest c x \<le> m" for m
    proof -
      have "nest c e1 \<le> nest c (xs ! i)"
        using p(4) nest_other[OF p(1) \<open>c1 \<noteq> c\<close>] nest_other[OF c1 \<open>c1 \<noteq> c\<close>] by simp
      then show ?thesis
        using set_update_cases[OF x] pairs_okD(5)[OF ok m] pairs_okD(5)[OF ok m mem] by auto
    qed
  next
    fix m assume W: "world_ok w (\<Union>y \<in> set xs0. set (expr_symbols y))"
    have "world_ok w (set (expr_symbols (xs ! i)))"
      by (rule world_ok_mono[OF W]) (use pairs_okD(3)[OF ok mem] in blast)
    then show "(\<forall>x \<in> set (xs[i := e1]). bounded c m (expr_value w x)) \<longleftrightarrow> (\<forall>x \<in> set xs0. bounded c m (expr_value w x))"
      using bounded_update[OF i p(3)] pairs_okD(4)[OF ok W] by blast
  next
    show "sum_list (map leaves (xs[i := e1])) \<le> sum_list (map leaves xs0)"
      using sums p(5) pairs_okD(6)[OF ok] by linarith
    show "0 < n + k" using False by simp
    show "sum_list (map leaves (xs[i := e1])) < sum_list (map leaves xs0) \<or> (\<exists>x \<in> set (xs[i := e1]). shrinks c x)"
    proof (cases "leaves e1 < leaves (xs ! i)")
      case True
      then show ?thesis using sums pairs_okD(6)[OF ok] by linarith
    next
      case False
      then have "shrinks c e1" using p(5,6) by (simp add: shrinks_def)
      then show ?thesis using i by (auto simp: set_update_memI)
    qed
  qed
qed

lemma all_two_updates:
  assumes "i < length xs" "j < length xs" "i \<noteq> j" "P a" "P b \<longleftrightarrow> P (xs ! i) \<and> P (xs ! j)"
  shows "(\<forall>x \<in> set (xs[i := a, j := b]). P x) \<longleftrightarrow> (\<forall>x \<in> set xs. P x)"
proof -
  have "(\<forall>x \<in> set (xs[i := a, j := b]). P x) \<longleftrightarrow> P b \<and> (\<forall>k < length xs. k \<noteq> i \<and> k \<noteq> j \<longrightarrow> P (xs ! k))"
    using assms(1-4) by (auto simp: all_set_conv_all_nth nth_list_update)
  then show ?thesis
    unfolding assms(5) all_set_conv_all_nth using assms(1,2) by blast
qed

lemma pairs_ok_join:
  assumes ok: "pairs_ok w c xs0 (xs, n)" and ij: "i < length xs" "j < length xs" "i \<noteq> j"
    and join: "expr_join w c (xs ! i) (xs ! j) = Some e"
  shows "pairs_ok w c xs0 (xs[i := neutral c, j := e], Suc n)"
proof -
  have mem: "xs ! i \<in> set xs" "xs ! j \<in> set xs" using ij by simp_all
  have memb: "x = neutral c \<or> x = e \<or> x \<in> set xs" if "x \<in> set (xs[i := neutral c, j := e])" for x
    using set_update_cases[OF that] set_update_cases[of x xs i "neutral c"] by auto
  have shape: "e = xs ! i \<or> conn_of e = None" by (rule join_result_shape[OF join])
  have "leaves e \<le> leaves (xs ! i)"
    using shape leaves_conn_none[of e] leaves_pos[of "xs ! i"] by (auto simp: Suc_le_eq)
  moreover have "sum_list (map leaves (xs[i := neutral c])) + leaves (xs ! i) = sum_list (map leaves xs) + leaves (neutral c)"
    by (rule sum_leaves_update[OF ij(1)])
  moreover have "sum_list (map leaves (xs[i := neutral c, j := e])) + leaves (xs ! j) =
      sum_list (map leaves (xs[i := neutral c])) + leaves e"
    using sum_leaves_update[of j "xs[i := neutral c]" e] ij by simp
  moreover have "leaves (neutral c) = 1" by (cases c) simp_all
  moreover have "1 \<le> leaves (xs ! j)" by (simp add: Suc_le_eq)
  ultimately have sums: "sum_list (map leaves (xs[i := neutral c, j := e])) \<le> sum_list (map leaves xs)"
    by linarith
  show ?thesis
  proof (rule pairs_okI)
    show "length (xs[i := neutral c, j := e]) = length xs0" using pairs_okD(1)[OF ok] by simp
    fix x assume x: "x \<in> set (xs[i := neutral c, j := e])"
    show "conn_of x \<noteq> Some c"
      using memb[OF x] shape pairs_okD(2)[OF ok] mem by (cases c) auto
    have "set (expr_symbols (neutral c)) \<subseteq> set const_syms" by (cases c) auto
    then show "set (expr_symbols x) \<subseteq> set const_syms \<union> (\<Union>y \<in> set xs0. set (expr_symbols y))"
      using memb[OF x] pairs_okD(3)[OF ok] pairs_okD(3)[OF ok mem(1)] pairs_okD(3)[OF ok mem(2)]
        join_symbols_set[OF join] by auto
    show "nest c x \<le> m" if m: "\<forall>x \<in> set xs0. nest c x \<le> m" for m
    proof -
      have "nest c (neutral c) = 0" by (cases c) simp_all
      then show ?thesis
        using memb[OF x] shape pairs_okD(5)[OF ok m] mem nest_conn_none[of e c] by auto
    qed
  next
    fix m assume W: "world_ok w (\<Union>y \<in> set xs0. set (expr_symbols y))"
    have sub: "set (expr_symbols (xs ! i) @ expr_symbols (xs ! j)) \<subseteq> set const_syms \<union> (\<Union>y \<in> set xs0. set (expr_symbols y))"
      using pairs_okD(3)[OF ok mem(1)] pairs_okD(3)[OF ok mem(2)] by auto
    have const: "constants_ok w" using W by (simp add: world_ok_def)
    have "expr_value w e = combine c (expr_value w (xs ! i)) (expr_value w (xs ! j))"
    proof (rule expr_join_value[OF const _ _ join])
      show "\<forall>s \<in> set (expr_symbols (xs ! i) @ expr_symbols (xs ! j)). symbol_ok w s"
        using world_ok_symbols[OF W sub] by blast
      show "distinct_constants w (const_syms @ expr_symbols (xs ! i) @ expr_symbols (xs ! j))"
        by (rule world_ok_distinct[OF W]) (use sub in auto)
    qed
    then have e: "bounded c m (expr_value w e) \<longleftrightarrow> bounded c m (expr_value w (xs ! i)) \<and> bounded c m (expr_value w (xs ! j))"
      by simp
    have "(\<forall>x \<in> set (xs[i := neutral c, j := e]). bounded c m (expr_value w x)) \<longleftrightarrow> (\<forall>x \<in> set xs. bounded c m (expr_value w x))"
      by (rule all_two_updates[OF ij bounded_neutral[OF const] e])
    then show "(\<forall>x \<in> set (xs[i := neutral c, j := e]). bounded c m (expr_value w x)) \<longleftrightarrow>
        (\<forall>x \<in> set xs0. bounded c m (expr_value w x))"
      using pairs_okD(4)[OF ok W] by blast
  next
    show "sum_list (map leaves (xs[i := neutral c, j := e])) \<le> sum_list (map leaves xs0)"
      using sums pairs_okD(6)[OF ok] by linarith
    have "xs[i := neutral c, j := e] ! i = neutral c" using ij by simp
    then have "neutral c \<in> set (xs[i := neutral c, j := e])"
      using ij(1) nth_mem[of i "xs[i := neutral c, j := e]"] by simp
    then show "sum_list (map leaves (xs[i := neutral c, j := e])) < sum_list (map leaves xs0) \<or>
        (\<exists>x \<in> set (xs[i := neutral c, j := e]). shrinks c x)"
      by (auto simp: shrinks_def)
  qed simp
qed

definition inner_ok :: "kworld \<Rightarrow> (connective \<Rightarrow> expr \<Rightarrow> expr \<times> nat) \<Rightarrow> bool" where
  "inner_ok w inner \<longleftrightarrow> (\<forall>c e. conn_of e = Some c \<longrightarrow> pass_ok w c e (inner c e))"

lemma inner_okD: "inner_ok w inner \<Longrightarrow> conn_of e = Some c \<Longrightarrow> pass_ok w c e (inner c e)"
  by (simp add: inner_ok_def)

lemma dups_pair_cases:
  obtains (diagonal) "i = j" "dups_pair inner w c (i, j) (xs, n) = (xs, n)"
    | (step) e1 k where "i \<noteq> j"
      "(conn_of (xs ! i) = None \<and> e1 = xs ! i \<and> k = 0) \<or> (\<exists>c1. conn_of (xs ! i) = Some c1 \<and> inner c1 (xs ! i) = (e1, k))"
      "dups_pair inner w c (i, j) (xs, n) =
         (case expr_join w c e1 (xs[i := e1] ! j) of None \<Rightarrow> (xs[i := e1], n + k)
          | Some e \<Rightarrow> (xs[i := e1, i := neutral c, j := e], n + k + 1))"
proof (cases "i = j")
  case True
  then show ?thesis using diagonal by (simp add: dups_pair_def)
next
  case False
  obtain e1 k where e1: "(case conn_of (xs ! i) of Some c1 \<Rightarrow> inner c1 (xs ! i) | None \<Rightarrow> (xs ! i, 0)) = (e1, k)"
    by fastforce
  show ?thesis
  proof (rule step[OF False])
    show "(conn_of (xs ! i) = None \<and> e1 = xs ! i \<and> k = 0) \<or> (\<exists>c1. conn_of (xs ! i) = Some c1 \<and> inner c1 (xs ! i) = (e1, k))"
      using e1 by (auto split: option.splits)
  qed (use False e1 in \<open>simp add: dups_pair_def Let_def\<close>)
qed

lemma dups_pair_ok:
  assumes inner: "inner_ok w inner" and ok: "pairs_ok w c xs0 (xs, n)" and ij: "i < length xs0" "j < length xs0"
  shows "pairs_ok w c xs0 (dups_pair inner w c (i, j) (xs, n))"
proof (cases rule: dups_pair_cases[of i j inner w c xs n])
  case diagonal
  then show ?thesis using ok by simp
next
  case (step e1 k)
  have len: "length xs = length xs0" by (rule pairs_okD(1)[OF ok])
  have ok1: "pairs_ok w c xs0 (xs[i := e1], n + k)"
  proof (cases "conn_of (xs ! i)")
    case None
    then show ?thesis using step(2) ok by simp
  next
    case (Some c1)
    then have "inner c1 (xs ! i) = (e1, k)" using step(2) by auto
    then have "pass_ok w c1 (xs ! i) (e1, k)" using inner_okD[OF inner Some] by simp
    then show ?thesis using pairs_ok_inner[OF ok _ Some] ij len by simp
  qed
  show ?thesis
  proof (cases "expr_join w c e1 (xs[i := e1] ! j)")
    case None
    then show ?thesis using ok1 step(3) by simp
  next
    case (Some e)
    have "i < length (xs[i := e1])" "j < length (xs[i := e1])" "xs[i := e1] ! i = e1"
      using ij len by simp_all
    then show ?thesis using pairs_ok_join[OF ok1 _ _ step(1)] Some step(3) by simp
  qed
qed

lemma pairs_fold_ok:
  assumes "inner_ok w inner"
  shows "pairs_ok w c xs0 st \<Longrightarrow> \<forall>(i, j) \<in> set ps. i < length xs0 \<and> j < length xs0 \<Longrightarrow>
     pairs_ok w c xs0 (fold (dups_pair inner w c) ps st)"
proof (induction ps arbitrary: st)
  case (Cons p ps)
  then show ?case using dups_pair_ok[OF assms, of c xs0 "fst st" "snd st" "fst p" "snd p"] by (cases p) auto
qed simp

lemma pairs_ok_start: "\<forall>x \<in> set xs0. conn_of x \<noteq> Some c \<Longrightarrow> pairs_ok w c xs0 (xs0, 0)"
  by (auto simp: pairs_ok_def)

lemma dups_depth_ok: "inner_ok w (dups_depth d w)"
proof (induction d)
  case 0
  then show ?case by (auto simp: inner_ok_def pass_ok_def)
next
  case (Suc d)
  show ?case
    unfolding inner_ok_def
  proof (intro allI impI)
    fix c e
    assume conn: "conn_of e = Some c"
    let ?xs = "operands c e"
    obtain xs n where fold: "fold (dups_pair (dups_depth d w) w c) (List.product [0..<length ?xs] [0..<length ?xs]) (?xs, 0) = (xs, n)"
      by fastforce
    have "pairs_ok w c ?xs (xs, n)"
      unfolding fold[symmetric] by (rule pairs_fold_ok[OF Suc.IH pairs_ok_start]) (auto simp: operands_conn)
    note D = pairs_okD[OF this]
    obtain e' where e': "put_operands c e (xs @ []) = (e', [])" "operands c e' = xs" "conn_of e' = Some c"
      using put_operands_new[OF D(1), of "[]"] D(2) conn by blast
    have sum: "leaves e' = sum_list (map leaves xs)" "leaves e = sum_list (map leaves ?xs)"
      using leaves_operands[of e' c] leaves_operands[of e c] e'(2) by simp_all
    have S: "(\<Union>y \<in> set ?xs. set (expr_symbols y)) = set (expr_symbols e)"
      by (rule symbols_operands[symmetric])
    have "pass_ok w c e (e', n)"
      unfolding pass_ok_def prod.case
    proof (intro conjI impI)
      show "conn_of e' = Some c" by (rule e'(3))
      show "set (expr_symbols e') \<subseteq> set const_syms \<union> set (expr_symbols e)"
        using D(3) unfolding S symbols_operands[of e' c] e'(2) by blast
      show "nest c e' \<le> nest c e"
        using D(5)[of "nest c e"] nest_operands[of c e "nest c e"] nest_operands[of c e' "nest c e"] e'(2) by auto
      show "leaves e' \<le> leaves e" using D(6) sum by simp
      show "expr_value w e' = expr_value w e" if "world_ok w (set (expr_symbols e))"
      proof (rule bounded_eq[of c])
        have W: "world_ok w (\<Union>y \<in> set ?xs. set (expr_symbols y))" using that by (simp only: S)
        show "bounded c k (expr_value w e') \<longleftrightarrow> bounded c k (expr_value w e)" for k
          unfolding value_operands[of c k w e] value_operands[of c k w e'] e'(2) by (rule D(4)[OF W])
      qed
      show "e' = e" if "n = 0"
        using D(7)[OF that] e'(1) put_operands_same[of c e "[]"] by simp
      show "leaves (expr_eliminate_yn e') < leaves e" if "0 < n"
      proof -
        have "leaves e' < leaves e \<or> (\<exists>x \<in> set xs. shrinks c x)"
          using \<open>pairs_ok w c ?xs (xs, n)\<close> that sum by (auto simp: pairs_ok_def)
        then show ?thesis
          using yn_leaves[of e'] yn_shrinks[OF e'(3)] e'(2) D(6) sum by fastforce
      qed
    qed
    then show "pass_ok w c e (dups_depth (Suc d) w c e)"
      using fold e'(1) by simp
  qed
qed

subsection \<open>The recursion depth\<close>

lemma dups_pair_cong:
  assumes "i < length xs" "\<And>c1. conn_of (xs ! i) = Some c1 \<Longrightarrow> inner c1 (xs ! i) = inner' c1 (xs ! i)"
  shows "dups_pair inner w c (i, j) (xs, n) = dups_pair inner' w c (i, j) (xs, n)"
  using assms by (auto simp: dups_pair_def split: option.splits)

lemma dups_fold_cong:
  assumes inner: "inner_ok w inner" "inner_ok w inner'"
    and same: "\<And>c1 e. conn_of e = Some c1 \<Longrightarrow> nest c1 e < N \<Longrightarrow> inner c1 e = inner' c1 e"
    and N: "\<forall>x \<in> set xs0. nest c x \<le> N"
  shows "pairs_ok w c xs0 st \<Longrightarrow> \<forall>(i, j) \<in> set ps. i < length xs0 \<and> j < length xs0 \<Longrightarrow>
     fold (dups_pair inner w c) ps st = fold (dups_pair inner' w c) ps st"
proof (induction ps arbitrary: st)
  case (Cons p ps)
  obtain i j xs n where p: "p = (i, j)" "st = (xs, n)" by fastforce
  then have ij: "i < length xs0" "j < length xs0" using Cons.prems(2) by auto
  have ok: "pairs_ok w c xs0 (xs, n)" using Cons.prems(1) p by simp
  have "dups_pair inner w c (i, j) (xs, n) = dups_pair inner' w c (i, j) (xs, n)"
  proof (rule dups_pair_cong)
    show "i < length xs" using ij pairs_okD(1)[OF ok] by simp
    then have mem: "xs ! i \<in> set xs" by simp
    show "inner c1 (xs ! i) = inner' c1 (xs ! i)" if c1: "conn_of (xs ! i) = Some c1" for c1
    proof (rule same[OF c1])
      have "c1 \<noteq> c" using pairs_okD(2)[OF ok mem] c1 by simp
      then show "nest c1 (xs ! i) < N"
        using pairs_okD(5)[OF ok N mem] nest_other[OF c1] by simp
    qed
  qed
  then show ?case
    using Cons.IH[OF dups_pair_ok[OF inner(2) ok ij]] Cons.prems(2) p by simp
qed simp

lemma dups_depth_enough:
  "conn_of e = Some c \<Longrightarrow> nest c e < d \<Longrightarrow> nest c e < d' \<Longrightarrow> dups_depth d w c e = dups_depth d' w c e"
proof (induction "nest c e" arbitrary: c e d d' rule: less_induct)
  case less
  obtain k k' where d: "d = Suc k" "d' = Suc k'" using less.prems by (cases d; cases d') auto
  let ?xs = "operands c e"
  have "fold (dups_pair (dups_depth k w) w c) (List.product [0..<length ?xs] [0..<length ?xs]) (?xs, 0) =
      fold (dups_pair (dups_depth k' w) w c) (List.product [0..<length ?xs] [0..<length ?xs]) (?xs, 0)"
  proof (rule dups_fold_cong[OF dups_depth_ok dups_depth_ok])
    show "dups_depth k w c1 e1 = dups_depth k' w c1 e1" if "conn_of e1 = Some c1" "nest c1 e1 < nest c e" for c1 e1
      by (rule less.hyps[OF that(2,1)]) (use that(2) less.prems(2,3) d in linarith)+
    show "\<forall>x \<in> set ?xs. nest c x \<le> nest c e" using nest_operands[of c e "nest c e"] by simp
  qed (auto intro!: pairs_ok_start simp: operands_conn)
  then show ?case using d by simp
qed

text \<open>
  \<open>expr_eliminate_dups1\<close> as the code has it: an operand of the other connective is passed to
  the function itself.
\<close>

lemma eliminate_dups1_step:
  assumes "conn_of e = Some c"
  shows "expr_eliminate_dups1 w c e =
     (let xs = operands c e;
          (xs, n) = fold (dups_pair (expr_eliminate_dups1 w) w c) (List.product [0..<length xs] [0..<length xs]) (xs, 0)
      in (fst (put_operands c e xs), n))"
proof -
  let ?xs = "operands c e"
  obtain d where d: "depth e = Suc d" using depth_pos[of e] by (cases "depth e") auto
  have inner: "inner_ok w (expr_eliminate_dups1 w)"
    using dups_depth_ok by (auto simp: inner_ok_def expr_eliminate_dups1_def)
  have "fold (dups_pair (dups_depth d w) w c) (List.product [0..<length ?xs] [0..<length ?xs]) (?xs, 0) =
      fold (dups_pair (expr_eliminate_dups1 w) w c) (List.product [0..<length ?xs] [0..<length ?xs]) (?xs, 0)"
  proof (rule dups_fold_cong[OF dups_depth_ok inner])
    show "dups_depth d w c1 e1 = expr_eliminate_dups1 w c1 e1" if "conn_of e1 = Some c1" "nest c1 e1 < nest c e" for c1 e1
      unfolding expr_eliminate_dups1_def
      by (rule dups_depth_enough[OF that(1)]) (use that(2) nest_depth[of c e] nest_depth[of c1 e1] d in auto)
    show "\<forall>x \<in> set ?xs. nest c x \<le> nest c e" using nest_operands[of c e "nest c e"] by simp
  qed (auto intro!: pairs_ok_start simp: operands_conn)
  then show ?thesis unfolding expr_eliminate_dups1_def[of w c e] d by simp
qed

subsection \<open>The passes\<close>

text \<open>A pass that joins nothing has tried every pair.\<close>

lemma dups_pair_count: "snd st \<le> snd (dups_pair inner w c p st)"
  by (cases p; cases st) (auto simp: dups_pair_def Let_def split: prod.splits option.splits)

lemma dups_fold_count: "snd st \<le> snd (fold (dups_pair inner w c) ps st)"
proof (induction ps arbitrary: st)
  case (Cons p ps)
  then show ?case using le_trans[OF dups_pair_count Cons.IH] by simp
qed simp

lemma dups_pair_zero:
  assumes inner: "inner_ok w inner" and zero: "snd (dups_pair inner w c (i, j) (xs, n)) = 0"
  shows "dups_pair inner w c (i, j) (xs, n) = (xs, 0) \<and> n = 0 \<and> (i \<noteq> j \<longrightarrow> expr_join w c (xs ! i) (xs ! j) = None)"
proof (cases rule: dups_pair_cases[of i j inner w c xs n])
  case diagonal
  then show ?thesis using zero by simp
next
  case (step e1 k)
  have none: "expr_join w c e1 (xs[i := e1] ! j) = None" and "n = 0" "k = 0"
    using zero step(3) by (auto split: option.splits)
  have "e1 = xs ! i"
    using step(2)
  proof
    assume "\<exists>c1. conn_of (xs ! i) = Some c1 \<and> inner c1 (xs ! i) = (e1, k)"
    then obtain c1 where "pass_ok w c1 (xs ! i) (e1, k)" using inner_okD[OF inner, of "xs ! i"] by auto
    then show ?thesis using \<open>k = 0\<close> by (simp add: pass_ok_def)
  qed simp
  then show ?thesis using none step(3) \<open>n = 0\<close> \<open>k = 0\<close> by simp
qed

lemma dups_fold_zero:
  assumes inner: "inner_ok w inner"
  shows "snd (fold (dups_pair inner w c) ps (xs, n)) = 0 \<Longrightarrow>
     n = 0 \<and> (\<forall>(i, j) \<in> set ps. i \<noteq> j \<longrightarrow> expr_join w c (xs ! i) (xs ! j) = None)"
proof (induction ps arbitrary: n)
  case (Cons p ps)
  obtain i j where p: "p = (i, j)" by fastforce
  have "snd (dups_pair inner w c p (xs, n)) = 0"
    using dups_fold_count[of "dups_pair inner w c p (xs, n)" inner w c ps] Cons.prems by simp
  then have "dups_pair inner w c (i, j) (xs, n) = (xs, 0) \<and> n = 0 \<and> (i \<noteq> j \<longrightarrow> expr_join w c (xs ! i) (xs ! j) = None)"
    unfolding p by (rule dups_pair_zero[OF inner])
  then have z: "dups_pair inner w c (i, j) (xs, n) = (xs, 0)" "n = 0"
    "i \<noteq> j \<longrightarrow> expr_join w c (xs ! i) (xs ! j) = None" by blast+
  then have "snd (fold (dups_pair inner w c) ps (xs, 0)) = 0" using Cons.prems p by simp
  then show ?case using Cons.IH[of 0] z p by simp
qed simp

definition no_joins :: "kworld \<Rightarrow> expr \<Rightarrow> bool" where
  "no_joins w e \<longleftrightarrow>
     (\<forall>c i j. conn_of e = Some c \<and> i < length (operands c e) \<and> j < length (operands c e) \<and> i \<noteq> j \<longrightarrow>
        expr_join w c (operands c e ! i) (operands c e ! j) = None)"

lemma pass_zero:
  assumes "dups_pass w e = (e', 0)"
  shows "e' = e \<and> no_joins w e"
proof (cases "conn_of e")
  case None
  then show ?thesis using assms by (simp add: dups_pass_def no_joins_def)
next
  case (Some c)
  have pass: "dups_depth (depth e) w c e = (e', 0)"
    using assms Some by (simp add: dups_pass_def expr_eliminate_dups1_def)
  then have "e' = e" using inner_okD[OF dups_depth_ok Some, of w "depth e"] by (simp add: pass_ok_def)
  obtain d where d: "depth e = Suc d" using depth_pos[of e] by (cases "depth e") auto
  let ?xs = "operands c e"
  have "snd (fold (dups_pair (dups_depth d w) w c) (List.product [0..<length ?xs] [0..<length ?xs]) (?xs, 0)) = 0"
    using pass unfolding d by (simp add: split_beta Let_def)
  then have "\<forall>(i, j) \<in> set (List.product [0..<length ?xs] [0..<length ?xs]). i \<noteq> j \<longrightarrow> expr_join w c (?xs ! i) (?xs ! j) = None"
    by (rule dups_fold_zero[OF dups_depth_ok, THEN conjunct2])
  then have "expr_join w c (?xs ! i) (?xs ! j) = None" if "i < length ?xs" "j < length ?xs" "i \<noteq> j" for i j
    using that by (simp add: set_product)
  then show ?thesis using Some \<open>e' = e\<close> by (simp add: no_joins_def)
qed

lemma pass_more:
  assumes "dups_pass w e = (e', n)" "0 < n"
  shows "leaves (expr_eliminate_yn e') < leaves e \<and>
     set (expr_symbols e') \<subseteq> set const_syms \<union> set (expr_symbols e) \<and>
     (world_ok w (set (expr_symbols e)) \<longrightarrow> expr_value w e' = expr_value w e)"
proof -
  obtain c where c: "conn_of e = Some c" "dups_depth (depth e) w c e = (e', n)"
    using assms by (auto simp: dups_pass_def expr_eliminate_dups1_def split: option.splits)
  then show ?thesis using inner_okD[OF dups_depth_ok c(1), of w "depth e"] assms(2) by (simp add: pass_ok_def)
qed

lemma yn_symbols: "set (expr_symbols (expr_eliminate_yn e)) \<subseteq> set const_syms \<union> set (expr_symbols e)"
  by (induction e rule: expr_eliminate_yn.induct) (auto simp: Let_def)

lemma dups_loop_result:
  "\<exists>e'. dups_loop w e = Some e' \<and> no_joins w e' \<and> leaves e' \<le> leaves e \<and>
     set (expr_symbols e') \<subseteq> set const_syms \<union> set (expr_symbols e) \<and>
     (world_ok w (set (expr_symbols e)) \<longrightarrow> expr_value w e' = expr_value w e)"
proof (induction "leaves e" arbitrary: e rule: less_induct)
  case less
  obtain e1 n where pass: "dups_pass w e = (e1, n)" by fastforce
  show ?case
  proof (cases "n = 0")
    case True
    then show ?thesis using pass pass_zero[of w e e1] by (subst dups_loop.simps) auto
  next
    case False
    let ?e2 = "expr_eliminate_yn e1"
    have more: "leaves ?e2 < leaves e" "set (expr_symbols e1) \<subseteq> set const_syms \<union> set (expr_symbols e)"
      "world_ok w (set (expr_symbols e)) \<Longrightarrow> expr_value w e1 = expr_value w e"
      using pass_more[OF pass] False by simp_all
    obtain e' where e': "dups_loop w ?e2 = Some e'" "no_joins w e'" "leaves e' \<le> leaves ?e2"
      "set (expr_symbols e') \<subseteq> set const_syms \<union> set (expr_symbols ?e2)"
      "world_ok w (set (expr_symbols ?e2)) \<Longrightarrow> expr_value w e' = expr_value w ?e2"
      using less[OF more(1)] by blast
    have sub: "set (expr_symbols ?e2) \<subseteq> set const_syms \<union> set (expr_symbols e)"
      using yn_symbols[of e1] more(2) by blast
    have "expr_value w e' = expr_value w e" if W: "world_ok w (set (expr_symbols e))"
    proof -
      have "constants_ok w" using W by (simp add: world_ok_def)
      then show ?thesis
        using e'(5)[OF world_ok_mono[OF W sub]] eliminate_yn_value more(3)[OF W] by simp
    qed
    moreover have "dups_loop w e = Some e'"
      using pass False e'(1) by (subst dups_loop.simps) simp
    moreover have "set (expr_symbols e') \<subseteq> set const_syms \<union> set (expr_symbols e)"
      using e'(4) sub by blast
    ultimately show ?thesis using e'(2,3) more(1) by auto
  qed
qed

text \<open>
  C25.
  \<open>expr_eliminate_dups\<close> returns for every expression: its passes end because each of them that
  joins operands leaves fewer of them. In a calculated world the result has the value of the
  expression, no more operands, and no two operands of its connective that could be joined.
\<close>
theorem eliminate_dups_terminates:
  assumes "calculated calc w e"
  shows "\<exists>e'. expr_eliminate_dups w (Some e) = Some (Some e') \<and>
     expr_calc_value calc e' w = expr_calc_value calc e w \<and> leaves e' \<le> leaves e \<and> no_joins w e'"
proof -
  obtain e' where e': "dups_loop w e = Some e'" "no_joins w e'" "leaves e' \<le> leaves e"
    "set (expr_symbols e') \<subseteq> set const_syms \<union> set (expr_symbols e)"
    "expr_value w e' = expr_value w e"
    using dups_loop_result[of w e] calculated_world_ok[OF assms] by blast
  have "expr_calc_value calc e' w = expr_calc_value calc e w"
    by (rule same_value[OF assms _ e'(5)]) (use e'(4) in auto)
  then show ?thesis using e' by (simp add: expr_eliminate_dups_def)
qed

lemma eliminate_dups_terminates_witness:
  "\<exists>e'. expr_eliminate_dups example_kworld (Some (E_AND (E_SYMBOL (Sym 0)) (E_AND (E_SYMBOL (Sym 1)) (E_CMP E_EQUAL (Sym 0) symbol_yes)))) = Some (Some e') \<and>
     expr_calc_value calc_done e' example_kworld =
       expr_calc_value calc_done (E_AND (E_SYMBOL (Sym 0)) (E_AND (E_SYMBOL (Sym 1)) (E_CMP E_EQUAL (Sym 0) symbol_yes))) example_kworld \<and>
     leaves e' \<le> leaves (E_AND (E_SYMBOL (Sym 0)) (E_AND (E_SYMBOL (Sym 1)) (E_CMP E_EQUAL (Sym 0) symbol_yes))) \<and>
     no_joins example_kworld e'"
  by (rule eliminate_dups_terminates; rule example_calculated) simp

end
