(* ===== verification/Fixdep.thy ===== *)
theory Fixdep
  imports Cstring
begin

text \<open>
  The dependency filter \<open>tools/fixdep/fixdep.c\<close>: it copies the dependencies that the compiler
  wrote, without \<open>autoconf.h\<close>, and adds a dependency on one file per configuration option that
  the prerequisites mention.

  The file system is the parameter \<open>read\<close>: the bytes of a file, or \<open>None\<close> when it cannot be
  opened or read. Standard output is the list of the printed pieces; a failing \<open>printf\<close> ends
  the program and is not modelled. \<open>exit(n)\<close> is \<open>Exit n\<close>, with what was printed before.
\<close>

subsection \<open>The table of options\<close>

definition HASHSZ :: nat where
  "HASHSZ = 256"

record item =
  item_len :: nat
  item_hash :: u32
  item_name :: string

text \<open>\<open>hashtab\<close> is the list of the items of each bucket, the newest first.\<close>

record fixdep =
  hashtab :: "nat \<Rightarrow> item list"
  printed :: "string list"

definition fixdep_start :: fixdep where
  "fixdep_start = \<lparr>hashtab = (\<lambda>_. []), printed = []\<rparr>"

definition xprintf :: "string \<Rightarrow> fixdep \<Rightarrow> fixdep" where
  "xprintf s st = st\<lparr>printed := printed st @ [s]\<rparr>"

text \<open>A \<open>char\<close> is signed.\<close>

definition char_value :: "char \<Rightarrow> int" where
  "char_value c = (if char_code c < 128 then int (char_code c) else int (char_code c) - 256)"

definition strhash :: "string \<Rightarrow> u32" where
  "strhash s = foldl (\<lambda>hash c. (hash XOR word_of_int (char_value c)) * 0x01000193) 2166136261 s"

definition bucket :: "u32 \<Rightarrow> nat" where
  "bucket hash = unat hash mod HASHSZ"

definition is_defined_config :: "string \<Rightarrow> u32 \<Rightarrow> fixdep \<Rightarrow> bool" where
  "is_defined_config name hash st \<longleftrightarrow>
     (\<exists>aux \<in> set (hashtab st (bucket hash)).
        item_hash aux = hash \<and> item_len aux = length name \<and> take (length name) (item_name aux) = name)"

definition define_config :: "string \<Rightarrow> u32 \<Rightarrow> fixdep \<Rightarrow> fixdep" where
  "define_config name hash st =
     (let aux = \<lparr>item_len = length name, item_hash = hash, item_name = name\<rparr>
      in st\<lparr>hashtab := (hashtab st)(bucket hash := aux # hashtab st (bucket hash))\<rparr>)"

text \<open>The path of an option: \<open>_\<close> becomes \<open>/\<close>, letters lower case, slashes do not repeat.\<close>

fun dep_path :: "char \<Rightarrow> string \<Rightarrow> string" where
  "dep_path prev [] = []"
| "dep_path prev (m # ms) =
     (let c = (if m = CHR ''_'' then CHR ''/'' else to_lower m)
      in (if c \<noteq> CHR ''/'' \<or> prev \<noteq> CHR ''/'' then [c] else []) @ dep_path c ms)"

definition dep_line :: "string \<Rightarrow> string \<Rightarrow> string" where
  "dep_line m dir =
     ''    $(wildcard '' @ dir @ ''/'' @ dep_path (CHR ''/'') m @ ''.h) '' @ [CHR 0x5C, CHR 0x0A]"

definition print_dep :: "string \<Rightarrow> string \<Rightarrow> fixdep \<Rightarrow> fixdep" where
  "print_dep m dir = xprintf (dep_line m dir)"

definition use_config :: "string \<Rightarrow> fixdep \<Rightarrow> fixdep" where
  "use_config m st =
     (let hash = strhash m
      in if is_defined_config m hash st then st
         else print_dep m ''sw/include/config'' (define_config m hash st))"

subsection \<open>Options in a file\<close>

definition str_ends_with :: "string \<Rightarrow> string \<Rightarrow> bool" where
  "str_ends_with s sub \<longleftrightarrow> length sub \<le> length s \<and> drop (length s - length sub) s = sub"

definition word_char :: "char \<Rightarrow> bool" where
  "word_char c \<longleftrightarrow> is_alnum c \<or> c = CHR ''_''"

definition strip_module :: "string \<Rightarrow> string" where
  "strip_module w = (if str_ends_with w ''_MODULE'' then take (length w - 7) w else w)"

definition is_config :: "string \<Rightarrow> bool" where
  "is_config s \<longleftrightarrow> take 7 s = ''CONFIG_''"

text \<open>
  The options that \<open>parse_config_file\<close> passes to \<open>use_config\<close>, in order. \<open>prev\<close> is the
  character before the current position, \<open>None\<close> at the start of the buffer; \<open>strstr\<close> is the
  step from character to character.
\<close>

function config_words :: "char option \<Rightarrow> string \<Rightarrow> string list" where
  "config_words prev s =
     (case s of
        [] \<Rightarrow> []
      | c # cs \<Rightarrow>
          if \<not> is_config s then config_words (Some c) cs
          else if (case prev of Some p \<Rightarrow> word_char p | None \<Rightarrow> False)
          then config_words (Some (CHR ''_'')) (drop 7 s)
          else
            (let p = drop 7 s; word = takeWhile word_char p; r = strip_module word
             in (if r \<noteq> [] then [r] else []) @
                config_words (Some (last (CHR ''_'' # word))) (dropWhile word_char p)))"
  by pat_completeness auto

termination
  by (relation "measure (\<lambda>(prev, s). length s)")
    (auto simp: length_dropWhile_le le_imp_less_Suc intro: le_less_trans[OF length_dropWhile_le])

declare config_words.simps [simp del]

definition c_string :: "string \<Rightarrow> string" where
  "c_string = takeWhile (\<lambda>c. c \<noteq> CHR 0x00)"

definition parse_config_file :: "string \<Rightarrow> fixdep \<Rightarrow> fixdep" where
  "parse_config_file buf st = fold use_config (config_words None buf) st"

subsection \<open>The dependency file\<close>

datatype flow = Exit nat | Return

definition is_ignored_file :: "string \<Rightarrow> bool" where
  "is_ignored_file s \<longleftrightarrow>
     str_ends_with s ''sw/include/generated/autoconf.h'' \<or> str_ends_with s ''sw/include/generated/autoksyms.h''"

definition dep_space :: "char \<Rightarrow> bool" where
  "dep_space c \<longleftrightarrow> c = CHR '' '' \<or> c = CHR 0x5C \<or> c = CHR 0x0A"

text \<open>
  What is done with one token: the flags \<open>saw_any_target\<close> and \<open>is_first_dep\<close>, and the output.
\<close>

definition dep_token ::
  "(string \<Rightarrow> string option) \<Rightarrow> string \<Rightarrow> string \<Rightarrow> bool \<times> bool \<times> fixdep \<Rightarrow> flow \<times> bool \<times> bool \<times> fixdep" where
  "dep_token read target m ctl =
     (case ctl of (saw, first, st) \<Rightarrow>
        if last m = CHR '':'' then (Return, saw, True, st)
        else if is_ignored_file m then (Return, saw, first, st)
        else
          let st = (if first then
                      (if saw then st
                       else xprintf (''deps_'' @ target @ '' := '' @ [CHR 0x5C, CHR 0x0A])
                              (xprintf (''source_'' @ target @ '' := '' @ m @ [CHR 0x0A, CHR 0x0A]) st))
                    else xprintf (''  '' @ m @ '' '' @ [CHR 0x5C, CHR 0x0A]) st);
              saw = (saw \<or> first)
          in case read m of
               None \<Rightarrow> (Exit 2, saw, False, st)
             | Some buf \<Rightarrow> (Return, saw, False, parse_config_file (c_string buf) st))"

lemma rest_shorter:
  assumes "dropWhile Q (dropWhile P xs) \<noteq> []"
  shows "length (dropWhile Q (dropWhile P xs)) - Suc 0 < length xs"
  using assms length_dropWhile_le[of Q "dropWhile P xs"] length_dropWhile_le[of P xs]
  by (cases "dropWhile Q (dropWhile P xs)") auto

function dep_loop ::
  "(string \<Rightarrow> string option) \<Rightarrow> string \<Rightarrow> string \<Rightarrow> bool \<times> bool \<times> fixdep \<Rightarrow> flow \<times> bool \<times> bool \<times> fixdep" where
  "dep_loop read target m ctl =
     (let m = dropWhile dep_space m
      in if m = [] then (Return, ctl)
         else
           let token = takeWhile (\<lambda>c. \<not> dep_space c) m; p = dropWhile (\<lambda>c. \<not> dep_space c) m;
               r = dep_token read target token ctl
           in case fst r of
                Exit n \<Rightarrow> r
              | Return \<Rightarrow> if p = [] then r else dep_loop read target (tl p) (snd r))"
  by pat_completeness auto

termination
  by (relation "measure (\<lambda>(read, target, m, ctl). length m)") (auto simp: rest_shorter)

declare dep_loop.simps [simp del]

definition parse_dep_file ::
  "(string \<Rightarrow> string option) \<Rightarrow> string \<Rightarrow> string \<Rightarrow> fixdep \<Rightarrow> flow \<times> fixdep" where
  "parse_dep_file read m target st =
     (case dep_loop read target m (False, False, st) of
        (Exit n, saw, first, st) \<Rightarrow> (Exit n, st)
      | (Return, saw, first, st) \<Rightarrow>
          if \<not> saw then (Exit 1, st)
          else (Return, xprintf (''$(deps_'' @ target @ ''):'' @ [CHR 0x0A])
                 (xprintf ([CHR 0x0A] @ target @ '': $(deps_'' @ target @ '')'' @ [CHR 0x0A, CHR 0x0A]) st)))"

text \<open>\<open>main\<close> with \<open>argv\<close> (the program name first); a normal end is \<open>Return\<close> (status 0).\<close>

definition fixdep_main :: "(string \<Rightarrow> string option) \<Rightarrow> string list \<Rightarrow> flow \<times> fixdep" where
  "fixdep_main read argv =
     (case argv of
        [_, depfile, target, cmdline] \<Rightarrow>
          (let st = xprintf (''cmd_'' @ target @ '' := '' @ cmdline @ [CHR 0x0A, CHR 0x0A]) fixdep_start
           in case read depfile of
                None \<Rightarrow> (Exit 2, st)
              | Some buf \<Rightarrow> parse_dep_file read (c_string buf) target st)
      | _ \<Rightarrow> (Exit 1, fixdep_start))"

end
