(* ===== verification/Fixdep_Props.thy ===== *)
theory Fixdep_Props
  imports Fixdep
begin

text \<open>
  Properties of \<open>fixdep\<close>. The scan of a file finds exactly the options that it mentions as
  whole words; the hash table prints each of them once; a successful run has scanned every
  prerequisite, so that no option of the sources is missing from the dependencies.
\<close>

subsection \<open>Options that a text mentions\<close>

text \<open>
  \<open>CONFIG_\<close> that does not continue a word, followed by the rest of the word; \<open>prev\<close> is the
  character before the text.
\<close>

definition at_boundary :: "char option \<Rightarrow> string \<Rightarrow> bool" where
  "at_boundary prev pre \<longleftrightarrow>
     (if pre = [] then (case prev of None \<Rightarrow> True | Some p \<Rightarrow> \<not> word_char p) else \<not> word_char (last pre))"

definition mentions :: "char option \<Rightarrow> string \<Rightarrow> string \<Rightarrow> bool" where
  "mentions prev s w \<longleftrightarrow>
     (\<exists>pre name post. s = pre @ ''CONFIG_'' @ name @ post \<and> at_boundary prev pre \<and>
        (\<forall>c \<in> set name. word_char c) \<and> (post = [] \<or> \<not> word_char (hd post)) \<and>
        w = strip_module name \<and> w \<noteq> [])"

lemma mentionsI:
  "s = pre @ ''CONFIG_'' @ name @ post \<Longrightarrow> at_boundary prev pre \<Longrightarrow> \<forall>c \<in> set name. word_char c \<Longrightarrow>
     post = [] \<or> \<not> word_char (hd post) \<Longrightarrow> w = strip_module name \<Longrightarrow> w \<noteq> [] \<Longrightarrow> mentions prev s w"
  unfolding mentions_def by blast

lemma CONFIG_word: "c \<in> set ''CONFIG_'' \<Longrightarrow> word_char c"
  by (auto simp: word_char_def is_alnum_def is_upper_def)

text \<open>A run of word characters hides every mention but one at its start.\<close>

lemma mentions_skip:
  assumes x: "x \<noteq> []" "\<forall>c \<in> set x. word_char c"
  shows "mentions prev (x @ r) w \<longleftrightarrow>
     mentions (Some (last x)) r w \<or>
     (at_boundary prev [] \<and> (\<exists>name post. x @ r = ''CONFIG_'' @ name @ post \<and> (\<forall>c \<in> set name. word_char c) \<and>
        (post = [] \<or> \<not> word_char (hd post)) \<and> w = strip_module name \<and> w \<noteq> []))"
    (is "?L \<longleftrightarrow> ?M \<or> ?S")
proof
  assume ?L
  then obtain pre name post where m: "x @ r = pre @ ''CONFIG_'' @ name @ post" "at_boundary prev pre"
    "\<forall>c \<in> set name. word_char c" "post = [] \<or> \<not> word_char (hd post)" "w = strip_module name" "w \<noteq> []"
    unfolding mentions_def by blast
  show "?M \<or> ?S"
  proof (cases "pre = []")
    case True
    then show ?thesis using m by auto
  next
    case False
    have "\<not> length pre < length x"
    proof
      assume short: "length pre < length x"
      have "pre = take (length pre) x" using m(1) short
        by (metis append_eq_append_conv_if less_imp_le_nat take_all_iff append_eq_conv_conj take_append append_Nil2 diff_is_0_eq take_0)
      then have "last pre \<in> set x" using False by (metis in_set_takeD last_in_set)
      then show False using m(2) False x(2) by (auto simp: at_boundary_def)
    qed
    then obtain pre' where pre': "pre = x @ pre'" "r = pre' @ ''CONFIG_'' @ name @ post"
      using m(1) by (auto simp: append_eq_append_conv2)
    have "at_boundary (Some (last x)) pre'"
      using m(2) pre'(1) x(1) by (auto simp: at_boundary_def)
    then have ?M using pre'(2) m(3-6) by (intro mentionsI)
    then show ?thesis ..
  qed
next
  assume "?M \<or> ?S"
  then show ?L
  proof
    assume ?M
    then obtain pre name post where m: "r = pre @ ''CONFIG_'' @ name @ post" "at_boundary (Some (last x)) pre"
      "\<forall>c \<in> set name. word_char c" "post = [] \<or> \<not> word_char (hd post)" "w = strip_module name" "w \<noteq> []"
      unfolding mentions_def by blast
    have "at_boundary prev (x @ pre)"
      using m(2) x(1) by (auto simp: at_boundary_def split: if_splits)
    then show ?L using m by (intro mentionsI[of _ "x @ pre"]) auto
  next
    assume ?S
    then obtain name post where "x @ r = [] @ ''CONFIG_'' @ name @ post" "at_boundary prev []"
      "\<forall>c \<in> set name. word_char c" "post = [] \<or> \<not> word_char (hd post)" "w = strip_module name" "w \<noteq> []"
      by auto
    then show ?L by (rule mentionsI)
  qed
qed

lemma mentions_step:
  assumes "\<not> is_config (c # cs)"
  shows "mentions prev (c # cs) w \<longleftrightarrow> mentions (Some c) cs w"
proof
  assume "mentions prev (c # cs) w"
  then obtain pre name post where m: "c # cs = pre @ ''CONFIG_'' @ name @ post" "at_boundary prev pre"
    "\<forall>c \<in> set name. word_char c" "post = [] \<or> \<not> word_char (hd post)" "w = strip_module name" "w \<noteq> []"
    unfolding mentions_def by blast
  have "pre \<noteq> []" using m(1) assms by (auto simp: is_config_def)
  then obtain pre' where pre': "pre = c # pre'" "cs = pre' @ ''CONFIG_'' @ name @ post"
    using m(1) by (cases pre) auto
  have "at_boundary (Some c) pre'" using m(2) pre'(1) by (auto simp: at_boundary_def split: if_splits)
  then show "mentions (Some c) cs w" using pre'(2) m(3-6) by (intro mentionsI)
next
  assume "mentions (Some c) cs w"
  then obtain pre name post where m: "cs = pre @ ''CONFIG_'' @ name @ post" "at_boundary (Some c) pre"
    "\<forall>c \<in> set name. word_char c" "post = [] \<or> \<not> word_char (hd post)" "w = strip_module name" "w \<noteq> []"
    unfolding mentions_def by blast
  have "at_boundary prev (c # pre)" using m(2) by (auto simp: at_boundary_def split: if_splits)
  then show "mentions prev (c # cs) w" using m by (intro mentionsI[of _ "c # pre"]) auto
qed

lemma split_word:
  assumes "word @ rest = name @ post" "\<forall>c \<in> set name. word_char c" "post = [] \<or> \<not> word_char (hd post)"
    and "\<forall>c \<in> set word. word_char c" "rest = [] \<or> \<not> word_char (hd rest)"
  shows "name = word"
proof -
  have "takeWhile word_char (name @ post) = name" "takeWhile word_char (word @ rest) = word"
    using assms(2-5) by (auto simp: takeWhile_append takeWhile_eq_Nil_iff)
  then show ?thesis using assms(1) by simp
qed

lemma take_drop_word:
  assumes "word = takeWhile P s" "rest = dropWhile P s"
  shows "s = word @ rest" "\<forall>c \<in> set word. P c" "rest = [] \<or> \<not> P (hd rest)"
  using assms hd_dropWhile[of P s] by (auto dest: set_takeWhileD)

lemma is_config_drop: "is_config s \<Longrightarrow> s = ''CONFIG_'' @ drop 7 s"
  unfolding is_config_def by (metis append_take_drop_id)

lemma config_words_mentions: "w \<in> set (config_words prev s) \<longleftrightarrow> mentions prev s w"
proof (induction prev s rule: config_words.induct)
  case (1 prev s)
  show ?case
  proof (cases s)
    case Nil
    then show ?thesis by (simp add: config_words.simps mentions_def)
  next
    case (Cons c cs)
    let ?word_before = "case prev of Some p \<Rightarrow> word_char p | None \<Rightarrow> False"
    have C: "''CONFIG_'' \<noteq> []" "\<forall>c \<in> set ''CONFIG_''. word_char c" using CONFIG_word by auto
    consider (no) "\<not> is_config s" | (inside) "is_config s" "?word_before" | (found) "is_config s" "\<not> ?word_before"
      by blast
    then show ?thesis
    proof cases
      case no
      then have "config_words prev s = config_words (Some c) cs"
        using Cons by (subst config_words.simps) simp
      then show ?thesis using 1(1)[OF Cons] no mentions_step Cons by simp
    next
      case inside
      then have "config_words prev s = config_words (Some (CHR ''_'')) (drop 7 s)"
        using Cons by (subst config_words.simps) simp
      moreover have "mentions prev s w \<longleftrightarrow> mentions (Some (CHR ''_'')) (drop 7 s) w"
        using mentions_skip[OF C, of prev "drop 7 s" w] inside is_config_drop[OF inside(1)]
        by (auto simp: at_boundary_def split: option.splits)
      ultimately show ?thesis using 1(2)[OF Cons] inside by simp
    next
      case found
      define word rest where "word = takeWhile word_char (drop 7 s)" and "rest = dropWhile word_char (drop 7 s)"
      note word = take_drop_word[OF word_def rest_def]
      have s: "s = (''CONFIG_'' @ word) @ rest" using is_config_drop[OF found(1)] word(1) by simp
      have cw: "config_words prev s =
          (if strip_module word \<noteq> [] then [strip_module word] else []) @ config_words (Some (last (CHR ''_'' # word))) rest"
        using Cons found by (subst config_words.simps) (simp add: Let_def word_def rest_def)
      have "mentions prev s w \<longleftrightarrow> mentions (Some (last (''CONFIG_'' @ word))) rest w \<or> (w = strip_module word \<and> w \<noteq> [])"
      proof -
        have "at_boundary prev []" using found(2) by (simp add: at_boundary_def split: option.splits)
        moreover have "(\<exists>name post. s = ''CONFIG_'' @ name @ post \<and> (\<forall>c \<in> set name. word_char c) \<and>
            (post = [] \<or> \<not> word_char (hd post)) \<and> w = strip_module name \<and> w \<noteq> []) \<longleftrightarrow> w = strip_module word \<and> w \<noteq> []"
        proof
          assume "\<exists>name post. s = ''CONFIG_'' @ name @ post \<and> (\<forall>c \<in> set name. word_char c) \<and>
            (post = [] \<or> \<not> word_char (hd post)) \<and> w = strip_module name \<and> w \<noteq> []"
          then obtain name post where n: "s = ''CONFIG_'' @ name @ post" "\<forall>c \<in> set name. word_char c"
            "post = [] \<or> \<not> word_char (hd post)" "w = strip_module name" "w \<noteq> []" by blast
          have "word @ rest = name @ post" using s n(1) by simp
          then have "name = word" using split_word[OF _ n(2,3) word(2,3)] by simp
          then show "w = strip_module word \<and> w \<noteq> []" using n(4,5) by simp
        next
          assume "w = strip_module word \<and> w \<noteq> []"
          then show "\<exists>name post. s = ''CONFIG_'' @ name @ post \<and> (\<forall>c \<in> set name. word_char c) \<and>
            (post = [] \<or> \<not> word_char (hd post)) \<and> w = strip_module name \<and> w \<noteq> []"
            using word(2,3) s by - (rule exI[of _ word], rule exI[of _ rest], auto)
        qed
        ultimately show ?thesis
          using mentions_skip[of "''CONFIG_'' @ word" prev rest w] C(2) word(2) s by auto
      qed
      moreover have "last (''CONFIG_'' @ word) = last (CHR ''_'' # word)" by (cases "word = []") auto
      moreover have "w \<in> set (config_words (Some (last (CHR ''_'' # word))) rest) \<longleftrightarrow>
          mentions (Some (last (CHR ''_'' # word))) rest w"
        using 1(3)[OF Cons] found by (simp add: word_def rest_def)
      ultimately show ?thesis using cw by auto
    qed
  qed
qed
subsection \<open>The table\<close>

definition table_ok :: "fixdep \<Rightarrow> bool" where
  "table_ok st \<longleftrightarrow>
     (\<forall>b. \<forall>aux \<in> set (hashtab st b).
        item_len aux = length (item_name aux) \<and> item_hash aux = strhash (item_name aux) \<and> bucket (strhash (item_name aux)) = b)"

definition defined_options :: "fixdep \<Rightarrow> string set" where
  "defined_options st = {m. is_defined_config m (strhash m) st}"

lemma is_defined_iff:
  assumes "table_ok st"
  shows "is_defined_config m (strhash m) st \<longleftrightarrow> (\<exists>aux \<in> set (hashtab st (bucket (strhash m))). item_name aux = m)"
proof -
  have "item_hash aux = strhash m \<and> item_len aux = length m \<and> take (length m) (item_name aux) = m \<longleftrightarrow> item_name aux = m"
    if "aux \<in> set (hashtab st (bucket (strhash m)))" for aux
    using that assms by (auto simp: table_ok_def)
  then show ?thesis unfolding is_defined_config_def by blast
qed

lemma is_defined_member: "is_defined_config m (strhash m) st \<longleftrightarrow> m \<in> defined_options st"
  by (simp add: defined_options_def)

lemma define_config_ok: "table_ok st \<Longrightarrow> table_ok (define_config m (strhash m) st)"
  by (auto simp: table_ok_def define_config_def)

lemma define_config_options:
  assumes "table_ok st"
  shows "defined_options (define_config m (strhash m) st) = insert m (defined_options st)"
  using is_defined_iff[OF define_config_ok[OF assms]] is_defined_iff[OF assms]
  by (auto simp: defined_options_def define_config_def)

definition option_line :: "string \<Rightarrow> string" where
  "option_line w = dep_line w ''sw/include/config''"

lemma xprintf_simps [simp]:
  "table_ok (xprintf s st) = table_ok st" "defined_options (xprintf s st) = defined_options st"
  "printed (xprintf s st) = printed st @ [s]"
  by (simp_all add: xprintf_def table_ok_def defined_options_def is_defined_config_def)

lemma use_config_result:
  assumes "table_ok st"
  shows "table_ok (use_config m st)" "defined_options (use_config m st) = insert m (defined_options st)"
    "printed (use_config m st) = printed st @ (if m \<in> defined_options st then [] else [option_line m])"
proof -
  have "printed (define_config m (strhash m) st) = printed st" by (simp add: define_config_def)
  then show "table_ok (use_config m st)" "defined_options (use_config m st) = insert m (defined_options st)"
    "printed (use_config m st) = printed st @ (if m \<in> defined_options st then [] else [option_line m])"
    using assms define_config_ok[OF assms, of m] define_config_options[OF assms, of m]
    by (simp_all add: use_config_def print_dep_def option_line_def Let_def is_defined_member insert_absorb)
qed

lemma use_configs_result:
  "table_ok st \<Longrightarrow>
     table_ok (fold use_config ws st) \<and> defined_options (fold use_config ws st) = defined_options st \<union> set ws \<and>
     (\<exists>us. printed (fold use_config ws st) = printed st @ map option_line us \<and> distinct us \<and>
        set us = set ws - defined_options st)"
proof (induction ws arbitrary: st)
  case (Cons w ws)
  note w = use_config_result[OF Cons.prems, of w]
  obtain us where us: "printed (fold use_config ws (use_config w st)) = printed (use_config w st) @ map option_line us"
    "distinct us" "set us = set ws - insert w (defined_options st)"
    and t: "table_ok (fold use_config ws (use_config w st))"
      "defined_options (fold use_config ws (use_config w st)) = insert w (defined_options st) \<union> set ws"
    using Cons.IH[OF w(1)] w(2) by auto
  have "\<exists>vs. printed (fold use_config (w # ws) st) = printed st @ map option_line vs \<and> distinct vs \<and>
      set vs = set (w # ws) - defined_options st"
  proof (cases "w \<in> defined_options st")
    case True
    then show ?thesis using us w(3) by (intro exI[of _ us]) auto
  next
    case False
    then show ?thesis using us w(3) by (intro exI[of _ "w # us"]) auto
  qed
  then show ?case using t by simp
qed simp

text \<open>
  C39.
  \<open>parse_config_file\<close> prints one line for every option that the file mentions and that was not
  printed before, and for nothing else: \<open>CONFIG_X\<close> counts when it does not continue a word, up
  to the end of the word and without \<open>_MODULE\<close>, and collisions of the hash lose nothing.
\<close>
theorem config_file_prints_new_options:
  assumes "table_ok st"
  shows "\<exists>us. printed (parse_config_file buf st) = printed st @ map option_line us \<and> distinct us \<and>
     set us = {w. mentions None buf w} - defined_options st \<and>
     table_ok (parse_config_file buf st) \<and>
     defined_options (parse_config_file buf st) = defined_options st \<union> {w. mentions None buf w}"
proof -
  have "set (config_words None buf) = {w. mentions None buf w}"
    using config_words_mentions by auto
  then show ?thesis using use_configs_result[OF assms, of "config_words None buf"] by (auto simp: parse_config_file_def)
qed

lemma start_table_ok: "table_ok fixdep_start" "defined_options fixdep_start = {}"
  by (simp_all add: table_ok_def defined_options_def is_defined_config_def fixdep_start_def)

lemma config_file_prints_new_options_witness:
  "\<exists>us. printed (parse_config_file ''XCONFIG_A CONFIG_B_MODULE'' fixdep_start) = map option_line us \<and> distinct us \<and>
     set us = {w. mentions None ''XCONFIG_A CONFIG_B_MODULE'' w}"
  using config_file_prints_new_options[OF start_table_ok(1), of "''XCONFIG_A CONFIG_B_MODULE''"] start_table_ok(2)
  by (auto simp: fixdep_start_def)

lemma config_words_example:
  "config_words None ''XCONFIG_A CONFIG_B_MODULE CONFIG_C-CONFIG_B'' = [''B'', ''C'', ''B'']"
  by code_simp

subsection \<open>A run\<close>

text \<open>The tokens of the dependency file.\<close>

fun dep_tokens :: "string \<Rightarrow> string list" where
  "dep_tokens [] = []"
| "dep_tokens (c # cs) =
     (if dep_space c then dep_tokens cs
      else case dep_tokens cs of
             [] \<Rightarrow> [[c]]
           | t # ts \<Rightarrow> if cs = [] \<or> dep_space (hd cs) then [c] # t # ts else (c # t) # ts)"

lemma tokens_skip: "dep_tokens (dropWhile dep_space m) = dep_tokens m"
  by (induction m) auto

lemma tokens_tl: "p \<noteq> [] \<Longrightarrow> dep_space (hd p) \<Longrightarrow> dep_tokens p = dep_tokens (tl p)"
  by (cases p) auto

lemma tokens_first:
  "m \<noteq> [] \<Longrightarrow> \<not> dep_space (hd m) \<Longrightarrow>
     dep_tokens m = takeWhile (\<lambda>c. \<not> dep_space c) m # dep_tokens (dropWhile (\<lambda>c. \<not> dep_space c) m)"
proof (induction m)
  case (Cons c cs)
  then show ?case
    by (cases cs) (auto split: list.splits)
qed simp

lemma token_nonempty: "t \<in> set (dep_tokens m) \<Longrightarrow> t \<noteq> []"
  by (induction m arbitrary: t) (auto split: list.splits if_splits)

fun run_tokens ::
  "(string \<Rightarrow> string option) \<Rightarrow> string \<Rightarrow> string list \<Rightarrow> bool \<times> bool \<times> fixdep \<Rightarrow> flow \<times> bool \<times> bool \<times> fixdep" where
  "run_tokens read target [] ctl = (Return, ctl)"
| "run_tokens read target (t # ts) ctl =
     (let r = dep_token read target t ctl
      in case fst r of Exit n \<Rightarrow> r | Return \<Rightarrow> run_tokens read target ts (snd r))"

lemma dep_loop_tokens: "dep_loop read target m ctl = run_tokens read target (dep_tokens m) ctl"
proof (induction read target m ctl rule: dep_loop.induct)
  case (1 read target m ctl)
  define x where "x = dropWhile dep_space m"
  define p where "p = dropWhile (\<lambda>c. \<not> dep_space c) x"
  let ?r = "dep_token read target (takeWhile (\<lambda>c. \<not> dep_space c) x) ctl"
  have step: "dep_loop read target m ctl =
      (if x = [] then (Return, ctl)
       else case fst ?r of Exit n \<Rightarrow> ?r | Return \<Rightarrow> if p = [] then ?r else dep_loop read target (tl p) (snd ?r))"
    by (simp only: dep_loop.simps[of read target m ctl] Let_def x_def p_def)
  have toks: "dep_tokens m = dep_tokens x" by (simp add: x_def tokens_skip)
  show ?case
  proof (cases "x = []")
    case True
    then show ?thesis using step toks by simp
  next
    case False
    then have "\<not> dep_space (hd x)" using hd_dropWhile[of dep_space m] by (simp add: x_def)
    then have first: "dep_tokens m = takeWhile (\<lambda>c. \<not> dep_space c) x # dep_tokens p"
      using tokens_first[OF False] toks by (simp add: p_def)
    show ?thesis
    proof (cases "fst ?r")
      case (Exit n)
      then show ?thesis using step first False by (simp add: Let_def)
    next
      case Return
      show ?thesis
      proof (cases "p = []")
        case True
        then show ?thesis using step first False Return by (simp add: Let_def prod_eq_iff)
      next
        case p: False
        then have "dep_space (hd p)" using hd_dropWhile[of "\<lambda>c. \<not> dep_space c" x] by (simp add: p_def)
        then have "dep_tokens p = dep_tokens (tl p)" by (rule tokens_tl[OF p])
        moreover have "dep_loop read target (tl p) (snd ?r) = run_tokens read target (dep_tokens (tl p)) (snd ?r)"
          using 1 False Return p by (simp add: x_def p_def)
        ultimately show ?thesis using step first False Return p by (simp add: Let_def)
      qed
    qed
  qed
qed

definition is_target :: "string \<Rightarrow> bool" where
  "is_target t \<longleftrightarrow> last t = CHR '':''"

definition prerequisite :: "string \<Rightarrow> bool" where
  "prerequisite t \<longleftrightarrow> \<not> is_target t \<and> \<not> is_ignored_file t"

text \<open>The token is the source file of the target or one of its dependencies.\<close>

definition listed :: "string \<Rightarrow> string \<Rightarrow> fixdep \<Rightarrow> bool" where
  "listed target t st \<longleftrightarrow>
     ''source_'' @ target @ '' := '' @ t @ [CHR 0x0A, CHR 0x0A] \<in> set (printed st) \<or>
     ''  '' @ t @ '' '' @ [CHR 0x5C, CHR 0x0A] \<in> set (printed st)"

definition lines_ok :: "fixdep \<Rightarrow> bool" where
  "lines_ok st \<longleftrightarrow> table_ok st \<and> (\<forall>w \<in> defined_options st. option_line w \<in> set (printed st))"

lemma parse_config_file_ok:
  assumes "lines_ok st"
  shows "lines_ok (parse_config_file buf st)" "set (printed st) \<subseteq> set (printed (parse_config_file buf st))"
    "defined_options (parse_config_file buf st) = defined_options st \<union> {w. mentions None buf w}"
proof -
  have t: "table_ok st" and l: "\<forall>w \<in> defined_options st. option_line w \<in> set (printed st)"
    using assms by (simp_all add: lines_ok_def)
  have words: "set (config_words None buf) = {w. mentions None buf w}" using config_words_mentions by auto
  have r: "table_ok (parse_config_file buf st)"
    "defined_options (parse_config_file buf st) = defined_options st \<union> {w. mentions None buf w}"
    using use_configs_result[OF t, of "config_words None buf"] unfolding parse_config_file_def words by simp_all
  obtain us where us: "printed (parse_config_file buf st) = printed st @ map option_line us"
    "set us = {w. mentions None buf w} - defined_options st"
    using use_configs_result[OF t, of "config_words None buf"] unfolding parse_config_file_def words by blast
  show "defined_options (parse_config_file buf st) = defined_options st \<union> {w. mentions None buf w}" by (rule r(2))
  show "set (printed st) \<subseteq> set (printed (parse_config_file buf st))" using us(1) by simp
  have "option_line w \<in> set (printed (parse_config_file buf st))" if "w \<in> defined_options st \<union> {w. mentions None buf w}" for w
    using that l us by (cases "w \<in> defined_options st") auto
  then show "lines_ok (parse_config_file buf st)" using r by (simp add: lines_ok_def)
qed

lemma xprintf_lines_ok [simp]: "lines_ok st \<Longrightarrow> lines_ok (xprintf s st)"
  by (auto simp: lines_ok_def)

lemma token_result:
  assumes "dep_token read target t (saw, first, st) = (Return, saw', first', st')" and ok: "lines_ok st"
  shows "lines_ok st'" "set (printed st) \<subseteq> set (printed st')" "defined_options st \<subseteq> defined_options st'"
    "prerequisite t \<Longrightarrow> \<exists>buf. read t = Some buf \<and> {w. mentions None (c_string buf) w} \<subseteq> defined_options st'"
    "prerequisite t \<Longrightarrow> \<not> (first \<and> saw) \<Longrightarrow> listed target t st'"
    "is_target t \<Longrightarrow> saw' = saw \<and> first' = True"
    "\<not> is_target t \<Longrightarrow> is_ignored_file t \<Longrightarrow> saw' = saw \<and> first' = first"
    "prerequisite t \<Longrightarrow> saw' = (saw \<or> first) \<and> first' = False"
proof -
  consider (target) "is_target t" "st' = st" "saw' = saw" "first'"
    | (ignored) "\<not> is_target t" "is_ignored_file t" "st' = st" "saw' = saw" "first' = first"
    | (dep) buf s where "prerequisite t" "read t = Some buf" "st' = parse_config_file (c_string buf) s"
      "lines_ok s" "set (printed st) \<subseteq> set (printed s)" "defined_options s = defined_options st"
      "\<not> (first \<and> saw) \<Longrightarrow> listed target t s" "saw' = (saw \<or> first)" "\<not> first'"
  proof (cases "prerequisite t")
    case False
    then show ?thesis using assms(1) that(1,2) by (auto simp: dep_token_def prerequisite_def is_target_def split: if_splits)
  next
    case True
    define s where "s = (if first then
        (if saw then st
         else xprintf (''deps_'' @ target @ '' := '' @ [CHR 0x5C, CHR 0x0A])
                (xprintf (''source_'' @ target @ '' := '' @ t @ [CHR 0x0A, CHR 0x0A]) st))
        else xprintf (''  '' @ t @ '' '' @ [CHR 0x5C, CHR 0x0A]) st)"
    have "(case read t of None \<Rightarrow> (Exit 2, saw \<or> first, False, s)
        | Some buf \<Rightarrow> (Return, saw \<or> first, False, parse_config_file (c_string buf) s)) = (Return, saw', first', st')"
      unfolding s_def using assms(1) True by (simp add: dep_token_def prerequisite_def is_target_def Let_def)
    then obtain buf where buf: "read t = Some buf" "st' = parse_config_file (c_string buf) s" "saw' = (saw \<or> first)" "\<not> first'"
      by (auto split: option.splits)
    have "lines_ok s" "set (printed st) \<subseteq> set (printed s)" "defined_options s = defined_options st"
      using ok by (auto simp: s_def)
    moreover have "\<not> (first \<and> saw) \<Longrightarrow> listed target t s" by (auto simp: s_def listed_def)
    ultimately show ?thesis using that(3)[OF True buf(1,2)] buf(3,4) by blast
  qed
  then have "lines_ok st' \<and> set (printed st) \<subseteq> set (printed st') \<and> defined_options st \<subseteq> defined_options st' \<and>
    (prerequisite t \<longrightarrow> (\<exists>buf. read t = Some buf \<and> {w. mentions None (c_string buf) w} \<subseteq> defined_options st')) \<and>
    (prerequisite t \<longrightarrow> \<not> (first \<and> saw) \<longrightarrow> listed target t st') \<and>
    (is_target t \<longrightarrow> saw' = saw \<and> first' = True) \<and>
    (\<not> is_target t \<longrightarrow> is_ignored_file t \<longrightarrow> saw' = saw \<and> first' = first) \<and>
    (prerequisite t \<longrightarrow> saw' = (saw \<or> first) \<and> first' = False)"
  proof cases
    case target
    then show ?thesis using ok by (simp add: prerequisite_def)
  next
    case ignored
    then show ?thesis using ok by (simp add: prerequisite_def)
  next
    case (dep buf s)
    note p = parse_config_file_ok[OF dep(4), of "c_string buf"]
    have "listed target t st'" if "\<not> (first \<and> saw)"
      using dep(7)[OF that] p(2) dep(3) by (auto simp: listed_def)
    then show ?thesis
      using p dep(1-6,8,9) by (auto simp: prerequisite_def)
  qed
  then show "lines_ok st'" "set (printed st) \<subseteq> set (printed st')" "defined_options st \<subseteq> defined_options st'"
    "prerequisite t \<Longrightarrow> \<exists>buf. read t = Some buf \<and> {w. mentions None (c_string buf) w} \<subseteq> defined_options st'"
    "prerequisite t \<Longrightarrow> \<not> (first \<and> saw) \<Longrightarrow> listed target t st'"
    "is_target t \<Longrightarrow> saw' = saw \<and> first' = True"
    "\<not> is_target t \<Longrightarrow> is_ignored_file t \<Longrightarrow> saw' = saw \<and> first' = first"
    "prerequisite t \<Longrightarrow> saw' = (saw \<or> first) \<and> first' = False"
    by blast+
qed

lemma listed_mono: "listed target t st \<Longrightarrow> set (printed st) \<subseteq> set (printed st') \<Longrightarrow> listed target t st'"
  by (auto simp: listed_def)

definition targets_left :: "string list \<Rightarrow> bool \<Rightarrow> bool \<Rightarrow> nat" where
  "targets_left ts saw first = length (filter is_target ts) + (if first then 1 else 0) + (if saw then 1 else 0)"

lemma run_tokens_result:
  "run_tokens read target ts (saw, first, st) = (Return, saw', first', st') \<Longrightarrow> lines_ok st \<Longrightarrow>
     lines_ok st' \<and> set (printed st) \<subseteq> set (printed st') \<and> defined_options st \<subseteq> defined_options st' \<and>
     (\<forall>t \<in> set ts. prerequisite t \<longrightarrow>
        (\<exists>buf. read t = Some buf \<and> {w. mentions None (c_string buf) w} \<subseteq> defined_options st') \<and>
        (targets_left ts saw first \<le> 1 \<longrightarrow> listed target t st'))"
proof (induction ts arbitrary: saw first st)
  case (Cons t ts)
  obtain f1 s1 fi1 st1 where r: "dep_token read target t (saw, first, st) = (f1, s1, fi1, st1)"
    by (metis prod_cases4)
  then have "f1 = Return" using Cons.prems(1) by (cases f1) (auto simp: Let_def)
  note tok = token_result[OF r[unfolded this] Cons.prems(2)]
  have rest: "run_tokens read target ts (s1, fi1, st1) = (Return, saw', first', st')"
    using Cons.prems(1) r \<open>f1 = Return\<close> by (simp add: Let_def)
  note IH = Cons.IH[OF rest tok(1)]
  have left: "targets_left ts s1 fi1 \<le> 1" if "targets_left (t # ts) saw first \<le> 1"
    using that tok(6-8) by (cases "is_target t"; cases "is_ignored_file t") (auto simp: targets_left_def prerequisite_def split: if_splits)
  have t: "\<exists>buf. read t = Some buf \<and> {w. mentions None (c_string buf) w} \<subseteq> defined_options st'" if "prerequisite t"
    using tok(4)[OF that] IH by blast
  have l: "listed target t st'" if "prerequisite t" "targets_left (t # ts) saw first \<le> 1"
  proof -
    have "\<not> (first \<and> saw)" using that(2) by (auto simp: targets_left_def split: if_splits)
    then show ?thesis using tok(5)[OF that(1)] IH listed_mono by blast
  qed
  show ?case using IH t l left tok(2,3) by auto
qed simp

text \<open>
  C40.
  A run of \<open>fixdep\<close> that ends with status 0 misses no rebuild: every prerequisite of the
  dependency file, \<open>autoconf.h\<close> and \<open>autoksyms.h\<close> apart, was read, a dependency line was
  printed for each option that it mentions, and, when the file describes one target, the
  prerequisite itself was printed as the source or a dependency.
\<close>
theorem fixdep_misses_no_rebuild:
  assumes "fixdep_main read [prog, depfile, target, cmdline] = (Return, st)"
  shows "\<exists>buf. read depfile = Some buf \<and>
     (\<forall>t \<in> set (dep_tokens (c_string buf)). prerequisite t \<longrightarrow>
        (\<exists>content. read t = Some content \<and>
           (\<forall>w. mentions None (c_string content) w \<longrightarrow> option_line w \<in> set (printed st))) \<and>
        (length (filter is_target (dep_tokens (c_string buf))) \<le> 1 \<longrightarrow> listed target t st))"
proof -
  define st0 where "st0 = xprintf (''cmd_'' @ target @ '' := '' @ cmdline @ [CHR 0x0A, CHR 0x0A]) fixdep_start"
  have ok: "lines_ok st0" using start_table_ok by (simp add: st0_def lines_ok_def)
  obtain buf where buf: "read depfile = Some buf" "parse_dep_file read (c_string buf) target st0 = (Return, st)"
    using assms by (auto simp: fixdep_main_def st0_def Let_def split: option.splits)
  obtain f saw first st1 where r: "run_tokens read target (dep_tokens (c_string buf)) (False, False, st0) = (f, saw, first, st1)"
    by (metis prod_cases4)
  then have f: "f = Return" and st: "set (printed st1) \<subseteq> set (printed st)"
    using buf(2) by (cases f; cases saw; auto simp: parse_dep_file_def dep_loop_tokens)+
  note run = r[unfolded f]
  note res = run_tokens_result[OF run ok]
  have "\<exists>content. read t = Some content \<and>
      (\<forall>w. mentions None (c_string content) w \<longrightarrow> option_line w \<in> set (printed st))"
    if "t \<in> set (dep_tokens (c_string buf))" "prerequisite t" for t
    using res that st by (fastforce simp: lines_ok_def)
  moreover have "listed target t st"
    if "t \<in> set (dep_tokens (c_string buf))" "prerequisite t" "length (filter is_target (dep_tokens (c_string buf))) \<le> 1" for t
    using res that listed_mono[OF _ st] by (auto simp: targets_left_def)
  ultimately show ?thesis using buf(1) by blast
qed

text \<open>A prerequisite directly follows a target, up to ignored files.\<close>

fun has_source :: "bool \<Rightarrow> string list \<Rightarrow> bool" where
  "has_source first [] \<longleftrightarrow> False"
| "has_source first (t # ts) \<longleftrightarrow>
     (if is_target t then has_source True ts
      else if is_ignored_file t then has_source first ts
      else first \<or> has_source False ts)"

definition unreadable :: "(string \<Rightarrow> string option) \<Rightarrow> string list \<Rightarrow> bool" where
  "unreadable read ts \<longleftrightarrow> (\<exists>t \<in> set ts. prerequisite t \<and> read t = None)"

lemma token_status:
  "\<exists>st'. dep_token read target t (saw, first, st) =
     (if is_target t then (Return, saw, True, st')
      else if is_ignored_file t then (Return, saw, first, st')
      else (if read t = None then Exit 2 else Return, saw \<or> first, False, st'))"
  by (auto simp: dep_token_def is_target_def Let_def split: option.splits)

lemma run_tokens_status:
  "\<exists>saw' first' st'. run_tokens read target ts (saw, first, st) =
     (if unreadable read ts then Exit 2 else Return, saw', first', st') \<and>
     (\<not> unreadable read ts \<longrightarrow> saw' = (saw \<or> has_source first ts))"
proof (induction ts arbitrary: saw first st)
  case Nil
  then show ?case by (simp add: unreadable_def)
next
  case (Cons t ts)
  obtain st' where r: "dep_token read target t (saw, first, st) =
     (if is_target t then (Return, saw, True, st')
      else if is_ignored_file t then (Return, saw, first, st')
      else (if read t = None then Exit 2 else Return, saw \<or> first, False, st'))"
    using token_status by blast
  have u: "unreadable read (t # ts) \<longleftrightarrow> (prerequisite t \<and> read t = None) \<or> unreadable read ts"
    by (auto simp: unreadable_def)
  show ?case
    using Cons.IH[of saw True st'] Cons.IH[of saw first st'] Cons.IH[of "saw \<or> first" False st'] r u
    by (cases "is_target t"; cases "is_ignored_file t"; cases "read t = None") (auto simp: prerequisite_def Let_def)
qed

lemma main_status:
  "fst (fixdep_main read argv) =
     (if length argv \<noteq> 4 then Exit 1
      else case read (argv ! 1) of
             None \<Rightarrow> Exit 2
           | Some buf \<Rightarrow>
               if unreadable read (dep_tokens (c_string buf)) then Exit 2
               else if has_source False (dep_tokens (c_string buf)) then Return else Exit 1)"
proof (cases "length argv = 4")
  case True
  then obtain prog depfile target cmdline where argv: "argv = [prog, depfile, target, cmdline]"
    by (auto simp: numeral_eq_Suc length_Suc_conv)
  define st0 where "st0 = xprintf (''cmd_'' @ target @ '' := '' @ cmdline @ [CHR 0x0A, CHR 0x0A]) fixdep_start"
  show ?thesis
  proof (cases "read depfile")
    case None
    then show ?thesis by (simp add: argv fixdep_main_def)
  next
    case (Some buf)
    obtain saw first st where
      "run_tokens read target (dep_tokens (c_string buf)) (False, False, st0) =
         (if unreadable read (dep_tokens (c_string buf)) then Exit 2 else Return, saw, first, st)"
      "\<not> unreadable read (dep_tokens (c_string buf)) \<longrightarrow> saw = has_source False (dep_tokens (c_string buf))"
      using run_tokens_status[of read target "dep_tokens (c_string buf)" False False st0] by auto
    then show ?thesis
      using Some by (auto simp: argv fixdep_main_def parse_dep_file_def dep_loop_tokens st0_def Let_def)
  qed
next
  case False
  then show ?thesis
    by (auto simp: fixdep_main_def split: list.splits)
qed

text \<open>
  The exit status of \<open>fixdep\<close>: 1 for a wrong number of arguments, 2 when the dependency file or
  a prerequisite cannot be read, 1 when no prerequisite directly follows a target, and 0
  otherwise.
\<close>
theorem fixdep_exit_status:
  "fst (fixdep_main read argv) =
     (if length argv \<noteq> 4 then Exit 1
      else case read (argv ! 1) of
             None \<Rightarrow> Exit 2
           | Some buf \<Rightarrow>
               if unreadable read (dep_tokens (c_string buf)) then Exit 2
               else if has_source False (dep_tokens (c_string buf)) then Return else Exit 1)"
  by (rule main_status)

definition example_files :: "string \<Rightarrow> string option" where
  "example_files f =
     (if f = ''k.d'' then Some ''k.o: k.c k.h sw/include/generated/autoconf.h''
      else if f = ''k.c'' then Some ''#ifdef CONFIG_HM''
      else if f = ''k.h'' then Some ''MY_CONFIG_X CONFIG_GPU_NUM_CORES''
      else None)"

lemma example_fixdep_run: "fst (fixdep_main example_files [''fixdep'', ''k.d'', ''k.o'', ''cc'']) = Return"
proof -
  have "dep_tokens (c_string ''k.o: k.c k.h sw/include/generated/autoconf.h'') =
      [''k.o:'', ''k.c'', ''k.h'', ''sw/include/generated/autoconf.h'']"
    by code_simp
  moreover have "has_source False [''k.o:'', ''k.c'', ''k.h'', ''sw/include/generated/autoconf.h'']"
    "\<not> unreadable example_files [''k.o:'', ''k.c'', ''k.h'', ''sw/include/generated/autoconf.h'']"
    by code_simp+
  ultimately show ?thesis unfolding main_status by (simp add: example_files_def)
qed

lemma fixdep_misses_no_rebuild_witness:
  "fst (fixdep_main example_files [''fixdep'', ''k.d'', ''k.o'', ''cc'']) = Return \<and>
   (\<exists>buf. example_files ''k.d'' = Some buf \<and>
     (\<forall>t \<in> set (dep_tokens (c_string buf)). prerequisite t \<longrightarrow>
        (\<exists>content. example_files t = Some content \<and>
           (\<forall>w. mentions None (c_string content) w \<longrightarrow>
              option_line w \<in> set (printed (snd (fixdep_main example_files [''fixdep'', ''k.d'', ''k.o'', ''cc'']))))) \<and>
        (length (filter is_target (dep_tokens (c_string buf))) \<le> 1 \<longrightarrow>
           listed ''k.o'' t (snd (fixdep_main example_files [''fixdep'', ''k.d'', ''k.o'', ''cc''])))))"
proof -
  have run: "fst (fixdep_main example_files [''fixdep'', ''k.d'', ''k.o'', ''cc'']) = Return"
    using example_fixdep_run by simp
  then have "fixdep_main example_files [''fixdep'', ''k.d'', ''k.o'', ''cc''] =
      (Return, snd (fixdep_main example_files [''fixdep'', ''k.d'', ''k.o'', ''cc'']))"
    by (simp add: prod_eq_iff)
  from conjI[OF run fixdep_misses_no_rebuild[OF this]] show ?thesis .
qed

end
