(* ===== verification/Ksymbol.thy ===== *)
theory Ksymbol
  imports Kvalue
begin

text \<open>
  Symbols and their values (\<open>tools/kconfig/symbol.c\<close>, with \<open>set_all_choice_values\<close> and the
  change counter of \<open>confdata.c\<close>).

  The functions that compute values call each other through \<open>sym_calc_value\<close>. Each takes it as
  the argument \<open>calc\<close>; \<open>sym_calc_value\<close> itself is \<open>calc_step\<close> applied to itself, cut off at a
  recursion depth (its first argument). \<open>None\<close> is a result that the code does not deliver: a null
  pointer is read, or the depth is used up; \<open>Kdepth\<close> proves which depth is never used up.
  \<open>addr s w\<close> tells whether the string of a symbol was found at another address than before
  (\<open>sym_calc_value\<close> compares pointers); it is a parameter, as \<open>malloc\<close> decides it.
\<close>

type_synonym address_changed = "sym \<Rightarrow> kworld \<Rightarrow> bool"

fun each :: "('a \<Rightarrow> 'w \<Rightarrow> 'w option) \<Rightarrow> 'a list \<Rightarrow> 'w \<Rightarrow> 'w option" where
  "each f [] w = Some w"
| "each f (x # xs) w = do { w \<leftarrow> f x w; each f xs w }"

definition update_if :: "bool \<Rightarrow> ('w \<Rightarrow> 'w) \<Rightarrow> 'w \<Rightarrow> 'w" where
  "update_if b f w = (if b then f w else w)"

subsection \<open>Types and properties\<close>

definition sym_get_type :: "sym \<Rightarrow> kworld \<Rightarrow> symbol_type" where
  "sym_get_type s w =
     (if sym_type (syms w s) = S_TRISTATE then
        (if sym_is_choice_value s w \<and> sym_visible (syms w s) = T_yes then S_BOOLEAN
         else if modules_val w = T_no then S_BOOLEAN
         else S_TRISTATE)
      else sym_type (syms w s))"

fun sym_type_name :: "symbol_type \<Rightarrow> string" where
  "sym_type_name S_BOOLEAN = ''bool''"
| "sym_type_name S_TRISTATE = ''tristate''"
| "sym_type_name S_INT = ''integer''"
| "sym_type_name S_HEX = ''hex''"
| "sym_type_name S_STRING = ''string''"
| "sym_type_name S_UNKNOWN = ''unknown''"

fun prop_get_type_name :: "prop_type \<Rightarrow> string" where
  "prop_get_type_name P_PROMPT = ''prompt''"
| "prop_get_type_name P_COMMENT = ''comment''"
| "prop_get_type_name P_MENU = ''menu''"
| "prop_get_type_name P_DEFAULT = ''default''"
| "prop_get_type_name P_CHOICE = ''choice''"
| "prop_get_type_name P_SELECT = ''select''"
| "prop_get_type_name P_IMPLY = ''imply''"
| "prop_get_type_name P_RANGE = ''range''"
| "prop_get_type_name P_SYMBOL = ''symbol''"
| "prop_get_type_name P_UNKNOWN = ''unknown''"

definition sym_get_choice_prop :: "sym \<Rightarrow> kworld \<Rightarrow> property option" where
  "sym_get_choice_prop s w = find (\<lambda>p. prop_type p = P_CHOICE) (props (syms w s))"

text \<open>
  The symbol of a property: the choice of a choice value, the symbol of a plain default. (For
  a list the code would read the link to the next member as a symbol; no caller does.)
\<close>

definition prop_get_symbol :: "property \<Rightarrow> sym option" where
  "prop_get_symbol p = (case prop_expr p of Some (E_SYMBOL s) \<Rightarrow> Some s | _ \<Rightarrow> None)"

text \<open>The choice that a value belongs to, and the values of a choice.\<close>

definition choice_of :: "sym \<Rightarrow> kworld \<Rightarrow> sym option" where
  "choice_of s w = do { p \<leftarrow> sym_get_choice_prop s w; prop_get_symbol p }"

fun list_members :: "expr option \<Rightarrow> sym list" where
  "list_members (Some (E_LIST ss)) = ss"
| "list_members e = []"

definition choice_values :: "sym \<Rightarrow> kworld \<Rightarrow> sym list option" where
  "choice_values s w = do { p \<leftarrow> sym_get_choice_prop s w; Some (list_members (prop_expr p)) }"

definition prop_at :: "sym \<Rightarrow> nat \<Rightarrow> kworld \<Rightarrow> property" where
  "prop_at s i w = props (syms w s) ! i"

definition prop_indices :: "(property \<Rightarrow> bool) \<Rightarrow> sym \<Rightarrow> kworld \<Rightarrow> nat list" where
  "prop_indices P s w = filter (\<lambda>i. P (prop_at s i w)) [0..<length (props (syms w s))]"

definition set_visible_tri :: "sym \<Rightarrow> nat \<Rightarrow> tristate \<Rightarrow> kworld \<Rightarrow> kworld" where
  "set_visible_tri s i t w =
     upd_sym s (\<lambda>x. x\<lparr>props := (props x)[i := (props x ! i)\<lparr>prop_visible :=
       (prop_visible (props x ! i))\<lparr>dep_tri := t\<rparr>\<rparr>]\<rparr>) w"

text \<open>\<open>prop->visible.tri = expr_calc_value(prop->visible.expr)\<close>.\<close>

definition calc_visible :: "calc \<Rightarrow> sym \<Rightarrow> nat \<Rightarrow> kworld \<Rightarrow> (tristate \<times> kworld) option" where
  "calc_visible calc s i w = do {
     (t, w) \<leftarrow> expr_value_of calc (dep_expr (prop_visible (prop_at s i w))) w;
     Some (t, set_visible_tri s i t w) }"

fun first_visible :: "calc \<Rightarrow> sym \<Rightarrow> nat list \<Rightarrow> kworld \<Rightarrow> (nat option \<times> kworld) option" where
  "first_visible calc s [] w = Some (None, w)"
| "first_visible calc s (i # is) w = do {
     (t, w) \<leftarrow> calc_visible calc s i w;
     if t \<noteq> T_no then Some (Some i, w) else first_visible calc s is w }"

definition sym_get_default_prop :: "calc \<Rightarrow> sym \<Rightarrow> kworld \<Rightarrow> (nat option \<times> kworld) option" where
  "sym_get_default_prop calc s w = first_visible calc s (prop_indices (\<lambda>p. prop_type p = P_DEFAULT) s w) w"

definition sym_get_range_prop :: "calc \<Rightarrow> sym \<Rightarrow> kworld \<Rightarrow> (nat option \<times> kworld) option" where
  "sym_get_range_prop calc s w = first_visible calc s (prop_indices (\<lambda>p. prop_type p = P_RANGE) s w) w"

subsection \<open>Ranges\<close>

definition type_base :: "symbol_type \<Rightarrow> nat \<Rightarrow> nat" where
  "type_base ty base = (if ty = S_INT then 10 else if ty = S_HEX then 16 else base)"

definition sym_get_range_val :: "calc \<Rightarrow> sym \<Rightarrow> nat \<Rightarrow> kworld \<Rightarrow> (int \<times> kworld) option" where
  "sym_get_range_val calc s base w = do {
     w \<leftarrow> calc s w;
     str \<leftarrow> as_string (val (curr (syms w s)));
     Some (fst (strtoll (type_base (sym_type (syms w s)) base) str), w) }"

definition range_bounds :: "property \<Rightarrow> (sym \<times> sym) option" where
  "range_bounds p = (case prop_expr p of Some (E_RANGE l r) \<Rightarrow> Some (l, r) | _ \<Rightarrow> None)"

definition set_curr_val :: "sym_val \<Rightarrow> symbol \<Rightarrow> symbol" where
  "set_curr_val v x = x\<lparr>curr := (curr x)\<lparr>val := v\<rparr>\<rparr>"

definition set_curr_tri :: "tristate \<Rightarrow> symbol \<Rightarrow> symbol" where
  "set_curr_tri t x = x\<lparr>curr := (curr x)\<lparr>tri := t\<rparr>\<rparr>"

text \<open>A number outside of the range becomes the bound that it violates.\<close>

definition put_bound :: "sym \<Rightarrow> int \<Rightarrow> kworld \<Rightarrow> kworld" where
  "put_bound s bound w =
     upd_sym s (set_curr_val (Str (if sym_type (syms w s) = S_INT then decimal_text bound else hex_text bound))) w"

definition clamp_number :: "calc \<Rightarrow> sym \<Rightarrow> nat \<Rightarrow> nat \<Rightarrow> kworld \<Rightarrow> kworld option" where
  "clamp_number calc s base i w = do {
     str \<leftarrow> as_string (val (curr (syms w s)));
     (l, r) \<leftarrow> range_bounds (prop_at s i w);
     let v = fst (strtoll base str);
     (low, w) \<leftarrow> sym_get_range_val calc l base w;
     if \<not> low \<le> v then Some (put_bound s low w)
     else do {
       (high, w) \<leftarrow> sym_get_range_val calc r base w;
       Some (if v \<le> high then w else put_bound s high w) } }"

definition sym_validate_range :: "calc \<Rightarrow> sym \<Rightarrow> kworld \<Rightarrow> kworld option" where
  "sym_validate_range calc s w =
     (if sym_type (syms w s) \<noteq> S_INT \<and> sym_type (syms w s) \<noteq> S_HEX then Some w
      else do {
        (i, w') \<leftarrow> sym_get_range_prop calc s w;
        case i of
          None \<Rightarrow> Some w'
        | Some i \<Rightarrow> clamp_number calc s (type_base (sym_type (syms w s)) 0) i w' })"

subsection \<open>Changes\<close>

definition SYMBOL_HASHSIZE :: nat where
  "SYMBOL_HASHSIZE = 9973"

definition all_symbols :: "kworld \<Rightarrow> sym list" where
  "all_symbols w = concat (map (symbol_hash w) [0..<SYMBOL_HASHSIZE])"

definition sym_set_changed :: "sym \<Rightarrow> kworld \<Rightarrow> kworld" where
  "sym_set_changed s w =
     upd_sym s (set_flag SYMBOL_CHANGED)
       (w\<lparr>menu_changed := menu_changed w \<union> set (List.map_filter prop_menu (props (syms w s)))\<rparr>)"

definition sym_set_all_changed :: "kworld \<Rightarrow> kworld" where
  "sym_set_all_changed w = fold sym_set_changed (all_symbols w) w"

text \<open>The callback that announces a change belongs to the front end.\<close>

definition sym_set_change_count :: "int \<Rightarrow> kworld \<Rightarrow> kworld" where
  "sym_set_change_count count w = w\<lparr>sym_change_count := count\<rparr>"

definition sym_add_change_count :: "int \<Rightarrow> kworld \<Rightarrow> kworld" where
  "sym_add_change_count count w = sym_set_change_count (count + sym_change_count w) w"

definition conf_get_changed :: "kworld \<Rightarrow> bool" where
  "conf_get_changed w \<longleftrightarrow> sym_change_count w \<noteq> 0"

subsection \<open>Visibility\<close>

definition max_tri :: "sym \<Rightarrow> tristate \<Rightarrow> kworld \<Rightarrow> tristate" where
  "max_tri s t w = (if t = T_mod \<and> sym_get_type s w = S_BOOLEAN then T_yes else t)"

text \<open>The visibility of the prompts, the largest of them.\<close>

fun prompts_visible :: "calc \<Rightarrow> sym \<Rightarrow> sym option \<Rightarrow> nat list \<Rightarrow> tristate \<Rightarrow> kworld \<Rightarrow> (tristate \<times> kworld) option" where
  "prompts_visible calc s choice_sym [] t w = Some (t, w)"
| "prompts_visible calc s choice_sym (i # is) t w = do {
     (v, w) \<leftarrow> calc_visible calc s i w;
     let hidden = (case choice_sym of
                     Some cs \<Rightarrow> sym_type (syms w s) = S_TRISTATE \<and> v = T_mod \<and> tri (curr (syms w cs)) = T_yes
                   | None \<Rightarrow> False);
     let w = (if hidden then set_visible_tri s i T_no w else w);
     prompts_visible calc s choice_sym is (EXPR_OR t (if hidden then T_no else v)) w }"

text \<open>A dependency, as one of the three fields of the symbol: its value is stored when it changed.\<close>

definition set_dep ::
  "(symbol \<Rightarrow> expr_val) \<Rightarrow> ((expr_val \<Rightarrow> expr_val) \<Rightarrow> symbol \<Rightarrow> symbol) \<Rightarrow> sym \<Rightarrow> tristate \<Rightarrow> kworld \<Rightarrow> kworld" where
  "set_dep get upd s t w =
     (if dep_tri (get (syms w s)) \<noteq> t
      then sym_set_changed s (upd_sym s (upd (\<lambda>d. d\<lparr>dep_tri := t\<rparr>)) w)
      else w)"

definition calc_dep ::
  "calc \<Rightarrow> tristate \<Rightarrow> (symbol \<Rightarrow> expr_val) \<Rightarrow> ((expr_val \<Rightarrow> expr_val) \<Rightarrow> symbol \<Rightarrow> symbol) \<Rightarrow> sym \<Rightarrow> kworld \<Rightarrow> kworld option" where
  "calc_dep calc dflt get upd s w = do {
     (t, w) \<leftarrow> (case dep_expr (get (syms w s)) of None \<Rightarrow> Some (dflt, w) | Some e \<Rightarrow> expr_calc_value calc e w);
     Some (set_dep get upd s (max_tri s t w) w) }"

definition set_visible :: "sym \<Rightarrow> tristate \<Rightarrow> kworld \<Rightarrow> kworld" where
  "set_visible s t w =
     (if sym_visible (syms w s) \<noteq> t
      then sym_set_changed s (upd_sym s (\<lambda>x. x\<lparr>sym_visible := t\<rparr>) w)
      else w)"

definition calc_deps :: "calc \<Rightarrow> sym \<Rightarrow> kworld \<Rightarrow> kworld option" where
  "calc_deps calc s w = do {
     w \<leftarrow> calc_dep calc T_yes dir_dep dir_dep_update s w;
     w \<leftarrow> calc_dep calc T_no rev_dep rev_dep_update s w;
     calc_dep calc T_no implied implied_update s w }"

definition choice_symbol :: "sym \<Rightarrow> kworld \<Rightarrow> sym option option" where
  "choice_symbol s w =
     (if sym_is_choice_value s w then do { p \<leftarrow> sym_get_choice_prop s w; Some (prop_get_symbol p) }
      else Some None)"

definition full_visibility :: "sym \<Rightarrow> tristate \<Rightarrow> kworld \<Rightarrow> tristate" where
  "full_visibility s t w =
     (if t = T_mod \<and> (sym_type (syms w s) \<noteq> S_TRISTATE \<or> modules_val w = T_no) then T_yes else t)"

definition sym_calc_visibility :: "calc \<Rightarrow> sym \<Rightarrow> kworld \<Rightarrow> kworld option" where
  "sym_calc_visibility calc s w = do {
     choice_sym \<leftarrow> choice_symbol s w;
     (t, w) \<leftarrow> prompts_visible calc s choice_sym (prop_indices (\<lambda>p. prop_text p \<noteq> None) s w) T_no w;
     let w = set_visible s (full_visibility s t w) w;
     if sym_is_choice_value s w then Some w else calc_deps calc s w }"

subsection \<open>Choices\<close>

fun visible_default :: "calc \<Rightarrow> sym \<Rightarrow> nat list \<Rightarrow> kworld \<Rightarrow> (sym option \<times> kworld) option" where
  "visible_default calc s [] w = Some (None, w)"
| "visible_default calc s (i # is) w = do {
     (t, w) \<leftarrow> calc_visible calc s i w;
     if t = T_no then visible_default calc s is w
     else do {
       d \<leftarrow> prop_get_symbol (prop_at s i w);
       if sym_visible (syms w d) \<noteq> T_no then Some (Some d, w) else visible_default calc s is w } }"

definition sym_choice_default :: "calc \<Rightarrow> sym \<Rightarrow> kworld \<Rightarrow> (sym option \<times> kworld) option" where
  "sym_choice_default calc s w = do {
     (d, w) \<leftarrow> visible_default calc s (prop_indices (\<lambda>p. prop_type p = P_DEFAULT) s w) w;
     case d of
       Some d \<Rightarrow> Some (Some d, w)
     | None \<Rightarrow> do {
         vs \<leftarrow> choice_values s w;
         Some (find (\<lambda>v. sym_visible (syms w v) \<noteq> T_no) vs, w) } }"

text \<open>The visibility of every value; whether all the visible ones have a user value.\<close>

fun values_visible :: "calc \<Rightarrow> sym list \<Rightarrow> bool \<Rightarrow> kworld \<Rightarrow> (bool \<times> kworld) option" where
  "values_visible calc [] user w = Some (user, w)"
| "values_visible calc (v # vs) user w = do {
     w \<leftarrow> sym_calc_visibility calc v w;
     values_visible calc vs
       (if sym_visible (syms w v) \<noteq> T_no then user \<and> has_flag SYMBOL_DEF_USER v w else user) w }"

fun as_symbol :: "sym_val \<Rightarrow> sym option option" where
  "as_symbol Null = Some None"
| "as_symbol (Ref s) = Some (Some s)"
| "as_symbol (Str s) = None"

definition choose_default :: "calc \<Rightarrow> sym \<Rightarrow> kworld \<Rightarrow> (sym option \<times> kworld) option" where
  "choose_default calc s w = do {
     (d, w) \<leftarrow> sym_choice_default calc s w;
     Some (d, if d = None then upd_sym s (set_curr_tri T_no) w else w) }"

definition user_choice :: "calc \<Rightarrow> sym \<Rightarrow> sym option \<Rightarrow> kworld \<Rightarrow> (sym option \<times> kworld) option" where
  "user_choice calc s d w =
     (case d of
        Some v \<Rightarrow> if sym_visible (syms w v) \<noteq> T_no then Some (Some v, w) else choose_default calc s w
      | None \<Rightarrow> choose_default calc s w)"

definition sym_calc_choice :: "calc \<Rightarrow> sym \<Rightarrow> kworld \<Rightarrow> (sym option \<times> kworld) option" where
  "sym_calc_choice calc s w = do {
     vs \<leftarrow> choice_values s w;
     (user, w) \<leftarrow> values_visible calc vs (has_flag SYMBOL_DEF_USER s w) w;
     let w = update_if (\<not> user) (upd_sym s (clear_flag SYMBOL_DEF_USER)) w;
     d \<leftarrow> as_symbol (val (sym_def (syms w s) S_DEF_USER));
     user_choice calc s d w }"

definition ref_of :: "sym option \<Rightarrow> sym_val" where
  "ref_of d = (case d of None \<Rightarrow> Null | Some s \<Rightarrow> Ref s)"

text \<open>\<open>set_all_choice_values\<close> (\<open>confdata.c\<close>).\<close>

definition set_all_choice_values :: "sym \<Rightarrow> kworld \<Rightarrow> kworld option" where
  "set_all_choice_values s w = do {
     vs \<leftarrow> choice_values s w;
     let w = fold (\<lambda>v w. if sym_has_value v w then w
                         else upd_sym v (\<lambda>x. x\<lparr>sym_def := (sym_def x)(S_DEF_USER := (sym_def x S_DEF_USER)\<lparr>tri := T_no\<rparr>)\<rparr>) w)
               vs w;
     Some (upd_sym s (\<lambda>x. x\<lparr>flags := insert SYMBOL_DEF_USER (flags x) - {SYMBOL_VALID, SYMBOL_NEED_SET_CHOICE_VALUES}\<rparr>) w) }"

subsection \<open>Values\<close>

definition sym_warn_unmet_dep :: "calc \<Rightarrow> sym \<Rightarrow> kworld \<Rightarrow> kworld option" where
  "sym_warn_unmet_dep calc s w = do {
     let name = (case sym_name (syms w s) of Some n \<Rightarrow> n | None \<Rightarrow> ''(null)'');
     let gs = str_printf str_new
                ([CHR 0x0A] @ ''WARNING: unmet direct dependencies detected for '' @ name @ [CHR 0x0A]);
     let gs = str_printf gs (''  Depends on ['' @
                (if dep_tri (dir_dep (syms w s)) = T_mod then ''m'' else ''n'') @ '']: '');
     (gs, w) \<leftarrow> expr_gstr_print calc (dep_expr (dir_dep (syms w s))) (gs, w);
     let gs = str_printf gs [CHR 0x0A];
     rev \<leftarrow> dep_expr (rev_dep (syms w s));
     (gs, w) \<leftarrow> expr_gstr_print_revdep calc rev T_yes (''  Selected by [y]:'' @ [CHR 0x0A]) (gs, w);
     rev \<leftarrow> dep_expr (rev_dep (syms w s));
     (gs, w) \<leftarrow> expr_gstr_print_revdep calc rev T_mod (''  Selected by [m]:'' @ [CHR 0x0A]) (gs, w);
     Some (w\<lparr>messages := messages w @ [str_get gs]\<rparr>) }"

text \<open>The label \<open>calc_newval\<close>.\<close>

definition calc_newval :: "calc \<Rightarrow> sym \<Rightarrow> tristate \<Rightarrow> kworld \<Rightarrow> (tristate \<times> kworld) option" where
  "calc_newval calc s t w = do {
     w \<leftarrow> (if dep_tri (dir_dep (syms w s)) < dep_tri (rev_dep (syms w s))
           then sym_warn_unmet_dep calc s w else Some w);
     Some (EXPR_OR t (dep_tri (rev_dep (syms w s))), w) }"

text \<open>The default and the implied value of a symbol that is no choice.\<close>

definition from_default :: "calc \<Rightarrow> sym \<Rightarrow> nat option \<Rightarrow> tristate \<Rightarrow> kworld \<Rightarrow> (tristate \<times> kworld) option" where
  "from_default calc s i t w =
     (case i of
        None \<Rightarrow> Some (t, w)
      | Some i \<Rightarrow> do {
          (v, w) \<leftarrow> expr_value_of calc (prop_expr (prop_at s i w)) w;
          let v = EXPR_AND v (dep_tri (prop_visible (prop_at s i w)));
          Some (v, update_if (v \<noteq> T_no) (upd_sym s (set_flag SYMBOL_WRITE)) w) })"

definition add_implied :: "sym \<Rightarrow> tristate \<Rightarrow> kworld \<Rightarrow> tristate \<times> kworld" where
  "add_implied s t w =
     (if dep_tri (implied (syms w s)) \<noteq> T_no
      then (EXPR_AND (EXPR_OR t (dep_tri (implied (syms w s)))) (dep_tri (dir_dep (syms w s))),
            upd_sym s (set_flag SYMBOL_WRITE) w)
      else (t, w))"

definition default_tristate :: "calc \<Rightarrow> sym \<Rightarrow> tristate \<Rightarrow> kworld \<Rightarrow> (tristate \<times> kworld) option" where
  "default_tristate calc s t w = do {
     (i, w) \<leftarrow> sym_get_default_prop calc s w;
     (t, w) \<leftarrow> from_default calc s i t w;
     Some (add_implied s t w) }"

text \<open>The value of a symbol that the user did not set.\<close>

definition automatic_tristate :: "calc \<Rightarrow> sym \<Rightarrow> tristate \<Rightarrow> kworld \<Rightarrow> (tristate \<times> kworld) option" where
  "automatic_tristate calc s t w = do {
     let w = update_if (dep_tri (rev_dep (syms w s)) \<noteq> T_no) (upd_sym s (set_flag SYMBOL_WRITE)) w;
     (t, w) \<leftarrow> (if sym_is_choice s w then Some (t, w) else default_tristate calc s t w);
     calc_newval calc s t w }"

definition calc_tristate :: "calc \<Rightarrow> sym \<Rightarrow> tristate \<Rightarrow> kworld \<Rightarrow> (tristate \<times> kworld) option" where
  "calc_tristate calc s t w =
     (if sym_is_choice_value s w \<and> sym_visible (syms w s) = T_yes then do {
        cs \<leftarrow> choice_of s w;
        Some (of_bool3 (val (curr (syms w cs)) = Ref s), w) }
      else if sym_visible (syms w s) \<noteq> T_no \<and> sym_has_value s w then
        calc_newval calc s (EXPR_AND (tri (sym_def (syms w s) S_DEF_USER)) (sym_visible (syms w s))) w
      else automatic_tristate calc s t w)"

definition default_string :: "calc \<Rightarrow> sym \<Rightarrow> property \<Rightarrow> sym_val \<Rightarrow> kworld \<Rightarrow> (sym_val \<times> kworld) option" where
  "default_string calc s p v w =
     (case prop_get_symbol p of
        None \<Rightarrow> Some (v, w)
      | Some ds \<Rightarrow> do {
          w \<leftarrow> calc ds (upd_sym s (set_flag SYMBOL_WRITE) w);
          Some (val (curr (syms w ds)), w) })"

definition calc_string :: "calc \<Rightarrow> sym \<Rightarrow> sym_val \<Rightarrow> kworld \<Rightarrow> (sym_val \<times> kworld) option" where
  "calc_string calc s v w =
     (if sym_visible (syms w s) \<noteq> T_no \<and> sym_has_value s w then Some (val (sym_def (syms w s) S_DEF_USER), w)
      else do {
        (i, w) \<leftarrow> sym_get_default_prop calc s w;
        case i of
          None \<Rightarrow> Some (v, w)
        | Some i \<Rightarrow> default_string calc s (prop_at s i w) v w })"

text \<open>The \<open>switch\<close> on the effective type.\<close>

definition calc_switch :: "calc \<Rightarrow> sym \<Rightarrow> symbol_value \<Rightarrow> kworld \<Rightarrow> (symbol_value \<times> kworld) option" where
  "calc_switch calc s newval w =
     (if sym_get_type s w = S_BOOLEAN \<or> sym_get_type s w = S_TRISTATE then do {
        (t, w) \<leftarrow> calc_tristate calc s (tri newval) w;
        Some (newval\<lparr>tri := max_tri s t w\<rparr>, w) }
      else if sym_get_type s w = S_UNKNOWN then Some (newval, w)
      else do {
        (v, w) \<leftarrow> calc_string calc s (val newval) w;
        Some (newval\<lparr>val := v\<rparr>, w) })"

text \<open>What follows the \<open>memcmp\<close>.\<close>

definition note_change :: "address_changed \<Rightarrow> sym \<Rightarrow> symbol_value \<Rightarrow> kworld \<Rightarrow> kworld" where
  "note_change addr s oldval w =
     (if oldval \<noteq> curr (syms w s) \<or> addr s w then
        (let w = sym_set_changed s w
         in if modules_sym w = s
            then (let w = sym_set_all_changed w in w\<lparr>modules_val := tri (curr (syms w s))\<rparr>)
            else w)
      else w)"

definition mark_value :: "sym \<Rightarrow> sym \<Rightarrow> kworld \<Rightarrow> kworld" where
  "mark_value s v w =
     (let w = update_if (has_flag SYMBOL_WRITE s w \<and> sym_visible (syms w v) \<noteq> T_no)
                (upd_sym v (set_flag SYMBOL_WRITE)) w
      in update_if (has_flag SYMBOL_CHANGED s w) (sym_set_changed v) w)"

definition mark_values :: "sym \<Rightarrow> kworld \<Rightarrow> kworld option" where
  "mark_values s w =
     (if sym_is_choice s w then do { vs \<leftarrow> choice_values s w; Some (fold (mark_value s) vs w) }
      else Some w)"

definition finish_value :: "address_changed \<Rightarrow> sym \<Rightarrow> symbol_value \<Rightarrow> kworld \<Rightarrow> kworld option" where
  "finish_value addr s oldval w = do {
     w \<leftarrow> mark_values s (note_change addr s oldval w);
     let w = update_if (has_flag SYMBOL_NO_WRITE s w) (upd_sym s (clear_flag SYMBOL_WRITE)) w;
     if has_flag SYMBOL_NEED_SET_CHOICE_VALUES s w then set_all_choice_values s w else Some w }"

text \<open>The value of a typed symbol, after \<open>SYMBOL_VALID\<close> was set.\<close>

definition start_value :: "sym \<Rightarrow> kworld \<Rightarrow> symbol_value" where
  "start_value s w =
     (if sym_type (syms w s) = S_BOOLEAN \<or> sym_type (syms w s) = S_TRISTATE
      then curr (syms w symbol_no) else curr (syms w symbol_empty))"

definition choose_value :: "calc \<Rightarrow> sym \<Rightarrow> tristate \<Rightarrow> kworld \<Rightarrow> kworld option" where
  "choose_value calc s t w =
     (if sym_is_choice s w \<and> t = T_yes
      then do { (d, w) \<leftarrow> sym_calc_choice calc s w; Some (upd_sym s (set_curr_val (ref_of d)) w) }
      else Some w)"

definition typed_value :: "address_changed \<Rightarrow> calc \<Rightarrow> sym \<Rightarrow> kworld \<Rightarrow> kworld option" where
  "typed_value addr calc s w = do {
     let oldval = curr (syms w s);
     let newval = start_value s w;
     w \<leftarrow> sym_calc_visibility calc s (upd_sym s (clear_flag SYMBOL_WRITE) w);
     let w = update_if (sym_visible (syms w s) \<noteq> T_no) (upd_sym s (set_flag SYMBOL_WRITE)) w;
     (newval, w) \<leftarrow> calc_switch calc s newval (upd_sym s (\<lambda>x. x\<lparr>curr := newval\<rparr>) w);
     w \<leftarrow> choose_value calc s (tri newval) (upd_sym s (\<lambda>x. x\<lparr>curr := newval\<rparr>) w);
     w \<leftarrow> sym_validate_range calc s w;
     finish_value addr s oldval w }"

text \<open>A choice value that waits for its choice lets the choice set its values first.\<close>

definition await_choice :: "calc \<Rightarrow> sym \<Rightarrow> kworld \<Rightarrow> kworld option" where
  "await_choice calc s w =
     (if sym_is_choice_value s w \<and> has_flag SYMBOL_NEED_SET_CHOICE_VALUES s w then do {
        p \<leftarrow> sym_get_choice_prop s w;
        let w = upd_sym s (clear_flag SYMBOL_NEED_SET_CHOICE_VALUES) w;
        case prop_get_symbol p of None \<Rightarrow> Some w | Some cs \<Rightarrow> calc cs w }
      else Some w)"

definition name_value :: "symbol \<Rightarrow> symbol" where
  "name_value x = x\<lparr>curr := \<lparr>val = (case sym_name x of Some n \<Rightarrow> Str n | None \<Rightarrow> Null), tri = T_no\<rparr>\<rparr>"

definition calc_step :: "address_changed \<Rightarrow> calc \<Rightarrow> sym \<Rightarrow> kworld \<Rightarrow> kworld option" where
  "calc_step addr calc s w =
     (if has_flag SYMBOL_VALID s w then Some w
      else do {
        w \<leftarrow> await_choice calc s w;
        let w = upd_sym s (set_flag SYMBOL_VALID) w;
        if sym_type (syms w s) = S_UNKNOWN then Some (upd_sym s name_value w)
        else typed_value addr calc s w })"

primrec sym_calc_value :: "nat \<Rightarrow> address_changed \<Rightarrow> calc" where
  "sym_calc_value 0 addr = (\<lambda>s w. None)"
| "sym_calc_value (Suc n) addr = calc_step addr (sym_calc_value n addr)"

definition sym_clear_all_valid :: "calc \<Rightarrow> kworld \<Rightarrow> kworld option" where
  "sym_clear_all_valid calc w =
     (let w = fold (\<lambda>s. upd_sym s (clear_flag SYMBOL_VALID)) (all_symbols w) w;
          w = sym_add_change_count 1 w
      in calc (modules_sym w) w)"

subsection \<open>Setting values\<close>

definition sym_tristate_within_range :: "sym \<Rightarrow> tristate \<Rightarrow> kworld \<Rightarrow> bool" where
  "sym_tristate_within_range s v w =
     (let ty = sym_get_type s w; x = syms w s
      in if sym_visible x = T_no then False
         else if ty \<noteq> S_BOOLEAN \<and> ty \<noteq> S_TRISTATE then False
         else if ty = S_BOOLEAN \<and> v = T_mod then False
         else if sym_visible x \<le> dep_tri (rev_dep x) then False
         else if sym_is_choice_value s w \<and> sym_visible x = T_yes then v = T_yes
         else dep_tri (rev_dep x) \<le> v \<and> v \<le> sym_visible x)"

definition set_def_tri :: "nat \<Rightarrow> tristate \<Rightarrow> symbol \<Rightarrow> symbol" where
  "set_def_tri d t x = x\<lparr>sym_def := (sym_def x)(d := (sym_def x d)\<lparr>tri := t\<rparr>)\<rparr>"

definition set_def_val :: "nat \<Rightarrow> sym_val \<Rightarrow> symbol \<Rightarrow> symbol" where
  "set_def_val d v x = x\<lparr>sym_def := (sym_def x)(d := (sym_def x d)\<lparr>val := v\<rparr>)\<rparr>"

definition mark_new :: "sym \<Rightarrow> kworld \<Rightarrow> kworld" where
  "mark_new s w =
     (if has_flag SYMBOL_DEF_USER s w then w
      else sym_set_changed s (upd_sym s (set_flag SYMBOL_DEF_USER) w))"

text \<open>A chosen value is also recorded in its choice, whose visible values count as set by the user.\<close>

definition record_choice :: "sym \<Rightarrow> kworld \<Rightarrow> kworld option" where
  "record_choice s w = do {
     cs \<leftarrow> choice_of s w;
     let w = upd_sym cs (set_def_val S_DEF_USER (Ref s)) w;
     let w = upd_sym cs (set_flag SYMBOL_DEF_USER) w;
     vs \<leftarrow> choice_values cs w;
     Some (fold (\<lambda>v w. update_if (sym_visible (syms w v) \<noteq> T_no) (upd_sym v (set_flag SYMBOL_DEF_USER)) w) vs w) }"

definition sym_set_tristate_value :: "calc \<Rightarrow> sym \<Rightarrow> tristate \<Rightarrow> kworld \<Rightarrow> (bool \<times> kworld) option" where
  "sym_set_tristate_value calc s v w =
     (let oldval = sym_get_tristate_value s w
      in if oldval \<noteq> v \<and> \<not> sym_tristate_within_range s v w then Some (False, w)
         else do {
           let w = mark_new s w;
           w \<leftarrow> (if sym_is_choice_value s w \<and> v = T_yes then record_choice s w else Some w);
           let w = upd_sym s (set_def_tri S_DEF_USER v) w;
           w \<leftarrow> (if oldval \<noteq> v then sym_clear_all_valid calc w else Some w);
           Some (True, w) })"

fun next_tristate :: "tristate \<Rightarrow> tristate" where
  "next_tristate T_no = T_mod"
| "next_tristate T_mod = T_yes"
| "next_tristate T_yes = T_no"

text \<open>The loop returns to the old value within three steps.\<close>

primrec toggle_loop :: "nat \<Rightarrow> calc \<Rightarrow> sym \<Rightarrow> tristate \<Rightarrow> tristate \<Rightarrow> kworld \<Rightarrow> (tristate \<times> kworld) option" where
  "toggle_loop 0 calc s oldval newval w = None"
| "toggle_loop (Suc n) calc s oldval newval w = do {
     let newval = next_tristate newval;
     (ok, w) \<leftarrow> sym_set_tristate_value calc s newval w;
     if ok \<or> oldval = newval then Some (newval, w) else toggle_loop n calc s oldval newval w }"

definition sym_toggle_tristate_value :: "calc \<Rightarrow> sym \<Rightarrow> kworld \<Rightarrow> (tristate \<times> kworld) option" where
  "sym_toggle_tristate_value calc s w =
     (let oldval = sym_get_tristate_value s w in toggle_loop 3 calc s oldval oldval w)"

definition int_text_valid :: "string \<Rightarrow> bool" where
  "int_text_valid str =
     (case (if take 1 str = ''-'' then tl str else str) of
        [] \<Rightarrow> False
      | ch # rest \<Rightarrow> is_digit ch \<and> \<not> (ch = CHR ''0'' \<and> rest \<noteq> []) \<and> list_all is_digit rest)"

definition hex_prefixed :: "string \<Rightarrow> bool" where
  "hex_prefixed str \<longleftrightarrow> take 2 str = ''0x'' \<or> take 2 str = ''0X''"

definition hex_text_valid :: "string \<Rightarrow> bool" where
  "hex_text_valid str =
     (let body = (if hex_prefixed str then drop 2 str else str)
      in body \<noteq> [] \<and> list_all is_xdigit body)"

text \<open>The first character of a boolean value.\<close>

definition tristate_of_text :: "string \<Rightarrow> tristate option" where
  "tristate_of_text str =
     (case str of
        [] \<Rightarrow> None
      | c # cs \<Rightarrow> if c = CHR ''y'' \<or> c = CHR ''Y'' then Some T_yes
                else if c = CHR ''m'' \<or> c = CHR ''M'' then Some T_mod
                else if c = CHR ''n'' \<or> c = CHR ''N'' then Some T_no
                else None)"

fun text_valid :: "symbol_type \<Rightarrow> string \<Rightarrow> bool" where
  "text_valid S_STRING str = True"
| "text_valid S_INT str = int_text_valid str"
| "text_valid S_HEX str = hex_text_valid str"
| "text_valid S_BOOLEAN str = (tristate_of_text str \<noteq> None)"
| "text_valid S_TRISTATE str = (tristate_of_text str \<noteq> None)"
| "text_valid S_UNKNOWN str = False"

definition sym_string_valid :: "sym \<Rightarrow> string \<Rightarrow> kworld \<Rightarrow> bool" where
  "sym_string_valid s str w = text_valid (sym_type (syms w s)) str"

text \<open>The upper bound is only computed when the lower one holds.\<close>

definition number_within_range :: "calc \<Rightarrow> sym \<Rightarrow> nat \<Rightarrow> string \<Rightarrow> kworld \<Rightarrow> (bool \<times> kworld) option" where
  "number_within_range calc s base str w =
     (if \<not> sym_string_valid s str w then Some (False, w)
      else do {
        (i, w) \<leftarrow> sym_get_range_prop calc s w;
        case i of
          None \<Rightarrow> Some (True, w)
        | Some i \<Rightarrow> do {
            (l, r) \<leftarrow> range_bounds (prop_at s i w);
            let v = fst (strtoll base str);
            (low, w) \<leftarrow> sym_get_range_val calc l base w;
            if \<not> low \<le> v then Some (False, w)
            else do {
              (high, w) \<leftarrow> sym_get_range_val calc r base w;
              Some (v \<le> high, w) } } })"

definition sym_string_within_range :: "calc \<Rightarrow> sym \<Rightarrow> string \<Rightarrow> kworld \<Rightarrow> (bool \<times> kworld) option" where
  "sym_string_within_range calc s str w =
     (case sym_type (syms w s) of
        S_STRING \<Rightarrow> Some (sym_string_valid s str w, w)
      | S_INT \<Rightarrow> number_within_range calc s 10 str w
      | S_HEX \<Rightarrow> number_within_range calc s 16 str w
      | S_UNKNOWN \<Rightarrow> Some (False, w)
      | _ \<Rightarrow> Some (case tristate_of_text str of
                     None \<Rightarrow> False | Some v \<Rightarrow> sym_tristate_within_range s v w, w))"

definition needs_hex_prefix :: "sym \<Rightarrow> string \<Rightarrow> kworld \<Rightarrow> bool" where
  "needs_hex_prefix s str w \<longleftrightarrow> sym_type (syms w s) = S_HEX \<and> \<not> hex_prefixed str"

definition old_string :: "sym_val \<Rightarrow> string option option" where
  "old_string v = (case v of Null \<Rightarrow> Some None | Str s \<Rightarrow> Some (Some s) | Ref _ \<Rightarrow> None)"

definition sym_set_string_value :: "calc \<Rightarrow> sym \<Rightarrow> string \<Rightarrow> kworld \<Rightarrow> (bool \<times> kworld) option" where
  "sym_set_string_value calc s newval w =
     (if sym_type (syms w s) = S_BOOLEAN \<or> sym_type (syms w s) = S_TRISTATE then
        (case tristate_of_text newval of
           None \<Rightarrow> Some (False, w)
         | Some v \<Rightarrow> sym_set_tristate_value calc s v w)
      else do {
        (ok, w) \<leftarrow> sym_string_within_range calc s newval w;
        if \<not> ok then Some (False, w)
        else do {
          let w = mark_new s w;
          if needs_hex_prefix s newval w then do {
            w \<leftarrow> sym_clear_all_valid calc (upd_sym s (set_def_val S_DEF_USER (Str (''0x'' @ newval))) w);
            Some (True, w) }
          else do {
            oldval \<leftarrow> old_string (val (sym_def (syms w s) S_DEF_USER));
            if oldval = Some newval then Some (True, w)
            else do {
              w \<leftarrow> sym_clear_all_valid calc (upd_sym s (set_def_val S_DEF_USER (Str newval)) w);
              Some (True, w) } } } })"

fun tristate_text :: "tristate \<Rightarrow> string" where
  "tristate_text T_no = ''n''"
| "tristate_text T_mod = ''m''"
| "tristate_text T_yes = ''y''"

text \<open>\<open>sym_get_string_default\<close>: the value that a symbol would have without the user's.\<close>

definition sym_get_string_default :: "calc \<Rightarrow> sym \<Rightarrow> kworld \<Rightarrow> (sym_val \<times> kworld) option" where
  "sym_get_string_default calc s w = do {
     w \<leftarrow> sym_calc_visibility calc s w;
     w \<leftarrow> calc (modules_sym w) w;
     let t = tri (curr (syms w symbol_no));
     let str = val (curr (syms w symbol_empty));
     (i, w) \<leftarrow> sym_get_default_prop calc s w;
     (t, str, w) \<leftarrow> (case i of
         None \<Rightarrow> Some (t, str, w)
       | Some i \<Rightarrow>
           if sym_type (syms w s) = S_BOOLEAN \<or> sym_type (syms w s) = S_TRISTATE then do {
             (v, w) \<leftarrow> expr_value_of calc (prop_expr (prop_at s i w)) w;
             Some (EXPR_AND v (dep_tri (prop_visible (prop_at s i w))), str, w) }
           else
             (case prop_get_symbol (prop_at s i w) of
                None \<Rightarrow> Some (t, str, w)
              | Some ds \<Rightarrow> do {
                  w \<leftarrow> calc ds w;
                  Some (t, val (curr (syms w ds)), w) }));
     let t = EXPR_OR t (dep_tri (rev_dep (syms w s)));
     let t = (if t = T_mod \<and> \<not> sym_is_choice_value s w \<and> tri (curr (syms w (modules_sym w))) = T_no
              then T_yes else t);
     let t = (if sym_type (syms w s) = S_BOOLEAN \<and> t = T_mod then T_yes else t);
     let t = (if t < dep_tri (implied (syms w s)) then dep_tri (implied (syms w s)) else t);
     Some (case sym_type (syms w s) of
             S_BOOLEAN \<Rightarrow> Str (tristate_text t)
           | S_TRISTATE \<Rightarrow> Str (tristate_text t)
           | S_UNKNOWN \<Rightarrow> Str ''''
           | _ \<Rightarrow> str, w) }"

definition sym_is_changeable :: "sym \<Rightarrow> kworld \<Rightarrow> bool" where
  "sym_is_changeable s w \<longleftrightarrow> dep_tri (rev_dep (syms w s)) < sym_visible (syms w s)"

subsection \<open>The symbol table\<close>

text \<open>The FNV hash; a \<open>char\<close> is signed.\<close>

definition name_hash :: "string \<Rightarrow> u32" where
  "name_hash s =
     foldl (\<lambda>hash c. (hash XOR word_of_int (if char_code c < 128 then int (char_code c) else int (char_code c) - 256))
              * 0x01000193) 2166136261 s"

definition name_bucket :: "string \<Rightarrow> nat" where
  "name_bucket s = unat (name_hash s) mod SYMBOL_HASHSIZE"

definition const_name :: "string \<Rightarrow> sym option" where
  "const_name n =
     (if n = ''y'' then Some symbol_yes else if n = ''m'' then Some symbol_mod
      else if n = ''n'' then Some symbol_no else None)"

definition lookup_match :: "string \<Rightarrow> sym_flag set \<Rightarrow> symbol \<Rightarrow> bool" where
  "lookup_match n fl x \<longleftrightarrow>
     sym_name x = Some n \<and>
     (if fl \<noteq> {} then flags x \<inter> fl \<noteq> {} else SYMBOL_CONST \<notin> flags x \<and> SYMBOL_CHOICE \<notin> flags x)"

definition new_symbol :: "string option \<Rightarrow> sym_flag set \<Rightarrow> nat \<Rightarrow> kworld \<Rightarrow> sym \<times> kworld" where
  "new_symbol n fl h w =
     (let s = Sym (next_sym w)
      in (s, w\<lparr>next_sym := next_sym w + 1,
               syms := (syms w)(s := zero_symbol\<lparr>sym_name := n, sym_type := S_UNKNOWN, flags := fl\<rparr>),
               symbol_hash := (symbol_hash w)(h := s # symbol_hash w h)\<rparr>))"

definition sym_lookup :: "string option \<Rightarrow> sym_flag set \<Rightarrow> kworld \<Rightarrow> sym \<times> kworld" where
  "sym_lookup nm fl w =
     (case nm of
        None \<Rightarrow> new_symbol None fl 0 w
      | Some n \<Rightarrow>
          (case const_name n of
             Some s \<Rightarrow> (s, w)
           | None \<Rightarrow>
               (case find (\<lambda>s. lookup_match n fl (syms w s)) (symbol_hash w (name_bucket n)) of
                  Some s \<Rightarrow> (s, w)
                | None \<Rightarrow> new_symbol (Some n) fl (name_bucket n) w)))"

definition sym_find :: "string option \<Rightarrow> kworld \<Rightarrow> sym option" where
  "sym_find nm w =
     (case nm of
        None \<Rightarrow> None
      | Some n \<Rightarrow>
          (case const_name n of
             Some s \<Rightarrow> Some s
           | None \<Rightarrow> find (\<lambda>s. sym_name (syms w s) = Some n \<and> SYMBOL_CONST \<notin> flags (syms w s))
                       (symbol_hash w (name_bucket n))))"

text \<open>A value in quotes, with \<open>"\<close> and \<open>\\<close> escaped by a backslash.\<close>

fun escape_chars :: "string \<Rightarrow> string" where
  "escape_chars [] = []"
| "escape_chars (c # cs) =
     (if c = CHR 0x22 \<or> c = CHR 0x5C then CHR 0x5C # c # escape_chars cs else c # escape_chars cs)"

definition sym_escape_string_value :: "string \<Rightarrow> string" where
  "sym_escape_string_value s = [CHR 0x22] @ escape_chars s @ [CHR 0x22]"

subsection \<open>Search\<close>

text \<open>
  \<open>sym_re_search\<close>: the regular expression is the argument \<open>regexec\<close>, the bounds of the first
  match in a name. The order that \<open>qsort\<close> gives to equal elements is not specified; they keep
  the order of the table here.
\<close>

record sym_match =
  m_sym :: sym
  m_so :: int
  m_eo :: int

definition match_name :: "kworld \<Rightarrow> sym_match \<Rightarrow> string" where
  "match_name w m = (case sym_name (syms w (m_sym m)) of Some n \<Rightarrow> n | None \<Rightarrow> '''')"

definition sym_rel_comp :: "kworld \<Rightarrow> sym_match \<Rightarrow> sym_match \<Rightarrow> int" where
  "sym_rel_comp w s1 s2 =
     (let exact1 = (m_eo s1 - m_so s1 = int (length (match_name w s1)));
          exact2 = (m_eo s2 - m_so s2 = int (length (match_name w s2)))
      in if exact1 \<and> \<not> exact2 then - 1
         else if \<not> exact1 \<and> exact2 then 1
         else str_cmp (match_name w s1) (match_name w s2))"

fun insert_match :: "kworld \<Rightarrow> sym_match \<Rightarrow> sym_match list \<Rightarrow> sym_match list" where
  "insert_match w m [] = [m]"
| "insert_match w m (x # xs) = (if sym_rel_comp w m x \<le> 0 then m # x # xs else x # insert_match w m xs)"

definition sort_matches :: "kworld \<Rightarrow> sym_match list \<Rightarrow> sym_match list" where
  "sort_matches w ms = foldr (insert_match w) ms []"

fun collect_matches ::
  "(string \<Rightarrow> (int \<times> int) option) \<Rightarrow> calc \<Rightarrow> sym list \<Rightarrow> kworld \<Rightarrow> (sym_match list \<times> kworld) option" where
  "collect_matches regexec calc [] w = Some ([], w)"
| "collect_matches regexec calc (s # ss) w =
     (case (if has_flag SYMBOL_CONST s w then None else sym_name (syms w s) \<bind> regexec) of
        None \<Rightarrow> collect_matches regexec calc ss w
      | Some (so, eo) \<Rightarrow> do {
          w \<leftarrow> calc s w;
          (ms, w) \<leftarrow> collect_matches regexec calc ss w;
          Some (\<lparr>m_sym = s, m_so = so, m_eo = eo\<rparr> # ms, w) })"

definition sym_re_search ::
  "(string \<Rightarrow> (string \<Rightarrow> (int \<times> int) option) option) \<Rightarrow> calc \<Rightarrow> string \<Rightarrow> kworld \<Rightarrow> (sym list option \<times> kworld) option" where
  "sym_re_search regcomp calc pattern w =
     (if pattern = '''' then Some (None, w)
      else case regcomp pattern of
        None \<Rightarrow> Some (None, w)
      | Some regexec \<Rightarrow> do {
          (ms, w) \<leftarrow> collect_matches regexec calc (all_symbols w) w;
          Some (if ms = [] then None else Some (map m_sym (sort_matches w ms)), w) })"

end
