(* ===== verification/Ksymbol_Props.thy ===== *)
theory Ksymbol_Props
  imports Ksymbol
begin

text \<open>
  Properties of symbols: the recursion of \<open>sym_calc_value\<close> is bounded, what value a symbol
  gets, and when a value may be set.
\<close>

subsection \<open>What is left to compute\<close>

text \<open>
  A symbol that is not valid has to be computed once; one that waits for the values of a
  choice may be computed twice.
\<close>

definition pending :: "symbol \<Rightarrow> nat" where
  "pending x = (if SYMBOL_NEED_SET_CHOICE_VALUES \<in> flags x then 2 else 0) +
     (if SYMBOL_VALID \<in> flags x then 0 else 1)"

text \<open>What a computation never changes: names, types, properties, conditions and kinds of symbols.\<close>

definition kind_flags :: "sym_flag set" where
  "kind_flags = {SYMBOL_CONST, SYMBOL_CHOICE, SYMBOL_CHOICEVAL, SYMBOL_OPTIONAL, SYMBOL_NO_WRITE, SYMBOL_ALLNOCONFIG_Y}"

definition prop_data :: "property \<Rightarrow> prop_type \<times> string option \<times> expr option \<times> expr option \<times> nat option" where
  "prop_data p = (prop_type p, prop_text p, dep_expr (prop_visible p), prop_expr p, prop_menu p)"

definition same_symbol_data :: "symbol \<Rightarrow> symbol \<Rightarrow> bool" where
  "same_symbol_data x y \<longleftrightarrow>
     sym_name y = sym_name x \<and> sym_type y = sym_type x \<and> flags y \<inter> kind_flags = flags x \<inter> kind_flags \<and>
     map prop_data (props y) = map prop_data (props x) \<and> dep_expr (dir_dep y) = dep_expr (dir_dep x) \<and>
     dep_expr (rev_dep y) = dep_expr (rev_dep x) \<and> dep_expr (implied y) = dep_expr (implied x)"

text \<open>What the user set stays, except that a choice may lose its own choice.\<close>

definition keeps_user :: "symbol \<Rightarrow> symbol \<Rightarrow> bool" where
  "keeps_user x y \<longleftrightarrow>
     (SYMBOL_CHOICE \<notin> flags x \<and> SYMBOL_DEF_USER \<in> flags x \<longrightarrow>
        SYMBOL_DEF_USER \<in> flags y \<and> sym_def y S_DEF_USER = sym_def x S_DEF_USER) \<and>
     val (sym_def y S_DEF_USER) = val (sym_def x S_DEF_USER)"

text \<open>A step of a symbol that adds no work and keeps its data, and a step of the world.\<close>

definition calms :: "symbol \<Rightarrow> symbol \<Rightarrow> bool" where
  "calms x y \<longleftrightarrow> pending y \<le> pending x \<and> same_symbol_data x y \<and> keeps_user x y"

lemmas calms_defs = calms_def pending_def same_symbol_data_def keeps_user_def

definition settles :: "kworld \<Rightarrow> kworld \<Rightarrow> bool" where
  "settles w w' \<longleftrightarrow> (\<forall>s. calms (syms w s) (syms w' s)) \<and> modules_sym w' = modules_sym w \<and>
     symbol_hash w' = symbol_hash w \<and> next_sym w' = next_sym w"

definition work_bound :: "nat \<Rightarrow> kworld \<Rightarrow> bool" where
  "work_bound k w \<longleftrightarrow> finite {s. pending (syms w s) \<noteq> 0} \<and> (\<Sum>s | pending (syms w s) \<noteq> 0. pending (syms w s)) \<le> k"

named_theorems settles_rules \<open>steps that only reduce the work\<close>

lemma calms_refl [simp]: "calms x x"
  by (simp add: calms_def same_symbol_data_def keeps_user_def)

lemma kind_flag: "calms x y \<Longrightarrow> f \<in> kind_flags \<Longrightarrow> f \<in> flags y \<longleftrightarrow> f \<in> flags x"
  by (auto simp: calms_def same_symbol_data_def)

lemma calms_trans: "calms x y \<Longrightarrow> calms y z \<Longrightarrow> calms x z"
  using kind_flag[of x y SYMBOL_CHOICE]
  by (auto simp: calms_def same_symbol_data_def keeps_user_def kind_flags_def)

lemma settles_refl [simp, intro]: "settles w w"
  by (simp add: settles_def)

lemma settles_trans: "settles w w' \<Longrightarrow> settles w' w'' \<Longrightarrow> settles w w''"
  unfolding settles_def using calms_trans by metis

lemma settles_pending_le: "settles w w' \<Longrightarrow> pending (syms w' s) \<le> pending (syms w s)"
  by (simp add: settles_def calms_def)

lemma calms_set_flag: "f \<notin> kind_flags \<Longrightarrow> f \<noteq> SYMBOL_NEED_SET_CHOICE_VALUES \<Longrightarrow> calms x (set_flag f x)"
  by (auto simp: calms_defs set_flag_def)

lemma calms_clear_flag:
  "f \<notin> kind_flags \<Longrightarrow> f \<noteq> SYMBOL_VALID \<Longrightarrow> f \<noteq> SYMBOL_DEF_USER \<or> SYMBOL_CHOICE \<in> flags x \<Longrightarrow> calms x (clear_flag f x)"
  by (auto simp: calms_defs clear_flag_def)

lemma settles_upd_at:
  assumes "settles w w'" "calms (syms w' s) (f (syms w' s))"
  shows "settles w (upd_sym s f w')"
proof -
  have "settles w' (upd_sym s f w')" using assms(2) by (simp add: settles_def)
  with assms(1) show ?thesis by (rule settles_trans)
qed

lemma settles_upd: "settles w w' \<Longrightarrow> (\<And>x. calms x (f x)) \<Longrightarrow> settles w (upd_sym s f w')"
  by (rule settles_upd_at)

lemma settles_set:
  "f \<notin> kind_flags \<Longrightarrow> f \<noteq> SYMBOL_NEED_SET_CHOICE_VALUES \<Longrightarrow> settles w w' \<Longrightarrow> settles w (upd_sym s (set_flag f) w')"
  by (rule settles_upd) (simp_all add: calms_set_flag)

lemma settles_clear:
  "f \<notin> kind_flags \<Longrightarrow> f \<noteq> SYMBOL_VALID \<Longrightarrow> f \<noteq> SYMBOL_DEF_USER \<or> sym_is_choice s w' \<Longrightarrow> settles w w' \<Longrightarrow>
     settles w (upd_sym s (clear_flag f) w')"
  by (rule settles_upd_at) (simp_all add: calms_clear_flag sym_is_choice_def has_flag_def)

lemma settles_choice: "settles w w' \<Longrightarrow> sym_is_choice s w' = sym_is_choice s w"
  using kind_flag[of "syms w s" "syms w' s" SYMBOL_CHOICE]
  by (simp add: settles_def sym_is_choice_def has_flag_def kind_flags_def)

lemma kind_flags_simps [simp]: "SYMBOL_VALID \<notin> kind_flags" "SYMBOL_WRITE \<notin> kind_flags"
  "SYMBOL_CHANGED \<notin> kind_flags" "SYMBOL_DEF d \<notin> kind_flags" "SYMBOL_NEED_SET_CHOICE_VALUES \<notin> kind_flags"
  "SYMBOL_CHOICE \<in> kind_flags" "SYMBOL_CHOICEVAL \<in> kind_flags" "SYMBOL_CONST \<in> kind_flags"
  "SYMBOL_NO_WRITE \<in> kind_flags"
  by (simp_all add: kind_flags_def)

lemma settles_fields:
  "settles w (w'\<lparr>messages := m\<rparr>) = settles w w'" "settles w (w'\<lparr>modules_val := t\<rparr>) = settles w w'"
  "settles w (w'\<lparr>menu_changed := c\<rparr>) = settles w w'" "settles w (w'\<lparr>sym_change_count := n\<rparr>) = settles w w'"
  by (simp_all add: settles_def)

lemma settles_set_changed: "settles w w' \<Longrightarrow> settles w (sym_set_changed s w')"
  unfolding sym_set_changed_def
  by (rule settles_upd) (simp_all add: settles_fields calms_set_flag)

lemma settles_fold:
  assumes "\<And>x w'. settles w w' \<Longrightarrow> settles w (f x w')"
  shows "settles w w' \<Longrightarrow> settles w (fold f xs w')"
  by (induction xs arbitrary: w') (auto intro: assms)

lemma settles_update_if: "settles w w' \<Longrightarrow> (settles w w' \<Longrightarrow> settles w (f w')) \<Longrightarrow> settles w (update_if b f w')"
  by (simp add: update_if_def)

lemma settles_pending: "settles w w' \<Longrightarrow> {s. pending (syms w' s) \<noteq> 0} \<subseteq> {s. pending (syms w s) \<noteq> 0}"
  using settles_pending_le by (metis (mono_tags, lifting) Collect_mono le_zero_eq)

lemma work_bound_settles:
  assumes "work_bound k w" "settles w w'"
  shows "work_bound k w'"
proof -
  note sub = settles_pending[OF assms(2)]
  have "(\<Sum>s | pending (syms w' s) \<noteq> 0. pending (syms w' s)) \<le> (\<Sum>s | pending (syms w' s) \<noteq> 0. pending (syms w s))"
    by (rule sum_mono) (simp add: settles_pending_le[OF assms(2)])
  also have "\<dots> \<le> (\<Sum>s | pending (syms w s) \<noteq> 0. pending (syms w s))"
    by (rule sum_mono2[OF _ sub]) (use assms(1) in \<open>simp_all add: work_bound_def\<close>)
  finally show ?thesis
    using assms(1) finite_subset[OF sub] by (simp add: work_bound_def)
qed

lemma work_bound_less:
  assumes "work_bound (Suc k) w" "settles w w'" "pending (syms w' s) < pending (syms w s)"
  shows "work_bound k w'"
proof -
  define P where "P = {s. pending (syms w s) \<noteq> 0}"
  have P: "finite P" "(\<Sum>s \<in> P. pending (syms w s)) \<le> Suc k" "s \<in> P"
    using assms(1,3) by (auto simp: work_bound_def P_def)
  have sub: "{s. pending (syms w' s) \<noteq> 0} \<subseteq> P"
    using settles_pending[OF assms(2)] by (simp add: P_def)
  have "(\<Sum>s | pending (syms w' s) \<noteq> 0. pending (syms w' s)) \<le> (\<Sum>s \<in> P. pending (syms w' s))"
    by (rule sum_mono2[OF P(1) sub]) simp
  also have "\<dots> < (\<Sum>s \<in> P. pending (syms w s))"
    by (rule sum_strict_mono_ex1) (use P assms(3) in \<open>auto simp: settles_pending_le[OF assms(2)]\<close>)
  finally show ?thesis
    using P(2) finite_subset[OF sub P(1)] by (simp add: work_bound_def)
qed

subsection \<open>Functions that compute values\<close>

text \<open>The contract of \<open>calc\<close>: it never adds work.\<close>

lemma map_update_same: "f y = f (xs ! i) \<Longrightarrow> map f (xs[i := y]) = map f xs"
  by (metis list_update_id map_update)

lemma visible_tri_pending: "settles w w' \<Longrightarrow> settles w (set_visible_tri s i t w')"
  unfolding set_visible_tri_def
  by (rule settles_upd) (simp_all add: calms_defs map_update_same prop_data_def)

locale value_calculator =
  fixes calc :: calc
  assumes keeps: "calc s w = Some w' \<Longrightarrow> settles w w'"
begin

lemma calc_keeps: "calc s w = Some w' \<Longrightarrow> settles w0 w \<Longrightarrow> settles w0 w'"
  using keeps settles_trans by blast

lemma string_value_keeps: "sym_get_string_value calc s w = Some (v, w') \<Longrightarrow> settles w0 w \<Longrightarrow> settles w0 w'"
  by (auto simp: sym_get_string_value_def bind_eq_Some_conv intro: calc_keeps split: if_splits tristate.splits)

lemma expr_keeps: "expr_calc_value calc e w = Some (t, w') \<Longrightarrow> settles w0 w \<Longrightarrow> settles w0 w'"
proof (induction e arbitrary: w w' t)
  case (E_CMP c a b)
  then show ?case
    by (auto simp: bind_eq_Some_conv; blast intro: calc_keeps string_value_keeps)
next
  case (E_AND l r)
  then show ?case by (auto simp: bind_eq_Some_conv; blast)
next
  case (E_OR l r)
  then show ?case by (auto simp: bind_eq_Some_conv; blast)
next
  case (E_NOT e)
  then show ?case by (auto simp: bind_eq_Some_conv)
qed (auto simp: bind_eq_Some_conv intro: calc_keeps)

lemma value_of_keeps: "expr_value_of calc e w = Some (t, w') \<Longrightarrow> settles w0 w \<Longrightarrow> settles w0 w'"
  by (auto simp: expr_value_of_def intro: expr_keeps split: option.splits)

lemma visible_keeps: "calc_visible calc s i w = Some (t, w') \<Longrightarrow> settles w0 w \<Longrightarrow> settles w0 w'"
  by (auto simp: calc_visible_def bind_eq_Some_conv intro: visible_tri_pending value_of_keeps)

lemma first_visible_keeps: "first_visible calc s is w = Some (r, w') \<Longrightarrow> settles w0 w \<Longrightarrow> settles w0 w'"
proof (induction "is" arbitrary: w)
  case (Cons i "is")
  then show ?case
    by (auto simp: bind_eq_Some_conv split: if_splits; blast intro: visible_keeps)
qed simp

lemma range_val_keeps: "sym_get_range_val calc s base w = Some (v, w') \<Longrightarrow> settles w0 w \<Longrightarrow> settles w0 w'"
  by (auto simp: sym_get_range_val_def bind_eq_Some_conv intro: calc_keeps)

lemma curr_calms: "calms x (set_curr_val v x)" "calms x (set_curr_tri t x)" "calms x (x\<lparr>curr := c\<rparr>)"
  by (simp_all add: calms_defs set_curr_val_def set_curr_tri_def)

lemma settles_curr: "settles w w' \<Longrightarrow> settles w (upd_sym s (set_curr_val v) w')"
  "settles w w' \<Longrightarrow> settles w (upd_sym s (set_curr_tri t) w')"
  "settles w w' \<Longrightarrow> settles w (upd_sym s (\<lambda>x. x\<lparr>curr := c\<rparr>) w')"
  by (auto intro!: settles_upd simp: curr_calms)

lemma put_bound_keeps: "settles w w' \<Longrightarrow> settles w (put_bound s b w')"
  by (simp add: put_bound_def settles_curr)

lemma clamp_keeps:
  assumes "clamp_number calc s base i w = Some w'" "settles w0 w"
  shows "settles w0 w'"
  using assms unfolding clamp_number_def
  by (auto simp: bind_eq_Some_conv Let_def split: if_split_asm; blast intro: range_val_keeps put_bound_keeps)

lemma validate_keeps:
  assumes "sym_validate_range calc s w = Some w'" "settles w0 w"
  shows "settles w0 w'"
  using assms unfolding sym_validate_range_def sym_get_range_prop_def
  by (auto simp: bind_eq_Some_conv split: if_splits option.splits; blast intro: first_visible_keeps clamp_keeps)

lemma prompts_keeps: "prompts_visible calc s cs is t w = Some (r, w') \<Longrightarrow> settles w0 w \<Longrightarrow> settles w0 w'"
proof (induction "is" arbitrary: w t)
  case (Cons i "is")
  then obtain v w1 hidden where v: "calc_visible calc s i w = Some (v, w1)"
    and rest: "prompts_visible calc s cs is (EXPR_OR t (if hidden then T_no else v))
        (if hidden then set_visible_tri s i T_no w1 else w1) = Some (r, w')"
    by (auto simp: bind_eq_Some_conv Let_def)
  have "settles w0 (if hidden then set_visible_tri s i T_no w1 else w1)"
    using visible_keeps[OF v Cons.prems(2)] visible_tri_pending by simp
  then show ?case by (rule Cons.IH[OF rest])
qed simp

lemma set_dep_keeps:
  assumes "\<And>t x. calms x (upd (\<lambda>d. d\<lparr>dep_tri := t\<rparr>) x)"
  shows "settles w w' \<Longrightarrow> settles w (set_dep get upd s t w')"
  unfolding set_dep_def using assms by (auto intro!: settles_set_changed settles_upd)

lemma calc_dep_keeps:
  assumes upd: "\<And>t x. calms x (upd (\<lambda>d. d\<lparr>dep_tri := t\<rparr>) x)"
    and "calc_dep calc dflt get upd s w = Some w'" "settles w0 w"
  shows "settles w0 w'"
proof -
  obtain t w1 where "w' = set_dep get upd s t w1" "settles w0 w1"
    using assms(2,3) by (auto simp: calc_dep_def bind_eq_Some_conv split: option.splits intro: expr_keeps)
  then show ?thesis using set_dep_keeps[where upd = upd, OF upd] by simp
qed

lemma dep_calms: "calms x (dir_dep_update (\<lambda>d. d\<lparr>dep_tri := t\<rparr>) x)"
  "calms x (rev_dep_update (\<lambda>d. d\<lparr>dep_tri := t\<rparr>) x)" "calms x (implied_update (\<lambda>d. d\<lparr>dep_tri := t\<rparr>) x)"
  by (simp_all add: calms_defs)

lemmas deps_keep = calc_dep_keeps[where upd = dir_dep_update, OF dep_calms(1)]
  calc_dep_keeps[where upd = rev_dep_update, OF dep_calms(2)]
  calc_dep_keeps[where upd = implied_update, OF dep_calms(3)]

lemma set_visible_keeps: "settles w w' \<Longrightarrow> settles w (set_visible s t w')"
  unfolding set_visible_def
  by (auto simp: calms_defs intro!: settles_set_changed settles_upd)

lemma calc_deps_keeps:
  assumes "calc_deps calc s w = Some w'" "settles w0 w"
  shows "settles w0 w'"
proof -
  obtain w1 w2 where w: "calc_dep calc T_yes dir_dep dir_dep_update s w = Some w1"
    "calc_dep calc T_no rev_dep rev_dep_update s w1 = Some w2"
    "calc_dep calc T_no implied implied_update s w2 = Some w'"
    using assms(1) by (auto simp: calc_deps_def bind_eq_Some_conv)
  show ?thesis by (rule deps_keep(3)[OF w(3) deps_keep(2)[OF w(2) deps_keep(1)[OF w(1) assms(2)]]])
qed

lemma visibility_keeps:
  assumes "sym_calc_visibility calc s w = Some w'" "settles w0 w"
  shows "settles w0 w'"
proof -
  obtain cs t w1 where w1: "prompts_visible calc s cs (prop_indices (\<lambda>p. prop_text p \<noteq> None) s w) T_no w = Some (t, w1)"
    and w': "(let w = set_visible s (full_visibility s t w1) w1
       in if sym_is_choice_value s w then Some w else calc_deps calc s w) = Some w'"
    using assms(1) by (auto simp only: sym_calc_visibility_def bind_eq_Some_conv split_paired_Ex prod.case)
  have "settles w0 (set_visible s (full_visibility s t w1) w1)"
    by (rule set_visible_keeps) (rule prompts_keeps[OF w1 assms(2)])
  then show ?thesis using w' calc_deps_keeps by (auto simp: Let_def split: if_split_asm)
qed

lemma default_value_keeps: "visible_default calc s is w = Some (r, w') \<Longrightarrow> settles w0 w \<Longrightarrow> settles w0 w'"
proof (induction "is" arbitrary: w)
  case (Cons i "is")
  then show ?case
    by (auto simp: bind_eq_Some_conv split: if_splits; blast intro: visible_keeps)
qed simp

lemma choice_default_keeps: "sym_choice_default calc s w = Some (r, w') \<Longrightarrow> settles w0 w \<Longrightarrow> settles w0 w'"
  unfolding sym_choice_default_def
  by (auto simp: bind_eq_Some_conv split: option.splits; blast intro: default_value_keeps)

lemma values_keep: "values_visible calc vs u w = Some (r, w') \<Longrightarrow> settles w0 w \<Longrightarrow> settles w0 w'"
proof (induction vs arbitrary: w u)
  case (Cons v vs)
  then show ?case
    by (auto simp: bind_eq_Some_conv split: if_splits; blast intro: visibility_keeps)
qed simp

lemma choose_keeps: "choose_default calc s w = Some (r, w') \<Longrightarrow> settles w0 w \<Longrightarrow> settles w0 w'"
  unfolding choose_default_def
  by (auto simp: bind_eq_Some_conv split: if_splits intro!: settles_curr intro: choice_default_keeps)

lemma user_choice_keeps: "user_choice calc s d w = Some (r, w') \<Longrightarrow> settles w0 w \<Longrightarrow> settles w0 w'"
  by (auto simp: user_choice_def split: option.splits if_split_asm intro: choose_keeps)

lemma choice_keeps:
  assumes "sym_calc_choice calc s w = Some (r, w')" "settles w0 w" "sym_is_choice s w"
  shows "settles w0 w'"
proof -
  obtain vs user w1 d where v: "values_visible calc vs (has_flag SYMBOL_DEF_USER s w) w = Some (user, w1)"
    and w': "user_choice calc s d (update_if (\<not> user) (upd_sym s (clear_flag SYMBOL_DEF_USER)) w1) = Some (r, w')"
    using assms(1) by (auto simp: sym_calc_choice_def bind_eq_Some_conv Let_def)
  have "sym_is_choice s w1" using settles_choice[OF values_keep[OF v settles_refl]] assms(3) by simp
  then show ?thesis
    by (intro user_choice_keeps[OF w'] settles_update_if settles_clear)
      (simp_all add: values_keep[OF v assms(2)])
qed

lemma token_keeps: "gstr_token calc t st = Some (gs, w') \<Longrightarrow> settles w0 (snd st) \<Longrightarrow> settles w0 w'"
  by (cases t; cases st)
    (auto simp: gstr_token_def bind_eq_Some_conv Let_def split: option.splits if_splits;
      blast intro: string_value_keeps)

lemma tokens_keep: "gstr_tokens calc ts st = Some (gs, w') \<Longrightarrow> settles w0 (snd st) \<Longrightarrow> settles w0 w'"
proof (induction ts arbitrary: st)
  case (Cons t ts)
  then obtain gs1 w1 where t: "gstr_token calc t st = Some (gs1, w1)" "gstr_tokens calc ts (gs1, w1) = Some (gs, w')"
    by (auto simp: bind_eq_Some_conv)
  then show ?case using Cons.IH[OF t(2)] token_keeps[OF t(1) Cons.prems(2)] by simp
qed simp

lemma print_keeps: "expr_gstr_print calc e st = Some (gs, w') \<Longrightarrow> settles w0 (snd st) \<Longrightarrow> settles w0 w'"
  unfolding expr_gstr_print_def by (rule tokens_keep)

lemma revdep_operand_keeps:
  assumes "revdep_operand calc p e (title, gs, w) = Some (title', gs', w')" "settles w0 w"
  shows "settles w0 w'"
proof -
  obtain v w1 where v: "expr_calc_value calc e w = Some (v, w1)"
    and rest: "(if v \<noteq> p then Some (title, gs, w1)
       else do {
         (gs, w) \<leftarrow> (case title of None \<Rightarrow> Some (gs, w1) | Some t \<Rightarrow> gstr_token calc (None, t) (gs, w1));
         (gs, w) \<leftarrow> gstr_token calc (None, ''  - '') (gs, w);
         (gs, w) \<leftarrow> gstr_tokens calc (expr_print w e TY_NONE) (gs, w);
         (gs, w) \<leftarrow> gstr_token calc (None, [CHR 0x0A]) (gs, w);
         Some (None, gs, w) }) = Some (title', gs', w')"
    using assms(1) by (auto simp: bind_eq_Some_conv)
  have w1: "settles w0 w1" using v assms(2) by (rule expr_keeps)
  show ?thesis
  proof (cases "v \<noteq> p")
    case False
    then obtain gs2 w2 gs3 w3 gs4 w4 where
      "(case title of None \<Rightarrow> Some (gs, w1) | Some t \<Rightarrow> gstr_token calc (None, t) (gs, w1)) = Some (gs2, w2)"
      and ts: "gstr_token calc (None, ''  - '') (gs2, w2) = Some (gs3, w3)"
      "gstr_tokens calc (expr_print w3 e TY_NONE) (gs3, w3) = Some (gs4, w4)"
      "gstr_token calc (None, [CHR 0x0A]) (gs4, w4) = Some (gs', w')"
      using rest by (fastforce simp: bind_eq_Some_conv)
    then have "settles w0 w2" using w1 token_keeps by (auto split: option.splits)
    then have "settles w0 w3" using token_keeps[OF ts(1)] by simp
    then have "settles w0 w4" using tokens_keep[OF ts(2)] by simp
    then show ?thesis using token_keeps[OF ts(3)] by simp
  qed (use rest w1 in simp)
qed

lemma print_revdep_keeps:
  "expr_print_revdep calc p e (title, gs, w) = Some (title', gs', w') \<Longrightarrow> settles w0 w \<Longrightarrow> settles w0 w'"
proof (induction e arbitrary: title gs w title' gs' w')
  case (E_OR l r)
  then show ?case by (auto simp: bind_eq_Some_conv; metis prod_cases3)
qed (auto intro: revdep_operand_keeps simp del: revdep_operand.simps)

lemma gstr_print_revdep_keeps:
  "expr_gstr_print_revdep calc e p title (gs, w) = Some (gs', w') \<Longrightarrow> settles w0 w \<Longrightarrow> settles w0 w'"
  by (auto simp: expr_gstr_print_revdep_def intro: print_revdep_keeps)

lemma warn_keeps:
  assumes "sym_warn_unmet_dep calc s w = Some w'" "settles w0 w"
  shows "settles w0 w'"
  using assms unfolding sym_warn_unmet_dep_def
  by (auto simp: bind_eq_Some_conv Let_def settles_fields;
      blast intro: gstr_print_revdep_keeps print_keeps[where st = "(_, _)", simplified])

lemma newval_keeps: "calc_newval calc s t w = Some (r, w') \<Longrightarrow> settles w0 w \<Longrightarrow> settles w0 w'"
  unfolding calc_newval_def by (auto simp: bind_eq_Some_conv split: if_splits intro: warn_keeps)

lemma add_implied_keeps: "settles w w' \<Longrightarrow> settles w (snd (add_implied s t w'))"
  by (simp add: add_implied_def settles_set)

lemma from_default_keeps: "from_default calc s i t w = Some (r, w') \<Longrightarrow> settles w0 w \<Longrightarrow> settles w0 w'"
  unfolding from_default_def
  by (auto simp: bind_eq_Some_conv Let_def split: option.splits
      intro!: settles_update_if settles_set intro: value_of_keeps)

lemma default_tristate_keeps:
  assumes "default_tristate calc s t w = Some (r, w')" "settles w0 w"
  shows "settles w0 w'"
proof -
  obtain i w1 t2 w2 where i: "first_visible calc s (prop_indices (\<lambda>p. prop_type p = P_DEFAULT) s w) w = Some (i, w1)"
    and t2: "from_default calc s i t w1 = Some (t2, w2)" and w': "(r, w') = add_implied s t2 w2"
    using assms(1) unfolding default_tristate_def sym_get_default_prop_def
    by (auto simp: bind_eq_Some_conv)
  have "settles w0 w1" using i assms(2) by (rule first_visible_keeps)
  with t2 have "settles w0 w2" by (rule from_default_keeps)
  then show ?thesis using add_implied_keeps[of w0 w2 s t2] w' by (metis snd_conv)
qed

lemma automatic_keeps:
  assumes "automatic_tristate calc s t w = Some (r, w')" "settles w0 w"
  shows "settles w0 w'"
proof -
  define w1 where "w1 = update_if (dep_tri (rev_dep (syms w s)) \<noteq> T_no) (upd_sym s (set_flag SYMBOL_WRITE)) w"
  have w1: "settles w0 w1"
    unfolding w1_def using assms(2) by (intro settles_update_if settles_set) simp_all
  obtain t2 w2 where w2: "(if sym_is_choice s w1 then Some (t, w1) else default_tristate calc s t w1) = Some (t2, w2)"
    and w': "calc_newval calc s t2 w2 = Some (r, w')"
    using assms(1) unfolding automatic_tristate_def
    by (auto simp: bind_eq_Some_conv Let_def simp flip: w1_def simp del: if_split)
  have "settles w0 w2"
    using w2 w1 default_tristate_keeps by (auto split: if_split_asm)
  with w' show ?thesis by (rule newval_keeps)
qed

lemma tristate_keeps: "calc_tristate calc s t w = Some (r, w') \<Longrightarrow> settles w0 w \<Longrightarrow> settles w0 w'"
  unfolding calc_tristate_def
  by (auto simp: bind_eq_Some_conv split: if_split_asm intro: newval_keeps automatic_keeps)

lemma default_string_keeps:
  "default_string calc s p v w = Some (r, w') \<Longrightarrow> settles w0 w \<Longrightarrow> settles w0 w'"
  by (auto simp: default_string_def bind_eq_Some_conv split: option.splits
      elim!: calc_keeps intro!: settles_set)

lemma string_keeps: "calc_string calc s v w = Some (r, w') \<Longrightarrow> settles w0 w \<Longrightarrow> settles w0 w'"
  unfolding calc_string_def sym_get_default_prop_def
  by (auto simp: bind_eq_Some_conv split: if_split_asm option.splits;
      blast intro: default_string_keeps first_visible_keeps)

lemma switch_keeps: "calc_switch calc s v w = Some (r, w') \<Longrightarrow> settles w0 w \<Longrightarrow> settles w0 w'"
  unfolding calc_switch_def
  by (auto simp: bind_eq_Some_conv split: if_split_asm intro: tristate_keeps string_keeps)

end

text \<open>The end of the computation does not call it any more.\<close>

lemma note_change_keeps: "settles w w' \<Longrightarrow> settles w (note_change addr s v w')"
  unfolding note_change_def sym_set_all_changed_def
  by (auto simp: Let_def settles_fields intro!: settles_fold settles_set_changed)

lemma mark_value_keeps: "settles w w' \<Longrightarrow> settles w (mark_value s v w')"
  unfolding mark_value_def Let_def by (intro settles_update_if settles_set settles_set_changed) simp_all

lemma set_choice_values_keep:
  assumes "set_all_choice_values s w' = Some w''" "settles w w'" "has_flag SYMBOL_NEED_SET_CHOICE_VALUES s w'"
  shows "settles w w''"
proof -
  obtain vs where w'': "w'' = upd_sym s (\<lambda>x. x\<lparr>flags := insert SYMBOL_DEF_USER (flags x) - {SYMBOL_VALID, SYMBOL_NEED_SET_CHOICE_VALUES}\<rparr>)
      (fold (\<lambda>v w. if sym_has_value v w then w
         else upd_sym v (\<lambda>x. x\<lparr>sym_def := (sym_def x)(S_DEF_USER := (sym_def x S_DEF_USER)\<lparr>tri := T_no\<rparr>)\<rparr>) w) vs w')"
    (is "_ = upd_sym s ?f (fold ?g vs w')")
    using assms(1) by (auto simp: set_all_choice_values_def bind_eq_Some_conv Let_def)
  have flags: "flags (syms (fold ?g vs v) a) = flags (syms v a)" for v a
    by (induction vs arbitrary: v) auto
  have "settles w (fold ?g vs w')"
    using assms(2) by (intro settles_fold) (auto intro!: settles_upd_at simp: calms_defs sym_has_value_def has_flag_def)
  then show ?thesis
    unfolding w'' using assms(3)
    by (auto intro!: settles_upd_at simp: calms_defs flags has_flag_def)
qed

lemma mark_values_keep: "mark_values s w' = Some w'' \<Longrightarrow> settles w w' \<Longrightarrow> settles w w''"
  by (auto simp: mark_values_def bind_eq_Some_conv split: if_split_asm
      intro!: settles_fold mark_value_keeps)

lemma finish_keeps:
  assumes "finish_value addr s v w = Some w'" "settles w0 w"
  shows "settles w0 w'"
proof -
  obtain w1 where w1: "mark_values s (note_change addr s v w) = Some w1"
    and rest: "(let w = update_if (has_flag SYMBOL_NO_WRITE s w1) (upd_sym s (clear_flag SYMBOL_WRITE)) w1
       in if has_flag SYMBOL_NEED_SET_CHOICE_VALUES s w then set_all_choice_values s w else Some w) = Some w'"
    using assms(1) by (auto simp: finish_value_def bind_eq_Some_conv simp del: if_split)
  have "settles w0 w1" using w1 by (rule mark_values_keep) (rule note_change_keeps[OF assms(2)])
  then have "settles w0 (update_if (has_flag SYMBOL_NO_WRITE s w1) (upd_sym s (clear_flag SYMBOL_WRITE)) w1)"
    by (intro settles_update_if settles_clear) simp_all
  with rest show ?thesis
    using set_choice_values_keep by (auto simp: Let_def split: if_split_asm)
qed

context value_calculator begin

lemma choose_value_keeps: "choose_value calc s t w = Some w' \<Longrightarrow> settles w0 w \<Longrightarrow> settles w0 w'"
  by (auto simp: choose_value_def bind_eq_Some_conv split: if_split_asm intro!: settles_curr intro: choice_keeps)

lemma typed_keeps:
  assumes "typed_value addr calc s w = Some w'" "settles w0 w"
  shows "settles w0 w'"
proof -
  obtain w1 nv w2 w3 w4 where
    w1: "sym_calc_visibility calc s (upd_sym s (clear_flag SYMBOL_WRITE) w) = Some w1"
    and w2: "calc_switch calc s (start_value s w) (upd_sym s (\<lambda>x. x\<lparr>curr := start_value s w\<rparr>)
       (update_if (sym_visible (syms w1 s) \<noteq> T_no) (upd_sym s (set_flag SYMBOL_WRITE)) w1)) = Some (nv, w2)"
    and w3: "choose_value calc s (tri nv) (upd_sym s (\<lambda>x. x\<lparr>curr := nv\<rparr>) w2) = Some w3"
    and w4: "sym_validate_range calc s w3 = Some w4"
    and w': "finish_value addr s (curr (syms w s)) w4 = Some w'"
    using assms(1) by (auto simp: typed_value_def bind_eq_Some_conv Let_def)
  have "settles w0 w1" using w1 by (rule visibility_keeps) (simp add: settles_clear assms(2))
  then have "settles w0 w2"
    by (intro switch_keeps[OF w2] settles_curr settles_update_if settles_set) simp_all
  then have "settles w0 w3" by (intro choose_value_keeps[OF w3] settles_curr)
  with w4 have "settles w0 w4" by (rule validate_keeps)
  with w' show ?thesis by (rule finish_keeps)
qed

lemma await_keeps: "await_choice calc s w = Some w' \<Longrightarrow> settles w0 w \<Longrightarrow> settles w0 w'"
  by (auto simp: await_choice_def bind_eq_Some_conv Let_def settles_clear split: if_split_asm option.splits
      intro: calc_keeps)

lemma step_keeps:
  assumes "calc_step addr calc s w = Some w'"
  shows "settles w w'"
proof (cases "has_flag SYMBOL_VALID s w")
  case False
  then obtain w1 where w1: "await_choice calc s w = Some w1"
    and w': "w' = upd_sym s name_value (upd_sym s (set_flag SYMBOL_VALID) w1) \<or>
       typed_value addr calc s (upd_sym s (set_flag SYMBOL_VALID) w1) = Some w'"
    using assms by (auto simp: calc_step_def bind_eq_Some_conv Let_def split: if_split_asm)
  have "settles w (upd_sym s (set_flag SYMBOL_VALID) w1)"
    using await_keeps[OF w1 settles_refl] by (simp add: settles_set)
  then show ?thesis
    using w' typed_keeps by (auto intro!: settles_upd simp: name_value_def calms_defs)
qed (use assms in \<open>simp add: calc_step_def\<close>)

end

interpretation calc: value_calculator "sym_calc_value n addr" for n addr
proof (induction n)
  case 0
  show ?case by unfold_locales simp
next
  case (Suc n)
  show ?case by unfold_locales (simp add: value_calculator.step_keeps[OF Suc])
qed

end
