(* ===== verification/Kdepth.thy ===== *)
theory Kdepth
  imports Ksymbol_Props
begin

text \<open>
  Two calculators that agree on worlds with a bounded amount of work give the same results in
  every function of \<open>symbol.c\<close>; so the recursion depth does not matter once it exceeds the work,
  and the call below the deepest one may return anything, as it is never made.
\<close>

lemma bind_agree: "f = f' \<Longrightarrow> (\<And>a. f' = Some a \<Longrightarrow> g a = g' a) \<Longrightarrow> Option.bind f g = Option.bind f' g'"
  by (cases f') simp_all

locale agreeing_calculators = value_calculator calc for calc +
  fixes calc' :: calc and k :: nat
  assumes agree: "work_bound k w \<Longrightarrow> calc' s w = calc s w"
begin

lemma bound: "settles w w' \<Longrightarrow> work_bound k w \<Longrightarrow> work_bound k w'"
  using work_bound_settles by blast

lemma string_value_agree: "work_bound k w \<Longrightarrow> sym_get_string_value calc' s w = sym_get_string_value calc s w"
  by (simp add: sym_get_string_value_def agree split: tristate.split)

lemma expr_agree: "work_bound k w \<Longrightarrow> expr_calc_value calc' e w = expr_calc_value calc e w"
proof (induction e arbitrary: w)
  case (E_OR l r)
  then show ?case
    by (auto intro!: bind_agree simp: bound[OF expr_keeps[OF _ settles_refl] E_OR.prems])
next
  case (E_AND l r)
  then show ?case
    by (auto intro!: bind_agree simp: bound[OF expr_keeps[OF _ settles_refl] E_AND.prems])
next
  case (E_CMP c a b)
  then show ?case
    by (auto intro!: bind_agree simp: agree string_value_agree)
      (meson bound keeps string_value_keeps settles_refl agree string_value_agree)+
qed (auto intro!: bind_agree simp: agree)

lemma value_of_agree: "work_bound k w \<Longrightarrow> expr_value_of calc' e w = expr_value_of calc e w"
  by (simp add: expr_value_of_def expr_agree split: option.split)

lemma visible_agree: "work_bound k w \<Longrightarrow> calc_visible calc' s i w = calc_visible calc s i w"
  by (simp add: calc_visible_def value_of_agree)

lemma bound_visible: "calc_visible calc s i w = Some (t, w') \<Longrightarrow> work_bound k w \<Longrightarrow> work_bound k w'"
  using bound visible_keeps settles_refl by blast

lemma first_visible_agree: "work_bound k w \<Longrightarrow> first_visible calc' s is w = first_visible calc s is w"
  by (induction "is" arbitrary: w) (auto simp: visible_agree intro!: bind_agree dest: bound_visible)

lemma range_val_agree: "work_bound k w \<Longrightarrow> sym_get_range_val calc' s base w = sym_get_range_val calc s base w"
  by (simp add: sym_get_range_val_def agree)

lemma bound_range_val: "sym_get_range_val calc s base w = Some (v, w') \<Longrightarrow> work_bound k w \<Longrightarrow> work_bound k w'"
  using bound range_val_keeps settles_refl by blast

lemma clamp_agree: "work_bound k w \<Longrightarrow> clamp_number calc' s base i w = clamp_number calc s base i w"
  unfolding clamp_number_def
  by (auto simp: range_val_agree Let_def intro!: bind_agree dest: bound_range_val)

lemma validate_agree: "work_bound k w \<Longrightarrow> sym_validate_range calc' s w = sym_validate_range calc s w"
  unfolding sym_validate_range_def sym_get_range_prop_def
  by (auto simp: first_visible_agree clamp_agree bound[OF first_visible_keeps[OF _ settles_refl]]
      intro!: bind_agree split: option.split)

lemma set_tri_bound: "work_bound k w \<Longrightarrow> work_bound k (set_visible_tri s i t w)"
  using bound visible_tri_pending settles_refl by blast

lemma prompts_agree: "work_bound k w \<Longrightarrow> prompts_visible calc' s cs is t w = prompts_visible calc s cs is t w"
proof (induction "is" arbitrary: w t)
  case (Cons i "is")
  have "work_bound k (if b then set_visible_tri s i T_no w' else w')" if "calc_visible calc s i w = Some (v, w')" for b v w'
    using bound_visible[OF that Cons.prems] set_tri_bound by simp
  then show ?case
    using Cons by (auto simp: visible_agree Let_def simp del: if_split intro!: bind_agree)
qed simp

lemma calc_dep_agree: "work_bound k w \<Longrightarrow> calc_dep calc' d get upd s w = calc_dep calc d get upd s w"
  by (simp add: calc_dep_def expr_agree split: option.split)

lemma calc_deps_agree: "work_bound k w \<Longrightarrow> calc_deps calc' s w = calc_deps calc s w"
  unfolding calc_deps_def
  by (intro bind_agree calc_dep_agree) (auto intro: bound[OF deps_keep(1)[OF _ settles_refl]]
      bound[OF deps_keep(2)[OF _ settles_refl]])

lemma visibility_agree: "work_bound k w \<Longrightarrow> sym_calc_visibility calc' s w = sym_calc_visibility calc s w"
  unfolding sym_calc_visibility_def
  by (auto simp: Let_def prompts_agree intro!: bind_agree calc_deps_agree
      intro: bound[OF set_visible_keeps[OF prompts_keeps[OF _ settles_refl]]])

lemma bound_visibility: "sym_calc_visibility calc s w = Some w' \<Longrightarrow> work_bound k w \<Longrightarrow> work_bound k w'"
  using bound visibility_keeps settles_refl by blast

lemma default_value_agree: "work_bound k w \<Longrightarrow> visible_default calc' s is w = visible_default calc s is w"
proof (induction "is" arbitrary: w)
  case (Cons i "is")
  have "visible_default calc' s is w' = visible_default calc s is w'" if "calc_visible calc s i w = Some (v, w')" for v w'
    using bound_visible[OF that Cons.prems] by (rule Cons.IH)
  then show ?case
    using Cons.prems by (auto simp: visible_agree intro!: bind_agree)
qed simp

lemma choice_default_agree: "work_bound k w \<Longrightarrow> sym_choice_default calc' s w = sym_choice_default calc s w"
  by (simp add: sym_choice_default_def default_value_agree)

lemma choose_agree: "work_bound k w \<Longrightarrow> choose_default calc' s w = choose_default calc s w"
  by (simp add: choose_default_def choice_default_agree)

lemma values_agree: "work_bound k w \<Longrightarrow> values_visible calc' vs u w = values_visible calc vs u w"
  by (induction vs arbitrary: w u)
    (auto simp: visibility_agree intro!: bind_agree dest: bound_visibility)

lemma user_choice_agree: "work_bound k w \<Longrightarrow> user_choice calc' s d w = user_choice calc s d w"
  by (simp add: user_choice_def choose_agree split: option.split)

lemma bound_values: "values_visible calc vs u w = Some (r, w') \<Longrightarrow> work_bound k w \<Longrightarrow> work_bound k w'"
  using bound values_keep settles_refl by blast

lemma bound_update:
  "work_bound k w \<Longrightarrow> (\<And>w0. settles w0 w \<Longrightarrow> settles w0 (f w)) \<Longrightarrow> work_bound k (update_if b f w)"
  using bound by (auto simp: update_if_def)

lemma choice_agree:
  assumes "work_bound k w" "sym_is_choice s w"
  shows "sym_calc_choice calc' s w = sym_calc_choice calc s w"
proof -
  have "work_bound k (update_if b (upd_sym s (clear_flag SYMBOL_DEF_USER)) w1)"
    if "values_visible calc vs u w = Some (r, w1)" for vs u r w1 b
    using bound_values[OF that assms(1)] settles_choice[OF values_keep[OF that settles_refl], of s] assms(2)
    by (intro bound_update settles_clear) simp_all
  then show ?thesis
    unfolding sym_calc_choice_def
    by (auto simp: Let_def values_agree[OF assms(1)] intro!: bind_agree user_choice_agree)
qed

lemma token_agree: "work_bound k (snd st) \<Longrightarrow> gstr_token calc' t st = gstr_token calc t st"
  by (cases t; cases st) (simp add: gstr_token_def string_value_agree split: option.split)

lemma tokens_agree: "work_bound k (snd st) \<Longrightarrow> gstr_tokens calc' ts st = gstr_tokens calc ts st"
proof (induction ts arbitrary: st)
  case (Cons t ts)
  have "work_bound k (snd st')" if "gstr_token calc t st = Some st'" for st'
    using bound[OF token_keeps[of t st "fst st'" "snd st'", OF _ settles_refl] Cons.prems] that by simp
  then show ?case using Cons by (auto simp: token_agree intro!: bind_agree)
qed simp

lemma print_agree: "work_bound k (snd st) \<Longrightarrow> expr_gstr_print calc' e st = expr_gstr_print calc e st"
  by (simp add: expr_gstr_print_def tokens_agree)

lemma bound_token: "gstr_token calc t (gs, w) = Some (gs', w') \<Longrightarrow> work_bound k w \<Longrightarrow> work_bound k w'"
  using bound[OF token_keeps[of t "(gs, w)", OF _ settles_refl]] by simp

lemma bound_tokens: "gstr_tokens calc ts (gs, w) = Some (gs', w') \<Longrightarrow> work_bound k w \<Longrightarrow> work_bound k w'"
  using bound[OF tokens_keep[of ts "(gs, w)", OF _ settles_refl]] by simp

lemma bound_expr: "expr_calc_value calc e w = Some (v, w') \<Longrightarrow> work_bound k w \<Longrightarrow> work_bound k w'"
  using bound[OF expr_keeps[OF _ settles_refl]] .

lemma operand_agree:
  assumes "work_bound k w"
  shows "revdep_operand calc' p e (title, gs, w) = revdep_operand calc p e (title, gs, w)"
proof -
  have "(do {
       (gs, w) \<leftarrow> (case title of None \<Rightarrow> Some (gs, w) | Some t \<Rightarrow> gstr_token calc' (None, t) (gs, w));
       (gs, w) \<leftarrow> gstr_token calc' (None, ''  - '') (gs, w);
       (gs, w) \<leftarrow> gstr_tokens calc' (expr_print w e TY_NONE) (gs, w);
       (gs, w) \<leftarrow> gstr_token calc' (None, [CHR 0x0A]) (gs, w);
       Some (None :: string option, gs, w) }) =
     (do {
       (gs, w) \<leftarrow> (case title of None \<Rightarrow> Some (gs, w) | Some t \<Rightarrow> gstr_token calc (None, t) (gs, w));
       (gs, w) \<leftarrow> gstr_token calc (None, ''  - '') (gs, w);
       (gs, w) \<leftarrow> gstr_tokens calc (expr_print w e TY_NONE) (gs, w);
       (gs, w) \<leftarrow> gstr_token calc (None, [CHR 0x0A]) (gs, w);
       Some (None, gs, w) })" if "work_bound k w" for w
    using that
    by (auto intro!: bind_agree simp: token_agree tokens_agree dest: bound_token bound_tokens split: option.splits)
      (metis bound_token bound_tokens snd_conv token_agree)
  then show ?thesis
    using assms by (auto simp: expr_agree dest: bound_expr intro!: bind_agree)
qed

lemma bound_revdep:
  "expr_print_revdep calc p e (title, gs, w) = Some (title', gs', w') \<Longrightarrow> work_bound k w \<Longrightarrow> work_bound k w'"
  using bound[OF print_revdep_keeps[OF _ settles_refl]] .

lemma print_revdep_agree:
  "work_bound k w \<Longrightarrow> expr_print_revdep calc' p e (title, gs, w) = expr_print_revdep calc p e (title, gs, w)"
proof (induction e arbitrary: title gs w)
  case (E_OR l r)
  have "expr_print_revdep calc' p r st = expr_print_revdep calc p r st"
    if "expr_print_revdep calc p l (title, gs, w) = Some st" for st
    using bound_revdep[of p l title gs w "fst st" "fst (snd st)" "snd (snd st)"] that E_OR.prems
      E_OR.IH(2)[of "snd (snd st)" "fst st" "fst (snd st)"] by simp
  then show ?case using E_OR by (auto intro!: bind_agree)
qed (simp_all add: operand_agree del: revdep_operand.simps)

lemma gstr_revdep_agree:
  "work_bound k w \<Longrightarrow> expr_gstr_print_revdep calc' e p title (gs, w) = expr_gstr_print_revdep calc e p title (gs, w)"
  by (simp add: expr_gstr_print_revdep_def print_revdep_agree)

lemma warn_agree:
  assumes "work_bound k w"
  shows "sym_warn_unmet_dep calc' s w = sym_warn_unmet_dep calc s w"
proof -
  have "expr_gstr_print calc' e (gs, w) = expr_gstr_print calc e (gs, w)" for e gs
    using assms by (simp add: print_agree)
  moreover have "work_bound k w'" if "expr_gstr_print calc e (gs, w) = Some (gs', w')" for e gs gs' w'
    using bound[OF print_keeps[OF that settles_refl]] assms by simp
  moreover have "work_bound k w''" if "expr_gstr_print_revdep calc e p t (gs, w') = Some (gs', w'')" "work_bound k w'"
    for e p t gs gs' w' w''
    using bound[OF gstr_print_revdep_keeps[OF that(1) settles_refl] that(2)] .
  ultimately show ?thesis
    unfolding sym_warn_unmet_dep_def Let_def
    by (auto intro!: bind_agree simp: gstr_revdep_agree)
qed

lemma newval_agree: "work_bound k w \<Longrightarrow> calc_newval calc' s t w = calc_newval calc s t w"
  by (simp add: calc_newval_def warn_agree)

lemma from_default_agree: "work_bound k w \<Longrightarrow> from_default calc' s i t w = from_default calc s i t w"
  by (simp add: from_default_def value_of_agree split: option.split)

lemma bound_first: "first_visible calc s is w = Some (i, w') \<Longrightarrow> work_bound k w \<Longrightarrow> work_bound k w'"
  using bound[OF first_visible_keeps[OF _ settles_refl]] .

lemma default_tristate_agree: "work_bound k w \<Longrightarrow> default_tristate calc' s t w = default_tristate calc s t w"
  unfolding default_tristate_def sym_get_default_prop_def
  by (auto simp: first_visible_agree from_default_agree dest: bound_first intro!: bind_agree)

lemma bound_default: "default_tristate calc s t w = Some (r, w') \<Longrightarrow> work_bound k w \<Longrightarrow> work_bound k w'"
  using bound[OF default_tristate_keeps[OF _ settles_refl]] .

lemma automatic_agree:
  assumes "work_bound k w"
  shows "automatic_tristate calc' s t w = automatic_tristate calc s t w"
proof -
  define w1 where "w1 = update_if (dep_tri (rev_dep (syms w s)) \<noteq> T_no) (upd_sym s (set_flag SYMBOL_WRITE)) w"
  have w1: "work_bound k w1"
    unfolding w1_def using assms by (intro bound_update settles_set) simp_all
  show ?thesis
    unfolding automatic_tristate_def Let_def w1_def[symmetric]
    using w1 by (auto simp: default_tristate_agree newval_agree dest: bound_default intro!: bind_agree)
qed

lemma tristate_agree: "work_bound k w \<Longrightarrow> calc_tristate calc' s t w = calc_tristate calc s t w"
  by (simp add: calc_tristate_def newval_agree automatic_agree)

lemma default_string_agree: "work_bound k w \<Longrightarrow> default_string calc' s p v w = default_string calc s p v w"
  using bound[OF settles_set[OF _ _ settles_refl]]
  by (simp add: default_string_def agree split: option.split)

lemma string_agree: "work_bound k w \<Longrightarrow> calc_string calc' s v w = calc_string calc s v w"
  unfolding calc_string_def sym_get_default_prop_def
  by (auto simp: first_visible_agree default_string_agree dest: bound_first intro!: bind_agree split: option.split)

lemma switch_agree: "work_bound k w \<Longrightarrow> calc_switch calc' s v w = calc_switch calc s v w"
  by (simp add: calc_switch_def tristate_agree string_agree)

lemma choose_value_agree: "work_bound k w \<Longrightarrow> choose_value calc' s t w = choose_value calc s t w"
  by (simp add: choose_value_def choice_agree)

lemma curr_bound: "work_bound k w \<Longrightarrow> work_bound k (upd_sym s (\<lambda>x. x\<lparr>curr := c\<rparr>) w)"
  using bound[OF settles_curr(3)[OF settles_refl]] .

lemma bound_switch: "calc_switch calc s v w = Some (r, w') \<Longrightarrow> work_bound k w \<Longrightarrow> work_bound k w'"
  using bound[OF switch_keeps[OF _ settles_refl]] .

lemma bound_choose: "choose_value calc s t w = Some w' \<Longrightarrow> work_bound k w \<Longrightarrow> work_bound k w'"
  using bound[OF choose_value_keeps[OF _ settles_refl]] .

lemma typed_agree:
  assumes "work_bound k w"
  shows "typed_value addr calc' s w = typed_value addr calc s w"
proof -
  have w0: "work_bound k (upd_sym s (clear_flag SYMBOL_WRITE) w)"
    by (rule bound[OF settles_clear[OF _ _ _ settles_refl] assms]) simp_all
  have w1: "work_bound k (upd_sym s (\<lambda>x. x\<lparr>curr := start_value s w\<rparr>)
      (update_if b (upd_sym s (set_flag SYMBOL_WRITE)) w1))"
    if "sym_calc_visibility calc s (upd_sym s (clear_flag SYMBOL_WRITE) w) = Some w1" for b w1
    using bound_visibility[OF that w0] by (intro curr_bound bound_update settles_set) simp_all
  show ?thesis
    unfolding typed_value_def Let_def
    by (auto intro!: bind_agree simp: visibility_agree w0 w1 switch_agree choose_value_agree curr_bound
        bound_switch[OF _ w1] validate_agree dest: bound_choose[OF _ curr_bound])
qed

end


subsection \<open>The depth of the recursion\<close>

lemma work_bound_0: "work_bound 0 w \<Longrightarrow> has_flag SYMBOL_VALID s w"
proof -
  assume "work_bound 0 w"
  then have "pending (syms w s) = 0" by (auto simp: work_bound_def)
  then show ?thesis by (simp add: pending_def has_flag_def split: if_split_asm)
qed

text \<open>The work left when \<open>calc_step\<close> calls its argument is smaller.\<close>

context agreeing_calculators
begin

lemma await_agree:
  assumes "work_bound (Suc k) w"
  shows "await_choice calc' s w = await_choice calc s w"
proof -
  have "work_bound k (upd_sym s (clear_flag SYMBOL_NEED_SET_CHOICE_VALUES) w)"
    if "has_flag SYMBOL_NEED_SET_CHOICE_VALUES s w"
    by (rule work_bound_less[OF assms settles_clear[OF _ _ _ settles_refl], of _ s])
      (use that in \<open>auto simp: pending_def has_flag_def clear_flag_def\<close>)
  then show ?thesis
    by (auto simp: await_choice_def Let_def agree split: option.split intro!: bind_agree)
qed

lemma step_agree:
  assumes "work_bound (Suc k) w"
  shows "calc_step addr calc' s w = calc_step addr calc s w"
proof -
  have "work_bound k (upd_sym s (set_flag SYMBOL_VALID) w')"
    if "\<not> has_flag SYMBOL_VALID s w" "await_choice calc s w = Some w'" for w'
  proof (rule work_bound_less[OF assms, of _ s])
    have w': "settles w w'" by (rule await_keeps[OF that(2) settles_refl])
    then show "settles w (upd_sym s (set_flag SYMBOL_VALID) w')" by (simp add: settles_set)
    have "pending (set_flag SYMBOL_VALID (syms w' s)) < pending (syms w s)"
    proof (cases "has_flag SYMBOL_NEED_SET_CHOICE_VALUES s w'")
      case False
      then show ?thesis using that(1) by (auto simp: pending_def has_flag_def set_flag_def)
    next
      case True
      then have "2 \<le> pending (syms w' s)" by (simp add: pending_def has_flag_def)
      also have "\<dots> \<le> pending (syms w s)" using w' by (rule settles_pending_le)
      finally have "2 \<le> pending (syms w s)" .
      moreover have "pending (syms w s) \<noteq> 2"
        using that(1) by (auto simp: pending_def has_flag_def)
      ultimately show ?thesis by (auto simp: pending_def set_flag_def)
    qed
    then show "pending (syms (upd_sym s (set_flag SYMBOL_VALID) w') s) < pending (syms w s)" by simp
  qed
  then show ?thesis
    unfolding calc_step_def Let_def
    by (auto simp: await_agree[OF assms] typed_agree intro!: bind_agree)
qed

end

text \<open>
  A computation of \<open>n\<close> nested calls, with any result \<open>ex\<close> for the call below the last of them:
  where the work is bounded by \<open>k < n\<close>, that call is not reached.
\<close>

interpretation depth: agreeing_calculators "sym_calc_value (Suc k) addr" "(calc_step addr ^^ (Suc k + d)) ex" k
  for k d addr ex
proof (induction k)
  case 0
  show ?case by unfold_locales (simp add: calc_step_def work_bound_0)
next
  case (Suc k)
  show ?case
  proof unfold_locales
    fix w s
    assume "work_bound (Suc k) w"
    then show "(calc_step addr ^^ (Suc (Suc k) + d)) ex s w = sym_calc_value (Suc (Suc k)) addr s w"
      using agreeing_calculators.step_agree[OF Suc, of w addr s]
      by (simp only: sym_calc_value.simps add_Suc funpow.simps o_apply)
  qed
qed

lemma sym_calc_value_nested: "sym_calc_value n addr = (calc_step addr ^^ n) (\<lambda>s w. None)"
  by (induction n) simp_all

end
