(* ===== verification/Krange_Props.thy ===== *)
theory Krange_Props
  imports Kdepth
begin

text \<open>
  Numbers as text: what \<open>decimal_text\<close> and \<open>hex_text\<close> print is read back by \<open>strtoll\<close>, and the
  clamping of a number to its range (\<open>sym_validate_range\<close>).
\<close>

subsection \<open>Printed numbers\<close>

lemma digit_chars:
  "list_all (\<lambda>d. digit_value (''0123456789abcdef'' ! d) = d \<and> \<not> is_space (''0123456789abcdef'' ! d) \<and>
     ''0123456789abcdef'' ! d \<noteq> CHR ''-'' \<and> ''0123456789abcdef'' ! d \<noteq> CHR ''+'') [0..<16]"
  by code_simp

lemma digit_char:
  assumes "d < 16"
  shows "digit_value (''0123456789abcdef'' ! d) = d" "\<not> is_space (''0123456789abcdef'' ! d)"
    "''0123456789abcdef'' ! d \<noteq> CHR ''-''" "''0123456789abcdef'' ! d \<noteq> CHR ''+''"
  using digit_chars assms by (auto simp: list_all_iff simp del: nth_Cons_numeral)

lemma digits_value_snoc: "digits_value b (ds @ [c]) = digits_value b ds * b + digit_value c"
  by (simp add: digits_value_def)

lemma number_text_digits:
  assumes "2 \<le> b" "b \<le> 16"
  shows "digits_value b (number_text b n) = n \<and> number_text b n \<noteq> [] \<and>
     (\<forall>c \<in> set (number_text b n). digit_value c < b \<and> \<not> is_space c \<and> c \<noteq> CHR ''-'' \<and> c \<noteq> CHR ''+'')"
proof (induction n rule: less_induct)
  case (less n)
  show ?case
  proof (cases "n < b")
    case True
    then have "number_text b n = [''0123456789abcdef'' ! n]" by (subst number_text.simps) simp
    then show ?thesis using True assms digit_char[of n] by (simp add: digits_value_def)
  next
    case False
    define c where "c = ''0123456789abcdef'' ! (n mod b)"
    have step: "number_text b n = number_text b (n div b) @ [c]"
      unfolding c_def using False assms by (subst number_text.simps) simp
    have "n mod b < b" using assms by simp
    then have b: "n mod b < b" "n mod b < 16" using assms by linarith+
    note c = digit_char[OF b(2), folded c_def]
    have "n div b < n" using False assms by simp
    then show ?thesis
      using less[of "n div b"] c b(1) by (simp add: step digits_value_snoc)
  qed
qed

lemma scan_digits:
  assumes "2 \<le> b" "b \<le> 16" "number_prefix base num = (b, ds)" "dropWhile is_space s = num"
    "take 1 num \<noteq> ''-''" "take 1 num \<noteq> ''+''" "ds = number_text b n"
  shows "scan_number base s = Some (False, n, '''')"
proof -
  note t = number_text_digits[OF assms(1,2), of n]
  have *: "takeWhile (\<lambda>c. digit_value c < b) (number_text b n) = number_text b n"
    "dropWhile (\<lambda>c. digit_value c < b) (number_text b n) = []"
    using t by (simp_all add: takeWhile_eq_all_conv dropWhile_eq_Nil_conv)
  show ?thesis
    using assms(3-7) t by (simp add: scan_number_def * Let_def)
qed

lemma number_text_head:
  assumes "2 \<le> b" "b \<le> 16"
  obtains c cs where "number_text b n = c # cs" "\<not> is_space c" "c \<noteq> CHR ''-''" "c \<noteq> CHR ''+''" "digit_value c < b"
  using number_text_digits[OF assms, of n] by (cases "number_text b n") auto

lemma strtoll_decimal:
  assumes "- (2 ^ 63) \<le> v" "v \<le> 2 ^ 63 - 1"
  shows "strtoll 10 (decimal_text v) = (v, False, '''')"
proof (cases "v < 0")
  case False
  obtain c cs where c: "number_text 10 (nat v) = c # cs" "\<not> is_space c" "c \<noteq> CHR ''-''" "c \<noteq> CHR ''+''"
    by (rule number_text_head[of 10 "nat v"]) simp_all
  have "scan_number 10 (decimal_text v) = Some (False, nat v, '''')"
    by (rule scan_digits[of 10 10 "decimal_text v" "decimal_text v"])
      (use False c in \<open>simp_all add: decimal_text_def number_prefix_def\<close>)
  then show ?thesis using False assms by (simp add: strtoll_def)
next
  case True
  note t = number_text_digits[of 10 "nat (- v)", simplified]
  have *: "takeWhile (\<lambda>c. digit_value c < 10) (number_text 10 (nat (- v))) = number_text 10 (nat (- v))"
    "dropWhile (\<lambda>c. digit_value c < 10) (number_text 10 (nat (- v))) = []"
    using t by (simp_all add: takeWhile_eq_all_conv dropWhile_eq_Nil_conv)
  have "scan_number 10 (decimal_text v) = Some (True, nat (- v), '''')"
    using True t by (simp add: * scan_number_def decimal_text_def number_prefix_def is_space_def Let_def)
  then show ?thesis using True assms by (simp add: strtoll_def)
qed

lemma strtoll_hex:
  assumes "0 \<le> v" "v \<le> 2 ^ 63 - 1"
  shows "strtoll 16 (hex_text v) = (v, False, '''')"
proof -
  obtain c cs where c: "number_text 16 (nat v) = c # cs" "digit_value c < 16"
    by (rule number_text_head[of 16 "nat v"]) simp_all
  have u: "unat (word_of_int v :: u64) = nat v"
    using assms by (simp add: unat_eq_nat_uint uint_word_of_int take_bit_int_eq_self)
  have "scan_number 16 (hex_text v) = Some (False, nat v, '''')"
    by (rule scan_digits[of 16 16 "hex_text v" "number_text 16 (nat v)"])
      (use c u in \<open>simp_all add: hex_text_def number_prefix_def hex_prefix_def is_space_def\<close>)
  then show ?thesis using assms by (simp add: strtoll_def)
qed


subsection \<open>Ranges\<close>

lemma curr_put_bound: "val (curr (syms (put_bound s b w) s)) =
     Str (if sym_type (syms w s) = S_INT then decimal_text b else hex_text b)"
  by (simp add: put_bound_def set_curr_val_def)

lemma bound_text_value:
  assumes "sym_type (syms w s) = S_INT \<or> sym_type (syms w s) = S_HEX \<and> 0 \<le> b" "- (2 ^ 63) \<le> b" "b \<le> 2 ^ 63 - 1"
  shows "\<exists>str. as_string (val (curr (syms (put_bound s b w) s))) = Some str \<and>
     fst (strtoll (type_base (sym_type (syms w s)) 0) str) = b"
  using assms strtoll_decimal[of b] strtoll_hex[of b]
  by (auto simp: curr_put_bound type_base_def)

lemma calc_valid: "has_flag SYMBOL_VALID s w \<Longrightarrow> sym_calc_value (Suc n) addr s w = Some w"
  by (simp add: calc_step_def)

lemma range_val_valid:
  assumes "has_flag SYMBOL_VALID l w" "as_string (val (curr (syms w l))) = Some str"
  shows "sym_get_range_val (sym_calc_value (Suc n) addr) l base w =
     Some (fst (strtoll (type_base (sym_type (syms w l)) base) str), w)"
  using assms by (simp add: sym_get_range_val_def calc_valid del: sym_calc_value.simps)

text \<open>The number of a symbol in a base.\<close>

definition number_of :: "nat \<Rightarrow> sym \<Rightarrow> kworld \<Rightarrow> int" where
  "number_of base s w =
     fst (strtoll (type_base (sym_type (syms w s)) base) (the (as_string (val (curr (syms w s))))))"

end
