(* ===== verification/Kchange_Props.thy ===== *)
theory Kchange_Props
  imports Krange_Props Kexpr_Props
begin

text \<open>
  What the user sees of symbols: the value that \<open>sym_calc_value\<close> gives to a boolean or
  tristate symbol, the clamping of numbers to their range, and when \<open>sym_set_tristate_value\<close>
  accepts a value.
\<close>

subsection \<open>The computed value\<close>

text \<open>The last steps keep the current values and the dependencies.\<close>

definition same_values :: "kworld \<Rightarrow> kworld \<Rightarrow> bool" where
  "same_values w w' \<longleftrightarrow> (\<forall>s. curr (syms w' s) = curr (syms w s) \<and> rev_dep (syms w' s) = rev_dep (syms w s) \<and>
     sym_visible (syms w' s) = sym_visible (syms w s) \<and> sym_type (syms w' s) = sym_type (syms w s))"

lemma same_values_refl: "same_values w w"
  by (simp add: same_values_def)

lemma same_values_modules: "same_values w (w'\<lparr>modules_val := t\<rparr>) = same_values w w'"
  by (simp add: same_values_def)

lemma same_values_changed: "same_values w w' \<Longrightarrow> same_values w (sym_set_changed s w')"
  by (simp add: same_values_def sym_set_changed_def set_flag_def)

lemma same_values_fold:
  assumes "\<And>x w'. same_values w w' \<Longrightarrow> same_values w (f x w')"
  shows "same_values w w' \<Longrightarrow> same_values w (fold f xs w')"
  by (induction xs arbitrary: w') (auto intro: assms)

lemma same_values_upd:
  "same_values w w' \<Longrightarrow> (\<And>x. curr (f x) = curr x \<and> rev_dep (f x) = rev_dep x \<and> sym_visible (f x) = sym_visible x \<and>
     sym_type (f x) = sym_type x) \<Longrightarrow> same_values w (upd_sym s f w')"
  by (simp add: same_values_def)

lemma same_values_update_if:
  "same_values w w' \<Longrightarrow> (same_values w w' \<Longrightarrow> same_values w (f w')) \<Longrightarrow> same_values w (update_if b f w')"
  by (simp add: update_if_def)

lemma finish_same_values:
  assumes "finish_value addr s v w = Some w'"
  shows "same_values w w'"
proof -
  obtain w1 where w1: "mark_values s (note_change addr s v w) = Some w1"
    and rest: "(let w = update_if (has_flag SYMBOL_NO_WRITE s w1) (upd_sym s (clear_flag SYMBOL_WRITE)) w1
       in if has_flag SYMBOL_NEED_SET_CHOICE_VALUES s w then set_all_choice_values s w else Some w) = Some w'"
    using assms(1) by (auto simp: finish_value_def bind_eq_Some_conv simp del: if_split)
  have "same_values w (note_change addr s v w)"
    unfolding note_change_def sym_set_all_changed_def Let_def
    by (auto simp: same_values_modules intro!: same_values_changed same_values_fold same_values_refl)
  then have "same_values w w1"
    using w1 unfolding mark_values_def mark_value_def Let_def
    by (auto simp: bind_eq_Some_conv set_flag_def split: if_split_asm
        intro!: same_values_fold same_values_update_if same_values_changed same_values_upd)
  then have "same_values w (update_if (has_flag SYMBOL_NO_WRITE s w1) (upd_sym s (clear_flag SYMBOL_WRITE)) w1)"
    by (intro same_values_update_if same_values_upd) (simp_all add: clear_flag_def)
  with rest show ?thesis
    by (auto simp: Let_def set_all_choice_values_def bind_eq_Some_conv split: if_split_asm
        intro!: same_values_upd same_values_fold)
qed

lemma newval_selects:
  "calc_newval calc s t w = Some (t', w') \<Longrightarrow> dep_tri (rev_dep (syms w' s)) \<le> t'"
  by (auto simp: calc_newval_def EXPR_OR_max bind_eq_Some_conv)

lemma max_tri_ge: "t \<le> max_tri s t w"
  by (simp add: max_tri_def)


lemma find_data:
  assumes "map prop_data ps = map prop_data qs"
  shows "(find (\<lambda>p. prop_type p = ty) ps \<bind> prop_get_symbol) = (find (\<lambda>p. prop_type p = ty) qs \<bind> prop_get_symbol)"
  using assms
proof (induction ps arbitrary: qs)
  case (Cons p ps)
  then obtain q qs' where "qs = q # qs'" by (cases qs) auto
  with Cons show ?case by (auto simp: prop_data_def prop_get_symbol_def)
qed simp

lemma choice_of_settles: "settles w w' \<Longrightarrow> choice_of s w' = choice_of s w"
  unfolding choice_of_def sym_get_choice_prop_def
  by (rule find_data) (simp add: settles_def calms_def same_symbol_data_def)

lemma settles_type: "settles w w' \<Longrightarrow> sym_type (syms w' s) = sym_type (syms w s)"
  by (simp add: settles_def calms_def same_symbol_data_def)

lemma settles_choice_value: "settles w w' \<Longrightarrow> sym_is_choice_value s w' = sym_is_choice_value s w"
  using kind_flag[of "syms w s" "syms w' s" SYMBOL_CHOICEVAL]
  by (simp add: settles_def sym_is_choice_value_def has_flag_def)

lemma tristate_result:
  assumes "calc_tristate calc s t w = Some (t', w')"
  shows "dep_tri (rev_dep (syms w' s)) \<le> t' \<or>
     w' = w \<and> sym_is_choice_value s w \<and> sym_visible (syms w s) = T_yes \<and>
     (\<exists>cs. choice_of s w = Some cs \<and> t' = of_bool3 (val (curr (syms w cs)) = Ref s))"
proof (cases "sym_is_choice_value s w \<and> sym_visible (syms w s) = T_yes")
  case False
  then have "\<exists>t w. calc_newval calc s t w = Some (t', w')"
    using assms by (auto simp: calc_tristate_def automatic_tristate_def bind_eq_Some_conv Let_def split: if_split_asm)
  then show ?thesis using newval_selects by blast
qed (use assms in \<open>auto simp: calc_tristate_def bind_eq_Some_conv\<close>)

text \<open>The steps of \<open>sym_calc_value\<close> for a boolean or tristate symbol.\<close>

lemma typed_tristate:
  assumes run: "typed_value addr calc s w = Some w'" and ty: "sym_type (syms w s) = S_BOOLEAN \<or> sym_type (syms w s) = S_TRISTATE"
    and nochoice: "\<not> sym_is_choice s w" and calc: "value_calculator calc"
  obtains t w1 w2 nv where "settles w w1" "calc_tristate calc s t w1 = Some (nv, w2)" "settles w w2"
    "same_values (upd_sym s (\<lambda>x. x\<lparr>curr := \<lparr>val = val (curr (syms w symbol_no)), tri = max_tri s nv w2\<rparr>\<rparr>) w2) w'"
proof -
  obtain w1 sv w2 w3 w4 where
    w1: "sym_calc_visibility calc s (upd_sym s (clear_flag SYMBOL_WRITE) w) = Some w1"
    and w2: "calc_switch calc s (start_value s w) (upd_sym s (\<lambda>x. x\<lparr>curr := start_value s w\<rparr>)
       (update_if (sym_visible (syms w1 s) \<noteq> T_no) (upd_sym s (set_flag SYMBOL_WRITE)) w1)) = Some (sv, w2)"
      (is "calc_switch calc s _ ?w = _")
    and w3: "choose_value calc s (tri sv) (upd_sym s (\<lambda>x. x\<lparr>curr := sv\<rparr>) w2) = Some w3"
    and w4: "sym_validate_range calc s w3 = Some w4"
    and w': "finish_value addr s (curr (syms w s)) w4 = Some w'"
    using run by (auto simp: typed_value_def bind_eq_Some_conv Let_def)
  have s1: "settles w ?w"
    by (intro value_calculator.settles_curr[OF calc] settles_update_if settles_set
        value_calculator.visibility_keeps[OF calc w1] settles_clear) simp_all
  then have ty1: "sym_get_type s ?w = S_BOOLEAN \<or> sym_get_type s ?w = S_TRISTATE"
    using settles_type[OF s1, of s] ty by (auto simp: sym_get_type_def)
  then obtain nv where nv: "calc_tristate calc s (tri (start_value s w)) ?w = Some (nv, w2)"
    and sv: "sv = (start_value s w)\<lparr>tri := max_tri s nv w2\<rparr>"
    using w2 by (auto simp: calc_switch_def bind_eq_Some_conv)
  have s2: "settles w w2" by (rule value_calculator.tristate_keeps[OF calc nv s1])
  have "w3 = upd_sym s (\<lambda>x. x\<lparr>curr := sv\<rparr>) w2"
    using w3 settles_choice[OF s2, of s] nochoice by (simp add: choose_value_def sym_is_choice_def has_flag_def split: if_split_asm)
  moreover have "w4 = w3"
    using w4 settles_type[OF s2, of s] ty \<open>w3 = _\<close> by (auto simp: sym_validate_range_def split: if_split_asm)
  moreover have "sv = \<lparr>val = val (curr (syms w symbol_no)), tri = max_tri s nv w2\<rparr>"
    using ty by (auto simp: sv start_value_def)
  ultimately show thesis
    using that[OF s1 nv s2] finish_same_values[OF w'] by simp
qed

text \<open>
  C26.
  The value that \<open>sym_calc_value\<close> gives to a boolean or tristate symbol is never \<open>m\<close> when the
  symbol is boolean, and is at least what the selects demand; the one exception is a fully
  visible value of a choice, which is \<open>y\<close> or \<open>n\<close> depending on whether the choice chose it.
\<close>
theorem calculated_tristate_value:
  assumes run: "sym_calc_value n addr s w = Some w'" and new: "\<not> has_flag SYMBOL_VALID s w"
    and ty: "sym_type (syms w s) = S_BOOLEAN \<or> sym_type (syms w s) = S_TRISTATE"
    and nochoice: "\<not> sym_is_choice s w" "choice_of s w \<noteq> Some s"
  shows "(sym_type (syms w s) = S_BOOLEAN \<longrightarrow> tri (curr (syms w' s)) \<noteq> T_mod) \<and>
     (dep_tri (rev_dep (syms w' s)) \<le> tri (curr (syms w' s)) \<or>
      sym_is_choice_value s w \<and> sym_visible (syms w' s) = T_yes \<and>
      (\<exists>cs. choice_of s w = Some cs \<and> tri (curr (syms w' s)) = of_bool3 (val (curr (syms w' cs)) = Ref s)))"
proof -
  obtain m where n: "n = Suc m" using run by (cases n) auto
  obtain w1 where w1: "await_choice (sym_calc_value m addr) s w = Some w1"
    and rest: "(let w = upd_sym s (set_flag SYMBOL_VALID) w1
       in if sym_type (syms w s) = S_UNKNOWN then Some (upd_sym s name_value w)
          else typed_value addr (sym_calc_value m addr) s w) = Some w'"
    using run new by (auto simp: n calc_step_def bind_eq_Some_conv)
  define w2 where "w2 = upd_sym s (set_flag SYMBOL_VALID) w1"
  have s2: "settles w w2"
    unfolding w2_def by (intro settles_set calc.await_keeps[OF w1]) simp_all
  have typed: "typed_value addr (sym_calc_value m addr) s w2 = Some w'"
    using rest ty settles_type[OF s2, of s] by (auto simp flip: w2_def simp: Let_def split: if_split_asm)
  have ty2: "sym_type (syms w2 s) = S_BOOLEAN \<or> sym_type (syms w2 s) = S_TRISTATE" "\<not> sym_is_choice s w2"
    using ty settles_type[OF s2, of s] nochoice settles_choice[OF s2, of s] by simp_all
  obtain t w3 w4 nv where
    w3: "settles w2 w3" and nv: "calc_tristate (sym_calc_value m addr) s t w3 = Some (nv, w4)" and w4: "settles w2 w4"
    and w': "same_values (upd_sym s (\<lambda>x. x\<lparr>curr := \<lparr>val = val (curr (syms w2 symbol_no)), tri = max_tri s nv w4\<rparr>\<rparr>) w4) w'"
    by (rule typed_tristate[OF typed ty2 calc.value_calculator_axioms]) (rule that)
  note s3 = settles_trans[OF s2 w3] and s4 = settles_trans[OF s2 w4]
  have val: "tri (curr (syms w' s)) = max_tri s nv w4"
    and rev: "rev_dep (syms w' s) = rev_dep (syms w4 s)" "sym_visible (syms w' s) = sym_visible (syms w4 s)"
    and others: "\<And>c. c \<noteq> s \<Longrightarrow> curr (syms w' c) = curr (syms w4 c)"
    using w' by (auto simp: same_values_def)
  have "tri (curr (syms w' s)) \<noteq> T_mod" if "sym_type (syms w s) = S_BOOLEAN"
    using that settles_type[OF s4, of s] by (simp add: val max_tri_def sym_get_type_def)
  moreover have "dep_tri (rev_dep (syms w' s)) \<le> tri (curr (syms w' s)) \<or>
      sym_is_choice_value s w \<and> sym_visible (syms w' s) = T_yes \<and>
      (\<exists>cs. choice_of s w = Some cs \<and> tri (curr (syms w' s)) = of_bool3 (val (curr (syms w' cs)) = Ref s))"
    using tristate_result[OF nv]
  proof (elim disjE conjE exE)
    assume "dep_tri (rev_dep (syms w4 s)) \<le> nv"
    then have "dep_tri (rev_dep (syms w4 s)) \<le> max_tri s nv w4" by (rule order_trans[OF _ max_tri_ge])
    then show ?thesis by (simp add: val rev)
  next
    fix cs
    assume *: "w4 = w3" "sym_is_choice_value s w3" "sym_visible (syms w3 s) = T_yes" "choice_of s w3 = Some cs"
      "nv = of_bool3 (val (curr (syms w3 cs)) = Ref s)"
    then have "cs \<noteq> s" using nochoice(2) choice_of_settles[OF s3, of s] by auto
    then show ?thesis
      using * others[of cs] settles_choice_value[OF s3, of s] choice_of_settles[OF s3, of s]
      by (simp add: val rev max_tri_def of_bool3_def)
  qed
  ultimately show ?thesis by blast
qed


text \<open>
  C27.
  The recursion of \<open>sym_calc_value\<close>, which runs through dependencies, defaults, ranges and
  choices, ends whatever cycles the dependencies have: with at most \<open>k\<close> computations
  outstanding, no call is nested deeper than \<open>k + 1\<close>. Of \<open>n > k\<close> nested calls the one below the
  last may give any result, a failure or any world at all, and the outcome is the same, that of
  \<open>sym_calc_value (Suc k)\<close>; a computation that went on to the last call would show the
  difference. So \<open>None\<close> at such a depth stands for a null pointer of the code, never for a
  recursion that was cut off. The computation leaves no more work than there was and keeps what
  the user set.
\<close>
theorem calc_value_recursion_bounded:
  assumes "work_bound k w" "k < n"
  shows "(\<forall>exhausted. (calc_step addr ^^ n) exhausted s w = sym_calc_value (Suc k) addr s w) \<and>
     sym_calc_value n addr s w = sym_calc_value (Suc k) addr s w \<and>
     (\<forall>w'. sym_calc_value n addr s w = Some w' \<longrightarrow> work_bound k w' \<and>
        (\<forall>t. keeps_user (syms w t) (syms w' t) \<and> same_symbol_data (syms w t) (syms w' t)))"
proof -
  obtain d where n: "n = Suc k + d" using assms(2) less_natE[of k n] by auto
  have "settles w w' \<Longrightarrow> work_bound k w' \<and>
        (\<forall>t. keeps_user (syms w t) (syms w' t) \<and> same_symbol_data (syms w t) (syms w' t))" for w'
    using work_bound_settles[OF assms(1)] by (simp add: settles_def calms_def)
  moreover have "(calc_step addr ^^ n) ex s w = sym_calc_value (Suc k) addr s w" for ex
    using depth.agree[OF assms(1)] unfolding n .
  ultimately show ?thesis
    using calc.keeps sym_calc_value_nested[of n addr] by metis
qed

subsection \<open>Setting a value\<close>

lemma syms_clear_valid:
  "syms (fold (\<lambda>s. upd_sym s (clear_flag SYMBOL_VALID)) ss w) x =
     (if x \<in> set ss then clear_flag SYMBOL_VALID (syms w x) else syms w x)"
  by (induction ss arbitrary: w) (auto simp: clear_flag_def)

lemma clear_all_valid_keeps:
  assumes "sym_clear_all_valid (sym_calc_value n addr) w = Some w'"
  shows "keeps_user (syms w s) (syms w' s)"
proof -
  define w1 where "w1 = sym_add_change_count 1 (fold (\<lambda>s. upd_sym s (clear_flag SYMBOL_VALID)) (all_symbols w) w)"
  have "settles w1 w'"
    using assms by (intro calc.keeps) (simp add: sym_clear_all_valid_def Let_def w1_def)
  moreover have "keeps_user (syms w s) (syms w1 s)" "SYMBOL_CHOICE \<in> flags (syms w1 s) \<longleftrightarrow> SYMBOL_CHOICE \<in> flags (syms w s)"
    by (simp_all add: w1_def sym_add_change_count_def sym_set_change_count_def syms_clear_valid clear_flag_def keeps_user_def)
  ultimately show ?thesis by (simp add: settles_def calms_def keeps_user_def)
qed

text \<open>Marking symbols as set by the user changes nothing else.\<close>

definition marks_user :: "kworld \<Rightarrow> kworld \<Rightarrow> bool" where
  "marks_user w w' \<longleftrightarrow> (\<forall>x. sym_def (syms w' x) = sym_def (syms w x) \<and> props (syms w' x) = props (syms w x) \<and>
     flags (syms w x) \<subseteq> flags (syms w' x) \<and>
     flags (syms w' x) \<subseteq> flags (syms w x) \<union> {SYMBOL_DEF_USER, SYMBOL_CHANGED})"

lemma marks_user_refl: "marks_user w w"
  by (auto simp: marks_user_def)

lemma marks_user_set:
  "marks_user w w' \<Longrightarrow> f \<in> {SYMBOL_DEF_USER, SYMBOL_CHANGED} \<Longrightarrow> marks_user w (upd_sym s (set_flag f) w')"
  by (fastforce simp: marks_user_def set_flag_def)

lemma marks_user_fold:
  assumes "\<And>x w'. marks_user w w' \<Longrightarrow> marks_user w (f x w')"
  shows "marks_user w w' \<Longrightarrow> marks_user w (fold f xs w')"
  by (induction xs arbitrary: w') (auto intro: assms)

lemma marks_user_mark_new: "marks_user w (mark_new s w)"
proof -
  have "marks_user w (sym_set_changed s (upd_sym s (set_flag SYMBOL_DEF_USER) w))"
    using marks_user_set[OF marks_user_set[OF marks_user_refl, of SYMBOL_DEF_USER w s], of SYMBOL_CHANGED s]
    by (simp add: sym_set_changed_def marks_user_def)
  then show ?thesis by (simp add: mark_new_def marks_user_refl)
qed

lemma marks_user_choice: "marks_user w w' \<Longrightarrow> choice_of s w' = choice_of s w"
  by (simp add: marks_user_def choice_of_def sym_get_choice_prop_def)

lemma marks_user_is_choice: "marks_user w w' \<Longrightarrow> sym_is_choice s w' = sym_is_choice s w"
  unfolding marks_user_def sym_is_choice_def has_flag_def by blast

lemma mark_new_flag: "has_flag SYMBOL_DEF_USER s (mark_new s w)"
  by (simp add: mark_new_def has_flag_def sym_set_changed_def set_flag_def)

lemma record_choice_marks:
  assumes "record_choice s w = Some w'"
  obtains cs where "choice_of s w = Some cs"
    "marks_user (upd_sym cs (set_def_val S_DEF_USER (Ref s)) w) w'"
proof -
  obtain cs vs where cs: "choice_of s w = Some cs"
    and w': "w' = fold (\<lambda>v w. update_if (sym_visible (syms w v) \<noteq> T_no) (upd_sym v (set_flag SYMBOL_DEF_USER)) w) vs
       (upd_sym cs (set_flag SYMBOL_DEF_USER) (upd_sym cs (set_def_val S_DEF_USER (Ref s)) w))"
    using assms by (auto simp: record_choice_def bind_eq_Some_conv Let_def)
  have "marks_user (upd_sym cs (set_def_val S_DEF_USER (Ref s)) w) w'"
    unfolding w' by (intro marks_user_fold marks_user_set marks_user_refl)
      (auto simp: update_if_def intro: marks_user_set)
  with cs that show thesis by blast
qed

text \<open>
  C28.
  \<open>sym_set_tristate_value\<close> accepts exactly the present value and the values in range; a rejected
  value changes nothing. An accepted one is what the user set, also after everything was
  computed anew, and a value \<open>y\<close> of a member of a choice is recorded in the choice.
\<close>
theorem set_tristate_value_checked:
  assumes run: "sym_set_tristate_value (sym_calc_value n addr) s v w = Some (ok, w')"
  shows "(ok \<longleftrightarrow> v = sym_get_tristate_value s w \<or> sym_tristate_within_range s v w) \<and>
     (\<not> ok \<longrightarrow> w' = w) \<and>
     (ok \<and> \<not> sym_is_choice s w \<longrightarrow> sym_has_value s w' \<and> tri (sym_def (syms w' s) S_DEF_USER) = v) \<and>
     (ok \<and> sym_is_choice_value s w \<and> v = T_yes \<longrightarrow>
        (\<exists>cs. choice_of s w = Some cs \<and> val (sym_def (syms w' cs) S_DEF_USER) = Ref s))"
proof (cases "sym_get_tristate_value s w \<noteq> v \<and> \<not> sym_tristate_within_range s v w")
  case True
  then show ?thesis using run by (auto simp: sym_set_tristate_value_def)
next
  case False
  define w1 where "w1 = mark_new s w"
  have w1: "marks_user w w1" "has_flag SYMBOL_DEF_USER s w1"
    by (simp_all add: w1_def marks_user_mark_new mark_new_flag)
  have value1: "sym_is_choice_value s w1 = sym_is_choice_value s w"
    using w1(1) unfolding marks_user_def sym_is_choice_value_def has_flag_def by blast
  obtain w2 where w2: "(if sym_is_choice_value s w1 \<and> v = T_yes then record_choice s w1 else Some w1) = Some w2"
    and rest: "(if sym_get_tristate_value s w \<noteq> v
        then sym_clear_all_valid (sym_calc_value n addr) (upd_sym s (set_def_tri S_DEF_USER v) w2)
        else Some (upd_sym s (set_def_tri S_DEF_USER v) w2)) = Some w'" and ok
    using run False
    by (auto simp: sym_set_tristate_value_def Let_def bind_eq_Some_conv simp flip: w1_def simp del: if_split split: if_split_asm)
  have choice2: "(sym_is_choice s w2 \<longrightarrow> sym_is_choice s w) \<and> has_flag SYMBOL_DEF_USER s w2 \<and>
      (sym_is_choice_value s w \<and> v = T_yes \<longrightarrow>
         (\<exists>cs. choice_of s w = Some cs \<and> val (sym_def (syms w2 cs) S_DEF_USER) = Ref s))"
  proof (cases "sym_is_choice_value s w1 \<and> v = T_yes")
    case True
    then obtain cs where cs: "choice_of s w1 = Some cs" and m: "marks_user (upd_sym cs (set_def_val S_DEF_USER (Ref s)) w1) w2"
      using w2 record_choice_marks[of s w1 w2] by auto
    have "sym_is_choice s w2 = sym_is_choice s w1"
      using marks_user_is_choice[OF m, of s] by (simp add: sym_is_choice_def has_flag_def set_def_val_def)
    moreover have "has_flag SYMBOL_DEF_USER s w2"
      using m w1(2) unfolding marks_user_def has_flag_def by (auto simp: set_def_val_def split: if_split_asm)
    moreover have "val (sym_def (syms w2 cs) S_DEF_USER) = Ref s"
      using m by (simp add: marks_user_def set_def_val_def)
    ultimately show ?thesis
      using cs marks_user_choice[OF w1(1), of s] marks_user_is_choice[OF w1(1), of s] by simp
  next
    case False
    then show ?thesis
      using w2 w1 marks_user_is_choice[OF w1(1), of s] value1 by (auto split: if_split_asm)
  qed
  let ?w3 = "upd_sym s (set_def_tri S_DEF_USER v) w2"
  have "keeps_user (syms ?w3 x) (syms w' x)" for x
    using rest clear_all_valid_keeps[of n addr ?w3 w'] by (auto simp: keeps_user_def split: if_split_asm)
  then have user: "keeps_user (syms ?w3 x) (syms w' x)" for x .
  have "sym_has_value s w' \<and> tri (sym_def (syms w' s) S_DEF_USER) = v" if "\<not> sym_is_choice s w"
    using user[of s] choice2 that
    by (auto simp: keeps_user_def set_def_tri_def sym_has_value_def sym_is_choice_def has_flag_def)
  moreover have "val (sym_def (syms w' cs) S_DEF_USER) = val (sym_def (syms w2 cs) S_DEF_USER)" for cs
    using user[of cs] by (auto simp: keeps_user_def set_def_tri_def split: if_split_asm)
  ultimately show ?thesis using \<open>ok\<close> False choice2 by auto
qed

subsection \<open>Numbers in their range\<close>

text \<open>
  C29.
  Clamping a number to its range: when the bounds are computed and in order, the number that
  the stored text stands for is in the range afterwards, it is the old number when that was in
  the range, and else the bound that it violated. (A negative bound of a hexadecimal symbol is
  printed as a number of 64 bits and would read back as the largest one.)
\<close>
theorem number_clamped_to_range:
  assumes ty: "sym_type (syms w s) = S_INT \<or> sym_type (syms w s) = S_HEX \<and> 0 \<le> low"
    and range: "range_bounds (prop_at s i w) = Some (l, r)"
    and valid: "has_flag SYMBOL_VALID l w" "has_flag SYMBOL_VALID r w"
    and strs: "as_string (val (curr (syms w s))) \<noteq> None" "as_string (val (curr (syms w l))) \<noteq> None"
      "as_string (val (curr (syms w r))) \<noteq> None"
    and low: "low = number_of base l w" and high: "high = number_of base r w" and order: "low \<le> high"
    and base: "base = type_base (sym_type (syms w s)) 0"
  shows "\<exists>w'. clamp_number (sym_calc_value (Suc n) addr) s base i w = Some w' \<and>
     number_of base s w' = max low (min high (number_of base s w)) \<and>
     (low \<le> number_of base s w \<and> number_of base s w \<le> high \<longrightarrow> w' = w)"
proof -
  obtain str lo hi where str: "as_string (val (curr (syms w s))) = Some str"
    "as_string (val (curr (syms w l))) = Some lo" "as_string (val (curr (syms w r))) = Some hi"
    using strs by auto
  have base': "type_base (sym_type (syms w s)) base = base"
    using ty by (auto simp: base type_base_def)
  have num: "number_of base s w = fst (strtoll base str)" by (simp add: number_of_def str base')
  have put: "number_of base s (put_bound s b w) = b" if "b = low \<or> b = high" for b
  proof -
    have "- (2 ^ 63) \<le> b" "b \<le> 2 ^ 63 - 1"
      using that strtoll_range by (auto simp: low high number_of_def)
    moreover have "sym_type (syms w s) = S_INT \<or> sym_type (syms w s) = S_HEX \<and> 0 \<le> b"
      using ty that order by auto
    ultimately obtain str' where "as_string (val (curr (syms (put_bound s b w) s))) = Some str'"
      "fst (strtoll base str') = b" using bound_text_value[of w s b] base by auto
    moreover have "sym_type (syms (put_bound s b w) s) = sym_type (syms w s)"
      by (simp add: put_bound_def set_curr_val_def)
    ultimately show ?thesis by (simp add: number_of_def base')
  qed
  have "clamp_number (sym_calc_value (Suc n) addr) s base i w =
     Some (if \<not> low \<le> fst (strtoll base str) then put_bound s low w
           else if fst (strtoll base str) \<le> high then w else put_bound s high w)"
    using str range range_val_valid[OF valid(1) str(2)] range_val_valid[OF valid(2) str(3)]
    by (simp add: clamp_number_def Let_def low high number_of_def del: sym_calc_value.simps)
  then show ?thesis
    using put[of low] put[of high] order by (auto simp: num)
qed

subsection \<open>Examples\<close>

text \<open>An edited option: boolean, visible, set to \<open>y\<close> by the user, not computed yet.\<close>

definition example_prompt :: property where
  "example_prompt = \<lparr>prop_type = P_PROMPT, prop_text = Some ''host model'', prop_visible = no_expr_value,
     prop_expr = None, prop_menu = Some 1, prop_file = ''Kconfig'', prop_lineno = 7\<rparr>"

definition edited_world :: kworld where
  "edited_world = upd_sym (Sym 0)
     (\<lambda>x. x\<lparr>flags := {SYMBOL_DEF_USER}, sym_def := (sym_def x)(S_DEF_USER := \<lparr>val = Null, tri = T_yes\<rparr>),
            props := [example_prompt]\<rparr>) example_kworld"

lemmas edited_world_simps = edited_world_def example_prompt_def example_kworld_def example_syms_def
  plain_symbol_of_def const_symbol_def zero_symbol_def empty_symbol_def no_value_def no_expr_value_def
  has_flag_def set_flag_def clear_flag_def sym_is_choice_def sym_is_choice_value_def sym_has_value_def

lemma edited_runs: "sym_calc_value 2 (\<lambda>_ _. False) (Sym 0) edited_world \<noteq> None"
  by code_simp

lemma edited_work: "work_bound 1 edited_world"
proof -
  have "{s. pending (syms edited_world s) \<noteq> 0} = {Sym 0}"
    by (auto simp: edited_world_simps pending_def split: sym.splits if_split_asm) (metis sym.exhaust)
  then show ?thesis by (simp add: work_bound_def) (simp add: edited_world_simps pending_def)
qed


lemma calculated_tristate_value_witness:
  "\<exists>w'. sym_calc_value 2 (\<lambda>_ _. False) (Sym 0) edited_world = Some w' \<and>
     tri (curr (syms w' (Sym 0))) \<noteq> T_mod \<and>
     dep_tri (rev_dep (syms w' (Sym 0))) \<le> tri (curr (syms w' (Sym 0)))"
proof -
  obtain w' where w': "sym_calc_value 2 (\<lambda>_ _. False) (Sym 0) edited_world = Some w'"
    using edited_runs by blast
  have "sym_get_choice_prop (Sym 0) edited_world = None"
    by (simp add: sym_get_choice_prop_def edited_world_simps)
  then show ?thesis
    using calculated_tristate_value[OF w'] w'
    by (auto simp: edited_world_simps choice_of_def)
qed

text \<open>A number of cores below its range.\<close>

definition range_world :: kworld where
  "range_world = upd_sym (Sym 3) (\<lambda>x. x\<lparr>props := [example_prompt\<lparr>prop_type := P_RANGE, prop_expr := Some (E_RANGE (Sym 4) (Sym 5))\<rparr>]\<rparr>)
     (upd_sym (Sym 4) (\<lambda>x. const_symbol ''4'' T_no) (upd_sym (Sym 5) (\<lambda>x. const_symbol ''64'' T_no) example_kworld))"

lemma calc_value_recursion_bounded_witness:
  "(calc_step (\<lambda>_ _. False) ^^ 7) (\<lambda>s w. Some w) (Sym 0) edited_world = sym_calc_value 2 (\<lambda>_ _. False) (Sym 0) edited_world \<and>
   (calc_step (\<lambda>_ _. False) ^^ 2) (\<lambda>s w. Some range_world) (Sym 0) edited_world = sym_calc_value 2 (\<lambda>_ _. False) (Sym 0) edited_world \<and>
   (\<exists>w'. sym_calc_value 7 (\<lambda>_ _. False) (Sym 0) edited_world = Some w' \<and> work_bound 1 w')"
  using calc_value_recursion_bounded[OF edited_work, of 7 "\<lambda>_ _. False" "Sym 0"]
    calc_value_recursion_bounded[OF edited_work, of 2 "\<lambda>_ _. False" "Sym 0"] edited_runs
  unfolding Suc_1 by auto

lemma edited_set:
  "map_option fst (sym_set_tristate_value (sym_calc_value 1 (\<lambda>_ _. False)) (Sym 0) T_yes edited_world) = Some True"
  by code_simp

lemma set_tristate_value_checked_witness:
  "\<exists>w'. sym_set_tristate_value (sym_calc_value 1 (\<lambda>_ _. False)) (Sym 0) T_yes edited_world = Some (True, w') \<and>
     sym_has_value (Sym 0) w' \<and> tri (sym_def (syms w' (Sym 0)) S_DEF_USER) = T_yes"
proof -
  obtain w' where w': "sym_set_tristate_value (sym_calc_value 1 (\<lambda>_ _. False)) (Sym 0) T_yes edited_world = Some (True, w')"
    using edited_set by auto
  then show ?thesis
    using set_tristate_value_checked[OF w'] by (auto simp: edited_world_simps)
qed

lemma range_numbers: "number_of 10 (Sym 4) range_world = 4" "number_of 10 (Sym 5) range_world = 64"
  "number_of 10 (Sym 3) range_world = 2"
  by code_simp+

lemma number_clamped_to_range_witness:
  "\<exists>w'. clamp_number (sym_calc_value (Suc 0) (\<lambda>_ _. False)) (Sym 3) 10 0 range_world = Some w' \<and>
     number_of 10 (Sym 3) w' = 4"
proof -
  have "\<exists>w'. clamp_number (sym_calc_value (Suc 0) (\<lambda>_ _. False)) (Sym 3) 10 0 range_world = Some w' \<and>
     number_of 10 (Sym 3) w' = max 4 (min 64 (number_of 10 (Sym 3) range_world)) \<and>
     (4 \<le> number_of 10 (Sym 3) range_world \<and> number_of 10 (Sym 3) range_world \<le> 64 \<longrightarrow> w' = range_world)"
    by (rule number_clamped_to_range[where l = "Sym 4" and r = "Sym 5"])
      (simp_all add: range_numbers type_base_def prop_at_def range_bounds_def,
       simp_all add: range_world_def edited_world_simps)
  then show ?thesis by (auto simp: range_numbers)
qed

end
