(* ===== verification/Kcheck.thy ===== *)
theory Kcheck
  imports Ksymbol
begin

text \<open>
  The check for recursive dependencies (\<open>sym_check_deps\<close> and its parts in
  \<open>tools/kconfig/symbol.c\<close>): a depth-first search over the conditions of the symbols with the
  marks \<open>SYMBOL_CHECK\<close> (in progress) and \<open>SYMBOL_CHECKED\<close> (visited). A choice is checked
  together with its values.

  A function returns the symbol that closes a cycle, or \<open>None\<close> when there is none. As in
  \<open>Ksymbol\<close> the recursion is the argument \<open>check\<close>, and \<open>sym_check_deps\<close> has a depth; the
  outer \<open>None\<close> stands for a null pointer that is read or the depth that is used up. The stack of
  \<open>dep_stack\<close> entries and the report of \<open>sym_check_print_recursive\<close> that is printed from it have
  no influence on the result and are left out.
\<close>

type_synonym check = "sym \<Rightarrow> kworld \<Rightarrow> (sym option \<times> kworld) option"

text \<open>\<open>if (sym2) goto out\<close>: the next step runs only when nothing was found.\<close>

definition unless_found :: "(sym option \<times> kworld) option \<Rightarrow> (kworld \<Rightarrow> (sym option \<times> kworld) option) \<Rightarrow> (sym option \<times> kworld) option" where
  "unless_found r f = do { (found, w) \<leftarrow> r; if found = None then f w else Some (found, w) }"

fun first_found :: "('a \<Rightarrow> kworld \<Rightarrow> (sym option \<times> kworld) option) \<Rightarrow> 'a list \<Rightarrow> kworld \<Rightarrow> (sym option \<times> kworld) option" where
  "first_found f [] w = Some (None, w)"
| "first_found f (x # xs) w = unless_found (f x w) (first_found f xs)"

definition how_to_check :: "nat \<Rightarrow> kworld \<Rightarrow> (sym option \<times> kworld) option" where
  "how_to_check ty w =
     Some (None, w\<lparr>messages := messages w @ [''Oops! How to check '' @ decimal_text (int ty) @ ''?'' @ [CHR 0x0A]]\<rparr>)"

fun sym_check_expr_deps :: "check \<Rightarrow> expr \<Rightarrow> kworld \<Rightarrow> (sym option \<times> kworld) option" where
  "sym_check_expr_deps check (E_OR l r) w =
     unless_found (sym_check_expr_deps check l w) (sym_check_expr_deps check r)"
| "sym_check_expr_deps check (E_AND l r) w =
     unless_found (sym_check_expr_deps check l w) (sym_check_expr_deps check r)"
| "sym_check_expr_deps check (E_NOT e) w = sym_check_expr_deps check e w"
| "sym_check_expr_deps check (E_CMP c a b) w = unless_found (check a w) (check b)"
| "sym_check_expr_deps check (E_SYMBOL s) w = check s w"
| "sym_check_expr_deps check (E_LIST ss) w = how_to_check 10 w"
| "sym_check_expr_deps check (E_RANGE l r) w = how_to_check 12 w"

definition check_condition :: "check \<Rightarrow> expr option \<Rightarrow> kworld \<Rightarrow> (sym option \<times> kworld) option" where
  "check_condition check e w = (case e of None \<Rightarrow> Some (None, w) | Some e \<Rightarrow> sym_check_expr_deps check e w)"

text \<open>The conditions of a property that are followed, in order.\<close>

definition prop_conditions :: "bool \<Rightarrow> property \<Rightarrow> expr option list" where
  "prop_conditions choice p =
     (if prop_type p \<in> {P_CHOICE, P_SELECT, P_IMPLY} then []
      else dep_expr (prop_visible p) # (if prop_type p \<noteq> P_DEFAULT \<or> choice then [] else [prop_expr p]))"

definition sym_conditions :: "sym \<Rightarrow> kworld \<Rightarrow> expr option list" where
  "sym_conditions s w =
     [dep_expr (dir_dep (syms w s)), dep_expr (rev_dep (syms w s)), dep_expr (implied (syms w s))] @
     concat (map (prop_conditions (sym_is_choice s w)) (props (syms w s)))"

definition sym_check_sym_deps :: "check \<Rightarrow> sym \<Rightarrow> kworld \<Rightarrow> (sym option \<times> kworld) option" where
  "sym_check_sym_deps check s w = first_found (check_condition check) (sym_conditions s w) w"

definition start_check :: "sym \<Rightarrow> kworld \<Rightarrow> kworld" where
  "start_check s w = upd_sym s (set_flag SYMBOL_CHECK) (upd_sym s (set_flag SYMBOL_CHECKED) w)"

definition end_check :: "sym \<Rightarrow> kworld \<Rightarrow> kworld" where
  "end_check s w = upd_sym s (clear_flag SYMBOL_CHECK) w"

text \<open>A cycle through a value of the choice counts as one through the choice.\<close>

definition found_in_choice :: "sym \<Rightarrow> sym option \<Rightarrow> kworld \<Rightarrow> sym option option" where
  "found_in_choice choice found w =
     (case found of
        None \<Rightarrow> Some None
      | Some s \<Rightarrow>
          if sym_is_choice_value s w then do {
            p \<leftarrow> sym_get_choice_prop s w;
            Some (Some (if prop_get_symbol p = Some choice then choice else s)) }
          else Some (Some s))"

definition check_values :: "check \<Rightarrow> sym \<Rightarrow> sym list \<Rightarrow> kworld \<Rightarrow> (sym option \<times> kworld) option" where
  "check_values check choice vs w =
     unless_found (do { (found, w) \<leftarrow> sym_check_sym_deps check choice w; Some (found, end_check choice w) })
       (first_found (sym_check_sym_deps check) vs)"

definition sym_check_choice_deps :: "check \<Rightarrow> sym \<Rightarrow> kworld \<Rightarrow> (sym option \<times> kworld) option" where
  "sym_check_choice_deps check choice w = do {
     vs \<leftarrow> choice_values choice w;
     (found, w) \<leftarrow> check_values check choice vs (start_check choice (fold start_check vs w));
     let w = fold end_check vs w;
     found \<leftarrow> found_in_choice choice found w;
     Some (found, w) }"

definition check_step :: "check \<Rightarrow> sym \<Rightarrow> kworld \<Rightarrow> (sym option \<times> kworld) option" where
  "check_step check s w =
     (if has_flag SYMBOL_CHECK s w then Some (Some s, w)
      else if has_flag SYMBOL_CHECKED s w then Some (None, w)
      else if sym_is_choice_value s w then do {
        p \<leftarrow> sym_get_choice_prop s w;
        choice \<leftarrow> prop_get_symbol p;
        check choice w }
      else if sym_is_choice s w then sym_check_choice_deps check s w
      else do {
        (found, w) \<leftarrow> sym_check_sym_deps check s (start_check s w);
        Some (found, end_check s w) })"

primrec sym_check_deps :: "nat \<Rightarrow> check" where
  "sym_check_deps 0 = (\<lambda>s w. None)"
| "sym_check_deps (Suc n) = check_step (sym_check_deps n)"

text \<open>The loop of \<open>conf_parse\<close> (\<open>parser.y\<close>): the number of symbols with an error.\<close>

fun check_all_deps :: "check \<Rightarrow> sym list \<Rightarrow> kworld \<Rightarrow> (nat \<times> kworld) option" where
  "check_all_deps check [] w = Some (0, w)"
| "check_all_deps check (s # ss) w = do {
     (found, w) \<leftarrow> check s w;
     (errs, w) \<leftarrow> check_all_deps check ss w;
     Some ((if found = None then 0 else 1) + errs, w) }"

end
