(* ===== verification/Kcheck_Props.thy ===== *)
theory Kcheck_Props
  imports Kcheck Ksymbol_Props
begin

text \<open>
  Properties of the check for recursive dependencies: it ends, and when it finds nothing then
  every chain of dependencies ends, so that no symbol depends on itself.
\<close>

subsection \<open>Dependencies\<close>

fun expr_deps :: "expr \<Rightarrow> sym set" where
  "expr_deps (E_OR l r) = expr_deps l \<union> expr_deps r"
| "expr_deps (E_AND l r) = expr_deps l \<union> expr_deps r"
| "expr_deps (E_NOT e) = expr_deps e"
| "expr_deps (E_CMP c a b) = {a, b}"
| "expr_deps (E_SYMBOL s) = {s}"
| "expr_deps (E_LIST ss) = {}"
| "expr_deps (E_RANGE l r) = {}"

definition condition_deps :: "expr option \<Rightarrow> sym set" where
  "condition_deps e = (case e of None \<Rightarrow> {} | Some e \<Rightarrow> expr_deps e)"

text \<open>
  The pairs of a symbol and one that depends on it: it occurs in a dependency, a select or an
  imply of the other, in the condition of one of its properties, or in one of its defaults. What a
  symbol selects or implies depends on it, not the other way round; the defaults of a choice
  are its values.
\<close>

definition depends :: "kworld \<Rightarrow> (sym \<times> sym) set" where
  "depends w = {(t, s).
     t \<in> condition_deps (dep_expr (dir_dep (syms w s))) \<or>
     t \<in> condition_deps (dep_expr (rev_dep (syms w s))) \<or>
     t \<in> condition_deps (dep_expr (implied (syms w s))) \<or>
     (\<exists>p \<in> set (props (syms w s)). prop_type p \<noteq> P_CHOICE \<and> prop_type p \<noteq> P_SELECT \<and> prop_type p \<noteq> P_IMPLY \<and>
        (t \<in> condition_deps (dep_expr (prop_visible p)) \<or>
         (prop_type p = P_DEFAULT \<and> \<not> sym_is_choice s w \<and> t \<in> condition_deps (prop_expr p))))}"

lemma depends_iff: "(t, s) \<in> depends w \<longleftrightarrow> (\<exists>e \<in> set (sym_conditions s w). t \<in> condition_deps e)"
  by (auto simp: depends_def sym_conditions_def prop_conditions_def split: if_splits)

text \<open>The symbols whose chains of dependencies all end.\<close>

definition grounded :: "kworld \<Rightarrow> sym set" where
  "grounded w = Wellfounded.acc (depends w)"

lemma groundedI: "(\<And>t. (t, s) \<in> depends w \<Longrightarrow> t \<in> grounded w) \<Longrightarrow> s \<in> grounded w"
  unfolding grounded_def by (rule acc.accI)

lemma grounded_down: "s \<in> grounded w \<Longrightarrow> (t, s) \<in> depends w \<Longrightarrow> t \<in> grounded w"
  unfolding grounded_def by (rule acc_downward)

lemma grounded_no_cycle:
  assumes "s \<in> grounded w"
  shows "(s, s) \<notin> (depends w)\<^sup>+"
proof -
  have "s \<in> Wellfounded.acc (depends w) \<Longrightarrow> (s, s) \<notin> (depends w)\<^sup>+" for s
  proof (induction s rule: acc.induct)
    case (accI s)
    show ?case
    proof
      assume cycle: "(s, s) \<in> (depends w)\<^sup>+"
      then obtain t where t: "(t, s) \<in> depends w" and round: "(s, t) \<in> (depends w)\<^sup>*"
        by (meson tranclD2)
      then have "(t, t) \<in> (depends w)\<^sup>+" by (meson rtrancl_into_trancl2)
      then show False using accI(2)[OF t] by blast
    qed
  qed
  then show ?thesis using assms by (simp add: grounded_def)
qed

subsection \<open>Marks\<close>

definition unmarked :: "symbol \<Rightarrow> symbol" where
  "unmarked x = x\<lparr>flags := flags x - {SYMBOL_CHECK} - {SYMBOL_CHECKED}\<rparr>"

text \<open>The check changes only its two flags, and what was visited stays visited.\<close>

definition marks :: "kworld \<Rightarrow> kworld \<Rightarrow> bool" where
  "marks w w' \<longleftrightarrow> (\<forall>s. unmarked (syms w' s) = unmarked (syms w s) \<and>
     (has_flag SYMBOL_CHECKED s w \<longrightarrow> has_flag SYMBOL_CHECKED s w'))"

lemma marks_refl [simp, intro]: "marks w w"
  by (simp add: marks_def)

lemma marks_trans: "marks w w' \<Longrightarrow> marks w' w'' \<Longrightarrow> marks w w''"
  by (simp add: marks_def)

lemma unmarked_fields:
  assumes "unmarked x = unmarked y"
  shows "props x = props y" "dir_dep x = dir_dep y" "rev_dep x = rev_dep y" "implied x = implied y"
    "f \<noteq> SYMBOL_CHECK \<Longrightarrow> f \<noteq> SYMBOL_CHECKED \<Longrightarrow> f \<in> flags x \<longleftrightarrow> f \<in> flags y"
  using arg_cong[OF assms, of props] arg_cong[OF assms, of dir_dep] arg_cong[OF assms, of rev_dep]
    arg_cong[OF assms, of implied] arg_cong[OF assms, of flags]
  by (auto simp: unmarked_def)

lemma marks_same:
  assumes "marks w w'"
  shows "sym_conditions s w' = sym_conditions s w" "sym_is_choice s w' = sym_is_choice s w"
    "sym_is_choice_value s w' = sym_is_choice_value s w" "choice_of s w' = choice_of s w"
    "choice_values s w' = choice_values s w" "sym_get_choice_prop s w' = sym_get_choice_prop s w"
proof -
  have u: "unmarked (syms w' s) = unmarked (syms w s)" for s using assms by (simp add: marks_def)
  note f = unmarked_fields[OF u]
  show c: "sym_is_choice s w' = sym_is_choice s w" "sym_is_choice_value s w' = sym_is_choice_value s w"
    by (simp_all add: sym_is_choice_def sym_is_choice_value_def has_flag_def f(5))
  show "sym_conditions s w' = sym_conditions s w" "sym_get_choice_prop s w' = sym_get_choice_prop s w"
    by (simp_all add: sym_conditions_def sym_get_choice_prop_def c f(1-4))
  then show "choice_of s w' = choice_of s w" "choice_values s w' = choice_values s w"
    by (simp_all add: choice_of_def choice_values_def)
qed

lemma marks_depends: "marks w w' \<Longrightarrow> depends w' = depends w"
  by (rule set_eqI) (auto simp: depends_iff marks_same)

lemma marks_grounded: "marks w w' \<Longrightarrow> grounded w' = grounded w"
  by (simp add: grounded_def marks_depends)

lemma unmarked_flags [simp]:
  "unmarked (set_flag SYMBOL_CHECK x) = unmarked x" "unmarked (set_flag SYMBOL_CHECKED x) = unmarked x"
  "unmarked (clear_flag SYMBOL_CHECK x) = unmarked x"
  by (cases x; auto simp: unmarked_def set_flag_def clear_flag_def)+

lemma marks_start [simp]: "marks w (start_check s w)"
  by (simp add: marks_def start_check_def has_flag_def) (simp add: set_flag_def)

lemma marks_end [simp]: "marks w (end_check s w)"
  by (simp add: marks_def end_check_def has_flag_def) (simp add: clear_flag_def)

lemma marks_fold: "(\<And>s w. marks w (f s w)) \<Longrightarrow> marks w (fold f ss w)"
  by (induction ss arbitrary: w) (auto intro: marks_trans)

lemma marks_start_choice: "marks w (start_check c (fold start_check vs w))"
  by (rule marks_trans[OF marks_fold marks_start]) simp

lemma marks_messages [simp]: "marks w (w'\<lparr>messages := m\<rparr>) = marks w w'"
  by (simp add: marks_def has_flag_def)

lemma flags_start:
  "has_flag f t (start_check s w) \<longleftrightarrow> has_flag f t w \<or> (t = s \<and> (f = SYMBOL_CHECK \<or> f = SYMBOL_CHECKED))"
  by (auto simp: start_check_def has_flag_def set_flag_def)

lemma flags_end: "has_flag f t (end_check s w) \<longleftrightarrow> has_flag f t w \<and> \<not> (t = s \<and> f = SYMBOL_CHECK)"
  by (auto simp: end_check_def has_flag_def clear_flag_def)

lemma flags_start_all:
  "has_flag f t (fold start_check ss w) \<longleftrightarrow> has_flag f t w \<or> (t \<in> set ss \<and> (f = SYMBOL_CHECK \<or> f = SYMBOL_CHECKED))"
  by (induction ss arbitrary: w) (auto simp: flags_start)

lemma flags_end_all:
  "has_flag f t (fold end_check ss w) \<longleftrightarrow> has_flag f t w \<and> \<not> (t \<in> set ss \<and> f = SYMBOL_CHECK)"
  by (induction ss arbitrary: w) (auto simp: flags_end)

subsection \<open>Running steps in order\<close>

lemma unless_found_None:
  "unless_found r f = Some (None, w') \<longleftrightarrow> (\<exists>w1. r = Some (None, w1) \<and> f w1 = Some (None, w'))"
  by (auto simp: unless_found_def bind_eq_Some_conv)

lemma unless_found_marks:
  assumes "unless_found r f = Some (found, w')" and "\<And>found w1. r = Some (found, w1) \<Longrightarrow> marks w0 w1"
    and "\<And>w1 found w'. marks w0 w1 \<Longrightarrow> f w1 = Some (found, w') \<Longrightarrow> marks w0 w'"
  shows "marks w0 w'"
  using assms by (auto simp: unless_found_def bind_eq_Some_conv split: if_splits)

lemma first_found_marks:
  assumes "\<And>x w found w'. f x w = Some (found, w') \<Longrightarrow> marks w w'"
  shows "first_found f xs w = Some (found, w') \<Longrightarrow> marks w w'"
proof (induction xs arbitrary: w found w')
  case (Cons x xs)
  show ?case
    by (rule unless_found_marks[of "f x w" "first_found f xs"])
      (use Cons assms in \<open>auto intro: marks_trans\<close>)
qed simp

lemma first_found_None:
  assumes "\<And>x w w'. x \<in> set xs \<Longrightarrow> I w \<Longrightarrow> f x w = Some (None, w') \<Longrightarrow> I w' \<and> Q x"
  shows "first_found f xs w = Some (None, w') \<Longrightarrow> I w \<Longrightarrow> I w' \<and> (\<forall>x \<in> set xs. Q x)"
  using assms
proof (induction xs arbitrary: w)
  case (Cons x xs)
  then obtain w1 where w1: "f x w = Some (None, w1)" and rest: "first_found f xs w1 = Some (None, w')"
    by (auto simp: unless_found_None)
  then show ?case using Cons.IH[OF rest] Cons.prems(2,3) by auto
qed simp


subsection \<open>What the check changes\<close>

locale dependency_checker =
  fixes check :: check
  assumes check_marks: "check s w = Some (found, w') \<Longrightarrow> marks w w'"
begin

lemma check_from: "check s w = Some (found, w') \<Longrightarrow> marks w0 w \<Longrightarrow> marks w0 w'"
  using check_marks marks_trans by blast

lemma expr_marks: "sym_check_expr_deps check e w = Some (found, w') \<Longrightarrow> marks w0 w \<Longrightarrow> marks w0 w'"
proof (induction e arbitrary: w found w')
  case (E_OR l r)
  show ?case
    by (rule unless_found_marks[of "sym_check_expr_deps check l w" "sym_check_expr_deps check r"])
      (use E_OR in auto)
next
  case (E_AND l r)
  show ?case
    by (rule unless_found_marks[of "sym_check_expr_deps check l w" "sym_check_expr_deps check r"])
      (use E_AND in auto)
next
  case (E_CMP c a b)
  show ?case
    by (rule unless_found_marks[of "check a w" "check b"]) (use E_CMP check_from in auto)
qed (auto simp: how_to_check_def intro: check_from)

lemma condition_marks: "check_condition check e w = Some (found, w') \<Longrightarrow> marks w w'"
  by (auto simp: check_condition_def intro: expr_marks split: option.splits)

lemma sym_deps_marks: "sym_check_sym_deps check s w = Some (found, w') \<Longrightarrow> marks w w'"
  unfolding sym_check_sym_deps_def by (rule first_found_marks[OF condition_marks])

lemma values_marks:
  assumes "check_values check c vs w = Some (found, w')"
  shows "marks w w'"
  by (rule unless_found_marks[OF assms[unfolded check_values_def]])
    (auto simp: bind_eq_Some_conv intro: marks_trans[OF sym_deps_marks] marks_trans[OF _ first_found_marks[OF sym_deps_marks]])

lemma choice_marks:
  assumes "sym_check_choice_deps check c w = Some (found, w')"
  shows "marks w w'"
proof -
  obtain vs r w1 where v: "check_values check c vs (start_check c (fold start_check vs w)) = Some (r, w1)"
    and w': "w' = fold end_check vs w1"
    using assms by (auto simp: sym_check_choice_deps_def bind_eq_Some_conv Let_def)
  have "marks w (start_check c (fold start_check vs w))" by (rule marks_start_choice)
  then have "marks w w1" using values_marks[OF v] marks_trans by blast
  then show ?thesis unfolding w' by (rule marks_trans) (rule marks_fold, simp)
qed

lemma step_marks:
  assumes "check_step check s w = Some (found, w')"
  shows "marks w w'"
proof -
  consider "w' = w" | c where "check c w = Some (found, w')" | "sym_check_choice_deps check s w = Some (found, w')"
    | w1 where "sym_check_sym_deps check s (start_check s w) = Some (found, w1)" "w' = end_check s w1"
    using assms by (auto simp: check_step_def bind_eq_Some_conv split: if_splits)
  then show ?thesis
  proof cases
    case (4 w1)
    then have "marks (start_check s w) w1" by (simp add: sym_deps_marks)
    then show ?thesis unfolding 4(2) by (meson marks_start marks_end marks_trans)
  qed (auto intro: check_marks choice_marks)
qed

end

subsection \<open>What the check establishes\<close>

text \<open>A choice and its values name each other.\<close>

definition plain_choice :: "sym \<Rightarrow> kworld \<Rightarrow> bool" where
  "plain_choice c w \<longleftrightarrow> sym_is_choice c w \<and> \<not> sym_is_choice_value c w"

definition choices_ok :: "kworld \<Rightarrow> bool" where
  "choices_ok w \<longleftrightarrow>
     (\<forall>v. sym_is_choice_value v w \<longrightarrow>
        (\<exists>c vs. choice_of v w = Some c \<and> plain_choice c w \<and> choice_values c w = Some vs \<and> v \<in> set vs)) \<and>
     (\<forall>c. plain_choice c w \<longrightarrow> (\<exists>vs. choice_values c w = Some vs \<and> (\<forall>v \<in> set vs. sym_is_choice_value v w)))"

text \<open>
  The invariant of a search that has found nothing: a choice is visited with its values, and
  what is visited and not in progress is grounded.
\<close>

definition searching :: "kworld \<Rightarrow> bool" where
  "searching w \<longleftrightarrow> choices_ok w \<and>
     (\<forall>c vs. plain_choice c w \<longrightarrow> has_flag SYMBOL_CHECKED c w \<longrightarrow> choice_values c w = Some vs \<longrightarrow>
        (\<forall>v \<in> set vs. has_flag SYMBOL_CHECKED v w)) \<and>
     (\<forall>s. has_flag SYMBOL_CHECKED s w \<longrightarrow> \<not> has_flag SYMBOL_CHECK s w \<longrightarrow> s \<in> grounded w)"

lemma marks_choices_ok: "marks w w' \<Longrightarrow> choices_ok w' \<longleftrightarrow> choices_ok w"
  by (simp add: choices_ok_def plain_choice_def marks_same)

lemma searching_messages [simp]: "searching (w\<lparr>messages := m\<rparr>) = searching w"
proof -
  have "marks w (w\<lparr>messages := m\<rparr>)" by simp
  from marks_same[OF this] marks_grounded[OF this] marks_choices_ok[OF this] show ?thesis
    by (simp add: searching_def plain_choice_def) (simp add: has_flag_def)
qed

lemma searching_start:
  assumes "searching w" and "\<not> plain_choice s w"
  shows "searching (start_check s w)"
proof -
  have m: "marks w (start_check s w)" by simp
  show ?thesis
    using assms
    by (auto simp: searching_def marks_choices_ok[OF m] plain_choice_def marks_same[OF m] marks_grounded[OF m] flags_start)
qed

lemma searching_end:
  assumes "searching w" and "s \<in> grounded w"
  shows "searching (end_check s w)"
proof -
  have m: "marks w (end_check s w)" by simp
  show ?thesis
    using assms
    by (auto simp: searching_def marks_choices_ok[OF m] plain_choice_def marks_same[OF m] marks_grounded[OF m] flags_end)
qed

lemma searching_start_choice:
  assumes "searching w" and "plain_choice c w" and "choice_values c w = Some vs"
  shows "searching (start_check c (fold start_check vs w))"
proof -
  define w1 where "w1 = start_check c (fold start_check vs w)"
  have m: "marks w w1" unfolding w1_def by (rule marks_start_choice)
  have flags: "has_flag f t w1 \<longleftrightarrow> has_flag f t w \<or> (t \<in> insert c (set vs) \<and> (f = SYMBOL_CHECK \<or> f = SYMBOL_CHECKED))" for f t
    by (auto simp: w1_def flags_start flags_start_all)
  have members: "\<forall>v \<in> set vs. sym_is_choice_value v w"
    using assms by (auto simp: searching_def choices_ok_def)
  have "choices_ok w1" using assms(1) by (simp add: searching_def marks_choices_ok[OF m])
  moreover have "has_flag SYMBOL_CHECKED v w1"
    if "plain_choice d w1" "has_flag SYMBOL_CHECKED d w1" "choice_values d w1 = Some us" "v \<in> set us" for d us v
  proof (cases "d = c")
    case True
    then show ?thesis using that assms(3) by (simp add: flags marks_same[OF m])
  next
    case False
    then have "has_flag SYMBOL_CHECKED d w" "plain_choice d w"
      using that members by (auto simp: flags plain_choice_def marks_same[OF m])
    then show ?thesis using that(3,4) assms(1) by (simp add: flags searching_def marks_same[OF m])
  qed
  moreover have "s \<in> grounded w1" if "has_flag SYMBOL_CHECKED s w1" "\<not> has_flag SYMBOL_CHECK s w1" for s
    using that assms(1) by (simp add: flags searching_def marks_grounded[OF m])
  ultimately show ?thesis unfolding w1_def[symmetric] searching_def by blast
qed

lemma searching_end_all:
  "searching w \<Longrightarrow> set vs \<subseteq> grounded w \<Longrightarrow> searching (fold end_check vs w)"
  by (induction vs arbitrary: w) (simp_all add: searching_end marks_grounded[OF marks_end])


lemma found_in_choice_None: "found_in_choice c found w = Some None \<Longrightarrow> found = None"
  by (cases found) (auto simp: found_in_choice_def bind_eq_Some_conv split: if_splits)

lemma found_None_in_choice:
  assumes "do { (found, w) \<leftarrow> r; let w = f w; found \<leftarrow> found_in_choice c found w; Some (found, w) } = Some (None, w')"
  shows "\<exists>w1. r = Some (None, w1) \<and> w' = f w1"
  using assms by (auto simp: bind_eq_Some_conv Let_def dest: found_in_choice_None)

text \<open>The contract of a check that finds nothing.\<close>

locale sound_checker = dependency_checker +
  assumes sound: "searching w \<Longrightarrow> check s w = Some (None, w') \<Longrightarrow> searching w' \<and> s \<in> grounded w"
    and sound_choice: "searching w \<Longrightarrow> check c w = Some (None, w') \<Longrightarrow> plain_choice c w \<Longrightarrow>
      \<not> has_flag SYMBOL_CHECKED c w \<Longrightarrow> choice_values c w = Some vs \<Longrightarrow> v \<in> set vs \<Longrightarrow> v \<in> grounded w"
begin

lemma expr_sound:
  "sym_check_expr_deps check e w = Some (None, w') \<Longrightarrow> searching w \<Longrightarrow> searching w' \<and> expr_deps e \<subseteq> grounded w"
proof (induction e arbitrary: w w')
  case (E_OR l r)
  then obtain w1 where l: "sym_check_expr_deps check l w = Some (None, w1)" and r: "sym_check_expr_deps check r w1 = Some (None, w')"
    by (auto simp: unless_found_None)
  have "grounded w1 = grounded w" using marks_grounded expr_marks[OF l] by blast
  then show ?case using E_OR.IH(1)[OF l] E_OR.IH(2)[OF r] E_OR.prems(2) by simp
next
  case (E_AND l r)
  then obtain w1 where l: "sym_check_expr_deps check l w = Some (None, w1)" and r: "sym_check_expr_deps check r w1 = Some (None, w')"
    by (auto simp: unless_found_None)
  have "grounded w1 = grounded w" using marks_grounded expr_marks[OF l] by blast
  then show ?case using E_AND.IH(1)[OF l] E_AND.IH(2)[OF r] E_AND.prems(2) by simp
next
  case (E_CMP c a b)
  then obtain w1 where a: "check a w = Some (None, w1)" and b: "check b w1 = Some (None, w')"
    by (auto simp: unless_found_None)
  have "grounded w1 = grounded w" using marks_grounded check_marks[OF a] by blast
  then show ?case using sound[OF _ a] sound[OF _ b] E_CMP.prems(2) by simp
next
  case (E_SYMBOL s)
  then show ?case using sound[of w s w'] by simp
qed (auto simp: how_to_check_def)

lemma sym_deps_sound:
  assumes "sym_check_sym_deps check s w = Some (None, w')" and "searching w"
  shows "searching w' \<and> s \<in> grounded w"
proof -
  have "(marks w w' \<and> searching w') \<and> (\<forall>e \<in> set (sym_conditions s w). condition_deps e \<subseteq> grounded w)"
  proof (rule first_found_None[OF _ assms(1)[unfolded sym_check_sym_deps_def]])
    fix e w1 w2
    assume I: "marks w w1 \<and> searching w1" and run: "check_condition check e w1 = Some (None, w2)"
    have "grounded w1 = grounded w" using I marks_grounded by blast
    moreover have "marks w w2" using I condition_marks[OF run] marks_trans by blast
    moreover have "searching w2 \<and> condition_deps e \<subseteq> grounded w1"
      using run I expr_sound by (auto simp: check_condition_def condition_deps_def split: option.splits)
    ultimately show "(marks w w2 \<and> searching w2) \<and> condition_deps e \<subseteq> grounded w" by simp
  qed (use assms(2) in simp)
  then have ok: "searching w'" and deps: "\<And>e. e \<in> set (sym_conditions s w) \<Longrightarrow> condition_deps e \<subseteq> grounded w"
    by simp_all
  have "s \<in> grounded w"
  proof (rule groundedI)
    fix t assume "(t, s) \<in> depends w"
    then obtain e where "e \<in> set (sym_conditions s w)" "t \<in> condition_deps e" by (auto simp: depends_iff)
    then show "t \<in> grounded w" using deps by blast
  qed
  then show ?thesis using ok by simp
qed

lemma choice_sound:
  assumes run: "sym_check_choice_deps check c w = Some (None, w')" and "searching w" and "plain_choice c w"
    and vs: "choice_values c w = Some vs"
  shows "searching w' \<and> c \<in> grounded w \<and> set vs \<subseteq> grounded w"
proof -
  define w1 where "w1 = start_check c (fold start_check vs w)"
  obtain w2 w3 where c: "sym_check_sym_deps check c w1 = Some (None, w2)"
    and v: "first_found (sym_check_sym_deps check) vs (end_check c w2) = Some (None, w3)"
    and w': "w' = fold end_check vs w3"
    using found_None_in_choice[OF run[unfolded sym_check_choice_deps_def vs, simplified]]
    by (auto simp: check_values_def unless_found_None bind_eq_Some_conv w1_def)
  have m1: "marks w w1" unfolding w1_def by (rule marks_start_choice)
  have "searching w1" unfolding w1_def by (rule searching_start_choice[OF assms(2,3) vs])
  with c have c_ok: "searching w2" "c \<in> grounded w"
    using sym_deps_sound marks_grounded[OF m1] by auto
  have m2: "marks w (end_check c w2)"
    using marks_trans[OF m1 marks_trans[OF sym_deps_marks[OF c] marks_end]] .
  have "marks w1 w2" using sym_deps_marks[OF c] .
  then have s2: "searching (end_check c w2)"
    using searching_end c_ok marks_grounded[OF m1] marks_grounded by blast
  have "(marks w w3 \<and> searching w3) \<and> (\<forall>v \<in> set vs. v \<in> grounded w)"
  proof (rule first_found_None[OF _ v])
    fix x v1 v2
    assume I: "marks w v1 \<and> searching v1" and x: "sym_check_sym_deps check x v1 = Some (None, v2)"
    show "(marks w v2 \<and> searching v2) \<and> x \<in> grounded w"
      using sym_deps_sound[OF x] sym_deps_marks[OF x] I marks_trans marks_grounded by blast
  qed (use m2 s2 in simp)
  moreover from this have "grounded w3 = grounded w" using marks_grounded by blast
  ultimately have "searching (fold end_check vs w3)" by (intro searching_end_all) auto
  then show ?thesis using w' c_ok \<open>(marks w w3 \<and> _) \<and> _\<close> by auto
qed

lemma value_sound:
  assumes "searching w" and "sym_is_choice_value s w" and "\<not> has_flag SYMBOL_CHECKED s w"
    and "choice_of s w = Some c" and "check c w = Some (None, w')"
  shows "searching w' \<and> s \<in> grounded w"
proof -
  obtain vs where c: "plain_choice c w" "choice_values c w = Some vs" "s \<in> set vs"
    using assms(1,2,4) by (fastforce simp: searching_def choices_ok_def)
  then have "\<not> has_flag SYMBOL_CHECKED c w" using assms(1,3) by (auto simp: searching_def)
  then show ?thesis using sound sound_choice assms(1,5) c by blast
qed

lemma step_sound:
  assumes "searching w" and "check_step check s w = Some (None, w')"
  shows "searching w' \<and> s \<in> grounded w"
proof -
  consider "w' = w" "has_flag SYMBOL_CHECKED s w" "\<not> has_flag SYMBOL_CHECK s w"
    | c where "sym_is_choice_value s w" "\<not> has_flag SYMBOL_CHECKED s w" "choice_of s w = Some c" "check c w = Some (None, w')"
    | "plain_choice s w" "sym_check_choice_deps check s w = Some (None, w')"
    | w1 where "\<not> plain_choice s w" "sym_check_sym_deps check s (start_check s w) = Some (None, w1)" "w' = end_check s w1"
    using assms(2)
    by (auto simp: check_step_def plain_choice_def choice_of_def bind_eq_Some_conv split: if_splits)
  then show ?thesis
  proof cases
    case (2 c)
    then show ?thesis using value_sound assms(1) by blast
  next
    case 3
    then obtain vs where "choice_values s w = Some vs" by (auto simp: sym_check_choice_deps_def bind_eq_Some_conv)
    then show ?thesis using choice_sound 3 assms(1) by blast
  next
    case (4 w1)
    then have "searching w1" "s \<in> grounded w"
      using sym_deps_sound[OF 4(2)] searching_start[OF assms(1) 4(1)] marks_grounded[OF marks_start] by auto
    moreover have "marks w w1" using sym_deps_marks[OF 4(2)] marks_trans[OF marks_start] by blast
    ultimately show ?thesis using 4(3) searching_end marks_grounded by blast
  qed (use assms(1) in \<open>auto simp: searching_def\<close>)
qed

lemma step_sound_choice:
  assumes "searching w" and "check_step check c w = Some (None, w')" and "plain_choice c w"
    and "\<not> has_flag SYMBOL_CHECKED c w" and "choice_values c w = Some vs" and "v \<in> set vs"
  shows "v \<in> grounded w"
proof -
  have "sym_check_choice_deps check c w = Some (None, w')"
    using assms(2-4) by (auto simp: check_step_def plain_choice_def split: if_splits)
  then show ?thesis using choice_sound assms by blast
qed

end

interpretation dependency: sound_checker "sym_check_deps n" for n
proof (induction n)
  case 0
  show ?case by unfold_locales simp_all
next
  case (Suc n)
  note step = sound_checker.step_sound[OF Suc] sound_checker.step_sound_choice[OF Suc]
    dependency_checker.step_marks[OF sound_checker.axioms(1)[OF Suc]]
  show ?case
  proof
    show "\<And>s w found w'. sym_check_deps (Suc n) s w = Some (found, w') \<Longrightarrow> marks w w'"
      unfolding sym_check_deps.simps by (rule step(3))
    show "\<And>w s w'. searching w \<Longrightarrow> sym_check_deps (Suc n) s w = Some (None, w') \<Longrightarrow> searching w' \<and> s \<in> grounded w"
      unfolding sym_check_deps.simps by (rule step(1))
    show "\<And>w c w' vs v. searching w \<Longrightarrow> sym_check_deps (Suc n) c w = Some (None, w') \<Longrightarrow> plain_choice c w \<Longrightarrow>
      \<not> has_flag SYMBOL_CHECKED c w \<Longrightarrow> choice_values c w = Some vs \<Longrightarrow> v \<in> set vs \<Longrightarrow> v \<in> grounded w"
      unfolding sym_check_deps.simps by (rule step(2))
  qed
qed

end
