(* ===== verification/Kcheck_Ends.thy ===== *)
theory Kcheck_Ends
  imports Kcheck_Props
begin

text \<open>
  The check for recursive dependencies ends: with a depth of twice the number of symbols it
  delivers a result. Then what a run without errors means.
\<close>

subsection \<open>The check ends\<close>

text \<open>A finite set of symbols that their conditions and choices do not leave.\<close>

definition closed_symbols :: "sym set \<Rightarrow> kworld \<Rightarrow> bool" where
  "closed_symbols D w \<longleftrightarrow> finite D \<and>
     (\<forall>s \<in> D. (\<forall>t. (t, s) \<in> depends w \<longrightarrow> t \<in> D) \<and> (\<forall>c. choice_of s w = Some c \<longrightarrow> c \<in> D) \<and>
        (\<forall>vs. choice_values s w = Some vs \<longrightarrow> set vs \<subseteq> D))"

definition unvisited :: "sym set \<Rightarrow> kworld \<Rightarrow> nat" where
  "unvisited D w = card {s \<in> D. \<not> has_flag SYMBOL_CHECKED s w}"

lemma closed_finite: "closed_symbols D w \<Longrightarrow> finite D"
  unfolding closed_symbols_def by (rule conjunct1)

lemma unvisited_marks: "finite D \<Longrightarrow> marks w w' \<Longrightarrow> unvisited D w' \<le> unvisited D w"
  unfolding unvisited_def by (rule card_mono) (auto simp: marks_def)

lemma unvisited_less:
  assumes "finite D" and "marks w w'" and "s \<in> D" and "\<not> has_flag SYMBOL_CHECKED s w" and "has_flag SYMBOL_CHECKED s w'"
  shows "unvisited D w' < unvisited D w"
  unfolding unvisited_def by (rule psubset_card_mono) (use assms in \<open>auto simp: marks_def\<close>)

lemma stay:
  assumes "finite D" and "marks w w1" and "marks w0 w \<and> unvisited D w \<le> k"
  shows "marks w0 w1 \<and> unvisited D w1 \<le> k"
  using assms unvisited_marks[OF assms(1,2)] marks_trans[of w0 w w1] by simp

lemma closed_marks: "marks w w' \<Longrightarrow> closed_symbols D w' = closed_symbols D w"
  by (simp add: closed_symbols_def marks_depends marks_same)

text \<open>A check that delivers a result for the symbols of a set while at most \<open>k\<close> are not visited.\<close>

definition answers :: "check \<Rightarrow> sym set \<Rightarrow> kworld \<Rightarrow> nat \<Rightarrow> bool" where
  "answers check D w0 k \<longleftrightarrow> (\<forall>s \<in> D. \<forall>w. marks w0 w \<longrightarrow> unvisited D w \<le> k \<longrightarrow> check s w \<noteq> None)"

lemma unless_found_total:
  assumes "r \<noteq> None" and "\<And>w1. r = Some (None, w1) \<Longrightarrow> f w1 \<noteq> None"
  shows "unless_found r f \<noteq> None"
  using assms by (auto simp: unless_found_def)

lemma first_found_total:
  assumes "\<And>x w. x \<in> set xs \<Longrightarrow> I w \<Longrightarrow> f x w \<noteq> None"
    and "\<And>x w found w'. f x w = Some (found, w') \<Longrightarrow> I w \<Longrightarrow> I w'"
  shows "I w \<Longrightarrow> first_found f xs w \<noteq> None"
  using assms
proof (induction xs arbitrary: w)
  case (Cons x xs)
  show ?case unfolding first_found.simps
  proof (rule unless_found_total)
    show "f x w \<noteq> None" using Cons.prems by simp
    show "first_found f xs w1 \<noteq> None" if "f x w = Some (None, w1)" for w1
      using Cons.IH[of w1] Cons.prems that by simp
  qed
qed simp

context dependency_checker
begin

lemma expr_total:
  assumes "answers check D w0 k" and "finite D"
  shows "expr_deps e \<subseteq> D \<Longrightarrow> marks w0 w \<Longrightarrow> unvisited D w \<le> k \<Longrightarrow> sym_check_expr_deps check e w \<noteq> None"
proof (induction e arbitrary: w)
  case (E_OR l r)
  have "sym_check_expr_deps check r w1 \<noteq> None" if "sym_check_expr_deps check l w = Some (None, w1)" for w1
    using E_OR.IH(2)[of w1] E_OR.prems stay[OF assms(2) expr_marks[OF that marks_refl], of w0 k] by simp
  moreover have "sym_check_expr_deps check l w \<noteq> None" using E_OR.IH(1)[of w] E_OR.prems by simp
  ultimately show ?case unfolding sym_check_expr_deps.simps by (intro unless_found_total)
next
  case (E_AND l r)
  have "sym_check_expr_deps check r w1 \<noteq> None" if "sym_check_expr_deps check l w = Some (None, w1)" for w1
    using E_AND.IH(2)[of w1] E_AND.prems stay[OF assms(2) expr_marks[OF that marks_refl], of w0 k] by simp
  moreover have "sym_check_expr_deps check l w \<noteq> None" using E_AND.IH(1)[of w] E_AND.prems by simp
  ultimately show ?case unfolding sym_check_expr_deps.simps by (intro unless_found_total)
next
  case (E_CMP c a b)
  have "check b w1 \<noteq> None" if "check a w = Some (None, w1)" for w1
    using E_CMP.prems assms(1) stay[OF assms(2) check_marks[OF that], of w0 k] by (simp add: answers_def)
  moreover have "check a w \<noteq> None" using E_CMP.prems assms(1) by (simp add: answers_def)
  ultimately show ?case unfolding sym_check_expr_deps.simps by (intro unless_found_total)
qed (use assms(1) in \<open>auto simp: answers_def how_to_check_def\<close>)

lemma sym_deps_total:
  assumes "answers check D w0 k" and "closed_symbols D w0" and "s \<in> D" and "marks w0 w" and "unvisited D w \<le> k"
  shows "sym_check_sym_deps check s w \<noteq> None"
  unfolding sym_check_sym_deps_def
proof (rule first_found_total[where I = "\<lambda>w. marks w0 w \<and> unvisited D w \<le> k"])
  note D = closed_finite[OF assms(2)]
  have conds: "condition_deps e \<subseteq> D" if "e \<in> set (sym_conditions s w)" for e
  proof
    fix t assume "t \<in> condition_deps e"
    then have "(t, s) \<in> depends w0" using that by (auto simp: depends_iff marks_same(1)[OF assms(4)])
    then show "t \<in> D" using assms(2,3) unfolding closed_symbols_def by blast
  qed
  show "check_condition check e w1 \<noteq> None"
    if "e \<in> set (sym_conditions s w)" "marks w0 w1 \<and> unvisited D w1 \<le> k" for e w1
    using conds[OF that(1)] that(2) expr_total[OF assms(1) D]
    by (auto simp: check_condition_def condition_deps_def split: option.splits)
  show "marks w0 w2 \<and> unvisited D w2 \<le> k"
    if "check_condition check e w1 = Some (found, w2)" "marks w0 w1 \<and> unvisited D w1 \<le> k" for e w1 found w2
    by (rule stay[OF D condition_marks[OF that(1)] that(2)])
qed (use assms in simp)

lemma values_total:
  assumes "answers check D w0 k" and "closed_symbols D w0" and "insert c (set vs) \<subseteq> D" and "marks w0 w" and "unvisited D w \<le> k"
  shows "check_values check c vs w \<noteq> None"
proof -
  note D = closed_finite[OF assms(2)]
  obtain found w1 where c: "sym_check_sym_deps check c w = Some (found, w1)"
    using sym_deps_total[OF assms(1,2) _ assms(4,5)] assms(3) by fastforce
  have m: "marks w0 (end_check c w1)"
    by (rule marks_trans[OF assms(4) marks_trans[OF sym_deps_marks[OF c] marks_end]])
  have u: "unvisited D (end_check c w1) \<le> k"
    using unvisited_marks[OF D marks_trans[OF sym_deps_marks[OF c] marks_end]] assms(5) order_trans by blast
  have "first_found (sym_check_sym_deps check) vs (end_check c w1) \<noteq> None"
  proof (rule first_found_total[where I = "\<lambda>w. marks w0 w \<and> unvisited D w \<le> k"])
    show "sym_check_sym_deps check v w2 \<noteq> None" if "v \<in> set vs" "marks w0 w2 \<and> unvisited D w2 \<le> k" for v w2
      using sym_deps_total[OF assms(1,2)] assms(3) that by blast
    show "marks w0 w3 \<and> unvisited D w3 \<le> k"
      if "sym_check_sym_deps check v w2 = Some (r, w3)" "marks w0 w2 \<and> unvisited D w2 \<le> k" for v w2 r w3
      by (rule stay[OF D sym_deps_marks[OF that(1)] that(2)])
  qed (use m u in simp)
  then show ?thesis unfolding check_values_def c by (intro unless_found_total) auto
qed

end


lemma choice_found_total:
  assumes "choices_ok w"
  shows "found_in_choice c found w \<noteq> None"
proof (cases found)
  case (Some s)
  have "sym_get_choice_prop s w \<noteq> None" if "sym_is_choice_value s w"
    using assms that by (fastforce simp: choices_ok_def choice_of_def bind_eq_Some_conv)
  then show ?thesis using Some by (auto simp: found_in_choice_def)
qed (simp add: found_in_choice_def)

context dependency_checker
begin

lemma choice_total:
  assumes "answers check D w0 k" and "closed_symbols D w0" and "choices_ok w0" and "c \<in> D" and "plain_choice c w"
    and "marks w0 w" and "unvisited D w \<le> Suc k" and "\<not> has_flag SYMBOL_CHECKED c w"
  shows "sym_check_choice_deps check c w \<noteq> None"
proof -
  obtain vs where vs: "choice_values c w = Some vs"
    using assms(3,5) by (auto simp: choices_ok_def plain_choice_def marks_same[OF assms(6)])
  then have D: "insert c (set vs) \<subseteq> D"
    using assms(2,4) unfolding closed_symbols_def marks_same(5)[OF assms(6)] by blast
  define w1 where "w1 = start_check c (fold start_check vs w)"
  have m: "marks w w1" unfolding w1_def by (rule marks_start_choice)
  have "unvisited D w1 < unvisited D w"
    by (rule unvisited_less[OF closed_finite[OF assms(2)] m assms(4,8)]) (simp add: w1_def flags_start)
  then obtain found w2 where v: "check_values check c vs w1 = Some (found, w2)"
    using values_total[OF assms(1,2) D marks_trans[OF assms(6) m]] assms(7) by fastforce
  have "marks w (fold end_check vs w2)"
    by (rule marks_trans[OF marks_trans[OF m values_marks[OF v]] marks_fold]) simp
  then have "choices_ok (fold end_check vs w2)"
    using assms(3) marks_choices_ok marks_trans[OF assms(6)] by blast
  from choice_found_total[OF this, of c found] show ?thesis
    using vs v by (auto simp: sym_check_choice_deps_def w1_def[symmetric] Let_def)
qed

lemma plain_total:
  assumes "answers check D w0 k" and "closed_symbols D w0" and "choices_ok w0" and "s \<in> D"
    and "marks w0 w" and "unvisited D w \<le> Suc k" and "\<not> sym_is_choice_value s w"
  shows "check_step check s w \<noteq> None"
proof (cases "has_flag SYMBOL_CHECK s w \<or> has_flag SYMBOL_CHECKED s w")
  case False
  have "unvisited D (start_check s w) < unvisited D w"
    by (rule unvisited_less[OF closed_finite[OF assms(2)] marks_start assms(4)]) (use False in \<open>auto simp: flags_start\<close>)
  then have "sym_check_sym_deps check s (start_check s w) \<noteq> None"
    using sym_deps_total[OF assms(1,2,4) marks_trans[OF assms(5) marks_start]] assms(6) by simp
  moreover have "sym_check_choice_deps check s w \<noteq> None" if "sym_is_choice s w"
    using choice_total[OF assms(1-4) _ assms(5,6)] that assms(7) False by (simp add: plain_choice_def)
  ultimately show ?thesis using False assms(7) by (auto simp: check_step_def)
qed (auto simp: check_step_def)

end

lemma unvisited_pos:
  assumes "finite D" and "s \<in> D" and "\<not> has_flag SYMBOL_CHECKED s w"
  shows "0 < unvisited D w"
  unfolding unvisited_def using assms by (intro card_gt_0_iff[THEN iffD2]) auto

lemma check_deps_total:
  assumes "closed_symbols D w0" and "choices_ok w0"
  shows "(\<forall>k. 2 * k < n \<longrightarrow> answers (sym_check_deps n) D w0 k) \<and>
    (\<forall>k s w. 2 * k \<le> n \<longrightarrow> 0 < n \<longrightarrow> s \<in> D \<longrightarrow> marks w0 w \<longrightarrow> unvisited D w \<le> k \<longrightarrow> \<not> sym_is_choice_value s w \<longrightarrow>
       sym_check_deps n s w \<noteq> None)"
proof (induction n)
  case (Suc n)
  note D = closed_finite[OF assms(1)]
  have plain: "check_step (sym_check_deps n) s w \<noteq> None"
    if "2 * k \<le> Suc n" "s \<in> D" "marks w0 w" "unvisited D w \<le> k" "\<not> sym_is_choice_value s w" for k s w
  proof (cases "has_flag SYMBOL_CHECKED s w")
    case False
    then have "0 < k" using unvisited_pos[OF D that(2)] that(4) by fastforce
    then have "answers (sym_check_deps n) D w0 (k - 1)" using Suc that(1) by simp
    then show ?thesis by (rule dependency.plain_total[OF _ assms that(2,3)]) (use that(4,5) in simp_all)
  qed (simp add: check_step_def)
  have "check_step (sym_check_deps n) s w \<noteq> None"
    if "2 * k < Suc n" "s \<in> D" "marks w0 w" "unvisited D w \<le> k" for k s w
  proof (cases "sym_is_choice_value s w \<and> \<not> has_flag SYMBOL_CHECKED s w")
    case True
    then have "0 < k" using unvisited_pos[OF D that(2)] that(4) by fastforce
    have "choices_ok w" using assms(2) marks_choices_ok[OF that(3)] by simp
    then obtain c where c: "choice_of s w = Some c" "plain_choice c w"
      using True by (auto simp: choices_ok_def)
    have "c \<in> D"
      using assms(1) that(2) c(1) unfolding closed_symbols_def marks_same(4)[OF that(3)] by blast
    then have "sym_check_deps n c w \<noteq> None"
      using Suc[THEN conjunct2, rule_format, of k c w] that \<open>0 < k\<close> c(2) by (simp add: plain_choice_def)
    then show ?thesis
      using c(1) True by (auto simp: check_step_def choice_of_def bind_eq_Some_conv)
  next
    case False
    then show ?thesis using plain[OF _ that(2-4)] that(1) by (auto simp: check_step_def)
  qed
  then show ?case using plain by (auto simp: answers_def)
qed simp

subsection \<open>The loop over all symbols\<close>

lemma check_all_total:
  assumes "answers (sym_check_deps n) D w0 (unvisited D w0)" and "finite D"
  shows "set ss \<subseteq> D \<Longrightarrow> marks w0 w \<Longrightarrow> check_all_deps (sym_check_deps n) ss w \<noteq> None"
proof (induction ss arbitrary: w)
  case (Cons s ss)
  have "sym_check_deps n s w \<noteq> None"
    using assms(1) Cons.prems unvisited_marks[OF assms(2) Cons.prems(2)] by (simp add: answers_def)
  then obtain found w1 where s: "sym_check_deps n s w = Some (found, w1)" by auto
  then have "check_all_deps (sym_check_deps n) ss w1 \<noteq> None"
    using Cons dependency.check_marks[OF s] marks_trans by auto
  then show ?case using s by auto
qed simp

lemma check_all_grounded:
  "check_all_deps (sym_check_deps n) ss w = Some (0, w') \<Longrightarrow> searching w \<Longrightarrow> set ss \<subseteq> grounded w"
proof (induction ss arbitrary: w)
  case (Cons s ss)
  then obtain found w1 where s: "sym_check_deps n s w = Some (found, w1)" "found = None"
    and rest: "check_all_deps (sym_check_deps n) ss w1 = Some (0, w')"
    by (auto simp: bind_eq_Some_conv split: if_splits)
  have "searching w1 \<and> s \<in> grounded w" using dependency.sound s Cons.prems(2) by blast
  moreover have "grounded w1 = grounded w" using s dependency.check_marks marks_grounded by blast
  ultimately show ?case using Cons.IH[OF rest] by simp
qed simp

text \<open>
  C35.
  The check for recursive dependencies of a parsed configuration, started with no marks, ends
  with a depth of twice the number of symbols, and when it counts no error then no symbol that
  was checked, and none that one of them depends on, directly or not, depends on itself.
\<close>

theorem dependency_check_sound:
  assumes "closed_symbols D w" and "choices_ok w" and "\<forall>s. \<not> has_flag SYMBOL_CHECKED s w" and "set ss \<subseteq> D"
  shows "case check_all_deps (sym_check_deps (2 * card D + 1)) ss w of
      None \<Rightarrow> False
    | Some (errs, w') \<Rightarrow> errs = 0 \<longrightarrow>
        (\<forall>s \<in> set ss. \<forall>t. (t, s) \<in> (depends w)\<^sup>* \<longrightarrow> (t, t) \<notin> (depends w)\<^sup>+)"
proof -
  have "unvisited D w = card D" using assms(3) by (simp add: unvisited_def)
  then have "answers (sym_check_deps (2 * card D + 1)) D w (unvisited D w)"
    using check_deps_total[OF assms(1,2), of "2 * card D + 1"] by simp
  then have "check_all_deps (sym_check_deps (2 * card D + 1)) ss w \<noteq> None"
    by (rule check_all_total[OF _ closed_finite[OF assms(1)] assms(4) marks_refl])
  moreover have "\<forall>s \<in> set ss. \<forall>t. (t, s) \<in> (depends w)\<^sup>* \<longrightarrow> (t, t) \<notin> (depends w)\<^sup>+"
    if "check_all_deps (sym_check_deps (2 * card D + 1)) ss w = Some (0, w')" for w'
  proof (intro ballI allI impI)
    fix s t assume s: "s \<in> set ss" and path: "(t, s) \<in> (depends w)\<^sup>*"
    have "searching w" using assms(2,3) by (simp add: searching_def)
    then have "s \<in> grounded w" using check_all_grounded[OF that] s by blast
    from path this have "t \<in> grounded w"
      by (induction rule: converse_rtrancl_induct) (auto dest: grounded_down)
    then show "(t, t) \<notin> (depends w)\<^sup>+" by (rule grounded_no_cycle)
  qed
  ultimately show ?thesis by (auto split: option.splits)
qed


subsection \<open>Examples\<close>

definition on_symbol :: "sym \<Rightarrow> symbol \<Rightarrow> symbol" where
  "on_symbol t x = x\<lparr>dir_dep := \<lparr>dep_expr = Some (E_SYMBOL t), dep_tri = T_no\<rparr>\<rparr>"

definition unchecked_world :: kworld where
  "unchecked_world = \<lparr>syms = (\<lambda>_. zero_symbol), symbol_hash = (\<lambda>_. []), next_sym = 2, modules_sym = Sym 0,
     modules_val = T_no, sym_change_count = 0, menu_changed = {}, messages = []\<rparr>"

definition chain_world :: kworld where
  "chain_world = upd_sym (Sym 0) (on_symbol (Sym 1)) unchecked_world"

definition cycle_world :: kworld where
  "cycle_world = upd_sym (Sym 1) (on_symbol (Sym 0)) chain_world"

lemma cycle_reported:
  "map_option fst (check_all_deps (sym_check_deps 5) [Sym 0, Sym 1] cycle_world) = Some 1"
  by code_simp

lemma chain_accepted:
  "map_option fst (check_all_deps (sym_check_deps 5) [Sym 0, Sym 1] chain_world) = Some 0"
  by code_simp

lemmas chain_simps = chain_world_def unchecked_world_def on_symbol_def zero_symbol_def no_expr_value_def
  has_flag_def sym_is_choice_def sym_is_choice_value_def

lemma chain_choices:
  "choices_ok chain_world" "choice_of s chain_world = None" "choice_values s chain_world = None"
  by (auto simp: choices_ok_def plain_choice_def choice_of_def choice_values_def sym_get_choice_prop_def chain_simps)

lemma chain_depends: "depends chain_world = {(Sym 1, Sym 0)}"
  by (auto simp: depends_def condition_deps_def chain_simps split: if_splits)

theorem dependency_check_sound_witness:
  "(Sym 0, Sym 0) \<notin> (depends chain_world)\<^sup>+ \<and> (Sym 1, Sym 0) \<in> depends chain_world"
proof -
  obtain w' where "check_all_deps (sym_check_deps 5) [Sym 0, Sym 1] chain_world = Some (0, w')"
    using chain_accepted by auto
  moreover have "closed_symbols {Sym 0, Sym 1} chain_world"
    by (auto simp: closed_symbols_def chain_depends chain_choices)
  moreover have "\<forall>s. \<not> has_flag SYMBOL_CHECKED s chain_world" by (simp add: chain_simps)
  ultimately show ?thesis
    using dependency_check_sound[of "{Sym 0, Sym 1}" chain_world "[Sym 0, Sym 1]"] chain_choices(1)
    by (simp add: chain_depends)
qed

end
