(* ===== verification/Kpreproc.thy ===== *)
theory Kpreproc
  imports Cstring
begin

text \<open>
  The macro language of the configuration files (\<open>tools/kconfig/preprocess.c\<close>): variables,
  user-defined and built-in functions and references to the environment.

  The host is a parameter: the environment, the output of shell commands (which may depend on
  the commands run before), the name of the current file and the line. A function returns a
  fault or a result with the new state. \<open>eval_clause\<close> calls itself through the expansion of
  strings; the functions take it as the argument \<open>ev\<close>, and \<open>eval_clause\<close> is cut off at a
  recursion depth that \<open>Kpreproc_Props\<close> proves to be sufficient.
\<close>

subsection \<open>State\<close>

datatype variable_flavor = VAR_SIMPLE | VAR_RECURSIVE | VAR_APPEND

text \<open>\<open>struct variable\<close>; a value that was freed is \<open>None\<close>.\<close>

record variable =
  v_name :: string
  v_value :: "string option"
  v_flavor :: variable_flavor
  v_exp_count :: nat

record preproc =
  env_list :: "(string \<times> string) list"
  variable_list :: "variable list"
  pp_stdout :: "string list"
  pp_stderr :: "string list"
  pp_commands :: "string list"

record pp_host =
  host_getenv :: "string \<Rightarrow> string option"
  host_shell :: "string list \<Rightarrow> string \<Rightarrow> string option"
  current_file :: string
  yylineno :: int

text \<open>
  How a run ends early: a message of \<open>pperror\<close>, a failed command (\<open>perror\<close>), an access to
  memory that is not owned, or the recursion depth of the model.
\<close>

datatype pp_fault = PP_Error string | PP_Perror string | PP_Undefined | PP_Depth

definition and_then :: "'e + 'a \<Rightarrow> ('a \<Rightarrow> 'e + 'b) \<Rightarrow> 'e + 'b" where
  "and_then r f = (case r of Inl e \<Rightarrow> Inl e | Inr x \<Rightarrow> f x)"

definition pperror :: "pp_host \<Rightarrow> string \<Rightarrow> pp_fault" where
  "pperror h msg = PP_Error (current_file h @ '':'' @ decimal_text (yylineno h) @ '': '' @ msg)"

subsection \<open>Environment\<close>

definition env_add :: "string \<Rightarrow> string \<Rightarrow> preproc \<Rightarrow> preproc" where
  "env_add n v st = st\<lparr>env_list := env_list st @ [(n, v)]\<rparr>"

text \<open>A variable of the environment is remembered with the value of its first use.\<close>

definition env_expand :: "pp_host \<Rightarrow> string \<Rightarrow> preproc \<Rightarrow> string option \<times> preproc" where
  "env_expand h n st =
     (if n = '''' then (None, st)
      else case find (\<lambda>e. fst e = n) (env_list st) of
             Some e \<Rightarrow> (Some (snd e), st)
           | None \<Rightarrow>
               (case host_getenv h n of
                  None \<Rightarrow> (None, st)
                | Some v \<Rightarrow> (Some v, env_add n v st)))"

definition env_dep_lines :: "string \<Rightarrow> string \<times> string \<Rightarrow> string list" where
  "env_dep_lines autoconfig e =
     [''ifneq '' @ [CHR 0x22] @ ''$('' @ fst e @ '')'' @ [CHR 0x22] @ '' '' @ [CHR 0x22] @ snd e @ [CHR 0x22, CHR 0x0A],
      autoconfig @ '': FORCE'' @ [CHR 0x0A], ''endif'' @ [CHR 0x0A]]"

definition env_write_dep :: "string \<Rightarrow> preproc \<Rightarrow> string list \<times> preproc" where
  "env_write_dep autoconfig st =
     (concat (map (env_dep_lines autoconfig) (env_list st)), st\<lparr>env_list := []\<rparr>)"

subsection \<open>Built-in functions\<close>

type_synonym 'a pp = "preproc \<Rightarrow> pp_fault + 'a \<times> preproc"

definition do_error_if :: "pp_host \<Rightarrow> string list \<Rightarrow> string pp" where
  "do_error_if h argv st = (if argv ! 0 = ''y'' then Inl (pperror h (argv ! 1)) else Inr ('''', st))"

definition do_filename :: "pp_host \<Rightarrow> string list \<Rightarrow> string pp" where
  "do_filename h argv st = Inr (current_file h, st)"

definition do_info :: "pp_host \<Rightarrow> string list \<Rightarrow> string pp" where
  "do_info h argv st = Inr ('''', st\<lparr>pp_stdout := pp_stdout st @ [argv ! 0 @ [CHR 0x0A]]\<rparr>)"

definition do_lineno :: "pp_host \<Rightarrow> string list \<Rightarrow> string pp" where
  "do_lineno h argv st = Inr (decimal_text (yylineno h), st)"

text \<open>At most 255 bytes of the output, without newlines at the end; a NUL ends the string.\<close>

definition shell_text :: "string \<Rightarrow> string" where
  "shell_text out =
     (let buf = take 255 out;
          buf = rev (dropWhile (\<lambda>c. c = CHR 0x0A) (rev buf))
      in takeWhile (\<lambda>c. c \<noteq> CHR 0x00) (map (\<lambda>c. if c = CHR 0x0A then CHR '' '' else c) buf))"

definition do_shell :: "pp_host \<Rightarrow> string list \<Rightarrow> string pp" where
  "do_shell h argv st =
     (case host_shell h (pp_commands st) (argv ! 0) of
        None \<Rightarrow> Inl (PP_Perror (argv ! 0))
      | Some out \<Rightarrow> Inr (shell_text out, st\<lparr>pp_commands := pp_commands st @ [argv ! 0]\<rparr>))"

definition do_warning_if :: "pp_host \<Rightarrow> string list \<Rightarrow> string pp" where
  "do_warning_if h argv st =
     Inr ('''', if argv ! 0 = ''y''
                then st\<lparr>pp_stderr := pp_stderr st @
                       [current_file h @ '':'' @ decimal_text (yylineno h) @ '': '' @ argv ! 1 @ [CHR 0x0A]]\<rparr>
                else st)"

text \<open>Name, least and largest number of arguments, function.\<close>

definition function_table :: "(string \<times> nat \<times> nat \<times> (pp_host \<Rightarrow> string list \<Rightarrow> string pp)) list" where
  "function_table =
     [(''error-if'', 2, 2, do_error_if), (''filename'', 0, 0, do_filename), (''info'', 1, 1, do_info),
      (''lineno'', 0, 0, do_lineno), (''shell'', 1, 1, do_shell), (''warning-if'', 2, 2, do_warning_if)]"

definition FUNCTION_MAX_ARGS :: nat where
  "FUNCTION_MAX_ARGS = 16"

definition function_expand :: "pp_host \<Rightarrow> string \<Rightarrow> string list \<Rightarrow> string option pp" where
  "function_expand h name argv st =
     (case find (\<lambda>f. fst f = name) function_table of
        None \<Rightarrow> Inr (None, st)
      | Some (n, min_args, max_args, func) \<Rightarrow>
          if length argv < min_args
          then Inl (pperror h (''too few function arguments passed to '' @ [CHR 0x27] @ name @ [CHR 0x27]))
          else if max_args < length argv
          then Inl (pperror h (''too many function arguments passed to '' @ [CHR 0x27] @ name @ [CHR 0x27]))
          else and_then (func h argv st) (\<lambda>(r, st). Inr (Some r, st)))"

subsection \<open>Variables\<close>

definition variable_lookup :: "string \<Rightarrow> preproc \<Rightarrow> nat option" where
  "variable_lookup n st =
     find (\<lambda>i. v_name (variable_list st ! i) = n) [0..<length (variable_list st)]"

definition var_at :: "nat \<Rightarrow> preproc \<Rightarrow> variable" where
  "var_at i st = variable_list st ! i"

definition upd_var :: "nat \<Rightarrow> (variable \<Rightarrow> variable) \<Rightarrow> preproc \<Rightarrow> preproc" where
  "upd_var i f st = st\<lparr>variable_list := (variable_list st)[i := f (variable_list st ! i)]\<rparr>"

text \<open>
  The text that follows a dollar sign: no parenthesis, a clause up to the closing parenthesis
  with the rest, or an unterminated reference.
\<close>

datatype dollar = Literal string | Clause string string | Unterminated string

fun find_close :: "nat \<Rightarrow> string \<Rightarrow> (string \<times> string) option" where
  "find_close nest [] = None"
| "find_close nest (c # q) =
     (if c = CHR ''('' then map_option (map_prod ((#) c) id) (find_close (Suc nest) q)
      else if c = CHR '')'' then
        (case nest of 0 \<Rightarrow> Some ([], q) | Suc k \<Rightarrow> map_option (map_prod ((#) c) id) (find_close k q))
      else map_option (map_prod ((#) c) id) (find_close nest q))"

definition scan_dollar :: "string \<Rightarrow> dollar" where
  "scan_dollar p =
     (case p of
        c # q \<Rightarrow>
          if c = CHR ''('' then
            (case find_close 0 q of None \<Rightarrow> Unterminated q | Some (cl, rest) \<Rightarrow> Clause cl rest)
          else Literal p
      | [] \<Rightarrow> Literal p)"

lemma find_close_length: "find_close nest s = Some (cl, rest) \<Longrightarrow> length s = length cl + 1 + length rest"
  by (induction nest s arbitrary: cl rest rule: find_close.induct)
    (auto split: if_splits nat.splits)

lemma scan_dollar_length:
  "scan_dollar p = Literal r \<Longrightarrow> length r \<le> length p"
  "scan_dollar p = Clause cl r \<Longrightarrow> length cl + length r + 2 = length p"
  by (auto simp: scan_dollar_def dest: find_close_length split: list.splits if_splits option.splits)

text \<open>
  \<open>__expand_string\<close> returns the expansion and the rest of the string, from the character that
  ends it. \<open>ev\<close> evaluates a clause with the arguments of the enclosing call.
\<close>

type_synonym clause_eval = "string list \<Rightarrow> string \<Rightarrow> string pp"

definition expand_dollar_with_args :: "pp_host \<Rightarrow> clause_eval \<Rightarrow> string list \<Rightarrow> string \<Rightarrow> (string \<times> string) pp" where
  "expand_dollar_with_args h ev argv p st =
     (case scan_dollar p of
        Literal r \<Rightarrow> Inr ((''$'', r), st)
      | Unterminated q \<Rightarrow>
          Inl (pperror h (''unterminated reference to '' @ [CHR 0x27] @ q @ [CHR 0x27] @ '': missing '' @
                 [CHR 0x27] @ '')'' @ [CHR 0x27]))
      | Clause cl r \<Rightarrow> and_then (ev argv cl st) (\<lambda>(e, st). Inr ((e, r), st)))"

lemma expand_dollar_length:
  "expand_dollar_with_args h ev argv p st = Inr ((e, r), st') \<Longrightarrow> length r \<le> length p"
  by (auto simp: expand_dollar_with_args_def and_then_def dest: scan_dollar_length
      split: dollar.splits sum.splits)

function expand_chars ::
  "pp_host \<Rightarrow> clause_eval \<Rightarrow> (char \<Rightarrow> bool) \<Rightarrow> string list \<Rightarrow> string \<Rightarrow> (string \<times> string) pp" where
  "expand_chars h ev is_end argv s st =
     (case s of
        [] \<Rightarrow> Inr (([], []), st)
      | c # p \<Rightarrow>
          if c = CHR ''$'' then
            (case expand_dollar_with_args h ev argv p st of
               Inl e \<Rightarrow> Inl e
             | Inr ((e, r), st) \<Rightarrow>
                 and_then (expand_chars h ev is_end argv r st) (\<lambda>((out, rest), st). Inr ((e @ out, rest), st)))
          else if is_end c then Inr (([], s), st)
          else and_then (expand_chars h ev is_end argv p st) (\<lambda>((out, rest), st). Inr ((c # out, rest), st)))"
  by pat_completeness auto

termination
  by (relation "measure (\<lambda>(h, ev, is_end, argv, s, st). length s)")
    (auto dest!: expand_dollar_length)

declare expand_chars.simps [simp del]

definition is_end_of_str :: "char \<Rightarrow> bool" where
  "is_end_of_str c \<longleftrightarrow> c = CHR 0x00"

definition is_end_of_token :: "char \<Rightarrow> bool" where
  "is_end_of_token c \<longleftrightarrow> \<not> (is_alnum c \<or> c = CHR ''_'' \<or> c = CHR ''-'')"

definition expand_string_with_args :: "pp_host \<Rightarrow> clause_eval \<Rightarrow> string list \<Rightarrow> string \<Rightarrow> string pp" where
  "expand_string_with_args h ev argv s st =
     and_then (expand_chars h ev is_end_of_str argv s st) (\<lambda>((out, rest), st). Inr (out, st))"

text \<open>The value of a variable, with its use counted while it is expanded.\<close>

definition variable_value :: "pp_host \<Rightarrow> clause_eval \<Rightarrow> string list \<Rightarrow> variable \<Rightarrow> string pp" where
  "variable_value h ev argv v st =
     (case v_value v of
        None \<Rightarrow> Inl PP_Undefined
      | Some val \<Rightarrow>
          if v_flavor v = VAR_RECURSIVE then expand_string_with_args h ev argv val st else Inr (val, st))"

definition variable_expand :: "pp_host \<Rightarrow> clause_eval \<Rightarrow> string \<Rightarrow> string list \<Rightarrow> string option pp" where
  "variable_expand h ev name argv st =
     (case variable_lookup name st of
        None \<Rightarrow> Inr (None, st)
      | Some i \<Rightarrow>
          if argv = [] \<and> 0 < v_exp_count (var_at i st)
          then Inl (pperror h (''Recursive variable '' @ [CHR 0x27] @ name @ [CHR 0x27] @
                      '' references itself (eventually)''))
          else if 1000 < v_exp_count (var_at i st) then Inl (pperror h ''Too deep recursive expansion'')
          else
            and_then (variable_value h ev argv (var_at i st) (upd_var i (v_exp_count_update Suc) st))
              (\<lambda>(res, st). Inr (Some res, upd_var i (v_exp_count_update (\<lambda>n. n - 1)) st)))"

subsection \<open>Clauses\<close>

text \<open>The parts of a clause between the commas outside of parentheses.\<close>

fun split_clause :: "int \<Rightarrow> string \<Rightarrow> string list" where
  "split_clause nest [] = [[]]"
| "split_clause nest (c # p) =
     (if nest = 0 \<and> c = CHR '','' then [] # split_clause nest p
      else let nest = (if c = CHR ''('' then nest + 1 else if c = CHR '')'' then nest - 1 else nest);
               parts = split_clause nest p
           in (c # hd parts) # tl parts)"

text \<open>
  The array of the arguments has \<open>FUNCTION_MAX_ARGS\<close> elements. Each comma checks that there
  is room; the last part is stored without a check.
\<close>

definition clause_parts :: "pp_host \<Rightarrow> string \<Rightarrow> pp_fault + string list" where
  "clause_parts h s =
     (let parts = split_clause 0 s
      in if FUNCTION_MAX_ARGS < length parts - 1 then Inl (pperror h ''too many function arguments'')
         else if FUNCTION_MAX_ARGS < length parts then Inl PP_Undefined
         else Inr parts)"

fun expand_all :: "pp_host \<Rightarrow> clause_eval \<Rightarrow> string list \<Rightarrow> string list \<Rightarrow> string list pp" where
  "expand_all h ev argv [] st = Inr ([], st)"
| "expand_all h ev argv (s # ss) st =
     and_then (expand_string_with_args h ev argv s st)
       (\<lambda>(r, st). and_then (expand_all h ev argv ss st) (\<lambda>(rs, st). Inr (r # rs, st)))"

text \<open>A number that names an argument of the enclosing call.\<close>

definition argument_number :: "string list \<Rightarrow> string \<Rightarrow> string option" where
  "argument_number argv s =
     (case strtoull 10 s of
        (n, _, tail) \<Rightarrow>
          if tail = [] \<and> 0 < unat n \<and> unat n \<le> length argv then Some (argv ! (unat n - 1)) else None)"

definition call :: "pp_host \<Rightarrow> clause_eval \<Rightarrow> string \<Rightarrow> string list \<Rightarrow> string pp" where
  "call h ev name args st =
     and_then (variable_expand h ev name args st) (\<lambda>(res, st).
       case res of
         Some r \<Rightarrow> Inr (r, st)
       | None \<Rightarrow>
           and_then (function_expand h name args st) (\<lambda>(res, st).
             case res of
               Some r \<Rightarrow> Inr (r, st)
             | None \<Rightarrow>
                 if args = []
                 then (case env_expand h name st of (Some v, st) \<Rightarrow> Inr (v, st) | (None, st) \<Rightarrow> Inr ('''', st))
                 else Inr ('''', st)))"

definition clause_step :: "pp_host \<Rightarrow> clause_eval \<Rightarrow> string list \<Rightarrow> string \<Rightarrow> string pp" where
  "clause_step h ev argv s st =
     (case argument_number argv s of
        Some a \<Rightarrow> Inr (a, st)
      | None \<Rightarrow>
          and_then (clause_parts h s) (\<lambda>parts.
            and_then (expand_all h ev argv parts st) (\<lambda>(vals, st).
              call h ev (hd vals) (tl vals) st)))"

primrec eval_clause :: "nat \<Rightarrow> pp_host \<Rightarrow> clause_eval" where
  "eval_clause 0 h = (\<lambda>argv s st. Inl PP_Depth)"
| "eval_clause (Suc n) h = clause_step h (eval_clause n h)"

subsection \<open>What the parser calls\<close>

definition expand_dollar :: "nat \<Rightarrow> pp_host \<Rightarrow> string \<Rightarrow> (string \<times> string) pp" where
  "expand_dollar n h s st = expand_dollar_with_args h (eval_clause n h) [] s st"

definition expand_string :: "nat \<Rightarrow> pp_host \<Rightarrow> string \<Rightarrow> string pp" where
  "expand_string n h s st = expand_string_with_args h (eval_clause n h) [] s st"

definition expand_one_token :: "nat \<Rightarrow> pp_host \<Rightarrow> string \<Rightarrow> (string \<times> string) pp" where
  "expand_one_token n h s st = expand_chars h (eval_clause n h) is_end_of_token [] s st"

text \<open>
  \<open>variable_add\<close>: \<open>+=\<close> keeps the flavor of a defined variable. The old value of a variable
  that is redefined is freed before the new one is expanded.
\<close>

definition new_variable :: "string \<Rightarrow> preproc \<Rightarrow> preproc" where
  "new_variable name st =
     st\<lparr>variable_list := variable_list st @ [\<lparr>v_name = name, v_value = None, v_flavor = VAR_RECURSIVE, v_exp_count = 0\<rparr>]\<rparr>"

definition prepare_variable :: "string \<Rightarrow> variable_flavor \<Rightarrow> preproc \<Rightarrow> nat \<times> bool \<times> variable_flavor \<times> preproc" where
  "prepare_variable name flavor st =
     (case variable_lookup name st of
        Some i \<Rightarrow>
          if flavor = VAR_APPEND then (i, True, v_flavor (var_at i st), st)
          else (i, False, flavor, upd_var i (v_value_update (\<lambda>_. None)) st)
      | None \<Rightarrow>
          (length (variable_list st), False, if flavor = VAR_APPEND then VAR_RECURSIVE else flavor, new_variable name st))"

definition variable_add :: "nat \<Rightarrow> pp_host \<Rightarrow> string \<Rightarrow> string \<Rightarrow> variable_flavor \<Rightarrow> preproc \<Rightarrow> pp_fault + preproc" where
  "variable_add n h name value flavor st =
     (case prepare_variable name flavor st of
        (i, appends, flavor, st) \<Rightarrow>
          let st = upd_var i (v_flavor_update (\<lambda>_. flavor)) st
          in and_then (if flavor = VAR_SIMPLE then expand_string n h value st else Inr (value, st)) (\<lambda>(new_value, st).
               if appends then
                 (case v_value (var_at i st) of
                    None \<Rightarrow> Inl PP_Undefined
                  | Some old \<Rightarrow> Inr (upd_var i (v_value_update (\<lambda>_. Some (old @ '' '' @ new_value))) st))
               else Inr (upd_var i (v_value_update (\<lambda>_. Some new_value)) st)))"

definition variable_all_del :: "preproc \<Rightarrow> preproc" where
  "variable_all_del st = st\<lparr>variable_list := []\<rparr>"

end
