(* ===== verification/Kpreproc_Props.thy ===== *)
theory Kpreproc_Props
  imports Kpreproc
begin

text \<open>
  Properties of the macro language: expansion ends and leaves the variables as they were, a
  function call with seventeen parts writes behind the array of its arguments, and a simple
  variable that is redefined in terms of itself reads a freed value.
\<close>

lemma and_then_simps [simp]: "and_then (Inl e) f = Inl e" "and_then (Inr x) f = f x"
  by (simp_all add: and_then_def)

lemma and_then_Inr: "and_then r f = Inr y \<longleftrightarrow> (\<exists>x. r = Inr x \<and> f x = Inr y)"
  by (cases r) simp_all

lemma and_then_Inl: "and_then r f = Inl e \<longleftrightarrow> r = Inl e \<or> (\<exists>x. r = Inr x \<and> f x = Inl e)"
  by (cases r) simp_all

lemma lookup_less: "variable_lookup name st = Some i \<Longrightarrow> i < length (variable_list st) \<and> v_name (var_at i st) = name"
  by (auto simp: variable_lookup_def var_at_def find_Some_iff split: option.splits)

subsection \<open>Expansion leaves the variables as they were\<close>

lemma builtin_balanced:
  "(n, lo, hi, f) \<in> set function_table \<Longrightarrow> f h args st = Inr (r, st') \<Longrightarrow> variable_list st' = variable_list st"
  by (auto simp: function_table_def do_error_if_def do_filename_def do_info_def do_lineno_def do_shell_def
      do_warning_if_def split: if_splits option.splits)

lemma find_member: "find P xs = Some x \<Longrightarrow> x \<in> set xs"
  by (auto simp: find_Some_iff)

lemma function_balanced:
  "function_expand h name args st = Inr (r, st') \<Longrightarrow> variable_list st' = variable_list st"
  unfolding function_expand_def
  by (auto simp: and_then_Inr split: if_splits option.splits) (metis find_member builtin_balanced)

text \<open>The contract of the evaluation of clauses.\<close>

locale clause_evaluator =
  fixes h :: pp_host and ev :: clause_eval
  assumes balanced: "ev argv s st = Inr (r, st') \<Longrightarrow> variable_list st' = variable_list st"
begin

lemma dollar_balanced:
  "expand_dollar_with_args h ev argv s st = Inr (r, st') \<Longrightarrow> variable_list st' = variable_list st"
  by (auto simp: expand_dollar_with_args_def and_then_Inr split: dollar.splits dest: balanced)

lemma chars_balanced:
  "expand_chars h ev is_end argv s st = Inr (r, st') \<Longrightarrow> variable_list st' = variable_list st"
proof (induction s arbitrary: st r st' rule: length_induct)
  case (1 s)
  show ?case
  proof (cases s)
    case Nil
    then show ?thesis using 1 by (simp add: expand_chars.simps)
  next
    case (Cons c p)
    show ?thesis
    proof (cases "c = CHR ''$''")
      case True
      then obtain e q st1 out where d: "expand_dollar_with_args h ev argv p st = Inr ((e, q), st1)"
        and rest: "expand_chars h ev is_end argv q st1 = Inr (out, st')"
        using 1(2) Cons by (subst (asm) expand_chars.simps) (auto simp: and_then_Inr split: sum.splits prod.splits)
      have "length q < length s" using expand_dollar_length[OF d] Cons by simp
      then have "variable_list st' = variable_list st1" using 1(1) rest by blast
      then show ?thesis using dollar_balanced[OF d] by simp
    next
      case False
      then have "st' = st \<or> (\<exists>out. expand_chars h ev is_end argv p st = Inr (out, st'))"
        using 1(2) Cons by (subst (asm) expand_chars.simps) (auto simp: and_then_Inr split: if_splits)
      then show ?thesis using 1(1) Cons by auto
    qed
  qed
qed

lemma string_balanced:
  "expand_string_with_args h ev argv s st = Inr (r, st') \<Longrightarrow> variable_list st' = variable_list st"
  by (auto simp: expand_string_with_args_def and_then_Inr dest: chars_balanced)

lemma value_balanced: "variable_value h ev argv v st = Inr (r, st') \<Longrightarrow> variable_list st' = variable_list st"
  by (auto simp: variable_value_def split: option.splits if_splits dest: string_balanced)

lemma variable_balanced:
  assumes "variable_expand h ev name argv st = Inr (r, st')"
  shows "variable_list st' = variable_list st"
proof (cases "variable_lookup name st")
  case (Some i)
  then have i: "i < length (variable_list st)" using lookup_less by blast
  show ?thesis
  proof (cases r)
    case None
    then show ?thesis using assms Some by (auto simp: variable_expand_def and_then_Inr split: if_splits)
  next
    case (Some res)
    obtain st1 where "variable_value h ev argv (var_at i st) (upd_var i (v_exp_count_update Suc) st) = Inr (res, st1)"
      and st': "st' = upd_var i (v_exp_count_update (\<lambda>n. n - 1)) st1"
      using assms Some \<open>variable_lookup name st = Some i\<close>
      by (auto simp: variable_expand_def and_then_Inr split: if_splits)
    then have "variable_list st1 = variable_list (upd_var i (v_exp_count_update Suc) st)"
      using value_balanced by blast
    then show ?thesis
      using i by (simp add: st' upd_var_def list_update_same_conv)
  qed
qed (use assms in \<open>simp add: variable_expand_def\<close>)

lemma all_balanced: "expand_all h ev argv ss st = Inr (rs, st') \<Longrightarrow> variable_list st' = variable_list st"
  by (induction ss arbitrary: st rs) (auto simp: and_then_Inr dest: string_balanced)

lemma call_balanced:
  assumes "call h ev name args st = Inr (r, st')"
  shows "variable_list st' = variable_list st"
proof -
  obtain res st1 where v: "variable_expand h ev name args st = Inr (res, st1)"
    and rest: "(case res of Some r \<Rightarrow> Inr (r, st1) | None \<Rightarrow>
         and_then (function_expand h name args st1) (\<lambda>(res, st).
             case res of
               Some r \<Rightarrow> Inr (r, st)
             | None \<Rightarrow>
                 if args = []
                 then (case env_expand h name st of (Some v, st) \<Rightarrow> Inr (v, st) | (None, st) \<Rightarrow> Inr ('''', st))
                 else Inr ('''', st))) = Inr (r, st')"
    using assms by (auto simp: call_def and_then_Inr)
  have "variable_list st' = variable_list st1"
    using rest function_balanced
    by (auto simp: and_then_Inr env_expand_def env_add_def split: option.splits if_splits prod.splits)
  then show ?thesis using variable_balanced[OF v] by simp
qed

lemma step_balanced: "clause_step h ev argv s st = Inr (r, st') \<Longrightarrow> variable_list st' = variable_list st"
  by (auto simp: clause_step_def and_then_Inr split: option.splits) (metis all_balanced call_balanced)

end

interpretation clause: clause_evaluator h "eval_clause n h" for n h
proof (induction n)
  case 0
  show ?case by unfold_locales simp
next
  case (Suc n)
  show ?case by unfold_locales (simp add: clause_evaluator.step_balanced[OF Suc])
qed


subsection \<open>Expansion ends\<close>

text \<open>
  Every use of a recursive variable counts, and no variable is in use more than 1001 times: the
  uses that are left bound the depth of the expansion, together with the length of the longest
  value.
\<close>

definition uses_left :: "variable list \<Rightarrow> nat" where
  "uses_left vs = (\<Sum>v\<leftarrow>vs. 1001 - v_exp_count v)"

definition value_length :: "variable \<Rightarrow> nat" where
  "value_length v = (case v_value v of None \<Rightarrow> 0 | Some val \<Rightarrow> length val)"

definition longest_value :: "variable list \<Rightarrow> nat" where
  "longest_value vs = foldr (\<lambda>v. max (value_length v)) vs 0"

definition expansion_depth :: "preproc \<Rightarrow> string \<Rightarrow> nat" where
  "expansion_depth st s = uses_left (variable_list st) * Suc (longest_value (variable_list st)) + length s"

lemma longest_value_ge: "v \<in> set vs \<Longrightarrow> value_length v \<le> longest_value vs"
  by (induction vs) (auto simp: longest_value_def)

lemma longest_value_same: "map value_length vs = map value_length ws \<Longrightarrow> longest_value vs = longest_value ws"
proof -
  assume "map value_length vs = map value_length ws"
  moreover have "longest_value us = foldr max (map value_length us) 0" for us
    by (simp add: longest_value_def foldr_map comp_def)
  ultimately show ?thesis by metis
qed

lemma uses_left_update:
  "i < length vs \<Longrightarrow> v_exp_count (vs ! i) \<le> 1000 \<Longrightarrow> uses_left vs = Suc (uses_left (vs[i := v_exp_count_update Suc (vs ! i)]))"
proof (induction vs arbitrary: i)
  case (Cons v vs)
  then show ?case by (cases i) (auto simp: uses_left_def)
qed simp

definition ends_on :: "clause_eval \<Rightarrow> variable list \<Rightarrow> nat \<Rightarrow> bool" where
  "ends_on ev vs m \<longleftrightarrow>
     (\<forall>argv s st. variable_list st = vs \<longrightarrow> length s < m \<longrightarrow> ev argv s st \<noteq> Inl PP_Depth)"

lemma ends_onD:
  "ends_on ev (variable_list st) m \<Longrightarrow> length s < m \<Longrightarrow> ev argv s st \<noteq> Inl PP_Depth"
  by (simp add: ends_on_def)

lemma pperror_not_depth [simp]: "pperror h msg \<noteq> PP_Depth"
  by (simp add: pperror_def)

lemma split_clause_nonempty [simp]: "split_clause nest s \<noteq> []"
  by (cases "(nest, s)" rule: split_clause.cases) (auto simp: Let_def)

lemma split_clause_length: "p \<in> set (split_clause nest s) \<Longrightarrow> length p \<le> length s"
proof (induction nest s arbitrary: p rule: split_clause.induct)
  case (2 nest c s)
  show ?case
  proof (cases "nest = 0 \<and> c = CHR '',''")
    case True
    then show ?thesis using 2(1) 2(3) by fastforce
  next
    case False
    define nest' where "nest' = (if c = CHR ''('' then nest + 1 else if c = CHR '')'' then nest - 1 else nest)"
    have ih: "q \<in> set (split_clause nest' s) \<Longrightarrow> length q \<le> length s" for q
      using 2(2)[OF False nest'_def] .
    have p: "p \<in> set ((c # hd (split_clause nest' s)) # tl (split_clause nest' s))"
      using 2(3) False by (simp add: nest'_def Let_def)
    then consider "p = c # hd (split_clause nest' s)" | "p \<in> set (split_clause nest' s)"
      using list.set_sel(2)[OF split_clause_nonempty] by fastforce
    then show ?thesis
      by cases (use ih[of "hd (split_clause nest' s)"] ih[of p] in auto)
  qed
qed simp

lemma clause_parts_length:
  "clause_parts h s = Inr parts \<Longrightarrow> p \<in> set parts \<Longrightarrow> length p \<le> length s"
  by (auto simp: clause_parts_def Let_def dest: split_clause_length split: if_splits)

lemma clause_parts_not_depth: "clause_parts h s \<noteq> Inl PP_Depth"
  by (simp add: clause_parts_def Let_def)


context clause_evaluator
begin

lemma dollar_ends:
  assumes "ends_on ev (variable_list st) (length s)" and "s \<noteq> []"
  shows "expand_dollar_with_args h ev argv s st \<noteq> Inl PP_Depth"
proof (cases "scan_dollar s")
  case (Clause cl r)
  then have "length cl < length s" using scan_dollar_length(2) by fastforce
  then show ?thesis
    using Clause ends_onD[OF assms(1)] by (auto simp: expand_dollar_with_args_def and_then_Inl)
qed (auto simp: expand_dollar_with_args_def pperror_def)

lemma dollar_empty: "expand_dollar_with_args h ev argv [] st = Inr ((''$'', []), st)"
  by (simp add: expand_dollar_with_args_def scan_dollar_def)

lemma chars_end:
  assumes "ends_on ev vs m" and "length s \<le> m" and "variable_list st = vs"
  shows "expand_chars h ev is_end argv s st \<noteq> Inl PP_Depth"
  using assms(2,3)
proof (induction s arbitrary: st rule: length_induct)
  case (1 s)
  show ?case
  proof (cases s)
    case Nil
    then show ?thesis by (simp add: expand_chars.simps)
  next
    case (Cons c p)
    have d: "expand_dollar_with_args h ev argv p st \<noteq> Inl PP_Depth"
    proof (cases "p = []")
      case False
      have "ends_on ev (variable_list st) (length p)"
        using assms(1) 1(2,3) Cons by (simp add: ends_on_def)
      then show ?thesis using dollar_ends False by blast
    qed (simp add: dollar_empty)
    have later: "expand_chars h ev is_end argv q st1 \<noteq> Inl PP_Depth"
      if "expand_dollar_with_args h ev argv p st = Inr ((e, q), st1)" for e q st1
      using 1 Cons expand_dollar_length[OF that] dollar_balanced[OF that] by auto
    have "expand_chars h ev is_end argv p st \<noteq> Inl PP_Depth"
      using 1 Cons by auto
    then show ?thesis
      using d later Cons
      by (subst expand_chars.simps) (auto simp: and_then_Inl split: sum.splits)
  qed
qed

lemma string_ends:
  "ends_on ev (variable_list st) m \<Longrightarrow> length s \<le> m \<Longrightarrow> expand_string_with_args h ev argv s st \<noteq> Inl PP_Depth"
  by (auto simp: expand_string_with_args_def and_then_Inl chars_end)

lemma all_ends:
  "ends_on ev (variable_list st) m \<Longrightarrow> \<forall>s \<in> set ss. length s \<le> m \<Longrightarrow> expand_all h ev argv ss st \<noteq> Inl PP_Depth"
proof (induction ss arbitrary: st)
  case (Cons s ss)
  have "expand_all h ev argv ss st1 \<noteq> Inl PP_Depth"
    if "expand_string_with_args h ev argv s st = Inr (r, st1)" for r st1
    using Cons string_balanced[OF that] by simp
  then show ?case
    using Cons string_ends[OF Cons(2), of s argv] by (auto simp: and_then_Inl and_then_Inr)
qed simp

text \<open>Using a variable leaves one use less for the clauses of its value.\<close>

lemma variable_ends:
  assumes "\<And>i. i < length (variable_list st) \<Longrightarrow> v_exp_count (var_at i st) \<le> 1000 \<Longrightarrow>
      ends_on ev ((variable_list st)[i := v_exp_count_update Suc (var_at i st)]) (longest_value (variable_list st))"
  shows "variable_expand h ev name argv st \<noteq> Inl PP_Depth"
proof (cases "variable_lookup name st")
  case (Some i)
  then have i: "i < length (variable_list st)" using lookup_less by blast
  define st1 where "st1 = upd_var i (v_exp_count_update Suc) st"
  have "variable_value h ev argv (var_at i st) st1 \<noteq> Inl PP_Depth" if small: "v_exp_count (var_at i st) \<le> 1000"
  proof (cases "v_value (var_at i st)")
    case (Some val)
    have "variable_list st ! i \<in> set (variable_list st)" using i by simp
    then have "length val \<le> longest_value (variable_list st)"
      using longest_value_ge Some by (fastforce simp: value_length_def var_at_def)
    moreover have "ends_on ev (variable_list st1) (longest_value (variable_list st))"
      using assms[OF i small] by (simp add: st1_def upd_var_def var_at_def)
    ultimately show ?thesis using Some string_ends by (simp add: variable_value_def)
  qed (simp add: variable_value_def)
  then show ?thesis
    using Some by (auto simp: variable_expand_def st1_def and_then_Inl)
qed (simp add: variable_expand_def)

end


lemma function_not_depth: "function_expand h name args st \<noteq> Inl PP_Depth"
proof (cases "find (\<lambda>f. fst f = name) function_table")
  case (Some e)
  obtain n lo hi f where e: "e = (n, lo, hi, f)" by (cases e)
  have "e \<in> set function_table" using Some find_member by metis
  then have "f h args st \<noteq> Inl PP_Depth"
    by (auto simp: e function_table_def do_error_if_def do_filename_def do_info_def do_lineno_def do_shell_def
        do_warning_if_def pperror_def split: if_splits option.splits)
  then show ?thesis
    using Some e by (auto simp: function_expand_def pperror_def and_then_Inl)
qed (simp add: function_expand_def)

lemma call_not_depth:
  assumes "variable_expand h ev name args st \<noteq> Inl PP_Depth"
  shows "call h ev name args st \<noteq> Inl PP_Depth"
  using assms function_not_depth
  by (auto simp: call_def and_then_Inl split: option.splits if_splits prod.splits)

lemma uses_left_enough:
  assumes "i < length (variable_list st)" and "v_exp_count (var_at i st) \<le> 1000"
    and "uses_left (variable_list st) * Suc L + m \<le> Suc n" and "0 < m"
  shows "uses_left ((variable_list st)[i := v_exp_count_update Suc (var_at i st)]) * Suc L + L \<le> n"
proof -
  have "uses_left (variable_list st) = Suc (uses_left ((variable_list st)[i := v_exp_count_update Suc (var_at i st)]))"
    using uses_left_update assms(1,2) by (simp add: var_at_def)
  then show ?thesis using assms(3,4) by (simp add: algebra_simps)
qed

lemma longest_value_update:
  "i < length (variable_list st) \<Longrightarrow>
   longest_value ((variable_list st)[i := v_exp_count_update Suc (var_at i st)]) = longest_value (variable_list st)"
  by (rule longest_value_same)
    (auto simp: map_update value_length_def var_at_def list_update_same_conv)

lemma clause_step_ends:
  assumes parts: "ends_on (eval_clause n h) (variable_list st) (m - 1)" and "length s < m"
    and uses: "\<And>i. i < length (variable_list st) \<Longrightarrow> v_exp_count (var_at i st) \<le> 1000 \<Longrightarrow>
      ends_on (eval_clause n h) ((variable_list st)[i := v_exp_count_update Suc (var_at i st)])
        (longest_value (variable_list st))"
  shows "clause_step h (eval_clause n h) argv s st \<noteq> Inl PP_Depth"
proof (cases "argument_number argv s")
  case None
  have all: "expand_all h (eval_clause n h) argv ps st \<noteq> Inl PP_Depth" if "clause_parts h s = Inr ps" for ps
  proof (rule clause.all_ends[OF parts], rule ballI)
    fix p assume "p \<in> set ps"
    then show "length p \<le> m - 1" using clause_parts_length[OF that] assms(2) by fastforce
  qed
  have "call h (eval_clause n h) (hd vals) (tl vals) st1 \<noteq> Inl PP_Depth"
    if "expand_all h (eval_clause n h) argv ps st = Inr (vals, st1)" for ps vals st1
  proof -
    have "variable_list st1 = variable_list st" using clause.all_balanced[OF that] .
    then have "variable_expand h (eval_clause n h) (hd vals) (tl vals) st1 \<noteq> Inl PP_Depth"
      using clause.variable_ends[of st1] uses by (simp add: var_at_def)
    then show ?thesis by (rule call_not_depth)
  qed
  then show ?thesis
    using None all clause_parts_not_depth by (auto simp: clause_step_def and_then_Inl)
qed (simp add: clause_step_def)

lemma eval_clause_ends:
  "uses_left vs * Suc (longest_value vs) + m \<le> n \<Longrightarrow> ends_on (eval_clause n h) vs m"
proof (induction n arbitrary: vs m)
  case 0
  then show ?case by (simp add: ends_on_def)
next
  case (Suc n)
  show ?case unfolding ends_on_def
  proof (intro allI impI)
    fix argv and s :: string and st :: preproc
    assume st: "variable_list st = vs" and m: "length s < m"
    have "ends_on (eval_clause n h) (variable_list st) (m - 1)"
      unfolding st by (rule Suc.IH) (use Suc.prems m in linarith)
    moreover have "ends_on (eval_clause n h) ((variable_list st)[i := v_exp_count_update Suc (var_at i st)])
        (longest_value (variable_list st))"
      if "i < length (variable_list st)" and "v_exp_count (var_at i st) \<le> 1000" for i
    proof (rule Suc.IH)
      show "uses_left ((variable_list st)[i := v_exp_count_update Suc (var_at i st)]) *
            Suc (longest_value ((variable_list st)[i := v_exp_count_update Suc (var_at i st)])) +
            longest_value (variable_list st) \<le> n"
        unfolding longest_value_update[OF that(1)]
        by (rule uses_left_enough[OF that]) (use Suc.prems st m in auto)
    qed
    ultimately show "eval_clause (Suc n) h argv s st \<noteq> Inl PP_Depth"
      unfolding eval_clause.simps using clause_step_ends m by blast
  qed
qed

lemma expansion_has_depth:
  "expand_chars h (eval_clause (expansion_depth st s + k) h) is_end argv s st \<noteq> Inl PP_Depth"
proof (rule clause.chars_end)
  show "ends_on (eval_clause (expansion_depth st s + k) h) (variable_list st) (length s)"
    by (rule eval_clause_ends) (simp add: expansion_depth_def)
qed simp_all

text \<open>
  C37.
  Expanding a string or a token with a clause depth that the variables and the text bound
  ends with a value or one of the reported faults, whatever functions and variables it uses,
  and on success every variable, its value and its count of uses are what they were.
\<close>

theorem expansion_ends:
  "(case expand_string (expansion_depth st s + k) h s st of
      Inl e \<Rightarrow> e \<noteq> PP_Depth
    | Inr (_, st') \<Rightarrow> variable_list st' = variable_list st) \<and>
   (case expand_one_token (expansion_depth st s + k) h s st of
      Inl e \<Rightarrow> e \<noteq> PP_Depth
    | Inr ((_, rest), st') \<Rightarrow> variable_list st' = variable_list st)"
  using expansion_has_depth[of h st s k] clause.chars_balanced[of h "expansion_depth st s + k"]
    clause.string_balanced[of h "expansion_depth st s + k"]
  by (auto simp: expand_string_def expand_one_token_def expand_string_with_args_def and_then_Inl
      split: sum.splits prod.splits)


subsection \<open>Plain text and references\<close>

definition plain :: "string \<Rightarrow> bool" where
  "plain s \<longleftrightarrow> (\<forall>c \<in> set s. c \<notin> {CHR ''$'', CHR ''('', CHR '')'', CHR '','', CHR 0x00})"

definition reference :: "string \<Rightarrow> string" where
  "reference name = ''$('' @ name @ '')''"

lemma plain_simps [simp]:
  "plain []"
  "plain (c # s) \<longleftrightarrow> c \<notin> {CHR ''$'', CHR ''('', CHR '')'', CHR '','', CHR 0x00} \<and> plain s"
  "plain (s @ t) \<longleftrightarrow> plain s \<and> plain t"
  by (auto simp: plain_def)

lemma find_close_plain: "plain s \<Longrightarrow> find_close 0 (s @ CHR '')'' # r) = Some (s, r)"
  by (induction s) auto

lemma split_clause_plain: "plain s \<Longrightarrow> split_clause 0 s = [s]"
  by (induction s) auto

lemma expand_chars_plain: "plain s \<Longrightarrow> expand_chars h ev is_end_of_str argv s st = Inr ((s, []), st)"
  by (induction s) (auto simp: expand_chars.simps is_end_of_str_def)

lemma expand_plain: "plain s \<Longrightarrow> expand_string_with_args h ev argv s st = Inr (s, st)"
  by (simp add: expand_string_with_args_def expand_chars_plain)

lemma expand_string_plain: "plain s \<Longrightarrow> expand_string n h s st = Inr (s, st)"
  by (simp add: expand_string_def expand_plain)

lemma no_arguments: "argument_number [] s = None"
  by (auto simp: argument_number_def split: prod.split)

lemma clause_step_plain:
  "plain name \<Longrightarrow> clause_step h ev [] name st = call h ev name [] st"
  by (simp add: clause_step_def no_arguments clause_parts_def split_clause_plain FUNCTION_MAX_ARGS_def expand_plain)

lemma expand_closed:
  "find_close 0 (s @ '')'') = Some (s, []) \<Longrightarrow>
   expand_string (Suc n) h (reference s) st = clause_step h (eval_clause n h) [] s st"
  by (cases "clause_step h (eval_clause n h) [] s st")
    (auto simp: expand_string_def expand_string_with_args_def reference_def expand_chars.simps[of _ _ _ _ "_ # _"]
      expand_dollar_with_args_def scan_dollar_def expand_chars.simps[of _ _ _ _ "[]"])

lemma expand_reference:
  "plain name \<Longrightarrow> expand_string (Suc n) h (reference name) st = call h (eval_clause n h) name [] st"
  using expand_closed[OF find_close_plain, of name n h st] by (simp add: clause_step_plain)

text \<open>A reference to a variable that is not in use, with a plain value.\<close>

lemma call_plain_variable:
  assumes "variable_lookup name st = Some i" and "v_exp_count (var_at i st) = 0"
    and "v_value (var_at i st) = Some val" and "plain val"
  shows "call h ev name [] st = Inr (val, st)"
proof -
  have i: "i < length (variable_list st)" using assms(1) lookup_less by blast
  have "variable_value h ev [] (var_at i st) (upd_var i (v_exp_count_update Suc) st) =
      Inr (val, upd_var i (v_exp_count_update Suc) st)"
    using assms(3,4) by (simp add: variable_value_def expand_plain)
  moreover have "upd_var i (v_exp_count_update (\<lambda>n. n - 1)) (upd_var i (v_exp_count_update Suc) st) = st"
    using i by (simp add: upd_var_def list_update_same_conv)
  ultimately show ?thesis
    using assms(1,2) by (simp add: call_def variable_expand_def)
qed

subsection \<open>Assignment\<close>

text \<open>Between statements no variable is in use; here all values are plain as well.\<close>

definition plain_variables :: "preproc \<Rightarrow> bool" where
  "plain_variables st \<longleftrightarrow>
     (\<forall>v \<in> set (variable_list st). v_exp_count v = 0 \<and> (case v_value v of None \<Rightarrow> False | Some val \<Rightarrow> plain val))"

definition assigned :: "string \<Rightarrow> string \<Rightarrow> variable_flavor \<Rightarrow> preproc \<Rightarrow> string" where
  "assigned name value flavor st =
     (case variable_lookup name st of
        None \<Rightarrow> value
      | Some i \<Rightarrow> if flavor = VAR_APPEND then the (v_value (var_at i st)) @ '' '' @ value else value)"


lemma lookup_iff:
  "variable_lookup name st = Some i \<longleftrightarrow>
     i < length (variable_list st) \<and> v_name (variable_list st ! i) = name \<and>
     (\<forall>j < i. v_name (variable_list st ! j) \<noteq> name)"
  by (auto simp: variable_lookup_def find_Some_iff)

lemma lookup_None: "variable_lookup name st = None \<longleftrightarrow> (\<forall>v \<in> set (variable_list st). v_name v \<noteq> name)"
  by (simp add: variable_lookup_def find_None_iff all_set_conv_all_nth)

lemma variable_add_defined:
  assumes "plain value" and "variable_lookup name st = Some i" and "plain_variables st"
  shows "variable_add n h name value flavor st =
    Inr (upd_var i (\<lambda>v. v\<lparr>v_flavor := (if flavor = VAR_APPEND then v_flavor (var_at i st) else flavor),
      v_value := Some (assigned name value flavor st)\<rparr>) st)"
proof -
  have i: "i < length (variable_list st)" using assms(2) lookup_less by blast
  then obtain old where "v_value (var_at i st) = Some old"
    using assms(3) by (fastforce simp: plain_variables_def var_at_def split: option.splits)
  then show ?thesis
    using i assms(1,2)
    by (cases "variable_list st ! i") (auto simp: variable_add_def prepare_variable_def expand_string_plain Let_def assigned_def upd_var_def var_at_def)
qed

lemma variable_add_undefined:
  assumes "plain value" and "variable_lookup name st = None"
  shows "\<exists>fl. variable_add n h name value flavor st =
    Inr (st\<lparr>variable_list := variable_list st @
      [\<lparr>v_name = name, v_value = Some value, v_flavor = fl, v_exp_count = 0\<rparr>]\<rparr>)"
  using assms
  by (auto simp: variable_add_def prepare_variable_def expand_string_plain Let_def new_variable_def upd_var_def var_at_def)

lemma assigned_plain:
  "plain value \<Longrightarrow> plain_variables st \<Longrightarrow> plain (assigned name value flavor st)"
  by (auto simp: assigned_def plain_variables_def var_at_def lookup_iff split: option.splits)
    (metis nth_mem option.sel option.case_eq_if option.distinct(1))

text \<open>
  C36.
  An assignment of a plain text to a variable or function succeeds, whatever the operator, keeps
  all values plain and no variable in use, and a reference to the variable afterwards expands to
  the assigned text; \<open>+=\<close> gives the old value, a space and the new text.
\<close>

theorem assignment_read_back:
  assumes "plain name" and "plain value" and "plain_variables st"
  shows "case variable_add n h name value flavor st of
      Inl e \<Rightarrow> False
    | Inr st' \<Rightarrow> plain_variables st' \<and>
        expand_string (Suc n) h (reference name) st' = Inr (assigned name value flavor st, st')"
proof (cases "variable_lookup name st")
  case None
  then obtain fl where add: "variable_add n h name value flavor st =
      Inr (st\<lparr>variable_list := variable_list st @
        [\<lparr>v_name = name, v_value = Some value, v_flavor = fl, v_exp_count = 0\<rparr>]\<rparr>)" (is "_ = Inr ?st'")
    using variable_add_undefined assms(2) by blast
  have "variable_lookup name ?st' = Some (length (variable_list st))"
    using None by (simp add: lookup_iff lookup_None nth_append)
  then have "expand_string (Suc n) h (reference name) ?st' = Inr (value, ?st')"
    using assms(1,2) by (simp add: expand_reference call_plain_variable var_at_def)
  then show ?thesis
    using assms(2,3) None by (simp add: add assigned_def plain_variables_def)
next
  case (Some i)
  define st1 where "st1 = upd_var i (\<lambda>v. v\<lparr>v_flavor := (if flavor = VAR_APPEND then v_flavor (var_at i st) else flavor),
      v_value := Some (assigned name value flavor st)\<rparr>) st"
  have add: "variable_add n h name value flavor st = Inr st1"
    using variable_add_defined[OF assms(2) Some assms(3)] by (simp add: st1_def)
  have i: "i < length (variable_list st)" using Some lookup_less by blast
  have "variable_lookup name st1 = Some i"
    using Some i by (auto simp: st1_def lookup_iff upd_var_def nth_list_update)
  moreover have "plain (assigned name value flavor st)" using assigned_plain assms(2,3) .
  ultimately have "expand_string (Suc n) h (reference name) st1 = Inr (assigned name value flavor st, st1)"
    using assms(1,3) i by (simp add: expand_reference call_plain_variable var_at_def upd_var_def plain_variables_def st1_def)
  moreover have "plain_variables st1"
    using assms(3) i assigned_plain[OF assms(2,3)]
    by (auto simp: st1_def plain_variables_def upd_var_def dest: set_update_subset_insert[THEN subsetD])
  ultimately show ?thesis by (simp add: add)
qed


subsection \<open>Calls\<close>

fun comma_list :: "string list \<Rightarrow> string" where
  "comma_list [] = []"
| "comma_list [s] = s"
| "comma_list (s # ss) = s @ '','' @ comma_list ss"

lemma split_clause_comma: "plain s \<Longrightarrow> split_clause 0 (s @ CHR '','' # r) = s # split_clause 0 r"
  by (induction s) auto

lemma split_comma_list: "list_all plain ss \<Longrightarrow> ss \<noteq> [] \<Longrightarrow> split_clause 0 (comma_list ss) = ss"
  by (induction ss rule: comma_list.induct) (simp_all add: split_clause_plain split_clause_comma)

lemma find_close_no_parens:
  "\<forall>c \<in> set s. c \<noteq> CHR ''('' \<and> c \<noteq> CHR '')'' \<Longrightarrow> find_close 0 (s @ CHR '')'' # r) = Some (s, r)"
  by (induction s) auto

lemma plain_no_parens: "plain s \<Longrightarrow> \<forall>c \<in> set s. c \<noteq> CHR ''('' \<and> c \<noteq> CHR '')''"
  by (simp add: plain_def)

lemma comma_list_no_parens:
  "list_all plain ss \<Longrightarrow> \<forall>c \<in> set (comma_list ss). c \<noteq> CHR ''('' \<and> c \<noteq> CHR '')''"
  by (induction ss rule: comma_list.induct) (simp_all add: ball_Un, auto dest: plain_no_parens)

lemma expand_all_plain: "list_all plain ss \<Longrightarrow> expand_all h ev argv ss st = Inr (ss, st)"
  by (induction ss) (simp_all add: expand_plain)

lemma expand_call:
  "list_all plain ss \<Longrightarrow>
   expand_string (Suc n) h (reference (comma_list ss)) st = clause_step h (eval_clause n h) [] (comma_list ss) st"
  by (rule expand_closed[OF find_close_no_parens[OF comma_list_no_parens]])

text \<open>
  C38.
  A reference with plain arguments calls the function of that name with exactly these arguments
  when there are at most fifteen, and seventeen or more are the reported error; a call with
  sixteen arguments is not reported but stores the last of its seventeen parts behind the end
  of the array.
\<close>

theorem reference_arity:
  assumes "plain f" and "list_all plain args"
  shows "expand_string (Suc n) h (reference (comma_list (f # args))) st =
    (if 17 \<le> length args then Inl (pperror h ''too many function arguments'')
     else if length args = 16 then Inl PP_Undefined
     else call h (eval_clause n h) f args st)"
proof -
  have parts: "split_clause 0 (comma_list (f # args)) = f # args"
    using assms by (intro split_comma_list) simp_all
  show ?thesis
    using assms parts
    by (subst expand_call) (auto simp: clause_step_def no_arguments clause_parts_def FUNCTION_MAX_ARGS_def expand_all_plain expand_plain)
qed

text \<open>
  Redefining a simple variable by a text that refers to the variable itself, such as
  \<open>A := $(A)\<close>, reads the old value after it was freed.
\<close>

theorem self_redefinition_reads_freed:
  assumes "plain name" and "variable_lookup name st = Some i" and "v_exp_count (var_at i st) = 0"
  shows "variable_add (Suc n) h name (reference name) VAR_SIMPLE st = Inl PP_Undefined"
proof -
  define st1 where "st1 = upd_var i (v_flavor_update (\<lambda>_. VAR_SIMPLE)) (upd_var i (v_value_update (\<lambda>_. None)) st)"
  have "i < length (variable_list st)" using assms(2) lookup_less by blast
  then have "variable_lookup name st1 = Some i" and "v_value (var_at i st1) = None" and "v_exp_count (var_at i st1) = 0"
    using assms(2,3) by (auto simp: lookup_iff st1_def upd_var_def var_at_def nth_list_update)
  then have "expand_string (Suc n) h (reference name) st1 = Inl PP_Undefined"
    using assms(1) by (simp add: expand_reference call_def variable_expand_def variable_value_def)
  then show ?thesis
    using assms(2) by (simp add: variable_add_def prepare_variable_def st1_def)
qed

subsection \<open>Concrete runs\<close>

definition empty_preproc :: preproc where
  "empty_preproc = \<lparr>env_list = [], variable_list = [], pp_stdout = [], pp_stderr = [], pp_commands = []\<rparr>"

definition one_variable :: preproc where
  "one_variable = empty_preproc\<lparr>variable_list :=
     [\<lparr>v_name = ''cc'', v_value = Some ''gcc'', v_flavor = VAR_SIMPLE, v_exp_count = 0\<rparr>]\<rparr>"

definition quiet_host :: pp_host where
  "quiet_host = \<lparr>host_getenv = (\<lambda>_. None), host_shell = (\<lambda>_ _. Some ''''), current_file = ''Kconfig'', yylineno = 1\<rparr>"

theorem assignment_read_back_witness:
  "(case variable_add 0 quiet_host ''cc'' ''-O2'' VAR_APPEND one_variable of
      Inl e \<Rightarrow> False
    | Inr st' \<Rightarrow> plain_variables st' \<and>
        expand_string (Suc 0) quiet_host (reference ''cc'') st' =
          Inr (assigned ''cc'' ''-O2'' VAR_APPEND one_variable, st')) \<and>
   assigned ''cc'' ''-O2'' VAR_APPEND one_variable = ''gcc -O2''"
  using assignment_read_back[of "''cc''" "''-O2''" one_variable 0 quiet_host VAR_APPEND]
  by (simp add: plain_variables_def one_variable_def assigned_def variable_lookup_def var_at_def)

theorem reference_arity_witness:
  "expand_string (Suc 0) quiet_host (reference (comma_list (''f'' # replicate 16 ''a''))) empty_preproc = Inl PP_Undefined"
  using reference_arity[of "''f''" "replicate 16 ''a''" 0 quiet_host empty_preproc]
  by (simp add: list_all_iff)

theorem self_redefinition_reads_freed_witness:
  "variable_add (Suc 0) quiet_host ''cc'' (reference ''cc'') VAR_SIMPLE one_variable = Inl PP_Undefined"
  using self_redefinition_reads_freed[of "''cc''" one_variable 0 0 quiet_host]
  by (simp add: one_variable_def variable_lookup_def var_at_def)

end
