(* ===== verification/Kconfdata.thy ===== *)
theory Kconfdata
  imports Ksymbol
begin

text \<open>
  Configuration files (\<open>tools/kconfig/confdata.c\<close>), first part: the files that make dependencies
  on options visible to \<open>make\<close>, and reading a saved configuration.

  The host is a parameter: the environment, the text of a file that \<open>zconf_fopen\<close> opens, and
  which paths may not be created. A file that is written or a directory that is created is in
  \<open>conf_fs\<close>. The text of a file has no NUL; a line that consists of \<open>#\<close> alone, at the end of a
  file without a newline, is taken to be followed by NUL bytes (the code looks at the remains
  of an earlier line there).
\<close>

subsection \<open>Files\<close>

record file_system =
  fs_dirs :: "string set"
  fs_files :: "string \<Rightarrow> string option"

record conf_host =
  conf_getenv :: "string \<Rightarrow> string option"
  zconf_fopen :: "string \<Rightarrow> string option"
  fs_denied :: "string \<Rightarrow> bool"

text \<open>The directory part of a path, \<open>None\<close> when the path has none.\<close>

definition dir_part :: "string \<Rightarrow> string option" where
  "dir_part p =
     (let d = rev (tl (dropWhile (\<lambda>c. c \<noteq> CHR ''/'') (rev p)))
      in if CHR ''/'' \<in> set p then Some d else None)"

definition in_directory :: "string \<Rightarrow> file_system \<Rightarrow> bool" where
  "in_directory p fs \<longleftrightarrow>
     (case dir_part p of None \<Rightarrow> True | Some [] \<Rightarrow> True | Some d \<Rightarrow> d \<in> fs_dirs fs)"

definition is_dir :: "string \<Rightarrow> file_system \<Rightarrow> bool" where
  "is_dir p fs \<longleftrightarrow> p \<in> fs_dirs fs"

definition is_present :: "string \<Rightarrow> file_system \<Rightarrow> bool" where
  "is_present p fs \<longleftrightarrow> p \<in> fs_dirs fs \<or> fs_files fs p \<noteq> None"

definition mkdir :: "conf_host \<Rightarrow> string \<Rightarrow> file_system \<Rightarrow> file_system option" where
  "mkdir h p fs =
     (if fs_denied h p \<or> is_present p fs \<or> \<not> in_directory p fs then None
      else Some (fs\<lparr>fs_dirs := insert p (fs_dirs fs)\<rparr>))"

datatype open_result = Opened file_system | No_entry | Open_failed

text \<open>\<open>open\<close> with \<open>O_WRONLY | O_CREAT | O_TRUNC\<close>.\<close>

definition create_file :: "conf_host \<Rightarrow> string \<Rightarrow> file_system \<Rightarrow> open_result" where
  "create_file h p fs =
     (if \<not> in_directory p fs then No_entry
      else if fs_denied h p \<or> is_dir p fs then Open_failed
      else Opened (fs\<lparr>fs_files := (fs_files fs)(p \<mapsto> '''')\<rparr>))"

definition PATH_MAX :: nat where
  "PATH_MAX = 4096"

text \<open>
  \<open>make_parent_dir\<close>: every prefix of the path that ends before a group of slashes, the leading
  ones aside, in order.
\<close>

fun slash_prefixes :: "string \<Rightarrow> string \<Rightarrow> string list" where
  "slash_prefixes pre [] = []"
| "slash_prefixes pre (c # p) =
     (if c = CHR ''/'' then
        (if pre \<noteq> [] \<and> last pre \<noteq> CHR ''/'' then [pre] else []) @ slash_prefixes (pre @ [c]) p
      else slash_prefixes (pre @ [c]) p)"

fun make_dirs :: "conf_host \<Rightarrow> string list \<Rightarrow> file_system \<Rightarrow> bool \<times> file_system" where
  "make_dirs h [] fs = (True, fs)"
| "make_dirs h (d # ds) fs =
     (if is_dir d fs then make_dirs h ds fs
      else case mkdir h d fs of None \<Rightarrow> (False, fs) | Some fs \<Rightarrow> make_dirs h ds fs)"

definition make_parent_dir :: "conf_host \<Rightarrow> string \<Rightarrow> file_system \<Rightarrow> bool \<times> file_system" where
  "make_parent_dir h path fs = make_dirs h (slash_prefixes [] (take PATH_MAX path)) fs"

text \<open>
  \<open>conf_touch_dep\<close>: the path of an option, its name in lower case with a directory for every
  underscore. The result tells whether it succeeded.
\<close>

definition dep_file_path :: "string \<Rightarrow> string \<Rightarrow> string" where
  "dep_file_path prefix name =
     prefix @ map (\<lambda>c. if c = CHR ''_'' then CHR ''/'' else to_lower c) name @ ''.h''"

definition touch_again :: "conf_host \<Rightarrow> string \<Rightarrow> file_system \<Rightarrow> bool \<times> file_system" where
  "touch_again h path fs =
     (case make_parent_dir h path fs of
        (False, fs) \<Rightarrow> (False, fs)
      | (True, fs) \<Rightarrow> (case create_file h path fs of Opened fs \<Rightarrow> (True, fs) | _ \<Rightarrow> (False, fs)))"

definition conf_touch_dep :: "conf_host \<Rightarrow> string \<Rightarrow> string \<Rightarrow> file_system \<Rightarrow> bool \<times> file_system" where
  "conf_touch_dep h prefix name fs =
     (if PATH_MAX < length prefix + length name + 3 then (False, fs)
      else let path = dep_file_path prefix name
           in case create_file h path fs of
                Opened fs \<Rightarrow> (True, fs)
              | Open_failed \<Rightarrow> (False, fs)
              | No_entry \<Rightarrow> touch_again h path fs)"

text \<open>
  \<open>is_same\<close>, of two readable files: a failure of \<open>fstat\<close> is returned as \<open>true\<close>, and an empty
  file cannot be mapped.
\<close>

definition is_same :: "bool \<Rightarrow> string option \<Rightarrow> string option \<Rightarrow> bool" where
  "is_same fstat_ok file1 file2 =
     (case (file1, file2) of
        (Some a, Some b) \<Rightarrow> if \<not> fstat_ok then True else a \<noteq> [] \<and> a = b
      | _ \<Rightarrow> False)"

subsection \<open>State\<close>

text \<open>
  The static variables of the file next to the symbols. \<open>sym_defconfig_list\<close> is the symbol of
  \<open>option defconfig_list\<close>, \<open>dep_prefix\<close> the start of \<open>depfile_path\<close>.
\<close>

record conf_world =
  kw :: kworld
  conf_filename :: string
  conf_lineno :: int
  conf_warnings :: int
  dep_prefix :: string
  conf_fs :: file_system
  sym_defconfig_list :: "sym option"
  conf_messages :: "string list"

definition conf_warning :: "string \<Rightarrow> conf_world \<Rightarrow> conf_world" where
  "conf_warning msg cw =
     cw\<lparr>kw := (kw cw)\<lparr>messages := messages (kw cw) @
          [conf_filename cw @ '':'' @ decimal_text (conf_lineno cw) @ '':warning: '' @ msg @ [CHR 0x0A]]\<rparr>,
        conf_warnings := conf_warnings cw + 1\<rparr>"

definition conf_message :: "string \<Rightarrow> conf_world \<Rightarrow> conf_world" where
  "conf_message msg cw = cw\<lparr>conf_messages := conf_messages cw @ [take 4095 msg]\<rparr>"

definition CONFIG_prefix :: "conf_host \<Rightarrow> string" where
  "CONFIG_prefix h = (case conf_getenv h ''CONFIG_'' of Some p \<Rightarrow> p | None \<Rightarrow> ''CONFIG_'')"

definition conf_get_configname :: "conf_host \<Rightarrow> string" where
  "conf_get_configname h = (case conf_getenv h ''KCONFIG_CONFIG'' of Some n \<Rightarrow> n | None \<Rightarrow> ''.config'')"

definition conf_get_autoconfig_name :: "conf_host \<Rightarrow> string" where
  "conf_get_autoconfig_name h =
     (case conf_getenv h ''KCONFIG_AUTOCONFIG'' of Some n \<Rightarrow> n | None \<Rightarrow> ''sw/include/config/auto.conf'')"

definition on_kw :: "(kworld \<Rightarrow> kworld) \<Rightarrow> conf_world \<Rightarrow> conf_world" where
  "on_kw f cw = cw\<lparr>kw := f (kw cw)\<rparr>"

definition name_text :: "sym \<Rightarrow> kworld \<Rightarrow> string" where
  "name_text s w = (case sym_name (syms w s) of Some n \<Rightarrow> n | None \<Rightarrow> ''(null)'')"

subsection \<open>The value of a line\<close>

text \<open>
  The text after an opening quote up to the closing one, without the backslashes that escape.
  There is no result for a text without a closing quote; for one that ends in a backslash the
  loop of \<open>conf_set_sym_val\<close> steps over the terminator and reads what lies behind it, which is
  undefined and has no result here either.
\<close>

fun unquote :: "string \<Rightarrow> string option" where
  "unquote [] = None"
| "unquote (c # cs) =
     (if c = CHR 0x22 then Some []
      else if c = CHR 0x5C then
        (case cs of [] \<Rightarrow> None | d # ds \<Rightarrow> map_option ((#) d) (unquote ds))
      else map_option ((#) c) (unquote cs))"

definition put_def_tri :: "sym \<Rightarrow> nat \<Rightarrow> tristate \<Rightarrow> kworld \<Rightarrow> kworld" where
  "put_def_tri s def t w = upd_sym s (set_flag (SYMBOL_DEF def)) (upd_sym s (set_def_tri def t) w)"

definition put_def_val :: "sym \<Rightarrow> nat \<Rightarrow> string \<Rightarrow> kworld \<Rightarrow> kworld" where
  "put_def_val s def v w = upd_sym s (set_flag (SYMBOL_DEF def)) (upd_sym s (set_def_val def (Str v)) w)"

definition bad_value :: "nat \<Rightarrow> string \<Rightarrow> conf_world \<Rightarrow> bool \<times> conf_world" where
  "bad_value def msg cw = (False, if def \<noteq> S_DEF_AUTO then conf_warning msg cw else cw)"

definition invalid_for :: "sym \<Rightarrow> string \<Rightarrow> kworld \<Rightarrow> string" where
  "invalid_for s p w =
     ''symbol value '' @ [CHR 0x27] @ p @ [CHR 0x27] @ '' invalid for '' @ name_text s w"

definition set_text_value :: "sym \<Rightarrow> nat \<Rightarrow> string \<Rightarrow> conf_world \<Rightarrow> bool \<times> conf_world" where
  "set_text_value s def p cw =
     (if sym_string_valid s p (kw cw) then (True, on_kw (put_def_val s def p) cw)
      else bad_value def (invalid_for s p (kw cw)) cw)"

text \<open>\<open>conf_set_sym_val\<close>; the result is whether it returned 0.\<close>

definition conf_set_sym_val :: "sym \<Rightarrow> nat \<Rightarrow> string \<Rightarrow> conf_world \<Rightarrow> bool \<times> conf_world" where
  "conf_set_sym_val s def p cw =
     (case sym_type (syms (kw cw) s) of
        S_UNKNOWN \<Rightarrow> (True, cw)
      | S_STRING \<Rightarrow>
          (case p of
             c # cs \<Rightarrow>
               if c \<noteq> CHR 0x22 then (True, cw)
               else (case unquote cs of
                       None \<Rightarrow> bad_value def ''invalid string found'' cw
                     | Some v \<Rightarrow> set_text_value s def v cw)
           | [] \<Rightarrow> (True, cw))
      | S_INT \<Rightarrow> set_text_value s def p cw
      | S_HEX \<Rightarrow> set_text_value s def p cw
      | ty \<Rightarrow>
          if ty = S_TRISTATE \<and> take 1 p = ''m'' then (True, on_kw (put_def_tri s def T_mod) cw)
          else if take 1 p = ''y'' then (True, on_kw (put_def_tri s def T_yes) cw)
          else if take 1 p = ''n'' then (True, on_kw (put_def_tri s def T_no) cw)
          else bad_value def (invalid_for s p (kw cw)) cw)"


subsection \<open>Lines\<close>

text \<open>The lines of a text with their newlines; the last one may have none.\<close>

fun file_lines :: "string \<Rightarrow> string list" where
  "file_lines [] = []"
| "file_lines (c # cs) =
     (if c = CHR 0x0A then [c] # file_lines cs
      else case file_lines cs of [] \<Rightarrow> [[c]] | l # ls \<Rightarrow> (c # l) # ls)"

definition before_char :: "char \<Rightarrow> string \<Rightarrow> (string \<times> string) option" where
  "before_char c s = (if c \<in> set s then Some (takeWhile (\<lambda>x. x \<noteq> c) s, tl (dropWhile (\<lambda>x. x \<noteq> c) s)) else None)"

definition override_warning :: "sym \<Rightarrow> nat \<Rightarrow> conf_world \<Rightarrow> conf_world" where
  "override_warning s def cw =
     (if has_flag (SYMBOL_DEF def) s (kw cw)
      then conf_warning (''override: reassigning to symbol '' @ name_text s (kw cw)) cw else cw)"

text \<open>What a line says: an option that is not set, an option with a value, or nothing.\<close>

datatype conf_line = Not_set string | Assign string string | Skip | Unexpected string

definition comment_line :: "string \<Rightarrow> string \<Rightarrow> conf_line" where
  "comment_line prefix line =
     (let body = drop 2 line
      in if take (length prefix) body \<noteq> prefix then Skip
         else case before_char (CHR '' '') (drop (length prefix) body) of
                None \<Rightarrow> Skip
              | Some (name, rest) \<Rightarrow> if take 10 rest = ''is not set'' then Not_set name else Skip)"

text \<open>The newline and a carriage return before it are dropped.\<close>

definition line_value :: "string \<Rightarrow> string" where
  "line_value p =
     (case before_char (CHR 0x0A) p of
        None \<Rightarrow> p
      | Some (v, _) \<Rightarrow> if v \<noteq> [] \<and> last v = CHR 0x0D then butlast v else v)"

definition parse_line :: "string \<Rightarrow> string \<Rightarrow> conf_line" where
  "parse_line prefix line =
     (if take 1 line = ''#'' then comment_line prefix line
      else if take (length prefix) line = prefix then
        (case before_char (CHR ''='') (drop (length prefix) line) of
           None \<Rightarrow> Skip
         | Some (name, p) \<Rightarrow> Assign name (line_value p))
      else if line \<noteq> [] \<and> hd line \<noteq> CHR 0x0D \<and> hd line \<noteq> CHR 0x0A
      then Unexpected (takeWhile (\<lambda>c. c \<noteq> CHR 0x0D \<and> c \<noteq> CHR 0x0A) line) else Skip)"

text \<open>
  The end of the loop body: a value of a choice also sets the choice. The outer \<open>None\<close> is a
  null pointer that is read.
\<close>

definition value_of_choice :: "sym \<Rightarrow> sym \<Rightarrow> nat \<Rightarrow> conf_world \<Rightarrow> conf_world" where
  "value_of_choice s cs def cw =
     (case tri (sym_def (syms (kw cw) s) def) of
        T_no \<Rightarrow> cw
      | T_mod \<Rightarrow>
          if tri (sym_def (syms (kw cw) cs) def) = T_yes
          then on_kw (upd_sym cs (clear_flag (SYMBOL_DEF def)))
                 (conf_warning (name_text s (kw cw) @ '' creates inconsistent choice state'') cw)
          else cw
      | T_yes \<Rightarrow>
          on_kw (upd_sym cs (set_def_val def (Ref s)))
            (if tri (sym_def (syms (kw cw) cs) def) \<noteq> T_no
             then conf_warning (''override: '' @ name_text s (kw cw) @ '' changes choice state'') cw else cw))"

definition update_choice :: "sym \<Rightarrow> nat \<Rightarrow> conf_world \<Rightarrow> conf_world option" where
  "update_choice s def cw =
     (if \<not> sym_is_choice_value s (kw cw) then Some cw
      else do {
        cs \<leftarrow> choice_of s (kw cw);
        let cw = value_of_choice s cs def cw;
        Some (on_kw (upd_sym cs (set_def_tri def
          (EXPR_OR (tri (sym_def (syms (kw cw) cs) def)) (tri (sym_def (syms (kw cw) s) def))))) cw) })"

definition unset_symbol :: "sym \<Rightarrow> nat \<Rightarrow> conf_world \<Rightarrow> conf_world option" where
  "unset_symbol s def cw =
     (let cw = override_warning s def cw;
          cw = (if sym_type (syms (kw cw) s) = S_BOOLEAN \<or> sym_type (syms (kw cw) s) = S_TRISTATE
                then on_kw (put_def_tri s def T_no) cw else cw)
      in update_choice s def cw)"

definition lookup_boolean :: "string \<Rightarrow> kworld \<Rightarrow> sym \<times> kworld" where
  "lookup_boolean name w =
     (case sym_lookup (Some name) {} w of
        (s, w) \<Rightarrow> (s, if sym_type (syms w s) = S_UNKNOWN then upd_sym s (\<lambda>x. x\<lparr>sym_type := S_BOOLEAN\<rparr>) w else w))"

definition read_not_set :: "string \<Rightarrow> nat \<Rightarrow> conf_world \<Rightarrow> conf_world option" where
  "read_not_set name def cw =
     (if def = S_DEF_USER then
        (case sym_find (Some name) (kw cw) of
           None \<Rightarrow> Some (on_kw (sym_add_change_count 1) cw)
         | Some s \<Rightarrow> unset_symbol s def cw)
      else (case lookup_boolean name (kw cw) of (s, w) \<Rightarrow> unset_symbol s def (cw\<lparr>kw := w\<rparr>)))"

definition read_assign :: "conf_host \<Rightarrow> string \<Rightarrow> string \<Rightarrow> nat \<Rightarrow> conf_world \<Rightarrow> conf_world option" where
  "read_assign h name p def cw =
     (case sym_find (Some name) (kw cw) of
        None \<Rightarrow>
          Some (if def = S_DEF_AUTO then cw\<lparr>conf_fs := snd (conf_touch_dep h (dep_prefix cw) name (conf_fs cw))\<rparr>
                else on_kw (sym_add_change_count 1) cw)
      | Some s \<Rightarrow>
          (case conf_set_sym_val s def p (override_warning s def cw) of
             (False, cw) \<Rightarrow> Some cw
           | (True, cw) \<Rightarrow> update_choice s def cw))"

definition read_line :: "conf_host \<Rightarrow> nat \<Rightarrow> string \<Rightarrow> conf_world \<Rightarrow> conf_world option" where
  "read_line h def line cw =
     (let cw = cw\<lparr>conf_lineno := conf_lineno cw + 1\<rparr>
      in case parse_line (CONFIG_prefix h) line of
           Not_set name \<Rightarrow> read_not_set name def cw
         | Assign name p \<Rightarrow> read_assign h name p def cw
         | Skip \<Rightarrow> Some cw
         | Unexpected t \<Rightarrow> Some (conf_warning (''unexpected data: '' @ t) cw))"

subsection \<open>Reading a file\<close>

text \<open>The values of the set that is read are forgotten first.\<close>

definition forget_value :: "nat \<Rightarrow> symbol \<Rightarrow> symbol" where
  "forget_value def x =
     x\<lparr>flags := insert SYMBOL_CHANGED (flags x) - {SYMBOL_DEF def, SYMBOL_VALID} \<union>
         (if SYMBOL_CHOICE \<in> flags x then {SYMBOL_DEF def} else {}),
       sym_def := (sym_def x)(def := no_value)\<rparr>"

definition load_text :: "conf_host \<Rightarrow> nat \<Rightarrow> string \<Rightarrow> string \<Rightarrow> conf_world \<Rightarrow> conf_world option" where
  "load_text h def name text cw =
     (let cw = cw\<lparr>conf_filename := name, conf_lineno := 0, conf_warnings := 0\<rparr>;
          cw = on_kw (\<lambda>w. fold (\<lambda>s. upd_sym s (forget_value def)) (all_symbols w) w) cw
      in each (read_line h def) (file_lines text) cw)"

text \<open>The first visible default of \<open>defconfig_list\<close> that names a file.\<close>

fun find_defconfig ::
  "conf_host \<Rightarrow> calc \<Rightarrow> property list \<Rightarrow> conf_world \<Rightarrow> ((string \<times> string) option \<times> conf_world) option" where
  "find_defconfig h calc [] cw = Some (None, cw)"
| "find_defconfig h calc (p # ps) cw = do {
     (t, w) \<leftarrow> expr_value_of calc (dep_expr (prop_visible p)) (kw cw);
     let cw = cw\<lparr>kw := w\<rparr>;
     if t = T_no then find_defconfig h calc ps cw
     else do {
       e \<leftarrow> prop_expr p;
       case e of
         E_SYMBOL s \<Rightarrow> do {
           w \<leftarrow> calc s (kw cw);
           (v, w) \<leftarrow> sym_get_string_value calc s w;
           let cw = cw\<lparr>kw := w\<rparr>;
           name \<leftarrow> as_string v;
           case zconf_fopen h name of
             Some text \<Rightarrow> Some (Some (name, text), conf_message (''using defaults found in '' @ name) cw)
           | None \<Rightarrow> find_defconfig h calc ps cw }
       | _ \<Rightarrow> find_defconfig h calc ps cw } }"

definition default_file ::
  "conf_host \<Rightarrow> calc \<Rightarrow> conf_world \<Rightarrow> ((string \<times> string) option \<times> conf_world) option" where
  "default_file h calc cw =
     (case zconf_fopen h (conf_get_configname h) of
        Some text \<Rightarrow> Some (Some (conf_get_configname h, text), cw)
      | None \<Rightarrow>
          (let cw = on_kw (sym_add_change_count 1) cw
           in case sym_defconfig_list cw of
                None \<Rightarrow> Some (None, cw)
              | Some s \<Rightarrow> find_defconfig h calc (filter (\<lambda>p. prop_type p = P_DEFAULT) (props (syms (kw cw) s))) cw))"

text \<open>\<open>conf_read_simple\<close>; the result is whether a file was read.\<close>

definition conf_read_simple :: "conf_host \<Rightarrow> calc \<Rightarrow> string option \<Rightarrow> nat \<Rightarrow> conf_world \<Rightarrow> (bool \<times> conf_world) option" where
  "conf_read_simple h calc name def cw = do {
     (file, cw) \<leftarrow> (case name of
         Some n \<Rightarrow> Some (case zconf_fopen h n of Some text \<Rightarrow> Some (n, text) | None \<Rightarrow> None, cw)
       | None \<Rightarrow> default_file h calc cw);
     case file of
       None \<Rightarrow> Some (False, cw)
     | Some (n, text) \<Rightarrow> do { cw \<leftarrow> load_text h def n text cw; Some (True, cw) } }"


subsection \<open>Reading the configuration\<close>

text \<open>
  Whether the calculated value of a symbol differs from the saved one (\<open>conf_unsaved++\<close>). The
  strings of the two values are compared with \<open>strcmp\<close>.
\<close>

definition unsaved_value :: "sym \<Rightarrow> kworld \<Rightarrow> bool option" where
  "unsaved_value s w =
     (if sym_is_choice s w \<or> has_flag SYMBOL_NO_WRITE s w then Some False
      else if sym_has_value s w \<and> has_flag SYMBOL_WRITE s w then
        (if sym_type (syms w s) = S_BOOLEAN \<or> sym_type (syms w s) = S_TRISTATE
         then Some (tri (sym_def (syms w s) S_DEF_USER) \<noteq> sym_get_tristate_value s w)
         else do {
           v \<leftarrow> as_string (val (curr (syms w s)));
           d \<leftarrow> as_string (val (sym_def (syms w s) S_DEF_USER));
           Some (v \<noteq> d) })
      else Some (sym_has_value s w \<or> has_flag SYMBOL_WRITE s w))"

fun count_unsaved :: "calc \<Rightarrow> sym list \<Rightarrow> nat \<Rightarrow> kworld \<Rightarrow> (nat \<times> kworld) option" where
  "count_unsaved calc [] n w = Some (n, w)"
| "count_unsaved calc (s # ss) n w = do {
     w \<leftarrow> calc s w;
     b \<leftarrow> unsaved_value s w;
     count_unsaved calc ss (if b then Suc n else n) w }"

definition reset_hidden :: "sym \<Rightarrow> nat \<Rightarrow> kworld \<Rightarrow> kworld" where
  "reset_hidden s n w =
     update_if (sym_visible (syms w s) = T_no \<and> n = 0) (upd_sym s (clear_flag SYMBOL_DEF_USER)) w"

definition reset_text :: "calc \<Rightarrow> sym \<Rightarrow> nat \<Rightarrow> kworld \<Rightarrow> (nat \<times> kworld) option" where
  "reset_text calc s n w =
     (if sym_type (syms w s) \<notin> {S_STRING, S_INT, S_HEX} then Some (n, w)
      else do {
        str \<leftarrow> as_string (val (sym_def (syms w s) S_DEF_USER));
        (ok, w) \<leftarrow> sym_string_within_range calc s str w;
        Some (if ok then (n, w)
              else (Suc n, upd_sym s (\<lambda>x. x\<lparr>flags := flags x - {SYMBOL_VALID, SYMBOL_DEF_USER}\<rparr>) w)) })"

text \<open>Hidden values are forgotten, and texts that are out of range.\<close>

fun reset_values :: "calc \<Rightarrow> sym list \<Rightarrow> nat \<Rightarrow> kworld \<Rightarrow> (nat \<times> kworld) option" where
  "reset_values calc [] n w = Some (n, w)"
| "reset_values calc (s # ss) n w =
     (if sym_has_value s w \<and> \<not> sym_is_choice_value s w then do {
        (n, w) \<leftarrow> reset_text calc s n (reset_hidden s n w);
        reset_values calc ss n w }
      else reset_values calc ss n w)"

text \<open>\<open>conf_read\<close>; the result is whether it returned 0.\<close>

definition conf_read :: "conf_host \<Rightarrow> calc \<Rightarrow> string option \<Rightarrow> conf_world \<Rightarrow> (bool \<times> conf_world) option" where
  "conf_read h calc name cw = do {
     (ok, cw) \<leftarrow> conf_read_simple h calc name S_DEF_USER (on_kw (sym_set_change_count 0) cw);
     w \<leftarrow> calc (modules_sym (kw cw)) (kw cw);
     if \<not> ok then Some (False, cw\<lparr>kw := w\<rparr>)
     else do {
       (n, w) \<leftarrow> count_unsaved calc (all_symbols w) 0 w;
       (n, w) \<leftarrow> reset_values calc (all_symbols w) n w;
       Some (True, cw\<lparr>kw := sym_add_change_count (if conf_warnings cw \<noteq> 0 \<or> n \<noteq> 0 then 1 else 0) w\<rparr>) } }"

end
