(* ===== verification/Kconfwrite.thy ===== *)
theory Kconfwrite
  imports Kconfdata Kpreproc
begin

text \<open>
  Configuration files (\<open>tools/kconfig/confdata.c\<close>), second part: the printers, the files that
  the build reads (\<open>auto.conf\<close>, \<open>autoconf.h\<close>, their dependencies), and the values for all
  options at once (\<open>allyesconfig\<close>, \<open>randconfig\<close> and the like).
\<close>

subsection \<open>Printers\<close>

definition newline :: string where
  "newline = [CHR 0x0A]"

text \<open>\<open>kconfig_print_symbol\<close>; the flag leaves out what is not set.\<close>

definition kconfig_print_symbol :: "conf_host \<Rightarrow> bool \<Rightarrow> sym \<Rightarrow> string \<Rightarrow> kworld \<Rightarrow> string" where
  "kconfig_print_symbol h skip_unset s value w =
     (if (sym_type (syms w s) = S_BOOLEAN \<or> sym_type (syms w s) = S_TRISTATE) \<and> take 1 value = ''n''
      then (if skip_unset then '''' else ''# '' @ CONFIG_prefix h @ name_text s w @ '' is not set'' @ newline)
      else CONFIG_prefix h @ name_text s w @ ''='' @ value @ newline)"

text \<open>The pieces between the newlines.\<close>

fun split_lines :: "string \<Rightarrow> string list" where
  "split_lines [] = [[]]"
| "split_lines (c # cs) =
     (if c = CHR 0x0A then [] # split_lines cs else (c # hd (split_lines cs)) # tl (split_lines cs))"

definition comment_lines :: "string \<Rightarrow> string \<Rightarrow> string" where
  "comment_lines lead value =
     concat (map (\<lambda>l. lead @ (if l \<noteq> [] then '' '' @ l else []) @ newline) (split_lines value))"

definition kconfig_print_comment :: "string \<Rightarrow> string" where
  "kconfig_print_comment value = comment_lines ''#'' value"

definition header_print_symbol :: "conf_host \<Rightarrow> bool \<Rightarrow> sym \<Rightarrow> string \<Rightarrow> kworld \<Rightarrow> string" where
  "header_print_symbol h arg s value w =
     (case sym_type (syms w s) of
        S_UNKNOWN \<Rightarrow> ''''
      | S_HEX \<Rightarrow> ''#define '' @ CONFIG_prefix h @ name_text s w @ '' '' @
          (if hex_prefixed value then '''' else ''0x'') @ value @ newline
      | S_STRING \<Rightarrow> ''#define '' @ CONFIG_prefix h @ name_text s w @ '' '' @ value @ newline
      | S_INT \<Rightarrow> ''#define '' @ CONFIG_prefix h @ name_text s w @ '' '' @ value @ newline
      | _ \<Rightarrow>
          if take 1 value = ''n'' then ''''
          else ''#define '' @ CONFIG_prefix h @ name_text s w @ (if take 1 value = ''m'' then ''_MODULE'' else '''') @
            '' 1'' @ newline)"

definition header_print_comment :: "string \<Rightarrow> string" where
  "header_print_comment value = ''/*'' @ newline @ comment_lines '' *'' value @ '' */'' @ newline"

record conf_printer =
  print_symbol :: "bool \<Rightarrow> sym \<Rightarrow> string \<Rightarrow> kworld \<Rightarrow> string"
  print_comment :: "string \<Rightarrow> string"

definition kconfig_printer_cb :: "conf_host \<Rightarrow> conf_printer" where
  "kconfig_printer_cb h = \<lparr>print_symbol = kconfig_print_symbol h, print_comment = kconfig_print_comment\<rparr>"

definition header_printer_cb :: "conf_host \<Rightarrow> conf_printer" where
  "header_printer_cb h = \<lparr>print_symbol = header_print_symbol h, print_comment = header_print_comment\<rparr>"

definition conf_write_symbol ::
  "calc \<Rightarrow> conf_printer \<Rightarrow> bool \<Rightarrow> sym \<Rightarrow> kworld \<Rightarrow> (string \<times> kworld) option" where
  "conf_write_symbol calc printer arg s w =
     (if sym_type (syms w s) = S_UNKNOWN then Some ('''', w)
      else do {
        (v, w) \<leftarrow> sym_get_string_value calc s w;
        str \<leftarrow> as_string v;
        let str = (if sym_type (syms w s) = S_STRING then sym_escape_string_value str else str);
        Some (print_symbol printer arg s str w, w) })"

text \<open>The heading has the text of the main menu, cut at 255 characters.\<close>

definition conf_write_heading :: "conf_printer \<Rightarrow> string \<Rightarrow> string" where
  "conf_write_heading printer title =
     print_comment printer
       (take 255 (newline @ ''Automatically generated file; DO NOT EDIT.'' @ newline @ title @ newline))"

subsection \<open>Files that the build reads\<close>

definition write_file :: "string \<Rightarrow> string \<Rightarrow> file_system \<Rightarrow> file_system" where
  "write_file p text fs = fs\<lparr>fs_files := (fs_files fs)(p \<mapsto> text)\<rparr>"

definition rename_file :: "conf_host \<Rightarrow> string \<Rightarrow> string \<Rightarrow> file_system \<Rightarrow> file_system option" where
  "rename_file h old new fs =
     (case fs_files fs old of
        None \<Rightarrow> None
      | Some text \<Rightarrow>
          if fs_denied h new \<or> is_dir new fs \<or> \<not> in_directory new fs then None
          else Some (fs\<lparr>fs_files := (fs_files fs)(old := None, new \<mapsto> text)\<rparr>))"

text \<open>\<open>conf_write_dep\<close>: the configuration depends on the files that were parsed and on the environment.\<close>

fun dep_names :: "string list \<Rightarrow> string" where
  "dep_names [] = ''''"
| "dep_names [f] = [CHR 0x09] @ f @ newline"
| "dep_names (f # fs) = [CHR 0x09] @ f @ '' '' @ [CHR 0x5C] @ newline @ dep_names fs"

definition dep_text :: "string \<Rightarrow> string list \<Rightarrow> string list \<Rightarrow> string" where
  "dep_text autoconf files env =
     ''deps_config := '' @ [CHR 0x5C] @ newline @ dep_names files @
     newline @ autoconf @ '': '' @ [CHR 0x5C] @ newline @ [CHR 0x09] @ ''$(deps_config)'' @ newline @ newline @
     concat env @ newline @ ''$(deps_config): ;'' @ newline"

definition conf_write_dep ::
  "conf_host \<Rightarrow> string list \<Rightarrow> string \<Rightarrow> preproc \<Rightarrow> file_system \<Rightarrow> bool \<times> preproc \<times> file_system" where
  "conf_write_dep h files name pp fs =
     (case create_file h ''..config.tmp'' fs of
        Opened fs \<Rightarrow>
          (case env_write_dep (conf_get_autoconfig_name h) pp of
             (env, pp) \<Rightarrow>
               (let fs = write_file ''..config.tmp'' (dep_text (conf_get_autoconfig_name h) files env) fs
                in case make_parent_dir h name fs of
                     (False, fs) \<Rightarrow> (False, pp, fs)
                   | (True, fs) \<Rightarrow>
                       (True, pp, case rename_file h ''..config.tmp'' name fs of Some fs \<Rightarrow> fs | None \<Rightarrow> fs)))
      | _ \<Rightarrow> (False, pp, fs))"

text \<open>
  \<open>conf_touch_deps\<close>: which options have a value that differs from the one in \<open>auto.conf\<close>. Without
  an old value only \<open>n\<close> is no change.
\<close>

definition unchanged_value :: "calc \<Rightarrow> sym \<Rightarrow> kworld \<Rightarrow> (bool \<times> kworld) option" where
  "unchanged_value calc s w =
     (let bool = (sym_type (syms w s) = S_BOOLEAN \<or> sym_type (syms w s) = S_TRISTATE)
      in if has_flag SYMBOL_WRITE s w then
           if has_flag (SYMBOL_DEF S_DEF_AUTO) s w then
             if bool then Some (sym_get_tristate_value s w = tri (sym_def (syms w s) S_DEF_AUTO), w)
             else if sym_type (syms w s) = S_UNKNOWN then Some (False, w)
             else do {
               (v, w) \<leftarrow> sym_get_string_value calc s w;
               new \<leftarrow> as_string v;
               old \<leftarrow> as_string (val (sym_def (syms w s) S_DEF_AUTO));
               Some (new = old, w) }
           else Some (bool \<and> sym_get_tristate_value s w = T_no, w)
         else Some (\<not> has_flag (SYMBOL_DEF S_DEF_AUTO) s w, w))"

fun touch_changed :: "conf_host \<Rightarrow> calc \<Rightarrow> sym list \<Rightarrow> conf_world \<Rightarrow> (bool \<times> conf_world) option" where
  "touch_changed h calc [] cw = Some (True, cw)"
| "touch_changed h calc (s # ss) cw = do {
     w \<leftarrow> calc s (kw cw);
     let cw = cw\<lparr>kw := w\<rparr>;
     case (if has_flag SYMBOL_NO_WRITE s w then None else sym_name (syms w s)) of
       None \<Rightarrow> touch_changed h calc ss cw
     | Some name \<Rightarrow> do {
         (same, w) \<leftarrow> unchanged_value calc s w;
         let cw = cw\<lparr>kw := w\<rparr>;
         if same then touch_changed h calc ss cw
         else
           (case conf_touch_dep h (dep_prefix cw) name (conf_fs cw) of
              (True, fs) \<Rightarrow> touch_changed h calc ss (cw\<lparr>conf_fs := fs\<rparr>)
            | (False, fs) \<Rightarrow> Some (False, cw\<lparr>conf_fs := fs\<rparr>)) } }"

definition conf_touch_deps :: "conf_host \<Rightarrow> calc \<Rightarrow> conf_world \<Rightarrow> (bool \<times> conf_world) option" where
  "conf_touch_deps h calc cw = do {
     let cw = cw\<lparr>dep_prefix := ''sw/include/config/''\<rparr>;
     (ok, cw) \<leftarrow> conf_read_simple h calc (Some (conf_get_autoconfig_name h)) S_DEF_AUTO cw;
     w \<leftarrow> calc (modules_sym (kw cw)) (kw cw);
     touch_changed h calc (all_symbols w) (cw\<lparr>kw := w\<rparr>) }"

text \<open>The texts of \<open>auto.conf\<close> and \<open>autoconf.h\<close>.\<close>

fun autoconf_texts :: "conf_host \<Rightarrow> calc \<Rightarrow> sym list \<Rightarrow> kworld \<Rightarrow> (string \<times> string \<times> kworld) option" where
  "autoconf_texts h calc [] w = Some ('''', '''', w)"
| "autoconf_texts h calc (s # ss) w = do {
     w \<leftarrow> calc s w;
     if \<not> has_flag SYMBOL_WRITE s w \<or> sym_name (syms w s) = None then autoconf_texts h calc ss w
     else do {
       (conf, w) \<leftarrow> conf_write_symbol calc (kconfig_printer_cb h) True s w;
       (header, w) \<leftarrow> conf_write_symbol calc (header_printer_cb h) False s w;
       (confs, headers, w) \<leftarrow> autoconf_texts h calc ss w;
       Some (conf @ confs, header @ headers, w) } }"

definition move_to :: "conf_host \<Rightarrow> string \<Rightarrow> string \<Rightarrow> file_system \<Rightarrow> bool \<times> file_system" where
  "move_to h tmp name fs =
     (case make_parent_dir h name fs of
        (False, fs) \<Rightarrow> (False, fs)
      | (True, fs) \<Rightarrow> (case rename_file h tmp name fs of None \<Rightarrow> (False, fs) | Some fs \<Rightarrow> (True, fs)))"

definition autoheader_name :: "conf_host \<Rightarrow> string" where
  "autoheader_name h =
     (case conf_getenv h ''KCONFIG_AUTOHEADER'' of Some n \<Rightarrow> n | None \<Rightarrow> ''sw/include/generated/autoconf.h'')"

text \<open>The header is put in place first, \<open>auto.conf\<close> last.\<close>

definition install_autoconf :: "conf_host \<Rightarrow> file_system \<Rightarrow> bool \<times> file_system" where
  "install_autoconf h fs =
     (case move_to h ''.tmpconfig.h'' (autoheader_name h) fs of
        (False, fs) \<Rightarrow> (False, fs)
      | (True, fs) \<Rightarrow> move_to h ''.tmpconfig'' (conf_get_autoconfig_name h) fs)"

definition write_autoconf_files ::
  "conf_host \<Rightarrow> calc \<Rightarrow> string \<Rightarrow> conf_world \<Rightarrow> (bool \<times> conf_world) option" where
  "write_autoconf_files h calc title cw =
     (case create_file h ''.tmpconfig'' (conf_fs cw) of
        Opened fs \<Rightarrow>
          (case create_file h ''.tmpconfig.h'' fs of
             Opened fs \<Rightarrow> do {
               (confs, headers, w) \<leftarrow> autoconf_texts h calc (all_symbols (kw cw)) (kw cw);
               let fs = write_file ''.tmpconfig'' (conf_write_heading (kconfig_printer_cb h) title @ confs) fs;
               let fs = write_file ''.tmpconfig.h'' (conf_write_heading (header_printer_cb h) title @ headers) fs;
               let (ok, fs) = install_autoconf h fs;
               Some (ok, cw\<lparr>kw := w, conf_fs := fs\<rparr>) }
           | _ \<Rightarrow> Some (False, cw\<lparr>conf_fs := fs\<rparr>))
      | _ \<Rightarrow> Some (False, cw))"

definition conf_write_autoconf ::
  "conf_host \<Rightarrow> calc \<Rightarrow> string list \<Rightarrow> string \<Rightarrow> bool \<Rightarrow> preproc \<Rightarrow> conf_world \<Rightarrow> (bool \<times> preproc \<times> conf_world) option" where
  "conf_write_autoconf h calc files title overwrite pp cw =
     (if \<not> overwrite \<and> is_present (conf_get_autoconfig_name h) (conf_fs cw) then Some (True, pp, cw)
      else case conf_write_dep h files ''sw/include/config/auto.conf.cmd'' pp (conf_fs cw) of
        (_, pp, fs) \<Rightarrow> do {
          (ok, cw) \<leftarrow> conf_touch_deps h calc (cw\<lparr>conf_fs := fs\<rparr>);
          if \<not> ok then Some (False, pp, cw)
          else do { (ok, cw) \<leftarrow> write_autoconf_files h calc title cw; Some (ok, pp, cw) } })"


subsection \<open>Values for all options\<close>

datatype conf_def_mode = def_default | def_yes | def_mod | def_y2m | def_m2y | def_no | def_random

text \<open>
  The probabilities of \<open>randconfig\<close>, in percent, from \<open>KCONFIG_PROBABILITY\<close>: up to three numbers;
  \<open>None\<close> when one of them is out of range, which ends the program.
\<close>

primrec probabilities :: "nat \<Rightarrow> string \<Rightarrow> int list option" where
  "probabilities 0 env = Some []"
| "probabilities (Suc k) env =
     (if env = [] then Some []
      else case strtoll 10 env of
        (v, _, rest) \<Rightarrow>
          let tmp = sint (word_of_int v :: u32)
          in if 0 \<le> tmp \<and> tmp \<le> 100
             then map_option ((#) tmp) (probabilities k (if take 1 rest = '':'' then tl rest else rest))
             else None)"

record chances =
  pby :: int
  pty :: int
  ptm :: int

definition chances_of :: "int list \<Rightarrow> chances" where
  "chances_of p =
     (case p of
        [a] \<Rightarrow> \<lparr>pby = a, pty = a - a div 2, ptm = a div 2\<rparr>
      | [a, b] \<Rightarrow> \<lparr>pby = a + b, pty = a, ptm = b\<rparr>
      | [a, b, c] \<Rightarrow> \<lparr>pby = a, pty = b, ptm = c\<rparr>
      | _ \<Rightarrow> \<lparr>pby = 50, pty = 33, ptm = 33\<rparr>)"

definition random_chances :: "conf_host \<Rightarrow> conf_def_mode \<Rightarrow> chances option" where
  "random_chances h mode =
     (if mode \<noteq> def_random then Some (chances_of [])
      else do {
        p \<leftarrow> probabilities 3 (case conf_getenv h ''KCONFIG_PROBABILITY'' of Some env \<Rightarrow> env | None \<Rightarrow> '''');
        let c = chances_of p;
        if pty c + ptm c > 100 then None else Some c })"

text \<open>The results of \<open>rand\<close> are a sequence; the state counts how many were used.\<close>

type_synonym randoms = "nat \<Rightarrow> nat"

definition random_value :: "randoms \<Rightarrow> chances \<Rightarrow> bool \<Rightarrow> nat \<Rightarrow> tristate" where
  "random_value rnd c tristate k =
     (let cnt = int (rnd k mod 100)
      in if tristate then (if cnt < pty c then T_yes else if cnt < pty c + ptm c then T_mod else T_no)
         else if cnt < pby c then T_yes else T_no)"

text \<open>The value that a mode gives to a symbol, and how many random numbers it takes.\<close>

definition mode_value :: "randoms \<Rightarrow> chances \<Rightarrow> conf_def_mode \<Rightarrow> symbol \<Rightarrow> nat \<Rightarrow> (tristate \<times> nat) option" where
  "mode_value rnd c mode x k =
     (case mode of
        def_yes \<Rightarrow> Some (T_yes, k)
      | def_mod \<Rightarrow> Some (T_mod, k)
      | def_no \<Rightarrow> Some (if SYMBOL_ALLNOCONFIG_Y \<in> flags x then T_yes else T_no, k)
      | def_random \<Rightarrow> Some (random_value rnd c (sym_type x = S_TRISTATE) k, Suc k)
      | _ \<Rightarrow> None)"

definition set_new :: "randoms \<Rightarrow> chances \<Rightarrow> conf_def_mode \<Rightarrow> sym \<Rightarrow> bool \<times> nat \<times> kworld \<Rightarrow> bool \<times> nat \<times> kworld" where
  "set_new rnd c mode s st =
     (case st of (changed, k, w) \<Rightarrow>
        if sym_has_value s w \<or> has_flag SYMBOL_VALID s w then st
        else if sym_get_type s w = S_BOOLEAN \<or> sym_get_type s w = S_TRISTATE then
          (case mode_value rnd c mode (syms w s) k of
             None \<Rightarrow> (True, k, w)
           | Some (t, k) \<Rightarrow>
               (True, k, update_if (\<not> (sym_is_choice s w \<and> mode = def_random)) (upd_sym s (set_flag SYMBOL_DEF_USER))
                  (upd_sym s (set_def_tri S_DEF_USER t) w)))
        else st)"

definition needs_choice_values :: "sym \<Rightarrow> kworld \<Rightarrow> bool" where
  "needs_choice_values s w \<longleftrightarrow> (sym_is_choice s w \<and> \<not> sym_has_value s w) \<or> sym_is_choice_value s w"

definition mark_choices :: "conf_def_mode \<Rightarrow> kworld \<Rightarrow> kworld" where
  "mark_choices mode w =
     (if mode = def_random then w
      else fold (\<lambda>s w. update_if (needs_choice_values s w) (upd_sym s (set_flag SYMBOL_NEED_SET_CHOICE_VALUES)) w)
             (all_symbols w) w)"

text \<open>One value of a choice at random; a choice without values divides by zero.\<close>

definition select_value :: "sym \<Rightarrow> sym \<Rightarrow> bool \<Rightarrow> kworld \<Rightarrow> kworld" where
  "select_value cs v chosen w =
     upd_sym v (\<lambda>x. x\<lparr>flags := insert SYMBOL_DEF_USER (flags x) - {SYMBOL_VALID}\<rparr>)
       (update_if chosen (upd_sym cs (set_def_val S_DEF_USER (Ref v)))
         (upd_sym v (set_def_tri S_DEF_USER (if chosen then T_yes else T_no)) w))"

definition randomize_choice_values :: "randoms \<Rightarrow> sym \<Rightarrow> nat \<Rightarrow> kworld \<Rightarrow> (bool \<times> nat \<times> kworld) option" where
  "randomize_choice_values rnd cs k w =
     (if tri (curr (syms w cs)) \<noteq> T_yes then Some (False, k, w)
      else do {
        vs \<leftarrow> choice_values cs w;
        if vs = [] then None
        else do {
          let chosen = rnd k mod length vs;
          let w = fold (\<lambda>(i, v). select_value cs v (i = chosen)) (enumerate 0 vs) w;
          Some (True, Suc k,
            upd_sym cs (\<lambda>x. x\<lparr>flags := insert SYMBOL_DEF_USER (flags x) - {SYMBOL_VALID}\<rparr>) w) } })"

fun complete_choices ::
  "calc \<Rightarrow> randoms \<Rightarrow> conf_def_mode \<Rightarrow> sym list \<Rightarrow> bool \<Rightarrow> nat \<Rightarrow> kworld \<Rightarrow> (bool \<times> nat \<times> kworld) option" where
  "complete_choices calc rnd mode [] changed k w = Some (changed, k, w)"
| "complete_choices calc rnd mode (s # ss) changed k w =
     (if sym_has_value s w \<or> \<not> sym_is_choice s w then complete_choices calc rnd mode ss changed k w
      else do {
        w \<leftarrow> calc s w;
        (b, k, w) \<leftarrow> (if mode = def_random then randomize_choice_values rnd s k w
                      else do { w \<leftarrow> set_all_choice_values s w; Some (True, k, w) });
        complete_choices calc rnd mode ss (changed \<or> b) k w })"

datatype 'a outcome = Exits | Returns 'a

definition conf_set_all_new_symbols ::
  "conf_host \<Rightarrow> calc \<Rightarrow> randoms \<Rightarrow> conf_def_mode \<Rightarrow> nat \<Rightarrow> kworld \<Rightarrow> (bool \<times> nat \<times> kworld) outcome option" where
  "conf_set_all_new_symbols h calc rnd mode k w =
     (case random_chances h mode of
        None \<Rightarrow> Some Exits
      | Some c \<Rightarrow> do {
          let (changed, k, w) = fold (set_new rnd c mode) (all_symbols w) (False, k, w);
          w \<leftarrow> sym_clear_all_valid calc w;
          let w = mark_choices mode w;
          r \<leftarrow> complete_choices calc rnd mode (all_symbols w) changed k w;
          Some (Returns r) })"

definition conf_rewrite_mod_or_yes :: "calc \<Rightarrow> conf_def_mode \<Rightarrow> kworld \<Rightarrow> kworld option" where
  "conf_rewrite_mod_or_yes calc mode w =
     (let old_val = (if mode = def_y2m then T_yes else T_mod);
          new_val = (if mode = def_y2m then T_mod else T_yes);
          w = fold (\<lambda>s w. update_if (sym_get_type s w = S_TRISTATE \<and> tri (sym_def (syms w s) S_DEF_USER) = old_val)
                     (upd_sym s (set_def_tri S_DEF_USER new_val)) w) (all_symbols w) w
      in sym_clear_all_valid calc w)"

end
