(* ===== verification/Kmenu.thy ===== *)
theory Kmenu
  imports Kconfwrite
begin

text \<open>
  The menus of the configuration (\<open>tools/kconfig/menu.c\<close>): the operations with which the parser
  builds them. \<open>menu_finalize\<close> is in \<open>Kfinalize\<close>, the queries in \<open>Kmenu_Show\<close>.

  An entry (\<open>struct menu\<close>) is a number, its data are in the table \<open>menus\<close>; \<open>list\<close> and \<open>next\<close> are
  the shape of a \<open>tree\<close>. A prompt is a property of the symbol of the entry, or one that the entry
  owns. \<open>None\<close> is a null pointer that is read. The position of the parser is part of the state.
\<close>

subsection \<open>Entries\<close>

datatype menu_prompt = In_symbol nat | Own property

record menu =
  menu_sym :: "sym option"
  menu_prompt :: "menu_prompt option"
  menu_visibility :: "expr option"
  menu_dep :: "expr option"
  menu_help :: "string option"
  menu_parent :: "nat option"
  menu_file :: string
  menu_lineno :: int

datatype tree = Entry (entry: nat) (menu_list: "tree list")

text \<open>
  The static state: the table of the entries and the next free number, the whole tree, the
  entries that the parser is at, the symbols of \<open>option modules\<close> and \<open>option defconfig_list\<close>, the
  position, the number of errors and what is written to \<open>stderr\<close> (in \<open>messages\<close>).
\<close>

record menu_world =
  mw :: kworld
  menus :: "nat \<Rightarrow> menu"
  next_menu :: nat
  menu_tree :: tree
  current_entry :: nat
  current_menu :: nat
  modules_option :: "sym option"
  defconfig_option :: "sym option"
  here_file :: string
  here_line :: int
  yynerrs :: nat

definition rootmenu :: nat where
  "rootmenu = 0"

definition zero_menu :: menu where
  "zero_menu = \<lparr>menu_sym = None, menu_prompt = None, menu_visibility = None, menu_dep = None, menu_help = None,
     menu_parent = None, menu_file = '''', menu_lineno = 0\<rparr>"

text \<open>\<open>_menu_init\<close>, with the tables as the program starts with them.\<close>

definition menu_init :: "kworld \<Rightarrow> menu_world" where
  "menu_init w = \<lparr>mw = w, menus = (\<lambda>_. zero_menu), next_menu = 1, menu_tree = Entry rootmenu [],
     current_entry = rootmenu, current_menu = rootmenu, modules_option = None, defconfig_option = None,
     here_file = '''', here_line = 0, yynerrs = 0\<rparr>"

definition on_mw :: "(kworld \<Rightarrow> kworld) \<Rightarrow> menu_world \<Rightarrow> menu_world" where
  "on_mw f st = st\<lparr>mw := f (mw st)\<rparr>"

definition upd_menu :: "nat \<Rightarrow> (menu \<Rightarrow> menu) \<Rightarrow> menu_world \<Rightarrow> menu_world" where
  "upd_menu m f st = st\<lparr>menus := (menus st)(m := f (menus st m))\<rparr>"

definition entry_sym :: "nat \<Rightarrow> menu_world \<Rightarrow> sym option" where
  "entry_sym m st = menu_sym (menus st m)"

text \<open>The property of a prompt.\<close>

definition entry_prompt :: "nat \<Rightarrow> menu_world \<Rightarrow> property option" where
  "entry_prompt m st =
     (case menu_prompt (menus st m) of
        None \<Rightarrow> None
      | Some (Own p) \<Rightarrow> Some p
      | Some (In_symbol i) \<Rightarrow> map_option (\<lambda>s. prop_at s i (mw st)) (entry_sym m st))"

definition menu_has_prompt :: "nat \<Rightarrow> menu_world \<Rightarrow> bool" where
  "menu_has_prompt m st \<longleftrightarrow> menu_prompt (menus st m) \<noteq> None"

subsection \<open>Messages\<close>

definition warning_at :: "string \<Rightarrow> int \<Rightarrow> string \<Rightarrow> menu_world \<Rightarrow> menu_world" where
  "warning_at file line msg st =
     on_mw (\<lambda>w. w\<lparr>messages := messages w @ [file @ '':'' @ decimal_text line @ '':warning: '' @ msg @ newline]\<rparr>) st"

definition menu_warn :: "nat \<Rightarrow> string \<Rightarrow> menu_world \<Rightarrow> menu_world" where
  "menu_warn m msg st = warning_at (menu_file (menus st m)) (menu_lineno (menus st m)) msg st"

definition prop_warn :: "property \<Rightarrow> string \<Rightarrow> menu_world \<Rightarrow> menu_world" where
  "prop_warn p msg st = warning_at (prop_file p) (prop_lineno p) msg st"

definition zconf_error :: "string \<Rightarrow> menu_world \<Rightarrow> menu_world" where
  "zconf_error msg st =
     on_mw (\<lambda>w. w\<lparr>messages := messages w @ [here_file st @ '':'' @ decimal_text (here_line st) @ '': '' @ msg @ newline]\<rparr>)
       (st\<lparr>yynerrs := yynerrs st + 1\<rparr>)"

definition zconfprint :: "string \<Rightarrow> menu_world \<Rightarrow> menu_world" where
  "zconfprint msg st =
     on_mw (\<lambda>w. w\<lparr>messages := messages w @ [here_file st @ '':'' @ decimal_text (here_line st) @ '': '' @ msg @ newline]\<rparr>) st"

definition quoted :: "string \<Rightarrow> string" where
  "quoted s = [CHR 0x27] @ s @ [CHR 0x27]"

definition choice_name :: "sym \<Rightarrow> kworld \<Rightarrow> string" where
  "choice_name s w = (case sym_name (syms w s) of Some n \<Rightarrow> n | None \<Rightarrow> ''<choice>'')"

subsection \<open>Properties\<close>

text \<open>
  \<open>menu_add_prop\<close>. A property of a symbol is appended to its list; one of an entry without a
  symbol is only reachable when it becomes the prompt.
\<close>

definition new_property :: "prop_type \<Rightarrow> string option \<Rightarrow> expr option \<Rightarrow> expr option \<Rightarrow> menu_world \<Rightarrow> property" where
  "new_property ty txt e dep st =
     \<lparr>prop_type = ty, prop_text = txt, prop_visible = \<lparr>dep_expr = dep, dep_tri = T_no\<rparr>, prop_expr = e,
      prop_menu = Some (current_entry st), prop_file = here_file st, prop_lineno = here_line st\<rparr>"

definition append_prop :: "property \<Rightarrow> symbol \<Rightarrow> symbol" where
  "append_prop p x = x\<lparr>props := props x @ [p]\<rparr>"

definition menu_add_prop :: "property \<Rightarrow> menu_world \<Rightarrow> menu_prompt \<times> menu_world" where
  "menu_add_prop p st =
     (case entry_sym (current_entry st) st of
        None \<Rightarrow> (Own p, st)
      | Some s \<Rightarrow> (In_symbol (length (props (syms (mw st) s))), on_mw (upd_sym s (append_prop p)) st))"

definition menu_add_expr :: "prop_type \<Rightarrow> expr option \<Rightarrow> expr option \<Rightarrow> menu_world \<Rightarrow> menu_world" where
  "menu_add_expr ty e dep st = snd (menu_add_prop (new_property ty None e dep st) st)"

definition menu_add_symbol :: "prop_type \<Rightarrow> sym \<Rightarrow> expr option \<Rightarrow> menu_world \<Rightarrow> menu_world" where
  "menu_add_symbol ty s dep st = menu_add_expr ty (Some (E_SYMBOL s)) dep st"

subsection \<open>Adding entries\<close>

text \<open>
  The parser adds an entry behind the last one of the current menu (\<open>last_entry_ptr\<close>), and opens
  an entry as a menu before anything follows it.
\<close>

fun add_child :: "nat \<Rightarrow> nat \<Rightarrow> tree \<Rightarrow> tree" where
  "add_child p c (Entry m ts) =
     Entry m (map (add_child p c) ts @ (if m = p then [Entry c []] else []))"

definition menu_add_entry :: "sym option \<Rightarrow> menu_world \<Rightarrow> menu_world" where
  "menu_add_entry s st =
     (let c = next_menu st;
          st = st\<lparr>menus := (menus st)(c := zero_menu\<lparr>menu_sym := s, menu_parent := Some (current_menu st),
                      menu_file := here_file st, menu_lineno := here_line st\<rparr>),
                  next_menu := c + 1,
                  menu_tree := add_child (current_menu st) c (menu_tree st),
                  current_entry := c\<rparr>
      in case s of None \<Rightarrow> st | Some s \<Rightarrow> menu_add_symbol P_SYMBOL s None st)"

definition menu_add_menu :: "menu_world \<Rightarrow> menu_world" where
  "menu_add_menu st = st\<lparr>current_menu := current_entry st\<rparr>"

definition menu_end_menu :: "menu_world \<Rightarrow> menu_world option" where
  "menu_end_menu st = do {
     p \<leftarrow> menu_parent (menus st (current_menu st));
     Some (st\<lparr>current_menu := p\<rparr>) }"

definition menu_add_dep :: "expr option \<Rightarrow> menu_world \<Rightarrow> menu_world" where
  "menu_add_dep dep st = upd_menu (current_entry st) (\<lambda>m. m\<lparr>menu_dep := expr_alloc_and (menu_dep m) dep\<rparr>) st"

definition menu_add_visibility :: "expr option \<Rightarrow> menu_world \<Rightarrow> menu_world" where
  "menu_add_visibility e st =
     upd_menu (current_entry st) (\<lambda>m. m\<lparr>menu_visibility := expr_alloc_and (menu_visibility m) e\<rparr>) st"

definition set_type :: "symbol_type \<Rightarrow> symbol \<Rightarrow> symbol" where
  "set_type ty x = x\<lparr>sym_type := ty\<rparr>"

definition menu_set_type :: "symbol_type \<Rightarrow> menu_world \<Rightarrow> menu_world option" where
  "menu_set_type ty st = do {
     s \<leftarrow> entry_sym (current_entry st) st;
     let old = sym_type (syms (mw st) s);
     Some (if old = ty then st
           else if old = S_UNKNOWN then on_mw (upd_sym s (set_type ty)) st
           else menu_warn (current_entry st)
                  (''ignoring type redefinition of '' @ quoted (choice_name s (mw st)) @ '' from '' @
                   quoted (sym_type_name old) @ '' to '' @ quoted (sym_type_name ty)) st) }"

definition copy_expr :: "expr option \<Rightarrow> expr option" where
  "copy_expr e = e \<bind> expr_copy"

text \<open>
  The conditions \<open>visible if\<close> of the menus above an entry. The parents of an entry were added
  before it, so that its number bounds their count.
\<close>

primrec upper_visibility :: "nat \<Rightarrow> nat \<Rightarrow> (nat \<Rightarrow> menu) \<Rightarrow> expr option list" where
  "upper_visibility 0 m ms = []"
| "upper_visibility (Suc n) m ms =
     (case menu_parent (ms m) of
        None \<Rightarrow> []
      | Some p \<Rightarrow> menu_visibility (ms p) # upper_visibility n p ms)"

definition restrict_visibility :: "expr option list \<Rightarrow> expr option \<Rightarrow> expr option" where
  "restrict_visibility vs e =
     fold (\<lambda>v e. if v = None then e else expr_alloc_and e (copy_expr v)) vs e"

text \<open>
  \<open>menu_add_prompt\<close>. The prompt is in the list of the symbol before its condition is completed,
  which nothing reads in between.
\<close>

definition menu_add_prompt :: "prop_type \<Rightarrow> string \<Rightarrow> expr option \<Rightarrow> menu_world \<Rightarrow> menu_world" where
  "menu_add_prompt ty prompt dep st =
     (let m = current_entry st;
          text = dropWhile is_space prompt;
          dep = (if ty = P_PROMPT then restrict_visibility (upper_visibility m m (menus st)) dep else dep);
          p = new_property ty (Some text) None dep st;
          had = menu_has_prompt m st;
          (at, st) = menu_add_prop p st;
          st = update_if (text \<noteq> prompt) (prop_warn p ''leading whitespace ignored'') st;
          st = update_if had (prop_warn p ''prompt redefined'') st
      in upd_menu m (\<lambda>x. x\<lparr>menu_prompt := Some at\<rparr>) st)"

subsection \<open>Options\<close>

definition menu_add_option_modules :: "menu_world \<Rightarrow> menu_world option" where
  "menu_add_option_modules st = do {
     s \<leftarrow> entry_sym (current_entry st) st;
     let st = (case modules_option st of
                 None \<Rightarrow> st
               | Some old \<Rightarrow> zconf_error (''symbol '' @ quoted (name_text s (mw st)) @
                   '' redefines option '' @ quoted ''modules'' @ '' already defined by symbol '' @
                   quoted (name_text old (mw st))) st);
     Some (st\<lparr>modules_option := Some s\<rparr>) }"

definition menu_add_option_defconfig_list :: "menu_world \<Rightarrow> menu_world option" where
  "menu_add_option_defconfig_list st = do {
     let here = entry_sym (current_entry st) st;
     let st = (if defconfig_option st = None then st\<lparr>defconfig_option := here\<rparr>
               else if defconfig_option st \<noteq> here then zconf_error ''trying to redefine defconfig symbol'' st
               else st);
     s \<leftarrow> defconfig_option st;
     Some (on_mw (upd_sym s (set_flag SYMBOL_NO_WRITE)) st) }"

definition menu_add_option_allnoconfig_y :: "menu_world \<Rightarrow> menu_world option" where
  "menu_add_option_allnoconfig_y st = do {
     s \<leftarrow> entry_sym (current_entry st) st;
     Some (on_mw (upd_sym s (set_flag SYMBOL_ALLNOCONFIG_Y)) st) }"

end
