(* ===== verification/Kfinalize.thy ===== *)
theory Kfinalize
  imports Kmenu
begin

text \<open>
  \<open>menu_finalize\<close> (\<open>tools/kconfig/menu.c\<close>), in the steps of the code: the types of the values of
  a choice, the dependencies of the parent in every child and in its properties, automatic
  submenus, and for each child the completion of a choice and the dissolution of a submenu without
  prompt.
\<close>

subsection \<open>Rewriting\<close>

fun rewrite_m :: "sym \<Rightarrow> expr \<Rightarrow> expr" where
  "rewrite_m modules (E_NOT e) = E_NOT (rewrite_m modules e)"
| "rewrite_m modules (E_OR l r) = E_OR (rewrite_m modules l) (rewrite_m modules r)"
| "rewrite_m modules (E_AND l r) = E_AND (rewrite_m modules l) (rewrite_m modules r)"
| "rewrite_m modules (E_SYMBOL s) =
     (if s = symbol_mod then E_AND (E_SYMBOL s) (E_SYMBOL modules) else E_SYMBOL s)"
| "rewrite_m modules e = e"

text \<open>A condition below an outer one: rewritten, transformed, joined and without duplicates.\<close>

definition inherit_dep :: "kworld \<Rightarrow> expr option \<Rightarrow> expr option \<Rightarrow> expr option option" where
  "inherit_dep w outer e =
     expr_eliminate_dups w
       (expr_alloc_and (copy_expr outer) (map_option (\<lambda>e. expr_transform w (rewrite_m (modules_sym w) e)) e))"

subsection \<open>Choice types\<close>

text \<open>The first typed value gives a choice its type, and the choice gives it to the others.\<close>

definition typed_child :: "menu_world \<Rightarrow> nat \<Rightarrow> symbol_type option" where
  "typed_child st c =
     (case entry_sym c st of
        None \<Rightarrow> None
      | Some v \<Rightarrow> if sym_type (syms (mw st) v) \<noteq> S_UNKNOWN then Some (sym_type (syms (mw st) v)) else None)"

definition choice_type :: "nat \<Rightarrow> sym \<Rightarrow> nat list \<Rightarrow> menu_world \<Rightarrow> menu_world option" where
  "choice_type m s cs st =
     (if sym_type (syms (mw st) s) \<noteq> S_UNKNOWN then Some st
      else let st = st\<lparr>current_entry := m\<rparr>
           in case List.map_filter (typed_child st) cs of
                [] \<Rightarrow> Some st
              | ty # _ \<Rightarrow> menu_set_type ty st)"

definition child_type :: "sym \<Rightarrow> nat \<Rightarrow> menu_world \<Rightarrow> menu_world option" where
  "child_type s c st =
     (let st = st\<lparr>current_entry := c\<rparr>
      in case entry_sym c st of
           None \<Rightarrow> Some st
         | Some v \<Rightarrow> if sym_type (syms (mw st) v) = S_UNKNOWN
                     then menu_set_type (sym_type (syms (mw st) s)) st else Some st)"

definition choice_types :: "nat \<Rightarrow> sym \<Rightarrow> nat list \<Rightarrow> menu_world \<Rightarrow> menu_world option" where
  "choice_types m s cs st = do { st \<leftarrow> choice_type m s cs st; each (child_type s) cs st }"

subsection \<open>Dependencies of the parent\<close>

definition set_prop_visible :: "expr option \<Rightarrow> property \<Rightarrow> property" where
  "set_prop_visible e p = p\<lparr>prop_visible := (prop_visible p)\<lparr>dep_expr := e\<rparr>\<rparr>"

definition upd_prop :: "nat \<Rightarrow> (property \<Rightarrow> property) \<Rightarrow> symbol \<Rightarrow> symbol" where
  "upd_prop i f x = x\<lparr>props := (props x)[i := f (props x ! i)]\<rparr>"

definition or_rev_dep :: "expr option \<Rightarrow> symbol \<Rightarrow> symbol" where
  "or_rev_dep e x = x\<lparr>rev_dep := (rev_dep x)\<lparr>dep_expr := expr_alloc_or (dep_expr (rev_dep x)) e\<rparr>\<rparr>"

definition or_implied :: "expr option \<Rightarrow> symbol \<Rightarrow> symbol" where
  "or_implied e x = x\<lparr>implied := (implied x)\<lparr>dep_expr := expr_alloc_or (dep_expr (implied x)) e\<rparr>\<rparr>"

definition or_dir_dep :: "expr option \<Rightarrow> symbol \<Rightarrow> symbol" where
  "or_dir_dep e x = x\<lparr>dir_dep := (dir_dep x)\<lparr>dep_expr := expr_alloc_or (dep_expr (dir_dep x)) e\<rparr>\<rparr>"

text \<open>A select or an imply of the symbol \<open>s\<close> under the condition \<open>dep\<close>.\<close>

definition reverse_dep :: "sym \<Rightarrow> property \<Rightarrow> expr option \<Rightarrow> kworld \<Rightarrow> kworld option" where
  "reverse_dep s p dep w =
     (let e = expr_alloc_and (Some (E_SYMBOL s)) (copy_expr dep)
      in if prop_type p = P_SELECT then do { es \<leftarrow> prop_get_symbol p; Some (upd_sym es (or_rev_dep e) w) }
         else if prop_type p = P_IMPLY then do { es \<leftarrow> prop_get_symbol p; Some (upd_sym es (or_implied e) w) }
         else Some w)"

definition inherit_prop :: "nat \<Rightarrow> sym \<Rightarrow> expr option \<Rightarrow> nat \<Rightarrow> kworld \<Rightarrow> kworld option" where
  "inherit_prop m s base i w =
     (let p = prop_at s i w
      in if prop_menu p \<noteq> Some m then Some w
         else do {
           dep \<leftarrow> inherit_dep w base (dep_expr (prop_visible p));
           let dep = (if sym_type (syms w s) \<noteq> S_TRISTATE then map_option (expr_trans_bool w) dep else dep);
           reverse_dep s p dep (upd_sym s (upd_prop i (set_prop_visible dep)) w) })"

text \<open>An entry without a symbol has only its prompt.\<close>

definition inherit_prompt :: "nat \<Rightarrow> expr option \<Rightarrow> menu_world \<Rightarrow> menu_world option" where
  "inherit_prompt m base st =
     (case menu_prompt (menus st m) of
        Some (Own p) \<Rightarrow>
          if prop_menu p \<noteq> Some m then Some st
          else do {
            dep \<leftarrow> inherit_dep (mw st) base (dep_expr (prop_visible p));
            Some (upd_menu m (\<lambda>x. x\<lparr>menu_prompt := Some (Own (set_prop_visible dep p))\<rparr>) st) }
      | _ \<Rightarrow> Some st)"

definition inherit_child :: "expr option \<Rightarrow> nat \<Rightarrow> menu_world \<Rightarrow> menu_world option" where
  "inherit_child parentdep c st = do {
     base \<leftarrow> inherit_dep (mw st) parentdep (menu_dep (menus st c));
     let st = upd_menu c (\<lambda>x. x\<lparr>menu_dep := base\<rparr>) st;
     case entry_sym c st of
       None \<Rightarrow> inherit_prompt c base st
     | Some s \<Rightarrow> do {
         w \<leftarrow> each (inherit_prop c s base) [0..<length (props (syms (mw st) s))] (mw st);
         Some (st\<lparr>mw := w\<rparr>) } }"

text \<open>The dependency that the children of an entry inherit.\<close>

definition inherited :: "nat \<Rightarrow> menu_world \<Rightarrow> expr option" where
  "inherited m st =
     (case entry_sym m st of
        Some s \<Rightarrow> if sym_is_choice s (mw st) then Some (E_SYMBOL s) else menu_dep (menus st m)
      | None \<Rightarrow> menu_dep (menus st m))"

definition prepare_children :: "nat \<Rightarrow> nat list \<Rightarrow> menu_world \<Rightarrow> menu_world option" where
  "prepare_children m cs st = do {
     st \<leftarrow> (case entry_sym m st of
              Some s \<Rightarrow> if sym_is_choice s (mw st) then choice_types m s cs st else Some st
            | None \<Rightarrow> Some st);
     each (inherit_child (inherited m st)) cs st }"

subsection \<open>Automatic submenus\<close>

definition explicit_condition :: "kworld \<Rightarrow> expr option \<Rightarrow> expr option option" where
  "explicit_condition w e =
     expr_eliminate_dups w (map_option (expr_transform w) (trans_compare e E_UNEQUAL symbol_no))"

definition contains_symbol :: "expr option \<Rightarrow> sym \<Rightarrow> bool" where
  "contains_symbol e s = (case e of None \<Rightarrow> False | Some e \<Rightarrow> expr_contains_symbol e s)"

definition depends_symbol :: "expr option \<Rightarrow> sym \<Rightarrow> bool" where
  "depends_symbol e s = (case e of None \<Rightarrow> False | Some e \<Rightarrow> expr_depends_symbol e s)"

text \<open>The condition of an entry, and whether it puts the entry below the symbol \<open>s\<close>.\<close>

definition entry_condition :: "nat \<Rightarrow> menu_world \<Rightarrow> expr option" where
  "entry_condition m st =
     (case entry_prompt m st of Some p \<Rightarrow> dep_expr (prop_visible p) | None \<Rightarrow> menu_dep (menus st m))"

definition submenu_base :: "nat \<Rightarrow> menu_world \<Rightarrow> expr option option" where
  "submenu_base m st =
     explicit_condition (mw st)
       (case entry_prompt m st of Some p \<Rightarrow> dep_expr (prop_visible p) | None \<Rightarrow> None)"

definition belongs_below :: "kworld \<Rightarrow> sym \<Rightarrow> expr option \<Rightarrow> expr option \<Rightarrow> bool option" where
  "belongs_below w s base dep =
     (if \<not> contains_symbol dep s then Some False
      else if depends_symbol dep s then Some True
      else do {
        dep \<leftarrow> explicit_condition w dep;
        Some (expr_is_yes (snd (expr_eliminate_eq dep (copy_expr base)))) })"

subsection \<open>Choice values\<close>

definition is_choice_entry :: "nat \<Rightarrow> menu_world \<Rightarrow> bool" where
  "is_choice_entry m st = (case entry_sym m st of None \<Rightarrow> False | Some s \<Rightarrow> sym_is_choice s (mw st))"

text \<open>\<open>prop->menu->parent->sym\<close>\<close>

definition prop_parent_sym :: "property \<Rightarrow> menu_world \<Rightarrow> sym option option" where
  "prop_parent_sym p st = do {
     m \<leftarrow> prop_menu p;
     q \<leftarrow> menu_parent (menus st m);
     Some (entry_sym q st) }"

definition check_value_prop :: "sym \<Rightarrow> nat \<Rightarrow> property \<Rightarrow> menu_world \<Rightarrow> menu_world option" where
  "check_value_prop s c p st = do {
     let st = update_if (prop_type p = P_DEFAULT) (prop_warn p ''defaults for choice values not supported'') st;
     if prop_menu p = Some c \<or> prop_type p \<noteq> P_PROMPT then Some st
     else do {
       q \<leftarrow> prop_parent_sym p st;
       Some (update_if (q \<noteq> Some s) (prop_warn p ''choice value used outside its choice group'') st) } }"

text \<open>The values of a tristate choice that are no tristate depend on the choice being \<open>y\<close>.\<close>

definition require_choice :: "sym \<Rightarrow> nat \<Rightarrow> sym \<Rightarrow> menu_world \<Rightarrow> menu_world" where
  "require_choice s c v st =
     (if sym_type (syms (mw st) s) = S_TRISTATE \<and> sym_type (syms (mw st) v) \<noteq> S_TRISTATE then
        (let base = Some (E_CMP E_EQUAL s symbol_yes);
             st = upd_menu c (\<lambda>x. x\<lparr>menu_dep := expr_alloc_and base (menu_dep x)\<rparr>) st
         in on_mw (upd_sym v (\<lambda>x. x\<lparr>props := map (\<lambda>p.
              if prop_menu p = Some c then set_prop_visible (expr_alloc_and base (dep_expr (prop_visible p))) p else p)
              (props x)\<rparr>)) st)
      else st)"

text \<open>The index of the choice property, and the value at the end of its list.\<close>

definition choice_index :: "sym \<Rightarrow> kworld \<Rightarrow> nat option" where
  "choice_index s w = find (\<lambda>i. prop_type (prop_at s i w) = P_CHOICE) [0..<length (props (syms w s))]"

fun append_member :: "expr option \<Rightarrow> sym \<Rightarrow> expr option" where
  "append_member None v = Some (E_LIST [v])"
| "append_member (Some (E_LIST vs)) v = Some (E_LIST (vs @ [v]))"
| "append_member e v = None"

definition add_choice_value :: "sym \<Rightarrow> sym \<Rightarrow> kworld \<Rightarrow> kworld option" where
  "add_choice_value s v w = do {
     i \<leftarrow> choice_index s w;
     e \<leftarrow> append_member (prop_expr (prop_at s i w)) v;
     Some (upd_sym s (upd_prop i (\<lambda>p. p\<lparr>prop_expr := Some e\<rparr>)) w) }"

definition join_choice :: "sym \<Rightarrow> nat \<Rightarrow> sym \<Rightarrow> menu_world \<Rightarrow> menu_world option" where
  "join_choice s c v st = do {
     let st = on_mw (upd_sym v (set_flag SYMBOL_CHOICEVAL)) (st\<lparr>current_entry := c\<rparr>);
     let st = update_if (\<not> menu_has_prompt c st) (menu_warn c ''choice value must have a prompt'') st;
     st \<leftarrow> each (check_value_prop s c) (props (syms (mw st) v)) st;
     let st = menu_add_symbol P_CHOICE s None (require_choice s c v st);
     w \<leftarrow> add_choice_value s v (mw st);
     Some (st\<lparr>mw := w\<rparr>) }"

text \<open>The child \<open>c\<close> of the entry \<open>m\<close>.\<close>

definition settle_value :: "nat \<Rightarrow> nat \<Rightarrow> menu_world \<Rightarrow> menu_world option" where
  "settle_value m c st =
     (case (entry_sym m st, entry_sym c st) of
        (Some s, Some v) \<Rightarrow>
          if sym_is_choice s (mw st) \<and> \<not> sym_is_choice_value v (mw st) then join_choice s c v st else Some st
      | _ \<Rightarrow> Some st)"

subsection \<open>Submenus without a prompt\<close>

definition set_parent :: "nat \<Rightarrow> nat \<Rightarrow> menu_world \<Rightarrow> menu_world" where
  "set_parent p m st = upd_menu m (\<lambda>x. x\<lparr>menu_parent := Some p\<rparr>) st"

definition has_text :: "nat \<Rightarrow> menu_world \<Rightarrow> bool" where
  "has_text m st = (case entry_prompt m st of None \<Rightarrow> False | Some p \<Rightarrow> prop_text p \<noteq> None)"

fun tree_size :: "tree \<Rightarrow> nat" where
  "tree_size (Entry m ts) = Suc (sum_list (map tree_size ts))"

abbreviation forest_size :: "tree list \<Rightarrow> nat" where
  "forest_size ts \<equiv> sum_list (map tree_size ts)"

text \<open>
  The second loop over the children: the entries of a dissolved submenu follow it, and are
  visited next.
\<close>

function (sequential) settle_children :: "nat \<Rightarrow> tree list \<Rightarrow> menu_world \<Rightarrow> (tree list \<times> menu_world) option" where
  "settle_children m [] st = Some ([], st)"
| "settle_children m (Entry c cs # ts) st = do {
     st \<leftarrow> settle_value m c st;
     if cs \<noteq> [] \<and> \<not> has_text c st then do {
       (us, st) \<leftarrow> settle_children m (cs @ ts) (fold (set_parent m) (map entry cs) st);
       Some (Entry c [] # us, st) }
     else do {
       (us, st) \<leftarrow> settle_children m ts st;
       Some (Entry c cs # us, st) } }"
  by pat_completeness auto

termination settle_children
  by (relation "measure (\<lambda>(m, ts, st). forest_size ts)") auto

subsection \<open>Checks\<close>

definition menu_validate_number :: "sym \<Rightarrow> sym \<Rightarrow> kworld \<Rightarrow> bool option" where
  "menu_validate_number s s2 w =
     (if sym_type (syms w s2) = S_INT \<or> sym_type (syms w s2) = S_HEX then Some True
      else if sym_type (syms w s2) = S_UNKNOWN then
        map_option (\<lambda>n. sym_string_valid s n w) (sym_name (syms w s2))
      else Some False)"

definition is_number :: "symbol_type \<Rightarrow> bool" where
  "is_number ty \<longleftrightarrow> ty = S_INT \<or> ty = S_HEX"

definition is_logic :: "symbol_type \<Rightarrow> bool" where
  "is_logic ty \<longleftrightarrow> ty = S_BOOLEAN \<or> ty = S_TRISTATE"

definition check_number_default :: "sym \<Rightarrow> property \<Rightarrow> sym \<Rightarrow> menu_world \<Rightarrow> menu_world option" where
  "check_number_default s p s2 st =
     (if is_number (sym_type (syms (mw st) s)) then do {
        ok \<leftarrow> menu_validate_number s s2 (mw st);
        Some (update_if (\<not> ok) (prop_warn p (quoted (name_text s (mw st)) @ '': number is invalid'')) st) }
      else Some st)"

definition in_choice :: "sym \<Rightarrow> sym \<Rightarrow> kworld \<Rightarrow> bool" where
  "in_choice s s2 w \<longleftrightarrow> (case sym_get_choice_prop s2 w of None \<Rightarrow> False | Some q \<Rightarrow> prop_get_symbol q = Some s)"

definition check_default :: "sym \<Rightarrow> property \<Rightarrow> menu_world \<Rightarrow> menu_world option" where
  "check_default s p st = do {
     e \<leftarrow> prop_expr p;
     let ty = sym_type (syms (mw st) s);
     let plain = prop_get_symbol p;
     let st = update_if ((ty = S_STRING \<or> is_number ty) \<and> plain = None)
                (prop_warn p (''default for config symbol '' @ quoted (name_text s (mw st)) @ '' must be a single symbol'')) st;
     case plain of
       None \<Rightarrow> Some st
     | Some s2 \<Rightarrow> do {
         st \<leftarrow> check_number_default s p s2 st;
         Some (update_if (sym_is_choice s (mw st) \<and> \<not> in_choice s s2 (mw st))
                 (prop_warn p (''choice default symbol '' @ quoted (name_text s2 (mw st)) @
                    '' is not contained in the choice'')) st) } }"

definition check_selected :: "sym \<Rightarrow> property \<Rightarrow> menu_world \<Rightarrow> menu_world option" where
  "check_selected s p st =
     (let use = (if prop_type p = P_SELECT then ''select'' else ''imply'')
      in if \<not> is_logic (sym_type (syms (mw st) s))
         then Some (prop_warn p (''config symbol '' @ quoted (name_text s (mw st)) @ '' uses '' @ use @
                '', but is not bool or tristate'') st)
         else do {
           s2 \<leftarrow> prop_get_symbol p;
           let ty = sym_type (syms (mw st) s2);
           Some (update_if (ty \<noteq> S_UNKNOWN \<and> \<not> is_logic ty)
                   (prop_warn p (quoted (name_text s2 (mw st)) @ '' has wrong type. '' @ quoted use @
                      '' only accept arguments of bool and tristate type'')) st) })"

definition check_range :: "sym \<Rightarrow> property \<Rightarrow> menu_world \<Rightarrow> menu_world option" where
  "check_range s p st = do {
     let st = update_if (\<not> is_number (sym_type (syms (mw st) s)))
                (prop_warn p ''range is only allowed for int or hex symbols'') st;
     (l, r) \<leftarrow> range_bounds p;
     ok1 \<leftarrow> menu_validate_number s l (mw st);
     ok2 \<leftarrow> (if ok1 then menu_validate_number s r (mw st) else Some False);
     Some (update_if (\<not> ok2) (prop_warn p ''range is invalid'') st) }"

definition check_prop :: "sym \<Rightarrow> property \<Rightarrow> menu_world \<Rightarrow> menu_world option" where
  "check_prop s p st =
     (case prop_type p of
        P_DEFAULT \<Rightarrow> check_default s p st
      | P_SELECT \<Rightarrow> check_selected s p st
      | P_IMPLY \<Rightarrow> check_selected s p st
      | P_RANGE \<Rightarrow> check_range s p st
      | _ \<Rightarrow> Some st)"

definition sym_check_prop :: "sym \<Rightarrow> menu_world \<Rightarrow> menu_world option" where
  "sym_check_prop s st = each (check_prop s) (props (syms (mw st) s)) st"

subsection \<open>The end of an entry\<close>

definition check_entry :: "nat \<Rightarrow> sym \<Rightarrow> menu_world \<Rightarrow> menu_world option" where
  "check_entry m s st =
     (if has_flag SYMBOL_WARNED s (mw st) then Some st
      else do {
        let st = update_if (sym_type (syms (mw st) s) = S_UNKNOWN)
                   (menu_warn m ''config symbol defined without type'') st;
        let st = update_if (sym_is_choice s (mw st) \<and> \<not> menu_has_prompt m st)
                   (menu_warn m ''choice must have a prompt'') st;
        st \<leftarrow> sym_check_prop s st;
        Some (on_mw (upd_sym s (set_flag SYMBOL_WARNED)) st) })"

text \<open>A choice that is not optional is selected by its visibility.\<close>

definition select_choice :: "nat \<Rightarrow> sym \<Rightarrow> menu_world \<Rightarrow> menu_world" where
  "select_choice m s st =
     (case entry_prompt m st of
        Some p \<Rightarrow>
          if sym_is_optional s (mw st) then st
          else on_mw (upd_sym s (or_rev_dep (expr_alloc_and (dep_expr (prop_visible p)) (Some (E_SYMBOL symbol_mod))))) st
      | None \<Rightarrow> st)"

definition finish_entry :: "nat \<Rightarrow> menu_world \<Rightarrow> menu_world option" where
  "finish_entry m st =
     (case entry_sym m st of
        None \<Rightarrow> Some st
      | Some s \<Rightarrow> do { st \<leftarrow> check_entry m s st; Some (select_choice m s st) })"

subsection \<open>menu_finalize\<close>

text \<open>
  The entry \<open>t\<close> with the entries \<open>next\<close> behind it; the loop that finalizes the children; and the
  loop that moves the following entries below the entry \<open>m\<close> as long as they depend on its
  symbol. The result is the finalized entries and the entries that stay behind them.
\<close>

datatype finalize_task =
    Finalize tree "tree list"
  | Children "tree list"
  | Following nat sym "expr option" "tree list"

function (sequential) menu_finalize :: "finalize_task \<Rightarrow> menu_world \<Rightarrow> (tree list \<times> tree list \<times> menu_world) option" where
  "menu_finalize (Finalize (Entry m ts) fs) st = do {
     (ts, fs, st) \<leftarrow>
       (if ts \<noteq> [] then do {
          st \<leftarrow> prepare_children m (map entry ts) st;
          (ts, _, st) \<leftarrow> menu_finalize (Children ts) st;
          Some (ts, fs, st) }
        else case entry_sym m st of
          None \<Rightarrow> Some ([], fs, st)
        | Some s \<Rightarrow> do {
            base \<leftarrow> submenu_base m st;
            (ts, fs, st) \<leftarrow> menu_finalize (Following m s base fs) st;
            Some (ts, fs, on_mw (upd_sym s (or_dir_dep (menu_dep (menus st m)))) st) });
     (ts, st) \<leftarrow> settle_children m ts st;
     st \<leftarrow> finish_entry m st;
     Some ([Entry m ts], fs, st) }"
| "menu_finalize (Children []) st = Some ([], [], st)"
| "menu_finalize (Children (t # ts)) st = do {
     (us, rest, st) \<leftarrow> menu_finalize (Finalize t ts) st;
     (vs, rest, st) \<leftarrow> menu_finalize (Children rest) st;
     Some (us @ vs, rest, st) }"
| "menu_finalize (Following m s base []) st = Some ([], [], st)"
| "menu_finalize (Following m s base (t # ts)) st = do {
     below \<leftarrow> belongs_below (mw st) s base (entry_condition (entry t) st);
     if \<not> below then Some ([], t # ts, st)
     else do {
       (us, rest, st) \<leftarrow> menu_finalize (Finalize t ts) st;
       (vs, rest, st) \<leftarrow> menu_finalize (Following m s base rest) (set_parent m (entry t) st);
       Some (us @ vs, rest, st) } }"
  by pat_completeness auto

text \<open>The entries that stay are among the following ones.\<close>

fun task_rest :: "finalize_task \<Rightarrow> tree list" where
  "task_rest (Finalize t ts) = ts"
| "task_rest (Children ts) = ts"
| "task_rest (Following m s base ts) = ts"

fun task_size :: "finalize_task \<Rightarrow> nat" where
  "task_size (Finalize t ts) = 2 * (tree_size t + forest_size ts)"
| "task_size (Children ts) = 2 * forest_size ts + 1"
| "task_size (Following m s base ts) = 2 * forest_size ts + 1"

lemma tree_size_pos [simp]: "0 < tree_size t"
  by (cases t) simp

lemma finalize_rest:
  "menu_finalize_dom (task, st) \<Longrightarrow> menu_finalize task st = Some (us, rest, st') \<Longrightarrow>
     \<exists>pre. task_rest task = pre @ rest"
proof (induction task st arbitrary: us rest st' rule: menu_finalize.pinduct)
  case (1 m ts fs st)
  note eq = 1(4)[unfolded menu_finalize.psimps(1)[OF 1(1)]]
  show ?case
  proof (cases "ts = []")
    case False
    then show ?thesis
      using eq by (auto split: Option.bind_splits)
  next
    case True
    show ?thesis
    proof (cases "entry_sym m st")
      case None
      then show ?thesis
        using eq True by (auto split: Option.bind_splits)
    next
      case (Some s)
      obtain base where b: "submenu_base m st = Some base"
        using eq True Some by (auto split: Option.bind_splits)
      obtain us1 st1 where "menu_finalize (Following m s base fs) st = Some (us1, rest, st1)"
        using eq True Some b by (auto split: Option.bind_splits)
      then show ?thesis
        using 1(3)[OF _ Some b] True by simp
    qed
  qed
next
  case (3 t ts st)
  obtain us1 rest1 st1 where a: "menu_finalize (Finalize t ts) st = Some (us1, rest1, st1)"
    using 3(4) by (auto simp: menu_finalize.psimps(3)[OF 3(1)] split: Option.bind_splits)
  then obtain us2 where b: "menu_finalize (Children rest1) st1 = Some (us2, rest, st')"
    using 3(4) by (auto simp: menu_finalize.psimps(3)[OF 3(1)] split: Option.bind_splits)
  obtain p where p: "ts = p @ rest1"
    using 3(2)[OF a] by auto
  obtain q where "rest1 = q @ rest"
    using 3(3)[OF a refl refl b] by auto
  then have "t # ts = (t # p @ q) @ rest"
    using p by simp
  then show ?case by auto
next
  case (5 m s base t ts st)
  obtain below where w: "belongs_below (mw st) s base (entry_condition (entry t) st) = Some below"
    using 5(4) by (auto simp: menu_finalize.psimps(5)[OF 5(1)] split: Option.bind_splits)
  show ?case
  proof (cases below)
    case False
    then show ?thesis
      using 5(4) w by (auto simp: menu_finalize.psimps(5)[OF 5(1)])
  next
    case True
    obtain us1 rest1 st1 where a: "menu_finalize (Finalize t ts) st = Some (us1, rest1, st1)"
      using 5(4) w True by (auto simp: menu_finalize.psimps(5)[OF 5(1)] split: Option.bind_splits)
    then obtain us2 where b: "menu_finalize (Following m s base rest1) (set_parent m (entry t) st1) = Some (us2, rest, st')"
      using 5(4) w True by (auto simp: menu_finalize.psimps(5)[OF 5(1)] split: Option.bind_splits)
    obtain p where p: "ts = p @ rest1"
      using 5(2)[OF w _ a] True by auto
    obtain q where "rest1 = q @ rest"
      using 5(3)[OF w _ a refl refl b] True by auto
    then have "t # ts = (t # p @ q) @ rest"
      using p by simp
    then show ?thesis by auto
  qed
qed (auto simp: menu_finalize.psimps)

lemma finalize_rest_size:
  assumes "menu_finalize_dom (task, st)" and "menu_finalize task st = Some (us, rest, st')"
  shows "forest_size rest \<le> forest_size (task_rest task)"
  using finalize_rest[OF assms] by auto

termination menu_finalize
proof (relation "measure (\<lambda>(task, st). task_size task)", goal_cases)
  case (5 t ts st x us y rest st')
  then have "forest_size rest \<le> forest_size ts"
    using finalize_rest_size[of "Finalize t ts" st us rest st'] by simp
  moreover have "0 < tree_size t"
    by simp
  ultimately show ?case
    by (simp del: tree_size_pos)
next
  case (7 m s base t ts st below x us y rest st')
  then have "forest_size rest \<le> forest_size ts"
    using finalize_rest_size[of "Finalize t ts" st us rest st'] by simp
  moreover have "0 < tree_size t"
    by simp
  ultimately show ?case
    by (simp del: tree_size_pos)
qed auto

end
