(* ===== verification/Kparse.thy ===== *)
theory Kparse
  imports Kfinalize Kcheck
begin

text \<open>
  What the parser does with the statements of a configuration (the actions of
  \<open>tools/kconfig/parser.y\<close>) and \<open>conf_parse\<close>.

  A configuration is a list of statements as the grammar has them, with the position of every
  line; recognising them in a text (\<open>lexer.l\<close> and the generated parser) is not modelled, nor are
  the statements that the grammar rejects, after which the program exits. The grammar allows fewer
  statements inside a choice and fewer types for one than the datatype.
\<close>

subsection \<open>Statements\<close>

datatype word = Plain string | Quoted string

datatype condition =
    Word word
  | Compare relation word word
  | Negate condition
  | Either condition condition
  | Both condition condition

type_synonym position = "string \<times> int"

datatype config_option =
    Type symbol_type "(string \<times> condition option) option"
  | Prompt string "condition option"
  | Default symbol_type condition "condition option"
  | Select string "condition option"
  | Imply string "condition option"
  | Range word word "condition option"
  | Option_modules
  | Option_defconfig_list
  | Option_allnoconfig_y
  | Optional
  | Choice_default string "condition option"
  | Depends condition
  | Visible "condition option"
  | Help string

datatype statement =
    Config position string "(position \<times> config_option) list"
  | Menuconfig position string "(position \<times> config_option) list"
  | Choice position "string option" "(position \<times> config_option) list" "statement list"
  | If_block position condition "statement list"
  | Menu position string "(position \<times> config_option) list" "statement list"
  | Comment position string "(position \<times> config_option) list"

subsection \<open>Expressions\<close>

text \<open>The symbols are looked up from left to right, before the statement acts.\<close>

definition find_word :: "word \<Rightarrow> kworld \<Rightarrow> sym \<times> kworld" where
  "find_word x w = (case x of Plain n \<Rightarrow> sym_lookup (Some n) {} w | Quoted n \<Rightarrow> sym_lookup (Some n) {SYMBOL_CONST} w)"

fun build_expr :: "condition \<Rightarrow> kworld \<Rightarrow> expr \<times> kworld" where
  "build_expr (Word x) w = (let (s, w) = find_word x w in (E_SYMBOL s, w))"
| "build_expr (Compare c x y) w =
     (let (a, w) = find_word x w; (b, w) = find_word y w in (E_CMP c a b, w))"
| "build_expr (Negate e) w = (let (a, w) = build_expr e w in (E_NOT a, w))"
| "build_expr (Either l r) w = (let (a, w) = build_expr l w; (b, w) = build_expr r w in (E_OR a b, w))"
| "build_expr (Both l r) w = (let (a, w) = build_expr l w; (b, w) = build_expr r w in (E_AND a b, w))"

definition build_if :: "condition option \<Rightarrow> kworld \<Rightarrow> expr option \<times> kworld" where
  "build_if c w = (case c of None \<Rightarrow> (None, w) | Some c \<Rightarrow> (let (e, w) = build_expr c w in (Some e, w)))"

definition with_kw :: "(kworld \<Rightarrow> 'a \<times> kworld) \<Rightarrow> menu_world \<Rightarrow> 'a \<times> menu_world" where
  "with_kw f st = (let (x, w) = f (mw st) in (x, st\<lparr>mw := w\<rparr>))"

definition at_position :: "position \<Rightarrow> menu_world \<Rightarrow> menu_world" where
  "at_position pos st = st\<lparr>here_file := fst pos, here_line := snd pos\<rparr>"

subsection \<open>Options\<close>

definition add_prompt_if :: "string \<Rightarrow> condition option \<Rightarrow> menu_world \<Rightarrow> menu_world" where
  "add_prompt_if text c st = (let (e, st) = with_kw (build_if c) st in menu_add_prompt P_PROMPT text e st)"

definition add_symbol_if :: "prop_type \<Rightarrow> string \<Rightarrow> condition option \<Rightarrow> menu_world \<Rightarrow> menu_world" where
  "add_symbol_if ty n c st =
     (let (s, st) = with_kw (find_word (Plain n)) st; (e, st) = with_kw (build_if c) st
      in menu_add_symbol ty s e st)"

definition add_help :: "string \<Rightarrow> menu_world \<Rightarrow> menu_world option" where
  "add_help text st = do {
     let m = current_entry st;
     s \<leftarrow> entry_sym m st;
     let st = update_if (menu_help (menus st m) \<noteq> None)
                (zconfprint (''warning: '' @ quoted (choice_name s (mw st)) @
                   '' defined with more than one help text -- only the last one will be used'')) st;
     let st = update_if (list_all is_space text)
                (zconfprint (''warning: '' @ quoted (choice_name s (mw st)) @ '' defined with blank help text'')) st;
     Some (upd_menu m (\<lambda>x. x\<lparr>menu_help := Some text\<rparr>) st) }"

definition run_option :: "config_option \<Rightarrow> menu_world \<Rightarrow> menu_world option" where
  "run_option opt st =
     (case opt of
        Type ty p \<Rightarrow>
          menu_set_type ty (case p of None \<Rightarrow> st | Some (text, c) \<Rightarrow> add_prompt_if text c st)
      | Prompt text c \<Rightarrow> Some (add_prompt_if text c st)
      | Default ty v c \<Rightarrow>
          (let (e, st) = with_kw (build_expr v) st; (d, st) = with_kw (build_if c) st;
               st = menu_add_expr P_DEFAULT (Some e) d st
           in if ty \<noteq> S_UNKNOWN then menu_set_type ty st else Some st)
      | Select n c \<Rightarrow> Some (add_symbol_if P_SELECT n c st)
      | Imply n c \<Rightarrow> Some (add_symbol_if P_IMPLY n c st)
      | Range x y c \<Rightarrow>
          (let (a, st) = with_kw (find_word x) st; (b, st) = with_kw (find_word y) st;
               (d, st) = with_kw (build_if c) st
           in Some (menu_add_expr P_RANGE (Some (E_RANGE a b)) d st))
      | Option_modules \<Rightarrow> menu_add_option_modules st
      | Option_defconfig_list \<Rightarrow> menu_add_option_defconfig_list st
      | Option_allnoconfig_y \<Rightarrow> menu_add_option_allnoconfig_y st
      | Optional \<Rightarrow> do {
          s \<leftarrow> entry_sym (current_entry st) st;
          Some (on_mw (upd_sym s (set_flag SYMBOL_OPTIONAL)) st) }
      | Choice_default n c \<Rightarrow> Some (add_symbol_if P_DEFAULT n c st)
      | Depends c \<Rightarrow> (let (e, st) = with_kw (build_expr c) st in Some (menu_add_dep (Some e) st))
      | Visible c \<Rightarrow> (let (e, st) = with_kw (build_if c) st in Some (menu_add_visibility e st))
      | Help text \<Rightarrow> add_help text st)"

definition run_options :: "(position \<times> config_option) list \<Rightarrow> menu_world \<Rightarrow> menu_world option" where
  "run_options opts st = each (\<lambda>(pos, opt) st. run_option opt (at_position pos st)) opts st"

subsection \<open>Entries\<close>

definition start_config :: "position \<Rightarrow> string \<Rightarrow> menu_world \<Rightarrow> menu_world" where
  "start_config pos n st =
     (let (s, st) = with_kw (find_word (Plain n)) (at_position pos st)
      in menu_add_entry (Some s) (on_mw (upd_sym s (set_flag SYMBOL_OPTIONAL)) st))"

definition set_prop_type :: "prop_type \<Rightarrow> property \<Rightarrow> property" where
  "set_prop_type ty p = p\<lparr>prop_type := ty\<rparr>"

text \<open>The prompt of a \<open>menuconfig\<close> opens a menu.\<close>

definition prompt_opens_menu :: "menu_world \<Rightarrow> menu_world" where
  "prompt_opens_menu st =
     (let m = current_entry st
      in case (menu_prompt (menus st m), entry_sym m st) of
           (Some (In_symbol i), Some s) \<Rightarrow> on_mw (upd_sym s (upd_prop i (set_prop_type P_MENU))) st
         | (Some (Own p), _) \<Rightarrow> upd_menu m (\<lambda>x. x\<lparr>menu_prompt := Some (Own (set_prop_type P_MENU p))\<rparr>) st
         | _ \<Rightarrow> zconfprint ''warning: menuconfig statement without prompt'' st)"

definition start_choice :: "position \<Rightarrow> string option \<Rightarrow> menu_world \<Rightarrow> menu_world" where
  "start_choice pos n st =
     (let (s, st) = with_kw (sym_lookup n {SYMBOL_CHOICE}) (at_position pos st);
          st = menu_add_entry (Some s) (on_mw (upd_sym s (set_flag SYMBOL_NO_WRITE)) st)
      in menu_add_expr P_CHOICE None None st)"

definition start_if :: "position \<Rightarrow> condition \<Rightarrow> menu_world \<Rightarrow> menu_world" where
  "start_if pos c st =
     (let (e, st) = with_kw (build_expr c) (at_position pos st)
      in menu_add_dep (Some e) (menu_add_entry None st))"

definition start_menu :: "prop_type \<Rightarrow> position \<Rightarrow> string \<Rightarrow> menu_world \<Rightarrow> menu_world" where
  "start_menu ty pos text st = menu_add_prompt ty text None (menu_add_entry None (at_position pos st))"

fun run_statement :: "statement \<Rightarrow> menu_world \<Rightarrow> menu_world option"
and run_statements :: "statement list \<Rightarrow> menu_world \<Rightarrow> menu_world option" where
  "run_statement (Config pos n opts) st = run_options opts (start_config pos n st)"
| "run_statement (Menuconfig pos n opts) st = do {
     st \<leftarrow> run_options opts (start_config pos n st);
     Some (prompt_opens_menu st) }"
| "run_statement (Choice pos n opts ss) st = do {
     st \<leftarrow> run_options opts (start_choice pos n st);
     st \<leftarrow> run_statements ss (menu_add_menu st);
     menu_end_menu st }"
| "run_statement (If_block pos c ss) st = do {
     st \<leftarrow> run_statements ss (menu_add_menu (start_if pos c st));
     menu_end_menu st }"
| "run_statement (Menu pos text opts ss) st = do {
     st \<leftarrow> run_options opts (start_menu P_MENU pos text st);
     st \<leftarrow> run_statements ss (menu_add_menu st);
     menu_end_menu st }"
| "run_statement (Comment pos text opts) st = run_options opts (start_menu P_COMMENT pos text st)"
| "run_statements [] st = Some st"
| "run_statements (s # ss) st = do { st \<leftarrow> run_statement s st; run_statements ss st }"

subsection \<open>conf_parse\<close>

text \<open>The static variables when the program starts; \<open>modules_sym\<close> is set before it is read.\<close>

definition static_world :: kworld where
  "static_world = \<lparr>syms = (\<lambda>s. case s of
       symbol_yes \<Rightarrow> const_symbol ''y'' T_yes
     | symbol_mod \<Rightarrow> const_symbol ''m'' T_mod
     | symbol_no \<Rightarrow> const_symbol ''n'' T_no
     | symbol_empty \<Rightarrow> empty_symbol
     | Sym n \<Rightarrow> zero_symbol),
     symbol_hash = (\<lambda>_. []), next_sym = 0, modules_sym = symbol_no, modules_val = T_no,
     sym_change_count = 0, menu_changed = {}, messages = []\<rparr>"

text \<open>
  The tree is finalized once all statements were read without an error. \<open>modules_sym\<close> is \<open>n\<close>
  unless an option was declared. A recursive dependency is an error too.
\<close>

definition add_main_menu :: "menu_world \<Rightarrow> menu_world" where
  "add_main_menu st =
     (if menu_has_prompt rootmenu st then st
      else menu_add_prompt P_MENU ''Main menu'' None (st\<lparr>current_entry := rootmenu\<rparr>))"

definition set_modules :: "menu_world \<Rightarrow> menu_world" where
  "set_modules st =
     on_mw (\<lambda>w. w\<lparr>modules_sym := (case modules_option st of Some s \<Rightarrow> s | None \<Rightarrow> symbol_no)\<rparr>) st"

definition finalize_all :: "menu_world \<Rightarrow> menu_world option" where
  "finalize_all st = do {
     (ts, _, st) \<leftarrow> menu_finalize (Finalize (menu_tree st) []) st;
     Some (st\<lparr>menu_tree := hd ts\<rparr>) }"

definition run_main :: "(position \<times> string) option \<Rightarrow> statement list \<Rightarrow> menu_world \<Rightarrow> menu_world option" where
  "run_main title ss st =
     run_statements ss (case title of None \<Rightarrow> st
       | Some (pos, text) \<Rightarrow> menu_add_prompt P_MENU text None (at_position pos st))"

definition conf_parse ::
  "check \<Rightarrow> (position \<times> string) option \<Rightarrow> statement list \<Rightarrow> kworld \<Rightarrow> menu_world outcome option" where
  "conf_parse check title ss w = do {
     st \<leftarrow> run_main title ss (menu_init w);
     if yynerrs st \<noteq> 0 then Some Exits
     else do {
       st \<leftarrow> finalize_all (add_main_menu (set_modules st));
       (errs, w) \<leftarrow> check_all_deps check (all_symbols (mw st)) (mw st);
       Some (if errs \<noteq> 0 then Exits else Returns (st\<lparr>mw := sym_set_change_count 1 w\<rparr>)) } }"

end
