(* ===== verification/Kmenu_Show.thy ===== *)
theory Kmenu_Show
  imports Kparse Kdepth
begin

text \<open>
  What the front ends show of an entry (\<open>tools/kconfig/menu.c\<close>, the queries): whether it is
  visible, its prompt, and the help text with the definitions and dependencies of its symbol.

  A pointer \<open>menu\<close> whose children are read is the \<open>tree\<close> below it. Looking at an entry computes
  values of symbols and marks a symbol whose children are visible, so that every query returns
  the new state; \<open>None\<close> is a null pointer that is read or a value that is not delivered.
\<close>

definition with_calc :: "(kworld \<Rightarrow> ('a \<times> kworld) option) \<Rightarrow> menu_world \<Rightarrow> ('a \<times> menu_world) option" where
  "with_calc f st = do { (x, w) \<leftarrow> f (mw st); Some (x, st\<lparr>mw := w\<rparr>) }"

definition calc_on :: "calc \<Rightarrow> sym \<Rightarrow> menu_world \<Rightarrow> menu_world option" where
  "calc_on calc s st = do { w \<leftarrow> calc s (mw st); Some (st\<lparr>mw := w\<rparr>) }"

subsection \<open>Entries of the tree\<close>

fun find_entry :: "nat \<Rightarrow> tree \<Rightarrow> tree option"
and find_in :: "nat \<Rightarrow> tree list \<Rightarrow> tree option" where
  "find_entry x (Entry m ts) = (if x = m then Some (Entry m ts) else find_in x ts)"
| "find_in x [] = None"
| "find_in x (t # ts) = (case find_entry x t of Some u \<Rightarrow> Some u | None \<Rightarrow> find_in x ts)"

text \<open>Induction over an entry and a list of entries.\<close>

lemma tree_list_induct:
  assumes "\<And>m ts. Q ts \<Longrightarrow> P (Entry m ts)" and "Q []" and "\<And>t ts. P t \<Longrightarrow> Q ts \<Longrightarrow> Q (t # ts)"
  shows "P t" and "Q ts"
proof -
  show p: "P t" for t
  proof (induction t)
    case (Entry m ts)
    then have "Q ts"
      by (induction ts) (auto intro: assms)
    then show ?case
      by (rule assms(1))
  qed
  show "Q ts"
    by (induction ts) (auto intro: assms p)
qed

subsection \<open>Visibility\<close>

text \<open>\<open>menu->prompt->visible.tri\<close>: computed with the symbol, or here for an entry without one.\<close>

definition set_dep_tri :: "tristate \<Rightarrow> property \<Rightarrow> property" where
  "set_dep_tri t p = p\<lparr>prop_visible := (prop_visible p)\<lparr>dep_tri := t\<rparr>\<rparr>"

definition prompt_visible :: "calc \<Rightarrow> nat \<Rightarrow> menu_world \<Rightarrow> (tristate \<times> menu_world) option" where
  "prompt_visible calc m st =
     (case entry_sym m st of
        Some s \<Rightarrow> do {
          st \<leftarrow> calc_on calc s st;
          p \<leftarrow> entry_prompt m st;
          Some (dep_tri (prop_visible p), st) }
      | None \<Rightarrow> do {
          p \<leftarrow> entry_prompt m st;
          (t, st) \<leftarrow> with_calc (expr_value_of calc (dep_expr (prop_visible p))) st;
          Some (t, upd_menu m (\<lambda>x. x\<lparr>menu_prompt := Some (Own (set_dep_tri t p))\<rparr>) st) })"

text \<open>The condition \<open>visible if\<close> of an entry.\<close>

definition visible_if :: "calc \<Rightarrow> nat \<Rightarrow> menu_world \<Rightarrow> (tristate \<times> menu_world) option" where
  "visible_if calc m st = with_calc (expr_value_of calc (menu_visibility (menus st m))) st"

fun menu_is_visible :: "calc \<Rightarrow> tree \<Rightarrow> menu_world \<Rightarrow> (bool \<times> menu_world) option"
and any_visible :: "calc \<Rightarrow> tree list \<Rightarrow> menu_world \<Rightarrow> (bool \<times> menu_world) option" where
  "menu_is_visible calc (Entry m ts) st =
     (if \<not> menu_has_prompt m st then Some (False, st)
      else do {
        (v, st) \<leftarrow> visible_if calc m st;
        if v = T_no then Some (False, st)
        else do {
          (t, st) \<leftarrow> prompt_visible calc m st;
          if t \<noteq> T_no then Some (True, st)
          else (case entry_sym m st of
                  None \<Rightarrow> Some (False, st)
                | Some s \<Rightarrow>
                    if sym_get_tristate_value s (mw st) = T_no then Some (False, st)
                    else do {
                      (b, st) \<leftarrow> any_visible calc ts st;
                      Some (b, update_if b (on_mw (upd_sym s (set_flag SYMBOL_DEF_USER))) st) }) } })"
| "any_visible calc [] st = Some (False, st)"
| "any_visible calc (t # ts) st = do {
     (b, st) \<leftarrow> menu_is_visible calc t st;
     if b then Some (True, st) else any_visible calc ts st }"

definition menu_is_empty :: "calc \<Rightarrow> tree \<Rightarrow> menu_world \<Rightarrow> (bool \<times> menu_world) option" where
  "menu_is_empty calc t st = do { (b, st) \<leftarrow> any_visible calc (menu_list t) st; Some (\<not> b, st) }"

text \<open>An entry that is only known by its number.\<close>

definition entry_is_visible :: "calc \<Rightarrow> nat \<Rightarrow> menu_world \<Rightarrow> (bool \<times> menu_world) option" where
  "entry_is_visible calc m st = do { t \<leftarrow> find_entry m (menu_tree st); menu_is_visible calc t st }"

subsection \<open>Prompts and parents\<close>

definition menu_get_prompt :: "nat \<Rightarrow> menu_world \<Rightarrow> string option" where
  "menu_get_prompt m st =
     (case entry_prompt m st of
        Some p \<Rightarrow> prop_text p
      | None \<Rightarrow> (case entry_sym m st of Some s \<Rightarrow> sym_name (syms (mw st) s) | None \<Rightarrow> None))"

definition menu_get_root_menu :: "nat \<Rightarrow> nat" where
  "menu_get_root_menu m = rootmenu"

definition opens_menu :: "nat \<Rightarrow> menu_world \<Rightarrow> bool" where
  "opens_menu m st = (case entry_prompt m st of Some p \<Rightarrow> prop_type p = P_MENU | None \<Rightarrow> False)"

partial_function (option) menu_get_parent_menu :: "nat \<Rightarrow> menu_world \<Rightarrow> nat option" where
  "menu_get_parent_menu m st =
     (if m = rootmenu \<or> opens_menu m st then Some m
      else do { p \<leftarrow> menu_parent (menus st m); menu_get_parent_menu p st })"

definition menu_has_help :: "nat \<Rightarrow> menu_world \<Rightarrow> bool" where
  "menu_has_help m st \<longleftrightarrow> menu_help (menus st m) \<noteq> None"

definition menu_get_help :: "nat \<Rightarrow> menu_world \<Rightarrow> string" where
  "menu_get_help m st = (case menu_help (menus st m) of Some t \<Rightarrow> t | None \<Rightarrow> '''')"

subsection \<open>Reports\<close>

text \<open>
  A report is the string that is built with the state and, unless \<open>head\<close> is a null pointer, the
  list of places that a reader can jump to.
\<close>

record jump_key =
  jump_offset :: nat
  jump_target :: nat
  jump_index :: int

record report =
  r_text :: gstr
  r_menus :: menu_world
  r_jumps :: "jump_key list option"

definition put_text :: "string \<Rightarrow> report \<Rightarrow> report" where
  "put_text s r = r\<lparr>r_text := str_append (r_text r) s\<rparr>"

definition put_format :: "string \<Rightarrow> report \<Rightarrow> report" where
  "put_format s r = r\<lparr>r_text := str_printf (r_text r) s\<rparr>"

definition put_with :: "(gstr \<times> kworld \<Rightarrow> (gstr \<times> kworld) option) \<Rightarrow> report \<Rightarrow> report option" where
  "put_with f r = do {
     (gs, w) \<leftarrow> f (r_text r, mw (r_menus r));
     Some (r\<lparr>r_text := gs, r_menus := (r_menus r)\<lparr>mw := w\<rparr>\<rparr>) }"

text \<open>What \<open>%s\<close> prints for a pointer.\<close>

definition shown :: "string option \<Rightarrow> string" where
  "shown s = (case s of Some t \<Rightarrow> t | None \<Rightarrow> ''(null)'')"

definition get_def_str :: "nat \<Rightarrow> report \<Rightarrow> report" where
  "get_def_str m r =
     put_format (''Defined at '' @ menu_file (menus (r_menus r) m) @ '':'' @
       decimal_text (menu_lineno (menus (r_menus r) m)) @ newline) r"

definition get_dep_str :: "calc \<Rightarrow> expr option \<Rightarrow> string \<Rightarrow> report \<Rightarrow> report option" where
  "get_dep_str calc e prefix r =
     (if expr_is_yes e then Some r
      else do {
        r \<leftarrow> put_with (expr_gstr_print calc e) (put_text prefix r);
        Some (put_text newline r) })"

text \<open>Up to eight entries above the prompt, the innermost first, and which of them are visible.\<close>

primrec locations ::
  "nat \<Rightarrow> calc \<Rightarrow> nat option \<Rightarrow> menu_world \<Rightarrow> ((nat \<times> bool) list \<times> menu_world) option" where
  "locations 0 calc m st = Some ([], st)"
| "locations (Suc n) calc m st =
     (if m = Some rootmenu then Some ([], st)
      else do {
        m \<leftarrow> m;
        (b, st) \<leftarrow> entry_is_visible calc m st;
        (ls, st) \<leftarrow> locations n calc (menu_parent (menus st m)) st;
        Some ((m, b) # ls, st) })"

definition sym_value_text :: "calc \<Rightarrow> sym \<Rightarrow> report \<Rightarrow> (string \<times> report) option" where
  "sym_value_text calc s r = do {
     (v, w) \<leftarrow> sym_get_string_value calc s (mw (r_menus r));
     Some (shown (as_string v), r\<lparr>r_menus := (r_menus r)\<lparr>mw := w\<rparr>\<rparr>) }"

definition put_location_value :: "calc \<Rightarrow> nat \<Rightarrow> report \<Rightarrow> report option" where
  "put_location_value calc m r =
     (case entry_sym m (r_menus r) of
        None \<Rightarrow> Some r
      | Some s \<Rightarrow> do {
          (v, r) \<leftarrow> sym_value_text calc s r;
          Some (put_format ('' ('' @ choice_name s (mw (r_menus r)) @ '' [='' @ v @ ''])'') r) })"

text \<open>
  The entries from the outermost one, indented by \<open>j\<close> and two more each; the result has the
  length of the text at the line of the entry \<open>here\<close>.
\<close>

fun put_locations :: "calc \<Rightarrow> nat option \<Rightarrow> nat \<Rightarrow> nat list \<Rightarrow> nat \<times> report \<Rightarrow> (nat \<times> report) option" where
  "put_locations calc here j [] st = Some st"
| "put_locations calc here j (m # ms) (offset, r) = do {
     let offset = (if here = Some m then length (gs_s (r_text r)) else offset);
     r \<leftarrow> put_location_value calc m
            (put_format (replicate j (CHR '' '') @ ''-> '' @ shown (menu_get_prompt m (r_menus r))) r);
     put_locations calc here (j + 2) ms (offset, put_text newline r) }"

definition next_jump :: "jump_key list \<Rightarrow> int" where
  "next_jump js = (if js = [] then 0 else jump_index (last js) + 1)"

text \<open>The jump leads to the prompt when it is visible, else to the visible entry \<open>here\<close> above it.\<close>

definition jump_to :: "calc \<Rightarrow> nat \<Rightarrow> nat \<Rightarrow> report \<Rightarrow> (nat \<times> report) option" where
  "jump_to calc m here r = do {
     (b, st) \<leftarrow> entry_is_visible calc m (r_menus r);
     Some (if b then m else here, r\<lparr>r_menus := st\<rparr>) }"

definition add_jump :: "jump_key \<Rightarrow> report \<Rightarrow> report" where
  "add_jump j r = r\<lparr>r_jumps := map_option (\<lambda>js. js @ [j]) (r_jumps r)\<rparr>"

definition put_location_block :: "calc \<Rightarrow> nat option \<Rightarrow> nat list \<Rightarrow> report \<Rightarrow> (nat \<times> report) option" where
  "put_location_block calc here ms r =
     (if ms = [] then Some (0, r)
      else put_locations calc here 4 (rev ms) (0, put_format (''  Location:'' @ newline) r))"

definition get_prompt_str :: "calc \<Rightarrow> property \<Rightarrow> report \<Rightarrow> report option" where
  "get_prompt_str calc p r = do {
     let r = put_format (''  Prompt: '' @ shown (prop_text p) @ newline) r;
     m \<leftarrow> prop_menu p;
     let dep = menu_dep (menus (r_menus r) m);
     r \<leftarrow> get_dep_str calc dep ''  Depends on: '' r;
     r \<leftarrow> (if expr_eq dep (dep_expr (prop_visible p)) then Some r
           else get_dep_str calc (dep_expr (prop_visible p)) ''  Visible if: '' r);
     (ls, st) \<leftarrow> locations 8 calc (menu_parent (menus (r_menus r) m)) (r_menus r);
     let r = r\<lparr>r_menus := st\<rparr>;
     let here = map_option fst (find snd ls);
     case (r_jumps r, here) of
       (Some js, Some l) \<Rightarrow> do {
         (target, r) \<leftarrow> jump_to calc m l r;
         (offset, r) \<leftarrow> put_location_block calc here (map fst ls) r;
         Some (add_jump \<lparr>jump_offset = offset, jump_target = target, jump_index = next_jump js\<rparr> r) }
     | _ \<Rightarrow> do { (_, r) \<leftarrow> put_location_block calc None (map fst ls) r; Some r } }"

subsection \<open>Symbols\<close>

fun put_props :: "calc \<Rightarrow> string \<Rightarrow> property list \<Rightarrow> report \<Rightarrow> report option" where
  "put_props calc lead [] r = Some r"
| "put_props calc lead (p # ps) r = do {
     r \<leftarrow> put_with (expr_gstr_print calc (prop_expr p)) (put_text lead r);
     put_props calc '' && '' ps r }"

definition props_of :: "prop_type \<Rightarrow> sym \<Rightarrow> kworld \<Rightarrow> property list" where
  "props_of ty s w = filter (\<lambda>p. prop_type p = ty) (props (syms w s))"

definition get_symbol_props_str :: "calc \<Rightarrow> sym \<Rightarrow> prop_type \<Rightarrow> string \<Rightarrow> report \<Rightarrow> report option" where
  "get_symbol_props_str calc s tok prefix r = do {
     let ps = props_of tok s (mw (r_menus r));
     r \<leftarrow> put_props calc prefix ps r;
     Some (if ps \<noteq> [] then put_text newline r else r) }"

definition put_range :: "calc \<Rightarrow> sym \<Rightarrow> report \<Rightarrow> report option" where
  "put_range calc s r = do {
     (i, w) \<leftarrow> sym_get_range_prop calc s (mw (r_menus r));
     let r = r\<lparr>r_menus := (r_menus r)\<lparr>mw := w\<rparr>\<rparr>;
     case i of
       None \<Rightarrow> Some r
     | Some i \<Rightarrow> do {
         r \<leftarrow> put_with (expr_gstr_print calc (prop_expr (prop_at s i w))) (put_format ''Range : '' r);
         Some (put_text newline r) } }"

definition put_symbol :: "calc \<Rightarrow> sym \<Rightarrow> report \<Rightarrow> report option" where
  "put_symbol calc s r =
     (case sym_name (syms (mw (r_menus r)) s) of
        None \<Rightarrow> Some r
      | Some n \<Rightarrow> do {
          (v, r) \<leftarrow> sym_value_text calc s r;
          let r = put_format (''Symbol: '' @ n @ '' [='' @ v @ '']'' @ newline) r;
          let ty = sym_type (syms (mw (r_menus r)) s);
          let r = put_format (''Type  : '' @ sym_type_name ty @ newline) r;
          if is_number ty then put_range calc s r else Some r })"

text \<open>The definitions, those with a prompt in the first round and the others in the second.\<close>

definition put_definition :: "calc \<Rightarrow> bool \<Rightarrow> property \<Rightarrow> report \<Rightarrow> report option" where
  "put_definition calc prompts p r = do {
     m \<leftarrow> prop_menu p;
     case entry_prompt m (r_menus r) of
       Some q \<Rightarrow> if prompts then get_prompt_str calc q (get_def_str m r) else Some r
     | None \<Rightarrow> if prompts then Some r
               else get_dep_str calc (menu_dep (menus (r_menus r) m)) ''  Depends on: '' (get_def_str m r) }"

definition put_revdep :: "calc \<Rightarrow> string \<Rightarrow> expr option \<Rightarrow> report \<Rightarrow> report option" where
  "put_revdep calc title e r =
     (case e of
        None \<Rightarrow> Some r
      | Some e \<Rightarrow> do {
          r \<leftarrow> put_with (expr_gstr_print_revdep calc e T_yes (title @ '' [y]:'' @ newline)) r;
          r \<leftarrow> put_with (expr_gstr_print_revdep calc e T_mod (title @ '' [m]:'' @ newline)) r;
          put_with (expr_gstr_print_revdep calc e T_no (title @ '' [n]:'' @ newline)) r })"

definition get_symbol_str :: "calc \<Rightarrow> sym \<Rightarrow> report \<Rightarrow> report option" where
  "get_symbol_str calc s r = do {
     r \<leftarrow> put_symbol calc s r;
     let ps = props_of P_SYMBOL s (mw (r_menus r));
     r \<leftarrow> each (put_definition calc True) ps r;
     r \<leftarrow> each (put_definition calc False) ps r;
     r \<leftarrow> get_symbol_props_str calc s P_SELECT ''Selects: '' r;
     r \<leftarrow> put_revdep calc ''Selected by'' (dep_expr (rev_dep (syms (mw (r_menus r)) s))) r;
     r \<leftarrow> get_symbol_props_str calc s P_IMPLY ''Implies: '' r;
     r \<leftarrow> put_revdep calc ''Implied by'' (dep_expr (implied (syms (mw (r_menus r)) s))) r;
     Some (put_text (newline @ newline) r) }"

definition get_relations_str :: "calc \<Rightarrow> sym list \<Rightarrow> jump_key list option \<Rightarrow> menu_world \<Rightarrow> report option" where
  "get_relations_str calc ss head st = do {
     r \<leftarrow> each (get_symbol_str calc) ss \<lparr>r_text = str_new, r_menus = st, r_jumps = head\<rparr>;
     Some (if ss = [] then put_text (''No matches found.'' @ newline) r else r) }"

definition nohelp_text :: string where
  "nohelp_text = ''There is no help available for this option.''"

text \<open>Only an entry with a symbol has a help text.\<close>

definition put_help :: "conf_host \<Rightarrow> nat \<Rightarrow> report \<Rightarrow> report option" where
  "put_help h m r =
     (if \<not> menu_has_help m (r_menus r) then Some (put_format (nohelp_text @ newline) r)
      else do {
        s \<leftarrow> entry_sym m (r_menus r);
        let r = (case sym_name (syms (mw (r_menus r)) s) of
                   None \<Rightarrow> r
                 | Some n \<Rightarrow> put_format (CONFIG_prefix h @ n @ '':'' @ newline @ newline) r);
        Some (put_format (menu_get_help m (r_menus r) @ newline) r) })"

definition menu_get_ext_help :: "conf_host \<Rightarrow> calc \<Rightarrow> nat \<Rightarrow> report \<Rightarrow> report option" where
  "menu_get_ext_help h calc m r = do {
     r \<leftarrow> put_help h m r;
     case entry_sym m (r_menus r) of None \<Rightarrow> Some r | Some s \<Rightarrow> get_symbol_str calc s r }"

end
