(* ===== verification/Kconf_Menu.thy ===== *)
theory Kconf_Menu
  imports Kmenu_Show
begin

text \<open>
  Writing the configuration (\<open>conf_write\<close> and \<open>conf_write_defconfig\<close> of
  \<open>tools/kconfig/confdata.c\<close>): the walk over the menus along \<open>list\<close>, \<open>next\<close> and \<open>parent\<close>, what
  is printed for each entry, and the files.
\<close>

subsection \<open>The walk over the entries\<close>

definition first_child :: "nat \<Rightarrow> tree \<Rightarrow> nat option" where
  "first_child m t =
     (case find_entry m t of
        None \<Rightarrow> None
      | Some u \<Rightarrow> (case menu_list u of [] \<Rightarrow> None | c # _ \<Rightarrow> Some (entry c)))"

fun next_entry :: "nat \<Rightarrow> tree \<Rightarrow> nat option"
and next_among :: "nat \<Rightarrow> tree list \<Rightarrow> nat option" where
  "next_entry x (Entry m ts) = next_among x ts"
| "next_among x [] = None"
| "next_among x (t # ts) =
     (if entry t = x then (case ts of [] \<Rightarrow> None | u # _ \<Rightarrow> Some (entry u))
      else case next_entry x t of Some n \<Rightarrow> Some n | None \<Rightarrow> next_among x ts)"

text \<open>
  The two loops, over any state that contains the menus: \<open>visit\<close> is the body for an entry,
  \<open>close\<close> what is done on the way up. The first result of \<open>climb\<close> is the entry that is next.
\<close>

partial_function (option) climb ::
  "(nat \<Rightarrow> 'w \<Rightarrow> 'w option) \<Rightarrow> ('w \<Rightarrow> menu_world) \<Rightarrow> nat \<Rightarrow> 'w \<Rightarrow> (nat option \<times> 'w) option" where
  "climb close at m x =
     (case menu_parent (menus (at x) m) of
        None \<Rightarrow> Some (None, x)
      | Some p \<Rightarrow> do {
          x \<leftarrow> close p x;
          case next_entry p (menu_tree (at x)) of
            Some n \<Rightarrow> Some (Some n, x)
          | None \<Rightarrow> climb close at p x })"

partial_function (option) walk ::
  "(nat \<Rightarrow> 'w \<Rightarrow> 'w option) \<Rightarrow> (nat \<Rightarrow> 'w \<Rightarrow> 'w option) \<Rightarrow> ('w \<Rightarrow> menu_world) \<Rightarrow> nat \<Rightarrow> 'w \<Rightarrow> 'w option" where
  "walk visit close at m x = do {
     x \<leftarrow> visit m x;
     case first_child m (menu_tree (at x)) of
       Some c \<Rightarrow> walk visit close at c x
     | None \<Rightarrow>
         (case next_entry m (menu_tree (at x)) of
            Some n \<Rightarrow> walk visit close at n x
          | None \<Rightarrow> do {
              (r, x) \<leftarrow> climb close at m x;
              case r of None \<Rightarrow> Some x | Some n \<Rightarrow> walk visit close at n x }) }"

text \<open>From \<open>rootmenu.list\<close>.\<close>

definition walk_all ::
  "(nat \<Rightarrow> 'w \<Rightarrow> 'w option) \<Rightarrow> (nat \<Rightarrow> 'w \<Rightarrow> 'w option) \<Rightarrow> ('w \<Rightarrow> menu_world) \<Rightarrow> 'w \<Rightarrow> 'w option" where
  "walk_all visit close at x =
     (case first_child rootmenu (menu_tree (at x)) of None \<Rightarrow> Some x | Some c \<Rightarrow> walk visit close at c x)"

subsection \<open>The text of the configuration\<close>

record writer =
  wr_menus :: menu_world
  wr_text :: string
  need_newline :: bool

definition put_out :: "string \<Rightarrow> writer \<Rightarrow> writer" where
  "put_out s x = x\<lparr>wr_text := wr_text x @ s\<rparr>"

definition menu_comment :: "string \<Rightarrow> string" where
  "menu_comment str = newline @ ''#'' @ newline @ ''# '' @ str @ newline @ ''#'' @ newline"

definition write_symbol :: "conf_host \<Rightarrow> calc \<Rightarrow> sym \<Rightarrow> writer \<Rightarrow> writer option" where
  "write_symbol h calc s x = do {
     let x = (if need_newline x then put_out newline x\<lparr>need_newline := False\<rparr> else x);
     let st = on_mw (upd_sym s (set_flag SYMBOL_WRITTEN)) (wr_menus x);
     (t, st) \<leftarrow> with_calc (conf_write_symbol calc (kconfig_printer_cb h) False s) st;
     Some (put_out t x\<lparr>wr_menus := st\<rparr>) }"

definition write_entry :: "conf_host \<Rightarrow> calc \<Rightarrow> nat \<Rightarrow> writer \<Rightarrow> writer option" where
  "write_entry h calc m x =
     (let st = wr_menus x
      in case entry_sym m st of
           None \<Rightarrow> do {
             (b, st) \<leftarrow> entry_is_visible calc m st;
             let x = x\<lparr>wr_menus := st\<rparr>;
             Some (if b then put_out (menu_comment (shown (menu_get_prompt m st))) x\<lparr>need_newline := False\<rparr> else x) }
         | Some s \<Rightarrow>
             if has_flag SYMBOL_CHOICE s (mw st) \<or> has_flag SYMBOL_WRITTEN s (mw st) then Some x
             else do {
               st \<leftarrow> calc_on calc s st;
               let x = x\<lparr>wr_menus := st\<rparr>;
               if has_flag SYMBOL_WRITE s (mw st) then write_symbol h calc s x else Some x })"

definition close_entry :: "calc \<Rightarrow> nat \<Rightarrow> writer \<Rightarrow> writer option" where
  "close_entry calc m x =
     (if entry_sym m (wr_menus x) \<noteq> None then Some x
      else do {
        (b, st) \<leftarrow> entry_is_visible calc m (wr_menus x);
        let x = x\<lparr>wr_menus := st\<rparr>;
        Some (if b \<and> m \<noteq> rootmenu
              then put_out (''# end of '' @ shown (menu_get_prompt m st) @ newline) x\<lparr>need_newline := True\<rparr>
              else x) })"

definition write_menus :: "conf_host \<Rightarrow> calc \<Rightarrow> writer \<Rightarrow> writer option" where
  "write_menus h calc x = walk_all (write_entry h calc) (close_entry calc) wr_menus x"

definition clear_written :: "kworld \<Rightarrow> kworld" where
  "clear_written w = fold (\<lambda>s. upd_sym s (clear_flag SYMBOL_WRITTEN)) (all_symbols w) w"

text \<open>The text of the file; all values are computed again when nothing was changed.\<close>

definition config_text :: "conf_host \<Rightarrow> calc \<Rightarrow> menu_world \<Rightarrow> (string \<times> menu_world) option" where
  "config_text h calc st = do {
     p \<leftarrow> entry_prompt rootmenu st;
     let heading = conf_write_heading (kconfig_printer_cb h) (shown (prop_text p));
     w \<leftarrow> (if conf_get_changed (mw st) then Some (mw st) else sym_clear_all_valid calc (mw st));
     x \<leftarrow> write_menus h calc \<lparr>wr_menus = st\<lparr>mw := w\<rparr>, wr_text = heading, need_newline = False\<rparr>;
     Some (wr_text x, on_mw clear_written (wr_menus x)) }"

subsection \<open>conf_write\<close>

text \<open>
  A front end has the menus and the files. The symbols that both refer to are the ones of the
  menus; \<open>kw\<close> is brought up to date when a function of the files is called.
\<close>

record front =
  fr_menus :: menu_world
  fr_files :: conf_world

definition with_files :: "(conf_world \<Rightarrow> ('a \<times> conf_world) option) \<Rightarrow> front \<Rightarrow> ('a \<times> front) option" where
  "with_files f x = do {
     (a, cw) \<leftarrow> f ((fr_files x)\<lparr>kw := mw (fr_menus x)\<rparr>);
     Some (a, x\<lparr>fr_menus := (fr_menus x)\<lparr>mw := kw cw\<rparr>, fr_files := cw\<rparr>) }"

definition on_symbols :: "(kworld \<Rightarrow> kworld) \<Rightarrow> front \<Rightarrow> front" where
  "on_symbols f x = x\<lparr>fr_menus := on_mw f (fr_menus x)\<rparr>"

definition put_fs :: "file_system \<Rightarrow> front \<Rightarrow> front" where
  "put_fs fs x = x\<lparr>fr_files := (fr_files x)\<lparr>conf_fs := fs\<rparr>\<rparr>"

definition tell :: "string \<Rightarrow> front \<Rightarrow> front" where
  "tell msg x = x\<lparr>fr_files := conf_message msg (fr_files x)\<rparr>"

definition complain :: "string \<Rightarrow> front \<Rightarrow> front" where
  "complain msg = on_symbols (\<lambda>w. w\<lparr>messages := messages w @ [msg @ newline]\<rparr>)"

text \<open>
  The process number and the result of \<open>fstat\<close> (see \<open>is_same\<close>) are parameters. The file is
  written under a temporary name unless the environment says otherwise.
\<close>

record process =
  os_pid :: nat
  os_fstat :: bool

definition temporary_name :: "conf_host \<Rightarrow> process \<Rightarrow> string \<Rightarrow> string option" where
  "temporary_name h os name =
     (if (case conf_getenv h ''KCONFIG_OVERWRITECONFIG'' of Some env \<Rightarrow> env \<noteq> [] | None \<Rightarrow> False) then None
      else Some (take PATH_MAX (name @ ''.'' @ decimal_text (int (os_pid os)) @ ''.tmp'')))"

definition unlink_file :: "string \<Rightarrow> file_system \<Rightarrow> file_system" where
  "unlink_file p fs = fs\<lparr>fs_files := (fs_files fs)(p := None)\<rparr>"

definition finish_write :: "string \<Rightarrow> front \<Rightarrow> int \<times> front" where
  "finish_write name x = (0, on_symbols (sym_set_change_count 0) (tell (''configuration written to '' @ name) x))"

text \<open>The old file is kept under another name when the new one differs.\<close>

definition keep_old :: "conf_host \<Rightarrow> string \<Rightarrow> file_system \<Rightarrow> file_system" where
  "keep_old h name fs =
     (case rename_file h name (take PATH_MAX (name @ ''.old'')) fs of Some fs \<Rightarrow> fs | None \<Rightarrow> fs)"

definition discard_new :: "string \<Rightarrow> string \<Rightarrow> front \<Rightarrow> int \<times> front" where
  "discard_new name tmp x =
     (0, on_symbols (sym_set_change_count 0)
           (put_fs (unlink_file tmp (conf_fs (fr_files x))) (tell (''No change to '' @ name) x)))"

definition replace_old :: "conf_host \<Rightarrow> string \<Rightarrow> string \<Rightarrow> front \<Rightarrow> int \<times> front" where
  "replace_old h name tmp x =
     (let fs = keep_old h name (conf_fs (fr_files x))
      in case rename_file h tmp name fs of
           None \<Rightarrow> (1, put_fs fs x)
         | Some fs \<Rightarrow> finish_write name (put_fs fs x))"

definition install_config :: "conf_host \<Rightarrow> process \<Rightarrow> string \<Rightarrow> string option \<Rightarrow> front \<Rightarrow> int \<times> front" where
  "install_config h os name tmp x =
     (case tmp of
        None \<Rightarrow> finish_write name x
      | Some tmp \<Rightarrow>
          if is_same (os_fstat os) (fs_files (conf_fs (fr_files x)) name) (fs_files (conf_fs (fr_files x)) tmp)
          then discard_new name tmp x
          else replace_old h name tmp x)"

text \<open>
  The results of \<open>fprintf\<close> and \<open>fclose\<close> are not looked at by the code; in the model a write to
  a file that could be opened succeeds.
\<close>

definition write_config_file ::
  "conf_host \<Rightarrow> calc \<Rightarrow> process \<Rightarrow> string \<Rightarrow> front \<Rightarrow> (int \<times> front) option" where
  "write_config_file h calc os name x =
     (let tmp = temporary_name h os name;
          out = (case tmp of Some t \<Rightarrow> t | None \<Rightarrow> name)
      in case create_file h out (conf_fs (fr_files x)) of
           Opened fs \<Rightarrow> do {
             (text, st) \<leftarrow> config_text h calc (fr_menus x);
             Some (install_config h os name tmp (put_fs (write_file out text fs) (x\<lparr>fr_menus := st\<rparr>))) }
         | _ \<Rightarrow> Some (1, x))"

definition conf_write ::
  "conf_host \<Rightarrow> calc \<Rightarrow> process \<Rightarrow> string option \<Rightarrow> front \<Rightarrow> (int \<times> front) option" where
  "conf_write h calc os name x =
     (let name = (case name of Some n \<Rightarrow> n | None \<Rightarrow> conf_get_configname h)
      in if name = [] then Some (-1, complain ''config name is empty'' x)
         else if is_dir name (conf_fs (fr_files x)) then Some (-1, complain (name @ '': Is a directory'') x)
         else case make_parent_dir h name (conf_fs (fr_files x)) of
                (False, fs) \<Rightarrow> Some (-1, put_fs fs x)
              | (True, fs) \<Rightarrow> write_config_file h calc os name (put_fs fs x))"

subsection \<open>conf_write_defconfig\<close>

text \<open>
  A symbol is left out of the minimal configuration when its value is fixed or equals the default,
  and a value of a choice when it is \<open>y\<close> and the default of a choice that is not optional.
\<close>

definition chosen_by_default :: "calc \<Rightarrow> sym \<Rightarrow> menu_world \<Rightarrow> (bool \<times> menu_world) option" where
  "chosen_by_default calc s st =
     (if \<not> sym_is_choice_value s (mw st) then Some (False, st)
      else do {
        cs \<leftarrow> choice_of s (mw st);
        (ds, st) \<leftarrow> with_calc (sym_choice_default calc cs) st;
        Some (\<not> sym_is_optional cs (mw st) \<and> ds = Some s \<and>
              sym_type (syms (mw st) s) = S_BOOLEAN \<and> sym_get_tristate_value s (mw st) = T_yes, st) })"

definition is_default :: "calc \<Rightarrow> sym \<Rightarrow> menu_world \<Rightarrow> (bool \<times> menu_world) option" where
  "is_default calc s st = do {
     (v, st) \<leftarrow> with_calc (sym_get_string_value calc s) st;
     (d, st) \<leftarrow> with_calc (sym_get_string_default calc s) st;
     v \<leftarrow> as_string v;
     d \<leftarrow> as_string d;
     if v = d then Some (True, st) else chosen_by_default calc s st }"

definition minimal_entry :: "conf_host \<Rightarrow> calc \<Rightarrow> nat \<Rightarrow> writer \<Rightarrow> writer option" where
  "minimal_entry h calc m x =
     (case entry_sym m (wr_menus x) of
        None \<Rightarrow> do { (_, st) \<leftarrow> entry_is_visible calc m (wr_menus x); Some (x\<lparr>wr_menus := st\<rparr>) }
      | Some s \<Rightarrow>
          if sym_is_choice s (mw (wr_menus x)) then Some x
          else do {
            st \<leftarrow> calc_on calc s (wr_menus x);
            if \<not> has_flag SYMBOL_WRITE s (mw st) then Some (x\<lparr>wr_menus := st\<rparr>)
            else do {
              let st = on_mw (upd_sym s (clear_flag SYMBOL_WRITE)) st;
              if \<not> sym_is_changeable s (mw st) then Some (x\<lparr>wr_menus := st\<rparr>)
              else do {
                (b, st) \<leftarrow> is_default calc s st;
                if b then Some (x\<lparr>wr_menus := st\<rparr>)
                else do {
                  (t, st) \<leftarrow> with_calc (conf_write_symbol calc (kconfig_printer_cb h) False s) st;
                  Some (put_out t x\<lparr>wr_menus := st\<rparr>) } } } })"

definition no_close :: "nat \<Rightarrow> writer \<Rightarrow> writer option" where
  "no_close m x = Some x"

definition minimal_menus :: "conf_host \<Rightarrow> calc \<Rightarrow> writer \<Rightarrow> writer option" where
  "minimal_menus h calc x = walk_all (minimal_entry h calc) no_close wr_menus x"

definition conf_write_defconfig :: "conf_host \<Rightarrow> calc \<Rightarrow> string \<Rightarrow> front \<Rightarrow> (int \<times> front) option" where
  "conf_write_defconfig h calc name x =
     (case create_file h name (conf_fs (fr_files x)) of
        Opened fs \<Rightarrow> do {
          w \<leftarrow> sym_clear_all_valid calc (mw (fr_menus x));
          y \<leftarrow> minimal_menus h calc \<lparr>wr_menus = (fr_menus x)\<lparr>mw := w\<rparr>, wr_text = '''', need_newline = False\<rparr>;
          Some (0, put_fs (write_file name (wr_text y) fs) (x\<lparr>fr_menus := wr_menus y\<rparr>)) }
      | _ \<Rightarrow> Some (1, x))"

end
