(* ===== verification/Kmenu_Props.thy ===== *)
theory Kmenu_Props
  imports Kparse "HOL-Library.Sublist"
begin

text \<open>
  The shape of the menus: what \<open>menu_finalize\<close> keeps of the entries and their prompts, the order
  of the entries, the links to the parents, and which submenus are left.
\<close>

subsection \<open>What the steps keep\<close>

text \<open>The parts of a property and of an entry that no step of \<open>menu_finalize\<close> changes.\<close>

definition prop_id :: "property \<Rightarrow> prop_type \<times> string option \<times> nat option" where
  "prop_id p = (prop_type p, prop_text p, prop_menu p)"

definition prop_ids :: "sym \<Rightarrow> kworld \<Rightarrow> (prop_type \<times> string option \<times> nat option) list" where
  "prop_ids s w = map prop_id (props (syms w s))"

fun prompt_id :: "menu_prompt \<Rightarrow> nat + prop_type \<times> string option \<times> nat option" where
  "prompt_id (In_symbol i) = Inl i"
| "prompt_id (Own p) = Inr (prop_id p)"

definition menu_id :: "nat \<Rightarrow> menu_world \<Rightarrow> sym option \<times> (nat + prop_type \<times> string option \<times> nat option) option" where
  "menu_id m st = (menu_sym (menus st m), map_option prompt_id (menu_prompt (menus st m)))"

definition grows :: "kworld \<Rightarrow> kworld \<Rightarrow> bool" where
  "grows w w' \<longleftrightarrow> (\<forall>s. prefix (prop_ids s w) (prop_ids s w'))"

definition keeps :: "menu_world \<Rightarrow> menu_world \<Rightarrow> bool" where
  "keeps st st' \<longleftrightarrow> grows (mw st) (mw st') \<and> (\<forall>m. menu_id m st' = menu_id m st)"

definition calm :: "menu_world \<Rightarrow> menu_world \<Rightarrow> bool" where
  "calm st st' \<longleftrightarrow> keeps st st' \<and> (\<forall>m. menu_parent (menus st' m) = menu_parent (menus st m))"

lemma grows_refl [simp]: "grows w w"
  by (simp add: grows_def)

lemma grows_trans: "grows a b \<Longrightarrow> grows b c \<Longrightarrow> grows a c"
  unfolding grows_def by (meson prefix_order.trans)

lemma keeps_refl [simp]: "keeps st st"
  by (simp add: keeps_def)

lemma keeps_trans: "keeps a b \<Longrightarrow> keeps b c \<Longrightarrow> keeps a c"
  unfolding keeps_def using grows_trans by force

lemma calm_refl [simp]: "calm st st"
  by (simp add: calm_def)

lemma calm_trans: "calm a b \<Longrightarrow> calm b c \<Longrightarrow> calm a c"
  unfolding calm_def using keeps_trans by force

lemma calm_keeps: "calm a b \<Longrightarrow> keeps a b"
  by (simp add: calm_def)

named_theorems grows_intros
named_theorems calm_intros

lemma each_grows:
  "each f xs w = Some w' \<Longrightarrow> (\<And>x a b. x \<in> set xs \<Longrightarrow> f x a = Some b \<Longrightarrow> grows a b) \<Longrightarrow> grows w w'"
proof (induction xs arbitrary: w)
  case (Cons x xs)
  obtain w1 where a: "f x w = Some w1" and b: "each f xs w1 = Some w'"
    using Cons.prems(1) by (auto split: Option.bind_splits)
  have "grows w w1"
    using Cons.prems(2)[OF _ a] by simp
  moreover have "grows w1 w'"
    by (rule Cons.IH[OF b]) (use Cons.prems(2) in auto)
  ultimately show ?case
    by (rule grows_trans)
qed simp

lemma each_calm:
  "each f xs st = Some st' \<Longrightarrow> (\<And>x a b. x \<in> set xs \<Longrightarrow> f x a = Some b \<Longrightarrow> calm a b) \<Longrightarrow> calm st st'"
proof (induction xs arbitrary: st)
  case (Cons x xs)
  obtain st1 where a: "f x st = Some st1" and b: "each f xs st1 = Some st'"
    using Cons.prems(1) by (auto split: Option.bind_splits)
  have "calm st st1"
    using Cons.prems(2)[OF _ a] by simp
  moreover have "calm st1 st'"
    by (rule Cons.IH[OF b]) (use Cons.prems(2) in auto)
  ultimately show ?case
    by (rule calm_trans)
qed simp

subsection \<open>Steps on the symbols\<close>

lemma grows_upd:
  assumes "prefix (map prop_id (props (syms w s))) (map prop_id (props (f (syms w s))))"
  shows "grows w (upd_sym s f w)"
  using assms by (simp add: grows_def prop_ids_def)

lemma upd_props_id:
  assumes "\<And>p. prop_id (f p) = prop_id p"
  shows "map prop_id (props (upd_prop i f x)) = map prop_id (props x)"
proof (rule nth_equalityI)
  fix j
  assume "j < length (map prop_id (props (upd_prop i f x)))"
  then show "map prop_id (props (upd_prop i f x)) ! j = map prop_id (props x) ! j"
    by (cases "j = i") (simp_all add: upd_prop_def assms)
qed (simp add: upd_prop_def)

lemma grows_same_props: "(\<And>x. props (f x) = props x) \<Longrightarrow> grows w (upd_sym s f w)"
  by (simp add: grows_upd)

lemma grows_simple [grows_intros]:
  "grows w (upd_sym s (set_flag fl) w)" "grows w (upd_sym s (set_type ty) w)"
  "grows w (upd_sym s (or_rev_dep e) w)" "grows w (upd_sym s (or_implied e) w)"
  "grows w (upd_sym s (or_dir_dep e) w)"
  by (rule grows_same_props;
      simp add: set_flag_def set_type_def or_rev_dep_def or_implied_def or_dir_dep_def)+

lemma grows_messages [grows_intros]: "grows w (w\<lparr>messages := ms\<rparr>)"
  by (simp add: grows_def prop_ids_def)

lemma grows_append [grows_intros]: "grows w (upd_sym s (append_prop p) w)"
  by (rule grows_upd) (simp add: append_prop_def)

lemma set_prop_visible_id [simp]: "prop_id (set_prop_visible e p) = prop_id p"
  by (simp add: set_prop_visible_def prop_id_def)

lemma grows_visible [grows_intros]: "grows w (upd_sym s (upd_prop i (set_prop_visible e)) w)"
  by (rule grows_upd) (simp add: upd_props_id)

lemma reverse_dep_grows: "reverse_dep s p dep w = Some w' \<Longrightarrow> grows w w'"
  by (auto simp: reverse_dep_def Let_def intro: grows_intros split: if_splits Option.bind_splits)

lemma inherit_prop_grows:
  assumes "inherit_prop m s base i w = Some w'"
  shows "grows w w'"
proof (cases "prop_menu (prop_at s i w) = Some m")
  case True
  then obtain dep where "reverse_dep s (prop_at s i w) dep (upd_sym s (upd_prop i (set_prop_visible dep)) w) = Some w'"
    using assms by (auto simp: inherit_prop_def Let_def split: Option.bind_splits)
  then show ?thesis
    using reverse_dep_grows grows_visible grows_trans by blast
qed (use assms in \<open>simp add: inherit_prop_def\<close>)

lemma add_choice_value_grows: "add_choice_value s v w = Some w' \<Longrightarrow> grows w w'"
  by (auto simp: add_choice_value_def intro!: grows_upd upd_props_id
        simp: prop_id_def upd_props_id split: Option.bind_splits)

subsection \<open>Steps on the entries\<close>

lemma calm_on_mw: "grows (mw st) (f (mw st)) \<Longrightarrow> calm st (on_mw f st)"
  by (simp add: calm_def keeps_def on_mw_def menu_id_def)

lemma calm_mw: "grows (mw st) w \<Longrightarrow> calm st (st\<lparr>mw := w\<rparr>)"
  by (simp add: calm_def keeps_def menu_id_def)

lemma calm_current [calm_intros]: "calm st (st\<lparr>current_entry := c\<rparr>)"
  by (simp add: calm_def keeps_def menu_id_def)

lemma calm_upd_menu:
  assumes "\<And>x. menu_sym (f x) = menu_sym x" "\<And>x. menu_parent (f x) = menu_parent x"
    and "map_option prompt_id (menu_prompt (f (menus st m))) = map_option prompt_id (menu_prompt (menus st m))"
  shows "calm st (upd_menu m f st)"
  using assms by (auto simp: calm_def keeps_def upd_menu_def menu_id_def)

lemma calm_warn [calm_intros]:
  "calm st (warning_at file line msg st)" "calm st (menu_warn m msg st)" "calm st (prop_warn p msg st)"
  by (simp_all add: warning_at_def menu_warn_def prop_warn_def calm_on_mw grows_messages)

lemma calm_update_if: "calm st (f st) \<Longrightarrow> calm st (update_if b f st)"
  by (simp add: update_if_def)

lemma calm_warn_if [calm_intros]:
  "calm st (update_if b (menu_warn m msg) st)" "calm st (update_if b (prop_warn p msg) st)"
  by (simp_all add: calm_update_if calm_warn)

lemma calm_set_flag [calm_intros]: "calm st (on_mw (upd_sym s (set_flag fl)) st)"
  by (rule calm_on_mw) (rule grows_intros)

lemma menu_set_type_calm: "menu_set_type ty st = Some st' \<Longrightarrow> calm st st'"
  by (auto simp: menu_set_type_def Let_def calm_warn intro!: calm_on_mw grows_intros
        split: if_splits Option.bind_splits)

lemma choice_type_calm:
  assumes "choice_type m s cs st = Some st'"
  shows "calm st st'"
proof (cases "sym_type (syms (mw st) s) = S_UNKNOWN \<and>
    List.map_filter (typed_child (st\<lparr>current_entry := m\<rparr>)) cs \<noteq> []")
  case True
  then obtain ty where "menu_set_type ty (st\<lparr>current_entry := m\<rparr>) = Some st'"
    using assms by (auto simp: choice_type_def Let_def split: list.splits)
  then show ?thesis
    using menu_set_type_calm calm_current calm_trans by blast
qed (use assms in \<open>auto simp: choice_type_def Let_def calm_current split: if_splits list.splits\<close>)

lemma child_type_calm:
  assumes "child_type s c st = Some st'"
  shows "calm st st'"
proof -
  have "st' = st\<lparr>current_entry := c\<rparr> \<or> (\<exists>ty. menu_set_type ty (st\<lparr>current_entry := c\<rparr>) = Some st')"
    using assms by (auto simp: child_type_def Let_def split: option.splits if_splits)
  then show ?thesis
    using menu_set_type_calm calm_current calm_trans by blast
qed

lemma choice_types_calm:
  assumes "choice_types m s cs st = Some st'"
  shows "calm st st'"
proof -
  obtain st1 where "choice_type m s cs st = Some st1" "each (child_type s) cs st1 = Some st'"
    using assms by (auto simp: choice_types_def split: Option.bind_splits)
  then show ?thesis
    using choice_type_calm each_calm[of "child_type s" cs st1 st'] child_type_calm calm_trans by blast
qed

lemma inherit_prompt_calm: "inherit_prompt m base st = Some st' \<Longrightarrow> calm st st'"
  by (auto simp: inherit_prompt_def intro!: calm_upd_menu split: option.splits menu_prompt.splits if_splits Option.bind_splits)

lemma inherit_child_calm:
  assumes "inherit_child dep c st = Some st'"
  shows "calm st st'"
proof -
  obtain base where b: "inherit_dep (mw st) dep (menu_dep (menus st c)) = Some base"
    using assms by (auto simp: inherit_child_def split: Option.bind_splits)
  define st1 where "st1 = upd_menu c (\<lambda>x. x\<lparr>menu_dep := base\<rparr>) st"
  have c1: "calm st st1"
    by (simp add: st1_def calm_upd_menu)
  have "calm st1 st'"
  proof (cases "entry_sym c st1")
    case None
    then show ?thesis
      using assms b inherit_prompt_calm by (simp add: inherit_child_def st1_def)
  next
    case (Some s)
    obtain w where e: "each (inherit_prop c s base) [0..<length (props (syms (mw st1) s))] (mw st1) = Some w"
      and st': "st' = st1\<lparr>mw := w\<rparr>"
      using assms b Some by (auto simp: inherit_child_def st1_def Let_def split: Option.bind_splits)
    have "grows (mw st1) w"
      by (rule each_grows[OF e]) (rule inherit_prop_grows)
    then show ?thesis
      unfolding st' by (rule calm_mw)
  qed
  then show ?thesis
    using c1 calm_trans by blast
qed

lemma prepare_children_calm:
  assumes "prepare_children m cs st = Some st'"
  shows "calm st st'"
proof -
  obtain st1 where a: "(case entry_sym m st of
       Some s \<Rightarrow> if sym_is_choice s (mw st) then choice_types m s cs st else Some st
     | None \<Rightarrow> Some st) = Some st1"
    and b: "each (inherit_child (inherited m st1)) cs st1 = Some st'"
    using assms by (auto simp: prepare_children_def split: Option.bind_splits)
  have "calm st st1"
    using a choice_types_calm by (auto split: option.splits if_splits)
  moreover have "calm st1 st'"
    by (rule each_calm[OF b]) (rule inherit_child_calm)
  ultimately show ?thesis
    by (rule calm_trans)
qed

lemma check_value_prop_calm:
  assumes "check_value_prop s c p st = Some st'"
  shows "calm st st'"
proof -
  define st1 where "st1 = update_if (prop_type p = P_DEFAULT) (prop_warn p ''defaults for choice values not supported'') st"
  have "calm st st1"
    by (simp add: st1_def calm_intros)
  moreover have "calm st1 st'"
    using assms by (auto simp: check_value_prop_def Let_def st1_def[symmetric] calm_intros
        split: if_splits Option.bind_splits)
  ultimately show ?thesis
    by (rule calm_trans)
qed

lemma grows_map:
  assumes "\<And>p. prop_id (f p) = prop_id p"
  shows "grows w (upd_sym v (\<lambda>x. x\<lparr>props := map f (props x)\<rparr>) w)"
  by (rule grows_upd) (simp add: comp_def assms)

lemma require_choice_calm: "calm st (require_choice s c v st)"
proof -
  let ?f = "\<lambda>p. if prop_menu p = Some c
    then set_prop_visible (expr_alloc_and (Some (E_CMP E_EQUAL s symbol_yes)) (dep_expr (prop_visible p))) p else p"
  have "grows w (upd_sym v (\<lambda>x. x\<lparr>props := map ?f (props x)\<rparr>) w)" for w
    by (rule grows_map) simp
  then have a: "calm st1 (on_mw (upd_sym v (\<lambda>x. x\<lparr>props := map ?f (props x)\<rparr>)) st1)" for st1
    by (rule calm_on_mw)
  show ?thesis
    unfolding require_choice_def Let_def
    using calm_trans[OF calm_upd_menu a] by simp
qed

lemma menu_add_symbol_calm: "calm st (menu_add_symbol ty s dep st)"
  by (auto simp: menu_add_symbol_def menu_add_expr_def menu_add_prop_def intro!: calm_on_mw grows_intros
        split: option.splits)

lemma join_choice_calm:
  assumes "join_choice s c v st = Some st'"
  shows "calm st st'"
proof -
  define st1 where "st1 = on_mw (upd_sym v (set_flag SYMBOL_CHOICEVAL)) (st\<lparr>current_entry := c\<rparr>)"
  define st2 where "st2 = update_if (\<not> menu_has_prompt c st1) (menu_warn c ''choice value must have a prompt'') st1"
  obtain st3 where e: "each (check_value_prop s c) (props (syms (mw st2) v)) st2 = Some st3"
    using assms by (auto simp: join_choice_def st1_def st2_def Let_def split: Option.bind_splits)
  define st4 where "st4 = menu_add_symbol P_CHOICE s None (require_choice s c v st3)"
  obtain w where w: "add_choice_value s v (mw st4) = Some w" and st': "st' = st4\<lparr>mw := w\<rparr>"
    using assms e by (auto simp: join_choice_def st1_def st2_def st4_def Let_def split: Option.bind_splits)
  have 1: "calm st st1"
    unfolding st1_def by (rule calm_trans[OF calm_current calm_set_flag])
  have 2: "calm st1 st2"
    by (simp add: st2_def calm_intros)
  have 3: "calm st2 st3"
    by (rule each_calm[OF e]) (rule check_value_prop_calm)
  have 4: "calm st3 st4"
    unfolding st4_def by (rule calm_trans[OF require_choice_calm menu_add_symbol_calm])
  have 5: "calm st4 st'"
    unfolding st' by (rule calm_mw[OF add_choice_value_grows[OF w]])
  show ?thesis
    using 1 2 3 4 5 calm_trans by blast
qed

lemma settle_value_calm: "settle_value m c st = Some st' \<Longrightarrow> calm st st'"
  by (auto simp: settle_value_def join_choice_calm split: option.splits if_splits)

lemma check_prop_calm: "check_prop s p st = Some st' \<Longrightarrow> calm st st'"
proof -
  have num: "check_number_default s p s2 a = Some b \<Longrightarrow> calm a b" for s2 a b
    by (auto simp: check_number_default_def calm_intros split: if_splits Option.bind_splits)
  have "check_default s p a = Some b \<Longrightarrow> calm a b" for a b
    by (auto simp: check_default_def Let_def split: option.splits Option.bind_splits
        intro: calm_intros dest!: num) (blast intro: calm_trans calm_intros)
  moreover have "check_selected s p a = Some b \<Longrightarrow> calm a b" for a b
    by (auto simp: check_selected_def Let_def calm_intros split: if_splits Option.bind_splits)
  moreover have "check_range s p a = Some b \<Longrightarrow> calm a b" for a b
    by (auto simp: check_range_def Let_def split: if_splits Option.bind_splits
        intro: calm_trans[OF calm_warn_if(2) calm_warn_if(2)])
  ultimately show "check_prop s p st = Some st' \<Longrightarrow> calm st st'"
    by (auto simp: check_prop_def split: prop_type.splits)
qed

lemma finish_entry_calm:
  assumes "finish_entry m st = Some st'"
  shows "calm st st'"
proof (cases "entry_sym m st")
  case None
  then show ?thesis
    using assms by (simp add: finish_entry_def)
next
  case (Some s)
  obtain st1 where c: "check_entry m s st = Some st1" and st': "st' = select_choice m s st1"
    using assms Some by (auto simp: finish_entry_def split: Option.bind_splits)
  have "calm st st1"
  proof (cases "has_flag SYMBOL_WARNED s (mw st)")
    case False
    define a where "a = update_if (sym_type (syms (mw st) s) = S_UNKNOWN)
      (menu_warn m ''config symbol defined without type'') st"
    define b where "b = update_if (sym_is_choice s (mw a) \<and> \<not> menu_has_prompt m a)
      (menu_warn m ''choice must have a prompt'') a"
    obtain d where d: "sym_check_prop s b = Some d" and st1: "st1 = on_mw (upd_sym s (set_flag SYMBOL_WARNED)) d"
      using c False by (auto simp: check_entry_def a_def b_def Let_def split: Option.bind_splits)
    have "calm b d"
      using d unfolding sym_check_prop_def by (rule each_calm) (rule check_prop_calm)
    moreover have "calm st a" "calm a b" "calm d st1"
      by (simp_all add: a_def b_def st1 calm_intros)
    ultimately show ?thesis
      using calm_trans by blast
  qed (use c in \<open>simp add: check_entry_def\<close>)
  moreover have "calm st1 st'"
    by (auto simp: st' select_choice_def intro!: calm_on_mw grows_intros split: option.splits)
  ultimately show ?thesis
    by (rule calm_trans)
qed

end
