(* ===== verification/Kmenu_Order.thy ===== *)
theory Kmenu_Order
  imports Kmenu_Props
begin

text \<open>
  The tree of the entries: every entry stays in its place in the order of the statements, the
  links to the parents fit the tree, and a submenu has a prompt.
\<close>

subsection \<open>Order of the entries\<close>

fun preorder :: "tree \<Rightarrow> nat list" where
  "preorder (Entry m ts) = m # concat (map preorder ts)"

abbreviation entries :: "tree list \<Rightarrow> nat list" where
  "entries ts \<equiv> concat (map preorder ts)"

lemma settle_children_cases:
  assumes "settle_children m (Entry c cs # ts) st = Some (us, st')"
  obtains (dissolve) st1 vs where
      "settle_value m c st = Some st1" "cs \<noteq> []" "\<not> has_text c st1"
      "settle_children m (cs @ ts) (fold (set_parent m) (map entry cs) st1) = Some (vs, st')"
      "us = Entry c [] # vs"
  | (keep) st1 vs where
      "settle_value m c st = Some st1" "cs \<noteq> [] \<longrightarrow> has_text c st1"
      "settle_children m ts st1 = Some (vs, st')" "us = Entry c cs # vs"
proof -
  obtain st1 where 1: "settle_value m c st = Some st1"
    using assms by (auto split: Option.bind_splits)
  show ?thesis
  proof (cases "cs \<noteq> [] \<and> \<not> has_text c st1")
    case True
    then show ?thesis
      using dissolve[OF 1] assms 1 by (auto split: Option.bind_splits)
  next
    case False
    then show ?thesis
      using keep[OF 1] assms 1 by (auto split: Option.bind_splits)
  qed
qed

lemma settle_children_order: "settle_children m ts st = Some (us, st') \<Longrightarrow> entries us = entries ts"
proof (induction m ts st arbitrary: us st' rule: settle_children.induct)
  case (2 m c cs ts st)
  from 2(3) show ?case
  proof (cases rule: settle_children_cases)
    case (dissolve st1 vs)
    then show ?thesis
      using 2(1)[OF dissolve(1) _ dissolve(4)] by simp
  next
    case (keep st1 vs)
    then show ?thesis
      using 2(2)[OF keep(1) _ keep(3)] by auto
  qed
qed simp

fun task_entries :: "finalize_task \<Rightarrow> nat list" where
  "task_entries (Finalize t ts) = preorder t @ entries ts"
| "task_entries (Children ts) = entries ts"
| "task_entries (Following m s base ts) = entries ts"

lemma children_rest: "menu_finalize (Children ts) st = Some (us, rest, st') \<Longrightarrow> rest = []"
proof (induction "Children ts" st arbitrary: ts us rest st' rule: menu_finalize.induct)
  case (3 t ts st)
  obtain us1 rest1 st1 where a: "menu_finalize (Finalize t ts) st = Some (us1, rest1, st1)"
    using 3(2) by (auto split: Option.bind_splits)
  obtain us2 where "menu_finalize (Children rest1) st1 = Some (us2, rest, st')"
    using 3(2) a by (auto split: Option.bind_splits)
  then show ?case
    using 3(1)[OF a refl refl] by blast
qed simp

text \<open>
  The cases of one step of \<open>menu_finalize\<close>, with the intermediate results named.
\<close>

lemma finalize_entry_cases:
  assumes "menu_finalize (Finalize (Entry m ts) fs) st = Some (us, rest, st')"
  obtains (children) st1 vs r st2 ws st3 where
      "ts \<noteq> []" "prepare_children m (map entry ts) st = Some st1"
      "menu_finalize (Children ts) st1 = Some (vs, r, st2)"
      "settle_children m vs st2 = Some (ws, st3)" "finish_entry m st3 = Some st'"
      "us = [Entry m ws]" "rest = fs"
  | (leaf) ws st3 where
      "ts = []" "entry_sym m st = None" "settle_children m [] st = Some (ws, st3)"
      "finish_entry m st3 = Some st'" "us = [Entry m ws]" "rest = fs"
  | (submenu) s base vs st1 ws st3 where
      "ts = []" "entry_sym m st = Some s" "submenu_base m st = Some base"
      "menu_finalize (Following m s base fs) st = Some (vs, rest, st1)"
      "settle_children m vs (on_mw (upd_sym s (or_dir_dep (menu_dep (menus st1 m)))) st1) = Some (ws, st3)"
      "finish_entry m st3 = Some st'" "us = [Entry m ws]"
proof (cases "ts = []")
  case False
  obtain st1 where 1: "prepare_children m (map entry ts) st = Some st1"
    using assms False by (auto split: Option.bind_splits)
  obtain vs r st2 where 2: "menu_finalize (Children ts) st1 = Some (vs, r, st2)"
    using assms False 1 by (auto split: Option.bind_splits)
  show ?thesis
    using children[OF False 1 2] assms False 1 2 by (auto split: Option.bind_splits)
next
  case True
  show ?thesis
  proof (cases "entry_sym m st")
    case None
    then show ?thesis
      using leaf[OF True None] assms True by (auto split: Option.bind_splits)
  next
    case (Some s)
    obtain base where 1: "submenu_base m st = Some base"
      using assms True Some by (auto split: Option.bind_splits)
    obtain vs r st1 where 2: "menu_finalize (Following m s base fs) st = Some (vs, r, st1)"
      using assms True Some 1 by (auto split: Option.bind_splits)
    show ?thesis
      using submenu[OF True Some 1] assms True Some 1 2 by (auto split: Option.bind_splits)
  qed
qed

lemma finalize_children_cases:
  assumes "menu_finalize (Children (t # ts)) st = Some (us, rest, st')"
  obtains vs r st1 ws where
    "menu_finalize (Finalize t ts) st = Some (vs, r, st1)" "menu_finalize (Children r) st1 = Some (ws, rest, st')"
    "us = vs @ ws"
  using assms by (auto split: Option.bind_splits)

lemma finalize_following_cases:
  assumes "menu_finalize (Following m s base (t # ts)) st = Some (us, rest, st')"
  obtains (stop) "us = []" "rest = t # ts" "st' = st"
  | (below) b vs r st1 ws where
      "belongs_below (mw st) s base (entry_condition (entry t) st) = Some b" "\<not> \<not> b"
      "menu_finalize (Finalize t ts) st = Some (vs, r, st1)"
      "menu_finalize (Following m s base r) (set_parent m (entry t) st1) = Some (ws, rest, st')"
      "us = vs @ ws"
  using assms by (auto split: Option.bind_splits if_splits)

lemma finalize_order:
  "menu_finalize task st = Some (us, rest, st') \<Longrightarrow> entries us @ entries rest = task_entries task"
proof (induction task st arbitrary: us rest st' rule: menu_finalize.induct)
  case (1 m ts fs st)
  from 1(3) show ?case
  proof (cases rule: finalize_entry_cases)
    case (children st1 vs r st2 ws st3)
    have "entries vs @ entries r = entries ts"
      using 1(1)[OF children(1,2,3)] by simp
    moreover have "r = []"
      using children(3) by (rule children_rest)
    ultimately show ?thesis
      using settle_children_order[OF children(4)] children(6,7) by simp
  next
    case (leaf ws st3)
    then show ?thesis
      using settle_children_order[OF leaf(3)] by simp
  next
    case (submenu s base vs st1 ws st3)
    have "entries vs @ entries rest = entries fs"
      using 1(2)[OF _ submenu(2,3,4)] submenu(1) by simp
    then show ?thesis
      using settle_children_order[OF submenu(5)] submenu(1,7) by simp
  qed
next
  case (3 t ts st)
  from 3(3) show ?case
  proof (cases rule: finalize_children_cases)
    case (1 vs r st1 ws)
    have "entries vs @ entries r = preorder t @ entries ts"
      using 3(1)[OF 1(1)] by simp
    moreover have "entries ws @ entries rest = entries r"
      using 3(2)[OF 1(1) refl refl 1(2)] by simp
    ultimately show ?thesis
      using 1(3) by simp
  qed
next
  case (5 m s base t ts st)
  from 5(3) show ?case
  proof (cases rule: finalize_following_cases)
    case stop
    then show ?thesis by simp
  next
    case (below b vs r st1 ws)
    have "entries vs @ entries r = preorder t @ entries ts"
      using 5(1)[OF below(1,2,3)] by simp
    moreover have "entries ws @ entries rest = entries r"
      using 5(2)[OF below(1,2,3) refl refl below(4)] by simp
    ultimately show ?thesis
      using below(5) by simp
  qed
qed auto

subsection \<open>Links and prompts\<close>

definition parent_of :: "nat \<Rightarrow> menu_world \<Rightarrow> nat option" where
  "parent_of m st = menu_parent (menus st m)"

fun linked :: "menu_world \<Rightarrow> tree \<Rightarrow> bool" where
  "linked st (Entry m ts) \<longleftrightarrow> (\<forall>t \<in> set ts. parent_of (entry t) st = Some m \<and> linked st t)"

text \<open>A submenu below the entry has a prompt.\<close>

definition prompted :: "menu_world \<Rightarrow> tree \<Rightarrow> bool" where
  "prompted st t \<longleftrightarrow> (menu_list t \<noteq> [] \<longrightarrow> has_text (entry t) st)"

fun all_prompted :: "menu_world \<Rightarrow> tree \<Rightarrow> bool" where
  "all_prompted st (Entry m ts) \<longleftrightarrow> (\<forall>t \<in> set ts. prompted st t \<and> all_prompted st t)"

definition valid_prompts :: "menu_world \<Rightarrow> bool" where
  "valid_prompts st \<longleftrightarrow>
     (\<forall>m i. menu_prompt (menus st m) = Some (In_symbol i) \<longrightarrow>
        (\<exists>s. menu_sym (menus st m) = Some s \<and> i < length (props (syms (mw st) s))))"

lemma grows_props:
  assumes "grows w w'" and "i < length (props (syms w s))"
  shows "i < length (props (syms w' s))" "prop_id (prop_at s i w') = prop_id (prop_at s i w)"
proof -
  obtain ys where ys: "prop_ids s w' = prop_ids s w @ ys"
    using assms(1) by (auto simp: grows_def prefix_def)
  then have "length (props (syms w' s)) = length (props (syms w s)) + length ys"
    by (metis length_append length_map prop_ids_def)
  then show l: "i < length (props (syms w' s))"
    using assms(2) by simp
  have "prop_ids s w' ! i = prop_ids s w ! i"
    using ys assms(2) by (simp add: nth_append prop_ids_def)
  then show "prop_id (prop_at s i w') = prop_id (prop_at s i w)"
    using assms(2) l by (simp add: prop_ids_def prop_at_def)
qed

text \<open>The text of a prompt, as far as the parts that are kept tell it.\<close>

lemma keeps_prompt:
  assumes "keeps st st'"
  shows "menu_sym (menus st' m) = menu_sym (menus st m)"
    and "menu_prompt (menus st' m) = Some (In_symbol i) \<longleftrightarrow> menu_prompt (menus st m) = Some (In_symbol i)"
    and "map_option prompt_id (menu_prompt (menus st' m)) = map_option prompt_id (menu_prompt (menus st m))"
proof -
  show id: "menu_sym (menus st' m) = menu_sym (menus st m)"
    "map_option prompt_id (menu_prompt (menus st' m)) = map_option prompt_id (menu_prompt (menus st m))"
    using assms by (simp_all add: keeps_def menu_id_def)
  have in_symbol: "x = Some (In_symbol i) \<longleftrightarrow> map_option prompt_id x = Some (Inl i)" for x
    by (cases x rule: option.exhaust; cases "the x") auto
  show "menu_prompt (menus st' m) = Some (In_symbol i) \<longleftrightarrow> menu_prompt (menus st m) = Some (In_symbol i)"
    using id(2) by (simp add: in_symbol)
qed

lemma keeps_valid:
  assumes "keeps st st'" and "valid_prompts st"
  shows "valid_prompts st'"
  unfolding valid_prompts_def
proof (intro allI impI)
  fix m i
  assume "menu_prompt (menus st' m) = Some (In_symbol i)"
  then obtain s where s: "menu_sym (menus st m) = Some s" "i < length (props (syms (mw st) s))"
    using keeps_prompt(2)[OF assms(1)] assms(2) unfolding valid_prompts_def by blast
  have "grows (mw st) (mw st')"
    using assms(1) by (simp add: keeps_def)
  then show "\<exists>s. menu_sym (menus st' m) = Some s \<and> i < length (props (syms (mw st') s))"
    using s grows_props(1) keeps_prompt(1)[OF assms(1)] by fastforce
qed

lemma keeps_entry_prompt:
  assumes "keeps st st'" and "valid_prompts st"
  shows "map_option prop_id (entry_prompt m st') = map_option prop_id (entry_prompt m st)"
proof (cases "menu_prompt (menus st m)")
  case None
  then show ?thesis
    using keeps_prompt(3)[OF assms(1), of m] by (simp add: entry_prompt_def)
next
  case (Some x)
  show ?thesis
  proof (cases x)
    case (In_symbol i)
    then obtain s where s: "menu_sym (menus st m) = Some s" "i < length (props (syms (mw st) s))"
      using Some assms(2) unfolding valid_prompts_def by blast
    have "menu_prompt (menus st' m) = Some (In_symbol i)"
      using Some In_symbol keeps_prompt(2)[OF assms(1)] by simp
    then show ?thesis
      using Some In_symbol s keeps_prompt(1)[OF assms(1), of m] grows_props(2)[of "mw st" "mw st'"] assms(1)
      by (simp add: entry_prompt_def entry_sym_def keeps_def)
  next
    case (Own p)
    then obtain q where "menu_prompt (menus st' m) = Some (Own q)" "prop_id q = prop_id p"
      using Some keeps_prompt(3)[OF assms(1), of m] by (cases "the (menu_prompt (menus st' m))") auto
    then show ?thesis
      using Some Own by (simp add: entry_prompt_def)
  qed
qed

lemma keeps_has_text:
  assumes "keeps st st'" and "valid_prompts st"
  shows "has_text m st' = has_text m st"
proof -
  have t: "has_text m a \<longleftrightarrow> (case map_option prop_id (entry_prompt m a) of None \<Rightarrow> False | Some (_, x, _) \<Rightarrow> x \<noteq> None)" for a
    by (simp add: has_text_def prop_id_def split: option.split)
  show ?thesis
    unfolding t keeps_entry_prompt[OF assms] ..
qed

lemma keeps_settled:
  assumes "keeps st st'" and "valid_prompts st"
  shows "prompted st' t = prompted st t" and "all_prompted st' t = all_prompted st t"
proof -
  show p: "prompted st' t = prompted st t" for t
    by (simp add: prompted_def keeps_has_text[OF assms])
  show "all_prompted st' t = all_prompted st t"
    by (induction t) (simp add: p)
qed

subsection \<open>Where parents change\<close>

definition moves :: "nat set \<Rightarrow> menu_world \<Rightarrow> menu_world \<Rightarrow> bool" where
  "moves A st st' \<longleftrightarrow> keeps st st' \<and> (\<forall>x. x \<notin> A \<longrightarrow> parent_of x st' = parent_of x st)"

lemma calm_moves: "calm st st' \<Longrightarrow> moves A st st'"
  by (simp add: calm_def moves_def parent_of_def)

lemma moves_trans: "moves A a b \<Longrightarrow> moves B b c \<Longrightarrow> A \<union> B \<subseteq> C \<Longrightarrow> moves C a c"
  unfolding moves_def using keeps_trans by (metis Un_iff subsetD)

lemma moves_outside: "moves A st st' \<Longrightarrow> x \<notin> A \<Longrightarrow> parent_of x st' = parent_of x st"
  by (simp add: moves_def)

lemma moves_keeps: "moves A st st' \<Longrightarrow> keeps st st'"
  by (simp add: moves_def)

lemma set_parent_moves: "moves {c} st (set_parent p c st)"
  by (simp add: moves_def keeps_def menu_id_def set_parent_def upd_menu_def parent_of_def)

lemma set_parent_of [simp]: "parent_of x (set_parent p c st) = (if x = c then Some p else parent_of x st)"
  by (simp add: set_parent_def upd_menu_def parent_of_def)

lemma set_parents_moves: "moves (set cs) st (fold (set_parent p) cs st)"
proof (induction cs arbitrary: st)
  case (Cons c cs)
  then show ?case
    using moves_trans[OF set_parent_moves Cons.IH, of c "set (c # cs)"] by simp
qed (simp add: moves_def)

lemma set_parents_of: "parent_of x (fold (set_parent p) cs st) = (if x \<in> set cs then Some p else parent_of x st)"
  by (induction cs arbitrary: st) auto

lemma entry_in_preorder [simp]: "entry t \<in> set (preorder t)"
  by (cases t) simp

lemma preorder_entry: "preorder t = entry t # entries (menu_list t)"
  by (cases t) simp

lemma linked_outside:
  assumes "\<forall>x \<in> set (entries (menu_list t)). parent_of x st' = parent_of x st"
  shows "linked st' t = linked st t"
  using assms
proof (induction t)
  case (Entry m ts)
  have "linked st' u = linked st u \<and> parent_of (entry u) st' = parent_of (entry u) st" if "u \<in> set ts" for u
  proof -
    have "set (preorder u) \<subseteq> set (entries ts)"
      using that by auto
    then have "\<forall>x \<in> set (preorder u). parent_of x st' = parent_of x st"
      using Entry.prems by auto
    then show ?thesis
      using Entry.IH[OF that] by (simp add: preorder_entry[of u])
  qed
  then show ?case
    by simp
qed

lemma linked_moves:
  assumes "moves A st st'" and "set (preorder t) \<inter> A = {}"
  shows "linked st' t = linked st t" and "parent_of (entry t) st' = parent_of (entry t) st"
proof -
  have "parent_of x st' = parent_of x st" if "x \<in> set (preorder t)" for x
    using that assms by (auto intro: moves_outside)
  then show "linked st' t = linked st t" "parent_of (entry t) st' = parent_of (entry t) st"
    by (simp_all add: linked_outside preorder_entry[of t])
qed

subsection \<open>The shape after a step\<close>

lemma top_entries: "x \<in> entry ` set us \<Longrightarrow> \<exists>u \<in> set us. x \<in> set (preorder u)"
  using entry_in_preorder by blast

lemma top_entries_subset: "set (map entry us) \<subseteq> set (entries us)"
  using top_entries[of _ us] by auto

lemma inner_entries:
  assumes "distinct (entries (cs @ ts))" and "t \<in> set cs"
  shows "set (entries (menu_list t)) \<inter> set (map entry cs) = {}"
proof -
  obtain xs ys where cs: "cs = xs @ t # ys"
    using assms(2) by (meson split_list)
  have "entries (cs @ ts) = entries xs @ (entry t # entries (menu_list t)) @ entries ys @ entries ts"
    by (simp add: cs preorder_entry[of t])
  then have "set (entries (menu_list t)) \<inter> (set (entries xs) \<union> {entry t} \<union> set (entries ys)) = {}"
    using assms(1) by (simp only: distinct_append distinct.simps set_append set_simps) blast
  moreover have "set (map entry cs) \<subseteq> set (entries xs) \<union> {entry t} \<union> set (entries ys)"
    using top_entries_subset[of xs] top_entries_subset[of ys] by (auto simp: cs)
  ultimately show ?thesis
    by blast
qed

text \<open>An entry whose part of the tree is in order, below the entry \<open>m\<close>.\<close>

definition placed :: "nat \<Rightarrow> menu_world \<Rightarrow> tree \<Rightarrow> bool" where
  "placed m st t \<longleftrightarrow> parent_of (entry t) st = Some m \<and> linked st t \<and> all_prompted st t"

lemma placed_moves:
  assumes "moves A st st'" and "set (preorder t) \<inter> A = {}" and "valid_prompts st"
  shows "placed m st' t = placed m st t"
  using linked_moves[OF assms(1,2)] keeps_settled(2)[OF moves_keeps[OF assms(1)] assms(3)]
  by (simp add: placed_def)

lemma settle_children_moves:
  "settle_children m ts st = Some (us, st') \<Longrightarrow> moves (set (entries ts)) st st'"
proof (induction m ts st arbitrary: us st' rule: settle_children.induct)
  case (2 m c cs ts st)
  from 2(3) show ?case
  proof (cases rule: settle_children_cases)
    case (dissolve st1 vs)
    have "moves (set (entries (cs @ ts))) (fold (set_parent m) (map entry cs) st1) st'"
      using 2(1)[OF dissolve(1) _ dissolve(4)] dissolve(2,3) by simp
    moreover have "set (map entry cs) \<subseteq> set (entries (cs @ ts))"
      using top_entries[of _ cs] by auto
    ultimately have "moves (set (entries (cs @ ts))) st1 st'"
      using moves_trans[OF set_parents_moves] by blast
    then show ?thesis
      by (rule moves_trans[OF calm_moves[OF settle_value_calm[OF dissolve(1)], of "{}"]]) auto
  next
    case (keep st1 vs)
    have "moves (set (entries ts)) st1 st'"
      using 2(2)[OF keep(1) _ keep(3)] keep(2) by auto
    then show ?thesis
      by (rule moves_trans[OF calm_moves[OF settle_value_calm[OF keep(1)], of "{}"]]) auto
  qed
qed (simp add: moves_def)

lemma settle_children_shape:
  assumes "settle_children m ts st = Some (us, st')" and "valid_prompts st"
    and "distinct (entries ts)" and "\<forall>t \<in> set ts. placed m st t"
  shows "\<forall>u \<in> set us. placed m st' u \<and> prompted st' u"
  using assms
proof (induction m ts st arbitrary: us st' rule: settle_children.induct)
  case (2 m c cs ts st)
  have d: "distinct (entries (cs @ ts))" "c \<notin> set (entries (cs @ ts))"
    using 2(5) by auto
  from 2(3) show ?case
  proof (cases rule: settle_children_cases)
    case (dissolve st1 vs)
    let ?st2 = "fold (set_parent m) (map entry cs) st1"
    have calm1: "calm st st1"
      using dissolve(1) by (rule settle_value_calm)
    have v1: "valid_prompts st1"
      using keeps_valid[OF calm_keeps[OF calm1] 2(4)] .
    have p1: "placed m st1 t = placed m st t" for t
      using placed_moves[OF calm_moves[OF calm1, of "{}"]] 2(4) by simp
    have m2: "moves (set (map entry cs)) st1 ?st2"
      by (rule set_parents_moves)
    have v2: "valid_prompts ?st2"
      using keeps_valid[OF moves_keeps[OF m2] v1] .
    have kids: "placed m ?st2 t" if "t \<in> set cs" for t
    proof -
      have "linked st t" "all_prompted st t"
        using that 2(6) by (auto simp: placed_def)
      then have t: "linked st1 t" "all_prompted st1 t"
        using linked_moves(1)[OF calm_moves[OF calm1, of "{}"]] keeps_settled(2)[OF calm_keeps[OF calm1] 2(4)]
        by simp_all
      have "set (entries (menu_list t)) \<inter> set (map entry cs) = {}"
        using d(1) that by (rule inner_entries)
      then have "linked ?st2 t"
        using linked_outside[of t ?st2 st1] t(1) moves_outside[OF m2] by fastforce
      then show ?thesis
        using t(2) keeps_settled(2)[OF moves_keeps[OF m2] v1] that
        by (simp add: placed_def set_parents_of)
    qed
    have rest: "placed m ?st2 t" if "t \<in> set ts" for t
    proof -
      have "set (preorder t) \<inter> set (map entry cs) = {}"
        using d(1) that top_entries[of _ cs] by fastforce
      then show ?thesis
        using placed_moves[OF m2 _ v1] p1 2(6) that by simp
    qed
    have vs: "\<forall>u \<in> set vs. placed m st' u \<and> prompted st' u"
      using 2(1)[OF dissolve(1) _ dissolve(4) v2 d(1)] dissolve(2,3) kids rest by auto
    have "moves (set (entries (cs @ ts))) ?st2 st'"
      using dissolve(4) by (rule settle_children_moves)
    then have "parent_of c st' = parent_of c ?st2"
      using d(2) by (rule moves_outside)
    also have "\<dots> = Some m"
      using 2(6) moves_outside[OF calm_moves[OF calm1, of "{}"]] by (simp add: set_parents_of placed_def)
    finally show ?thesis
      using vs dissolve(5) by (simp add: placed_def prompted_def)
  next
    case (keep st1 vs)
    have calm1: "calm st st1"
      using keep(1) by (rule settle_value_calm)
    have v1: "valid_prompts st1"
      using keeps_valid[OF calm_keeps[OF calm1] 2(4)] .
    have p1: "placed m st1 t = placed m st t" for t
      using placed_moves[OF calm_moves[OF calm1, of "{}"]] 2(4) by simp
    have m2: "moves (set (entries ts)) st1 st'"
      using keep(3) by (rule settle_children_moves)
    have vs: "\<forall>u \<in> set vs. placed m st' u \<and> prompted st' u"
      using 2(2)[OF keep(1) _ keep(3) v1] keep(2) d(1) p1 2(6) by auto
    have "set (preorder (Entry c cs)) \<inter> set (entries ts) = {}"
      using d by auto
    then have "placed m st' (Entry c cs)"
      using placed_moves[OF m2 _ v1] p1 2(6) by simp
    moreover have "prompted st' (Entry c cs)"
      using keep(2) keeps_has_text[OF moves_keeps[OF m2] v1] by (simp add: prompted_def)
    ultimately show ?thesis
      using vs keep(4) by simp
  qed
qed simp

subsection \<open>The shape after menu_finalize\<close>

lemma finalize_one:
  assumes "menu_finalize (Finalize t ts) st = Some (us, rest, st')"
  obtains vs where "us = [Entry (entry t) vs]"
proof (cases t)
  case (Entry m cs)
  from assms[unfolded Entry] show ?thesis
    by (cases rule: finalize_entry_cases) (use that Entry in auto)
qed

lemma finalize_suffix:
  "menu_finalize task st = Some (us, rest, st') \<Longrightarrow> set rest \<subseteq> set (task_rest task)"
proof (induction task st arbitrary: us rest st' rule: menu_finalize.induct)
  case (1 m ts fs st)
  from 1(3) show ?case
    by (cases rule: finalize_entry_cases) (use 1(2) in fastforce)+
next
  case (3 t ts st)
  then show ?case
    by (metis children_rest empty_set empty_subsetI)
next
  case (5 m s base t ts st)
  from 5(3) show ?case
  proof (cases rule: finalize_following_cases)
    case (below b vs r st1 ws)
    have "set r \<subseteq> set ts" "set rest \<subseteq> set r"
      using 5(1)[OF below(1,2,3)] 5(2)[OF below(1,2,3) refl refl below(4)] by simp_all
    then show ?thesis
      by auto
  qed simp
qed auto

lemma calm_on_symbol: "calm st (on_mw (upd_sym s (or_dir_dep e)) st)"
  by (rule calm_on_mw) (rule grows_intros)

fun task_moved :: "finalize_task \<Rightarrow> tree list \<Rightarrow> nat set" where
  "task_moved (Finalize t ts) us = set (entries (menu_list (hd us)))"
| "task_moved task us = set (entries us)"

lemma finalize_moves:
  "menu_finalize task st = Some (us, rest, st') \<Longrightarrow> moves (task_moved task us) st st'"
proof (induction task st arbitrary: us rest st' rule: menu_finalize.induct)
  case (1 m ts fs st)
  from 1(3) show ?case
  proof (cases rule: finalize_entry_cases)
    case (children st1 vs r st2 ws st3)
    have e: "set (entries ws) = set (entries vs)"
      using settle_children_order[OF children(4)] by simp
    have "moves (set (entries vs)) st1 st2"
      using 1(1)[OF children(1,2,3)] by simp
    then have "moves (set (entries vs)) st st2"
      by (rule moves_trans[OF calm_moves[OF prepare_children_calm[OF children(2)], of "{}"]]) simp
    then have "moves (set (entries vs)) st st3"
      by (rule moves_trans[OF _ settle_children_moves[OF children(4)]]) simp
    then have "moves (set (entries vs)) st st'"
      by (rule moves_trans[OF _ calm_moves[OF finish_entry_calm[OF children(5)], of "{}"]]) simp
    then show ?thesis
      using e children(6) by simp
  next
    case (leaf ws st3)
    have "moves {} st st3"
      using settle_children_moves[OF leaf(3)] by simp
    then have "moves {} st st'"
      by (rule moves_trans[OF _ calm_moves[OF finish_entry_calm[OF leaf(4)], of "{}"]]) simp
    then show ?thesis
      by (auto simp: moves_def)
  next
    case (submenu s base vs st1 ws st3)
    have e: "set (entries ws) = set (entries vs)"
      using settle_children_order[OF submenu(5)] by simp
    have "moves (set (entries vs)) st st1"
      using 1(2)[OF _ submenu(2,3,4)] submenu(1) by simp
    then have "moves (set (entries vs)) st (on_mw (upd_sym s (or_dir_dep (menu_dep (menus st1 m)))) st1)"
      by (rule moves_trans[OF _ calm_moves[OF calm_on_symbol, of "{}"]]) simp
    then have "moves (set (entries vs)) st st3"
      by (rule moves_trans[OF _ settle_children_moves[OF submenu(5)]]) simp
    then have "moves (set (entries vs)) st st'"
      by (rule moves_trans[OF _ calm_moves[OF finish_entry_calm[OF submenu(6)], of "{}"]]) simp
    then show ?thesis
      using e submenu(7) by simp
  qed
next
  case (3 t ts st)
  from 3(3) show ?case
  proof (cases rule: finalize_children_cases)
    case (1 vs r st1 ws)
    obtain xs where vs: "vs = [Entry (entry t) xs]"
      using 1(1) by (rule finalize_one)
    have "moves (set (entries xs)) st st1"
      using 3(1)[OF 1(1)] vs by simp
    then show ?thesis
      by (rule moves_trans[OF _ 3(2)[OF 1(1) refl refl 1(2)]]) (use 1(3) vs in auto)
  qed
next
  case (5 m s base t ts st)
  from 5(3) show ?case
  proof (cases rule: finalize_following_cases)
    case (below b vs r st1 ws)
    obtain xs where vs: "vs = [Entry (entry t) xs]"
      using below(3) by (rule finalize_one)
    have "moves (set (entries xs)) st st1"
      using 5(1)[OF below(1,2,3)] vs by simp
    then have "moves (set (entries vs)) st (set_parent m (entry t) st1)"
      by (rule moves_trans[OF _ set_parent_moves]) (use vs in auto)
    then show ?thesis
      by (rule moves_trans[OF _ 5(2)[OF below(1,2,3) refl refl below(4)]]) (use below(5) in auto)
  qed (simp add: moves_def)
qed (auto simp: moves_def)

fun task_ready :: "nat \<Rightarrow> finalize_task \<Rightarrow> menu_world \<Rightarrow> bool" where
  "task_ready p (Finalize t ts) st \<longleftrightarrow> (\<forall>u \<in> set (t # ts). linked st u)"
| "task_ready p (Children ts) st \<longleftrightarrow> (\<forall>u \<in> set ts. linked st u \<and> parent_of (entry u) st = Some p)"
| "task_ready p (Following m s base ts) st \<longleftrightarrow> (\<forall>u \<in> set ts. linked st u)"

fun task_done :: "nat \<Rightarrow> finalize_task \<Rightarrow> menu_world \<Rightarrow> tree list \<Rightarrow> bool" where
  "task_done p (Finalize t ts) st us \<longleftrightarrow> (\<forall>u \<in> set us. linked st u \<and> all_prompted st u)"
| "task_done p (Children ts) st us \<longleftrightarrow> (\<forall>u \<in> set us. placed p st u)"
| "task_done p (Following m s base ts) st us \<longleftrightarrow> (\<forall>u \<in> set us. placed m st u)"

lemma calm_linked: "calm a b \<Longrightarrow> linked b t = linked a t" "calm a b \<Longrightarrow> parent_of x b = parent_of x a"
  using linked_moves(1)[OF calm_moves[of a b "{}"]] by (simp_all add: calm_def parent_of_def)

lemma calm_valid: "calm a b \<Longrightarrow> valid_prompts a \<Longrightarrow> valid_prompts b"
  using keeps_valid calm_keeps by blast

lemma calm_settled: "calm a b \<Longrightarrow> valid_prompts a \<Longrightarrow> all_prompted b t = all_prompted a t \<and> prompted b t = prompted a t"
  using keeps_settled calm_keeps by blast

lemma calm_placed: "calm a b \<Longrightarrow> valid_prompts a \<Longrightarrow> placed m b t = placed m a t"
  using calm_linked calm_settled by (simp add: placed_def)

text \<open>The end of an entry, once the entries below it are in place.\<close>

lemma settle_finish_shape:
  assumes "settle_children m vs st = Some (ws, st1)" and "finish_entry m st1 = Some st'"
    and "valid_prompts st" and "distinct (entries vs)" and "\<forall>v \<in> set vs. placed m st v"
  shows "linked st' (Entry m ws)" and "all_prompted st' (Entry m ws)"
proof -
  have "\<forall>u \<in> set ws. placed m st1 u \<and> prompted st1 u"
    using settle_children_shape[OF assms(1,3-5)] .
  moreover have "valid_prompts st1"
    using keeps_valid[OF moves_keeps[OF settle_children_moves[OF assms(1)]] assms(3)] .
  moreover have "calm st1 st'"
    using assms(2) by (rule finish_entry_calm)
  ultimately have "\<forall>u \<in> set ws. placed m st' u \<and> prompted st' u"
    using calm_placed calm_settled by simp
  then show "linked st' (Entry m ws)" "all_prompted st' (Entry m ws)"
    by (simp_all add: placed_def)
qed

text \<open>The first entry of a row, finalized; the entries that it left behind are as they were.\<close>

lemma finalize_first:
  assumes fin: "menu_finalize (Finalize t ts) st = Some ([Entry (entry t) xs], r, st1)"
    and d: "distinct (preorder t @ entries ts)" and l: "\<forall>u \<in> set ts. linked st u"
  shows "entry t \<notin> set (entries xs)" "parent_of (entry t) st1 = parent_of (entry t) st"
    and "distinct (entries r)" "set (preorder (Entry (entry t) xs)) \<inter> set (entries r) = {}"
    and "\<And>u. u \<in> set r \<Longrightarrow> linked st1 u" "\<And>u. u \<in> set r \<Longrightarrow> parent_of (entry u) st1 = parent_of (entry u) st"
    and "\<And>u. u \<in> set r \<Longrightarrow> u \<in> set ts"
proof -
  have o: "(entry t # entries xs) @ entries r = preorder t @ entries ts"
    using finalize_order[OF fin] by simp
  then have d2: "distinct ((entry t # entries xs) @ entries r)"
    using d by simp
  then show "entry t \<notin> set (entries xs)" "distinct (entries r)"
    "set (preorder (Entry (entry t) xs)) \<inter> set (entries r) = {}"
    by auto
  have m: "moves (set (entries xs)) st st1"
    using finalize_moves[OF fin] by simp
  then show "parent_of (entry t) st1 = parent_of (entry t) st"
    using d2 by (auto intro: moves_outside)
  show sub: "u \<in> set ts" if "u \<in> set r" for u
    using finalize_suffix[OF fin] that by auto
  show "linked st1 u" "parent_of (entry u) st1 = parent_of (entry u) st" if "u \<in> set r" for u
  proof -
    have "set (preorder u) \<inter> set (entries xs) = {}"
      using d2 that by auto
    then show "linked st1 u" "parent_of (entry u) st1 = parent_of (entry u) st"
      using linked_moves[OF m] l sub[OF that] by auto
  qed
qed

lemma finalize_shape:
  assumes "menu_finalize task st = Some (us, rest, st')" and "valid_prompts st"
    and "distinct (task_entries task)" and "task_ready p task st"
  shows "task_done p task st' us"
  using assms
proof (induction task st arbitrary: us rest st' p rule: menu_finalize.induct)
  case (1 m ts fs st)
  from 1(3) show ?case
  proof (cases rule: finalize_entry_cases)
    case (children st1 vs r st2 ws st3)
    have c: "calm st st1"
      using children(2) by (rule prepare_children_calm)
    have "\<forall>v \<in> set vs. placed m st2 v"
      using 1(1)[OF children(1-3) calm_valid[OF c 1(4)], of m] 1(5,6) calm_linked[OF c] by simp
    moreover have "valid_prompts st2"
      using keeps_valid[OF moves_keeps[OF finalize_moves[OF children(3)]] calm_valid[OF c 1(4)]] .
    moreover have "distinct (entries vs)"
      using finalize_order[OF children(3)] children_rest[OF children(3)] 1(5) by simp
    ultimately show ?thesis
      using settle_finish_shape[OF children(4,5)] children(6) by simp
  next
    case (leaf ws st3)
    then show ?thesis
      using settle_finish_shape[OF leaf(3,4) 1(4)] by simp
  next
    case (submenu s base vs st1 ws st3)
    have d: "distinct (entries fs)"
      using 1(5) by simp
    have "\<forall>v \<in> set vs. placed m st1 v"
      using 1(2)[OF _ submenu(2-4) 1(4), of m] submenu(1) 1(6) d by simp
    moreover have v: "valid_prompts st1"
      using keeps_valid[OF moves_keeps[OF finalize_moves[OF submenu(4)]] 1(4)] .
    moreover have "distinct (entries vs)"
      using finalize_order[OF submenu(4)] d by (metis distinct_append task_entries.simps(3))
    ultimately show ?thesis
      using settle_finish_shape[OF submenu(5,6)] submenu(7) calm_placed[OF calm_on_symbol v]
        calm_valid[OF calm_on_symbol v] by simp
  qed
next
  case (3 t ts st)
  from 3(3) show ?case
  proof (cases rule: finalize_children_cases)
    case (1 vs r st1 ws)
    obtain xs where vs: "vs = [Entry (entry t) xs]"
      using 1(1) by (rule finalize_one)
    have d: "distinct (preorder t @ entries ts)" and l: "\<forall>u \<in> set ts. linked st u"
      using 3(5,6) by auto
    note first = finalize_first[OF 1(1)[unfolded vs] d l]
    have "linked st1 (Entry (entry t) xs)" "all_prompted st1 (Entry (entry t) xs)"
      using 3(1)[OF 1(1) 3(4), of p] d 3(6) vs by simp_all
    then have t1: "placed p st1 (Entry (entry t) xs)"
      using first(2) 3(6) by (simp add: placed_def)
    have v1: "valid_prompts st1"
      using keeps_valid[OF moves_keeps[OF finalize_moves[OF 1(1)]] 3(4)] .
    have "\<forall>u \<in> set ws. placed p st' u"
      using 3(2)[OF 1(1) refl refl 1(2) v1, of p] first(3,5,6,7) 3(6) by simp
    moreover have "placed p st' (Entry (entry t) xs)"
    proof -
      have "set (entries ws) \<subseteq> set (entries r)"
        using finalize_order[OF 1(2)] by (metis Un_upper1 set_append task_entries.simps(2))
      then have "set (preorder (Entry (entry t) xs)) \<inter> set (entries ws) = {}"
        using first(4) by blast
      moreover have "moves (set (entries ws)) st1 st'"
        using finalize_moves[OF 1(2)] by simp
      ultimately show ?thesis
        using placed_moves v1 t1 by blast
    qed
    ultimately show ?thesis
      using 1(3) vs by simp
  qed
next
  case (5 m s base t ts st)
  from 5(3) show ?case
  proof (cases rule: finalize_following_cases)
    case (below b vs r st1 ws)
    let ?st2 = "set_parent m (entry t) st1"
    obtain xs where vs: "vs = [Entry (entry t) xs]"
      using below(3) by (rule finalize_one)
    have d: "distinct (preorder t @ entries ts)" and l: "\<forall>u \<in> set ts. linked st u"
      using 5(5,6) by auto
    note first = finalize_first[OF below(3)[unfolded vs] d l]
    have v1: "valid_prompts st1"
      using keeps_valid[OF moves_keeps[OF finalize_moves[OF below(3)]] 5(4)] .
    have v2: "valid_prompts ?st2"
      using keeps_valid[OF moves_keeps[OF set_parent_moves] v1] .
    have "linked st1 (Entry (entry t) xs)" "all_prompted st1 (Entry (entry t) xs)"
      using 5(1)[OF below(1-3) 5(4), of p] d 5(6) vs by simp_all
    moreover have "linked ?st2 (Entry (entry t) xs) = linked st1 (Entry (entry t) xs)"
      by (rule linked_outside) (use first(1) in auto)
    moreover have "all_prompted ?st2 (Entry (entry t) xs) = all_prompted st1 (Entry (entry t) xs)"
      using keeps_settled(2)[OF moves_keeps[OF set_parent_moves] v1] .
    ultimately have t2: "placed m ?st2 (Entry (entry t) xs)"
      unfolding placed_def by (simp del: linked.simps all_prompted.simps)
    have "linked ?st2 u" if "u \<in> set r" for u
    proof -
      have "set (preorder u) \<inter> {entry t} = {}"
        using first(4) that by auto
      then show ?thesis
        using linked_moves(1)[OF set_parent_moves] first(5)[OF that] by blast
    qed
    then have "\<forall>u \<in> set ws. placed m st' u"
      using 5(2)[OF below(1-3) refl refl below(4) v2, of p] first(3) by simp
    moreover have "placed m st' (Entry (entry t) xs)"
    proof -
      have "set (entries ws) \<subseteq> set (entries r)"
        using finalize_order[OF below(4)] by (metis Un_upper1 set_append task_entries.simps(3))
      then have "set (preorder (Entry (entry t) xs)) \<inter> set (entries ws) = {}"
        using first(4) by blast
      moreover have "moves (set (entries ws)) ?st2 st'"
        using finalize_moves[OF below(4)] by simp
      ultimately show ?thesis
        using placed_moves v2 t2 by blast
    qed
    ultimately show ?thesis
      using below(5) vs by simp
  qed simp
qed auto

end
