(* ===== verification/Kconf_Walk.thy ===== *)
theory Kconf_Walk
  imports Kconf_Menu Kmenu_Order
begin

text \<open>
  The walk of \<open>conf_write\<close> and \<open>conf_write_defconfig\<close> along the pointers is the recursion over
  the tree: it ends and visits every entry below the root once, in the order of the statements.
\<close>

subsection \<open>The recursion\<close>

text \<open>An entry, what is below it, and what is done on the way up from there.\<close>

fun visit_tree :: "(nat \<Rightarrow> 'w \<Rightarrow> 'w option) \<Rightarrow> (nat \<Rightarrow> 'w \<Rightarrow> 'w option) \<Rightarrow> tree \<Rightarrow> 'w \<Rightarrow> 'w option"
and visit_trees :: "(nat \<Rightarrow> 'w \<Rightarrow> 'w option) \<Rightarrow> (nat \<Rightarrow> 'w \<Rightarrow> 'w option) \<Rightarrow> tree list \<Rightarrow> 'w \<Rightarrow> 'w option" where
  "visit_tree visit close (Entry m ts) x = do {
     x \<leftarrow> visit m x;
     x \<leftarrow> visit_trees visit close ts x;
     if ts = [] then Some x else close m x }"
| "visit_trees visit close [] x = Some x"
| "visit_trees visit close (t # ts) x = do { x \<leftarrow> visit_tree visit close t x; visit_trees visit close ts x }"

lemma each_append: "each f (xs @ ys) x = do { x \<leftarrow> each f xs x; each f ys x }"
  by (induction xs arbitrary: x) (auto split: Option.bind_splits)

text \<open>Without anything to do on the way up it goes through the list of the entries.\<close>

lemma visit_each:
  assumes "\<And>m x. close m x = Some x"
  shows "visit_tree visit close t x = each visit (preorder t) x"
    and "visit_trees visit close ts x = each visit (entries ts) x"
  by (induction t and ts arbitrary: x and x rule: tree_list_induct)
    (auto simp: each_append assms split: Option.bind_splits)

subsection \<open>Entries in the tree\<close>

text \<open>The subtree \<open>u\<close> occurs in the tree.\<close>

inductive below :: "tree \<Rightarrow> tree \<Rightarrow> bool" where
  below_refl: "below t t"
| below_child: "below (Entry m ts) t \<Longrightarrow> u \<in> set ts \<Longrightarrow> below u t"

lemma below_entries: "below u t \<Longrightarrow> set (preorder u) \<subseteq> set (preorder t)"
  by (induction rule: below.induct) auto

lemma below_distinct: "below u t \<Longrightarrow> distinct (preorder t) \<Longrightarrow> distinct (preorder u)"
proof (induction rule: below.induct)
  case (below_child m ts t u)
  then have "distinct (entries ts)"
    by simp
  then show ?case
    using below_child(2) by (auto simp: distinct_concat_iff)
qed

lemma below_linked: "below u t \<Longrightarrow> linked st t \<Longrightarrow> linked st u"
  by (induction rule: below.induct) auto

lemma below_trans:
  assumes "below u v" and "below v t"
  shows "below u t"
  using assms by (induction rule: below.induct) (auto intro: below.intros)

lemma below_cases: "below u (Entry m ts) \<Longrightarrow> u = Entry m ts \<or> (\<exists>t \<in> set ts. below u t)"
proof (induction u "Entry m ts" rule: below.induct)
  case (below_child k us u)
  then show ?case
    by (auto intro: below.intros)
qed simp

lemma find_outside:
  "x \<notin> set (preorder t) \<Longrightarrow> find_entry x t = None" "x \<notin> set (entries ts) \<Longrightarrow> find_in x ts = None"
  by (induction x t and x ts rule: find_entry_find_in.induct) auto

lemma member_entries: "t \<in> set ts \<Longrightarrow> x \<in> set (preorder t) \<Longrightarrow> x \<in> set (entries ts)"
  by auto

lemma distinct_first: "distinct (preorder a @ xs) \<Longrightarrow> x \<in> set xs \<Longrightarrow> x \<notin> set (preorder a)"
  by auto

lemma distinct_rest: "distinct (preorder a @ xs) \<Longrightarrow> x \<in> set (preorder a) \<Longrightarrow> x \<notin> set xs"
  by auto

lemma entries_Cons: "entries (t # ts) = preorder t @ entries ts"
  by simp

lemma find_in_member:
  "distinct (entries ts) \<Longrightarrow> t \<in> set ts \<Longrightarrow> x \<in> set (preorder t) \<Longrightarrow> find_in x ts = find_entry x t"
proof (induction ts)
  case (Cons a ts)
  show ?case
  proof (cases "t = a")
    case True
    have "x \<notin> set (entries ts)"
      using distinct_rest[OF Cons.prems(1)[unfolded entries_Cons]] Cons.prems(3) True by blast
    then show ?thesis
      using True by (auto simp: find_outside split: option.split)
  next
    case False
    then have m: "t \<in> set ts"
      using Cons.prems by simp
    then have "x \<notin> set (preorder a)"
      using distinct_first[OF Cons.prems(1)[unfolded entries_Cons]] member_entries[OF m Cons.prems(3)] by blast
    then show ?thesis
      using Cons m by (simp add: find_outside)
  qed
qed simp

lemma below_inside: "below u t \<Longrightarrow> entry u \<in> set (preorder t)"
  using below_entries entry_in_preorder by blast

lemma find_below: "below u t \<Longrightarrow> distinct (preorder t) \<Longrightarrow> find_entry (entry u) t = Some u"
proof (induction t arbitrary: u)
  case (Entry m ts)
  show ?case
  proof (cases "u = Entry m ts")
    case False
    then obtain t where t: "t \<in> set ts" "below u t"
      using below_cases[OF Entry.prems(1)] by blast
    have d: "distinct (entries ts)" "m \<notin> set (entries ts)"
      using Entry.prems(2) by simp_all
    have i: "entry u \<in> set (preorder t)"
      by (rule below_inside[OF t(2)])
    then have "entry u \<noteq> m"
      using d(2) t(1) by auto
    moreover have "distinct (preorder t)"
      using d(1) t(1) by (auto simp: distinct_concat_iff)
    ultimately show ?thesis
      using Entry.IH[OF t] find_in_member[OF d(1) t(1) i] by simp
  qed simp
qed

lemma next_outside:
  "x \<notin> set (preorder t) \<Longrightarrow> next_entry x t = None" "x \<notin> set (entries ts) \<Longrightarrow> next_among x ts = None"
  by (induction x t and x ts rule: next_entry_next_among.induct) auto

lemma next_among_here:
  "distinct (entries (ts @ t # us)) \<Longrightarrow>
     next_among (entry t) (ts @ t # us) = (case us of [] \<Rightarrow> None | u # _ \<Rightarrow> Some (entry u))"
proof (induction ts)
  case (Cons a ts)
  have "entry t \<notin> set (preorder a)"
    using distinct_first[of a "entries (ts @ t # us)" "entry t"] member_entries[of t "ts @ t # us" "entry t"]
      Cons.prems by simp
  moreover have "entry a \<in> set (preorder a)"
    by simp
  ultimately have "entry a \<noteq> entry t"
    by metis
  then show ?case
    using Cons next_outside(1)[OF \<open>entry t \<notin> set (preorder a)\<close>] by simp
qed simp

lemma next_among_member:
  "distinct (entries ts) \<Longrightarrow> t \<in> set ts \<Longrightarrow> x \<in> set (preorder t) \<Longrightarrow> x \<noteq> entry t \<Longrightarrow>
     next_among x ts = next_entry x t"
proof (induction ts)
  case (Cons a ts)
  show ?case
  proof (cases "t = a")
    case True
    have "x \<notin> set (entries ts)"
      using distinct_rest[OF Cons.prems(1)[unfolded entries_Cons]] Cons.prems(3) True by blast
    then show ?thesis
      using True Cons.prems(4) by (auto simp: next_outside split: option.split)
  next
    case False
    then have m: "t \<in> set ts"
      using Cons.prems by simp
    then have o: "x \<notin> set (preorder a)"
      using distinct_first[OF Cons.prems(1)[unfolded entries_Cons]] member_entries[OF m Cons.prems(3)] by blast
    then have "entry a \<noteq> x"
      by (metis entry_in_preorder)
    then show ?thesis
      using Cons m o by (simp add: next_outside)
  qed
qed simp

text \<open>The entry behind a child of an entry of the tree.\<close>

lemma next_below:
  "below (Entry p (ts @ t # us)) T \<Longrightarrow> distinct (preorder T) \<Longrightarrow>
     next_entry (entry t) T = (case us of [] \<Rightarrow> None | u # _ \<Rightarrow> Some (entry u))"
proof (induction T)
  case (Entry m vs)
  have d: "distinct (entries vs)"
    using Entry.prems(2) by simp
  show ?case
  proof (cases "Entry p (ts @ t # us) = Entry m vs")
    case True
    then show ?thesis
      using next_among_here[of ts t us] d by simp
  next
    case False
    then obtain v where v: "v \<in> set vs" "below (Entry p (ts @ t # us)) v"
      using below_cases[OF Entry.prems(1)] by blast
    have dv: "distinct (preorder v)"
      using d v(1) by (auto simp: distinct_concat_iff)
    have b: "below t v"
      by (rule below_child[OF v(2)]) simp
    have "entry t \<noteq> entry v"
    proof
      assume "entry t = entry v"
      then have "t = v"
        using find_below[OF b dv] find_below[OF below_refl dv] by (metis option.inject)
      then have "set (preorder (Entry p (ts @ t # us))) \<subseteq> set (preorder t)"
        using below_entries[OF v(2)] by simp
      then have "p \<in> set (preorder t)"
        by simp
      moreover have "p \<notin> set (preorder t)"
        using below_distinct[OF v(2) dv] by simp
      ultimately show False
        by contradiction
    qed
    then show ?thesis
      using Entry.IH[OF v(1) v(2) dv] next_among_member[OF d v(1) below_inside[OF b]] by simp
  qed
qed

lemma first_below: "below u T \<Longrightarrow> distinct (preorder T) \<Longrightarrow>
    first_child (entry u) T = (case menu_list u of [] \<Rightarrow> None | c # _ \<Rightarrow> Some (entry c))"
  by (simp add: first_child_def find_below split: list.split)

lemma next_root: "distinct (preorder T) \<Longrightarrow> next_entry (entry T) T = None"
  by (cases T) (simp add: next_outside)

subsection \<open>The walk\<close>

text \<open>The tree and the links to the parents are the same.\<close>

definition same_place :: "menu_world \<Rightarrow> menu_world \<Rightarrow> bool" where
  "same_place a b \<longleftrightarrow> menu_tree b = menu_tree a \<and> (\<forall>m. parent_of m b = parent_of m a)"

lemma same_place_refl [simp]: "same_place a a"
  by (simp add: same_place_def)

lemma same_place_trans: "same_place a b \<Longrightarrow> same_place b c \<Longrightarrow> same_place a c"
  by (simp add: same_place_def)

lemma same_place_mw [simp]:
  "same_place a (st\<lparr>mw := w\<rparr>) = same_place a st" "same_place a (on_mw f st) = same_place a st"
  by (simp_all add: same_place_def parent_of_def on_mw_def)

lemma same_place_linked: "same_place a b \<Longrightarrow> linked b t = linked a t"
  by (induction t) (simp add: same_place_def)

text \<open>The links and the numbers of the tree fit.\<close>

definition well_linked :: "menu_world \<Rightarrow> bool" where
  "well_linked st \<longleftrightarrow>
     distinct (preorder (menu_tree st)) \<and> linked st (menu_tree st) \<and> entry (menu_tree st) = rootmenu \<and>
     parent_of rootmenu st = None"

lemma same_place_well_linked: "same_place a b \<Longrightarrow> well_linked b = well_linked a"
  using same_place_linked[of a b "menu_tree a"] by (auto simp: well_linked_def same_place_def)

text \<open>The body of a walk leaves the tree alone.\<close>

locale menu_walk =
  fixes visit close :: "nat \<Rightarrow> 'w \<Rightarrow> 'w option" and at :: "'w \<Rightarrow> menu_world"
  assumes visit_place: "visit m x = Some y \<Longrightarrow> same_place (at x) (at y)"
    and close_place: "close m x = Some y \<Longrightarrow> same_place (at x) (at y)"
begin

lemma visit_tree_place:
  "visit_tree visit close t x = Some y \<Longrightarrow> same_place (at x) (at y)"
  "visit_trees visit close ts x = Some y \<Longrightarrow> same_place (at x) (at y)"
proof (induction t and ts arbitrary: x y and x y rule: tree_list_induct)
  case (1 m ts)
  then obtain x1 x2 where "visit m x = Some x1" "visit_trees visit close ts x1 = Some x2"
    "x2 = y \<or> close m x2 = Some y"
    by (auto split: Option.bind_splits if_splits)
  then show ?case
    using 1(1) visit_place close_place same_place_trans by metis
next
  case (3 t ts)
  then obtain x1 where "visit_tree visit close t x = Some x1" "visit_trees visit close ts x1 = Some y"
    by (auto split: Option.bind_splits)
  then show ?case
    using 3(1,2) same_place_trans by blast
qed simp

text \<open>What follows when an entry and all below it are done.\<close>

definition leave :: "nat \<Rightarrow> 'w \<Rightarrow> 'w option" where
  "leave m x =
     (case next_entry m (menu_tree (at x)) of
        Some n \<Rightarrow> walk visit close at n x
      | None \<Rightarrow> do {
          (r, x) \<leftarrow> climb close at m x;
          case r of None \<Rightarrow> Some x | Some n \<Rightarrow> walk visit close at n x })"

lemma walk_unfold:
  "walk visit close at m x = do {
     x \<leftarrow> visit m x;
     case first_child m (menu_tree (at x)) of Some c \<Rightarrow> walk visit close at c x | None \<Rightarrow> leave m x }"
  unfolding leave_def by (rule walk.simps)

lemma leave_next: "next_entry m (menu_tree (at x)) = Some n \<Longrightarrow> leave m x = walk visit close at n x"
  by (simp add: leave_def)

lemma leave_last:
  assumes "next_entry m (menu_tree (at x)) = None" and "parent_of m (at x) = Some p"
  shows "leave m x = do { x \<leftarrow> close p x; leave p x }"
proof -
  have "climb close at m x = do {
      x \<leftarrow> close p x;
      case next_entry p (menu_tree (at x)) of Some n \<Rightarrow> Some (Some n, x) | None \<Rightarrow> climb close at p x }"
    using assms(2) by (subst climb.simps) (simp add: parent_of_def)
  then show ?thesis
    using assms(1) by (auto simp: leave_def split: Option.bind_split option.split)
qed

lemma leave_root:
  assumes "next_entry m (menu_tree (at x)) = None" and "parent_of m (at x) = None"
  shows "leave m x = Some x"
  using assms by (simp add: leave_def parent_of_def climb.simps[of close at m x])

text \<open>The children behind \<open>ds\<close> of an entry \<open>p\<close>.\<close>

lemma walk_children:
  assumes IH: "\<And>t x. t \<in> set ts \<Longrightarrow> below t (menu_tree (at x)) \<Longrightarrow> well_linked (at x) \<Longrightarrow>
      walk visit close at (entry t) x = do { x \<leftarrow> visit_tree visit close t x; leave (entry t) x }"
    and "ts \<noteq> []" and "below (Entry p (ds @ ts)) (menu_tree (at x))" and "well_linked (at x)"
  shows "walk visit close at (entry (hd ts)) x =
     do { x \<leftarrow> visit_trees visit close ts x; x \<leftarrow> close p x; leave p x }"
  using assms
proof (induction ts arbitrary: ds x)
  case (Cons t ts)
  have b: "below t (menu_tree (at x))"
    by (rule below_child[OF Cons.prems(3)]) simp
  have w: "walk visit close at (entry t) x = do { x \<leftarrow> visit_tree visit close t x; leave (entry t) x }"
    using Cons.prems(1)[of t x] b Cons.prems(4) by simp
  show ?case
  proof (cases "visit_tree visit close t x")
    case None
    then show ?thesis
      using w by simp
  next
    case (Some y)
    then have s: "same_place (at x) (at y)"
      by (rule visit_tree_place)
    then have tr: "menu_tree (at y) = menu_tree (at x)" and wl: "well_linked (at y)"
      using same_place_well_linked Cons.prems(4) by (auto simp: same_place_def)
    have bp: "below (Entry p (ds @ t # ts)) (menu_tree (at y))"
      using Cons.prems(3) tr by simp
    have nx: "next_entry (entry t) (menu_tree (at y)) = (case ts of [] \<Rightarrow> None | u # _ \<Rightarrow> Some (entry u))"
      by (rule next_below[OF bp]) (use wl in \<open>simp add: well_linked_def\<close>)
    show ?thesis
    proof (cases ts)
      case Nil
      have "parent_of (entry t) (at y) = Some p"
        using below_linked[OF bp] wl by (simp add: well_linked_def)
      then show ?thesis
        using w Some Nil nx leave_last by simp
    next
      case (Cons u us)
      have "walk visit close at (entry (hd ts)) y =
         do { x \<leftarrow> visit_trees visit close ts y; x \<leftarrow> close p x; leave p x }"
        by (rule Cons.IH[of "ds @ [t]"]) (use Cons.prems(1) Cons bp wl in auto)
      then show ?thesis
        using w Some Cons nx leave_next by simp
    qed
  qed
qed simp

lemma walk_tree:
  "below t (menu_tree (at x)) \<Longrightarrow> well_linked (at x) \<Longrightarrow>
     walk visit close at (entry t) x = do { x \<leftarrow> visit_tree visit close t x; leave (entry t) x }"
proof (induction t arbitrary: x)
  case (Entry m ts)
  show ?case
  proof (cases "visit m x")
    case None
    then show ?thesis
      by (simp add: walk_unfold[of m x])
  next
    case (Some y)
    then have s: "same_place (at x) (at y)"
      by (rule visit_place)
    then have b: "below (Entry m ([] @ ts)) (menu_tree (at y))" and wl: "well_linked (at y)"
      using same_place_well_linked Entry.prems by (auto simp: same_place_def)
    have f: "first_child m (menu_tree (at y)) = (case ts of [] \<Rightarrow> None | c # _ \<Rightarrow> Some (entry c))"
      using first_below[OF b] wl by (simp add: well_linked_def)
    show ?thesis
    proof (cases ts)
      case Nil
      then show ?thesis
        using Some f by (simp add: walk_unfold[of m x])
    next
      case (Cons c cs)
      have "walk visit close at (entry (hd ts)) y =
         do { x \<leftarrow> visit_trees visit close ts y; x \<leftarrow> close m x; leave m x }"
        by (rule walk_children[OF Entry.IH _ b wl]) (use Cons in auto)
      then show ?thesis
        using Some f Cons by (simp add: walk_unfold[of m x])
    qed
  qed
qed

lemma walk_all_entries:
  assumes "well_linked (at x)"
  shows "walk_all visit close at x =
     do { y \<leftarrow> visit_trees visit close (menu_list (menu_tree (at x))) x;
          if menu_list (menu_tree (at x)) = [] then Some y else close rootmenu y }"
proof -
  let ?T = "menu_tree (at x)" let ?ts = "menu_list (menu_tree (at x))"
  have T: "?T = Entry rootmenu ([] @ ?ts)"
    using assms by (cases ?T) (simp add: well_linked_def)
  have f: "first_child rootmenu ?T = (case ?ts of [] \<Rightarrow> None | c # _ \<Rightarrow> Some (entry c))"
    using first_below[OF below_refl, of ?T] assms by (simp add: well_linked_def)
  show ?thesis
  proof (cases ?ts)
    case Nil
    then show ?thesis
      using f by (simp add: walk_all_def)
  next
    case (Cons c cs)
    have r: "leave rootmenu z = Some z" if "same_place (at x) (at z)" for z
    proof (rule leave_root)
      have "well_linked (at z)"
        using same_place_well_linked[OF that] assms by simp
      then show "next_entry rootmenu (menu_tree (at z)) = None" "parent_of rootmenu (at z) = None"
        using next_root[of "menu_tree (at z)"] by (simp_all add: well_linked_def)
    qed
    have "walk visit close at (entry (hd ?ts)) x =
       do { x \<leftarrow> visit_trees visit close ?ts x; x \<leftarrow> close rootmenu x; leave rootmenu x }"
      by (rule walk_children[where ds = "[]", OF walk_tree]) (use Cons T assms below_refl in auto)
    also have "\<dots> = do { x \<leftarrow> visit_trees visit close ?ts x; close rootmenu x }"
      using r visit_tree_place(2)[of ?ts x] close_place same_place_trans
      by (auto split: Option.bind_split)
    finally show ?thesis
      using f Cons by (simp add: walk_all_def)
  qed
qed

text \<open>With nothing to do on the way up, the entries below the root are visited in order.\<close>

lemma walk_all_in_order:
  assumes "well_linked (at x)" and "\<And>m x. close m x = Some x"
  shows "walk_all visit close at x = each visit (tl (preorder (menu_tree (at x)))) x"
  using walk_all_entries[OF assms(1)] visit_each(2)[of close visit, OF assms(2)] assms(2)
  by (cases "menu_tree (at x)") (auto split: Option.bind_splits)

end

end
