(* ===== verification/Kmenu_Total.thy ===== *)
theory Kmenu_Total
  imports Kmenu_Order Kdups_Props
begin

text \<open>
  \<open>menu_finalize\<close> returns: it reads no null pointer when the properties have the expressions that
  the parser gives them, and the passes that remove duplicates end.
\<close>

subsection \<open>Well-formed menus\<close>

definition named :: "kworld \<Rightarrow> sym \<Rightarrow> bool" where
  "named w s \<longleftrightarrow> sym_name (syms w s) \<noteq> None"

text \<open>The expression of a property, by its type.\<close>

definition prop_ok :: "kworld \<Rightarrow> property \<Rightarrow> bool" where
  "prop_ok w p \<longleftrightarrow>
     (case prop_type p of
        P_SELECT \<Rightarrow> prop_get_symbol p \<noteq> None
      | P_IMPLY \<Rightarrow> prop_get_symbol p \<noteq> None
      | P_DEFAULT \<Rightarrow> prop_expr p \<noteq> None \<and> (\<forall>a. prop_expr p = Some (E_SYMBOL a) \<longrightarrow> named w a)
      | P_RANGE \<Rightarrow> (\<exists>a b. prop_expr p = Some (E_RANGE a b) \<and> named w a \<and> named w b)
      | _ \<Rightarrow> True)"

definition list_or_none :: "expr option \<Rightarrow> bool" where
  "list_or_none e \<longleftrightarrow> e = None \<or> (\<exists>vs. e = Some (E_LIST vs))"

text \<open>A choice has its property, with the list of its values.\<close>

definition choice_ok :: "kworld \<Rightarrow> sym \<Rightarrow> bool" where
  "choice_ok w s \<longleftrightarrow>
     (sym_is_choice s w \<longrightarrow> (\<exists>p. sym_get_choice_prop s w = Some p \<and> list_or_none (prop_expr p)))"

definition parented :: "menu_world \<Rightarrow> nat \<Rightarrow> bool" where
  "parented st m \<longleftrightarrow> parent_of m st \<noteq> None"

text \<open>The symbols in \<open>X\<close> are choices whose property is about to be added.\<close>

definition well_formed_but :: "sym set \<Rightarrow> menu_world \<Rightarrow> bool" where
  "well_formed_but X st \<longleftrightarrow>
     (\<forall>s. \<forall>p \<in> set (props (syms (mw st) s)). prop_ok (mw st) p \<and> (\<exists>m. prop_menu p = Some m \<and> parented st m)) \<and>
     (\<forall>s. s \<notin> X \<longrightarrow> choice_ok (mw st) s) \<and>
     (\<forall>m. entry_sym m st \<noteq> None \<longrightarrow> parented st m)"

abbreviation well_formed :: "menu_world \<Rightarrow> bool" where
  "well_formed \<equiv> well_formed_but {}"

lemma well_formedD:
  assumes "well_formed_but X st"
  shows "p \<in> set (props (syms (mw st) s)) \<Longrightarrow> prop_ok (mw st) p"
    and "p \<in> set (props (syms (mw st) s)) \<Longrightarrow> \<exists>m. prop_menu p = Some m \<and> parented st m"
    and "s \<notin> X \<Longrightarrow> choice_ok (mw st) s"
    and "entry_sym m st \<noteq> None \<Longrightarrow> parented st m"
  using assms by (auto simp: well_formed_but_def)

subsection \<open>Steps that keep well-formedness\<close>

text \<open>The parts of the symbols and entries that \<open>well_formed\<close> reads.\<close>

definition sig :: "property \<Rightarrow> prop_type \<times> expr option \<times> nat option" where
  "sig p = (prop_type p, prop_expr p, prop_menu p)"

definition same_sig :: "kworld \<Rightarrow> kworld \<Rightarrow> bool" where
  "same_sig w w' \<longleftrightarrow>
     (\<forall>s. map sig (props (syms w' s)) = map sig (props (syms w s)) \<and>
          sym_name (syms w' s) = sym_name (syms w s) \<and> sym_is_choice s w' = sym_is_choice s w)"

definition same_entries :: "menu_world \<Rightarrow> menu_world \<Rightarrow> bool" where
  "same_entries st st' \<longleftrightarrow>
     (\<forall>m. entry_sym m st' = entry_sym m st \<and> (parented st m \<longrightarrow> parented st' m))"

definition harmless :: "menu_world \<Rightarrow> menu_world \<Rightarrow> bool" where
  "harmless st st' \<longleftrightarrow> same_sig (mw st) (mw st') \<and> same_entries st st'"

lemma same_sig_refl [simp]: "same_sig w w"
  by (simp add: same_sig_def)

lemma same_sig_trans: "same_sig a b \<Longrightarrow> same_sig b c \<Longrightarrow> same_sig a c"
  by (simp add: same_sig_def)

lemma harmless_refl [simp]: "harmless st st"
  by (simp add: harmless_def same_entries_def)

lemma harmless_trans: "harmless a b \<Longrightarrow> harmless b c \<Longrightarrow> harmless a c"
  unfolding harmless_def same_entries_def using same_sig_trans by force

lemma sig_prop_ok:
  assumes "sig p = sig q" and "\<And>s. named w' s = named w s"
  shows "prop_ok w' p = prop_ok w q"
proof -
  have eq: "prop_type p = prop_type q" "prop_expr p = prop_expr q"
    using assms(1) by (simp_all add: sig_def)
  show ?thesis
    unfolding prop_ok_def prop_get_symbol_def assms(2) eq ..
qed

lemma sig_find:
  assumes "map sig ps = map sig qs" and "find (\<lambda>p. prop_type p = P_CHOICE) qs = Some q"
  shows "\<exists>p. find (\<lambda>p. prop_type p = P_CHOICE) ps = Some p \<and> sig p = sig q"
  using assms
proof (induction qs arbitrary: ps)
  case (Cons x xs)
  obtain y ys where ps: "ps = y # ys" "sig y = sig x" "map sig ys = map sig xs"
    using Cons.prems(1) by (cases ps) auto
  then have "prop_type y = prop_type x"
    by (simp add: sig_def)
  then show ?case
    using Cons.IH[OF ps(3)] Cons.prems(2) ps by (cases "prop_type x = P_CHOICE") auto
qed simp

lemma same_sig_choice_ok:
  assumes "same_sig w w'" and "choice_ok w s"
  shows "choice_ok w' s"
proof (cases "sym_is_choice s w")
  case True
  then obtain q where q: "sym_get_choice_prop s w = Some q" "list_or_none (prop_expr q)"
    using assms(2) by (auto simp: choice_ok_def)
  then obtain p where "sym_get_choice_prop s w' = Some p" "sig p = sig q"
    using sig_find[of "props (syms w' s)" "props (syms w s)" q] assms(1)
    by (auto simp: sym_get_choice_prop_def same_sig_def)
  then show ?thesis
    using q(2) by (simp add: choice_ok_def sig_def)
qed (use assms(1) in \<open>simp add: choice_ok_def same_sig_def\<close>)

lemma harmless_well_formed:
  assumes "harmless st st'" and "well_formed_but X st"
  shows "well_formed_but X st'"
  unfolding well_formed_but_def
proof (intro conjI allI ballI impI)
  have s: "same_sig (mw st) (mw st')" and e: "same_entries st st'"
    using assms(1) by (simp_all add: harmless_def)
  fix s p
  assume p: "p \<in> set (props (syms (mw st') s))"
  have "map sig (props (syms (mw st') s)) = map sig (props (syms (mw st) s))"
    using s by (simp add: same_sig_def)
  then obtain q where q: "q \<in> set (props (syms (mw st) s))" "sig p = sig q"
    using p by (metis image_eqI image_iff list.set_map)
  have "named (mw st') a = named (mw st) a" for a
    using s by (simp add: same_sig_def named_def)
  then show "prop_ok (mw st') p"
    using sig_prop_ok[OF q(2)] well_formedD(1)[OF assms(2) q(1)] by simp
  show "\<exists>m. prop_menu p = Some m \<and> parented st' m"
    using well_formedD(2)[OF assms(2) q(1)] q(2) e by (auto simp: sig_def same_entries_def)
next
  fix s
  assume "s \<notin> X"
  then show "choice_ok (mw st') s"
    using assms(1) unfolding harmless_def by (blast intro: same_sig_choice_ok well_formedD(3)[OF assms(2)])
next
  fix m
  assume "entry_sym m st' \<noteq> None"
  then show "parented st' m"
    using well_formedD(4)[OF assms(2)] assms(1) by (simp add: harmless_def same_entries_def)
qed

named_theorems harmless_intros

lemma harmless_on_mw: "same_sig (mw st) (f (mw st)) \<Longrightarrow> harmless st (on_mw f st)"
  by (simp add: harmless_def on_mw_def same_entries_def entry_sym_def parented_def parent_of_def)

lemma harmless_mw: "same_sig (mw st) w \<Longrightarrow> harmless st (st\<lparr>mw := w\<rparr>)"
  by (simp add: harmless_def same_entries_def entry_sym_def parented_def parent_of_def)

lemma harmless_current [harmless_intros]: "harmless st (st\<lparr>current_entry := c\<rparr>)"
  by (simp add: harmless_def same_entries_def entry_sym_def parented_def parent_of_def)

lemma harmless_upd_menu:
  assumes "\<And>x. menu_sym (f x) = menu_sym x" "\<And>x. menu_parent x \<noteq> None \<Longrightarrow> menu_parent (f x) \<noteq> None"
  shows "harmless st (upd_menu m f st)"
  using assms by (auto simp: harmless_def same_entries_def entry_sym_def parented_def parent_of_def upd_menu_def)

lemma same_sig_upd:
  assumes "map sig (props (f (syms w s))) = map sig (props (syms w s))"
    and "sym_name (f (syms w s)) = sym_name (syms w s)"
    and "SYMBOL_CHOICE \<in> flags (f (syms w s)) \<longleftrightarrow> SYMBOL_CHOICE \<in> flags (syms w s)"
  shows "same_sig w (upd_sym s f w)"
  using assms by (simp add: same_sig_def sym_is_choice_def has_flag_def)

lemma same_sig_simple [harmless_intros]:
  "fl \<noteq> SYMBOL_CHOICE \<Longrightarrow> same_sig w (upd_sym s (set_flag fl) w)"
  "same_sig w (upd_sym s (set_type ty) w)" "same_sig w (upd_sym s (or_rev_dep e) w)"
  "same_sig w (upd_sym s (or_implied e) w)" "same_sig w (upd_sym s (or_dir_dep e) w)"
  by (rule same_sig_upd; auto simp: set_flag_def set_type_def or_rev_dep_def or_implied_def or_dir_dep_def)+

lemma same_sig_messages [harmless_intros]: "same_sig w (w\<lparr>messages := ms\<rparr>)"
  by (simp add: same_sig_def sym_is_choice_def has_flag_def)

lemma set_prop_visible_sig [simp]: "sig (set_prop_visible e p) = sig p"
  by (simp add: set_prop_visible_def sig_def)

lemma upd_props_sig:
  assumes "sig (f (props x ! i)) = sig (props x ! i)"
  shows "map sig (props (upd_prop i f x)) = map sig (props x)"
proof (rule nth_equalityI)
  fix j
  assume "j < length (map sig (props (upd_prop i f x)))"
  then show "map sig (props (upd_prop i f x)) ! j = map sig (props x) ! j"
    by (cases "j = i") (simp_all add: upd_prop_def assms)
qed (simp add: upd_prop_def)

lemma same_sig_visible [harmless_intros]: "same_sig w (upd_sym s (upd_prop i (set_prop_visible e)) w)"
  by (rule same_sig_upd) (simp add: upd_props_sig, simp_all add: upd_prop_def)

lemma harmless_warn [harmless_intros]:
  "harmless st (warning_at file line msg st)" "harmless st (menu_warn m msg st)" "harmless st (prop_warn p msg st)"
  "harmless st (update_if b (menu_warn m msg) st)" "harmless st (update_if b (prop_warn p msg) st)"
  by (simp_all add: warning_at_def menu_warn_def prop_warn_def update_if_def harmless_on_mw same_sig_messages)

subsection \<open>Steps that return\<close>

definition returns :: "menu_world \<Rightarrow> menu_world option \<Rightarrow> bool" where
  "returns st r \<longleftrightarrow> (\<exists>st'. r = Some st' \<and> harmless st st')"

lemma returnsI: "harmless st st' \<Longrightarrow> returns st (Some st')"
  by (simp add: returns_def)

lemma returns_harmless: "harmless st a \<Longrightarrow> returns a r \<Longrightarrow> returns st r"
  unfolding returns_def using harmless_trans by blast

lemma returns_bind:
  assumes "returns st r" and "\<And>a. r = Some a \<Longrightarrow> harmless st a \<Longrightarrow> returns a (f a)"
  shows "returns st (r \<bind> f)"
  using assms returns_harmless unfolding returns_def by fastforce

lemma each_returns:
  assumes "\<And>x a. x \<in> set xs \<Longrightarrow> harmless st a \<Longrightarrow> returns a (f x a)"
  shows "returns st (each f xs st)"
  using assms
proof (induction xs arbitrary: st)
  case Nil
  then show ?case
    by (simp add: returns_def)
next
  case (Cons x xs)
  have "returns st (f x st)"
    using Cons.prems[of x st] by simp
  then show ?case
    unfolding each.simps
  proof (rule returns_bind)
    fix a
    assume "harmless st a"
    then show "returns a (each f xs a)"
      using Cons.IH[of a] Cons.prems harmless_trans by (metis list.set_intros(2))
  qed
qed

lemma each_same_sig:
  assumes "\<And>x a. x \<in> set xs \<Longrightarrow> same_sig w a \<Longrightarrow> \<exists>b. f x a = Some b \<and> same_sig a b"
  shows "\<exists>w'. each f xs w = Some w' \<and> same_sig w w'"
  using assms
proof (induction xs arbitrary: w)
  case (Cons x xs)
  obtain a where a: "f x w = Some a" "same_sig w a"
    using Cons.prems[of x w] by auto
  have "\<exists>w'. each f xs a = Some w' \<and> same_sig a w'"
    using Cons.IH[of a] Cons.prems a(2) same_sig_trans by (meson list.set_intros(2))
  then show ?case
    using a same_sig_trans by auto
qed simp

lemma harmless_entry_sym: "harmless st a \<Longrightarrow> entry_sym m a = entry_sym m st"
  by (simp add: harmless_def same_entries_def)

lemma harmless_parented: "harmless st a \<Longrightarrow> parented st m \<Longrightarrow> parented a m"
  by (simp add: harmless_def same_entries_def)

lemma harmless_named: "harmless st a \<Longrightarrow> named (mw a) s = named (mw st) s"
  by (simp add: harmless_def same_sig_def named_def)

lemma harmless_prop_ok: "harmless st a \<Longrightarrow> prop_ok (mw a) p = prop_ok (mw st) p"
  by (rule sig_prop_ok) (simp_all add: harmless_named)

lemma menu_set_type_returns:
  assumes "entry_sym (current_entry st) st \<noteq> None"
  shows "returns st (menu_set_type ty st)"
  using assms by (auto simp: menu_set_type_def Let_def intro!: returnsI harmless_intros harmless_on_mw)

lemma choice_type_returns:
  assumes "entry_sym m st = Some s"
  shows "returns st (choice_type m s cs st)"
proof -
  let ?st = "st\<lparr>current_entry := m\<rparr>"
  have "returns st (menu_set_type ty ?st)" for ty
    using returns_harmless[OF harmless_current menu_set_type_returns[of ?st ty]] assms
    by (simp add: entry_sym_def)
  then show ?thesis
    unfolding choice_type_def Let_def by (auto intro!: returnsI harmless_current split: list.split)
qed

lemma child_type_returns: "returns st (child_type s c st)"
proof -
  let ?st = "st\<lparr>current_entry := c\<rparr>"
  have "returns st (menu_set_type ty ?st)" if "entry_sym c ?st \<noteq> None" for ty
    using returns_harmless[OF harmless_current menu_set_type_returns[of ?st ty]] that by simp
  then show ?thesis
    unfolding child_type_def Let_def by (auto intro!: returnsI harmless_current split: option.split)
qed

lemma choice_types_returns:
  assumes "entry_sym m st = Some s"
  shows "returns st (choice_types m s cs st)"
  unfolding choice_types_def
  by (rule returns_bind[OF choice_type_returns[OF assms]]) (rule each_returns, rule child_type_returns)

lemma eliminate_dups_returns: "\<exists>e'. expr_eliminate_dups w e = Some e'"
  using dups_loop_result[of w "the e"] by (cases e) (auto simp: expr_eliminate_dups_def)

lemma inherit_dep_returns: "\<exists>e'. inherit_dep w outer e = Some e'"
  unfolding inherit_dep_def by (rule eliminate_dups_returns)

lemma reverse_dep_returns:
  assumes "prop_ok w0 p"
  shows "\<exists>w'. reverse_dep s p dep w = Some w' \<and> same_sig w w'"
  using assms by (auto simp: reverse_dep_def Let_def prop_ok_def intro!: harmless_intros)

lemma inherit_prop_returns:
  assumes "prop_ok w0 (prop_at s i w)"
  shows "\<exists>w'. inherit_prop m s base i w = Some w' \<and> same_sig w w'"
proof (cases "prop_menu (prop_at s i w) = Some m")
  case True
  obtain dep where dep: "inherit_dep w base (dep_expr (prop_visible (prop_at s i w))) = Some dep"
    using inherit_dep_returns by blast
  define d where "d = (if sym_type (syms w s) \<noteq> S_TRISTATE then map_option (expr_trans_bool w) dep else dep)"
  have "inherit_prop m s base i w =
      reverse_dep s (prop_at s i w) d (upd_sym s (upd_prop i (set_prop_visible d)) w)"
    using True dep by (simp add: inherit_prop_def d_def Let_def)
  then show ?thesis
    using reverse_dep_returns[OF assms, of s d "upd_sym s (upd_prop i (set_prop_visible d)) w"]
      same_sig_trans[OF same_sig_visible] by metis
qed (simp add: inherit_prop_def)

lemma inherit_prompt_returns: "returns st (inherit_prompt m base st)"
proof (cases "\<exists>p. menu_prompt (menus st m) = Some (Own p) \<and> prop_menu p = Some m")
  case True
  then obtain p where p: "menu_prompt (menus st m) = Some (Own p)" "prop_menu p = Some m"
    by blast
  obtain dep where "inherit_dep (mw st) base (dep_expr (prop_visible p)) = Some dep"
    using inherit_dep_returns by blast
  then show ?thesis
    using p by (simp add: inherit_prompt_def) (intro returnsI harmless_upd_menu, auto)
next
  case False
  then have "inherit_prompt m base st = Some st"
    by (auto simp: inherit_prompt_def split: option.split menu_prompt.split)
  then show ?thesis
    by (simp add: returns_def)
qed

lemma same_sig_prop_at:
  assumes "same_sig w a" and "i < length (props (syms w s))"
  shows "sig (prop_at s i a) = sig (prop_at s i w)"
proof -
  have m: "map sig (props (syms a s)) = map sig (props (syms w s))"
    using assms(1) by (simp add: same_sig_def)
  then have "length (props (syms a s)) = length (props (syms w s))"
    using length_map by metis
  then show ?thesis
    using m assms(2) by (metis nth_map prop_at_def)
qed

lemma inherit_child_returns:
  assumes "well_formed st"
  shows "returns st (inherit_child dep c st)"
proof -
  obtain base where base: "inherit_dep (mw st) dep (menu_dep (menus st c)) = Some base"
    using inherit_dep_returns by blast
  define st1 where "st1 = upd_menu c (\<lambda>x. x\<lparr>menu_dep := base\<rparr>) st"
  have h: "harmless st st1"
    by (simp add: st1_def harmless_upd_menu)
  have "returns st1 (inherit_child dep c st)"
  proof (cases "entry_sym c st1")
    case None
    then show ?thesis
      using base inherit_prompt_returns by (simp add: inherit_child_def st1_def)
  next
    case (Some s)
    let ?w = "mw st1"
    have "\<exists>w'. each (inherit_prop c s base) [0..<length (props (syms ?w s))] ?w = Some w' \<and> same_sig ?w w'"
    proof (rule each_same_sig)
      fix i a
      assume i: "i \<in> set [0..<length (props (syms ?w s))]" and a: "same_sig ?w a"
      have "prop_at s i ?w \<in> set (props (syms ?w s))"
        using i by (simp add: prop_at_def)
      then have "prop_ok ?w (prop_at s i ?w)"
        using well_formedD(1)[OF harmless_well_formed[OF h assms]] by blast
      then have "prop_ok ?w (prop_at s i a)"
        using sig_prop_ok[OF same_sig_prop_at[OF a], of i s ?w ?w] i by simp
      then show "\<exists>b. inherit_prop c s base i a = Some b \<and> same_sig a b"
        by (rule inherit_prop_returns)
    qed
    then obtain w' where "each (inherit_prop c s base) [0..<length (props (syms ?w s))] ?w = Some w'" "same_sig ?w w'"
      by blast
    then show ?thesis
      using base Some by (simp add: inherit_child_def st1_def[symmetric] Let_def returnsI harmless_mw)
  qed
  then show ?thesis
    using h by (rule returns_harmless[rotated])
qed

lemma prepare_children_returns:
  assumes "well_formed st"
  shows "returns st (prepare_children m cs st)"
  unfolding prepare_children_def
proof (rule returns_bind)
  show "returns st (case entry_sym m st of
       Some s \<Rightarrow> if sym_is_choice s (mw st) then choice_types m s cs st else Some st | None \<Rightarrow> Some st)"
    using choice_types_returns by (auto simp: returnsI split: option.split)
next
  fix a
  assume h: "harmless st a"
  show "returns a (each (inherit_child (inherited m a)) cs a)"
  proof (rule each_returns)
    fix x b
    assume "harmless a b"
    then show "returns b (inherit_child (inherited m a) x b)"
      using inherit_child_returns harmless_well_formed assms h by blast
  qed
qed

lemma submenu_base_returns: "\<exists>e. submenu_base m st = Some e"
  unfolding submenu_base_def explicit_condition_def by (rule eliminate_dups_returns)

lemma belongs_below_returns: "\<exists>b. belongs_below w s base dep = Some b"
  using eliminate_dups_returns[of w "map_option (expr_transform w) (trans_compare dep E_UNEQUAL symbol_no)"]
  by (auto simp: belongs_below_def explicit_condition_def)

subsection \<open>Checks\<close>

lemma menu_validate_number_returns:
  assumes "named w s2"
  shows "\<exists>b. menu_validate_number s s2 w = Some b"
  using assms by (auto simp: menu_validate_number_def named_def)

lemma check_number_default_returns:
  assumes "named (mw st) s2"
  shows "returns st (check_number_default s p s2 st)"
  using menu_validate_number_returns[OF assms, of s]
  by (auto simp: check_number_default_def intro!: returnsI harmless_intros)

lemma check_default_returns:
  assumes "prop_ok (mw st) p" and "prop_type p = P_DEFAULT"
  shows "returns st (check_default s p st)"
proof -
  obtain e where e: "prop_expr p = Some e" and n: "\<forall>a. e = E_SYMBOL a \<longrightarrow> named (mw st) a"
    using assms by (auto simp: prop_ok_def)
  let ?st1 = "update_if ((sym_type (syms (mw st) s) = S_STRING \<or> is_number (sym_type (syms (mw st) s))) \<and>
      prop_get_symbol p = None)
    (prop_warn p (''default for config symbol '' @ quoted (name_text s (mw st)) @ '' must be a single symbol'')) st"
  have h: "harmless st ?st1"
    by (rule harmless_intros)
  have "returns ?st1 (check_default s p st)"
  proof (cases "prop_get_symbol p")
    case None
    then show ?thesis
      using e by (simp add: check_default_def Let_def returnsI)
  next
    case (Some s2)
    then have "e = E_SYMBOL s2"
      using e by (auto simp: prop_get_symbol_def split: expr.splits)
    then have "named (mw ?st1) s2"
      using n harmless_named[OF h] by simp
    then have r: "returns ?st1 (check_number_default s p s2 ?st1)"
      by (rule check_number_default_returns)
    have "returns ?st1 (check_number_default s p s2 ?st1 \<bind> (\<lambda>st. Some (update_if
        (sym_is_choice s (mw st) \<and> \<not> in_choice s s2 (mw st))
        (prop_warn p (''choice default symbol '' @ quoted (name_text s2 (mw st)) @ '' is not contained in the choice'')) st)))"
      by (rule returns_bind[OF r]) (intro returnsI harmless_intros)
    then show ?thesis
      using e Some by (simp add: check_default_def Let_def)
  qed
  then show ?thesis
    using h by (rule returns_harmless[rotated])
qed

lemma check_selected_returns:
  assumes "prop_get_symbol p \<noteq> None"
  shows "returns st (check_selected s p st)"
  using assms by (auto simp: check_selected_def Let_def intro!: returnsI harmless_intros)

lemma check_range_returns:
  assumes "prop_ok (mw st) p" and "prop_type p = P_RANGE"
  shows "returns st (check_range s p st)"
proof -
  obtain l r where lr: "prop_expr p = Some (E_RANGE l r)" "named (mw st) l" "named (mw st) r"
    using assms by (auto simp: prop_ok_def)
  let ?st1 = "update_if (\<not> is_number (sym_type (syms (mw st) s)))
    (prop_warn p ''range is only allowed for int or hex symbols'') st"
  have h: "harmless st ?st1"
    by (rule harmless_intros)
  obtain ok1 ok2 where "menu_validate_number s l (mw ?st1) = Some ok1" "menu_validate_number s r (mw ?st1) = Some ok2"
    using menu_validate_number_returns lr(2,3) harmless_named[OF h] by metis
  then have "\<exists>b. check_range s p st = Some (update_if b (prop_warn p ''range is invalid'') ?st1)"
    using lr(1) by (cases ok1) (auto simp: check_range_def range_bounds_def Let_def)
  then have "returns ?st1 (check_range s p st)"
    using returnsI harmless_warn(5) by metis
  then show ?thesis
    using h by (rule returns_harmless[rotated])
qed

lemma check_prop_returns:
  assumes "prop_ok (mw st) p"
  shows "returns st (check_prop s p st)"
proof -
  have "prop_type p = P_SELECT \<or> prop_type p = P_IMPLY \<Longrightarrow> prop_get_symbol p \<noteq> None"
    using assms by (auto simp: prop_ok_def)
  then show ?thesis
    using check_default_returns[OF assms] check_selected_returns check_range_returns[OF assms]
    by (auto simp: check_prop_def returnsI split: prop_type.split)
qed

lemma finish_entry_returns:
  assumes "well_formed st"
  shows "returns st (finish_entry m st)"
proof (cases "entry_sym m st")
  case (Some s)
  have "returns st (check_entry m s st)"
  proof (cases "has_flag SYMBOL_WARNED s (mw st)")
    case False
    define a where "a = update_if (sym_type (syms (mw st) s) = S_UNKNOWN)
      (menu_warn m ''config symbol defined without type'') st"
    define b where "b = update_if (sym_is_choice s (mw a) \<and> \<not> menu_has_prompt m a)
      (menu_warn m ''choice must have a prompt'') a"
    have ab: "harmless st b"
      using harmless_trans[of st a b] by (simp add: a_def b_def harmless_intros)
    have "returns b (sym_check_prop s b)"
      unfolding sym_check_prop_def
    proof (rule each_returns)
      fix p c
      assume p: "p \<in> set (props (syms (mw b) s))" and c: "harmless b c"
      have "prop_ok (mw c) p"
        using well_formedD(1)[OF harmless_well_formed[OF ab assms] p] harmless_prop_ok[OF c] by simp
      then show "returns c (check_prop s p c)"
        by (rule check_prop_returns)
    qed
    then have "returns b (sym_check_prop s b \<bind> (\<lambda>st. Some (on_mw (upd_sym s (set_flag SYMBOL_WARNED)) st)))"
      by (rule returns_bind) (simp add: returnsI harmless_on_mw same_sig_simple)
    then have "returns st (sym_check_prop s b \<bind> (\<lambda>st. Some (on_mw (upd_sym s (set_flag SYMBOL_WARNED)) st)))"
      using ab by (rule returns_harmless[rotated])
    then show ?thesis
      using False by (simp add: check_entry_def a_def b_def Let_def)
  qed (simp add: check_entry_def returnsI)
  then show ?thesis
    unfolding finish_entry_def Some option.case
    by (rule returns_bind) (auto simp: select_choice_def returnsI harmless_on_mw same_sig_simple split: option.split)
qed (simp add: finish_entry_def returnsI)

subsection \<open>Choice values\<close>

lemma check_value_prop_returns:
  assumes "prop_menu p = Some m" "parented st m"
  shows "returns st (check_value_prop s c p st)"
proof -
  define st1 where "st1 = update_if (prop_type p = P_DEFAULT) (prop_warn p ''defaults for choice values not supported'') st"
  have h: "harmless st st1"
    by (simp add: st1_def harmless_intros)
  obtain q where q: "menu_parent (menus st1 m) = Some q"
    using harmless_parented[OF h assms(2)] by (auto simp: parented_def parent_of_def)
  have "returns st1 (check_value_prop s c p st)"
    using assms(1) q by (auto simp: check_value_prop_def prop_parent_sym_def st1_def[symmetric] Let_def
        intro!: returnsI harmless_intros)
  then show ?thesis
    using h by (rule returns_harmless[rotated])
qed

lemma require_choice_harmless: "harmless st (require_choice s c v st)"
proof -
  let ?f = "\<lambda>p. if prop_menu p = Some c
    then set_prop_visible (expr_alloc_and (Some (E_CMP E_EQUAL s symbol_yes)) (dep_expr (prop_visible p))) p else p"
  have "same_sig w (upd_sym v (\<lambda>x. x\<lparr>props := map f (props x)\<rparr>) w)" if "\<And>p. sig (f p) = sig p" for f w
    by (rule same_sig_upd) (simp_all add: comp_def that)
  then have "same_sig w (upd_sym v (\<lambda>x. x\<lparr>props := map ?f (props x)\<rparr>) w)" for w
    by simp
  then have a: "harmless st1 (on_mw (upd_sym v (\<lambda>x. x\<lparr>props := map ?f (props x)\<rparr>)) st1)" for st1
    by (rule harmless_on_mw)
  show ?thesis
    unfolding require_choice_def Let_def
    using harmless_trans[OF harmless_upd_menu a] by simp
qed

lemma find_append_Some: "find P xs = Some x \<Longrightarrow> find P (xs @ ys) = Some x"
  by (induction xs) auto

text \<open>A property is added, or the list of a choice is replaced.\<close>

lemma well_formed_props:
  assumes "well_formed_but X st"
    and "\<And>p. p \<in> set (props (f (syms (mw st) v))) \<Longrightarrow> prop_ok (mw st) p \<and> (\<exists>m. prop_menu p = Some m \<and> parented st m)"
    and "sym_name (f (syms (mw st) v)) = sym_name (syms (mw st) v)"
    and "v \<notin> X \<Longrightarrow> SYMBOL_CHOICE \<in> flags (f (syms (mw st) v)) \<Longrightarrow>
      \<exists>p. find (\<lambda>p. prop_type p = P_CHOICE) (props (f (syms (mw st) v))) = Some p \<and> list_or_none (prop_expr p)"
  shows "well_formed_but X (on_mw (upd_sym v f) st)"
proof -
  let ?w = "upd_sym v f (mw st)"
  have "sym_name (syms ?w a) = sym_name (syms (mw st) a)" for a
    using assms(3) by simp
  then have n: "named ?w a = named (mw st) a" for a
    by (simp add: named_def)
  have ok: "prop_ok ?w p = prop_ok (mw st) p" for p
    by (rule sig_prop_ok[OF refl n])
  have e: "entry_sym m (on_mw (upd_sym v f) st) = entry_sym m st"
    "parented (on_mw (upd_sym v f) st) m = parented st m" for m
    by (simp_all add: on_mw_def entry_sym_def parented_def parent_of_def)
  have "choice_ok ?w a" if "a \<notin> X" for a
    using that assms(4) well_formedD(3)[OF assms(1), of a]
    by (cases "a = v") (simp_all add: choice_ok_def sym_is_choice_def has_flag_def sym_get_choice_prop_def)
  moreover have "prop_ok ?w p \<and> (\<exists>m. prop_menu p = Some m \<and> parented st m)"
    if "p \<in> set (props (syms ?w a))" for p a
    using that assms(2) well_formedD(1,2)[OF assms(1), of p a] ok by (cases "a = v") simp_all
  moreover have "mw (on_mw (upd_sym v f) st) = ?w"
    by (simp add: on_mw_def)
  ultimately show ?thesis
    using well_formedD(4)[OF assms(1)] unfolding well_formed_but_def e by metis
qed

lemma append_prop_well_formed:
  assumes "well_formed_but X st" and "prop_ok (mw st) p" and "prop_menu p = Some m" and "parented st m"
  shows "well_formed_but X (on_mw (upd_sym v (append_prop p)) st)"
proof (rule well_formed_props[OF assms(1)])
  show "prop_ok (mw st) q \<and> (\<exists>m. prop_menu q = Some m \<and> parented st m)"
    if "q \<in> set (props (append_prop p (syms (mw st) v)))" for q
    using that assms(2-4) well_formedD(1,2)[OF assms(1), of q v] by (auto simp: append_prop_def)
  assume "v \<notin> X" "SYMBOL_CHOICE \<in> flags (append_prop p (syms (mw st) v))"
  then show "\<exists>q. find (\<lambda>p. prop_type p = P_CHOICE) (props (append_prop p (syms (mw st) v))) = Some q \<and>
      list_or_none (prop_expr q)"
    using well_formedD(3)[OF assms(1), of v] find_append_Some
    by (fastforce simp: append_prop_def choice_ok_def sym_is_choice_def has_flag_def sym_get_choice_prop_def)
qed (simp add: append_prop_def)

lemma menu_add_symbol_well_formed:
  assumes "well_formed_but X st" and "entry_sym (current_entry st) st \<noteq> None"
    and "ty \<noteq> P_DEFAULT" and "ty \<noteq> P_RANGE"
  shows "well_formed_but X (menu_add_symbol ty a dep st)"
proof -
  obtain v where v: "entry_sym (current_entry st) st = Some v"
    using assms(2) by blast
  let ?p = "new_property ty None (Some (E_SYMBOL a)) dep st"
  have "prop_ok (mw st) ?p"
    using assms(3,4) by (simp add: prop_ok_def new_property_def prop_get_symbol_def split: prop_type.split)
  moreover have "prop_menu ?p = Some (current_entry st)"
    by (simp add: new_property_def)
  ultimately have "well_formed_but X (on_mw (upd_sym v (append_prop ?p)) st)"
    using append_prop_well_formed[OF assms(1)] well_formedD(4)[OF assms(1,2)] by blast
  then show ?thesis
    using v by (simp add: menu_add_symbol_def menu_add_expr_def menu_add_prop_def)
qed

lemma menu_add_symbol_keeps:
  "entry_sym m (menu_add_symbol ty a dep st) = entry_sym m st"
  "sym_is_choice s (mw (menu_add_symbol ty a dep st)) = sym_is_choice s (mw st)"
  by (auto simp: menu_add_symbol_def menu_add_expr_def menu_add_prop_def on_mw_def entry_sym_def
      sym_is_choice_def has_flag_def append_prop_def split: option.split)

lemma find_index:
  "find (\<lambda>i. P (xs ! i)) [0..<length xs] = Some i \<longleftrightarrow>
     i < length xs \<and> P (xs ! i) \<and> (\<forall>j<i. \<not> P (xs ! j))"
  by (auto simp: find_Some_iff)

lemma find_first:
  assumes "find P xs = Some x"
  shows "\<exists>i. find (\<lambda>i. P (xs ! i)) [0..<length xs] = Some i \<and> xs ! i = x"
  using assms unfolding find_index by (auto simp: find_Some_iff)

lemma find_updated:
  assumes "find (\<lambda>i. P (xs ! i)) [0..<length xs] = Some i" and "P y"
  shows "find P (xs[i := y]) = Some y"
  using assms unfolding find_index by (auto simp: find_Some_iff intro!: exI[of _ i])

lemma add_choice_value_well_formed:
  assumes "well_formed st" and "sym_is_choice s (mw st)"
  shows "\<exists>w. add_choice_value s v (mw st) = Some w \<and> well_formed (st\<lparr>mw := w\<rparr>)"
proof -
  let ?x = "syms (mw st) s"
  obtain p where p: "find (\<lambda>p. prop_type p = P_CHOICE) (props ?x) = Some p" "list_or_none (prop_expr p)"
    using well_formedD(3)[OF assms(1), of s] assms(2) by (auto simp: choice_ok_def sym_get_choice_prop_def)
  obtain i where i: "choice_index s (mw st) = Some i" "props ?x ! i = p"
    using find_first[OF p(1)] by (auto simp: choice_index_def prop_at_def)
  then have ii: "find (\<lambda>i. prop_type (props ?x ! i) = P_CHOICE) [0..<length (props ?x)] = Some i"
    by (simp add: choice_index_def prop_at_def)
  obtain vs where e: "append_member (prop_expr p) v = Some (E_LIST vs)"
    using p(2) by (auto simp: list_or_none_def)
  let ?g = "\<lambda>p. p\<lparr>prop_expr := Some (E_LIST vs)\<rparr>"
  have pt: "prop_type p = P_CHOICE" and pin: "p \<in> set (props ?x)"
    using p(1) by (auto simp: find_Some_iff)
  have "well_formed (on_mw (upd_sym s (upd_prop i ?g)) st)"
  proof (rule well_formed_props[OF assms(1)])
    fix q
    assume "q \<in> set (props (upd_prop i ?g ?x))"
    then have "q \<in> set (props ?x) \<or> q = ?g p"
      using i(2) set_update_subset_insert[of "props ?x" i] by (auto simp: upd_prop_def)
    then show "prop_ok (mw st) q \<and> (\<exists>m. prop_menu q = Some m \<and> parented st m)"
      using well_formedD(1,2)[OF assms(1)] well_formedD(2)[OF assms(1) pin] pt by (auto simp: prop_ok_def)
  next
    have "find (\<lambda>p. prop_type p = P_CHOICE) (props (upd_prop i ?g ?x)) = Some (?g p)"
      using find_updated[OF ii, of "?g p"] pt i(2) by (simp add: upd_prop_def)
    then show "\<exists>q. find (\<lambda>p. prop_type p = P_CHOICE) (props (upd_prop i ?g ?x)) = Some q \<and> list_or_none (prop_expr q)"
      by (simp add: list_or_none_def)
  qed (simp add: upd_prop_def)
  then show ?thesis
    using i e by (simp add: add_choice_value_def prop_at_def on_mw_def)
qed

lemma harmless_choice: "harmless st a \<Longrightarrow> sym_is_choice s (mw a) = sym_is_choice s (mw st)"
  by (simp add: harmless_def same_sig_def)

lemma each_check_value_prop:
  assumes "well_formed st"
  shows "returns st (each (check_value_prop s c) (props (syms (mw st) v)) st)"
proof (rule each_returns)
  fix p a
  assume p: "p \<in> set (props (syms (mw st) v))" and a: "harmless st a"
  obtain m where "prop_menu p = Some m" "parented st m"
    using well_formedD(2)[OF assms p] by blast
  then show "returns a (check_value_prop s c p a)"
    using check_value_prop_returns harmless_parented[OF a] by blast
qed

text \<open>The result is well-formed.\<close>

definition succeeds :: "menu_world option \<Rightarrow> bool" where
  "succeeds r \<longleftrightarrow> (\<exists>st'. r = Some st' \<and> well_formed st')"

lemma returns_succeeds: "returns st r \<Longrightarrow> well_formed st \<Longrightarrow> succeeds r"
  unfolding returns_def succeeds_def using harmless_well_formed by blast

lemma check_value_prop_current:
  "check_value_prop s c p st = Some st' \<Longrightarrow> current_entry st' = current_entry st"
  by (auto simp: check_value_prop_def Let_def update_if_def prop_warn_def warning_at_def on_mw_def
      split: if_splits Option.bind_splits)

lemma each_current:
  "each (check_value_prop s c) ps st = Some st' \<Longrightarrow> current_entry st' = current_entry st"
  by (induction ps arbitrary: st) (auto dest: check_value_prop_current split: Option.bind_splits)

lemma join_choice_succeeds:
  assumes "well_formed st" and "sym_is_choice s (mw st)" and "entry_sym c st = Some v"
  shows "succeeds (join_choice s c v st)"
proof -
  define st1 where "st1 = on_mw (upd_sym v (set_flag SYMBOL_CHOICEVAL)) (st\<lparr>current_entry := c\<rparr>)"
  define st2 where "st2 = update_if (\<not> menu_has_prompt c st1) (menu_warn c ''choice value must have a prompt'') st1"
  have 1: "harmless st st1"
    unfolding st1_def
    by (rule harmless_trans[OF harmless_current[of st c]]) (simp add: harmless_on_mw same_sig_simple)
  have 2: "harmless st st2"
    using harmless_trans[OF 1, of st2] by (simp add: st2_def harmless_intros)
  have cur2: "current_entry st2 = c"
    by (simp add: st2_def st1_def update_if_def menu_warn_def warning_at_def on_mw_def)
  obtain st3 where e: "each (check_value_prop s c) (props (syms (mw st2) v)) st2 = Some st3" and 3: "harmless st2 st3"
    using each_check_value_prop[OF harmless_well_formed[OF 2 assms(1)]] unfolding returns_def by blast
  define st4 where "st4 = require_choice s c v st3"
  have 4: "harmless st st4"
    using harmless_trans[OF harmless_trans[OF 2 3] require_choice_harmless] by (simp add: st4_def)
  have cur4: "current_entry st4 = c"
    using each_current[OF e] cur2 by (simp add: st4_def require_choice_def Let_def on_mw_def upd_menu_def)
  define st5 where "st5 = menu_add_symbol P_CHOICE s None st4"
  have "well_formed st5"
    unfolding st5_def using menu_add_symbol_well_formed[OF harmless_well_formed[OF 4 assms(1)]]
      harmless_entry_sym[OF 4] assms(3) cur4 by simp
  moreover have "sym_is_choice s (mw st5)"
    using assms(2) harmless_choice[OF 4] by (simp add: st5_def menu_add_symbol_keeps)
  ultimately obtain w where "add_choice_value s v (mw st5) = Some w" "well_formed (st5\<lparr>mw := w\<rparr>)"
    using add_choice_value_well_formed by blast
  then show ?thesis
    using e by (simp add: join_choice_def st1_def st2_def st4_def st5_def succeeds_def Let_def)
qed

lemma settle_value_succeeds:
  assumes "well_formed st"
  shows "succeeds (settle_value m c st)"
  using assms join_choice_succeeds[OF assms]
  by (auto simp: settle_value_def succeeds_def split: option.split)

lemma set_parent_harmless: "harmless st (set_parent p c st)"
  unfolding set_parent_def by (rule harmless_upd_menu) auto

lemma set_parents_harmless: "harmless st (fold (set_parent p) cs st)"
  by (induction cs arbitrary: st) (use harmless_trans set_parent_harmless in fastforce)+

lemma settle_children_returns:
  "well_formed st \<Longrightarrow> \<exists>us st'. settle_children m ts st = Some (us, st') \<and> well_formed st'"
proof (induction m ts st rule: settle_children.induct)
  case (2 m c cs ts st)
  obtain st1 where 1: "settle_value m c st = Some st1" "well_formed st1"
    using settle_value_succeeds[OF 2(3)] by (auto simp: succeeds_def)
  show ?case
  proof (cases "cs \<noteq> [] \<and> \<not> has_text c st1")
    case True
    then obtain us st' where "settle_children m (cs @ ts) (fold (set_parent m) (map entry cs) st1) = Some (us, st')"
      "well_formed st'"
      using 2(1)[OF 1(1) True harmless_well_formed[OF set_parents_harmless 1(2)]] by blast
    then show ?thesis
      using 1(1) True by simp
  next
    case False
    then obtain us st' where "settle_children m ts st1 = Some (us, st')" "well_formed st'"
      using 2(2)[OF 1(1) False 1(2)] by blast
    then show ?thesis
      using 1(1) False by auto
  qed
qed simp

subsection \<open>menu_finalize\<close>

lemma settle_finish_returns:
  assumes "well_formed st"
  obtains ws st1 st' where "settle_children m vs st = Some (ws, st1)" "finish_entry m st1 = Some st'" "well_formed st'"
proof -
  obtain ws st1 where 1: "settle_children m vs st = Some (ws, st1)" "well_formed st1"
    using settle_children_returns[OF assms] by blast
  obtain st' where "finish_entry m st1 = Some st'" "well_formed st'"
    using returns_succeeds[OF finish_entry_returns[OF 1(2)] 1(2)] by (auto simp: succeeds_def)
  then show ?thesis
    using that 1(1) by blast
qed

lemma finalize_returns:
  "well_formed st \<Longrightarrow> \<exists>us rest st'. menu_finalize task st = Some (us, rest, st') \<and> well_formed st'"
proof (induction task st rule: menu_finalize.induct)
  case (1 m ts fs st)
  show ?case
  proof (cases "ts = []")
    case False
    obtain st1 where a: "prepare_children m (map entry ts) st = Some st1" "well_formed st1"
      using returns_succeeds[OF prepare_children_returns[OF 1(3)] 1(3)] by (auto simp: succeeds_def)
    obtain us r st2 where b: "menu_finalize (Children ts) st1 = Some (us, r, st2)" "well_formed st2"
      using 1(1)[OF False a] by blast
    obtain ws st3 st' where "settle_children m us st2 = Some (ws, st3)" "finish_entry m st3 = Some st'" "well_formed st'"
      using b(2) by (rule settle_finish_returns)
    then show ?thesis
      using False a(1) b(1) by simp
  next
    case True
    show ?thesis
    proof (cases "entry_sym m st")
      case None
      obtain ws st3 st' where "settle_children m [] st = Some (ws, st3)" "finish_entry m st3 = Some st'" "well_formed st'"
        using 1(3) by (rule settle_finish_returns)
      then show ?thesis
        using True None by simp
    next
      case (Some s)
      obtain base where a: "submenu_base m st = Some base"
        using submenu_base_returns by blast
      obtain us r st1 where b: "menu_finalize (Following m s base fs) st = Some (us, r, st1)" "well_formed st1"
        using 1(2)[OF _ Some a 1(3)] True by blast
      let ?st2 = "on_mw (upd_sym s (or_dir_dep (menu_dep (menus st1 m)))) st1"
      have "well_formed ?st2"
        using harmless_well_formed[OF harmless_on_mw b(2)] same_sig_simple(5) by blast
      then obtain ws st3 st' where "settle_children m us ?st2 = Some (ws, st3)" "finish_entry m st3 = Some st'" "well_formed st'"
        by (rule settle_finish_returns)
      then show ?thesis
        using True Some a b(1) by simp
    qed
  qed
next
  case (3 t ts st)
  obtain us r st1 where a: "menu_finalize (Finalize t ts) st = Some (us, r, st1)" "well_formed st1"
    using 3(1,3) by blast
  obtain vs rest st' where "menu_finalize (Children r) st1 = Some (vs, rest, st')" "well_formed st'"
    using 3(2)[OF a(1) refl refl a(2)] by blast
  then show ?case
    using a(1) by simp
next
  case (5 m s base t ts st)
  obtain b where b: "belongs_below (mw st) s base (entry_condition (entry t) st) = Some b"
    using belongs_below_returns by blast
  show ?case
  proof (cases b)
    case True
    then have nn: "\<not> \<not> b"
      by simp
    obtain us r st1 where a: "menu_finalize (Finalize t ts) st = Some (us, r, st1)" "well_formed st1"
      using 5(1)[OF b nn 5(3)] by blast
    obtain vs rest st' where "menu_finalize (Following m s base r) (set_parent m (entry t) st1) = Some (vs, rest, st')"
      "well_formed st'"
      using 5(2)[OF b nn a(1) refl refl harmless_well_formed[OF set_parent_harmless a(2)]] by blast
    then show ?thesis
      using b True a(1) by simp
  next
    case False
    then show ?thesis
      using b 5(3) by simp
  qed
qed simp_all

end
