(* ===== verification/Kparse_Props.thy ===== *)
theory Kparse_Props
  imports Kmenu_Total
begin

text \<open>
  The entries that the statements build: they are numbered in the order of the tree, well-formed
  and linked to their parents, so that \<open>menu_finalize\<close> returns and leaves them in order.
\<close>

subsection \<open>The symbol table\<close>

definition allocated :: "kworld \<Rightarrow> sym \<Rightarrow> bool" where
  "allocated w s \<longleftrightarrow> (\<forall>n. s = Sym n \<longrightarrow> n < next_sym w)"

definition table_ok :: "kworld \<Rightarrow> bool" where
  "table_ok w \<longleftrightarrow>
     (\<forall>s. \<not> allocated w s \<longrightarrow> props (syms w s) = [] \<and> \<not> named w s) \<and>
     (\<forall>h. \<forall>s \<in> set (symbol_hash w h). allocated w s) \<and>
     named w symbol_yes \<and> named w symbol_mod \<and> named w symbol_no"

text \<open>What looking up symbols changes; only a symbol of \<open>X\<close> becomes a choice.\<close>

definition looked_up :: "sym set \<Rightarrow> kworld \<Rightarrow> kworld \<Rightarrow> bool" where
  "looked_up X w w' \<longleftrightarrow>
     (\<forall>a. props (syms w' a) = props (syms w a)) \<and> (\<forall>a. named w a \<longrightarrow> named w' a) \<and>
     (\<forall>a. allocated w a \<longrightarrow> allocated w' a) \<and> (\<forall>a. a \<notin> X \<longrightarrow> sym_is_choice a w' \<longrightarrow> sym_is_choice a w) \<and>
     table_ok w'"

lemma looked_up_refl: "table_ok w \<Longrightarrow> looked_up X w w"
  by (simp add: looked_up_def)

lemma looked_up_trans: "looked_up X a b \<Longrightarrow> looked_up X b c \<Longrightarrow> looked_up X a c"
  unfolding looked_up_def by metis

lemma looked_up_table: "looked_up X w w' \<Longrightarrow> table_ok w'"
  by (simp add: looked_up_def)

lemma new_symbol_looked_up:
  assumes "table_ok w" and "new_symbol nm fl h w = (s, w')" and "SYMBOL_CHOICE \<in> fl \<Longrightarrow> s \<in> X"
  shows "looked_up X w w'" "allocated w' s" "nm \<noteq> None \<Longrightarrow> named w' s" "\<not> allocated w s"
proof -
  have s: "s = Sym (next_sym w)" and w': "w' = w\<lparr>next_sym := next_sym w + 1,
     syms := (syms w)(s := zero_symbol\<lparr>sym_name := nm, sym_type := S_UNKNOWN, flags := fl\<rparr>),
     symbol_hash := (symbol_hash w)(h := s # symbol_hash w h)\<rparr>"
    using assms(2) by (auto simp: new_symbol_def Let_def)
  show new: "\<not> allocated w s" and "allocated w' s"
    by (simp_all add: s w' allocated_def)
  have grow: "allocated w' a" if "allocated w a" for a
    using that by (auto simp: allocated_def w')
  have empty: "props (syms w s) = []"
    using assms(1) new by (simp add: table_ok_def)
  show "named w' s" if "nm \<noteq> None"
    using that by (simp add: named_def w')
  have "table_ok w'"
    unfolding table_ok_def
  proof (intro conjI allI ballI impI)
    fix a
    assume a: "\<not> allocated w' a"
    then have "a \<noteq> s" "\<not> allocated w a"
      using grow \<open>allocated w' s\<close> by auto
    then show "props (syms w' a) = []" "\<not> named w' a"
      using assms(1) by (simp_all add: table_ok_def w' named_def)
  next
    fix h a
    assume "a \<in> set (symbol_hash w' h)"
    then have "a = s \<or> allocated w a"
      using assms(1) by (auto simp: table_ok_def w' split: if_splits)
    then show "allocated w' a"
      using grow \<open>allocated w' s\<close> by blast
  qed (use assms(1) s in \<open>auto simp: table_ok_def named_def w'\<close>)
  moreover have "\<not> named w s"
    using assms(1) new by (simp add: table_ok_def)
  ultimately show "looked_up X w w'"
    using grow empty assms(3)
    by (auto simp: looked_up_def w' named_def zero_symbol_def sym_is_choice_def has_flag_def)
qed

lemma sym_lookup_looked_up:
  assumes "table_ok w" and "sym_lookup nm fl w = (s, w')"
    and "SYMBOL_CHOICE \<in> fl \<Longrightarrow> s \<in> X"
  shows "looked_up X w w'" "allocated w' s" "nm \<noteq> None \<Longrightarrow> named w' s"
    and "w' = w \<or> props (syms w s) = []"
proof -
  have "(looked_up X w w' \<and> allocated w' s \<and> (nm \<noteq> None \<longrightarrow> named w' s)) \<and> (w' = w \<or> props (syms w s) = [])"
  proof (cases nm)
    case None
    then have "new_symbol None fl 0 w = (s, w')"
      using assms(2) by (simp add: sym_lookup_def)
    from new_symbol_looked_up[OF assms(1) this assms(3)] show ?thesis
      using None assms(1) by (simp add: table_ok_def)
  next
    case (Some n)
    show ?thesis
    proof (cases "const_name n")
      case (Some c)
      then have "s = c" "w' = w"
        using assms(2) \<open>nm = Some n\<close> by (simp_all add: sym_lookup_def)
      moreover have "c \<in> {symbol_yes, symbol_mod, symbol_no}"
        using Some by (auto simp: const_name_def split: if_splits)
      ultimately show ?thesis
        using assms(1) by (auto simp: table_ok_def looked_up_def allocated_def)
    next
      case None
      show ?thesis
      proof (cases "find (\<lambda>s. lookup_match n fl (syms w s)) (symbol_hash w (name_bucket n))")
        case None
        then have "new_symbol (Some n) fl (name_bucket n) w = (s, w')"
          using assms(2) \<open>nm = Some n\<close> \<open>const_name n = None\<close> by (simp add: sym_lookup_def)
        from new_symbol_looked_up[OF assms(1) this assms(3)] show ?thesis
          using assms(1) by (simp add: table_ok_def)
      next
        case (Some a)
        then have "s = a" "w' = w"
          using assms(2) \<open>nm = Some n\<close> \<open>const_name n = None\<close> by (simp_all add: sym_lookup_def)
        moreover have "lookup_match n fl (syms w a)" "a \<in> set (symbol_hash w (name_bucket n))"
          using Some by (auto simp: find_Some_iff)
        ultimately show ?thesis
          using assms(1) by (auto simp: table_ok_def looked_up_def lookup_match_def named_def)
      qed
    qed
  qed
  then show "looked_up X w w'" "allocated w' s" "nm \<noteq> None \<Longrightarrow> named w' s" "w' = w \<or> props (syms w s) = []"
    by blast+
qed

lemma find_word_looked_up:
  assumes "table_ok w" and "find_word x w = (s, w')"
  shows "looked_up {} w w'" "allocated w' s" "named w' s"
proof -
  obtain n fl where "sym_lookup (Some n) fl w = (s, w')" "SYMBOL_CHOICE \<notin> fl"
    using assms(2) by (cases x) (auto simp: find_word_def)
  then show "looked_up {} w w'" "allocated w' s" "named w' s"
    using sym_lookup_looked_up[OF assms(1), of "Some n" fl s w' "{}"] by simp_all
qed

definition symbol_named :: "kworld \<Rightarrow> expr \<Rightarrow> bool" where
  "symbol_named w e \<longleftrightarrow> (\<forall>a. e = E_SYMBOL a \<longrightarrow> named w a)"

lemma build_expr_looked_up:
  "table_ok w \<Longrightarrow> build_expr c w = (e, w') \<Longrightarrow> looked_up {} w w' \<and> symbol_named w' e"
proof (induction c w arbitrary: e w' rule: build_expr.induct)
  case (1 x w)
  then show ?case
    using find_word_looked_up[OF 1(1), of x] by (auto simp: symbol_named_def split: prod.splits)
next
  case (2 c x y w)
  obtain a w1 where 1: "find_word x w = (a, w1)" by fastforce
  obtain b w2 where 2: "find_word y w1 = (b, w2)" by fastforce
  have l: "looked_up {} w w1"
    using find_word_looked_up(1)[OF \<open>table_ok w\<close> 1] .
  have "looked_up {} w1 w2"
    using find_word_looked_up(1)[OF looked_up_table[OF l] 2] .
  then show ?case
    using \<open>build_expr (Compare c x y) w = (e, w')\<close> 1 2 looked_up_trans[OF l] by (auto simp: symbol_named_def)
next
  case (3 c w)
  obtain a w1 where "build_expr c w = (a, w1)" by fastforce
  then show ?case
    using 3 by (auto simp: symbol_named_def)
next
  case (4 l r w)
  obtain a w1 where 1: "build_expr l w = (a, w1)" by fastforce
  obtain b w2 where 2: "build_expr r w1 = (b, w2)" by fastforce
  have l: "looked_up {} w w1"
    using 4(1)[OF 4(3) 1] by simp
  have "looked_up {} w1 w2"
    using 4(2)[OF 1[symmetric] refl looked_up_table[OF l] 2] by simp
  then show ?case
    using 4(4) 1 2 looked_up_trans[OF l] by (auto simp: symbol_named_def)
next
  case (5 l r w)
  obtain a w1 where 1: "build_expr l w = (a, w1)" by fastforce
  obtain b w2 where 2: "build_expr r w1 = (b, w2)" by fastforce
  have l: "looked_up {} w w1"
    using 5(1)[OF 5(3) 1] by simp
  have "looked_up {} w1 w2"
    using 5(2)[OF 1[symmetric] refl looked_up_table[OF l] 2] by simp
  then show ?case
    using 5(4) 1 2 looked_up_trans[OF l] by (auto simp: symbol_named_def)
qed

lemma build_if_looked_up:
  assumes "table_ok w" and "build_if c w = (e, w')"
  shows "looked_up {} w w'"
  using assms build_expr_looked_up[OF assms(1)]
  by (auto simp: build_if_def looked_up_refl split: option.splits prod.splits)

subsection \<open>States of the parser\<close>

definition prompt_kinds :: "menu_world \<Rightarrow> bool" where
  "prompt_kinds st \<longleftrightarrow> (\<forall>m p. entry_prompt m st = Some p \<longrightarrow> prop_type p \<noteq> P_CHOICE)"

lemma keeps_prompt_kinds:
  assumes "keeps st st'" and "valid_prompts st" and "prompt_kinds st"
  shows "prompt_kinds st'"
  unfolding prompt_kinds_def
proof (intro allI impI)
  fix m p
  assume "entry_prompt m st' = Some p"
  then obtain q where "entry_prompt m st = Some q" "prop_id q = prop_id p"
    using keeps_entry_prompt[OF assms(1,2), of m] by (cases "entry_prompt m st") auto
  then show "prop_type p \<noteq> P_CHOICE"
    using assms(3) by (auto simp: prompt_kinds_def prop_id_def)
qed

definition ready :: "sym set \<Rightarrow> menu_world \<Rightarrow> bool" where
  "ready X st \<longleftrightarrow>
     table_ok (mw st) \<and> well_formed_but X st \<and> valid_prompts st \<and> prompt_kinds st \<and>
     (\<forall>m s. entry_sym m st = Some s \<longrightarrow> allocated (mw st) s)"

text \<open>The options of an entry leave the tree and the place of the parser alone.\<close>

definition unmoved :: "menu_world \<Rightarrow> menu_world \<Rightarrow> bool" where
  "unmoved st st' \<longleftrightarrow>
     menu_tree st' = menu_tree st \<and> next_menu st' = next_menu st \<and>
     current_menu st' = current_menu st \<and> current_entry st' = current_entry st \<and>
     (\<forall>m. parent_of m st' = parent_of m st \<and> entry_sym m st' = entry_sym m st)"

definition step_ok :: "sym set \<Rightarrow> menu_world \<Rightarrow> menu_world \<Rightarrow> bool" where
  "step_ok X st st' \<longleftrightarrow> ready X st' \<and> unmoved st st'"

definition quiet :: "menu_world \<Rightarrow> menu_world \<Rightarrow> bool" where
  "quiet st st' \<longleftrightarrow>
     harmless st st' \<and> calm st st' \<and> unmoved st st' \<and>
     next_sym (mw st') = next_sym (mw st) \<and> symbol_hash (mw st') = symbol_hash (mw st)"

lemma unmoved_refl [simp]: "unmoved st st"
  by (simp add: unmoved_def)

lemma unmoved_trans: "unmoved a b \<Longrightarrow> unmoved b c \<Longrightarrow> unmoved a c"
  by (simp add: unmoved_def)

lemma quiet_refl [simp]: "quiet st st"
  by (simp add: quiet_def)

lemma quiet_trans: "quiet a b \<Longrightarrow> quiet b c \<Longrightarrow> quiet a c"
  unfolding quiet_def using harmless_trans calm_trans unmoved_trans by metis

lemma step_trans: "step_ok X a b \<Longrightarrow> step_ok Y b c \<Longrightarrow> step_ok Y a c"
  unfolding step_ok_def using unmoved_trans by blast

lemma step_ready: "step_ok X a b \<Longrightarrow> ready X b"
  by (simp add: step_ok_def)

lemma quiet_step:
  assumes "quiet st st'" and "ready X st"
  shows "step_ok X st st'"
proof -
  have h: "harmless st st'" and c: "calm st st'"
    and n: "next_sym (mw st') = next_sym (mw st)" "symbol_hash (mw st') = symbol_hash (mw st)"
    using assms(1) by (simp_all add: quiet_def)
  have a: "allocated (mw st') s = allocated (mw st) s" for s
    by (simp add: allocated_def n)
  have p: "props (syms (mw st') s) = [] \<longleftrightarrow> props (syms (mw st) s) = []" for s
  proof -
    have "map sig (props (syms (mw st') s)) = map sig (props (syms (mw st) s))"
      using h by (simp add: harmless_def same_sig_def)
    then show ?thesis
      by (metis map_is_Nil_conv)
  qed
  have "table_ok (mw st')"
    using assms(2) by (simp add: ready_def table_ok_def a n p harmless_named[OF h])
  moreover have "well_formed_but X st'" "valid_prompts st'" "prompt_kinds st'"
    using harmless_well_formed[OF h] calm_valid[OF c] keeps_prompt_kinds[OF calm_keeps[OF c]] assms(2)
    by (simp_all add: ready_def)
  moreover have "allocated (mw st') s" if "entry_sym m st' = Some s" for m s
    using that assms(2) harmless_entry_sym[OF h] by (simp add: ready_def a)
  ultimately show ?thesis
    using assms(1) by (simp add: step_ok_def ready_def quiet_def)
qed

lemma prop_ok_mono:
  assumes "prop_ok w p" and "\<And>a. named w a \<Longrightarrow> named w' a"
  shows "prop_ok w' p"
  using assms by (cases "prop_type p") (auto simp: prop_ok_def)

lemma looked_up_step:
  assumes "ready {} st" and "looked_up X (mw st) w'"
  shows "step_ok X st (st\<lparr>mw := w'\<rparr>)"
proof -
  have p: "props (syms w' a) = props (syms (mw st) a)" for a
    using assms(2) by (simp add: looked_up_def)
  have ok: "prop_ok w' q" if "prop_ok (mw st) q" for q
    using prop_ok_mono[OF that] assms(2) by (simp add: looked_up_def)
  have e: "entry_sym m (st\<lparr>mw := w'\<rparr>) = entry_sym m st" "parented (st\<lparr>mw := w'\<rparr>) m = parented st m"
    "parent_of m (st\<lparr>mw := w'\<rparr>) = parent_of m st" for m
    by (simp_all add: entry_sym_def parented_def parent_of_def)
  have wf: "well_formed st" and t: "valid_prompts st"
    using assms(1) by (simp_all add: ready_def)
  have "well_formed_but X (st\<lparr>mw := w'\<rparr>)"
    unfolding well_formed_but_def e
  proof (intro conjI allI ballI impI)
    fix s q
    assume "q \<in> set (props (syms (mw (st\<lparr>mw := w'\<rparr>)) s))"
    then have "q \<in> set (props (syms (mw st) s))"
      by (simp add: p)
    then show "prop_ok (mw (st\<lparr>mw := w'\<rparr>)) q" "\<exists>m. prop_menu q = Some m \<and> parented st m"
      using ok well_formedD(1,2)[OF wf] by auto
  next
    fix s
    assume "s \<notin> X"
    then show "choice_ok (mw (st\<lparr>mw := w'\<rparr>)) s"
      using well_formedD(3)[OF wf, of s] assms(2) p by (auto simp: choice_ok_def looked_up_def sym_get_choice_prop_def)
  qed (use well_formedD(4)[OF wf] in blast)
  moreover have "valid_prompts (st\<lparr>mw := w'\<rparr>)"
    using t by (simp add: valid_prompts_def p)
  moreover have "entry_prompt m (st\<lparr>mw := w'\<rparr>) = entry_prompt m st" for m
    by (simp add: entry_prompt_def entry_sym_def prop_at_def p split: option.split menu_prompt.split)
  ultimately show ?thesis
    using assms by (auto simp: step_ok_def ready_def unmoved_def e looked_up_def prompt_kinds_def)
qed

text \<open>A property of the current entry.\<close>

lemma menu_add_prop_step:
  assumes "ready X st" and "prop_ok (mw st) p" and "prop_menu p = Some (current_entry st)"
    and "menu_add_prop p st = (at, st')"
  shows "step_ok X st st'"
    and "\<And>m i. menu_prompt (menus st' m) = menu_prompt (menus st m)"
    and "at = In_symbol i \<Longrightarrow> \<exists>s. menu_sym (menus st (current_entry st)) = Some s \<and> i < length (props (syms (mw st') s))"
proof -
  have "step_ok X st st' \<and> (\<forall>m. menu_prompt (menus st' m) = menu_prompt (menus st m)) \<and>
    (\<forall>i. at = In_symbol i \<longrightarrow> (\<exists>s. menu_sym (menus st (current_entry st)) = Some s \<and> i < length (props (syms (mw st') s))))"
  proof (cases "entry_sym (current_entry st) st")
    case None
    then show ?thesis
      using assms(1,4) by (auto simp: menu_add_prop_def step_ok_def)
  next
    case (Some s)
    let ?st = "on_mw (upd_sym s (append_prop p)) st"
    have st': "st' = ?st" and at: "at = In_symbol (length (props (syms (mw st) s)))"
      using assms(4) Some by (simp_all add: menu_add_prop_def)
    have wf: "well_formed_but X st" and t: "table_ok (mw st)" and v: "valid_prompts st" and al: "allocated (mw st) s"
      using assms(1) Some by (auto simp: ready_def)
    have "parented st (current_entry st)"
      using well_formedD(4)[OF wf] Some by simp
    then have 1: "well_formed_but X ?st"
      using append_prop_well_formed[OF wf assms(2,3)] by blast
    have 2: "valid_prompts ?st" "prompt_kinds ?st"
      using calm_valid[OF calm_on_mw v] keeps_prompt_kinds[OF calm_keeps[OF calm_on_mw] v] grows_append assms(1)
      unfolding ready_def by blast+
    have a: "allocated (mw ?st) x = allocated (mw st) x" for x
      by (simp add: on_mw_def allocated_def)
    have "table_ok (upd_sym s (append_prop p) (mw st))"
      using t al by (auto simp: table_ok_def allocated_def append_prop_def named_def)
    then have "ready X ?st"
      using assms(1) 1 2 a by (simp add: ready_def entry_sym_def on_mw_def)
    then show ?thesis
      using Some by (simp add: st' at step_ok_def unmoved_def on_mw_def parent_of_def entry_sym_def append_prop_def)
  qed
  then show "step_ok X st st'" "\<And>m i. menu_prompt (menus st' m) = menu_prompt (menus st m)"
    "at = In_symbol i \<Longrightarrow> \<exists>s. menu_sym (menus st (current_entry st)) = Some s \<and> i < length (props (syms (mw st') s))"
    by blast+
qed

lemma menu_add_expr_step:
  assumes "ready X st" and "prop_ok (mw st) (new_property ty None e dep st)"
  shows "step_ok X st (menu_add_expr ty e dep st)"
  unfolding menu_add_expr_def
  using menu_add_prop_step(1)[OF assms(1,2), of "fst (menu_add_prop (new_property ty None e dep st) st)"]
  by (simp add: new_property_def)

subsection \<open>Options\<close>

lemma with_kw_step:
  assumes "ready {} st" and "with_kw f st = (x, st')" and "\<And>w'. f (mw st) = (x, w') \<Longrightarrow> looked_up X (mw st) w'"
  shows "step_ok X st st'" and "named (mw st) a \<Longrightarrow> named (mw st') a"
proof -
  obtain w' where w: "f (mw st) = (x, w')" "st' = st\<lparr>mw := w'\<rparr>"
    using assms(2) by (auto simp: with_kw_def split: prod.splits)
  show "step_ok X st st'"
    using looked_up_step[OF assms(1) assms(3)[OF w(1)]] w(2) by simp
  show "named (mw st') a" if "named (mw st) a"
    using assms(3)[OF w(1)] that by (simp add: looked_up_def w(2))
qed

lemma ready_table: "ready X st \<Longrightarrow> table_ok (mw st)"
  by (simp add: ready_def)

lemma with_if_step:
  assumes "ready {} st" and "with_kw (build_if c) st = (e, st')"
  shows "step_ok {} st st'" and "named (mw st) a \<Longrightarrow> named (mw st') a"
  using with_kw_step[OF assms, of "{}"] build_if_looked_up[OF ready_table[OF assms(1)]] by blast+

lemma with_expr_step:
  assumes "ready {} st" and "with_kw (build_expr c) st = (e, st')"
  shows "step_ok {} st st'" and "symbol_named (mw st') e"
proof -
  show "step_ok {} st st'"
    using with_kw_step[OF assms, of "{}"] build_expr_looked_up[OF ready_table[OF assms(1)]] by blast
  obtain w' where "build_expr c (mw st) = (e, w')" "st' = st\<lparr>mw := w'\<rparr>"
    using assms(2) by (auto simp: with_kw_def split: prod.splits)
  then show "symbol_named (mw st') e"
    using build_expr_looked_up[OF ready_table[OF assms(1)]] by simp
qed

lemma with_word_step:
  assumes "ready {} st" and "with_kw (find_word x) st = (s, st')"
  shows "step_ok {} st st'" and "named (mw st') s" and "allocated (mw st') s"
    and "named (mw st) a \<Longrightarrow> named (mw st') a"
proof -
  obtain w' where w: "find_word x (mw st) = (s, w')" "st' = st\<lparr>mw := w'\<rparr>"
    using assms(2) by (auto simp: with_kw_def split: prod.splits)
  show "named (mw st') s" "allocated (mw st') s"
    using find_word_looked_up[OF ready_table[OF assms(1)] w(1)] w(2) by simp_all
  show "step_ok {} st st'" "named (mw st) a \<Longrightarrow> named (mw st') a"
    using with_kw_step[OF assms, of "{}"] find_word_looked_up(1)[OF ready_table[OF assms(1)]] by blast+
qed

lemma quiet_on_mw:
  assumes "same_sig (mw st) (f (mw st))" and "grows (mw st) (f (mw st))"
    and "next_sym (f (mw st)) = next_sym (mw st)" "symbol_hash (f (mw st)) = symbol_hash (mw st)"
  shows "quiet st (on_mw f st)"
  using harmless_on_mw[of st f, OF assms(1)] calm_on_mw[of st f, OF assms(2)] assms(3,4)
  by (simp add: quiet_def unmoved_def on_mw_def parent_of_def entry_sym_def)

lemma quiet_upd_sym [harmless_intros]:
  "fl \<noteq> SYMBOL_CHOICE \<Longrightarrow> quiet st (on_mw (upd_sym s (set_flag fl)) st)"
  "quiet st (on_mw (upd_sym s (set_type ty)) st)"
  by (simp_all add: quiet_on_mw same_sig_simple grows_simple)

lemma quiet_messages: "quiet st (on_mw (\<lambda>w. w\<lparr>messages := f w\<rparr>) st)"
  by (rule quiet_on_mw) (simp_all add: same_sig_messages grows_messages)

lemma quiet_warn [harmless_intros]:
  "quiet st (menu_warn m msg st)" "quiet st (prop_warn p msg st)" "quiet st (zconfprint msg st)"
  "quiet st (update_if b (prop_warn p msg) st)" "quiet st (update_if b (zconfprint msg) st)"
  by (simp_all add: menu_warn_def prop_warn_def warning_at_def zconfprint_def update_if_def quiet_messages)

lemma quiet_fields:
  assumes "mw st' = mw st" "menus st' = menus st" "menu_tree st' = menu_tree st" "next_menu st' = next_menu st"
    "current_menu st' = current_menu st" "current_entry st' = current_entry st"
  shows "quiet st st'"
  using assms by (simp add: quiet_def harmless_def same_entries_def entry_sym_def parented_def parent_of_def
      calm_def keeps_def menu_id_def unmoved_def)

lemma quiet_position [harmless_intros]: "quiet st (at_position pos st)"
  by (rule quiet_fields) (simp_all add: at_position_def)

lemma quiet_error: "quiet st (zconf_error msg st)"
proof -
  have "quiet st (st\<lparr>yynerrs := yynerrs st + 1\<rparr>)"
    by (rule quiet_fields) simp_all
  then show ?thesis
    unfolding zconf_error_def by (rule quiet_trans) (rule quiet_messages)
qed

lemma quiet_upd_menu:
  assumes "\<And>x. menu_sym (f x) = menu_sym x" "\<And>x. menu_parent (f x) = menu_parent x"
    and "\<And>x. menu_prompt (f x) = menu_prompt x"
  shows "quiet st (upd_menu m f st)"
  using harmless_upd_menu[of f st m] calm_upd_menu[of f st m] assms
  by (simp add: quiet_def unmoved_def upd_menu_def parent_of_def entry_sym_def)

lemma menu_set_type_quiet: "menu_set_type ty st = Some st' \<Longrightarrow> quiet st st'"
  by (auto simp: menu_set_type_def Let_def intro: harmless_intros split: Option.bind_splits if_splits)

lemma set_prompt_step:
  assumes "ready X st" and "\<And>i. at = In_symbol i \<Longrightarrow> \<exists>s. menu_sym (menus st m) = Some s \<and>
      i < length (props (syms (mw st) s)) \<and> prop_type (prop_at s i (mw st)) \<noteq> P_CHOICE"
    and "\<And>p. at = Own p \<Longrightarrow> prop_type p \<noteq> P_CHOICE"
  shows "step_ok X st (upd_menu m (\<lambda>x. x\<lparr>menu_prompt := Some at\<rparr>) st)"
proof -
  let ?st = "upd_menu m (\<lambda>x. x\<lparr>menu_prompt := Some at\<rparr>) st"
  have e: "entry_sym x ?st = entry_sym x st" "parent_of x ?st = parent_of x st" "mw ?st = mw st" for x
    by (simp_all add: upd_menu_def entry_sym_def parent_of_def)
  have "well_formed_but X ?st"
    using harmless_well_formed[OF harmless_upd_menu] assms(1) by (simp add: ready_def)
  moreover have "valid_prompts ?st"
    using assms(1,2) by (auto simp: ready_def valid_prompts_def upd_menu_def)
  moreover have "prompt_kinds ?st"
    unfolding prompt_kinds_def
  proof (intro allI impI)
    fix x p
    assume p: "entry_prompt x ?st = Some p"
    show "prop_type p \<noteq> P_CHOICE"
    proof (cases "x = m")
      case True
      then show ?thesis
        using p assms(2,3) by (cases at) (auto simp: entry_prompt_def upd_menu_def entry_sym_def)
    next
      case False
      then have "menus ?st x = menus st x"
        by (simp add: upd_menu_def)
      then have "entry_prompt x st = Some p"
        using p unfolding entry_prompt_def e by simp
      then show ?thesis
        using assms(1) by (auto simp: ready_def prompt_kinds_def)
    qed
  qed
  ultimately show ?thesis
    using assms(1) by (simp add: step_ok_def ready_def e unmoved_def) (simp add: upd_menu_def)
qed

lemma menu_add_prompt_step:
  assumes "ready X st" and "ty \<in> {P_PROMPT, P_MENU, P_COMMENT}"
  shows "step_ok X st (menu_add_prompt ty prompt dep st)"
proof -
  define str where "str = dropWhile is_space prompt"
  define d where "d = (if ty = P_PROMPT
    then restrict_visibility (upper_visibility (current_entry st) (current_entry st) (menus st)) dep else dep)"
  define p where "p = new_property ty (Some str) None d st"
  obtain at st1 where a: "menu_add_prop p st = (at, st1)"
    by fastforce
  have ok: "prop_ok (mw st) p" "prop_menu p = Some (current_entry st)" "prop_type p = ty"
    using assms(2) by (auto simp: p_def new_property_def prop_ok_def)
  note s1 = menu_add_prop_step[OF assms(1) ok(1,2) a]
  define st2 where "st2 = update_if (menu_has_prompt (current_entry st) st) (prop_warn p ''prompt redefined'')
    (update_if (str \<noteq> prompt) (prop_warn p ''leading whitespace ignored'') st1)"
  have q: "quiet st1 st2"
    unfolding st2_def by (rule quiet_trans[OF quiet_warn(4) quiet_warn(4)])
  have s2: "step_ok X st1 st2"
    using quiet_step[OF q step_ready[OF s1(1)]] .
  have same: "menus st2 = menus st1" "syms (mw st2) = syms (mw st1)"
    by (simp_all add: st2_def update_if_def prop_warn_def warning_at_def on_mw_def)
  have "step_ok X st2 (upd_menu (current_entry st) (\<lambda>x. x\<lparr>menu_prompt := Some at\<rparr>) st2)"
  proof (rule set_prompt_step[OF step_ready[OF s2]])
    fix i
    assume at: "at = In_symbol i"
    obtain s where s: "entry_sym (current_entry st) st = Some s" "i = length (props (syms (mw st) s))"
      "st1 = on_mw (upd_sym s (append_prop p)) st"
      using a at by (auto simp: menu_add_prop_def split: option.splits)
    have "menu_sym (menus st2 (current_entry st)) = Some s"
      using s by (simp add: same on_mw_def entry_sym_def)
    moreover have "i < length (props (syms (mw st2) s))" "prop_at s i (mw st2) = p"
      using s by (simp_all add: same prop_at_def on_mw_def append_prop_def)
    ultimately show "\<exists>s. menu_sym (menus st2 (current_entry st)) = Some s \<and> i < length (props (syms (mw st2) s)) \<and>
        prop_type (prop_at s i (mw st2)) \<noteq> P_CHOICE"
      using ok(3) assms(2) by auto
  next
    fix x
    assume "at = Own x"
    then show "prop_type x \<noteq> P_CHOICE"
      using a ok(3) assms(2) by (auto simp: menu_add_prop_def split: option.splits)
  qed
  moreover have "menu_add_prompt ty prompt dep st =
      upd_menu (current_entry st) (\<lambda>x. x\<lparr>menu_prompt := Some at\<rparr>) st2"
    using a by (simp add: menu_add_prompt_def Let_def str_def d_def p_def st2_def)
  ultimately show ?thesis
    using step_trans[OF s1(1) step_trans[OF s2]] by simp
qed

lemma quiet_option_modules: "menu_add_option_modules st = Some st' \<Longrightarrow> quiet st st'"
proof -
  have f: "quiet a (a\<lparr>modules_option := x\<rparr>)" for a x
    by (rule quiet_fields) simp_all
  show "menu_add_option_modules st = Some st' \<Longrightarrow> quiet st st'"
    by (auto simp: menu_add_option_modules_def Let_def intro: f quiet_trans[OF quiet_error f]
        split: Option.bind_splits option.splits)
qed

lemma quiet_defconfig_list: "menu_add_option_defconfig_list st = Some st' \<Longrightarrow> quiet st st'"
proof -
  assume a: "menu_add_option_defconfig_list st = Some st'"
  let ?st = "if defconfig_option st = None then st\<lparr>defconfig_option := entry_sym (current_entry st) st\<rparr>
             else if defconfig_option st \<noteq> entry_sym (current_entry st) st
             then zconf_error ''trying to redefine defconfig symbol'' st else st"
  have "quiet st (st\<lparr>defconfig_option := x\<rparr>)" for x
    by (rule quiet_fields) simp_all
  then have q: "quiet st ?st"
    by (simp add: quiet_error)
  obtain s where "st' = on_mw (upd_sym s (set_flag SYMBOL_NO_WRITE)) ?st"
    using a by (auto simp: menu_add_option_defconfig_list_def Let_def split: Option.bind_splits)
  then show ?thesis
    using quiet_trans[OF q quiet_upd_sym(1)] by simp
qed

lemma quiet_add_help: "add_help t st = Some st' \<Longrightarrow> quiet st st'"
proof -
  assume a: "add_help t st = Some st'"
  have h: "quiet b (upd_menu m (\<lambda>x. x\<lparr>menu_help := Some t\<rparr>) b)" for b m
    by (rule quiet_upd_menu) simp_all
  obtain b c m1 m2 m where "st' = upd_menu m (\<lambda>x. x\<lparr>menu_help := Some t\<rparr>)
      (update_if c (zconfprint m2) (update_if b (zconfprint m1) st))"
    using a by (auto simp: add_help_def Let_def split: Option.bind_splits)
  then show ?thesis
    using quiet_trans[OF quiet_trans[OF quiet_warn(5) quiet_warn(5)] h] by simp
qed

lemma quiet_add_dep: "quiet st (menu_add_dep e st)" "quiet st (menu_add_visibility e st)"
  unfolding menu_add_dep_def menu_add_visibility_def by (rule quiet_upd_menu; simp)+

lemma new_property_simps [simp]:
  "prop_type (new_property ty t e d st) = ty" "prop_expr (new_property ty t e d st) = e"
  "prop_menu (new_property ty t e d st) = Some (current_entry st)"
  by (simp_all add: new_property_def)

lemma add_prompt_if_step:
  assumes "ready {} st"
  shows "step_ok {} st (add_prompt_if t c st)"
proof -
  obtain e st1 where 1: "with_kw (build_if c) st = (e, st1)"
    by fastforce
  show ?thesis
    using step_trans[OF with_if_step(1)[OF assms 1] menu_add_prompt_step[OF step_ready[OF with_if_step(1)[OF assms 1]]]] 1
    by (simp add: add_prompt_if_def)
qed

lemma add_symbol_if_step:
  assumes "ready {} st" and "ty \<noteq> P_RANGE"
  shows "step_ok {} st (add_symbol_if ty n c st)"
proof -
  obtain s st1 where 1: "with_kw (find_word (Plain n)) st = (s, st1)"
    by fastforce
  note w = with_word_step[OF assms(1) 1]
  obtain e st2 where 2: "with_kw (build_if c) st1 = (e, st2)"
    by fastforce
  note i = with_if_step[OF step_ready[OF w(1)] 2]
  have "named (mw st2) s"
    using i(2) w(2) by blast
  then have "prop_ok (mw st2) (new_property ty None (Some (E_SYMBOL s)) e st2)"
    using assms(2) by (cases ty) (simp_all add: prop_ok_def prop_get_symbol_def)
  then have "step_ok {} st2 (menu_add_symbol ty s e st2)"
    unfolding menu_add_symbol_def using menu_add_expr_step[OF step_ready[OF i(1)]] by blast
  then show ?thesis
    using step_trans[OF w(1) step_trans[OF i(1)]] 1 2 by (simp add: add_symbol_if_def)
qed

lemma add_default_step:
  assumes "ready {} st"
    and "with_kw (build_expr v) st = (e, st1)" and "with_kw (build_if c) st1 = (d, st2)"
  shows "step_ok {} st (menu_add_expr P_DEFAULT (Some e) d st2)"
proof -
  note x = with_expr_step[OF assms(1,2)]
  note i = with_if_step[OF step_ready[OF x(1)] assms(3)]
  have "symbol_named (mw st2) e"
    using i(2) x(2) by (auto simp: symbol_named_def)
  then have "prop_ok (mw st2) (new_property P_DEFAULT None (Some e) d st2)"
    by (simp add: prop_ok_def symbol_named_def)
  then show ?thesis
    using step_trans[OF x(1) step_trans[OF i(1) menu_add_expr_step[OF step_ready[OF i(1)]]]] by blast
qed

lemma add_range_step:
  assumes "ready {} st" and "with_kw (find_word x) st = (a, st1)" and "with_kw (find_word y) st1 = (b, st2)"
    and "with_kw (build_if c) st2 = (d, st3)"
  shows "step_ok {} st (menu_add_expr P_RANGE (Some (E_RANGE a b)) d st3)"
proof -
  note x = with_word_step[OF assms(1,2)]
  note y = with_word_step[OF step_ready[OF x(1)] assms(3)]
  note i = with_if_step[OF step_ready[OF y(1)] assms(4)]
  have "named (mw st3) a" "named (mw st3) b"
    using x(2) y(2,4) i(2) by blast+
  then have "prop_ok (mw st3) (new_property P_RANGE None (Some (E_RANGE a b)) d st3)"
    by (simp add: prop_ok_def)
  then show ?thesis
    using step_trans[OF x(1) step_trans[OF y(1) step_trans[OF i(1) menu_add_expr_step[OF step_ready[OF i(1)]]]]] by blast
qed

lemma quiet_end:
  assumes "step_ok {} st st1" and "quiet st1 st'"
  shows "step_ok {} st st'"
  using step_trans[OF assms(1) quiet_step[OF assms(2) step_ready[OF assms(1)]]] .

lemma run_option_step:
  assumes "ready {} st" and "run_option opt st = Some st'"
  shows "step_ok {} st st'"
proof (cases opt)
  case (Type ty p)
  let ?st = "case p of None \<Rightarrow> st | Some (t, c) \<Rightarrow> add_prompt_if t c st"
  have "step_ok {} st ?st"
    using assms(1) add_prompt_if_step[OF assms(1)] by (auto simp: step_ok_def split: option.split)
  moreover have "menu_set_type ty ?st = Some st'"
    using assms(2) Type by (simp add: run_option_def)
  ultimately show ?thesis
    using quiet_end menu_set_type_quiet by blast
next
  case (Default ty v c)
  obtain e st1 where 1: "with_kw (build_expr v) st = (e, st1)" by fastforce
  obtain d st2 where 2: "with_kw (build_if c) st1 = (d, st2)" by fastforce
  note s = add_default_step[OF assms(1) 1 2]
  have "st' = menu_add_expr P_DEFAULT (Some e) d st2 \<or>
      menu_set_type ty (menu_add_expr P_DEFAULT (Some e) d st2) = Some st'"
    using assms(2) Default 1 2 by (auto simp: run_option_def Let_def split: if_splits)
  then show ?thesis
    using s quiet_end[OF s menu_set_type_quiet] by blast
next
  case (Range x y c)
  obtain a st1 where 1: "with_kw (find_word x) st = (a, st1)" by fastforce
  obtain b st2 where 2: "with_kw (find_word y) st1 = (b, st2)" by fastforce
  obtain d st3 where 3: "with_kw (build_if c) st2 = (d, st3)" by fastforce
  show ?thesis
    using add_range_step[OF assms(1) 1 2 3] assms(2) Range 1 2 3 by (simp add: run_option_def)
next
  case (Depends c)
  obtain e st1 where 1: "with_kw (build_expr c) st = (e, st1)" by fastforce
  show ?thesis
    using quiet_end[OF with_expr_step(1)[OF assms(1) 1] quiet_add_dep(1)[of st1 "Some e"]] assms(2) Depends 1
    by (simp add: run_option_def)
next
  case (Visible c)
  obtain e st1 where 1: "with_kw (build_if c) st = (e, st1)" by fastforce
  show ?thesis
    using quiet_end[OF with_if_step(1)[OF assms(1) 1] quiet_add_dep(2)[of st1 e]] assms(2) Visible 1
    by (simp add: run_option_def)
next
  case Option_allnoconfig_y
  then show ?thesis
    using assms quiet_step[OF quiet_upd_sym(1) assms(1)]
    by (auto simp: run_option_def menu_add_option_allnoconfig_y_def split: Option.bind_splits)
next
  case Optional
  then show ?thesis
    using assms quiet_step[OF quiet_upd_sym(1) assms(1)] by (auto simp: run_option_def split: Option.bind_splits)
qed (use assms in \<open>auto simp: run_option_def intro: add_prompt_if_step add_symbol_if_step
       quiet_step quiet_option_modules quiet_defconfig_list quiet_add_help\<close>)

lemma run_options_step:
  "ready {} st \<Longrightarrow> run_options opts st = Some st' \<Longrightarrow> step_ok {} st st'"
  unfolding run_options_def
proof (induction opts arbitrary: st)
  case Nil
  then show ?case
    by (simp add: step_ok_def)
next
  case (Cons x xs)
  obtain pos opt where x: "x = (pos, opt)" by fastforce
  obtain st1 where 1: "run_option opt (at_position pos st) = Some st1"
    and 2: "each (\<lambda>(pos, opt) st. run_option opt (at_position pos st)) xs st1 = Some st'"
    using Cons.prems(2) x by (auto split: Option.bind_splits)
  have p: "step_ok {} st (at_position pos st)"
    by (rule quiet_step[OF quiet_position Cons.prems(1)])
  have s1: "step_ok {} st st1"
    using step_trans[OF p run_option_step[OF step_ready[OF p] 1]] .
  show ?case
    using step_trans[OF s1 Cons.IH[OF step_ready[OF s1] 2]] .
qed

end
