(* ===== verification/Kparse_Order.thy ===== *)
theory Kparse_Order
  imports Kparse_Props
begin

text \<open>
  The tree that the statements build, and the menus after \<open>conf_parse\<close> has finalized it.
\<close>

subsection \<open>The tree while parsing\<close>

text \<open>The path to the entry that was added last.\<close>

fun spine :: "tree \<Rightarrow> nat list" where
  "spine (Entry m ts) = m # last ([] # map spine ts)"

lemma spine_Entry [simp]: "spine (Entry m ts) = m # (if ts = [] then [] else spine (last ts))"
  by (simp add: last_map)

declare spine.simps [simp del]

definition on_course :: "menu_world \<Rightarrow> bool" where
  "on_course st \<longleftrightarrow>
     ready {} st \<and> preorder (menu_tree st) = [0..<next_menu st] \<and> linked st (menu_tree st) \<and>
     entry (menu_tree st) = rootmenu \<and> parent_of rootmenu st = None \<and>
     current_menu st \<in> set (spine (menu_tree st)) \<and> current_entry st \<in> set (spine (menu_tree st))"

lemma spine_preorder: "set (spine t) \<subseteq> set (preorder t)"
proof (induction t)
  case (Entry m ts)
  show ?case
  proof (cases "ts = []")
    case False
    then have "set (spine (last ts)) \<subseteq> set (preorder (last ts))"
      using Entry.IH by simp
    also have "\<dots> \<subseteq> set (entries ts)"
      using False last_in_set by fastforce
    finally show ?thesis
      using False by auto
  qed simp
qed

lemma add_child_other: "p \<notin> set (preorder t) \<Longrightarrow> add_child p c t = t"
proof (induction t)
  case (Entry m ts)
  then have "map (add_child p c) ts = ts"
    by (intro map_idI) auto
  then show ?case
    using Entry.prems by simp
qed

lemma entry_add_child [simp]: "entry (add_child p c t) = entry t"
  by (cases t) simp

lemma add_child_grows:
  "p \<in> set (spine t) \<Longrightarrow> distinct (preorder t) \<Longrightarrow>
     preorder (add_child p c t) = preorder t @ [c] \<and>
     c \<in> set (spine (add_child p c t)) \<and> p \<in> set (spine (add_child p c t))"
proof (induction t)
  case (Entry m ts)
  show "preorder (add_child p c (Entry m ts)) = preorder (Entry m ts) @ [c] \<and>
    c \<in> set (spine (add_child p c (Entry m ts))) \<and> p \<in> set (spine (add_child p c (Entry m ts)))"
  proof (cases "p = m")
    case True
    then have "map (add_child p c) ts = ts"
      using Entry.prems(2) by (intro map_idI) (auto intro: add_child_other)
    then show ?thesis
      using True by simp
  next
    case False
    then have ne: "ts \<noteq> []" and p: "p \<in> set (spine (last ts))"
      using Entry.prems(1) by (auto split: if_splits)
    obtain us t where ts: "ts = us @ [t]"
      using ne by (metis append_butlast_last_id)
    have pt: "p \<in> set (preorder t)" "distinct (preorder t)"
      using p spine_preorder[of t] Entry.prems(2) by (auto simp: ts)
    then have "p \<notin> set (entries us)"
      using Entry.prems(2) by (auto simp: ts)
    then have us: "map (add_child p c) us = us"
      by (intro map_idI) (auto intro: add_child_other)
    have "preorder (add_child p c t) = preorder t @ [c]" "c \<in> set (spine (add_child p c t))"
      "p \<in> set (spine (add_child p c t))"
      using Entry.IH[of t] p pt(2) by (simp_all add: ts)
    then show ?thesis
      using False us by (simp add: ts)
  qed
qed

lemma add_child_shape:
  assumes "p \<in> set (spine t)" and "distinct (preorder t)"
  shows "preorder (add_child p c t) = preorder t @ [c]"
    and "c \<in> set (spine (add_child p c t))" and "p \<in> set (spine (add_child p c t))"
  using add_child_grows[OF assms] by simp_all

lemma add_child_linked: "linked st t \<Longrightarrow> parent_of c st = Some p \<Longrightarrow> linked st (add_child p c t)"
  by (induction t) auto

lemma spine_parent:
  "linked st t \<Longrightarrow> x \<in> set (spine t) \<Longrightarrow> x \<noteq> entry t \<Longrightarrow> \<exists>p \<in> set (spine t). parent_of x st = Some p"
proof (induction t)
  case (Entry m ts)
  then have ne: "ts \<noteq> []" and x: "x \<in> set (spine (last ts))"
    by (auto split: if_splits)
  have l: "linked st (last ts)" "parent_of (entry (last ts)) st = Some m"
    using Entry.prems(1) ne by simp_all
  show ?case
  proof (cases "x = entry (last ts)")
    case True
    then show ?thesis
      using l(2) by simp
  next
    case False
    then show ?thesis
      using Entry.IH[of "last ts"] ne l(1) x by auto
  qed
qed

lemma linked_unmoved:
  assumes "\<And>m. parent_of m st' = parent_of m st"
  shows "linked st' t = linked st t"
  by (rule linked_outside) (simp add: assms)

lemma on_course_step:
  assumes "on_course st" and "step_ok {} st st'"
  shows "on_course st'"
  using assms linked_unmoved[of st' st]
  by (simp add: on_course_def step_ok_def unmoved_def)

lemma on_course_ready: "on_course st \<Longrightarrow> ready {} st"
  by (simp add: on_course_def)

subsection \<open>Adding an entry\<close>

definition put_entry :: "sym option \<Rightarrow> menu_world \<Rightarrow> menu_world" where
  "put_entry s st = st\<lparr>menus := (menus st)(next_menu st := zero_menu\<lparr>menu_sym := s, menu_parent := Some (current_menu st),
                      menu_file := here_file st, menu_lineno := here_line st\<rparr>),
                  next_menu := next_menu st + 1,
                  menu_tree := add_child (current_menu st) (next_menu st) (menu_tree st),
                  current_entry := next_menu st\<rparr>"

lemma menu_add_entry_put:
  "menu_add_entry s st = (case s of None \<Rightarrow> put_entry None st
     | Some a \<Rightarrow> menu_add_symbol P_SYMBOL a None (put_entry (Some a) st))"
  by (simp add: menu_add_entry_def put_entry_def Let_def split: option.split)

lemma put_entry_simps [simp]:
  "mw (put_entry s st) = mw st" "current_entry (put_entry s st) = next_menu st"
  "next_menu (put_entry s st) = next_menu st + 1" "current_menu (put_entry s st) = current_menu st"
  "menu_tree (put_entry s st) = add_child (current_menu st) (next_menu st) (menu_tree st)"
  "entry_sym m (put_entry s st) = (if m = next_menu st then s else entry_sym m st)"
  "parent_of m (put_entry s st) = (if m = next_menu st then Some (current_menu st) else parent_of m st)"
  "menu_prompt (menus (put_entry s st) m) = (if m = next_menu st then None else menu_prompt (menus st m))"
  by (simp_all add: put_entry_def entry_sym_def parent_of_def zero_menu_def)

lemma put_entry_ready:
  assumes "ready X st" and "\<And>a. s = Some a \<Longrightarrow> allocated (mw st) a"
  shows "ready X (put_entry s st)"
proof -
  have par: "parented st m \<Longrightarrow> parented (put_entry s st) m" for m
    by (simp add: parented_def)
  have wf: "well_formed_but X st"
    using assms(1) by (simp add: ready_def)
  have "well_formed_but X (put_entry s st)"
    unfolding well_formed_but_def put_entry_simps
    using well_formedD[OF wf] par by (fastforce simp: parented_def)
  moreover have "valid_prompts (put_entry s st)"
    using assms(1) unfolding valid_prompts_def put_entry_simps
    by (auto simp: ready_def valid_prompts_def put_entry_def split: if_splits)
  moreover have "prompt_kinds (put_entry s st)"
    unfolding prompt_kinds_def
  proof (intro allI impI)
    fix m p
    assume p: "entry_prompt m (put_entry s st) = Some p"
    show "prop_type p \<noteq> P_CHOICE"
    proof (cases "m = next_menu st")
      case False
      then have "entry_sym m (put_entry s st) = entry_sym m st"
        "menu_prompt (menus (put_entry s st) m) = menu_prompt (menus st m)"
        by simp_all
      then have "entry_prompt m st = Some p"
        using p by (simp only: entry_prompt_def put_entry_simps(1))
      then show ?thesis
        using assms(1) by (auto simp: ready_def prompt_kinds_def)
    qed (use p in \<open>simp add: entry_prompt_def\<close>)
  qed
  ultimately show ?thesis
    using assms by (simp add: ready_def)
qed

definition tree_ok :: "menu_world \<Rightarrow> bool" where
  "tree_ok st \<longleftrightarrow>
     preorder (menu_tree st) = [0..<next_menu st] \<and> linked st (menu_tree st) \<and>
     entry (menu_tree st) = rootmenu \<and> parent_of rootmenu st = None \<and>
     current_menu st \<in> set (spine (menu_tree st)) \<and> current_entry st \<in> set (spine (menu_tree st))"

lemma on_course_split: "on_course st \<longleftrightarrow> ready {} st \<and> tree_ok st"
  by (simp add: on_course_def tree_ok_def)

lemma tree_ok_unmoved: "tree_ok st \<Longrightarrow> unmoved st st' \<Longrightarrow> tree_ok st'"
  using linked_unmoved[of st' st] by (simp add: tree_ok_def unmoved_def)

lemma put_entry_tree:
  assumes "tree_ok st"
  shows "tree_ok (put_entry s st)"
proof -
  have t: "preorder (menu_tree st) = [0..<next_menu st]" "linked st (menu_tree st)"
    "entry (menu_tree st) = rootmenu" "parent_of rootmenu st = None" "current_menu st \<in> set (spine (menu_tree st))"
    using assms by (simp_all add: tree_ok_def)
  have "rootmenu < next_menu st"
    using t(1,3) entry_in_preorder[of "menu_tree st"] by simp
  moreover have "linked (put_entry s st) (menu_tree st) = linked st (menu_tree st)"
  proof (rule linked_outside)
    have "set (entries (menu_list (menu_tree st))) \<subseteq> set (preorder (menu_tree st))"
      by (simp add: preorder_entry[of "menu_tree st"] subset_insertI)
    then have "x \<noteq> next_menu st" if "x \<in> set (entries (menu_list (menu_tree st)))" for x
      using that t(1) by auto
    then show "\<forall>x \<in> set (entries (menu_list (menu_tree st))). parent_of x (put_entry s st) = parent_of x st"
      by simp
  qed
  ultimately show ?thesis
    using t add_child_shape[OF t(5), of "next_menu st"]
    by (simp add: tree_ok_def add_child_linked)
qed

lemma menu_add_entry_course:
  assumes "ready X st" and "tree_ok st" and "\<And>a. s = Some a \<Longrightarrow> allocated (mw st) a"
  shows "ready X (menu_add_entry s st)" and "tree_ok (menu_add_entry s st)"
proof -
  have r: "ready X (put_entry s st)" and t: "tree_ok (put_entry s st)"
    using put_entry_ready[OF assms(1,3)] put_entry_tree[OF assms(2)] by simp_all
  have "step_ok X (put_entry s st) (menu_add_symbol P_SYMBOL a None (put_entry s st))" for a
    unfolding menu_add_symbol_def by (rule menu_add_expr_step[OF r]) (simp add: prop_ok_def)
  then show "ready X (menu_add_entry s st)" "tree_ok (menu_add_entry s st)"
    using r t tree_ok_unmoved by (auto simp: menu_add_entry_put step_ok_def split: option.split)
qed

subsection \<open>Statements\<close>

lemma course_step:
  assumes "tree_ok st" and "step_ok X st st'"
  shows "tree_ok st'" "ready X st'"
  using assms tree_ok_unmoved by (auto simp: step_ok_def)

lemma at_position_course:
  assumes "on_course st"
  shows "on_course (at_position pos st)"
  using on_course_step[OF assms quiet_step[OF quiet_position on_course_ready[OF assms]]] .

lemma run_options_course: "on_course st \<Longrightarrow> run_options opts st = Some st' \<Longrightarrow> on_course st'"
  using on_course_step run_options_step on_course_ready by blast

lemma on_mw_simps [simp]:
  "mw (on_mw f st) = f (mw st)" "entry_sym m (on_mw f st) = entry_sym m st"
  "current_entry (on_mw f st) = current_entry st"
  by (simp_all add: on_mw_def entry_sym_def)

lemma allocated_upd_sym [simp]: "allocated (upd_sym s f w) a = allocated w a"
  by (simp add: allocated_def)

lemma start_config_course:
  assumes "on_course st"
  shows "on_course (start_config pos n st)"
proof -
  let ?st = "at_position pos st"
  obtain s st1 where 1: "with_kw (find_word (Plain n)) ?st = (s, st1)"
    by fastforce
  note w = with_word_step[OF on_course_ready[OF at_position_course[OF assms]] 1]
  let ?st2 = "on_mw (upd_sym s (set_flag SYMBOL_OPTIONAL)) st1"
  have "on_course st1"
    using on_course_step[OF at_position_course[OF assms] w(1)] .
  then have "on_course ?st2"
    using on_course_step quiet_step[OF quiet_upd_sym(1)] on_course_ready by blast
  then have "on_course (menu_add_entry (Some s) ?st2)"
    using menu_add_entry_course[of "{}" ?st2 "Some s"] w(3) by (simp add: on_course_split)
  then show ?thesis
    using 1 by (simp add: start_config_def)
qed

lemma start_if_course:
  assumes "on_course st"
  shows "on_course (start_if pos c st)"
proof -
  obtain e st1 where 1: "with_kw (build_expr c) (at_position pos st) = (e, st1)"
    by fastforce
  note x = with_expr_step[OF on_course_ready[OF at_position_course[OF assms]] 1]
  have "on_course st1"
    using on_course_step[OF at_position_course[OF assms] x(1)] .
  then have "on_course (menu_add_entry None st1)"
    using menu_add_entry_course[of "{}" st1 None] by (simp add: on_course_split)
  then have "on_course (menu_add_dep (Some e) (menu_add_entry None st1))"
    using on_course_step quiet_step[OF quiet_add_dep(1)] on_course_ready by blast
  then show ?thesis
    using 1 by (simp add: start_if_def)
qed

lemma start_menu_course:
  assumes "on_course st" and "ty \<in> {P_PROMPT, P_MENU, P_COMMENT}"
  shows "on_course (start_menu ty pos t st)"
proof -
  have "on_course (menu_add_entry None (at_position pos st))"
    using menu_add_entry_course[of "{}" "at_position pos st" None] at_position_course[OF assms(1)]
    by (simp add: on_course_split)
  then show ?thesis
    unfolding start_menu_def using on_course_step menu_add_prompt_step[OF _ assms(2)] on_course_ready by blast
qed

subsection \<open>Choices\<close>

lemma well_formed_but_insert:
  assumes "well_formed_but {s} st" and "choice_ok (mw st) s"
  shows "well_formed st"
  using assms by (auto simp: well_formed_but_def)

lemma menu_add_entry_symbol:
  "menu_add_entry (Some s) st =
     on_mw (upd_sym s (append_prop (new_property P_SYMBOL None (Some (E_SYMBOL s)) None (put_entry (Some s) st))))
       (put_entry (Some s) st)"
  by (simp add: menu_add_entry_put menu_add_symbol_def menu_add_expr_def menu_add_prop_def)

lemma append_prop_simps [simp]:
  "props (append_prop p x) = props x @ [p]" "flags (append_prop p x) = flags x"
  by (simp_all add: append_prop_def)

lemma menu_add_entry_props:
  "props (syms (mw (menu_add_entry (Some s) st)) s) =
     props (syms (mw st) s) @ [new_property P_SYMBOL None (Some (E_SYMBOL s)) None (put_entry (Some s) st)]"
  "entry_sym (current_entry (menu_add_entry (Some s) st)) (menu_add_entry (Some s) st) = Some s"
  "sym_is_choice a (mw (menu_add_entry (Some s) st)) = sym_is_choice a (mw st)"
  by (simp_all add: menu_add_entry_symbol sym_is_choice_def has_flag_def)

lemma start_choice_course:
  assumes "on_course st"
  shows "on_course (start_choice pos n st)"
proof -
  let ?st = "at_position pos st"
  have c: "on_course ?st"
    using assms by (rule at_position_course)
  obtain s w where l: "sym_lookup n {SYMBOL_CHOICE} (mw ?st) = (s, w)"
    by fastforce
  define st1 where "st1 = ?st\<lparr>mw := w\<rparr>"
  define st2 where "st2 = on_mw (upd_sym s (set_flag SYMBOL_NO_WRITE)) st1"
  define st3 where "st3 = menu_add_entry (Some s) st2"
  define p where "p = new_property P_CHOICE None None None st3"
  have lk: "looked_up {s} (mw ?st) w" "allocated w s" "w = mw ?st \<or> props (syms (mw ?st) s) = []"
    using sym_lookup_looked_up[OF ready_table[OF on_course_ready[OF c]] l, of "{s}"] by simp_all
  have s1: "step_ok {s} ?st st1"
    unfolding st1_def by (rule looked_up_step[OF on_course_ready[OF c] lk(1)])
  have s2: "step_ok {s} ?st st2"
    using step_trans[OF s1 quiet_step[OF quiet_upd_sym(1) step_ready[OF s1]]] by (simp add: st2_def)
  have "allocated (mw st2) s"
    using lk(2) by (simp add: st2_def st1_def)
  then have r3: "ready {s} st3" and t3: "tree_ok st3"
    using menu_add_entry_course[where X = "{s}" and st = st2 and s = "Some s"] step_ready[OF s2] course_step(1)[OF _ s2] c
    by (simp_all add: st3_def on_course_split)
  have s4: "step_ok {s} st3 (menu_add_expr P_CHOICE None None st3)"
    by (rule menu_add_expr_step[OF r3]) (simp add: prop_ok_def)
  let ?st4 = "menu_add_expr P_CHOICE None None st3"
  have p4: "props (syms (mw ?st4) s) = props (syms (mw ?st) s) @
      [new_property P_SYMBOL None (Some (E_SYMBOL s)) None (put_entry (Some s) st2), p]"
    using lk(1) menu_add_entry_props(1)[of s st2] menu_add_entry_props(2)[of s st2]
    by (simp add: menu_add_expr_def menu_add_prop_def st3_def[symmetric] p_def on_mw_def append_prop_def)
      (simp add: st2_def st1_def on_mw_def set_flag_def looked_up_def)
  have ch: "sym_is_choice s (mw ?st4) = sym_is_choice s w"
    using menu_add_entry_props(2)[of s st2] menu_add_entry_props(3)[of s s st2]
    by (simp add: menu_add_expr_def menu_add_prop_def st3_def[symmetric] on_mw_def sym_is_choice_def has_flag_def append_prop_def)
      (simp add: st2_def st1_def on_mw_def set_flag_def)
  have "choice_ok (mw ?st4) s"
  proof (cases "props (syms (mw ?st) s) = []")
    case True
    then show ?thesis
      by (simp add: choice_ok_def sym_get_choice_prop_def p4 p_def list_or_none_def)
  next
    case False
    then have "w = mw ?st"
      using lk(3) by blast
    moreover have "choice_ok (mw ?st) s"
      using on_course_ready[OF c] well_formedD(3)[of "{}" ?st s] by (simp add: ready_def)
    ultimately show ?thesis
      using find_append_Some ch by (fastforce simp: choice_ok_def sym_get_choice_prop_def p4)
  qed
  then have "ready {} ?st4"
    using step_ready[OF s4] well_formed_but_insert unfolding ready_def by blast
  moreover have "tree_ok ?st4"
    using course_step(1)[OF t3 s4] .
  moreover have "start_choice pos n st = ?st4"
    using l by (simp add: start_choice_def with_kw_def st1_def st2_def st3_def)
  ultimately show ?thesis
    by (simp add: on_course_split)
qed

subsection \<open>Menu prompts\<close>

lemma find_update_other: "\<not> P (xs ! i) \<Longrightarrow> \<not> P y \<Longrightarrow> find P (xs[i := y]) = find P xs"
  by (induction xs arbitrary: i) (auto split: nat.split)

lemma set_type_nth:
  "prop_type (ps[i := set_prop_type P_MENU x] ! j) = prop_type (ps ! j) \<or>
     prop_type (ps[i := set_prop_type P_MENU x] ! j) = P_MENU"
  by (cases "j = i"; cases "i < length ps") (simp_all add: set_prop_type_def list_update_beyond not_less)

lemma prompt_opens_menu_step:
  assumes "ready {} st"
  shows "step_ok {} st (prompt_opens_menu st)"
proof -
  let ?m = "current_entry st"
  have v: "valid_prompts st" and k: "prompt_kinds st" and wf: "well_formed st"
    using assms by (simp_all add: ready_def)
  show ?thesis
  proof (cases "menu_prompt (menus st ?m)")
    case None
    then have "prompt_opens_menu st = zconfprint ''warning: menuconfig statement without prompt'' st"
      by (simp add: prompt_opens_menu_def)
    then show ?thesis
      using quiet_step[OF quiet_warn(3) assms] by simp
  next
    case (Some x)
    show ?thesis
    proof (cases x)
      case (Own p)
      have "step_ok {} st (upd_menu ?m (\<lambda>x. x\<lparr>menu_prompt := Some (Own (set_prop_type P_MENU p))\<rparr>) st)"
        by (rule set_prompt_step[OF assms]) (auto simp: set_prop_type_def)
      then show ?thesis
        using Some Own by (simp add: prompt_opens_menu_def)
    next
      case (In_symbol i)
      obtain s where s: "menu_sym (menus st ?m) = Some s" "i < length (props (syms (mw st) s))"
        using v Some In_symbol unfolding valid_prompts_def by blast
      let ?f = "upd_prop i (set_prop_type P_MENU)"
      let ?st = "on_mw (upd_sym s ?f) st"
      have old: "prop_type (props (syms (mw st) s) ! i) \<noteq> P_CHOICE"
      proof -
        have "entry_prompt ?m st = Some (props (syms (mw st) s) ! i)"
          using Some In_symbol s by (simp add: entry_prompt_def entry_sym_def prop_at_def)
        then show ?thesis
          using k unfolding prompt_kinds_def by blast
      qed
      have wf4: "well_formed ?st"
      proof (rule well_formed_props[OF wf])
        fix q
        assume "q \<in> set (props (?f (syms (mw st) s)))"
        then have "q \<in> set (props (syms (mw st) s)) \<or> q = set_prop_type P_MENU (props (syms (mw st) s) ! i)"
          using set_update_subset_insert[of "props (syms (mw st) s)" i] by (auto simp: upd_prop_def)
        then show "prop_ok (mw st) q \<and> (\<exists>m. prop_menu q = Some m \<and> parented st m)"
          using well_formedD(1,2)[OF wf, of _ s] nth_mem[OF s(2)] by (auto simp: set_prop_type_def prop_ok_def)
      next
        assume "SYMBOL_CHOICE \<in> flags (?f (syms (mw st) s))"
        then show "\<exists>p. find (\<lambda>p. prop_type p = P_CHOICE) (props (?f (syms (mw st) s))) = Some p \<and> list_or_none (prop_expr p)"
          using well_formedD(3)[OF wf, of s] old
          by (simp add: upd_prop_def find_update_other set_prop_type_def choice_ok_def sym_is_choice_def
              has_flag_def sym_get_choice_prop_def)
      qed (simp add: upd_prop_def)
      have len: "length (props (syms (mw ?st) a)) = length (props (syms (mw st) a))" for a
        by (simp add: on_mw_def upd_prop_def)
      have same: "menus ?st = menus st" "entry_sym a ?st = entry_sym a st" for a
        by (simp_all add: on_mw_def entry_sym_def)
      have "valid_prompts ?st"
        using v unfolding valid_prompts_def len same .
      moreover have "prompt_kinds ?st"
        unfolding prompt_kinds_def
      proof (intro allI impI)
        fix a q
        assume q: "entry_prompt a ?st = Some q"
        have "\<exists>p. entry_prompt a st = Some p \<and> (prop_type q = prop_type p \<or> prop_type q = P_MENU)"
          using q unfolding entry_prompt_def same
          using set_type_nth[of "props (syms (mw st) s)" i]
          by (auto simp: prop_at_def on_mw_def upd_prop_def split: option.splits menu_prompt.splits if_splits)
        then show "prop_type q \<noteq> P_CHOICE"
          using k by (auto simp: prompt_kinds_def)
      qed
      moreover have "table_ok (mw ?st)"
        using assms by (auto simp: ready_def table_ok_def on_mw_def allocated_def upd_prop_def named_def)
      ultimately have "ready {} ?st"
        using assms wf4 by (simp add: ready_def same)
      moreover have "unmoved st ?st"
        by (simp add: unmoved_def on_mw_def parent_of_def entry_sym_def)
      moreover have "prompt_opens_menu st = ?st"
        using Some In_symbol s by (simp add: prompt_opens_menu_def entry_sym_def)
      ultimately show ?thesis
        by (simp add: step_ok_def)
    qed
  qed
qed

subsection \<open>The whole configuration\<close>

lemma prompt_opens_menu_course: "on_course st \<Longrightarrow> on_course (prompt_opens_menu st)"
  using on_course_step prompt_opens_menu_step on_course_ready by blast

lemma course_menu:
  assumes "on_course st" and "p \<in> set (spine (menu_tree st))"
  shows "on_course (st\<lparr>current_menu := p\<rparr>)"
proof -
  let ?st = "st\<lparr>current_menu := p\<rparr>"
  have par: "parent_of m ?st = parent_of m st" for m
    by (simp add: parent_of_def)
  have e: "entry_sym m ?st = entry_sym m st" "entry_prompt m ?st = entry_prompt m st" "parented ?st m = parented st m" for m
    by (auto simp: entry_sym_def entry_prompt_def parented_def par split: option.split menu_prompt.split)
  have "ready {} ?st"
    using assms(1) by (simp add: on_course_def ready_def well_formed_but_def valid_prompts_def prompt_kinds_def e)
  moreover have "linked ?st (menu_tree st) = linked st (menu_tree st)"
    by (rule linked_unmoved) (rule par)
  ultimately show ?thesis
    using assms by (simp add: on_course_def par)
qed

lemma menu_add_menu_course: "on_course st \<Longrightarrow> on_course (menu_add_menu st)"
  unfolding menu_add_menu_def by (rule course_menu) (simp_all add: on_course_def)

lemma menu_end_menu_course:
  assumes "on_course st" and "menu_end_menu st = Some st'"
  shows "on_course st'"
proof -
  obtain p where p: "parent_of (current_menu st) st = Some p" and st': "st' = st\<lparr>current_menu := p\<rparr>"
    using assms(2) by (auto simp: menu_end_menu_def parent_of_def split: Option.bind_splits)
  have "current_menu st \<noteq> entry (menu_tree st)"
    using p assms(1) by (auto simp: on_course_def)
  then have "p \<in> set (spine (menu_tree st))"
    using spine_parent[of st "menu_tree st" "current_menu st"] p assms(1) by (auto simp: on_course_def)
  then show ?thesis
    unfolding st' by (rule course_menu[OF assms(1)])
qed

lemma run_course:
  "on_course st \<Longrightarrow> run_statement x st = Some st' \<Longrightarrow> on_course st'"
  "on_course st \<Longrightarrow> run_statements xs st = Some st' \<Longrightarrow> on_course st'"
proof (induction x st and xs st arbitrary: st' and st' rule: run_statement_run_statements.induct)
  case (1 pos n opts st)
  then show ?case
    using run_options_course start_config_course by simp blast
next
  case (2 pos n opts st)
  then obtain st1 where "run_options opts (start_config pos n st) = Some st1" "st' = prompt_opens_menu st1"
    by (auto split: Option.bind_splits)
  then show ?case
    using run_options_course start_config_course[OF 2(1)] prompt_opens_menu_course by blast
next
  case (3 pos n opts ss st)
  obtain st1 where 1: "run_options opts (start_choice pos n st) = Some st1"
    using 3(3) by (auto split: Option.bind_splits)
  obtain st2 where 2: "run_statements ss (menu_add_menu st1) = Some st2"
    using 3(3) 1 by (auto split: Option.bind_splits)
  have "on_course (menu_add_menu st1)"
    using run_options_course[OF start_choice_course[OF 3(2)] 1] menu_add_menu_course by blast
  then have "on_course st2"
    using 3(1)[OF 1 _ 2] by blast
  then show ?case
    using menu_end_menu_course 3(3) 1 2 by simp
next
  case (4 pos c ss st)
  obtain st2 where 2: "run_statements ss (menu_add_menu (start_if pos c st)) = Some st2"
    using 4(3) by (auto split: Option.bind_splits)
  have "on_course st2"
    using 4(1)[OF menu_add_menu_course[OF start_if_course[OF 4(2)]] 2] .
  then show ?case
    using menu_end_menu_course 4(3) 2 by simp
next
  case (5 pos t opts ss st)
  obtain st1 where 1: "run_options opts (start_menu P_MENU pos t st) = Some st1"
    using 5(3) by (auto split: Option.bind_splits)
  obtain st2 where 2: "run_statements ss (menu_add_menu st1) = Some st2"
    using 5(3) 1 by (auto split: Option.bind_splits)
  have "on_course (start_menu P_MENU pos t st)"
    by (rule start_menu_course[OF 5(2)]) simp
  then have "on_course (menu_add_menu st1)"
    using run_options_course[OF _ 1] menu_add_menu_course by blast
  then have "on_course st2"
    using 5(1)[OF 1 _ 2] by blast
  then show ?case
    using menu_end_menu_course 5(3) 1 2 by simp
next
  case (6 pos t opts st)
  have "on_course (start_menu P_COMMENT pos t st)"
    by (rule start_menu_course[OF 6(1)]) simp
  then show ?case
    using run_options_course 6(2) by simp
next
  case (8 s ss st)
  obtain st1 where 1: "run_statement s st = Some st1"
    using 8(4) by (auto split: Option.bind_splits)
  then show ?case
    using 8 by simp
qed simp_all

lemma menu_init_course: "on_course (menu_init static_world)"
proof -
  have props: "props (syms static_world s) = []" for s
    by (simp add: static_world_def zero_symbol_def const_symbol_def empty_symbol_def split: sym.split)
  have choice: "\<not> sym_is_choice s static_world" for s
    by (simp add: static_world_def zero_symbol_def const_symbol_def empty_symbol_def sym_is_choice_def
        has_flag_def split: sym.split)
  have unnamed: "\<not> named static_world s" if "\<not> allocated static_world s" for s
    using that by (auto simp: allocated_def named_def static_world_def zero_symbol_def split: sym.splits)
  have "table_ok static_world"
    using unnamed by (simp add: table_ok_def props) (simp add: static_world_def named_def const_symbol_def)
  then show ?thesis
    by (simp add: on_course_def ready_def well_formed_but_def choice_ok_def props choice valid_prompts_def
        prompt_kinds_def entry_prompt_def entry_sym_def parent_of_def menu_init_def zero_menu_def rootmenu_def)
qed

lemma run_main_course:
  assumes "run_main title ss (menu_init static_world) = Some st"
  shows "on_course st"
proof -
  define st0 where "st0 = (case title of None \<Rightarrow> menu_init static_world
       | Some (pos, t) \<Rightarrow> menu_add_prompt P_MENU t None (at_position pos (menu_init static_world)))"
  have "on_course (menu_add_prompt P_MENU t None (at_position pos (menu_init static_world)))" for t pos
    using on_course_step menu_add_prompt_step[of "{}" "at_position pos (menu_init static_world)" P_MENU]
      at_position_course[OF menu_init_course] on_course_ready by blast
  then have "on_course st0"
    using menu_init_course by (simp add: st0_def split: option.split)
  then show ?thesis
    using run_course(2) assms by (simp add: run_main_def st0_def)
qed

lemma main_menu_course:
  assumes "on_course st"
  shows "on_course (add_main_menu (set_modules st))"
proof -
  have "quiet st (set_modules st)"
    unfolding set_modules_def
    by (rule quiet_on_mw) (simp_all add: same_sig_def grows_def prop_ids_def sym_is_choice_def has_flag_def)
  then have c: "on_course (set_modules st)"
    using on_course_step quiet_step assms on_course_ready by blast
  let ?st = "set_modules st\<lparr>current_entry := rootmenu\<rparr>"
  have par: "parent_of m ?st = parent_of m (set_modules st)" for m
    by (simp add: parent_of_def)
  have e: "entry_sym m ?st = entry_sym m (set_modules st)" "entry_prompt m ?st = entry_prompt m (set_modules st)"
    "parented ?st m = parented (set_modules st) m" for m
    by (auto simp: entry_sym_def entry_prompt_def parented_def par split: option.split menu_prompt.split)
  have "ready {} ?st"
    using c by (simp add: on_course_def ready_def well_formed_but_def valid_prompts_def prompt_kinds_def e)
  moreover have "rootmenu \<in> set (spine (menu_tree (set_modules st)))"
    using c by (cases "menu_tree (set_modules st)") (simp add: on_course_def)
  moreover have "linked ?st (menu_tree (set_modules st)) = linked (set_modules st) (menu_tree (set_modules st))"
    by (rule linked_unmoved) (rule par)
  ultimately have "on_course ?st"
    using c by (simp add: on_course_def par)
  then have "on_course (menu_add_prompt P_MENU t None ?st)" for t
    using on_course_step menu_add_prompt_step[of "{}" ?st P_MENU] on_course_ready by blast
  then show ?thesis
    using c by (simp add: add_main_menu_def)
qed

lemma next_menu_main: "next_menu (add_main_menu (set_modules st)) = next_menu st"
  by (simp add: add_main_menu_def set_modules_def menu_add_prompt_def menu_add_prop_def on_mw_def upd_menu_def
      update_if_def prop_warn_def warning_at_def Let_def split: option.split prod.split)

lemma set_tree:
  "linked (st\<lparr>menu_tree := t\<rparr>) u = linked st u" "all_prompted (st\<lparr>menu_tree := t\<rparr>) u = all_prompted st u"
proof -
  let ?st = "st\<lparr>menu_tree := t\<rparr>"
  show "linked ?st u = linked st u"
    by (rule linked_unmoved) (simp add: parent_of_def)
  have "has_text m ?st = has_text m st" for m
    by (auto simp: has_text_def entry_prompt_def entry_sym_def split: option.split menu_prompt.split)
  then have "prompted ?st v = prompted st v" for v
    by (simp add: prompted_def)
  then show "all_prompted ?st u = all_prompted st u"
    by (induction u) simp
qed

end
