(* ===== verification/Kparse_Ends.thy ===== *)
theory Kparse_Ends
  imports Kparse_Order
begin

text \<open>
  Every configuration that the grammar accepts is read without a null pointer, and
  \<open>menu_finalize\<close> returns with all entries in order.
\<close>

subsection \<open>Statements of the grammar\<close>

text \<open>The options that the grammar allows in the several kinds of statement.\<close>

fun config_option_ok :: "config_option \<Rightarrow> bool" where
  "config_option_ok (Visible c) = False"
| "config_option_ok Optional = False"
| "config_option_ok (Choice_default n c) = False"
| "config_option_ok opt = True"

fun choice_option_ok :: "config_option \<Rightarrow> bool" where
  "choice_option_ok (Type ty p) = (ty = S_BOOLEAN \<or> ty = S_TRISTATE)"
| "choice_option_ok (Prompt t c) = True"
| "choice_option_ok Optional = True"
| "choice_option_ok (Choice_default n c) = True"
| "choice_option_ok (Depends c) = True"
| "choice_option_ok (Help t) = True"
| "choice_option_ok opt = False"

fun menu_option_ok :: "config_option \<Rightarrow> bool" where
  "menu_option_ok (Visible c) = True"
| "menu_option_ok (Depends c) = True"
| "menu_option_ok opt = False"

fun statement_ok :: "statement \<Rightarrow> bool" where
  "statement_ok (Config pos n opts) = list_all (config_option_ok \<circ> snd) opts"
| "statement_ok (Menuconfig pos n opts) = list_all (config_option_ok \<circ> snd) opts"
| "statement_ok (Choice pos n opts ss) = (list_all (choice_option_ok \<circ> snd) opts \<and> list_all statement_ok ss)"
| "statement_ok (If_block pos c ss) = list_all statement_ok ss"
| "statement_ok (Menu pos t opts ss) = (list_all (menu_option_ok \<circ> snd) opts \<and> list_all statement_ok ss)"
| "statement_ok (Comment pos t opts) = list_all (menu_option_ok \<circ> snd) opts"

definition has_symbol :: "menu_world \<Rightarrow> bool" where
  "has_symbol st \<longleftrightarrow> entry_sym (current_entry st) st \<noteq> None"

lemma has_symbol_unmoved: "unmoved st st' \<Longrightarrow> has_symbol st' = has_symbol st"
  by (simp add: has_symbol_def unmoved_def)

lemma has_symbol_step: "step_ok X st st' \<Longrightarrow> has_symbol st' = has_symbol st"
  using has_symbol_unmoved by (simp add: step_ok_def)

lemma menu_set_type_some: "has_symbol st \<Longrightarrow> \<exists>st'. menu_set_type ty st = Some st'"
  by (auto simp: has_symbol_def menu_set_type_def Let_def)

lemma run_option_some:
  assumes "ready {} st" and "has_symbol st \<or> menu_option_ok opt"
  shows "\<exists>st'. run_option opt st = Some st'"
proof (cases opt)
  case (Type ty p)
  have "step_ok {} st (case p of None \<Rightarrow> st | Some (t, c) \<Rightarrow> add_prompt_if t c st)"
    using assms(1) add_prompt_if_step[OF assms(1)] by (auto simp: step_ok_def split: option.split)
  then show ?thesis
    using Type assms(2) menu_set_type_some has_symbol_step by (fastforce simp: run_option_def)
next
  case (Default ty v c)
  obtain e st1 where 1: "with_kw (build_expr v) st = (e, st1)" by fastforce
  obtain d st2 where 2: "with_kw (build_if c) st1 = (d, st2)" by fastforce
  show ?thesis
    using Default assms(2) 1 2 menu_set_type_some has_symbol_step[OF add_default_step[OF assms(1) 1 2]]
    by (auto simp: run_option_def Let_def)
next
  case Option_defconfig_list
  then show ?thesis
    using assms(2) by (auto simp: run_option_def menu_add_option_defconfig_list_def has_symbol_def zconf_error_def Let_def on_mw_def)
qed (use assms(2) in \<open>auto simp: run_option_def has_symbol_def menu_add_option_modules_def
       menu_add_option_allnoconfig_y_def add_help_def Let_def split: prod.split\<close>)

lemma run_options_some:
  assumes "ready {} st" and "has_symbol st \<or> list_all (menu_option_ok \<circ> snd) opts"
  shows "\<exists>st'. run_options opts st = Some st'"
  using assms
proof (induction opts arbitrary: st)
  case Nil
  then show ?case
    by (simp add: run_options_def)
next
  case (Cons x xs)
  obtain pos opt where x: "x = (pos, opt)" by fastforce
  have p: "step_ok {} st (at_position pos st)"
    by (rule quiet_step[OF quiet_position Cons.prems(1)])
  obtain st1 where 1: "run_option opt (at_position pos st) = Some st1"
    using run_option_some[OF step_ready[OF p], of opt] Cons.prems(2) has_symbol_step[OF p] x by auto
  have s1: "step_ok {} st st1"
    using step_trans[OF p run_option_step[OF step_ready[OF p] 1]] .
  then have "\<exists>st'. run_options xs st1 = Some st'"
    using Cons.IH[OF step_ready[OF s1]] Cons.prems(2) has_symbol_step[OF s1] by auto
  then show ?case
    using 1 x by (simp add: run_options_def)
qed

text \<open>An entry was added below the current menu.\<close>

definition started :: "menu_world \<Rightarrow> menu_world \<Rightarrow> bool" where
  "started st st' \<longleftrightarrow>
     current_entry st' = next_menu st \<and> next_menu st' = next_menu st + 1 \<and> current_menu st' = current_menu st \<and>
     (\<forall>m. parent_of m st' = (if m = next_menu st then Some (current_menu st) else parent_of m st))"

lemma started_unmoved: "unmoved a b \<Longrightarrow> started b c \<Longrightarrow> started a c" "started a b \<Longrightarrow> unmoved b c \<Longrightarrow> started a c"
  by (simp_all add: started_def unmoved_def)

lemma menu_add_entry_started:
  "started st (menu_add_entry s st)" "has_symbol (menu_add_entry s st) = (s \<noteq> None)"
proof -
  have parent: "parent_of m (on_mw f a) = parent_of m a" for m f a
    by (simp add: parent_of_def on_mw_def)
  have fields: "next_menu (on_mw f a) = next_menu a" "current_menu (on_mw f a) = current_menu a" for f a
    by (simp_all add: on_mw_def)
  show "started st (menu_add_entry s st)" "has_symbol (menu_add_entry s st) = (s \<noteq> None)"
    by (cases s; simp add: menu_add_entry_put[of None] menu_add_entry_symbol started_def has_symbol_def parent fields)+
qed

lemma quiet_unmoved: "quiet a b \<Longrightarrow> unmoved a b"
  by (simp add: quiet_def)

lemma with_kw_unmoved: "with_kw f st = (x, st') \<Longrightarrow> unmoved st st'"
  by (auto simp: with_kw_def unmoved_def parent_of_def entry_sym_def split: prod.splits)

lemma menu_add_expr_unmoved: "unmoved st (menu_add_expr ty e d st)"
  by (auto simp: menu_add_expr_def menu_add_prop_def unmoved_def on_mw_def parent_of_def entry_sym_def split: option.split)

lemma start_started:
  "started st (start_config pos n st)" "has_symbol (start_config pos n st)"
  "started st (start_choice pos n' st)" "has_symbol (start_choice pos n' st)"
  "started st (start_if pos c st)"
proof -
  let ?st = "at_position pos st"
  have p: "unmoved st ?st"
    by (rule quiet_unmoved[OF quiet_position])
  obtain s st1 where 1: "with_kw (find_word (Plain n)) ?st = (s, st1)" by fastforce
  let ?st2 = "on_mw (upd_sym s (set_flag SYMBOL_OPTIONAL)) st1"
  have "unmoved st ?st2"
    using unmoved_trans[OF unmoved_trans[OF p with_kw_unmoved[OF 1]] quiet_unmoved[OF quiet_upd_sym(1)]] by simp
  then show "started st (start_config pos n st)" "has_symbol (start_config pos n st)"
    using started_unmoved(1)[OF _ menu_add_entry_started(1)] menu_add_entry_started(2) 1
    by (simp_all add: start_config_def)
  obtain s' st1' where 2: "with_kw (sym_lookup n' {SYMBOL_CHOICE}) ?st = (s', st1')" by fastforce
  let ?st2 = "on_mw (upd_sym s' (set_flag SYMBOL_NO_WRITE)) st1'"
  have "unmoved st ?st2"
    using unmoved_trans[OF unmoved_trans[OF p with_kw_unmoved[OF 2]] quiet_unmoved[OF quiet_upd_sym(1)]] by simp
  then show "started st (start_choice pos n' st)" "has_symbol (start_choice pos n' st)"
    using started_unmoved(2)[OF started_unmoved(1)[OF _ menu_add_entry_started(1)] menu_add_expr_unmoved]
      has_symbol_unmoved[OF menu_add_expr_unmoved] menu_add_entry_started(2) 2
    by (simp_all add: start_choice_def)
  obtain e st1'' where 3: "with_kw (build_expr c) ?st = (e, st1'')" by fastforce
  show "started st (start_if pos c st)"
    using started_unmoved(2)[OF started_unmoved(1)[OF unmoved_trans[OF p with_kw_unmoved[OF 3]] menu_add_entry_started(1)]
        quiet_unmoved[OF quiet_add_dep(1)]] 3
    by (simp add: start_if_def)
qed

lemma start_menu_started:
  assumes "on_course st" and "ty \<in> {P_PROMPT, P_MENU, P_COMMENT}"
  shows "started st (start_menu ty pos t st)"
proof -
  have "on_course (menu_add_entry None (at_position pos st))"
    using menu_add_entry_course[of "{}" "at_position pos st" None] at_position_course[OF assms(1)]
    by (simp add: on_course_split)
  then have "unmoved (menu_add_entry None (at_position pos st)) (start_menu ty pos t st)"
    using menu_add_prompt_step[OF _ assms(2)] on_course_ready unfolding start_menu_def step_ok_def by blast
  then show ?thesis
    using started_unmoved(2)[OF started_unmoved(1)[OF quiet_unmoved[OF quiet_position] menu_add_entry_started(1)]] by blast
qed

subsection \<open>Every accepted configuration is read\<close>

definition extends :: "menu_world \<Rightarrow> menu_world \<Rightarrow> bool" where
  "extends st st' \<longleftrightarrow>
     current_menu st' = current_menu st \<and> next_menu st \<le> next_menu st' \<and>
     (\<forall>m < next_menu st. parent_of m st' = parent_of m st)"

lemma extends_trans: "extends a b \<Longrightarrow> extends b c \<Longrightarrow> extends a c"
  unfolding extends_def by (metis order.strict_trans2 order.trans)

lemma unmoved_extends: "unmoved st st' \<Longrightarrow> extends st st'"
  by (simp add: unmoved_def extends_def)

lemma started_extends: "started st st' \<Longrightarrow> extends st st'"
  by (simp add: started_def extends_def)

text \<open>The options of an entry that was just added.\<close>

lemma options_started:
  assumes "on_course st1" and "started st st1"
    and "has_symbol st1 \<or> list_all (menu_option_ok \<circ> snd) opts"
  shows "\<exists>st2. run_options opts st1 = Some st2 \<and> on_course st2 \<and> started st st2"
proof -
  obtain st2 where 2: "run_options opts st1 = Some st2"
    using run_options_some[OF on_course_ready[OF assms(1)] assms(3)] by blast
  have "unmoved st1 st2"
    using run_options_step[OF on_course_ready[OF assms(1)] 2] by (simp add: step_ok_def)
  then show ?thesis
    using 2 run_options_course[OF assms(1) 2] started_unmoved(2)[OF assms(2)] by blast
qed

text \<open>The statements inside a block, and its end.\<close>

lemma block_ends:
  assumes "on_course st1" and "started st st1"
    and body: "\<And>a. on_course a \<Longrightarrow> \<exists>b. run_statements ss a = Some b \<and> extends a b"
  shows "\<exists>st2 st3. run_statements ss (menu_add_menu st1) = Some st2 \<and> menu_end_menu st2 = Some st3 \<and> extends st st3"
proof -
  let ?a = "menu_add_menu st1"
  obtain st2 where 2: "run_statements ss ?a = Some st2" "extends ?a st2"
    using body[OF menu_add_menu_course[OF assms(1)]] by blast
  have a: "current_menu ?a = next_menu st" "next_menu ?a = next_menu st + 1" "parent_of m ?a = parent_of m st1" for m
    using assms(2) by (simp_all add: menu_add_menu_def started_def parent_of_def)
  have cur: "current_menu st2 = next_menu st" and le: "next_menu st + 1 \<le> next_menu st2"
    using 2(2) a(1,2) by (simp_all add: extends_def)
  have par: "parent_of m st2 = (if m = next_menu st then Some (current_menu st) else parent_of m st)" if "m < next_menu st + 1" for m
    using 2(2) a that assms(2) by (simp add: extends_def started_def)
  have end_menu: "menu_end_menu st2 = Some (st2\<lparr>current_menu := current_menu st\<rparr>)"
    using par[of "next_menu st"] by (simp add: menu_end_menu_def cur parent_of_def)
  have "extends st (st2\<lparr>current_menu := current_menu st\<rparr>)"
    using le par by (auto simp: extends_def parent_of_def)
  then show ?thesis
    using 2(1) end_menu by blast
qed

lemma statement_induct [case_names config menuconfig choice if_block menu comment nil cons]:
  fixes P :: "statement \<Rightarrow> bool" and Q :: "statement list \<Rightarrow> bool"
  assumes "\<And>pos n opts. P (Config pos n opts)" "\<And>pos n opts. P (Menuconfig pos n opts)"
    "\<And>pos n opts ss. Q ss \<Longrightarrow> P (Choice pos n opts ss)" "\<And>pos c ss. Q ss \<Longrightarrow> P (If_block pos c ss)"
    "\<And>pos t opts ss. Q ss \<Longrightarrow> P (Menu pos t opts ss)" "\<And>pos t opts. P (Comment pos t opts)"
    "Q []" "\<And>x xs. P x \<Longrightarrow> Q xs \<Longrightarrow> Q (x # xs)"
  shows "P x" "Q xs"
proof -
  have list: "Q ss" if "\<And>x. x \<in> set ss \<Longrightarrow> P x" for ss
    using that by (induction ss) (simp_all add: assms(7,8))
  have p: "P x" for x
  proof (induction x)
    case (Config pos n opts) show ?case by (rule assms(1))
  next
    case (Menuconfig pos n opts) show ?case by (rule assms(2))
  next
    case (Choice pos n opts ss) show ?case by (rule assms(3), rule list, rule Choice)
  next
    case (If_block pos c ss) show ?case by (rule assms(4), rule list, rule If_block)
  next
    case (Menu pos t opts ss) show ?case by (rule assms(5), rule list, rule Menu)
  next
    case (Comment pos t opts) show ?case by (rule assms(6))
  qed
  show "P x"
    by (rule p)
  show "Q xs"
    using list[of xs] p by simp
qed

lemma run_some:
  "on_course st \<Longrightarrow> statement_ok x \<Longrightarrow> \<exists>st'. run_statement x st = Some st' \<and> extends st st'"
  "on_course st \<Longrightarrow> list_all statement_ok xs \<Longrightarrow> \<exists>st'. run_statements xs st = Some st' \<and> extends st st'"
proof (induction x and xs arbitrary: st and st rule: statement_induct)
  case (config pos n opts)
  then obtain st2 where "run_options opts (start_config pos n st) = Some st2" "started st st2"
    using options_started[OF start_config_course start_started(1)] start_started(2) by blast
  then show ?case
    using started_extends by simp
next
  case (menuconfig pos n opts)
  then obtain st2 where 2: "run_options opts (start_config pos n st) = Some st2" "on_course st2" "started st st2"
    using options_started[OF start_config_course start_started(1)] start_started(2) by blast
  have "unmoved st2 (prompt_opens_menu st2)"
    using prompt_opens_menu_step[OF on_course_ready[OF 2(2)]] by (simp add: step_ok_def)
  then show ?case
    using 2(1) started_extends[OF started_unmoved(2)[OF 2(3)]] by simp
next
  case (choice pos n opts ss)
  then obtain st2 where 2: "run_options opts (start_choice pos n st) = Some st2" "on_course st2" "started st st2"
    using options_started[OF start_choice_course start_started(3)] start_started(4) by blast
  have "\<exists>b. run_statements ss a = Some b \<and> extends a b" if "on_course a" for a
    using choice(1)[OF that] choice(3) by simp
  from block_ends[OF 2(2,3) this] obtain st3 st4
    where "run_statements ss (menu_add_menu st2) = Some st3" "menu_end_menu st3 = Some st4" "extends st st4"
    by blast
  then show ?case
    using 2(1) by simp
next
  case (if_block pos c ss)
  have "\<exists>b. run_statements ss a = Some b \<and> extends a b" if "on_course a" for a
    using if_block(1)[OF that] if_block(3) by simp
  from block_ends[OF start_if_course[OF if_block(2)] start_started(5) this] obtain st3 st4
    where "run_statements ss (menu_add_menu (start_if pos c st)) = Some st3" "menu_end_menu st3 = Some st4" "extends st st4"
    by blast
  then show ?case
    by simp
next
  case (menu pos t opts ss)
  have "on_course (start_menu P_MENU pos t st)" "started st (start_menu P_MENU pos t st)"
    using start_menu_course[OF menu(2)] start_menu_started[OF menu(2)] by simp_all
  then obtain st2 where 2: "run_options opts (start_menu P_MENU pos t st) = Some st2" "on_course st2" "started st st2"
    using options_started menu(3) by (metis statement_ok.simps(5))
  have "\<exists>b. run_statements ss a = Some b \<and> extends a b" if "on_course a" for a
    using menu(1)[OF that] menu(3) by simp
  from block_ends[OF 2(2,3) this] obtain st3 st4
    where "run_statements ss (menu_add_menu st2) = Some st3" "menu_end_menu st3 = Some st4" "extends st st4"
    by blast
  then show ?case
    using 2(1) by simp
next
  case (comment pos t opts)
  have "on_course (start_menu P_COMMENT pos t st)" "started st (start_menu P_COMMENT pos t st)"
    using start_menu_course[OF comment(1)] start_menu_started[OF comment(1)] by simp_all
  then obtain st2 where "run_options opts (start_menu P_COMMENT pos t st) = Some st2" "started st st2"
    using options_started comment(2) by (metis statement_ok.simps(6))
  then show ?case
    using started_extends by simp
next
  case nil
  then show ?case
    by (simp add: extends_def)
next
  case (cons x xs)
  obtain st1 where 1: "run_statement x st = Some st1" "extends st st1"
    using cons(1)[of st] cons(3,4) by auto
  obtain st2 where "run_statements xs st1 = Some st2" "extends st1 st2"
    using cons(2)[of st1] run_course(1)[OF cons(3) 1(1)] cons(4) by auto
  then show ?case
    using 1 extends_trans by auto
qed

lemma run_main_some:
  assumes "list_all statement_ok ss"
  shows "\<exists>st. run_main title ss (menu_init static_world) = Some st"
proof -
  define st0 where "st0 = (case title of None \<Rightarrow> menu_init static_world
       | Some (pos, t) \<Rightarrow> menu_add_prompt P_MENU t None (at_position pos (menu_init static_world)))"
  have "on_course (menu_add_prompt P_MENU t None (at_position pos (menu_init static_world)))" for t pos
    using on_course_step menu_add_prompt_step[of "{}" "at_position pos (menu_init static_world)" P_MENU]
      at_position_course[OF menu_init_course] on_course_ready by blast
  then have "on_course st0"
    using menu_init_course by (simp add: st0_def split: option.split)
  then show ?thesis
    using run_some(2)[OF _ assms] by (auto simp: run_main_def st0_def)
qed

lemma finalize_all_in_order:
  assumes "run_main title ss (menu_init static_world) = Some st"
  shows "\<exists>st'. finalize_all (add_main_menu (set_modules st)) = Some st' \<and>
     preorder (menu_tree st') = [0..<next_menu st] \<and>
     linked st' (menu_tree st') \<and> all_prompted st' (menu_tree st')"
proof -
  let ?st = "add_main_menu (set_modules st)"
  have c: "on_course ?st"
    using main_menu_course[OF run_main_course[OF assms]] .
  have wf: "well_formed ?st" and v: "valid_prompts ?st"
    using c by (simp_all add: on_course_def ready_def)
  obtain us rest st' where f: "menu_finalize (Finalize (menu_tree ?st) []) ?st = Some (us, rest, st')"
    using finalize_returns[OF wf] by blast
  obtain xs where us: "us = [Entry (entry (menu_tree ?st)) xs]"
    using f by (rule finalize_one)
  have "rest = []"
    using finalize_suffix[OF f] by simp
  then have "preorder (hd us) = preorder (menu_tree ?st)"
    using finalize_order[OF f] us by simp
  also have "\<dots> = [0..<next_menu ?st]"
    using c by (simp add: on_course_def)
  also have "next_menu ?st = next_menu st"
    by (simp add: next_menu_main)
  finally have 1: "preorder (hd us) = [0..<next_menu st]" .
  have "task_done rootmenu (Finalize (menu_tree ?st) []) st' us"
    by (rule finalize_shape[OF f v]) (use c in \<open>auto simp: on_course_def\<close>)
  then have "linked st' (hd us)" "all_prompted st' (hd us)"
    by (simp_all add: us)
  then show ?thesis
    using f 1 by (simp add: finalize_all_def set_tree)
qed

text \<open>
  C32.
  Every configuration of the grammar is read and finalized without a null pointer, whatever its
  dependencies, choices and nested blocks are. \<open>menu_finalize\<close> keeps every entry exactly once, in
  the order of the statements: the entries are numbered as they were added, and the walk over the
  finalized tree visits \<open>0, 1, 2, \<dots>\<close>. Moving entries into automatic submenus and out of blocks
  without a prompt leaves the parent of every entry the one above it in the tree, and below the
  root only an entry with the text of a prompt has entries below it.
\<close>

theorem finalized_menus_in_order:
  assumes "list_all statement_ok ss"
  shows "\<exists>st st'. run_main title ss (menu_init static_world) = Some st \<and>
     finalize_all (add_main_menu (set_modules st)) = Some st' \<and>
     preorder (menu_tree st') = [0..<next_menu st] \<and>
     linked st' (menu_tree st') \<and> all_prompted st' (menu_tree st')"
  using run_main_some[OF assms] finalize_all_in_order by blast

text \<open>A menu with two options in a block, the second of which depends on the first, and a choice.\<close>

definition example_statements :: "statement list" where
  "example_statements =
     [Menu (''Kconfig'', 1) ''Simulator'' []
        [If_block (''Kconfig'', 2) (Word (Plain ''HOST''))
           [Config (''Kconfig'', 3) ''DIFF'' [((''Kconfig'', 4), Type S_BOOLEAN (Some (''Compare'', None)))],
            Config (''Kconfig'', 5) ''TRACE''
              [((''Kconfig'', 6), Type S_BOOLEAN (Some (''Trace'', None))),
               ((''Kconfig'', 7), Depends (Word (Plain ''DIFF'')))]],
         Choice (''Kconfig'', 9) None [((''Kconfig'', 10), Prompt ''Clock'' None)]
           [Config (''Kconfig'', 11) ''FAST'' [((''Kconfig'', 12), Type S_BOOLEAN (Some (''Fast'', None)))]]]]"

lemma finalized_menus_in_order_witness:
  "\<exists>st st'. run_main None example_statements (menu_init static_world) = Some st \<and>
     finalize_all (add_main_menu (set_modules st)) = Some st' \<and>
     preorder (menu_tree st') = [0..<next_menu st] \<and>
     linked st' (menu_tree st') \<and> all_prompted st' (menu_tree st')"
  by (rule finalized_menus_in_order) (simp add: example_statements_def)

end
