(* ===== verification/Kconf_Order.thy ===== *)
theory Kconf_Order
  imports Kconf_Walk Kparse_Ends
begin

text \<open>
  Writing a configuration visits the entries of the finalized menus in the order of the
  statements: the bodies of the two walks leave the tree and the links alone, whatever the values
  of the symbols are.
\<close>

subsection \<open>The queries leave the tree alone\<close>

lemma with_calc_place: "with_calc f st = Some (a, st') \<Longrightarrow> same_place st st'"
  by (auto simp: with_calc_def split: Option.bind_splits)

lemma calc_on_place: "calc_on calc s st = Some st' \<Longrightarrow> same_place st st'"
  by (auto simp: calc_on_def split: Option.bind_splits)

lemma set_prompt_place [simp]: "same_place a (upd_menu m (menu_prompt_update f) st) = same_place a st"
  by (auto simp: same_place_def parent_of_def upd_menu_def)

lemma prompt_visible_place:
  assumes "prompt_visible calc m st = Some (t, st')"
  shows "same_place st st'"
proof (cases "entry_sym m st")
  case None
  then show ?thesis
    using assms by (auto simp: prompt_visible_def dest!: with_calc_place split: Option.bind_splits)
next
  case (Some s)
  then show ?thesis
    using assms by (auto simp: prompt_visible_def dest!: calc_on_place split: Option.bind_splits)
qed

lemma visible_place:
  "menu_is_visible calc t st = Some (b, st') \<Longrightarrow> same_place st st'"
  "any_visible calc ts st = Some (b, st') \<Longrightarrow> same_place st st'"
proof (induction t and ts arbitrary: st b st' and st b st' rule: tree_list_induct)
  case (1 m ts)
  show ?case
  proof (cases "menu_has_prompt m st")
    case False
    then show ?thesis
      using 1(2) by simp
  next
    case True
    then obtain v st1 where v: "visible_if calc m st = Some (v, st1)"
      using 1(2) by (auto split: Option.bind_splits)
    have p1: "same_place st st1"
      using v by (auto simp: visible_if_def dest: with_calc_place)
    show ?thesis
    proof (cases "v = T_no")
      case True
      then show ?thesis
        using 1(2) v p1 \<open>menu_has_prompt m st\<close> by simp
    next
      case False
      then obtain t st2 where t: "prompt_visible calc m st1 = Some (t, st2)"
        using 1(2) v True by (auto split: Option.bind_splits)
      have p2: "same_place st st2"
        using p1 prompt_visible_place[OF t] same_place_trans by blast
      show ?thesis
        using 1(2) v True False t p2 1(1) same_place_trans
        by (auto simp: update_if_def split: if_splits option.splits Option.bind_splits)
    qed
  qed
next
  case (3 t ts)
  then obtain c st1 where c: "menu_is_visible calc t st = Some (c, st1)"
    by (auto split: Option.bind_splits)
  have "same_place st st1"
    by (rule 3(1)[OF c])
  then show ?case
    using 3(2,3) c same_place_trans by (cases c) auto
qed simp

lemma entry_visible_place: "entry_is_visible calc m st = Some (b, st') \<Longrightarrow> same_place st st'"
  by (auto simp: entry_is_visible_def dest: visible_place split: Option.bind_splits)

subsection \<open>The bodies of the walks\<close>

lemma put_out_menus [simp]: "wr_menus (put_out s x) = wr_menus x"
  by (simp add: put_out_def)

lemma write_symbol_place:
  assumes "write_symbol h calc s x = Some y"
  shows "same_place (wr_menus x) (wr_menus y)"
  using assms by (auto simp: write_symbol_def Let_def dest!: with_calc_place split: Option.bind_splits if_splits)
    (auto simp: same_place_def parent_of_def on_mw_def)

lemma write_entry_place:
  assumes "write_entry h calc m x = Some y"
  shows "same_place (wr_menus x) (wr_menus y)"
proof (cases "entry_sym m (wr_menus x)")
  case None
  then show ?thesis
    using assms by (auto simp: write_entry_def Let_def dest: entry_visible_place split: Option.bind_splits if_splits)
next
  case (Some s)
  show ?thesis
  proof (cases "has_flag SYMBOL_CHOICE s (mw (wr_menus x)) \<or> has_flag SYMBOL_WRITTEN s (mw (wr_menus x))")
    case True
    then show ?thesis
      using assms Some by (simp add: write_entry_def)
  next
    case False
    then obtain st where st: "calc_on calc s (wr_menus x) = Some st"
      using assms Some by (auto simp: write_entry_def split: Option.bind_splits)
    have "same_place (wr_menus x) st"
      by (rule calc_on_place[OF st])
    moreover have "same_place st (wr_menus y)"
      using assms Some False st write_symbol_place[of h calc s "x\<lparr>wr_menus := st\<rparr>" y]
      by (auto simp: write_entry_def Let_def split: if_splits)
    ultimately show ?thesis
      by (rule same_place_trans)
  qed
qed

lemma close_entry_place: "close_entry calc m x = Some y \<Longrightarrow> same_place (wr_menus x) (wr_menus y)"
  by (auto simp: close_entry_def Let_def dest: entry_visible_place split: Option.bind_splits if_splits)

lemma chosen_place: "chosen_by_default calc s st = Some (b, st') \<Longrightarrow> same_place st st'"
  by (auto simp: chosen_by_default_def dest: with_calc_place split: Option.bind_splits if_splits)

lemma is_default_place:
  assumes "is_default calc s st = Some (b, st')"
  shows "same_place st st'"
proof -
  obtain v st1 d st2 where v: "with_calc (sym_get_string_value calc s) st = Some (v, st1)"
    and d: "with_calc (sym_get_string_default calc s) st1 = Some (d, st2)"
    and "st2 = st' \<or> chosen_by_default calc s st2 = Some (b, st')"
    using assms by (auto simp: is_default_def split: Option.bind_splits if_splits)
  then show ?thesis
    using with_calc_place[OF v] with_calc_place[OF d] chosen_place same_place_trans by metis
qed

lemma minimal_symbol_place:
  assumes "minimal_entry h calc m x = Some y" and "entry_sym m (wr_menus x) = Some s"
  shows "same_place (wr_menus x) (wr_menus y)"
proof (cases "sym_is_choice s (mw (wr_menus x))")
  case True
  then show ?thesis
    using assms by (simp add: minimal_entry_def)
next
  case False
  then obtain st where st: "calc_on calc s (wr_menus x) = Some st"
    using assms by (auto simp: minimal_entry_def split: Option.bind_splits)
  let ?st = "on_mw (upd_sym s (clear_flag SYMBOL_WRITE)) st"
  have p: "same_place (wr_menus x) st" "same_place (wr_menus x) ?st"
    using calc_on_place[OF st] by simp_all
  show ?thesis
  proof (cases "has_flag SYMBOL_WRITE s (mw st) \<and> sym_is_changeable s (mw ?st)")
    case False
    then show ?thesis
      using assms st p \<open>\<not> sym_is_choice s (mw (wr_menus x))\<close>
      by (auto simp: minimal_entry_def Let_def split: if_splits)
  next
    case True
    then obtain b st1 where b: "is_default calc s ?st = Some (b, st1)"
      using assms st False by (auto simp: minimal_entry_def Let_def split: Option.bind_splits)
    have p1: "same_place (wr_menus x) st1"
      using p(2) is_default_place[OF b] same_place_trans by blast
    show ?thesis
      using assms st False True b p1 same_place_trans[OF p1]
      by (auto simp: minimal_entry_def Let_def dest: with_calc_place split: Option.bind_splits if_splits)
  qed
qed

lemma minimal_entry_place:
  assumes "minimal_entry h calc m x = Some y"
  shows "same_place (wr_menus x) (wr_menus y)"
proof (cases "entry_sym m (wr_menus x)")
  case None
  then show ?thesis
    using assms by (auto simp: minimal_entry_def dest: entry_visible_place split: Option.bind_splits)
qed (use assms minimal_symbol_place in blast)

interpretation config_walk: menu_walk "write_entry h calc" "close_entry calc" wr_menus for h calc
  by unfold_locales (auto intro: write_entry_place close_entry_place)

interpretation defconfig_walk: menu_walk "minimal_entry h calc" no_close wr_menus for h calc
  by unfold_locales (auto simp: no_close_def intro: minimal_entry_place)

subsection \<open>The finalized menus\<close>

lemma finalized_links:
  assumes "run_main title ss (menu_init static_world) = Some st"
    and "finalize_all (add_main_menu (set_modules st)) = Some st'"
  shows "well_linked st'" and "entries (menu_list (menu_tree st')) = [1..<next_menu st]"
proof -
  let ?st = "add_main_menu (set_modules st)"
  have c: "on_course ?st"
    using main_menu_course[OF run_main_course[OF assms(1)]] .
  have o: "preorder (menu_tree st') = [0..<next_menu st]" "linked st' (menu_tree st')"
    using finalize_all_in_order[OF assms(1)] assms(2) by auto
  obtain us rest st1 where f: "menu_finalize (Finalize (menu_tree ?st) []) ?st = Some (us, rest, st1)"
    and st': "st' = st1\<lparr>menu_tree := hd us\<rparr>"
    using assms(2) by (auto simp: finalize_all_def split: Option.bind_splits)
  obtain xs where us: "us = [Entry (entry (menu_tree ?st)) xs]"
    using f by (rule finalize_one)
  have e: "menu_tree st' = Entry rootmenu xs"
    using us st' c by (simp add: on_course_def)
  have p: "rootmenu # entries xs = [0..<next_menu st]"
    using o(1) e by simp
  then have "rootmenu \<notin> set (entries xs)"
    by (metis distinct.simps(2) distinct_upt)
  then have "parent_of rootmenu st1 = parent_of rootmenu ?st"
    using moves_outside[OF finalize_moves[OF f]] us by simp
  then have "parent_of rootmenu st' = None"
    using c st' by (simp add: on_course_def parent_of_def)
  then show "well_linked st'"
    using o e by (simp add: well_linked_def)
  have "entries xs = tl [0..<next_menu st]"
    using p by (metis list.sel(3))
  then show "entries (menu_list (menu_tree st')) = [1..<next_menu st]"
    using e by (simp add: tl_upt)
qed

text \<open>
  C33.
  When the menus of a configuration were read and finalized, the walks of \<open>conf_write\<close> and
  \<open>conf_write_defconfig\<close> along \<open>list\<close>, \<open>next\<close> and \<open>parent\<close> end, whatever the symbols' values have
  become since. The minimal configuration is the result of handling the entries \<open>1, 2, 3, \<dots>\<close> in the
  order of the statements, each exactly once. The full one is the recursion over the finalized
  tree, which handles the same entries in the same order and closes every menu behind the last
  entry below it.
\<close>

theorem config_written_in_menu_order:
  assumes "run_main title ss (menu_init static_world) = Some st"
    and "finalize_all (add_main_menu (set_modules st)) = Some st'"
    and "same_place st' (wr_menus x)"
  shows "minimal_menus h calc x = each (minimal_entry h calc) [1..<next_menu st] x \<and>
     write_menus h calc x = do {
       y \<leftarrow> visit_trees (write_entry h calc) (close_entry calc) (menu_list (menu_tree st')) x;
       if menu_list (menu_tree st') = [] then Some y else close_entry calc rootmenu y } \<and>
     entries (menu_list (menu_tree st')) = [1..<next_menu st]"
proof -
  note l = finalized_links[OF assms(1,2)]
  have wl: "well_linked (wr_menus x)"
    using same_place_well_linked[OF assms(3)] l(1) by simp
  have t: "menu_tree (wr_menus x) = menu_tree st'"
    using assms(3) by (simp add: same_place_def)
  have "tl (preorder (menu_tree st')) = [1..<next_menu st]"
    using l(2) by (simp add: preorder_entry)
  then have "minimal_menus h calc x = each (minimal_entry h calc) [1..<next_menu st] x"
    using defconfig_walk.walk_all_in_order[OF wl] t by (simp add: minimal_menus_def no_close_def)
  moreover have "write_menus h calc x = do {
       y \<leftarrow> visit_trees (write_entry h calc) (close_entry calc) (menu_list (menu_tree st')) x;
       if menu_list (menu_tree st') = [] then Some y else close_entry calc rootmenu y }"
    using config_walk.walk_all_entries[OF wl] t by (simp add: write_menus_def)
  ultimately show ?thesis
    using l(2) by blast
qed

definition example_host :: conf_host where
  "example_host = \<lparr>conf_getenv = (\<lambda>_. None), zconf_fopen = (\<lambda>_. None), fs_denied = (\<lambda>_. False)\<rparr>"

definition example_calc :: calc where
  "example_calc = sym_calc_value 9 (\<lambda>_ _. False)"

lemma config_written_in_menu_order_witness:
  "\<exists>st st' x. run_main None example_statements (menu_init static_world) = Some st \<and>
     finalize_all (add_main_menu (set_modules st)) = Some st' \<and>
     minimal_menus example_host example_calc x =
       each (minimal_entry example_host example_calc) [1..<next_menu st] x \<and>
     entries (menu_list (menu_tree st')) = [1..<next_menu st]"
proof -
  obtain st where r: "run_main None example_statements (menu_init static_world) = Some st"
    using run_main_some[of example_statements None] by (auto simp: example_statements_def)
  obtain st' where f: "finalize_all (add_main_menu (set_modules st)) = Some st'"
    using finalize_all_in_order[OF r] by blast
  let ?x = "\<lparr>wr_menus = st', wr_text = '''', need_newline = False\<rparr>"
  have "same_place st' (wr_menus ?x)"
    by simp
  then show ?thesis
    using config_written_in_menu_order[OF r f] r f by blast
qed

end
