(* ===== verification/Kconf_Props.thy ===== *)
theory Kconf_Props
  imports Kconfwrite Ksymbol_Props Kexpr_Props
begin

text \<open>
  Properties of configuration files: what the printer writes for an option is read back as the
  same value, and the files that the build reads are replaced in a safe order.
\<close>

subsection \<open>Lines\<close>

definition name_char :: "char \<Rightarrow> bool" where
  "name_char c \<longleftrightarrow> is_alnum c \<or> c = CHR ''_''"

lemma name_char_not:
  "name_char c \<Longrightarrow> c \<noteq> CHR '' '' \<and> c \<noteq> CHR ''='' \<and> c \<noteq> CHR ''#'' \<and> c \<noteq> CHR 0x0A \<and> c \<noteq> CHR 0x0D"
  by (auto simp: name_char_def is_alnum_def is_digit_def is_upper_def is_lower_def)

lemma before_char_append: "c \<notin> set a \<Longrightarrow> before_char c (a @ c # b) = Some (a, b)"
  by (induction a) (auto simp: before_char_def)

lemma name_without:
  "list_all name_char n \<Longrightarrow> CHR '' '' \<notin> set n \<and> CHR ''='' \<notin> set n \<and> CHR 0x0A \<notin> set n"
  using name_char_not by (auto simp: list_all_iff)

lemma line_value_newline:
  "CHR 0x0A \<notin> set v \<Longrightarrow> v = [] \<or> last v \<noteq> CHR 0x0D \<Longrightarrow> line_value (v @ [CHR 0x0A]) = v"
  by (auto simp: line_value_def before_char_append)

lemma hd_name: "list_all name_char n \<Longrightarrow> n \<noteq> [] \<Longrightarrow> take 1 (n @ r) \<noteq> ''#''"
  using name_char_not by (cases n) auto

lemma parse_assign:
  assumes "list_all name_char prefix" and "list_all name_char n" and "n \<noteq> []"
    and "CHR 0x0A \<notin> set v" and "v = [] \<or> last v \<noteq> CHR 0x0D"
  shows "parse_line prefix (prefix @ n @ ''='' @ v @ newline) = Assign n v"
proof -
  have "take 1 ((prefix @ n) @ ''='' @ v @ newline) \<noteq> ''#''"
    using assms(1-3) by (intro hd_name) auto
  moreover have "before_char (CHR ''='') (n @ CHR ''='' # v @ newline) = Some (n, v @ newline)"
    using name_without[OF assms(2)] by (intro before_char_append) simp
  ultimately show ?thesis
    using line_value_newline[OF assms(4,5)] by (simp add: parse_line_def newline_def)
qed

lemma parse_not_set:
  assumes "list_all name_char n"
  shows "parse_line prefix (''# '' @ prefix @ n @ '' is not set'' @ newline) = Not_set n"
proof -
  have "before_char (CHR '' '') (n @ CHR '' '' # ''is not set'' @ newline) = Some (n, ''is not set'' @ newline)"
    using name_without[OF assms] by (intro before_char_append) simp
  then show ?thesis by (simp add: parse_line_def comment_line_def)
qed

text \<open>Escaping is undone by reading.\<close>

lemma unquote_escape: "unquote (escape_chars v @ CHR 0x22 # r) = Some v"
  by (induction v) auto

lemma escape_newline: "CHR 0x0A \<in> set (escape_chars v) \<longleftrightarrow> CHR 0x0A \<in> set v"
  by (induction v) auto

lemma file_lines_line: "CHR 0x0A \<notin> set l \<Longrightarrow> file_lines (l @ newline @ r) = (l @ newline) # file_lines r"
  by (induction l) (auto simp: newline_def)

subsection \<open>What reading keeps\<close>

text \<open>The table of symbols, their names, types and kinds.\<close>

definition same_table :: "kworld \<Rightarrow> kworld \<Rightarrow> bool" where
  "same_table w w' \<longleftrightarrow> symbol_hash w' = symbol_hash w \<and>
     (\<forall>s. sym_name (syms w' s) = sym_name (syms w s) \<and> sym_type (syms w' s) = sym_type (syms w s) \<and>
        flags (syms w' s) \<inter> kind_flags = flags (syms w s) \<inter> kind_flags)"

lemma same_table_refl [simp]: "same_table w w"
  by (simp add: same_table_def)

lemma same_table_trans: "same_table w w' \<Longrightarrow> same_table w' w'' \<Longrightarrow> same_table w w''"
  by (simp add: same_table_def)

lemma same_table_kind: "same_table w w' \<Longrightarrow> f \<in> kind_flags \<Longrightarrow> has_flag f s w' \<longleftrightarrow> has_flag f s w"
  by (auto simp: same_table_def has_flag_def)

lemma same_table_find:
  assumes "same_table w w'"
  shows "sym_find n w' = sym_find n w"
proof -
  have "sym_name (syms w' s) = sym_name (syms w s)" "SYMBOL_CONST \<in> flags (syms w' s) \<longleftrightarrow> SYMBOL_CONST \<in> flags (syms w s)" for s
    using assms same_table_kind[OF assms, of SYMBOL_CONST s] by (simp_all add: same_table_def has_flag_def)
  then show ?thesis
    using assms by (auto simp: sym_find_def same_table_def split: option.split)
qed

lemma same_table_all: "same_table w w' \<Longrightarrow> all_symbols w' = all_symbols w"
  by (simp add: same_table_def all_symbols_def)

lemma same_table_upd:
  "(\<And>x. sym_name (f x) = sym_name x \<and> sym_type (f x) = sym_type x \<and> flags (f x) \<inter> kind_flags = flags x \<inter> kind_flags) \<Longrightarrow>
   same_table w (upd_sym s f w)"
  by (simp add: same_table_def)

lemma same_table_fold: "(\<And>s w. same_table w (f s w)) \<Longrightarrow> same_table w (fold f ss w)"
  by (induction ss arbitrary: w) (auto intro: same_table_trans)

lemma same_table_messages [simp]: "same_table w (w'\<lparr>messages := m\<rparr>) = same_table w w'"
  by (simp add: same_table_def)

lemma forget_table: "same_table w (upd_sym s (forget_value def) w)"
  by (rule same_table_upd) (auto simp: forget_value_def kind_flags_def)

lemma forget_twice: "forget_value def (forget_value def x) = forget_value def x"
  by (cases x) (auto simp: forget_value_def)

lemma fold_upd_idem:
  assumes "\<And>x. f (f x) = f x"
  shows "syms (fold (\<lambda>s. upd_sym s f) ss w) t = (if t \<in> set ss then f (syms w t) else syms w t)"
  using assms by (induction ss arbitrary: w) auto


subsection \<open>Reading what was printed\<close>

text \<open>The texts that the types allow; a string must not contain a newline.\<close>

fun value_ok :: "symbol_type \<Rightarrow> string \<Rightarrow> bool" where
  "value_ok S_BOOLEAN v = (v \<in> {''y'', ''n''})"
| "value_ok S_TRISTATE v = (v \<in> {''y'', ''m'', ''n''})"
| "value_ok S_STRING v = (CHR 0x0A \<notin> set v)"
| "value_ok S_INT v = int_text_valid v"
| "value_ok S_HEX v = hex_text_valid v"
| "value_ok S_UNKNOWN v = False"

text \<open>An option that can be read: its name finds it, and it is no value of a choice.\<close>

definition option_ok :: "sym \<Rightarrow> string \<Rightarrow> kworld \<Rightarrow> bool" where
  "option_ok s v w \<longleftrightarrow>
     (case sym_name (syms w s) of
        None \<Rightarrow> False
      | Some n \<Rightarrow> list_all name_char n \<and> n \<noteq> [] \<and> sym_find (Some n) w = Some s) \<and>
     \<not> sym_is_choice_value s w \<and> value_ok (sym_type (syms w s)) v"

text \<open>A symbol with the value that a text says.\<close>

definition saved :: "string \<Rightarrow> symbol \<Rightarrow> symbol" where
  "saved v x = set_flag SYMBOL_DEF_USER
     (if sym_type x = S_BOOLEAN \<or> sym_type x = S_TRISTATE
      then set_def_tri S_DEF_USER (case tristate_of_text v of Some t \<Rightarrow> t | None \<Rightarrow> T_no) x
      else set_def_val S_DEF_USER (Str v) x)"

definition printed_value :: "symbol_type \<Rightarrow> string \<Rightarrow> string" where
  "printed_value ty v = (if ty = S_STRING then sym_escape_string_value v else v)"

lemma digits_no_newline: "list_all is_digit v \<Longrightarrow> CHR 0x0A \<notin> set v \<and> CHR 0x0D \<notin> set v"
  by (auto simp: list_all_iff is_digit_def)

lemma xdigits_no_newline: "list_all is_xdigit v \<Longrightarrow> CHR 0x0A \<notin> set v \<and> CHR 0x0D \<notin> set v"
  by (auto simp: list_all_iff is_xdigit_def is_digit_def)

lemma int_no_newline: "int_text_valid v \<Longrightarrow> CHR 0x0A \<notin> set v \<and> CHR 0x0D \<notin> set v"
proof -
  assume v: "int_text_valid v"
  have "list_all is_digit (if take 1 v = ''-'' then tl v else v)"
    using v by (auto simp: int_text_valid_def split: list.splits)
  then show ?thesis
    using digits_no_newline[of v] digits_no_newline[of "tl v"] by (cases v) (auto split: if_splits)
qed

lemma hex_no_newline: "hex_text_valid v \<Longrightarrow> CHR 0x0A \<notin> set v \<and> CHR 0x0D \<notin> set v"
proof -
  assume v: "hex_text_valid v"
  then have rest: "CHR 0x0A \<notin> set (if hex_prefixed v then drop 2 v else v) \<and> CHR 0x0D \<notin> set (if hex_prefixed v then drop 2 v else v)"
    using xdigits_no_newline by (simp add: hex_text_valid_def Let_def)
  have "set v = set (take 2 v) \<union> set (drop 2 v)" by (metis append_take_drop_id set_append)
  then show ?thesis using rest by (auto simp: hex_prefixed_def split: if_splits)
qed

lemma printed_value_line:
  assumes "value_ok ty v"
  shows "CHR 0x0A \<notin> set (printed_value ty v)"
    and "printed_value ty v = [] \<or> last (printed_value ty v) \<noteq> CHR 0x0D"
proof -
  have "CHR 0x0A \<notin> set (printed_value ty v) \<and> (printed_value ty v = [] \<or> last (printed_value ty v) \<noteq> CHR 0x0D)"
  proof (cases ty)
    case S_STRING
    then show ?thesis
      using assms by (simp add: printed_value_def sym_escape_string_value_def escape_newline)
  next
    case S_INT
    then show ?thesis using assms int_no_newline[of v] last_in_set by (fastforce simp: printed_value_def)
  next
    case S_HEX
    then show ?thesis using assms hex_no_newline[of v] last_in_set by (fastforce simp: printed_value_def)
  qed (use assms in \<open>auto simp: printed_value_def\<close>)
  then show "CHR 0x0A \<notin> set (printed_value ty v)"
    and "printed_value ty v = [] \<or> last (printed_value ty v) \<noteq> CHR 0x0D" by simp_all
qed

text \<open>What the parser makes of the line of an option.\<close>

definition line_of :: "conf_host \<Rightarrow> sym \<Rightarrow> string \<Rightarrow> kworld \<Rightarrow> string" where
  "line_of h s v w = kconfig_print_symbol h False s (printed_value (sym_type (syms w s)) v) w"

lemma line_of_parsed:
  assumes "list_all name_char (CONFIG_prefix h)" and "option_ok s v w" and "sym_name (syms w s) = Some n"
  shows "parse_line (CONFIG_prefix h) (line_of h s v w) =
    (if (sym_type (syms w s) = S_BOOLEAN \<or> sym_type (syms w s) = S_TRISTATE) \<and> take 1 v = ''n''
     then Not_set n else Assign n (printed_value (sym_type (syms w s)) v))"
proof -
  have n: "list_all name_char n" "n \<noteq> []" and v: "value_ok (sym_type (syms w s)) v"
    using assms(2,3) by (auto simp: option_ok_def)
  have "parse_line (CONFIG_prefix h) (CONFIG_prefix h @ n @ ''='' @ printed_value (sym_type (syms w s)) v @ newline) =
      Assign n (printed_value (sym_type (syms w s)) v)"
    using parse_assign[OF assms(1) n printed_value_line[OF v]] .
  moreover have "printed_value (sym_type (syms w s)) v = v" if "sym_type (syms w s) \<noteq> S_STRING"
    using that by (simp add: printed_value_def)
  ultimately show ?thesis
    using assms(3) parse_not_set[OF n(1), of "CONFIG_prefix h"]
    by (cases "sym_type (syms w s)") (simp_all add: line_of_def kconfig_print_symbol_def name_text_def)
qed

lemma line_of_is_line:
  assumes "list_all name_char (CONFIG_prefix h)" and "option_ok s v w"
  shows "file_lines (line_of h s v w @ r) = line_of h s v w # file_lines r"
proof -
  obtain n where n: "sym_name (syms w s) = Some n" "list_all name_char n"
    using assms(2) by (auto simp: option_ok_def split: option.splits)
  have "\<exists>l. line_of h s v w = l @ newline \<and> CHR 0x0A \<notin> set l"
    using name_without[OF assms(1)] name_without[OF n(2)] n(1) printed_value_line(1)[of "sym_type (syms w s)" v] assms(2)
    by (fastforce simp: line_of_def kconfig_print_symbol_def name_text_def option_ok_def)
  then show ?thesis using file_lines_line by auto
qed


lemma same_table_saved: "same_table w (upd_sym s (saved v) w)"
  by (rule same_table_upd) (auto simp: saved_def set_flag_def set_def_tri_def set_def_val_def)

text \<open>Reading the line of an option that has no value yet.\<close>

lemma set_sym_val_saved:
  assumes "value_ok (sym_type (syms (kw cw) s)) v"
  shows "conf_set_sym_val s S_DEF_USER (printed_value (sym_type (syms (kw cw) s)) v) cw = (True, on_kw (upd_sym s (saved v)) cw)"
proof -
  have upd: "upd_sym s f (upd_sym s g w) = upd_sym s (\<lambda>x. f (g x)) w" for f g w
    by (simp add: upd_sym_def)
  have cong: "upd_sym s f w = upd_sym s g w" if "f (syms w s) = g (syms w s)" for f g w
    using that by (simp add: upd_sym_def)
  show ?thesis
  proof (cases "sym_type (syms (kw cw) s)")
    case S_STRING
    then show ?thesis
      by (auto simp: conf_set_sym_val_def printed_value_def sym_escape_string_value_def unquote_escape set_text_value_def
          sym_string_valid_def on_kw_def put_def_val_def upd saved_def intro!: cong)
  next
    case S_INT
    then show ?thesis
      using assms by (auto simp: conf_set_sym_val_def printed_value_def set_text_value_def
          sym_string_valid_def on_kw_def put_def_val_def upd saved_def intro!: cong)
  next
    case S_HEX
    then show ?thesis
      using assms by (auto simp: conf_set_sym_val_def printed_value_def set_text_value_def
          sym_string_valid_def on_kw_def put_def_val_def upd saved_def intro!: cong)
  qed (use assms in \<open>auto simp: conf_set_sym_val_def printed_value_def tristate_of_text_def
      on_kw_def put_def_tri_def upd saved_def intro!: cong\<close>)
qed


lemma read_saved:
  assumes "list_all name_char (CONFIG_prefix h)" and "option_ok s v (kw cw)" and "\<not> sym_has_value s (kw cw)"
  shows "read_line h S_DEF_USER (line_of h s v (kw cw)) cw =
    Some (on_kw (upd_sym s (saved v)) (cw\<lparr>conf_lineno := conf_lineno cw + 1\<rparr>))"
proof -
  define cw1 where "cw1 = cw\<lparr>conf_lineno := conf_lineno cw + 1\<rparr>"
  have kw1: "kw cw1 = kw cw" by (simp add: cw1_def)
  obtain n where n: "sym_name (syms (kw cw) s) = Some n" "sym_find (Some n) (kw cw) = Some s"
    using assms(2) by (auto simp: option_ok_def split: option.splits)
  have ok: "value_ok (sym_type (syms (kw cw) s)) v" "\<not> sym_is_choice_value s (kw cw)"
    using assms(2) by (simp_all add: option_ok_def)
  have quiet: "override_warning s S_DEF_USER cw1 = cw1"
    using assms(3) by (simp add: override_warning_def sym_has_value_def kw1)
  have table: "sym_is_choice_value s (upd_sym s (saved v) (kw cw)) = sym_is_choice_value s (kw cw)"
    using same_table_kind[OF same_table_saved] by (simp add: sym_is_choice_value_def kind_flags_def)
  have put: "on_kw (put_def_tri s S_DEF_USER T_no) cw1 = on_kw (upd_sym s (saved v)) cw1"
    if "sym_type (syms (kw cw) s) = S_BOOLEAN \<or> sym_type (syms (kw cw) s) = S_TRISTATE" "take 1 v = ''n''"
  proof -
    have "tristate_of_text v = Some T_no" using that ok(1) by (auto simp: tristate_of_text_def)
    then show ?thesis using that(1) by (simp add: on_kw_def put_def_tri_def upd_sym_def saved_def kw1)
  qed
  have set: "conf_set_sym_val s S_DEF_USER (printed_value (sym_type (syms (kw cw) s)) v) cw1 =
      (True, on_kw (upd_sym s (saved v)) cw1)"
    using set_sym_val_saved[of cw1 s v] ok(1) by (simp add: kw1)
  have stays: "update_choice s S_DEF_USER (on_kw (upd_sym s (saved v)) cw1) = Some (on_kw (upd_sym s (saved v)) cw1)"
    using table ok(2) by (simp add: update_choice_def on_kw_def kw1)
  have "read_line h S_DEF_USER (line_of h s v (kw cw)) cw =
    (if (sym_type (syms (kw cw) s) = S_BOOLEAN \<or> sym_type (syms (kw cw) s) = S_TRISTATE) \<and> take 1 v = ''n''
     then read_not_set n S_DEF_USER cw1
     else read_assign h n (printed_value (sym_type (syms (kw cw) s)) v) S_DEF_USER cw1)"
    using line_of_parsed[OF assms(1,2) n(1)] by (simp add: read_line_def cw1_def Let_def)
  also have "\<dots> = Some (on_kw (upd_sym s (saved v)) cw1)"
    using n(2) quiet put set stays by (auto simp: read_not_set_def read_assign_def unset_symbol_def kw1)
  finally show ?thesis by (simp add: cw1_def)
qed

lemma same_table_option:
  assumes "same_table w w'"
  shows "option_ok s v w' = option_ok s v w"
proof -
  have "sym_name (syms w' s) = sym_name (syms w s)" "sym_type (syms w' s) = sym_type (syms w s)"
    "sym_is_choice_value s w' = sym_is_choice_value s w"
    using assms same_table_kind[OF assms, of SYMBOL_CHOICEVAL s]
    by (simp_all add: same_table_def sym_is_choice_value_def)
  then show ?thesis
    by (cases "sym_name (syms w s)") (simp_all add: option_ok_def same_table_find[OF assms])
qed

lemma same_table_line: "same_table w w' \<Longrightarrow> line_of h s v w' = line_of h s v w"
  by (simp add: line_of_def kconfig_print_symbol_def name_text_def same_table_def)

lemma read_all_saved:
  assumes "list_all name_char (CONFIG_prefix h)" and "distinct ss"
    and "\<And>s. s \<in> set ss \<Longrightarrow> option_ok s (v s) (kw cw) \<and> \<not> sym_has_value s (kw cw)"
  shows "\<exists>cw'. each (read_line h S_DEF_USER) (file_lines (concat (map (\<lambda>s. line_of h s (v s) (kw cw)) ss))) cw = Some cw' \<and>
     conf_warnings cw' = conf_warnings cw \<and>
     (\<forall>t. syms (kw cw') t = (if t \<in> set ss then saved (v t) (syms (kw cw) t) else syms (kw cw) t))"
  using assms(2,3)
proof (induction ss arbitrary: cw)
  case (Cons s ss)
  define cw1 where "cw1 = on_kw (upd_sym s (saved (v s))) (cw\<lparr>conf_lineno := conf_lineno cw + 1\<rparr>)"
  have kw1: "kw cw1 = upd_sym s (saved (v s)) (kw cw)" by (simp add: cw1_def on_kw_def)
  then have table: "same_table (kw cw) (kw cw1)" by (simp only: same_table_saved)
  have s: "option_ok s (v s) (kw cw)" "\<not> sym_has_value s (kw cw)" using Cons.prems by simp_all
  have "\<exists>cw'. each (read_line h S_DEF_USER) (file_lines (concat (map (\<lambda>s. line_of h s (v s) (kw cw1)) ss))) cw1 = Some cw' \<and>
     conf_warnings cw' = conf_warnings cw1 \<and>
     (\<forall>t. syms (kw cw') t = (if t \<in> set ss then saved (v t) (syms (kw cw1) t) else syms (kw cw1) t))"
  proof (rule Cons.IH)
    fix t assume "t \<in> set ss"
    then show "option_ok t (v t) (kw cw1) \<and> \<not> sym_has_value t (kw cw1)"
      using Cons.prems same_table_option[OF table] by (auto simp: sym_has_value_def has_flag_def kw1)
  qed (use Cons.prems in simp)
  then obtain cw' where cw': "each (read_line h S_DEF_USER) (file_lines (concat (map (\<lambda>s. line_of h s (v s) (kw cw)) ss))) cw1 = Some cw'"
    "conf_warnings cw' = conf_warnings cw1"
    "\<forall>t. syms (kw cw') t = (if t \<in> set ss then saved (v t) (syms (kw cw1) t) else syms (kw cw1) t)"
    by (auto simp: same_table_line[OF table])
  show ?case
  proof (intro exI conjI)
    show "each (read_line h S_DEF_USER) (file_lines (concat (map (\<lambda>s. line_of h s (v s) (kw cw)) (s # ss)))) cw = Some cw'"
      using read_saved[OF assms(1) s] cw'(1) by (simp add: line_of_is_line[OF assms(1) s(1)] cw1_def)
    show "conf_warnings cw' = conf_warnings cw" using cw'(2) by (simp add: cw1_def on_kw_def)
    show "\<forall>t. syms (kw cw') t = (if t \<in> set (s # ss) then saved (v t) (syms (kw cw) t) else syms (kw cw) t)"
      using cw'(3) Cons.prems(1) by (auto simp: kw1)
  qed
qed simp

lemma written_line:
  assumes "sym_get_string_value calc s w = Some (Str v, w')" and "conf_write_symbol calc (kconfig_printer_cb h) False s w = Some (text, w')"
    and "sym_type (syms w s) \<noteq> S_UNKNOWN" and "same_table w0 w'"
  shows "text = line_of h s v w0"
proof -
  have "text = line_of h s v w'"
    using assms(1-3) by (auto simp: conf_write_symbol_def kconfig_printer_cb_def line_of_def printed_value_def)
  then show ?thesis by (simp add: same_table_line[OF assms(4)])
qed


lemma forgotten:
  "syms (fold (\<lambda>s. upd_sym s (forget_value def)) ss w) t =
     (if t \<in> set ss then forget_value def (syms w t) else syms w t)"
  by (rule fold_upd_idem[OF forget_twice])

text \<open>
  C30.
  A configuration that was printed is read back: when the file consists of the lines that
  \<open>conf_write_symbol\<close> writes for some options, no choices and no values of choices, with values
  that their types allow, then reading it gives exactly these options the printed values, takes
  the values of all others away, and does not warn.
\<close>

theorem config_roundtrip:
  assumes "list_all name_char (CONFIG_prefix h)" and "distinct ss" and "set ss \<subseteq> set (all_symbols (kw cw))"
    and "\<forall>s \<in> set ss. option_ok s (v s) (kw cw) \<and> \<not> sym_is_choice s (kw cw)"
    and "\<forall>s \<in> set ss. \<exists>w'. same_table (kw cw) w' \<and> sym_type (syms (ws s) s) = sym_type (syms w' s) \<and>
      sym_get_string_value calc s (ws s) = Some (Str (v s), w') \<and>
      conf_write_symbol calc (kconfig_printer_cb h) False s (ws s) = Some (texts s, w')"
  shows "\<exists>cw'. load_text h S_DEF_USER name (concat (map texts ss)) cw = Some cw' \<and> conf_warnings cw' = 0 \<and>
    (\<forall>s \<in> set (all_symbols (kw cw)). \<not> sym_is_choice s (kw cw) \<longrightarrow>
      (sym_has_value s (kw cw') \<longleftrightarrow> s \<in> set ss)) \<and>
    (\<forall>s \<in> set ss.
      (if sym_type (syms (kw cw) s) = S_BOOLEAN \<or> sym_type (syms (kw cw) s) = S_TRISTATE
       then Some (tri (sym_def (syms (kw cw') s) S_DEF_USER)) = tristate_of_text (v s)
       else val (sym_def (syms (kw cw') s) S_DEF_USER) = Str (v s)))"
proof -
  define w1 where "w1 = fold (\<lambda>s. upd_sym s (forget_value S_DEF_USER)) (all_symbols (kw cw)) (kw cw)"
  define cw1 where "cw1 = on_kw (\<lambda>w. fold (\<lambda>s. upd_sym s (forget_value S_DEF_USER)) (all_symbols w) w)
    (cw\<lparr>conf_filename := name, conf_lineno := 0, conf_warnings := 0\<rparr>)"
  have kw1: "kw cw1 = w1" by (simp add: cw1_def on_kw_def w1_def)
  have table: "same_table (kw cw) w1" unfolding w1_def by (rule same_table_fold[OF forget_table])
  have w1: "syms w1 t = (if t \<in> set (all_symbols (kw cw)) then forget_value S_DEF_USER (syms (kw cw) t) else syms (kw cw) t)" for t
    unfolding w1_def by (rule forgotten)
  have fresh: "\<not> sym_has_value t w1" if "t \<in> set (all_symbols (kw cw))" "\<not> sym_is_choice t (kw cw)" for t
    using that by (simp add: sym_has_value_def has_flag_def w1 forget_value_def sym_is_choice_def)
  have lines: "map texts ss = map (\<lambda>s. line_of h s (v s) w1) ss"
  proof (rule map_cong[OF refl])
    fix s assume s: "s \<in> set ss"
    then obtain w' where w': "same_table (kw cw) w'" "sym_type (syms (ws s) s) = sym_type (syms w' s)"
      "sym_get_string_value calc s (ws s) = Some (Str (v s), w')"
      "conf_write_symbol calc (kconfig_printer_cb h) False s (ws s) = Some (texts s, w')"
      using assms(5) by blast
    have "sym_type (syms (kw cw) s) \<noteq> S_UNKNOWN" using assms(4) s by (auto simp: option_ok_def)
    then have "texts s = line_of h s (v s) (kw cw)"
      using w' by (intro written_line[OF w'(3,4)]) (simp_all add: same_table_def)
    then show "texts s = line_of h s (v s) w1" by (simp add: same_table_line[OF table])
  qed
  have "option_ok s (v s) (kw cw1) \<and> \<not> sym_has_value s (kw cw1)" if "s \<in> set ss" for s
    using assms(3,4) that fresh same_table_option[OF table] by (auto simp: kw1)
  from read_all_saved[OF assms(1,2) this] obtain cw' where
    cw': "each (read_line h S_DEF_USER) (file_lines (concat (map texts ss))) cw1 = Some cw'" "conf_warnings cw' = conf_warnings cw1"
    and new: "\<And>t. syms (kw cw') t = (if t \<in> set ss then saved (v t) (syms w1 t) else syms w1 t)"
    unfolding lines kw1 by blast
  have type: "sym_type (syms w1 s) = sym_type (syms (kw cw) s)" for s using table by (simp add: same_table_def)
  show ?thesis
  proof (intro exI conjI ballI impI)
    show "load_text h S_DEF_USER name (concat (map texts ss)) cw = Some cw'"
      using cw'(1) by (simp add: load_text_def cw1_def Let_def)
    show "conf_warnings cw' = 0" using cw'(2) by (simp add: cw1_def on_kw_def)
    fix s assume s: "s \<in> set (all_symbols (kw cw))" "\<not> sym_is_choice s (kw cw)"
    then show "sym_has_value s (kw cw') \<longleftrightarrow> s \<in> set ss"
      using fresh[OF s] by (auto simp: sym_has_value_def has_flag_def new saved_def set_flag_def)
  next
    fix s assume s: "s \<in> set ss"
    then have "value_ok (sym_type (syms (kw cw) s)) (v s)" using assms(4) by (simp add: option_ok_def)
    then have "tristate_of_text (v s) \<noteq> None"
      if "sym_type (syms (kw cw) s) = S_BOOLEAN \<or> sym_type (syms (kw cw) s) = S_TRISTATE"
      using that by (auto simp: tristate_of_text_def)
    then show "if sym_type (syms (kw cw) s) = S_BOOLEAN \<or> sym_type (syms (kw cw) s) = S_TRISTATE
       then Some (tri (sym_def (syms (kw cw') s) S_DEF_USER)) = tristate_of_text (v s)
       else val (sym_def (syms (kw cw') s) S_DEF_USER) = Str (v s)"
      using s by (auto simp: new saved_def set_flag_def set_def_tri_def set_def_val_def type)
  qed
qed


subsection \<open>Example\<close>

definition title_value :: string where
  "title_value = [CHR ''a'', CHR 0x22, CHR ''b'', CHR 0x5C]"

definition title_world :: kworld where
  "title_world = \<lparr>syms = (\<lambda>s. if s = Sym 0 then zero_symbol\<lparr>sym_name := Some ''TITLE'', sym_type := S_STRING,
       curr := \<lparr>val = Str title_value, tri = T_no\<rparr>, flags := {SYMBOL_VALID, SYMBOL_WRITE}\<rparr> else zero_symbol),
     symbol_hash = (\<lambda>h. if h = name_bucket ''TITLE'' then [Sym 0] else []),
     next_sym = 1, modules_sym = Sym 1, modules_val = T_no, sym_change_count = 0, menu_changed = {}, messages = []\<rparr>"

definition bare_host :: conf_host where
  "bare_host = \<lparr>conf_getenv = (\<lambda>_. None), zconf_fopen = (\<lambda>_. None), fs_denied = (\<lambda>_. False)\<rparr>"

definition title_conf :: conf_world where
  "title_conf = \<lparr>kw = title_world, conf_filename = '''', conf_lineno = 0, conf_warnings = 0, dep_prefix = '''',
     conf_fs = \<lparr>fs_dirs = {}, fs_files = Map.empty\<rparr>, sym_defconfig_list = None, conf_messages = []\<rparr>"

lemma title_in_table: "Sym 0 \<in> set (all_symbols title_world)"
proof -
  have "name_bucket ''TITLE'' < SYMBOL_HASHSIZE" by (simp add: name_bucket_def SYMBOL_HASHSIZE_def)
  then show ?thesis by (auto simp: all_symbols_def title_world_def)
qed

lemma title_chars: "list_all name_char ''CONFIG_''" "list_all name_char ''TITLE''"
  by code_simp+

lemmas title_simps = title_world_def zero_symbol_def no_value_def has_flag_def sym_is_choice_def
  sym_is_choice_value_def

lemma title_ok: "option_ok (Sym 0) title_value title_world" "\<not> sym_is_choice (Sym 0) title_world"
  using title_chars(2)
  by (simp_all add: option_ok_def title_simps sym_find_def const_name_def) (simp add: title_value_def)

lemma title_written:
  "sym_get_string_value calc_done (Sym 0) title_world = Some (Str title_value, title_world)"
  "conf_write_symbol calc_done (kconfig_printer_cb bare_host) False (Sym 0) title_world =
     Some (line_of bare_host (Sym 0) title_value title_world, title_world)"
  by (simp_all add: sym_get_string_value_def conf_write_symbol_def kconfig_printer_cb_def line_of_def printed_value_def title_simps)

theorem config_roundtrip_witness:
  "\<exists>cw'. load_text bare_host S_DEF_USER '''' (line_of bare_host (Sym 0) title_value title_world) title_conf = Some cw' \<and>
     sym_has_value (Sym 0) (kw cw') \<and> val (sym_def (syms (kw cw') (Sym 0)) S_DEF_USER) = Str title_value"
proof -
  have kw: "kw title_conf = title_world" by (simp add: title_conf_def)
  have "\<forall>s \<in> set [Sym 0]. \<exists>w'. same_table (kw title_conf) w' \<and> sym_type (syms title_world s) = sym_type (syms w' s) \<and>
      sym_get_string_value calc_done s title_world = Some (Str title_value, w') \<and>
      conf_write_symbol calc_done (kconfig_printer_cb bare_host) False s title_world =
        Some (line_of bare_host s title_value title_world, w')"
    using title_written by (auto simp: kw)
  then have "\<exists>cw'. load_text bare_host S_DEF_USER ''''
        (concat (map (\<lambda>s. line_of bare_host s title_value title_world) [Sym 0])) title_conf = Some cw' \<and> conf_warnings cw' = 0 \<and>
      (\<forall>s \<in> set (all_symbols (kw title_conf)). \<not> sym_is_choice s (kw title_conf) \<longrightarrow>
        (sym_has_value s (kw cw') \<longleftrightarrow> s \<in> set [Sym 0])) \<and>
      (\<forall>s \<in> set [Sym 0].
        (if sym_type (syms (kw title_conf) s) = S_BOOLEAN \<or> sym_type (syms (kw title_conf) s) = S_TRISTATE
         then Some (tri (sym_def (syms (kw cw') s) S_DEF_USER)) = tristate_of_text title_value
         else val (sym_def (syms (kw cw') s) S_DEF_USER) = Str title_value))"
    by (intro config_roundtrip[where v = "\<lambda>_. title_value"]) (use title_chars(1) title_in_table title_ok in \<open>auto simp: kw CONFIG_prefix_def bare_host_def\<close>)
  moreover have "sym_type (syms (kw title_conf) (Sym 0)) = S_STRING" by (simp add: kw title_world_def)
  ultimately show ?thesis using title_in_table title_ok(2) by (auto simp: kw)
qed

end
