(* ===== verification/Kconf_Files.thy ===== *)
theory Kconf_Files
  imports Kconf_Props
begin

text \<open>
  Properties of the files that the build reads: which files the steps of \<open>conf_write_autoconf\<close>
  touch, and that \<open>auto.conf\<close> is replaced last.
\<close>

subsection \<open>Which files a step writes\<close>

text \<open>A file with the contents that it had.\<close>

definition keeps_file :: "string \<Rightarrow> file_system \<Rightarrow> file_system \<Rightarrow> bool" where
  "keeps_file a fs fs' \<longleftrightarrow> fs_files fs' a = fs_files fs a"

lemma keeps_file_refl [simp, intro]: "keeps_file a fs fs"
  by (simp add: keeps_file_def)

lemma keeps_file_trans: "keeps_file a fs fs' \<Longrightarrow> keeps_file a fs' fs'' \<Longrightarrow> keeps_file a fs fs''"
  by (simp add: keeps_file_def)

lemma make_dirs_files: "make_dirs h ds fs = (ok, fs') \<Longrightarrow> fs_files fs' = fs_files fs"
  by (induction ds arbitrary: fs) (auto simp: mkdir_def split: if_splits option.splits)

lemma parent_dir_files: "make_parent_dir h p fs = (ok, fs') \<Longrightarrow> fs_files fs' = fs_files fs"
  unfolding make_parent_dir_def by (rule make_dirs_files)

lemma create_files: "create_file h p fs = Opened fs' \<Longrightarrow> fs_files fs' = (fs_files fs)(p \<mapsto> '''')"
  by (auto simp: create_file_def split: if_splits)

lemma touch_again_files:
  "touch_again h p fs = (ok, fs') \<Longrightarrow> fs_files fs' = (if ok then (fs_files fs)(p \<mapsto> '''') else fs_files fs)"
  using parent_dir_files[of h p fs]
  by (auto simp: touch_again_def dest!: create_files split: prod.splits bool.splits open_result.splits)

text \<open>The file of an option is created empty; nothing else is written.\<close>

lemma touch_dep_files:
  "conf_touch_dep h prefix name fs = (ok, fs') \<Longrightarrow>
   fs_files fs' = (if ok then (fs_files fs)(dep_file_path prefix name \<mapsto> '''') else fs_files fs)"
  by (auto simp: conf_touch_dep_def Let_def dest!: create_files touch_again_files split: if_splits open_result.splits)

text \<open>A path that is none of an option: these end in \<open>.h\<close>.\<close>

definition not_dep_path :: "string \<Rightarrow> bool" where
  "not_dep_path a \<longleftrightarrow> a \<noteq> [] \<and> last a \<noteq> CHR ''h''"

lemma dep_path_last: "last (dep_file_path prefix name) = CHR ''h''"
  by (simp add: dep_file_path_def)

lemma touch_dep_keeps:
  "not_dep_path a \<Longrightarrow> conf_touch_dep h prefix name fs = (ok, fs') \<Longrightarrow> keeps_file a fs fs'"
  using dep_path_last[of prefix name] by (auto simp: keeps_file_def not_dep_path_def dest!: touch_dep_files)

subsection \<open>Reading \<open>auto.conf\<close>\<close>

lemma on_kw_fs [simp]: "conf_fs (on_kw f cw) = conf_fs cw"
  by (simp add: on_kw_def)

lemma warning_fs [simp]: "conf_fs (conf_warning msg cw) = conf_fs cw"
  by (simp add: conf_warning_def)

lemma message_fs [simp]: "conf_fs (conf_message msg cw) = conf_fs cw"
  by (simp add: conf_message_def)

lemma override_fs [simp]: "conf_fs (override_warning s def cw) = conf_fs cw"
  by (simp add: override_warning_def)

lemma bad_value_fs: "bad_value def msg cw = (ok, cw') \<Longrightarrow> conf_fs cw' = conf_fs cw"
  by (auto simp: bad_value_def)

lemma text_value_fs: "set_text_value s def p cw = (ok, cw') \<Longrightarrow> conf_fs cw' = conf_fs cw"
  by (auto simp: set_text_value_def dest: bad_value_fs split: if_splits)

lemma set_sym_val_fs: "conf_set_sym_val s def p cw = (ok, cw') \<Longrightarrow> conf_fs cw' = conf_fs cw"
  by (auto simp: conf_set_sym_val_def dest: bad_value_fs text_value_fs
      split: symbol_type.splits list.splits option.splits if_splits)

lemma value_of_choice_fs [simp]: "conf_fs (value_of_choice s cs def cw) = conf_fs cw"
  by (simp add: value_of_choice_def split: tristate.splits)

lemma update_choice_fs: "update_choice s def cw = Some cw' \<Longrightarrow> conf_fs cw' = conf_fs cw"
  by (auto simp: update_choice_def bind_eq_Some_conv Let_def split: if_splits)

lemma unset_symbol_fs: "unset_symbol s def cw = Some cw' \<Longrightarrow> conf_fs cw' = conf_fs cw"
  by (auto simp: unset_symbol_def Let_def dest!: update_choice_fs)

lemma not_set_fs: "read_not_set name def cw = Some cw' \<Longrightarrow> conf_fs cw' = conf_fs cw"
  by (auto simp: read_not_set_def dest!: unset_symbol_fs split: if_splits option.splits prod.splits)

lemma assign_keeps:
  "not_dep_path a \<Longrightarrow> read_assign h name p def cw = Some cw' \<Longrightarrow> keeps_file a (conf_fs cw) (conf_fs cw')"
  using touch_dep_keeps[of a h "dep_prefix cw" name "conf_fs cw"]
  by (cases "conf_touch_dep h (dep_prefix cw) name (conf_fs cw)")
    (auto simp: read_assign_def dest!: update_choice_fs set_sym_val_fs split: if_splits option.splits prod.splits bool.splits)

lemma line_keeps:
  "not_dep_path a \<Longrightarrow> read_line h def line cw = Some cw' \<Longrightarrow> keeps_file a (conf_fs cw) (conf_fs cw')"
  by (auto simp: read_line_def Let_def dest!: not_set_fs dest: assign_keeps split: conf_line.splits)

lemma lines_keep:
  "not_dep_path a \<Longrightarrow> each (read_line h def) ls cw = Some cw' \<Longrightarrow> keeps_file a (conf_fs cw) (conf_fs cw')"
  by (induction ls arbitrary: cw) (auto simp: bind_eq_Some_conv intro: keeps_file_trans line_keeps)

lemma load_keeps:
  "not_dep_path a \<Longrightarrow> load_text h def name text cw = Some cw' \<Longrightarrow> keeps_file a (conf_fs cw) (conf_fs cw')"
  by (auto simp: load_text_def Let_def dest!: lines_keep)

lemma read_simple_keeps:
  "not_dep_path a \<Longrightarrow> conf_read_simple h calc (Some n) def cw = Some (ok, cw') \<Longrightarrow> keeps_file a (conf_fs cw) (conf_fs cw')"
  by (auto simp: conf_read_simple_def bind_eq_Some_conv dest: load_keeps split: option.splits)

lemma touch_changed_keeps:
  "not_dep_path a \<Longrightarrow> touch_changed h calc ss cw = Some (ok, cw') \<Longrightarrow> keeps_file a (conf_fs cw) (conf_fs cw')"
proof (induction ss arbitrary: cw)
  case (Cons s ss)
  obtain w where w: "calc s (kw cw) = Some w" using Cons.prems(2) by (auto simp: bind_eq_Some_conv)
  show ?case
  proof (cases "if has_flag SYMBOL_NO_WRITE s w then None else sym_name (syms w s)")
    case None
    then show ?thesis using Cons.IH[of "cw\<lparr>kw := w\<rparr>"] Cons.prems w by (simp add: Let_def)
  next
    case (Some name)
    then obtain same w2 where u: "unchanged_value calc s w = Some (same, w2)"
      using Cons.prems(2) w by (auto simp: bind_eq_Some_conv Let_def)
    show ?thesis
    proof (cases same)
      case True
      then show ?thesis using Cons.IH[of "cw\<lparr>kw := w2\<rparr>"] Cons.prems w Some u by (simp add: Let_def)
    next
      case False
      obtain b fs where t: "conf_touch_dep h (dep_prefix cw) name (conf_fs cw) = (b, fs)" by fastforce
      have "keeps_file a (conf_fs cw) fs" using touch_dep_keeps[OF Cons.prems(1) t] .
      then show ?thesis
        using Cons.IH[of "cw\<lparr>kw := w2, conf_fs := fs\<rparr>"] Cons.prems w Some u t False keeps_file_trans
        by (cases b) (auto simp: Let_def)
    qed
  qed
qed simp

lemma touch_deps_keeps:
  assumes "not_dep_path a" and "conf_touch_deps h calc cw = Some (ok, cw')"
  shows "keeps_file a (conf_fs cw) (conf_fs cw')"
proof -
  obtain ok1 cw1 w where r: "conf_read_simple h calc (Some (conf_get_autoconfig_name h)) S_DEF_AUTO
      (cw\<lparr>dep_prefix := ''sw/include/config/''\<rparr>) = Some (ok1, cw1)"
    and t: "touch_changed h calc (all_symbols w) (cw1\<lparr>kw := w\<rparr>) = Some (ok, cw')"
    using assms(2) by (auto simp: conf_touch_deps_def bind_eq_Some_conv Let_def)
  have "keeps_file a (conf_fs cw) (conf_fs cw1)" using read_simple_keeps[OF assms(1) r] by simp
  moreover have "keeps_file a (conf_fs cw1) (conf_fs cw')" using touch_changed_keeps[OF assms(1) t] by simp
  ultimately show ?thesis by (rule keeps_file_trans)
qed

subsection \<open>Replacing \<open>auto.conf\<close>\<close>

lemma rename_files:
  "rename_file h old new fs = Some fs' \<Longrightarrow>
   \<exists>text. fs_files fs old = Some text \<and> fs_files fs' = (fs_files fs)(old := None, new \<mapsto> text)"
  by (auto simp: rename_file_def split: option.splits if_splits)

lemma move_to_files:
  assumes "move_to h tmp name fs = (ok, fs')"
  shows "if ok then \<exists>text. fs_files fs tmp = Some text \<and> fs_files fs' = (fs_files fs)(tmp := None, name \<mapsto> text)
    else fs_files fs' = fs_files fs"
  using assms parent_dir_files[of h name fs]
  by (auto simp: move_to_def dest!: rename_files split: prod.splits bool.splits option.splits)

lemma write_dep_keeps:
  assumes "conf_write_dep h files name pp fs = (ok, pp', fs')" and "a \<notin> {''..config.tmp'', name}"
  shows "keeps_file a fs fs'"
proof (cases "create_file h ''..config.tmp'' fs")
  case (Opened fs1)
  obtain env pp1 where env: "env_write_dep (conf_get_autoconfig_name h) pp = (env, pp1)" by fastforce
  define fs2 where "fs2 = write_file ''..config.tmp'' (dep_text (conf_get_autoconfig_name h) files env) fs1"
  obtain b fs3 where dirs: "make_parent_dir h name fs2 = (b, fs3)" by fastforce
  have "fs_files fs3 a = fs_files fs a"
    using parent_dir_files[OF dirs] create_files[OF Opened] assms(2) by (simp add: fs2_def write_file_def)
  moreover have "fs' = fs3 \<or> rename_file h ''..config.tmp'' name fs3 = Some fs'"
    using assms(1) Opened env dirs by (auto simp: conf_write_dep_def fs2_def Let_def split: bool.splits option.splits)
  ultimately show ?thesis
    using assms(2) by (auto simp: keeps_file_def dest!: rename_files)
qed (use assms(1) in \<open>auto simp: conf_write_dep_def\<close>)

text \<open>The last steps: both files are in place, or \<open>auto.conf\<close> is the old one.\<close>

lemma install_files:
  assumes "install_autoconf h fs = (ok, fs')" and "a = conf_get_autoconfig_name h" and "b = autoheader_name h"
    and "a \<notin> {''.tmpconfig'', ''.tmpconfig.h'', b}" and "b \<noteq> ''.tmpconfig''"
  shows "if ok then fs_files fs' a = fs_files fs ''.tmpconfig'' \<and> fs_files fs' b = fs_files fs ''.tmpconfig.h''
    else fs_files fs' a = fs_files fs a"
proof -
  obtain b1 fs1 where m: "move_to h ''.tmpconfig.h'' b fs = (b1, fs1)" by fastforce
  show ?thesis
  proof (cases b1)
    case True
    then have "move_to h ''.tmpconfig'' a fs1 = (ok, fs')"
      using assms(1-3) m by (simp add: install_autoconf_def)
    then show ?thesis using move_to_files[OF m] move_to_files[of h "''.tmpconfig''" a fs1] True assms(4,5) by auto
  next
    case False
    then show ?thesis using assms(1-4) m move_to_files[OF m] by (auto simp: install_autoconf_def)
  qed
qed

lemma write_files:
  assumes "write_autoconf_files h calc title cw = Some (ok, cw')" and "a = conf_get_autoconfig_name h"
    and "b = autoheader_name h" and "a \<notin> {''.tmpconfig'', ''.tmpconfig.h'', b}" and "b \<noteq> ''.tmpconfig''"
  shows "if ok then \<exists>confs headers. autoconf_texts h calc (all_symbols (kw cw)) (kw cw) = Some (confs, headers, kw cw') \<and>
      fs_files (conf_fs cw') a = Some (conf_write_heading (kconfig_printer_cb h) title @ confs) \<and>
      fs_files (conf_fs cw') b = Some (conf_write_heading (header_printer_cb h) title @ headers)
    else keeps_file a (conf_fs cw) (conf_fs cw')"
proof (cases "create_file h ''.tmpconfig'' (conf_fs cw)")
  case (Opened fs1)
  show ?thesis
  proof (cases "create_file h ''.tmpconfig.h'' fs1")
    case fs2: (Opened fs2)
    obtain confs headers w where t: "autoconf_texts h calc (all_symbols (kw cw)) (kw cw) = Some (confs, headers, w)"
      using assms(1) Opened fs2 by (auto simp: write_autoconf_files_def bind_eq_Some_conv)
    define fs3 where "fs3 = write_file ''.tmpconfig.h'' (conf_write_heading (header_printer_cb h) title @ headers)
      (write_file ''.tmpconfig'' (conf_write_heading (kconfig_printer_cb h) title @ confs) fs2)"
    obtain ok' fs4 where i: "install_autoconf h fs3 = (ok', fs4)" by fastforce
    have r: "ok = ok'" "cw' = cw\<lparr>kw := w, conf_fs := fs4\<rparr>"
      using assms(1) Opened fs2 t i by (auto simp: write_autoconf_files_def fs3_def Let_def)
    have "fs_files fs3 a = fs_files (conf_fs cw) a"
      using create_files[OF Opened] create_files[OF fs2] assms(4) by (auto simp: fs3_def write_file_def)
    then show ?thesis
      using install_files[OF i assms(2-5)] t by (auto simp: r keeps_file_def fs3_def write_file_def)
  qed (use assms(1,4) Opened create_files[OF Opened] in \<open>auto simp: write_autoconf_files_def keeps_file_def\<close>)
qed (use assms(1) in \<open>auto simp: write_autoconf_files_def\<close>)

text \<open>
  C31.
  When \<open>conf_write_autoconf\<close> runs and succeeds then \<open>auto.conf\<close> and \<open>autoconf.h\<close> hold the texts
  for one and the same state of the options; when it fails, at whatever step, or has nothing to
  do, then \<open>auto.conf\<close> is the file that it was, so that the next build notices.
\<close>

theorem auto_conf_replaced_last:
  assumes "conf_write_autoconf h calc files title overwrite pp cw = Some (ok, pp', cw')"
    and "a = conf_get_autoconfig_name h" and "b = autoheader_name h" and "not_dep_path a"
    and "a \<notin> {''..config.tmp'', ''.tmpconfig'', ''.tmpconfig.h'', ''sw/include/config/auto.conf.cmd'', b}"
    and "b \<noteq> ''.tmpconfig''"
  shows "if ok \<and> (overwrite \<or> \<not> is_present a (conf_fs cw))
    then \<exists>w confs headers. autoconf_texts h calc (all_symbols w) w = Some (confs, headers, kw cw') \<and>
      fs_files (conf_fs cw') a = Some (conf_write_heading (kconfig_printer_cb h) title @ confs) \<and>
      fs_files (conf_fs cw') b = Some (conf_write_heading (header_printer_cb h) title @ headers)
    else fs_files (conf_fs cw') a = fs_files (conf_fs cw) a"
proof (cases "\<not> overwrite \<and> is_present a (conf_fs cw)")
  case True
  then show ?thesis using assms(1,2) by (simp add: conf_write_autoconf_def)
next
  case False
  obtain b1 pp1 fs1 where d: "conf_write_dep h files ''sw/include/config/auto.conf.cmd'' pp (conf_fs cw) = (b1, pp1, fs1)"
    using prod_cases3 by blast
  obtain ok1 cw1 where t: "conf_touch_deps h calc (cw\<lparr>conf_fs := fs1\<rparr>) = Some (ok1, cw1)"
    using assms(1,2) False d by (auto simp: conf_write_autoconf_def bind_eq_Some_conv)
  have "keeps_file a (conf_fs cw) fs1" using write_dep_keeps[OF d] assms(5) by simp
  then have keep: "keeps_file a (conf_fs cw) (conf_fs cw1)"
    using touch_deps_keeps[OF assms(4) t] keeps_file_trans by simp
  show ?thesis
  proof (cases ok1)
    case True
    then have "write_autoconf_files h calc title cw1 = Some (ok, cw')"
      using assms(1,2) False d t by (auto simp: conf_write_autoconf_def bind_eq_Some_conv)
    from write_files[OF this assms(2,3)] show ?thesis
      using assms(5,6) keep False keeps_file_trans by (cases ok) (auto simp: keeps_file_def)
  next
    case no: False
    then show ?thesis using assms(1,2) False d t keep by (auto simp: conf_write_autoconf_def keeps_file_def)
  qed
qed


subsection \<open>Example\<close>

definition build_world :: kworld where
  "build_world = title_world\<lparr>symbol_hash := (\<lambda>_. [])\<rparr>"

definition build_conf :: conf_world where
  "build_conf = title_conf\<lparr>kw := build_world, conf_fs := \<lparr>fs_dirs =
     {''sw'', ''sw/include'', ''sw/include/config'', ''sw/include/generated''}, fs_files = Map.empty\<rparr>\<rparr>"

definition no_preproc :: preproc where
  "no_preproc = \<lparr>env_list = [], variable_list = [], pp_stdout = [], pp_stderr = [], pp_commands = []\<rparr>"

lemma no_symbols: "all_symbols build_world = []"
  by (simp add: all_symbols_def build_world_def)

lemma build_names:
  "conf_get_autoconfig_name bare_host = ''sw/include/config/auto.conf''"
  "autoheader_name bare_host = ''sw/include/generated/autoconf.h''"
  by (simp_all add: conf_get_autoconfig_name_def autoheader_name_def bare_host_def)

lemma build_denied: "fs_denied bare_host p = False"
  by (simp add: bare_host_def)

lemma build_touch: "conf_touch_deps bare_host calc_done (build_conf\<lparr>conf_fs := fs\<rparr>) =
    Some (True, build_conf\<lparr>dep_prefix := ''sw/include/config/'', conf_fs := fs\<rparr>)"
  by (simp add: conf_touch_deps_def conf_read_simple_def bare_host_def build_conf_def calc_done_def no_symbols)

lemma build_dep:
  "\<exists>pp fs. conf_write_dep bare_host [] ''sw/include/config/auto.conf.cmd'' no_preproc (conf_fs build_conf) = (True, pp, fs) \<and>
     fs_dirs fs = fs_dirs (conf_fs build_conf)"
  by (simp add: conf_write_dep_def create_file_def in_directory_def dir_part_def is_dir_def bare_host_def build_conf_def
      env_write_dep_def no_preproc_def make_parent_dir_def PATH_MAX_def write_file_def rename_file_def)

lemma build_install:
  assumes "fs_dirs fs = fs_dirs (conf_fs build_conf)"
  shows "\<exists>cw'. write_autoconf_files bare_host calc_done '''' (build_conf\<lparr>dep_prefix := p, conf_fs := fs\<rparr>) =
    Some (True, cw')"
  using assms
  by (simp add: write_autoconf_files_def create_file_def in_directory_def dir_part_def is_dir_def
      build_conf_def make_parent_dir_def PATH_MAX_def write_file_def rename_file_def no_symbols
      install_autoconf_def move_to_def build_names build_denied)


lemma build_writes:
  "\<exists>pp' cw'. conf_write_autoconf bare_host calc_done [] '''' True no_preproc build_conf = Some (True, pp', cw')"
proof -
  obtain pp fs where d: "conf_write_dep bare_host [] ''sw/include/config/auto.conf.cmd'' no_preproc (conf_fs build_conf) = (True, pp, fs)"
    and dirs: "fs_dirs fs = fs_dirs (conf_fs build_conf)"
    using build_dep by blast
  obtain cw' where "write_autoconf_files bare_host calc_done ''''
      (build_conf\<lparr>dep_prefix := ''sw/include/config/'', conf_fs := fs\<rparr>) = Some (True, cw')"
    using build_install[OF dirs] by blast
  then show ?thesis by (simp add: conf_write_autoconf_def d build_touch)
qed

theorem auto_conf_replaced_last_witness:
  "\<exists>pp' cw' confs. conf_write_autoconf bare_host calc_done [] '''' True no_preproc build_conf = Some (True, pp', cw') \<and>
     fs_files (conf_fs cw') ''sw/include/config/auto.conf'' =
       Some (conf_write_heading (kconfig_printer_cb bare_host) '''' @ confs)"
proof -
  obtain pp' cw' where run: "conf_write_autoconf bare_host calc_done [] '''' True no_preproc build_conf = Some (True, pp', cw')"
    using build_writes by blast
  then show ?thesis
    using auto_conf_replaced_last[OF run refl refl] unfolding build_names by (auto simp: not_dep_path_def)
qed

end
