(* ===== verification/Kconf_Save.thy ===== *)
theory Kconf_Save
  imports Kconf_Order Kconf_Files
begin

text \<open>
  What \<open>conf_write\<close> leaves behind: the old text when it fails, the new text under the name of
  the configuration when it reports success, and then the old text with \<open>.old\<close> if that name
  can be written.
\<close>

lemma tell_fs [simp]: "conf_fs (fr_files (tell msg x)) = conf_fs (fr_files x)"
  by (simp add: tell_def)

lemma on_symbols_fs [simp]: "fr_files (on_symbols f x) = fr_files x"
  by (simp add: on_symbols_def)

lemma put_fs_fs [simp]: "conf_fs (fr_files (put_fs fs x)) = fs"
  by (simp add: put_fs_def)

lemma finish_write_fs: "finish_write name x = (r, y) \<Longrightarrow> conf_fs (fr_files y) = conf_fs (fr_files x) \<and> r = 0"
  by (auto simp: finish_write_def)

lemma rename_effect:
  assumes "rename_file h a b fs = Some fs'"
  shows "fs_files fs' = (fs_files fs)(a := None, b := fs_files fs a)" and "fs_files fs a \<noteq> None"
  using assms by (auto simp: rename_file_def split: option.splits if_splits)

lemma is_same_text: "is_same True f g \<Longrightarrow> f = g"
  by (auto simp: is_same_def split: option.splits)

lemma rename_dirs: "rename_file h a b fs = Some fs' \<Longrightarrow> fs_dirs fs' = fs_dirs fs"
  by (auto simp: rename_file_def split: option.splits if_splits)

lemma dir_part_suffix: "CHR ''/'' \<notin> set e \<Longrightarrow> dir_part (name @ e) = dir_part name"
  by (auto simp: dir_part_def Let_def dropWhile_append)

lemma in_directory_suffix:
  "CHR ''/'' \<notin> set e \<Longrightarrow> fs_dirs fs' = fs_dirs fs \<Longrightarrow> in_directory (name @ e) fs' = in_directory name fs"
  by (simp add: in_directory_def dir_part_suffix split: option.split list.split)

subsection \<open>Installing the new file\<close>

lemma keep_old_cases:
  obtains "keep_old h name fs = fs" "rename_file h name (take PATH_MAX (name @ ''.old'')) fs = None"
  | "rename_file h name (take PATH_MAX (name @ ''.old'')) fs = Some (keep_old h name fs)"
  by (cases "rename_file h name (take PATH_MAX (name @ ''.old'')) fs") (simp_all add: keep_old_def)

lemma keep_old_dirs [simp]: "fs_dirs (keep_old h name fs) = fs_dirs fs"
  by (cases rule: keep_old_cases[of h name fs]) (simp_all add: rename_dirs)

lemma replace_old_cases:
  assumes "replace_old h name tmp x = (r, y)"
  obtains "r = 1" "conf_fs (fr_files y) = keep_old h name (conf_fs (fr_files x))"
  | "r = 0" "rename_file h tmp name (keep_old h name (conf_fs (fr_files x))) = Some (conf_fs (fr_files y))"
proof (cases "rename_file h tmp name (keep_old h name (conf_fs (fr_files x)))")
  case None
  then have "(1, put_fs (keep_old h name (conf_fs (fr_files x))) x) = (r, y)"
    using assms by (simp add: replace_old_def)
  then show ?thesis
    using that(1) by auto
next
  case (Some fs)
  then have "finish_write name (put_fs fs x) = (r, y)"
    using assms by (simp add: replace_old_def)
  then show ?thesis
    using that(2) Some finish_write_fs[of name "put_fs fs x" r y] by simp
qed

lemma discard_new_fs:
  "discard_new name tmp x = (r, y) \<Longrightarrow> r = 0 \<and> conf_fs (fr_files y) = unlink_file tmp (conf_fs (fr_files x))"
  unfolding discard_new_def by (metis Pair_inject on_symbols_fs put_fs_fs)

lemma install_config_cases:
  assumes "install_config h os name (Some tmp) x = (r, y)"
  obtains "discard_new name tmp x = (r, y)"
      "is_same (os_fstat os) (fs_files (conf_fs (fr_files x)) name) (fs_files (conf_fs (fr_files x)) tmp)"
  | "replace_old h name tmp x = (r, y)"
  using assms unfolding install_config_def option.case by (meson)

lemma install_config_dirs:
  assumes "install_config h os name (Some tmp) x = (r, y)"
  shows "fs_dirs (conf_fs (fr_files y)) = fs_dirs (conf_fs (fr_files x))"
  using assms
proof (cases rule: install_config_cases)
  case 1
  then show ?thesis
    using discard_new_fs by (simp add: unlink_file_def)
next
  case 2
  then show ?thesis
    by (cases rule: replace_old_cases) (simp_all add: rename_dirs)
qed

text \<open>
  \<open>saved_state\<close> is what the two names hold afterwards: \<open>fs\<close> are the files before the two
  renamings, \<open>fs'\<close> those at the end.
\<close>

definition saved_state :: "conf_host \<Rightarrow> string \<Rightarrow> string \<Rightarrow> string \<Rightarrow> int \<Rightarrow> file_system \<Rightarrow> file_system \<Rightarrow> bool" where
  "saved_state h name old new r fs fs' \<longleftrightarrow>
     (let bak = name @ ''.old''; kept = Some old \<in> {fs_files fs' name, fs_files fs' bak};
          lost = fs_denied h bak \<or> is_dir bak fs'
      in (r \<noteq> 0 \<longrightarrow> kept) \<and>
         (r = 0 \<longrightarrow> fs_files fs' name = Some new \<and> (\<not> lost \<longrightarrow> kept) \<and>
            (lost \<longrightarrow> fs_files fs' bak = fs_files fs bak)))"

lemma saved_state_cong:
  "fs_files fs (name @ ''.old'') = fs_files fs0 (name @ ''.old'') \<Longrightarrow>
   saved_state h name old new r fs fs' = saved_state h name old new r fs0 fs'"
  by (simp add: saved_state_def)

lemma keep_old_effect:
  assumes "length (name @ ''.old'') \<le> PATH_MAX" and "fs_files fs name = Some old"
  shows "if fs_denied h (name @ ''.old'') \<or> is_dir (name @ ''.old'') fs \<or> \<not> in_directory name fs
    then keep_old h name fs = fs
    else fs_files (keep_old h name fs) = (fs_files fs)(name := None, name @ ''.old'' \<mapsto> old)"
proof -
  have "take PATH_MAX (name @ ''.old'') = name @ ''.old''"
    using assms(1) by (rule take_all)
  moreover have "in_directory (name @ ''.old'') fs = in_directory name fs"
    by (rule in_directory_suffix) simp_all
  ultimately show ?thesis
    using assms(2) by (simp add: keep_old_def rename_file_def)
qed

lemma install_config_files:
  assumes i: "install_config h os name (Some tmp) x = (r, y)"
    and t: "fs_files (conf_fs (fr_files x)) tmp = Some new" and o: "fs_files (conf_fs (fr_files x)) name = Some old"
    and fstat: "os_fstat os" and len: "length (name @ ''.old'') \<le> PATH_MAX"
    and d: "tmp \<noteq> name" "tmp \<noteq> name @ ''.old''"
  shows "saved_state h name old new r (conf_fs (fr_files x)) (conf_fs (fr_files y))"
  using i
proof (cases rule: install_config_cases)
  case 1
  then have "old = new"
    using is_same_text[of "Some old" "Some new"] t o fstat by simp
  then show ?thesis
    using discard_new_fs[OF 1(1)] o d by (simp add: unlink_file_def saved_state_def is_dir_def)
next
  case 2
  let ?fs = "conf_fs (fr_files x)" and ?k = "keep_old h name (conf_fs (fr_files x))"
  note k = keep_old_effect[OF len o, of h]
  have dirs: "is_dir p (conf_fs (fr_files y)) = is_dir p ?fs" for p
    using install_config_dirs[OF i] by (simp add: is_dir_def)
  from 2 show ?thesis
  proof (cases rule: replace_old_cases)
    case 1
    then show ?thesis
      using k o by (auto simp: saved_state_def split: if_splits)
  next
    case 2
    have dir: "in_directory name ?fs"
      using 2(2) in_directory_suffix[of "[]" ?fs ?k name] by (auto simp: rename_file_def split: option.splits if_splits)
    have "fs_files (conf_fs (fr_files y)) = (fs_files ?k)(tmp := None, name := fs_files ?k tmp)"
      by (rule rename_effect(1)[OF 2(2)])
    then show ?thesis
      using k t o d 2(1) dir unfolding saved_state_def Let_def dirs by (auto split: if_splits)
  qed
qed

subsection \<open>conf_write\<close>

lemma temporary_name_new:
  assumes "temporary_name h os name = Some tmp" and "length tmp < PATH_MAX"
  shows "tmp \<noteq> name" and "tmp \<noteq> name @ ''.old''" and "length (name @ ''.old'') \<le> PATH_MAX"
proof -
  have t: "tmp = take PATH_MAX (name @ ''.'' @ decimal_text (int (os_pid os)) @ ''.tmp'')"
    using assms(1) by (simp add: temporary_name_def split: if_splits)
  then have e: "tmp = name @ ''.'' @ decimal_text (int (os_pid os)) @ ''.tmp''"
    using assms(2) by (simp add: t)
  then show "tmp \<noteq> name"
    by simp
  have "last tmp = CHR ''p''"
    using e by simp
  then show "tmp \<noteq> name @ ''.old''"
    by auto
  show "length (name @ ''.old'') \<le> PATH_MAX"
    using assms(2) e by simp
qed

lemma create_file_files:
  "create_file h p fs = Opened fs' \<Longrightarrow> fs_files fs' = (fs_files fs)(p \<mapsto> '''') \<and> fs_dirs fs' = fs_dirs fs"
  by (auto simp: create_file_def split: if_splits)

lemma write_config_saves:
  assumes "write_config_file h calc os name x = Some (r, y)"
    and "fs_files (conf_fs (fr_files x)) name = Some old"
    and "temporary_name h os name = Some tmp" and "length tmp < PATH_MAX" and "os_fstat os"
  obtains "r \<noteq> 0" "y = x"
  | new st where "config_text h calc (fr_menus x) = Some (new, st)"
      "saved_state h name old new r (conf_fs (fr_files x)) (conf_fs (fr_files y))"
proof (cases "create_file h tmp (conf_fs (fr_files x))")
  case (Opened fs)
  note tmp = temporary_name_new[OF assms(3,4)] and c = create_file_files[OF Opened]
  obtain new st where n: "config_text h calc (fr_menus x) = Some (new, st)"
    and i: "install_config h os name (Some tmp) (put_fs (write_file tmp new fs) (x\<lparr>fr_menus := st\<rparr>)) = (r, y)"
    using assms(1) Opened assms(3)
    by (auto simp: write_config_file_def put_fs_def split: Option.bind_splits)
  have "saved_state h name old new r (conf_fs (fr_files (put_fs (write_file tmp new fs) (x\<lparr>fr_menus := st\<rparr>))))
      (conf_fs (fr_files y))"
    using c assms(2,5) tmp(1)
    by (intro install_config_files[OF i _ _ _ tmp(3,1,2)]) (simp_all add: write_file_def)
  then have "saved_state h name old new r (conf_fs (fr_files x)) (conf_fs (fr_files y))"
    using c tmp(2) by (subst (asm) saved_state_cong) (simp_all add: write_file_def)
  then show ?thesis
    by (rule that(2)[OF n])
qed (use assms(1-3) that(1) in \<open>auto simp: write_config_file_def\<close>)

lemma conf_write_cases:
  assumes "conf_write h calc os (Some name) x = Some (r, y)"
  obtains (refused) msg where "r = -1" "y = complain msg x"
  | (no_directory) fs where "r = -1" "y = put_fs fs x" "make_parent_dir h name (conf_fs (fr_files x)) = (False, fs)"
  | (written) fs where "make_parent_dir h name (conf_fs (fr_files x)) = (True, fs)"
      "write_config_file h calc os name (put_fs fs x) = Some (r, y)"
proof (cases "name = [] \<or> is_dir name (conf_fs (fr_files x))")
  case True
  then have "(r, y) = (-1, complain ''config name is empty'' x) \<or>
      (r, y) = (-1, complain (name @ '': Is a directory'') x)"
    using assms unfolding conf_write_def Let_def by (cases "name = []") simp_all
  then show ?thesis
    using refused by blast
next
  case False
  obtain ok fs where m: "make_parent_dir h name (conf_fs (fr_files x)) = (ok, fs)"
    by fastforce
  show ?thesis
  proof (cases ok)
    case True
    then have "write_config_file h calc os name (put_fs fs x) = Some (r, y)"
      using assms m False unfolding conf_write_def Let_def by simp
    then show ?thesis
      using written m True by simp
  next
    case no: False
    then have "(r, y) = (-1, put_fs fs x)"
      using assms m False unfolding conf_write_def Let_def by simp
    then show ?thesis
      using no_directory m no by simp
  qed
qed

text \<open>
  C34. What saving does to the old configuration. A file with the name of the configuration
  exists and \<open>conf_write\<close> goes through a temporary file, whose name is not cut short; \<open>fstat\<close>
  works. When \<open>conf_write\<close> fails, whichever call it was (a name that is empty or a directory,
  creating a parent directory, opening the temporary file, the second renaming), the old text is
  still there, under the name or with \<open>.old\<close>. When it returns 0 the configuration is the text
  computed from the menus; the old text is then kept if the name with \<open>.old\<close> can be written.
  If that name cannot be written, the first renaming fails, which the code ignores: it replaces
  the configuration, returns 0 and leaves the name with \<open>.old\<close> as it was. Writing to an open
  file does not fail in the model.
\<close>

theorem saving_outcome:
  assumes "conf_write h calc os (Some name) x = Some (r, y)"
    and "fs_files (conf_fs (fr_files x)) name = Some old"
    and "temporary_name h os name = Some tmp" and "length tmp < PATH_MAX" and "os_fstat os"
  shows "let bak = name @ ''.old''; fs = conf_fs (fr_files x); fs' = conf_fs (fr_files y);
             kept = Some old \<in> {fs_files fs' name, fs_files fs' bak}; lost = fs_denied h bak \<or> is_dir bak fs'
    in (r \<noteq> 0 \<longrightarrow> kept) \<and>
       (r = 0 \<longrightarrow> (\<exists>new st. config_text h calc (fr_menus x) = Some (new, st) \<and> fs_files fs' name = Some new) \<and>
          (\<not> lost \<longrightarrow> kept) \<and> (lost \<longrightarrow> fs_files fs' bak = fs_files fs bak))"
  using assms(1)
proof (cases rule: conf_write_cases)
  case (refused msg)
  then show ?thesis
    using assms(2) by (simp add: complain_def Let_def)
next
  case (no_directory fs)
  then show ?thesis
    using assms(2) parent_dir_files[OF no_directory(3)] by (simp add: Let_def)
next
  case (written fs)
  have fs: "fs_files fs = fs_files (conf_fs (fr_files x))"
    by (rule parent_dir_files[OF written(1)])
  have "fs_files (conf_fs (fr_files (put_fs fs x))) name = Some old"
    using assms(2) fs by simp
  from written(2) this assms(3-5) show ?thesis
  proof (cases rule: write_config_saves)
    case 1
    then show ?thesis using assms(2) fs by (simp add: Let_def)
  next
    case (2 new st)
    have "fr_menus (put_fs fs x) = fr_menus x"
      by (simp add: put_fs_def)
    moreover have "saved_state h name old new r (conf_fs (fr_files x)) (conf_fs (fr_files y))"
      using 2(2) fs by (subst saved_state_cong) simp_all
    ultimately show ?thesis
      using 2(1) unfolding saved_state_def Let_def by metis
  qed
qed

subsection \<open>Example\<close>

text \<open>A configuration without options, and the file of an earlier run.\<close>

definition main_prompt :: property where
  "main_prompt = \<lparr>prop_type = P_MENU, prop_text = Some ''Main menu'', prop_visible = no_expr_value, prop_expr = None,
     prop_menu = Some rootmenu, prop_file = ''Kconfig'', prop_lineno = 1\<rparr>"

definition saved_front :: front where
  "saved_front = \<lparr>fr_menus = upd_menu rootmenu (\<lambda>m. m\<lparr>menu_prompt := Some (Own main_prompt)\<rparr>) (menu_init build_world),
     fr_files = build_conf\<lparr>conf_fs := \<lparr>fs_dirs = {}, fs_files = [''.config'' \<mapsto> ''CONFIG_OLD=y'']\<rparr>\<rparr>\<rparr>"

definition pid_7 :: process where
  "pid_7 = \<lparr>os_pid = 7, os_fstat = True\<rparr>"

lemma saved_text: "\<exists>t st. config_text bare_host calc_done (fr_menus saved_front) = Some (t, st)"
  by (simp add: config_text_def entry_prompt_def saved_front_def upd_menu_def menu_init_def calc_done_def
      sym_clear_all_valid_def no_symbols sym_add_change_count_def sym_set_change_count_def
      write_menus_def walk_all_def first_child_def rootmenu_def)

lemma saved_temporary: "temporary_name bare_host pid_7 ''.config'' = Some ''.config.7.tmp''"
  by (simp add: temporary_name_def bare_host_def pid_7_def decimal_text_def number_text.simps[of 10 7] PATH_MAX_def)

lemma saved_dirs: "make_parent_dir bare_host ''.config'' fs = (True, fs)"
  by (simp add: make_parent_dir_def PATH_MAX_def)

lemma saved_run:
  "\<exists>r y. conf_write bare_host calc_done pid_7 (Some ''.config'') saved_front = Some (r, y) \<and>
     fs_dirs (conf_fs (fr_files y)) = {}"
proof -
  obtain t st where t: "config_text bare_host calc_done (fr_menus saved_front) = Some (t, st)"
    using saved_text by blast
  let ?fs = "conf_fs (fr_files saved_front)"
  let ?fs1 = "?fs\<lparr>fs_files := (fs_files ?fs)(''.config.7.tmp'' \<mapsto> '''')\<rparr>"
  let ?x = "put_fs (write_file ''.config.7.tmp'' t ?fs1) (put_fs ?fs saved_front\<lparr>fr_menus := st\<rparr>)"
  obtain r y where i: "install_config bare_host pid_7 ''.config'' (Some ''.config.7.tmp'') ?x = (r, y)"
    by fastforce
  have c: "create_file bare_host ''.config.7.tmp'' ?fs = Opened ?fs1"
    by (simp add: create_file_def in_directory_def dir_part_def is_dir_def build_denied saved_front_def)
  have d: "\<not> is_dir ''.config'' ?fs"
    by (simp add: is_dir_def saved_front_def)
  have "conf_write bare_host calc_done pid_7 (Some ''.config'') saved_front = Some (r, y)"
    using t i c d by (simp add: conf_write_def saved_dirs write_config_file_def saved_temporary) (simp add: put_fs_def)
  moreover have "fs_dirs (conf_fs (fr_files y)) = {}"
    using install_config_dirs[OF i] by (simp add: write_file_def saved_front_def)
  ultimately show ?thesis
    by blast
qed

theorem saving_outcome_witness:
  "\<exists>r y. conf_write bare_host calc_done pid_7 (Some ''.config'') saved_front = Some (r, y) \<and>
     Some ''CONFIG_OLD=y'' \<in> {fs_files (conf_fs (fr_files y)) ''.config'', fs_files (conf_fs (fr_files y)) ''.config.old''}"
proof -
  obtain r y where w: "conf_write bare_host calc_done pid_7 (Some ''.config'') saved_front = Some (r, y)"
    and d: "fs_dirs (conf_fs (fr_files y)) = {}"
    using saved_run by blast
  have "fs_files (conf_fs (fr_files saved_front)) ''.config'' = Some ''CONFIG_OLD=y''"
    by (simp add: saved_front_def)
  from saving_outcome[OF w this saved_temporary] show ?thesis
    using w d by (simp add: PATH_MAX_def pid_7_def build_denied is_dir_def Let_def) blast
qed

end
