(* ===== verification/Kconf_Ask.thy ===== *)
theory Kconf_Ask
  imports Kconf_Menu
begin

text \<open>
  The dialogue of \<open>conf\<close> on standard input and output (\<open>tools/kconfig/conf.c\<close>): asking for a
  value, a tristate and a choice, the walk over the visible entries, and the search for entries
  that have no value yet.

  The static variables of the file and the streams are the record \<open>dialog\<close>; \<open>tty\<close> is \<open>tty_stdio\<close>.
  The characters of standard input are given in advance and have no NUL. \<open>None\<close> is a loop that
  does not end (a question is repeated without end when the input is at its end and the default
  is not accepted), a null pointer that is read, a value that is not delivered, or the depth of
  \<open>check_conf\<close> that is used up.
\<close>

subsection \<open>State\<close>

datatype input_mode =
  oldaskconfig | syncconfig | oldconfig | allnoconfig | allyesconfig | allmodconfig | alldefconfig
| randconfig | defconfig | savedefconfig | listnewconfig | helpnewconfig | olddefconfig
| yes2modconfig | mod2yesconfig

record dialog =
  di_front :: front
  di_mode :: input_mode
  di_indent :: nat
  di_cnt :: nat
  di_line :: string
  di_root :: "nat option"
  di_in :: string
  di_out :: string
  di_err :: string

definition di_menus :: "dialog \<Rightarrow> menu_world" where
  "di_menus x = fr_menus (di_front x)"

definition di_world :: "dialog \<Rightarrow> kworld" where
  "di_world x = mw (di_menus x)"

definition put_menus :: "menu_world \<Rightarrow> dialog \<Rightarrow> dialog" where
  "put_menus st x = x\<lparr>di_front := (di_front x)\<lparr>fr_menus := st\<rparr>\<rparr>"

definition on_menus :: "(menu_world \<Rightarrow> ('a \<times> menu_world) option) \<Rightarrow> dialog \<Rightarrow> ('a \<times> dialog) option" where
  "on_menus f x = do { (a, st) \<leftarrow> f (di_menus x); Some (a, put_menus st x) }"

definition on_world :: "(kworld \<Rightarrow> ('a \<times> kworld) option) \<Rightarrow> dialog \<Rightarrow> ('a \<times> dialog) option" where
  "on_world f = on_menus (with_calc f)"

definition say :: "string \<Rightarrow> dialog \<Rightarrow> dialog" where
  "say s x = x\<lparr>di_out := di_out x @ s\<rparr>"

definition say_err :: "string \<Rightarrow> dialog \<Rightarrow> dialog" where
  "say_err s x = x\<lparr>di_err := di_err x @ s\<rparr>"

text \<open>\<open>%*s\<close> with the width \<open>indent - 1\<close> and an empty string, and \<open>%*c\<close> with the width \<open>indent\<close>.\<close>

definition margin :: "dialog \<Rightarrow> string" where
  "margin x = replicate (di_indent x - 1) (CHR '' '')"

definition margin_with :: "char \<Rightarrow> dialog \<Rightarrow> string" where
  "margin_with c x = margin x @ [c]"

definition print_help :: "conf_host \<Rightarrow> calc \<Rightarrow> nat \<Rightarrow> dialog \<Rightarrow> dialog option" where
  "print_help h calc m x = do {
     r \<leftarrow> menu_get_ext_help h calc m \<lparr>r_text = str_new, r_menus = di_menus x, r_jumps = None\<rparr>;
     Some (say (newline @ gs_s (r_text r) @ newline) (put_menus (r_menus r) x)) }"

subsection \<open>Reading a line\<close>

definition strip :: "string \<Rightarrow> string" where
  "strip s = rev (dropWhile is_space (rev (dropWhile is_space s)))"

text \<open>\<open>fgets\<close> with room for \<open>n\<close> characters: up to and with the end of the line.\<close>

fun get_line :: "nat \<Rightarrow> string \<Rightarrow> string \<times> string" where
  "get_line 0 s = ([], s)"
| "get_line (Suc n) [] = ([], [])"
| "get_line (Suc n) (c # s) =
     (if c = CHR 0x0A then ([c], s) else let (l, rest) = get_line n s in (c # l, rest))"

text \<open>At the end of the input the line stays as it is.\<close>

definition xfgets :: "bool \<Rightarrow> dialog \<Rightarrow> dialog" where
  "xfgets tty x =
     (let x = (if di_in x = [] then say_err (newline @ ''Error in reading or end of file.'' @ newline) x
               else let (l, rest) = get_line (PATH_MAX - 1) (di_in x) in x\<lparr>di_line := l, di_in := rest\<rparr>)
      in if tty then x else say (di_line x) x)"

subsection \<open>One symbol\<close>

text \<open>Whether a line was read, or given on behalf of the user.\<close>

definition conf_askvalue :: "bool \<Rightarrow> sym \<Rightarrow> string option \<Rightarrow> dialog \<Rightarrow> bool \<times> dialog" where
  "conf_askvalue tty s def x =
     (let w = di_world x; ty = sym_get_type s w;
          x = (if sym_has_value s w then x else say ''(NEW) '' x)\<lparr>di_line := newline\<rparr>;
          old = (di_mode x = oldconfig \<or> di_mode x = syncconfig)
      in if \<not> sym_is_changeable s w then (False, say (shown def @ newline) x)
         else if old \<and> sym_has_value s w then (False, say (shown def @ newline) x)
         else if old \<or> di_mode x = oldaskconfig then (True, xfgets tty x)
         else if ty = S_INT \<or> ty = S_HEX \<or> ty = S_STRING then (True, say (shown def @ newline) x)
         else (True, say (di_line x) x))"

definition entry_text :: "nat \<Rightarrow> dialog \<Rightarrow> string option" where
  "entry_text m x = do { p \<leftarrow> entry_prompt m (di_menus x); Some (shown (prop_text p)) }"

text \<open>The text that the line stands for; no text after the help was printed.\<close>

definition answered_text ::
  "conf_host \<Rightarrow> calc \<Rightarrow> nat \<Rightarrow> string option \<Rightarrow> dialog \<Rightarrow> (string option \<times> dialog) option" where
  "answered_text h calc m def x =
     (let l = di_line x
      in if take 1 l = newline then Some (def, x)
         else if take 2 l = ''?'' @ newline then do { x \<leftarrow> print_help h calc m x; Some (None, x) }
         else Some (Some (butlast l), x\<lparr>di_line := butlast l\<rparr>))"

text \<open>A loop \<open>while (1)\<close>: a round either repeats or delivers the result.\<close>

partial_function (option) rounds :: "(dialog \<Rightarrow> ('a option \<times> dialog) option) \<Rightarrow> dialog \<Rightarrow> ('a \<times> dialog) option" where
  "rounds f x = do { (r, x) \<leftarrow> f x; case r of Some a \<Rightarrow> Some (a, x) | None \<Rightarrow> rounds f x }"

definition repeats :: "dialog \<Rightarrow> ('a option \<times> dialog) option" where
  "repeats x = Some (None, x)"

definition stops :: "'a \<Rightarrow> dialog \<Rightarrow> ('a option \<times> dialog) option" where
  "stops a x = Some (Some a, x)"

definition string_round ::
  "conf_host \<Rightarrow> calc \<Rightarrow> bool \<Rightarrow> nat \<Rightarrow> sym \<Rightarrow> dialog \<Rightarrow> (unit option \<times> dialog) option" where
  "string_round h calc tty m s x = do {
     t \<leftarrow> entry_text m x;
     let x = say (margin x @ t @ '' ('' @ shown (sym_name (syms (di_world x) s)) @ '') '') x;
     (def, x) \<leftarrow> on_world (sym_get_string_value calc s) x;
     (again, x) \<leftarrow> on_world (sym_get_string_value calc s) x;
     let x = (case as_string again of None \<Rightarrow> x | Some _ \<Rightarrow> say (''['' @ shown (as_string def) @ ''] '') x);
     let (asked, x) = conf_askvalue tty s (as_string def) x;
     if \<not> asked then stops () x
     else do {
       (v, x) \<leftarrow> answered_text h calc m (as_string def) x;
       case v of
         None \<Rightarrow> repeats x
       | Some v \<Rightarrow> do {
           (ok, x) \<leftarrow> on_world (sym_set_string_value calc s v) x;
           if ok then stops () x else repeats x } } }"

definition conf_string :: "conf_host \<Rightarrow> calc \<Rightarrow> bool \<Rightarrow> nat \<Rightarrow> sym \<Rightarrow> dialog \<Rightarrow> dialog option" where
  "conf_string h calc tty m s x = do { (_, x) \<leftarrow> rounds (string_round h calc tty m s) x; Some x }"

datatype answer = Answer tristate | Asks_help | Asks_again

definition sym_answer :: "tristate \<Rightarrow> string \<Rightarrow> answer" where
  "sym_answer oldval l =
     (case l of
        [] \<Rightarrow> Answer oldval
      | c # cs \<Rightarrow>
          if c = CHR ''n'' \<or> c = CHR ''N'' then (if cs = [] \<or> cs = ''o'' then Answer T_no else Asks_again)
          else if c = CHR ''m'' \<or> c = CHR ''M'' then (if cs = [] then Answer T_mod else Asks_again)
          else if c = CHR ''y'' \<or> c = CHR ''Y'' then (if cs = [] \<or> cs = ''es'' then Answer T_yes else Asks_again)
          else if c = CHR ''?'' then Asks_help
          else Asks_again)"

text \<open>The question: the name, the value, and the other values that are allowed.\<close>

definition tristate_letter :: "tristate \<Rightarrow> string" where
  "tristate_letter t = (case t of T_no \<Rightarrow> ''N'' | T_mod \<Rightarrow> ''M'' | T_yes \<Rightarrow> ''Y'')"

definition sym_question :: "sym \<Rightarrow> kworld \<Rightarrow> string" where
  "sym_question s w =
     (let v = sym_get_tristate_value s w;
          also = (\<lambda>t l. if v \<noteq> t \<and> sym_tristate_within_range s t w then l else '''')
      in (case sym_name (syms w s) of Some n \<Rightarrow> ''('' @ n @ '') '' | None \<Rightarrow> '''') @
         ''['' @ tristate_letter v @ also T_no ''/n'' @ also T_mod ''/m'' @ also T_yes ''/y'' @ ''/?] '')"

definition sym_round ::
  "conf_host \<Rightarrow> calc \<Rightarrow> bool \<Rightarrow> nat \<Rightarrow> sym \<Rightarrow> dialog \<Rightarrow> (unit option \<times> dialog) option" where
  "sym_round h calc tty m s x = do {
     t \<leftarrow> entry_text m x;
     let oldval = sym_get_tristate_value s (di_world x);
     let x = say (margin x @ t @ '' '' @ sym_question s (di_world x)) x;
     (def, x) \<leftarrow> on_world (sym_get_string_value calc s) x;
     let (asked, x) = conf_askvalue tty s (as_string def) x;
     if \<not> asked then stops () x
     else do {
       let x = x\<lparr>di_line := strip (di_line x)\<rparr>;
       case sym_answer oldval (di_line x) of
         Asks_again \<Rightarrow> repeats x
       | Asks_help \<Rightarrow> do { x \<leftarrow> print_help h calc m x; repeats x }
       | Answer v \<Rightarrow> do {
           (ok, x) \<leftarrow> on_world (sym_set_tristate_value calc s v) x;
           if ok then stops () x
           else do { x \<leftarrow> print_help h calc m x; repeats x } } } }"

definition conf_sym :: "conf_host \<Rightarrow> calc \<Rightarrow> bool \<Rightarrow> nat \<Rightarrow> sym \<Rightarrow> dialog \<Rightarrow> dialog option" where
  "conf_sym h calc tty m s x = do { (_, x) \<leftarrow> rounds (sym_round h calc tty m s) x; Some x }"

subsection \<open>A choice\<close>

text \<open>The two inline functions of \<open>lkc.h\<close>.\<close>

definition sym_get_choice_value :: "sym \<Rightarrow> kworld \<Rightarrow> sym option" where
  "sym_get_choice_value s w = (case val (curr (syms w s)) of Ref v \<Rightarrow> Some v | _ \<Rightarrow> None)"

definition sym_set_choice_value :: "calc \<Rightarrow> sym \<Rightarrow> sym \<Rightarrow> kworld \<Rightarrow> (bool \<times> kworld) option" where
  "sym_set_choice_value calc ch chval w = sym_set_tristate_value calc chval T_yes w"

definition entry_name :: "nat \<Rightarrow> dialog \<Rightarrow> string" where
  "entry_name m x = shown (menu_get_prompt m (di_menus x))"

text \<open>Whether the value is to be chosen: the choice itself must be \<open>y\<close>.\<close>

definition open_choice :: "conf_host \<Rightarrow> calc \<Rightarrow> bool \<Rightarrow> nat \<Rightarrow> sym \<Rightarrow> dialog \<Rightarrow> (bool \<times> dialog) option" where
  "open_choice h calc tty m s x =
     (if sym_is_changeable s (di_world x) then do {
        x \<leftarrow> conf_sym h calc tty m s x;
        st \<leftarrow> calc_on calc s (di_menus x);
        let x = put_menus st x;
        Some (sym_get_tristate_value s (di_world x) = T_yes, x) }
      else
        (case sym_get_tristate_value s (di_world x) of
           T_no \<Rightarrow> Some (False, x)
         | T_mod \<Rightarrow> Some (False, say (margin x @ entry_name m x @ newline) x)
         | T_yes \<Rightarrow> Some (True, x)))"

text \<open>The list of the visible values, their number and the number of the present one.\<close>

definition choice_line :: "nat \<Rightarrow> sym \<Rightarrow> bool \<Rightarrow> nat \<Rightarrow> dialog \<Rightarrow> string" where
  "choice_line m s chosen cnt x =
     margin_with (if chosen then CHR ''>'' else CHR '' '') x @ '' '' @ decimal_text (int cnt) @ ''. '' @ entry_name m x @
     (case sym_name (syms (di_world x) s) of Some n \<Rightarrow> '' ('' @ n @ '')'' | None \<Rightarrow> '''') @
     (if sym_has_value s (di_world x) then '''' else '' (NEW)'') @ newline"

fun list_values :: "calc \<Rightarrow> sym option \<Rightarrow> tree list \<Rightarrow> int \<times> int \<Rightarrow> dialog \<Rightarrow> ((int \<times> int) \<times> dialog) option" where
  "list_values calc d [] nums x = Some (nums, x)"
| "list_values calc d (t # ts) (cnt, def) x = do {
     (b, x) \<leftarrow> on_menus (menu_is_visible calc t) x;
     if \<not> b then list_values calc d ts (cnt, def) x
     else (case entry_sym (entry t) (di_menus x) of
             None \<Rightarrow> list_values calc d ts (cnt, def)
                      (say (margin_with (CHR ''*'') x @ '' '' @ entry_name (entry t) x @ newline) x)
           | Some s \<Rightarrow> list_values calc d ts (cnt + 1, if d = Some s then cnt + 1 else def)
                        (say (choice_line (entry t) s (d = Some s) (nat (cnt + 1)) x) x)) }"

text \<open>\<open>atoi\<close> is \<open>strtol\<close> cut to an \<open>int\<close>.\<close>

definition atoi :: "string \<Rightarrow> int" where
  "atoi s = sint (word_of_int (fst (strtoll 10 s)) :: u32)"

text \<open>The number that is chosen, \<open>None\<close> when the question is to be repeated.\<close>

definition read_choice ::
  "conf_host \<Rightarrow> calc \<Rightarrow> bool \<Rightarrow> nat \<Rightarrow> bool \<Rightarrow> int \<Rightarrow> int \<Rightarrow> dialog \<Rightarrow> (int option \<times> dialog) option" where
  "read_choice h calc tty m is_new cnt def x =
     (let old = (di_mode x = oldconfig \<or> di_mode x = syncconfig)
      in if old \<and> \<not> is_new then Some (Some def, say (decimal_text def @ newline) x)
         else if old \<or> di_mode x = oldaskconfig then
           (let x = xfgets tty x; l = strip (di_line x); x = x\<lparr>di_line := l\<rparr>
            in if take 1 l = ''?'' then do { x \<leftarrow> print_help h calc m x; Some (None, x) }
               else Some (if l = [] then Some def else if is_digit (hd l) then Some (atoi l) else None, x))
         else Some (Some cnt, x))"

text \<open>The position of the visible value with this number among the children.\<close>

fun nth_visible :: "calc \<Rightarrow> tree list \<Rightarrow> int \<Rightarrow> nat \<Rightarrow> dialog \<Rightarrow> (nat option \<times> dialog) option" where
  "nth_visible calc [] cnt i x = Some (None, x)"
| "nth_visible calc (t # ts) cnt i x =
     (if entry_sym (entry t) (di_menus x) = None then nth_visible calc ts cnt (Suc i) x
      else do {
        (b, x) \<leftarrow> on_menus (menu_is_visible calc t) x;
        if \<not> b then nth_visible calc ts cnt (Suc i) x
        else if cnt - 1 = 0 then Some (Some i, x)
        else nth_visible calc ts (cnt - 1) (Suc i) x })"

text \<open>
  A round of the loop of \<open>conf_choice\<close>. Its result is the position of the chosen child, whose own children
  are asked for next.
\<close>

definition choice_round ::
  "conf_host \<Rightarrow> calc \<Rightarrow> bool \<Rightarrow> tree \<Rightarrow> sym \<Rightarrow> bool \<Rightarrow> dialog \<Rightarrow> (nat option \<times> dialog) option" where
  "choice_round h calc tty t s is_new x = do {
     let m = entry t;
     let x = say (margin x @ entry_name m x @ newline) x;
     ((cnt, def), x) \<leftarrow> list_values calc (sym_get_choice_value s (di_world x)) (menu_list t) (0, 0) (x\<lparr>di_line := ''''\<rparr>);
     let x = say (margin x @ ''choice'') x;
     (v, x) \<leftarrow> (if cnt = 1 then Some (Some 1, say (''[1]: 1'' @ newline) x)
                else read_choice h calc tty m is_new cnt def (say (''[1-'' @ decimal_text cnt @ ''?]: '') x));
     case v of
       None \<Rightarrow> repeats x
     | Some v \<Rightarrow> do {
         (i, x) \<leftarrow> nth_visible calc (menu_list t) v 0 x;
         case i of
           None \<Rightarrow> repeats x
         | Some i \<Rightarrow>
             (let child = entry (menu_list t ! i)
              in if di_line x \<noteq> [] \<and> last (di_line x) = CHR ''?'' then do {
                   x \<leftarrow> print_help h calc child x;
                   repeats x }
                 else do {
                   cs \<leftarrow> entry_sym child (di_menus x);
                   (_, x) \<leftarrow> on_world (sym_set_choice_value calc s cs) x;
                   stops i x }) } }"

text \<open>\<open>conf_choice\<close> up to the questions below the chosen value.\<close>

definition conf_choice :: "conf_host \<Rightarrow> calc \<Rightarrow> bool \<Rightarrow> tree \<Rightarrow> sym \<Rightarrow> dialog \<Rightarrow> (nat option \<times> dialog) option" where
  "conf_choice h calc tty t s x = do {
     let is_new = (\<not> sym_has_value s (di_world x));
     (b, x) \<leftarrow> open_choice h calc tty (entry t) s x;
     if \<not> b then Some (None, x)
     else do { (i, x) \<leftarrow> rounds (choice_round h calc tty t s is_new) x; Some (Some i, x) } }"


subsection \<open>The walk over the entries\<close>

text \<open>The heading of a menu or a comment.\<close>

definition announce :: "nat \<Rightarrow> dialog \<Rightarrow> dialog" where
  "announce m x =
     (case entry_prompt m (di_menus x) of
        None \<Rightarrow> x
      | Some p \<Rightarrow>
          if prop_type p = P_MENU \<or> prop_type p = P_COMMENT then
            (case menu_get_prompt m (di_menus x) of
               None \<Rightarrow> x
             | Some t \<Rightarrow> say (margin_with (CHR ''*'') x @ newline @ margin_with (CHR ''*'') x @ '' '' @ t @ newline @
                              margin_with (CHR ''*'') x @ newline) x)
          else x)"

definition indented :: "(dialog \<Rightarrow> dialog option) \<Rightarrow> dialog \<Rightarrow> dialog option" where
  "indented f x = do {
     x \<leftarrow> f (x\<lparr>di_indent := di_indent x + 2\<rparr>);
     Some (x\<lparr>di_indent := di_indent x - 2\<rparr>) }"

definition ask_one :: "conf_host \<Rightarrow> calc \<Rightarrow> bool \<Rightarrow> nat \<Rightarrow> sym \<Rightarrow> dialog \<Rightarrow> dialog option" where
  "ask_one h calc tty m s x =
     (let ty = sym_type (syms (di_world x) s)
      in if ty = S_INT \<or> ty = S_HEX \<or> ty = S_STRING then conf_string h calc tty m s x
         else conf_sym h calc tty m s x)"

text \<open>Only a menu that is the root of the walk is shown, except with \<open>oldaskconfig\<close>.\<close>

definition only_checked :: "nat \<Rightarrow> dialog \<Rightarrow> bool" where
  "only_checked m x \<longleftrightarrow> opens_menu m (di_menus x) \<and> di_mode x \<noteq> oldaskconfig \<and> di_root x \<noteq> Some m"

text \<open>
  \<open>conf\<close>, with \<open>check_conf\<close> as the argument \<open>check\<close>; \<open>conf_value\<close> asks below the value of a choice
  that is at the position \<open>i\<close>.
\<close>

fun conf_tree :: "(tree \<Rightarrow> dialog \<Rightarrow> dialog option) \<Rightarrow> conf_host \<Rightarrow> calc \<Rightarrow> bool \<Rightarrow> tree \<Rightarrow> dialog \<Rightarrow> dialog option"
and conf_trees :: "(tree \<Rightarrow> dialog \<Rightarrow> dialog option) \<Rightarrow> conf_host \<Rightarrow> calc \<Rightarrow> bool \<Rightarrow> tree list \<Rightarrow> dialog \<Rightarrow> dialog option"
and conf_value :: "(tree \<Rightarrow> dialog \<Rightarrow> dialog option) \<Rightarrow> conf_host \<Rightarrow> calc \<Rightarrow> bool \<Rightarrow> nat \<Rightarrow> tree list \<Rightarrow> dialog \<Rightarrow> dialog option"
and conf_below :: "(tree \<Rightarrow> dialog \<Rightarrow> dialog option) \<Rightarrow> conf_host \<Rightarrow> calc \<Rightarrow> bool \<Rightarrow> tree \<Rightarrow> dialog \<Rightarrow> dialog option" where
  "conf_tree check h calc tty (Entry m ts) x = do {
     (b, x) \<leftarrow> on_menus (menu_is_visible calc (Entry m ts)) x;
     if \<not> b then Some x
     else if only_checked m x then check (Entry m ts) x
     else (let x = announce m x
       in case entry_sym m (di_menus x) of
            None \<Rightarrow> conf_trees check h calc tty ts x
          | Some s \<Rightarrow>
              if sym_is_choice s (di_world x) then do {
                (i, x) \<leftarrow> conf_choice h calc tty (Entry m ts) s x;
                x \<leftarrow> (case i of None \<Rightarrow> Some x | Some i \<Rightarrow> conf_value check h calc tty i ts x);
                if tri (curr (syms (di_world x) s)) \<noteq> T_mod then Some x
                else indented (conf_trees check h calc tty ts) x }
              else do {
                x \<leftarrow> ask_one h calc tty m s x;
                indented (conf_trees check h calc tty ts) x }) }"
| "conf_trees check h calc tty [] x = Some x"
| "conf_trees check h calc tty (t # ts) x = do {
     x \<leftarrow> conf_tree check h calc tty t x;
     conf_trees check h calc tty ts x }"
| "conf_value check h calc tty i [] x = None"
| "conf_value check h calc tty i (t # ts) x =
     (if i = 0 then conf_below check h calc tty t x else conf_value check h calc tty (i - 1) ts x)"
| "conf_below check h calc tty (Entry m ts) x = indented (conf_trees check h calc tty ts) x"

subsection \<open>Entries without a value\<close>

definition lacks_value :: "sym \<Rightarrow> kworld \<Rightarrow> bool" where
  "lacks_value s w \<longleftrightarrow> \<not> sym_has_value s w \<and>
     (sym_is_changeable s w \<or> sym_is_choice s w \<and> sym_get_tristate_value s w = T_yes)"

definition list_new :: "conf_host \<Rightarrow> calc \<Rightarrow> sym \<Rightarrow> dialog \<Rightarrow> dialog option" where
  "list_new h calc s x =
     (case sym_name (syms (di_world x) s) of
        None \<Rightarrow> Some x
      | Some n \<Rightarrow> do {
          (v, x) \<leftarrow> on_world (sym_get_string_value calc s) x;
          t \<leftarrow> (if sym_type (syms (di_world x) s) = S_STRING then map_option sym_escape_string_value (as_string v)
                else Some (shown (as_string v)));
          Some (say (CONFIG_prefix h @ n @ ''='' @ t @ newline) x) })"

definition help_new :: "conf_host \<Rightarrow> calc \<Rightarrow> nat \<Rightarrow> dialog \<Rightarrow> dialog option" where
  "help_new h calc m x = do {
     x \<leftarrow> print_help h calc m (say (''-----'' @ newline) x);
     Some (say (''-----'' @ newline) x) }"

text \<open>The walk starts again from the menu of the entry; \<open>ask\<close> is \<open>conf\<close>.\<close>

definition ask_again :: "(tree \<Rightarrow> dialog \<Rightarrow> dialog option) \<Rightarrow> nat \<Rightarrow> dialog \<Rightarrow> dialog option" where
  "ask_again ask m x = do {
     let x = (if di_cnt x = 0 then say (''*'' @ newline @ ''* Restart config...'' @ newline @ ''*'' @ newline) x else x);
     r \<leftarrow> menu_get_parent_menu m (di_menus x);
     t \<leftarrow> find_entry r (menu_tree (di_menus x));
     ask t (x\<lparr>di_cnt := di_cnt x + 1, di_root := Some r\<rparr>) }"

definition new_value ::
  "(tree \<Rightarrow> dialog \<Rightarrow> dialog option) \<Rightarrow> conf_host \<Rightarrow> calc \<Rightarrow> nat \<Rightarrow> sym \<Rightarrow> dialog \<Rightarrow> dialog option" where
  "new_value ask h calc m s x =
     (if di_mode x = listnewconfig then list_new h calc s x
      else if di_mode x = helpnewconfig then help_new h calc m x
      else ask_again ask m x)"

fun check_tree :: "(tree \<Rightarrow> dialog \<Rightarrow> dialog option) \<Rightarrow> conf_host \<Rightarrow> calc \<Rightarrow> tree \<Rightarrow> dialog \<Rightarrow> dialog option"
and check_trees :: "(tree \<Rightarrow> dialog \<Rightarrow> dialog option) \<Rightarrow> conf_host \<Rightarrow> calc \<Rightarrow> tree list \<Rightarrow> dialog \<Rightarrow> dialog option" where
  "check_tree ask h calc (Entry m ts) x = do {
     (b, x) \<leftarrow> on_menus (menu_is_visible calc (Entry m ts)) x;
     if \<not> b then Some x
     else do {
       x \<leftarrow> (case entry_sym m (di_menus x) of
              None \<Rightarrow> Some x
            | Some s \<Rightarrow> if lacks_value s (di_world x) then new_value ask h calc m s x else Some x);
       check_trees ask h calc ts x } }"
| "check_trees ask h calc [] x = Some x"
| "check_trees ask h calc (t # ts) x = do {
     x \<leftarrow> check_tree ask h calc t x;
     check_trees ask h calc ts x }"

text \<open>
  \<open>conf\<close> and \<open>check_conf\<close> call each other for a menu inside the one that is shown; the number is
  the depth of these calls.
\<close>

primrec check_conf :: "nat \<Rightarrow> conf_host \<Rightarrow> calc \<Rightarrow> bool \<Rightarrow> tree \<Rightarrow> dialog \<Rightarrow> dialog option" where
  "check_conf 0 h calc tty = (\<lambda>t x. None)"
| "check_conf (Suc n) h calc tty = check_tree (conf_tree (check_conf n h calc tty) h calc tty) h calc"

definition conf :: "nat \<Rightarrow> conf_host \<Rightarrow> calc \<Rightarrow> bool \<Rightarrow> tree \<Rightarrow> dialog \<Rightarrow> dialog option" where
  "conf n h calc tty = conf_tree (check_conf n h calc tty) h calc tty"


end
