(* ===== verification/Kconf_Main.thy ===== *)
theory Kconf_Main
  imports Kconf_Ask
begin

text \<open>
  The program \<open>conf\<close> (\<open>main\<close> of \<open>tools/kconfig/conf.c\<close>): the options, reading the configuration, the
  action of the mode, and writing.

  \<open>getopt_long\<close> and the parser of the Kconfig files are not part of the program text: the options are
  given as they are recognised, and a Kconfig file as its statements. \<open>rand\<close> is the parameter
  \<open>rnd\<close>, a sequence of numbers for every seed, and \<open>time\<close> are the seconds and microseconds of
  \<open>gettimeofday\<close>. A number of 0 is success.
\<close>

subsection \<open>Options\<close>

datatype conf_option = Opt_silent | Opt_mode input_mode string | Opt_unknown

record settings =
  se_mode :: input_mode
  se_silent :: bool
  se_sync :: bool
  se_file :: string
  se_seed :: u32
  se_err :: string

definition upper_digit :: "char \<Rightarrow> char" where
  "upper_digit c = (if is_lower c then char_of (char_code c - 32) else c)"

definition random_seed :: "conf_host \<Rightarrow> nat \<times> nat \<Rightarrow> u32" where
  "random_seed h time =
     (let seed = of_nat ((fst time + 1) * (snd time + 1))
      in case conf_getenv h ''KCONFIG_SEED'' of
           None \<Rightarrow> seed
         | Some e \<Rightarrow>
             if e = [] then seed
             else (case strtoll 0 e of (v, _, rest) \<Rightarrow> if rest = [] then word_of_int v else seed))"

definition take_option :: "conf_host \<Rightarrow> nat \<times> nat \<Rightarrow> input_mode \<Rightarrow> string \<Rightarrow> settings \<Rightarrow> settings" where
  "take_option h time m arg se =
     (let se = se\<lparr>se_mode := m\<rparr>
      in if m = syncconfig then se\<lparr>se_silent := True, se_sync := True\<rparr>
         else if m = defconfig \<or> m = savedefconfig then se\<lparr>se_file := arg\<rparr>
         else if m = randconfig then
           (let seed = random_seed h time
            in se\<lparr>se_seed := seed,
                 se_err := se_err se @ ''KCONFIG_SEED=0x'' @ map upper_digit (number_text 16 (unat seed)) @ newline\<rparr>)
         else se)"

text \<open>The flag tells whether all options are known.\<close>

fun take_options :: "conf_host \<Rightarrow> nat \<times> nat \<Rightarrow> conf_option list \<Rightarrow> settings \<Rightarrow> bool \<times> settings" where
  "take_options h time [] se = (True, se)"
| "take_options h time (Opt_silent # os) se = take_options h time os (se\<lparr>se_silent := True\<rparr>)"
| "take_options h time (Opt_mode m arg # os) se = take_options h time os (take_option h time m arg se)"
| "take_options h time (Opt_unknown # os) se = (False, se)"

definition conf_usage :: "string \<Rightarrow> dialog \<Rightarrow> dialog" where
  "conf_usage progname = say
     (''Usage: '' @ progname @ '' [-s] [option] <kconfig-file>'' @ newline @
      concat (map (\<lambda>l. l @ newline)
        [''[option] is _one_ of the following:'',
         ''  --listnewconfig         List new options'',
         ''  --helpnewconfig         List new options and help text'',
         ''  --oldaskconfig          Start a new configuration using a line-oriented program'',
         ''  --oldconfig             Update a configuration using a provided .config as base'',
         ''  --syncconfig            Similar to oldconfig but generates configuration in'',
         ''                          include/{generated/,config/}'',
         ''  --olddefconfig          Same as oldconfig but sets new symbols to their default value'',
         ''  --defconfig <file>      New config with default defined in <file>'',
         ''  --savedefconfig <file>  Save the minimal current configuration to <file>'',
         ''  --allnoconfig           New config where all options are answered with no'',
         ''  --allyesconfig          New config where all options are answered with yes'',
         ''  --allmodconfig          New config where all options are answered with mod'',
         ''  --alldefconfig          New config with all symbols set to default'',
         ''  --randconfig            New config with random answer to all options'',
         ''  --yes2modconfig         Change answers from yes to mod if possible'',
         ''  --mod2yesconfig         Change answers from mod to yes if possible'']))"

subsection \<open>Reading\<close>

text \<open>What the program is given; \<open>ce_depth\<close> is the depth of \<open>check_conf\<close>.\<close>

record conf_env =
  ce_host :: conf_host
  ce_calc :: calc
  ce_check :: check
  ce_tty :: bool
  ce_os :: process
  ce_time :: "nat \<times> nat"
  ce_rand :: "u32 \<Rightarrow> randoms"
  ce_parse :: "string \<Rightarrow> (position \<times> string) option \<times> statement list"
  ce_files :: "string list"
  ce_macros :: preproc
  ce_depth :: nat

definition on_front :: "(front \<Rightarrow> ('a \<times> front) option) \<Rightarrow> dialog \<Rightarrow> ('a \<times> dialog) option" where
  "on_front f x = do { (a, fr) \<leftarrow> f (di_front x); Some (a, x\<lparr>di_front := fr\<rparr>) }"

definition read_saved :: "conf_env \<Rightarrow> string option \<Rightarrow> dialog \<Rightarrow> (bool \<times> dialog) option" where
  "read_saved e name = on_front (with_files (conf_read (ce_host e) (ce_calc e) name))"

definition read_seed :: "conf_env \<Rightarrow> string \<Rightarrow> dialog \<Rightarrow> (bool \<times> dialog) option" where
  "read_seed e name = on_front (with_files (conf_read_simple (ce_host e) (ce_calc e) (Some name) S_DEF_USER))"

definition seed_file :: "input_mode \<Rightarrow> string \<Rightarrow> string" where
  "seed_file m name =
     (case m of allnoconfig \<Rightarrow> ''allno.config'' | allyesconfig \<Rightarrow> ''allyes.config''
      | allmodconfig \<Rightarrow> ''allmod.config'' | alldefconfig \<Rightarrow> ''alldef.config''
      | randconfig \<Rightarrow> ''allrandom.config'' | _ \<Rightarrow> name)"

definition quoted :: "string \<Rightarrow> string" where
  "quoted s = [CHR 0x22] @ s @ [CHR 0x22]"

text \<open>The flag tells whether to go on; else the program has failed.\<close>

definition read_seeds :: "conf_env \<Rightarrow> dialog \<Rightarrow> (bool \<times> dialog) option" where
  "read_seeds e x =
     (case conf_getenv (ce_host e) ''KCONFIG_ALLCONFIG'' of
        None \<Rightarrow> Some (True, x)
      | Some name \<Rightarrow>
          if name \<noteq> '''' \<and> name \<noteq> ''1'' then do {
            (ok, x) \<leftarrow> read_seed e name x;
            Some (ok, if ok then x
                      else say_err (''*** Can'' @ [CHR 0x27] @ ''t read seed configuration '' @ quoted name @ ''!'' @ newline) x) }
          else do {
            let name = seed_file (di_mode x) name;
            (ok, x) \<leftarrow> read_seed e name x;
            (ok, x) \<leftarrow> (if ok then Some (True, x) else read_seed e ''all.config'' x);
            Some (ok, if ok then x
                      else say_err (''*** KCONFIG_ALLCONFIG set, but no '' @ quoted name @ '' or '' @
                                    quoted ''all.config'' @ '' file found'' @ newline) x) })"

definition read_mode :: "conf_env \<Rightarrow> string \<Rightarrow> dialog \<Rightarrow> (bool \<times> dialog) option" where
  "read_mode e file x =
     (if di_mode x = defconfig then do {
        (ok, x) \<leftarrow> read_saved e (Some file) x;
        Some (ok, if ok then x
                  else say_err (''***'' @ newline @ ''*** Can'' @ [CHR 0x27] @ ''t find default configuration '' @ quoted file @
                                ''!'' @ newline @ ''***'' @ newline) x) }
      else if di_mode x \<in> {allnoconfig, allyesconfig, allmodconfig, alldefconfig, randconfig} then read_seeds e x
      else do { (_, x) \<leftarrow> read_saved e None x; Some (True, x) })"

subsection \<open>The action of the mode\<close>

definition new_defaults ::
  "conf_env \<Rightarrow> settings \<Rightarrow> conf_def_mode \<Rightarrow> nat \<Rightarrow> dialog \<Rightarrow> ((bool \<times> nat) outcome \<times> dialog) option" where
  "new_defaults e se d k x = do {
     r \<leftarrow> conf_set_all_new_symbols (ce_host e) (ce_calc e) (ce_rand e (se_seed se)) d k (di_world x);
     Some (case r of
             Exits \<Rightarrow> (Exits, x)
           | Returns (changed, k, w) \<Rightarrow> (Returns (changed, k), put_menus ((di_menus x)\<lparr>mw := w\<rparr>) x)) }"

definition new_defaults_once :: "conf_env \<Rightarrow> settings \<Rightarrow> conf_def_mode \<Rightarrow> dialog \<Rightarrow> (bool \<times> dialog) option" where
  "new_defaults_once e se d x = do {
     (r, x) \<leftarrow> new_defaults e se d 0 x;
     Some (case r of Exits \<Rightarrow> False | Returns _ \<Rightarrow> True, x) }"

partial_function (option) new_defaults_all :: "conf_env \<Rightarrow> settings \<Rightarrow> nat \<Rightarrow> dialog \<Rightarrow> (bool \<times> dialog) option" where
  "new_defaults_all e se k x = do {
     (r, x) \<leftarrow> new_defaults e se def_random k x;
     case r of
       Exits \<Rightarrow> Some (False, x)
     | Returns ck \<Rightarrow> if fst ck then new_defaults_all e se (snd ck) x else Some (True, x) }"

definition rewrite_values :: "conf_env \<Rightarrow> conf_def_mode \<Rightarrow> dialog \<Rightarrow> dialog option" where
  "rewrite_values e d x = do {
     w \<leftarrow> conf_rewrite_mod_or_yes (ce_calc e) d (di_world x);
     Some (put_menus ((di_menus x)\<lparr>mw := w\<rparr>) x) }"

text \<open>Until a loop caused no more changes.\<close>

partial_function (option) check_all :: "conf_env \<Rightarrow> dialog \<Rightarrow> dialog option" where
  "check_all e x = do {
     x \<leftarrow> check_conf (ce_depth e) (ce_host e) (ce_calc e) (ce_tty e) (menu_tree (di_menus x)) (x\<lparr>di_cnt := 0\<rparr>);
     if di_cnt x \<noteq> 0 then check_all e x else Some x }"

definition ask_all :: "conf_env \<Rightarrow> dialog \<Rightarrow> dialog option" where
  "ask_all e x = do {
     x \<leftarrow> conf (ce_depth e) (ce_host e) (ce_calc e) (ce_tty e) (menu_tree (di_menus x)) (x\<lparr>di_root := Some rootmenu\<rparr>);
     check_all e (x\<lparr>di_mode := oldconfig\<rparr>) }"

definition goes_on :: "dialog option \<Rightarrow> (bool \<times> dialog) option" where
  "goes_on = map_option (\<lambda>x. (True, x))"

definition act :: "conf_env \<Rightarrow> settings \<Rightarrow> dialog \<Rightarrow> (bool \<times> dialog) option" where
  "act e se x =
     (case di_mode x of
        allnoconfig \<Rightarrow> new_defaults_once e se def_no x
      | allyesconfig \<Rightarrow> new_defaults_once e se def_yes x
      | allmodconfig \<Rightarrow> new_defaults_once e se def_mod x
      | alldefconfig \<Rightarrow> new_defaults_once e se def_default x
      | defconfig \<Rightarrow> new_defaults_once e se def_default x
      | randconfig \<Rightarrow> new_defaults_all e se 0 x
      | yes2modconfig \<Rightarrow> goes_on (rewrite_values e def_y2m x)
      | mod2yesconfig \<Rightarrow> goes_on (rewrite_values e def_m2y x)
      | oldaskconfig \<Rightarrow> goes_on (ask_all e x)
      | oldconfig \<Rightarrow> goes_on (check_all e x)
      | listnewconfig \<Rightarrow> goes_on (check_all e x)
      | helpnewconfig \<Rightarrow> goes_on (check_all e x)
      | syncconfig \<Rightarrow> goes_on (check_all e x)
      | savedefconfig \<Rightarrow> Some (True, x)
      | olddefconfig \<Rightarrow> Some (True, x))"

subsection \<open>Writing\<close>

definition write_autoconf :: "conf_env \<Rightarrow> bool \<Rightarrow> dialog \<Rightarrow> (bool \<times> dialog) option" where
  "write_autoconf e overwrite x = do {
     p \<leftarrow> entry_prompt rootmenu (di_menus x);
     on_front (with_files (\<lambda>cw. do {
       (ok, _, cw) \<leftarrow> conf_write_autoconf (ce_host e) (ce_calc e) (ce_files e) (shown (prop_text p)) overwrite (ce_macros e) cw;
       Some (ok, cw) })) x }"

definition stop_with :: "string \<Rightarrow> dialog \<Rightarrow> (int \<times> dialog) option" where
  "stop_with msg x = Some (1, say_err (newline @ ''*** '' @ msg @ newline @ newline) x)"

definition write_results :: "conf_env \<Rightarrow> settings \<Rightarrow> bool \<Rightarrow> dialog \<Rightarrow> (int \<times> dialog) option" where
  "write_results e se no_conf_write x =
     (if di_mode x = savedefconfig then do {
        (r, x) \<leftarrow> on_front (conf_write_defconfig (ce_host e) (ce_calc e) (se_file se)) x;
        Some (if r = 0 then (0, x)
              else (1, say_err (''n*** Error while saving defconfig to: '' @ se_file se @ newline @ newline) x)) }
      else if di_mode x = listnewconfig \<or> di_mode x = helpnewconfig then Some (0, x)
      else do {
        (r, x) \<leftarrow> (if no_conf_write then Some (0, x)
                   else on_front (conf_write (ce_host e) (ce_calc e) (ce_os e) None) x);
        if r \<noteq> 0 then stop_with ''Error during writing of the configuration.'' x
        else do {
          (ok, x) \<leftarrow> write_autoconf e (se_sync se) x;
          if \<not> ok \<and> se_sync se then stop_with ''Error during sync of the configuration.'' x
          else Some (0, x) } })"

subsection \<open>The program\<close>

definition no_silent_update :: "conf_host \<Rightarrow> bool" where
  "no_silent_update h = (case conf_getenv h ''KCONFIG_NOSILENTUPDATE'' of Some n \<Rightarrow> n \<noteq> [] | None \<Rightarrow> False)"

definition run_mode :: "conf_env \<Rightarrow> settings \<Rightarrow> dialog \<Rightarrow> (int \<times> dialog) option" where
  "run_mode e se x = do {
     (ok, x) \<leftarrow> read_mode e (se_file se) x;
     if \<not> ok then Some (1, x)
     else do {
       let keep = (se_sync se \<and> no_silent_update (ce_host e));
       if keep \<and> conf_get_changed (di_world x)
       then stop_with ''The configuration requires explicit update.'' x
       else do {
         (ok, x) \<leftarrow> act e se x;
         if \<not> ok then Some (1, x) else write_results e se keep x } } }"

definition start_dialog :: "string \<Rightarrow> conf_world \<Rightarrow> dialog" where
  "start_dialog inp cw =
     \<lparr>di_front = \<lparr>fr_menus = menu_init (kw cw), fr_files = cw\<rparr>, di_mode = oldaskconfig, di_indent = 1, di_cnt = 0,
      di_line = '''', di_root = None, di_in = inp, di_out = '''', di_err = ''''\<rparr>"

definition parsed :: "menu_world \<Rightarrow> dialog \<Rightarrow> dialog" where
  "parsed st x =
     x\<lparr>di_front := \<lparr>fr_menus = st, fr_files = (fr_files (di_front x))\<lparr>sym_defconfig_list := defconfig_option st\<rparr>\<rparr>\<rparr>"

definition start_settings :: settings where
  "start_settings = \<lparr>se_mode = oldaskconfig, se_silent = False, se_sync = False, se_file = '''', se_seed = 1, se_err = ''''\<rparr>"

definition conf_main :: "conf_env \<Rightarrow> string \<Rightarrow> conf_option list \<Rightarrow> string list \<Rightarrow> dialog \<Rightarrow> (int \<times> dialog) option" where
  "conf_main e progname opts args x =
     (let (known, se) = take_options (ce_host e) (ce_time e) opts start_settings;
          x = say_err (se_err se) (x\<lparr>di_mode := se_mode se\<rparr>)
      in if \<not> known then Some (1, conf_usage progname x)
         else (case args of
                 [] \<Rightarrow> Some (1, conf_usage progname (say_err (progname @ '': Kconfig file missing'' @ newline) x))
               | name # _ \<Rightarrow> do {
                   r \<leftarrow> (case ce_parse e name of (title, ss) \<Rightarrow> conf_parse (ce_check e) title ss (di_world x));
                   case r of
                     Exits \<Rightarrow> Some (1, x)
                   | Returns st \<Rightarrow> run_mode e se (parsed st x) }))"

end
