(* ===== verification/Kconf_Talk.thy ===== *)
theory Kconf_Talk
  imports Kconf_Main Kconf_Order
begin

text \<open>
  The dialogue of \<open>conf\<close> leaves the structure of the menus alone: whatever is asked, answered and
  shown, the tree and the parents of the entries are the ones that \<open>menu_finalize\<close> left, so that
  the configuration that is written afterwards is written in the order of the statements.
\<close>

subsection \<open>Steps that leave the tree alone\<close>

text \<open>The menus in a result, if there is one, have the structure of \<open>a\<close>.\<close>

definition leaves_place :: "menu_world \<Rightarrow> ('b \<Rightarrow> menu_world) \<Rightarrow> 'b option \<Rightarrow> bool" where
  "leaves_place a at q \<longleftrightarrow> (\<forall>x. q = Some x \<longrightarrow> same_place a (at x))"

named_theorems stays \<open>steps of a report or a dialogue that leave the tree alone\<close>

lemma leaves_Some [stays]: "same_place a (at x) \<Longrightarrow> leaves_place a at (Some x)"
  by (simp add: leaves_place_def)

lemma leaves_None [stays]: "leaves_place a at None"
  by (simp add: leaves_place_def)

lemma leaves_bind:
  "leaves_place a at q \<Longrightarrow> (\<And>x. same_place a (at x) \<Longrightarrow> leaves_place a at' (f x)) \<Longrightarrow>
   leaves_place a at' (Option.bind q f)"
  by (auto simp: leaves_place_def bind_eq_Some_conv)

text \<open>The instances for menus and reports, alone and with another result.\<close>

lemmas leaves_bind_menus [stays] =
  leaves_bind[where at = "\<lambda>st. st"] leaves_bind[where at = "\<lambda>x. snd x"]

lemmas leaves_bind_report [stays] =
  leaves_bind[where at = r_menus] leaves_bind[where at = "\<lambda>x. r_menus (snd x)"]

lemma leaves_if [stays]:
  "(c \<Longrightarrow> leaves_place a at p) \<Longrightarrow> (\<not> c \<Longrightarrow> leaves_place a at q) \<Longrightarrow> leaves_place a at (if c then p else q)"
  by simp

lemma leaves_option [stays]:
  "leaves_place a at p \<Longrightarrow> (\<And>y. leaves_place a at (f y)) \<Longrightarrow> leaves_place a at (case z of None \<Rightarrow> p | Some y \<Rightarrow> f y)"
  by (cases z) simp_all

lemma leaves_pair [stays]:
  "(\<And>x y. z = (x, y) \<Longrightarrow> leaves_place a at (f x y)) \<Longrightarrow> leaves_place a at (case z of (x, y) \<Rightarrow> f x y)"
  by (cases z) simp

text \<open>A result without menus.\<close>

lemma leaves_other: "leaves_place a (\<lambda>_. a) q"
  by (simp add: leaves_place_def)

lemma leaves_calc [stays]: "same_place a st \<Longrightarrow> leaves_place a (\<lambda>x. snd x) (with_calc f st)"
  by (auto simp: leaves_place_def with_calc_def bind_eq_Some_conv)

lemma leaves_calc_on [stays]: "same_place a st \<Longrightarrow> leaves_place a (\<lambda>st. st) (calc_on calc s st)"
  by (auto simp: leaves_place_def calc_on_def bind_eq_Some_conv)

lemma leaves_visible [stays]:
  "same_place a st \<Longrightarrow> leaves_place a (\<lambda>x. snd x) (entry_is_visible calc m st)"
  "same_place a st \<Longrightarrow> leaves_place a (\<lambda>x. snd x) (menu_is_visible calc t st)"
  by (auto simp: leaves_place_def dest: entry_visible_place visible_place(1) intro: same_place_trans)

subsection \<open>Reports\<close>

abbreviation report_place :: "'a \<times> report \<Rightarrow> menu_world" where
  "report_place \<equiv> \<lambda>x. r_menus (snd x)"

lemma put_texts_stay [simp]:
  "r_menus (put_text s r) = r_menus r" "r_menus (put_format s r) = r_menus r" "r_menus (get_def_str m r) = r_menus r"
  "r_menus (add_jump j r) = r_menus r"
  by (simp_all add: put_text_def put_format_def get_def_str_def add_jump_def)

lemma put_with_stays [stays]: "same_place a (r_menus r) \<Longrightarrow> leaves_place a r_menus (put_with f r)"
  by (auto simp: leaves_place_def put_with_def bind_eq_Some_conv)

lemma dep_str_stays [stays]: "same_place a (r_menus r) \<Longrightarrow> leaves_place a r_menus (get_dep_str calc e p r)"
  unfolding get_dep_str_def by (auto intro!: stays)

lemma locations_stay [stays]: "same_place a st \<Longrightarrow> leaves_place a (\<lambda>x. snd x) (locations n calc m st)"
proof (induction n arbitrary: m st)
  case (Suc n)
  then show ?case
    unfolding locations.simps
    by (intro leaves_if leaves_bind[OF leaves_other, where q = m]) (auto intro!: stays Suc.IH)
qed (simp add: stays)

lemma value_text_stays [stays]: "same_place a (r_menus r) \<Longrightarrow> leaves_place a report_place (sym_value_text calc s r)"
  unfolding sym_value_text_def by (auto intro!: stays leaves_bind[OF leaves_other])

lemma location_value_stays [stays]: "same_place a (r_menus r) \<Longrightarrow> leaves_place a r_menus (put_location_value calc m r)"
  unfolding put_location_value_def by (auto intro!: stays)

lemma put_locations_stay [stays]:
  "same_place a (r_menus r) \<Longrightarrow> leaves_place a report_place (put_locations calc here j ms (k, r))"
  by (induction ms arbitrary: j k r) (auto simp: Let_def intro!: stays)

lemma location_block_stays [stays]:
  "same_place a (r_menus r) \<Longrightarrow> leaves_place a report_place (put_location_block calc here ms r)"
  unfolding put_location_block_def by (auto intro!: stays)

lemma jump_stays [stays]: "same_place a (r_menus r) \<Longrightarrow> leaves_place a report_place (jump_to calc m here r)"
  unfolding jump_to_def by (auto intro!: stays)

lemma prompt_str_stays [stays]: "same_place a (r_menus r) \<Longrightarrow> leaves_place a r_menus (get_prompt_str calc p r)"
  unfolding get_prompt_str_def Let_def
  by (rule leaves_bind[OF leaves_other]) (auto intro!: stays)

lemma props_stay [stays]: "same_place a (r_menus r) \<Longrightarrow> leaves_place a r_menus (put_props calc lead ps r)"
  by (induction ps arbitrary: lead r) (auto intro!: stays)

lemma symbol_props_stay [stays]:
  "same_place a (r_menus r) \<Longrightarrow> leaves_place a r_menus (get_symbol_props_str calc s tok p r)"
  unfolding get_symbol_props_str_def Let_def by (auto intro!: stays)

lemma range_stays [stays]: "same_place a (r_menus r) \<Longrightarrow> leaves_place a r_menus (put_range calc s r)"
  unfolding put_range_def Let_def
  by (rule leaves_bind[OF leaves_other]) (auto intro!: stays)

lemma symbol_stays [stays]: "same_place a (r_menus r) \<Longrightarrow> leaves_place a r_menus (put_symbol calc s r)"
  unfolding put_symbol_def Let_def by (auto intro!: stays)

lemma definition_stays [stays]: "same_place a (r_menus r) \<Longrightarrow> leaves_place a r_menus (put_definition calc b p r)"
  unfolding put_definition_def by (rule leaves_bind[OF leaves_other]) (auto intro!: stays)

lemma revdep_stays [stays]: "same_place a (r_menus r) \<Longrightarrow> leaves_place a r_menus (put_revdep calc t e r)"
  unfolding put_revdep_def by (auto intro!: stays)

lemma each_stays [stays]:
  assumes "\<And>x r. same_place a (r_menus r) \<Longrightarrow> leaves_place a r_menus (f x r)"
  shows "same_place a (r_menus r) \<Longrightarrow> leaves_place a r_menus (each f xs r)"
  by (induction xs arbitrary: r) (auto intro!: stays assms)

lemma symbol_str_stays [stays]: "same_place a (r_menus r) \<Longrightarrow> leaves_place a r_menus (get_symbol_str calc s r)"
  unfolding get_symbol_str_def Let_def by (auto intro!: stays)

lemma help_stays [stays]: "same_place a (r_menus r) \<Longrightarrow> leaves_place a r_menus (menu_get_ext_help h calc m r)"
proof -
  assume "same_place a (r_menus r)"
  then have "leaves_place a r_menus (put_help h m r)"
    unfolding put_help_def Let_def
    by (auto intro!: stays leaves_bind[OF leaves_other] split: option.split)
  then show ?thesis
    unfolding menu_get_ext_help_def by (rule leaves_bind) (auto intro!: stays)
qed

subsection \<open>The dialogue\<close>

lemmas leaves_bind_dialog [stays] =
  leaves_bind[where at = di_menus] leaves_bind[where at = "\<lambda>x. di_menus (snd x)"]

lemma dialog_fields [simp]:
  "di_menus (say s x) = di_menus x" "di_menus (say_err s x) = di_menus x" "di_menus (put_menus st x) = st"
  "di_menus (x\<lparr>di_line := l\<rparr>) = di_menus x" "di_menus (x\<lparr>di_indent := i\<rparr>) = di_menus x"
  "di_menus (x\<lparr>di_cnt := n\<rparr>) = di_menus x" "di_menus (x\<lparr>di_root := r\<rparr>) = di_menus x"
  "di_menus (x\<lparr>di_mode := m\<rparr>) = di_menus x" "di_menus (x\<lparr>di_in := s\<rparr>) = di_menus x"
  by (simp_all add: di_menus_def say_def say_err_def put_menus_def)

lemma xfgets_menus [simp]: "di_menus (xfgets tty x) = di_menus x"
  by (simp add: xfgets_def Let_def split_beta)

lemma askvalue_menus: "conf_askvalue tty s def x = (b, y) \<Longrightarrow> di_menus y = di_menus x"
  by (auto simp: conf_askvalue_def Let_def split: if_splits)

lemma announce_menus [simp]: "di_menus (announce m x) = di_menus x"
  by (simp add: announce_def split: option.split)

lemma on_menus_stays [stays]:
  "leaves_place a (\<lambda>x. snd x) (f (di_menus x)) \<Longrightarrow> leaves_place a (\<lambda>x. di_menus (snd x)) (on_menus f x)"
  by (auto simp: leaves_place_def on_menus_def bind_eq_Some_conv)

lemma on_world_stays [stays]:
  "same_place a (di_menus x) \<Longrightarrow> leaves_place a (\<lambda>x. di_menus (snd x)) (on_world f x)"
  unfolding on_world_def by (intro stays)

lemma print_help_stays [stays]:
  "same_place a (di_menus x) \<Longrightarrow> leaves_place a di_menus (print_help h calc m x)"
  unfolding print_help_def by (auto intro!: stays)

lemma answered_text_stays [stays]:
  "same_place a (di_menus x) \<Longrightarrow> leaves_place a (\<lambda>x. di_menus (snd x)) (answered_text h calc m def x)"
  unfolding answered_text_def Let_def by (auto intro!: stays)

lemma leaves_asked:
  "conf_askvalue tty s def x = z \<Longrightarrow> same_place a (di_menus x) \<Longrightarrow> same_place a (di_menus (snd z))"
  using askvalue_menus by (metis prod.collapse)

lemma leaves_placeD: "leaves_place a at q \<Longrightarrow> q = Some x \<Longrightarrow> same_place a (at x)"
  by (simp add: leaves_place_def)

lemma case_say_menus [simp]: "di_menus (case z of None \<Rightarrow> x | Some t \<Rightarrow> say (f t) x) = di_menus x"
  by (simp split: option.split)

lemma repeats_stays [stays]: "same_place a (di_menus x) \<Longrightarrow> leaves_place a (\<lambda>x. di_menus (snd x)) (repeats x)"
  by (simp add: repeats_def stays)

lemma stops_stays [stays]: "same_place a (di_menus x) \<Longrightarrow> leaves_place a (\<lambda>x. di_menus (snd x)) (stops r x)"
  by (simp add: stops_def stays)

lemma rounds_stay:
  fixes f :: "dialog \<Rightarrow> ('r option \<times> dialog) option"
  assumes "\<And>x. same_place a (di_menus x) \<Longrightarrow> leaves_place a (\<lambda>x. di_menus (snd x)) (f x)"
  shows "same_place a (di_menus x) \<Longrightarrow> leaves_place a (\<lambda>x. di_menus (snd x)) (rounds f x)"
proof (induction arbitrary: x rule: rounds.fixp_induct)
  case 1
  have "(\<lambda>g :: _ \<Rightarrow> ('r \<times> dialog) option. \<forall>x. same_place a (di_menus x) \<longrightarrow> leaves_place a (\<lambda>x. di_menus (snd x)) (curry g f x)) =
      (\<lambda>g. \<forall>p y. g p = Some y \<longrightarrow> fst p = f \<and> same_place a (di_menus (snd p)) \<longrightarrow> same_place a (di_menus (snd y)))"
    by (rule ext) (auto simp: leaves_place_def)
  then show ?case
    by (simp only:) (rule option_admissible)
next
  case 2
  then show ?case by (simp add: leaves_place_def)
next
  case (3 g)
  then show ?case
    by (auto intro!: stays assms)
qed

lemma leaves_answer [stays]:
  "(\<And>v. leaves_place a at (f v)) \<Longrightarrow> leaves_place a at p \<Longrightarrow> leaves_place a at q \<Longrightarrow>
   leaves_place a at (case z of Answer v \<Rightarrow> f v | Asks_help \<Rightarrow> p | Asks_again \<Rightarrow> q)"
  by (cases z) simp_all

lemma leaves_tristate [stays]:
  "leaves_place a at p \<Longrightarrow> leaves_place a at q \<Longrightarrow> leaves_place a at r \<Longrightarrow>
   leaves_place a at (case t of T_no \<Rightarrow> p | T_mod \<Rightarrow> q | T_yes \<Rightarrow> r)"
  by (cases t) simp_all

lemma entry_text_other: "leaves_place a (\<lambda>_. a) (entry_text m x)"
  by (rule leaves_other)

lemma string_round_stays:
  "same_place a (di_menus x) \<Longrightarrow> leaves_place a (\<lambda>x. di_menus (snd x)) (string_round h calc tty m s x)"
  unfolding string_round_def Let_def
  by (rule leaves_bind[OF entry_text_other]) (auto intro!: stays dest!: leaves_asked)

lemma conf_string_stays [stays]:
  "same_place a (di_menus x) \<Longrightarrow> leaves_place a di_menus (conf_string h calc tty m s x)"
  unfolding conf_string_def by (auto intro!: stays rounds_stay string_round_stays)

lemma sym_round_stays:
  "same_place a (di_menus x) \<Longrightarrow> leaves_place a (\<lambda>x. di_menus (snd x)) (sym_round h calc tty m s x)"
  unfolding sym_round_def Let_def
  by (rule leaves_bind[OF entry_text_other]) (auto intro!: stays dest!: leaves_asked)

lemma conf_sym_stays [stays]:
  "same_place a (di_menus x) \<Longrightarrow> leaves_place a di_menus (conf_sym h calc tty m s x)"
  unfolding conf_sym_def by (auto intro!: stays rounds_stay sym_round_stays)

lemma open_choice_stays [stays]:
  "same_place a (di_menus x) \<Longrightarrow> leaves_place a (\<lambda>x. di_menus (snd x)) (open_choice h calc tty m s x)"
  unfolding open_choice_def Let_def by (auto intro!: stays)

lemma list_values_stays [stays]:
  "same_place a (di_menus x) \<Longrightarrow> leaves_place a (\<lambda>x. di_menus (snd x)) (list_values calc d ts n x)"
  by (induction ts arbitrary: n x) (auto intro!: stays)

lemma read_choice_stays [stays]:
  "same_place a (di_menus x) \<Longrightarrow> leaves_place a (\<lambda>x. di_menus (snd x)) (read_choice h calc tty m b cnt d x)"
  unfolding read_choice_def Let_def by (auto intro!: stays)

lemma nth_visible_stays [stays]:
  "same_place a (di_menus x) \<Longrightarrow> leaves_place a (\<lambda>x. di_menus (snd x)) (nth_visible calc ts cnt i x)"
  by (induction ts arbitrary: cnt i x) (auto intro!: stays)

lemma choice_round_stays:
  "same_place a (di_menus x) \<Longrightarrow> leaves_place a (\<lambda>x. di_menus (snd x)) (choice_round h calc tty t s b x)"
  unfolding choice_round_def Let_def
  by (auto intro!: stays leaves_bind[OF leaves_other, where q = "entry_sym _ _"])

lemma conf_choice_stays [stays]:
  "same_place a (di_menus x) \<Longrightarrow> leaves_place a (\<lambda>x. di_menus (snd x)) (conf_choice h calc tty t s x)"
  unfolding conf_choice_def Let_def by (auto intro!: stays rounds_stay choice_round_stays)

lemma ask_one_stays [stays]:
  "same_place a (di_menus x) \<Longrightarrow> leaves_place a di_menus (ask_one h calc tty m s x)"
  unfolding ask_one_def Let_def by (auto intro!: stays)

lemma indented_stays [stays]:
  "leaves_place a di_menus (f (x\<lparr>di_indent := di_indent x + 2\<rparr>)) \<Longrightarrow> leaves_place a di_menus (indented f x)"
  unfolding indented_def by (auto intro!: stays)

lemma list_new_stays [stays]: "same_place a (di_menus x) \<Longrightarrow> leaves_place a di_menus (list_new h calc s x)"
  unfolding list_new_def
  by (auto intro!: stays leaves_bind[OF leaves_other, where q = "map_option _ _"])

lemma help_new_stays [stays]: "same_place a (di_menus x) \<Longrightarrow> leaves_place a di_menus (help_new h calc m x)"
  unfolding help_new_def by (auto intro!: stays)

subsection \<open>The walks\<close>

lemma conf_trees_stay:
  assumes "\<And>t x. same_place a (di_menus x) \<Longrightarrow> leaves_place a di_menus (check t x)"
  shows "same_place a (di_menus x) \<Longrightarrow> leaves_place a di_menus (conf_tree check h calc tty t x)"
proof -
  let ?tree = "\<lambda>t. \<forall>x. same_place a (di_menus x) \<longrightarrow> leaves_place a di_menus (conf_tree check h calc tty t x) \<and>
      leaves_place a di_menus (conf_below check h calc tty t x)"
  let ?trees = "\<lambda>ts. \<forall>x. same_place a (di_menus x) \<longrightarrow> leaves_place a di_menus (conf_trees check h calc tty ts x) \<and>
      (\<forall>i. leaves_place a di_menus (conf_value check h calc tty i ts x))"
  have "?tree t"
  proof (rule tree_list_induct(1)[where P = ?tree and Q = ?trees])
    fix m ts
    assume "?trees ts"
    then have ts: "leaves_place a di_menus (conf_trees check h calc tty ts x)"
      "leaves_place a di_menus (conf_value check h calc tty i ts x)" if "same_place a (di_menus x)" for x i
      using that by blast+
    show "?tree (Entry m ts)"
      by (auto simp: Let_def intro!: stays assms ts)
  qed (auto intro!: stays)
  then show "same_place a (di_menus x) \<Longrightarrow> leaves_place a di_menus (conf_tree check h calc tty t x)"
    by blast
qed

lemma ask_again_stays:
  assumes "\<And>t x. same_place a (di_menus x) \<Longrightarrow> leaves_place a di_menus (ask t x)"
  shows "same_place a (di_menus x) \<Longrightarrow> leaves_place a di_menus (ask_again ask m x)"
  unfolding ask_again_def Let_def
  by (intro leaves_bind[OF leaves_other, where q = "menu_get_parent_menu _ _"]
      leaves_bind[OF leaves_other, where q = "find_entry _ _"] assms) simp

lemma check_tree_stays:
  assumes "\<And>t x. same_place a (di_menus x) \<Longrightarrow> leaves_place a di_menus (ask t x)"
  shows "same_place a (di_menus x) \<Longrightarrow> leaves_place a di_menus (check_tree ask h calc t x)"
    and "same_place a (di_menus x) \<Longrightarrow> leaves_place a di_menus (check_trees ask h calc ts x)"
proof (induction t and ts arbitrary: x and x rule: tree_list_induct)
  case (1 m ts)
  then show ?case
    by (auto simp: new_value_def intro!: stays ask_again_stays assms)
qed (auto intro!: stays)

lemma check_conf_stays:
  "same_place a (di_menus x) \<Longrightarrow> leaves_place a di_menus (check_conf n h calc tty t x)"
proof (induction n arbitrary: t x)
  case (Suc n)
  then show ?case
    unfolding check_conf.simps by (intro check_tree_stays(1) conf_trees_stay)
qed (simp add: stays)

lemma conf_stays: "same_place a (di_menus x) \<Longrightarrow> leaves_place a di_menus (conf n h calc tty t x)"
  unfolding conf_def by (intro conf_trees_stay check_conf_stays)

lemma check_all_stays:
  "same_place a (di_menus x) \<Longrightarrow> leaves_place a di_menus (check_all e x)"
proof (induction arbitrary: x rule: check_all.fixp_induct)
  case 1
  have "(\<lambda>g :: _ \<Rightarrow> dialog option. \<forall>x. same_place a (di_menus x) \<longrightarrow> leaves_place a di_menus (curry g e x)) =
      (\<lambda>g. \<forall>p y. g p = Some y \<longrightarrow> fst p = e \<and> same_place a (di_menus (snd p)) \<longrightarrow> same_place a (di_menus y))"
    by (rule ext) (auto simp: leaves_place_def)
  then show ?case
    by (simp only:) (rule option_admissible)
next
  case (3 g)
  then show ?case
    by (auto intro!: stays leaves_bind[where at = di_menus, OF check_conf_stays])
qed (simp add: leaves_place_def)

text \<open>
  So the menus that are written after a dialogue are in the place that \<open>menu_finalize\<close> gave them,
  which is what the order of the written configuration needs.
\<close>

lemma dialogue_keeps_menus:
  assumes "check_all e x = Some y \<or> ask_all e x = Some y"
  shows "same_place (di_menus x) (di_menus y)"
proof -
  have "leaves_place (di_menus x) di_menus (ask_all e x)"
    unfolding ask_all_def
    by (rule leaves_bind[where at = di_menus, OF conf_stays]) (simp_all add: check_all_stays)
  then show ?thesis
    using assms check_all_stays[of "di_menus x" x e] leaves_placeD by fastforce
qed

end
