(* ===== verification/Spec2Isabelle.thy ===== *)
theory Spec2Isabelle
  imports Rtl_Props Api Kdups_Props Fixdep_Props Kchange_Props Kcheck_Ends Kpreproc_Props Kconf_Save Kconf_Talk
begin

text \<open>
  Verification library of OpenGPU.

  OpenGPU is a small RISC-V GPU with three implementations of the hardware, a host runtime that
  launches programs on it, and the tools that configure and build it. This development models the
  C and C++ code of the simulator host (\<open>sw/\<close>) and of the build tools (\<open>tools/\<close>).

  \<^bold>\<open>The parts and how they interact.\<close>

  An application calls the public functions of \<open>sw/runtime/gpu/gpu.c\<close>: open the device, allocate
  device memory, copy data, create a kernel, launch it on a grid of thread blocks, wait. The
  runtime keeps a table of allocations and hands a launch to the model behind
  \<open>sw/sim/model.cpp\<close>. That is the functional simulator \<open>sw/sim/sm/iss.cpp\<close>, one hart per thread of
  the grid and a round-robin scheduler over them, or the hardware harness \<open>sw/sim/hm/rtl.cpp\<close>,
  which clocks the Verilated RTL. The RTL reads and writes the physical memory
  (\<open>sw/runtime/device/memory.c\<close>) through the DPI functions of \<open>sw/sim/hm/dpi.cpp\<close>. With DiffTest on, the
  harness also clocks the cycle model \<open>sw/sim/hm/difftest.cpp\<close> (a dispatcher for thread blocks and
  multi-warp cores with divergence stacks) on the same inputs and compares, after every edge,
  the words of its state, its stores and its memory with those of the RTL; and the runtime
  first runs every launch on the functional simulator and compares the two memories at the end.

  The topology of the device comes from Kconfig (\<open>tools/kconfig\<close>). The statements of the Kconfig
  files, with macros expanded (\<open>preprocess.c\<close>), become symbols with conditions (\<open>symbol.c\<close>,
  \<open>expr.c\<close>) and a tree of menu entries that \<open>menu_finalize\<close> completes (\<open>menu.c\<close>). The values of the
  symbols are computed on demand; \<open>confdata.c\<close> reads and writes \<open>.config\<close> and the files that the
  build reads. \<open>tools/fixdep/fixdep.c\<close> replaces the dependency on the whole configuration by one on
  each option that a source mentions.

  \<^bold>\<open>Theories and files.\<close> Each theory names the functions of its file as the code does; a suffix
  is added where HOL has the name.

  \<^item> \<open>Prelude\<close>, \<open>Cstring\<close>: word types, the generated constants as the record \<open>gpu_config\<close>, the C
    library functions on strings; the collections \<open>pmem_simps\<close> and \<open>frame_simps\<close>.
  \<^item> \<open>Pmem\<close>: \<open>memory.c\<close>. PMEM is a function from byte offsets to bytes.
  \<^item> \<open>Trace\<close>, \<open>Allocator\<close>, \<open>Runtime\<close>, \<open>Startup\<close>: \<open>gpu.c\<close>, \<open>gpu.h\<close>, \<open>runtime.h\<close> and \<open>launcher.cpp\<close>. The static
    variables are the record \<open>runtime\<close>; a device or kernel pointer is a handle, which can be
    stale; every function returns its \<open>gpu_result_t\<close> with the new state.
  \<^item> \<open>Iss\<close>: \<open>iss.cpp\<close> and \<open>backend.h\<close>. The simulator is the record of its cores and the round-robin pointer.
  \<^item> \<open>Cycle_Core\<close>, \<open>Cycle_Kmu\<close>: \<open>difftest.cpp\<close>. The structs \<open>Core\<close> and \<open>Model\<close> are the records \<open>ccore\<close> and
    \<open>model\<close>, with arrays as functions of the index.
  \<^item> \<open>Rtl\<close>, \<open>Gpu_Model\<close>: \<open>dpi.cpp\<close>, \<open>rtl.cpp\<close> and \<open>model.cpp\<close>. The Verilated design is a parameter, the
    record \<open>verilated\<close> of its port functions.
  \<^item> \<open>Fixdep\<close>: \<open>fixdep.c\<close>. The file system is a parameter.
  \<^item> \<open>Kconfig\<close>: \<open>expr.h\<close> and \<open>lkc.h\<close>. A symbol pointer is a name, the symbols are the table \<open>syms\<close> of the
    record \<open>kworld\<close>; an expression pointer is the tree that it owns.
  \<^item> \<open>Kexpr\<close>, \<open>Kvalue\<close>: \<open>expr.c\<close> and the growable strings of \<open>util.c\<close>.
  \<^item> \<open>Ksymbol\<close>, \<open>Kcheck\<close>: \<open>symbol.c\<close>; the recursion through \<open>sym_calc_value\<close> is the argument \<open>calc\<close>.
  \<^item> \<open>Kpreproc\<close>: \<open>preprocess.c\<close>. The environment, the shell and the position are a parameter.
  \<^item> \<open>Kconfdata\<close>, \<open>Kconfwrite\<close>, \<open>Kconf_Menu\<close>: \<open>confdata.c\<close>, with the files as the record \<open>file_system\<close>
    and the rest of the host as the parameter \<open>conf_host\<close>.
  \<^item> \<open>Kmenu\<close>, \<open>Kfinalize\<close>, \<open>Kparse\<close>, \<open>Kmenu_Show\<close>: \<open>menu.c\<close> and the actions of \<open>parser.y\<close>. An entry is a
    number, its fields are the table \<open>menus\<close>, and the pointers \<open>list\<close> and \<open>next\<close> are a tree.
  \<^item> \<open>Kconf_Ask\<close>, \<open>Kconf_Main\<close>: \<open>conf.c\<close>. The static variables, standard input and output are the record
    \<open>dialog\<close>.

  \<^bold>\<open>What the lemmas show.\<close>

  \<^item> \<open>Iss_Props\<close>: the invariant of the simulator, isolation of a step, fair scheduling, the
    coordinates of every launched thread.
  \<^item> \<open>Cycle_Props\<close>: the running mask and the deferred masks of a warp are disjoint sets of lanes;
    what a branch and \<open>ebreak\<close> do to them; the divergence stack cannot overflow with nine lanes.
  \<^item> \<open>Kmu_Props\<close>: the dispatcher hands out the blocks of the grid in order, each once.
  \<^item> \<open>Diff_Props\<close>: the packed words determine the visible state; the comparison of stores is
    multiset equality; the comparison of dirty bytes is that of the whole memory.
  \<^item> \<open>Heap_Props\<close>, \<open>Runtime_Props\<close>, \<open>Launch_Props\<close>, \<open>Api\<close>: first fit, survival of allocated data, copies
    between host and device, the guards of a launch, what a launch starts, what a failed one
    leaves, and an invariant of all states that the public calls reach (\<open>api_reachable\<close>).
  \<^item> \<open>Rtl_Props\<close>: a wait that succeeds has compared every edge, and three models agree.
  \<^item> \<open>Kexpr_Props\<close>, \<open>Kdups_Props\<close>: the rewriting of expressions keeps their values, and ends.
  \<^item> \<open>Ksymbol_Props\<close>, \<open>Kdepth\<close>, \<open>Krange_Props\<close>, \<open>Kchange_Props\<close>: computing values ends, fits types, ranges
    and selects, and changes nothing that the user set; which values can be set.
  \<^item> \<open>Kcheck_Props\<close>, \<open>Kcheck_Ends\<close>: the check for recursive dependencies is sound and ends.
  \<^item> \<open>Kmenu_Props\<close>, \<open>Kmenu_Order\<close>, \<open>Kmenu_Total\<close>, \<open>Kparse_Props\<close>, \<open>Kparse_Order\<close>, \<open>Kparse_Ends\<close>: every
    configuration of the grammar is read and finalized, with all entries in order.
  \<^item> \<open>Kconf_Props\<close>, \<open>Kconf_Files\<close>, \<open>Kconf_Walk\<close>, \<open>Kconf_Order\<close>, \<open>Kconf_Save\<close>: a written configuration is
    read back, in which order files are replaced, which entries are written and in which
    order, what is left of the old configuration when saving fails.
  \<^item> \<open>Kconf_Talk\<close>: no dialogue of \<open>conf\<close> changes the structure of the menus that is then written.
  \<^item> \<open>Kpreproc_Props\<close>: macro expansion ends; assignment and reference; the number of arguments.
  \<^item> \<open>Fixdep_Props\<close>: the scan finds exactly the mentioned options, and no prerequisite is lost.

  \<^bold>\<open>Interfaces.\<close> Each locale states what a client relies on and is interpreted on the model:
  \<open>word_store\<close> on PMEM (\<open>pm\<close>), \<open>block_heap\<close> on the runtime's heap (\<open>rt_heap\<close>), \<open>sound_comparison\<close> on
  \<open>expr_same\<close> (\<open>same\<close>), \<open>value_calculator\<close> on \<open>sym_calc_value\<close> (\<open>calc\<close>), \<open>agreeing_calculators\<close> on two
  depths of it (\<open>depth\<close>), \<open>dependency_checker\<close> and its extension \<open>sound_checker\<close> on \<open>sym_check_deps\<close>
  (\<open>dependency\<close>), \<open>clause_evaluator\<close> on \<open>eval_clause\<close> (\<open>clause\<close>), \<open>menu_walk\<close> on the walks of \<open>conf_write\<close> and
  \<open>conf_write_defconfig\<close> (\<open>config_walk\<close>, \<open>defconfig_walk\<close>).

  \<^bold>\<open>Loops and recursion.\<close>

  \<^item> Loops that might not end are \<open>partial_function (option)\<close> and proved to return: the search for
    a free address (\<open>alloc_search\<close>, C14), the passes of \<open>expr_eliminate_dups\<close> (C25), the walks
    over the menus (C33).
  \<^item> \<open>sym_calc_value\<close> has a recursion depth. \<open>work_bound k w\<close> bounds the computations that are
    outstanding (symbols without \<open>SYMBOL_VALID\<close> and choices whose values are to be set); depth
    \<open>k + 1\<close> is then enough, since a call below it may return anything without an effect on the
    result (C27). \<open>None\<close> at such a depth is a null pointer that the code reads.
  \<^item> \<open>eval_clause\<close> has a depth; \<open>expansion_depth\<close>, computed from the text and the variables, is
    enough for every expansion (C37): the fault \<open>PP_Depth\<close> does not occur.
  \<^item> \<open>sym_check_deps\<close> has a depth; twice the number of symbols and one is enough (C35).
  \<^item> \<open>expr_eq\<close> and \<open>expr_eliminate_eq\<close> call each other on smaller operands; the depth of the trees
    bounds them, and C24 shows that the recursion of the code is obeyed.
  \<^item> \<open>conf\<close> and \<open>check_conf\<close> call each other to a depth that is a parameter, and the loops of \<open>conf.c\<close> can
    repeat without end; nothing is claimed about their termination.
  \<^item> \<open>GPU_WAIT_LIMIT\<close> is the limit of steps of \<open>gpu_wait\<close> in the code; reaching it is a timeout
    that the code reports. \<open>menu_finalize\<close>, \<open>settle_children\<close>, \<open>expr_transform\<close> and the scanners end by
    a measure. \<open>upper_visibility\<close> follows parents, which have smaller numbers.

  \<^bold>\<open>Assumptions that C code does not check.\<close> At most 32 lanes and cores fit the masks of the cycle
  model (\<open>simt_config\<close>); the topology satisfies the ranges of its Kconfig file (\<open>config_ok\<close>). Addresses
  of strings decide one comparison of \<open>sym_calc_value\<close> and are the parameter \<open>addr\<close>. Files have no
  NUL characters, and a write to a file that could be opened succeeds: the results of
  \<open>fprintf\<close>, \<open>fclose\<close> and \<open>printf\<close> are not modelled. What is read behind the end of a string or an
  array has no result (\<open>unquote\<close>) or is a reported fault (\<open>reference_arity\<close>), except behind a last
  line that is a single \<open>#\<close>, where the model reads NULs.

  \<^bold>\<open>Not modelled.\<close> The lexer (\<open>lexer.l\<close>) and the tables of the generated parser: a configuration
  is the list of its statements. Printing of all menus for debugging (\<open>zconfdump\<close>). The
  front end \<open>mconf.c\<close> with \<open>lxdialog\<close>, a dialogue on the modelled operations with ncurses; of
  \<open>conf.c\<close> the recognition of options, which \<open>getopt_long\<close> does. The rest of \<open>util.c\<close> (the table of file names and the
  allocation functions) and \<open>list.h\<close>. Releasing memory (\<open>expr_free\<close>). The text of the report on recursive
  dependencies (\<open>dep_stack\<close>). Waveforms (\<open>dump_wave\<close>). The programs of the device
  (\<open>sw/kernel\<close>) and the tests, which run on the simulated processor and are not part of
  the host. The hardware in Chisel, Spinal and SystemVerilog, from which the Verilated design
  is generated: it is the parameter of \<open>Rtl\<close>.
\<close>

end
